(* ===== verification/Prelude.thy ===== *)
theory Prelude
  imports Complex_Main "HOL-Library.List_Lexorder" "HOL-Library.Char_ord" "HOL-Library.Product_Lexorder"
    "HOL-Library.Multiset"
begin

text \<open>
  Shared vocabulary of the development: Python exceptions as values, the result type and its
  monadic combinators, the string helpers the sources use in messages (\<^verbatim>\<open>str.join\<close>,
  \<^verbatim>\<open>repr\<close>, decimal rendering), association lists for insertion-ordered
  dictionaries, and generic facts on sorting and on worklist searches.

  Identifiers and diagnostic texts are HOL strings, compared lexicographically by character
  code (\<^verbatim>\<open>List_Lexorder\<close>, \<^verbatim>\<open>Char_ord\<close>), which is Python's order on the ASCII
  identifiers that the source grammar admits.
\<close>

section \<open>Collections of facts\<close>

named_theorems result_simps "rewriting of result-monad terms"
named_theorems result_elims "inversion of successful results"

section \<open>Python exceptions and results\<close>

datatype py_error =
    ValueError string
  | KeyError string
  | IndexError string
  | TypeErr string
  | AssertionErr string
  | AttributeErr string
  | OverflowErr
  | RecursionErr

type_synonym 'a result = "py_error + 'a"

abbreviation Ok :: "'a \<Rightarrow> 'a result" where
  "Ok x \<equiv> Inr x"

abbreviation Raise :: "py_error \<Rightarrow> 'a result" where
  "Raise e \<equiv> Inl e"

fun bind_result :: "'e + 'a \<Rightarrow> ('a \<Rightarrow> 'e + 'b) \<Rightarrow> 'e + 'b" where
  "bind_result (Inl e) f = Inl e"
| "bind_result (Inr x) f = f x"

definition ensure :: "bool \<Rightarrow> py_error \<Rightarrow> unit result" where
  "ensure b e = (if b then Ok () else Raise e)"

fun traverse :: "('a \<Rightarrow> 'e + 'b) \<Rightarrow> 'a list \<Rightarrow> 'e + 'b list" where
  "traverse f [] = Inr []"
| "traverse f (x # xs) =
     bind_result (f x) (\<lambda>y. bind_result (traverse f xs) (\<lambda>ys. Inr (y # ys)))"

definition is_ok :: "'e + 'a \<Rightarrow> bool" where
  "is_ok r \<longleftrightarrow> (case r of Inl _ \<Rightarrow> False | Inr _ \<Rightarrow> True)"

lemma is_ok_simps [simp]: "is_ok (Inr x)" "\<not> is_ok (Inl e)"
  by (simp_all add: is_ok_def)

lemma is_okE: "is_ok r \<Longrightarrow> (\<And>x. r = Inr x \<Longrightarrow> P) \<Longrightarrow> P"
  by (cases r) auto

lemma is_ok_iff: "is_ok r \<longleftrightarrow> (\<exists>x. r = Inr x)"
  by (cases r) auto

lemma bind_result_Inr [result_simps]:
  "bind_result r f = Inr y \<longleftrightarrow> (\<exists>x. r = Inr x \<and> f x = Inr y)"
  by (cases r) auto

lemma bind_result_Inl [result_simps]:
  "bind_result r f = Inl e \<longleftrightarrow> r = Inl e \<or> (\<exists>x. r = Inr x \<and> f x = Inl e)"
  by (cases r) auto

lemma bind_resultE [result_elims]:
  assumes "bind_result r f = Inr y"
  obtains x where "r = Inr x" and "f x = Inr y"
  using assms by (cases r) auto

lemma is_ok_bind: "is_ok (bind_result r f) \<longleftrightarrow> (\<exists>x. r = Inr x \<and> is_ok (f x))"
  by (cases r) auto

lemma is_ok_bind_const: "is_ok (bind_result r (\<lambda>_. s)) \<longleftrightarrow> is_ok r \<and> is_ok s"
  by (cases r) auto

lemma is_ok_ensure [simp]: "is_ok (ensure b e) \<longleftrightarrow> b"
  by (simp add: ensure_def)

lemma ensure_Inr [result_simps]: "ensure b e = Inr u \<longleftrightarrow> b"
  by (simp add: ensure_def)

lemma ensure_Inl [result_simps]: "ensure b e = Inl e' \<longleftrightarrow> \<not> b \<and> e' = e"
  by (auto simp: ensure_def)

lemma ensure_simps [simp]: "ensure True e = Inr ()" "ensure False e = Inl e"
  by (simp_all add: ensure_def)

lemma traverse_Inr:
  "traverse f xs = Inr ys \<longleftrightarrow> list_all2 (\<lambda>x y. f x = Inr y) xs ys"
  by (induction xs arbitrary: ys) (auto simp: result_simps list_all2_Cons1)

lemma traverse_length: "traverse f xs = Inr ys \<Longrightarrow> length ys = length xs"
  by (auto simp: traverse_Inr dest: list_all2_lengthD)

lemma traverse_map: "(\<And>x. x \<in> set xs \<Longrightarrow> f x = Inr (g x)) \<Longrightarrow> traverse f xs = Inr (map g xs)"
  by (induction xs) auto

lemma traverse_set:
  "traverse f xs = Inr ys \<Longrightarrow> x \<in> set xs \<Longrightarrow> \<exists>y \<in> set ys. f x = Inr y"
  by (induction xs arbitrary: ys) (auto simp: result_simps)

lemma traverse_ball:
  assumes "traverse f xs = Inr ys" and "\<And>x y. x \<in> set xs \<Longrightarrow> f x = Inr y \<Longrightarrow> P y"
  shows "\<forall>y \<in> set ys. P y"
  using assms by (induction xs arbitrary: ys) (auto simp: result_simps, blast+)

lemma traverse_is_ok: "is_ok (traverse f xs) \<longleftrightarrow> (\<forall>x \<in> set xs. is_ok (f x))"
  by (induction xs) (auto simp: is_ok_bind is_ok_iff result_simps)

section \<open>Strings\<close>

abbreviation quote_chr :: char where
  "quote_chr \<equiv> CHR 0x27"

abbreviation newline_chr :: char where
  "newline_chr \<equiv> CHR 0x0A"

fun join_str :: "string \<Rightarrow> string list \<Rightarrow> string" where
  "join_str sep [] = []"
| "join_str sep [x] = x"
| "join_str sep (x # y # zs) = x @ sep @ join_str sep (y # zs)"

definition hex_digit :: "nat \<Rightarrow> char" where
  "hex_digit n = (if n < 10 then char_of (48 + n) else char_of (87 + n))"

text \<open>
  \<^verbatim>\<open>repr(str)\<close> for Latin-1 text: the delimiter is a double quote exactly when the text
  has a single quote and no double quote; the delimiter, backslashes, the control characters
  and the other unprintable characters are escaped.
\<close>

definition repr_char :: "char \<Rightarrow> char \<Rightarrow> string" where
  "repr_char q c =
     (let n = of_char c :: nat in
      if c = q \<or> c = CHR 0x5C then [CHR 0x5C, c]
      else if n = 10 then [CHR 0x5C, CHR ''n'']
      else if n = 13 then [CHR 0x5C, CHR ''r'']
      else if n = 9 then [CHR 0x5C, CHR ''t'']
      else if n < 32 \<or> (127 \<le> n \<and> n \<le> 160) \<or> n = 173
        then [CHR 0x5C, CHR ''x'', hex_digit (n div 16), hex_digit (n mod 16)]
      else [c])"

definition py_repr :: "string \<Rightarrow> string" where
  "py_repr s =
     (let q = (if quote_chr \<in> set s \<and> CHR 0x22 \<notin> set s then CHR 0x22 else quote_chr)
      in [q] @ concat (map (repr_char q) s) @ [q])"

fun show_nat :: "nat \<Rightarrow> string" where
  "show_nat n = (if n < 10 then [char_of (48 + n)]
                 else show_nat (n div 10) @ [char_of (48 + n mod 10)])"

declare show_nat.simps [simp del]

definition show_int :: "int \<Rightarrow> string" where
  "show_int i = (if i < 0 then CHR ''-'' # show_nat (nat (- i)) else show_nat (nat i))"

text \<open>\<^verbatim>\<open>str.isspace\<close> on Latin-1: the characters \<^verbatim>\<open>str.strip\<close> removes.\<close>

definition is_space :: "char \<Rightarrow> bool" where
  "is_space c = (let n = of_char c :: nat in
     (9 \<le> n \<and> n \<le> 13) \<or> (28 \<le> n \<and> n \<le> 32) \<or> n = 133 \<or> n = 160)"

definition nonblank :: "string \<Rightarrow> bool" where
  "nonblank s \<longleftrightarrow> (\<exists>c \<in> set s. \<not> is_space c)"

text \<open>The number of bytes of \<^verbatim>\<open>s.encode("utf-8")\<close> for Latin-1 text.\<close>

definition utf8_len :: "string \<Rightarrow> nat" where
  "utf8_len s = sum_list (map (\<lambda>c. if (of_char c :: nat) < 128 then 1 else 2) s)"

lemma utf8_len_simps [simp]:
  "utf8_len [] = 0"
  "utf8_len (c # s) = (if (of_char c :: nat) < 128 then 1 else 2) + utf8_len s"
  "utf8_len (s @ t) = utf8_len s + utf8_len t"
  by (simp_all add: utf8_len_def)

lemma utf8_len_ge_length: "length s \<le> utf8_len s"
  by (induction s) auto

lemma utf8_len_le_double: "utf8_len s \<le> 2 * length s"
  by (induction s) auto

section \<open>Insertion-ordered dictionaries\<close>

text \<open>
  A dictionary whose iteration order matters is an association list with distinct keys;
  \<^verbatim>\<open>d[k] = v\<close> keeps the position of a key that is present and appends a new one.
\<close>

fun dict_set :: "('k \<times> 'v) list \<Rightarrow> 'k \<Rightarrow> 'v \<Rightarrow> ('k \<times> 'v) list" where
  "dict_set [] k v = [(k, v)]"
| "dict_set ((k', v') # d) k v = (if k' = k then (k, v) # d else (k', v') # dict_set d k v)"

abbreviation keys :: "('k \<times> 'v) list \<Rightarrow> 'k list" where
  "keys d \<equiv> map fst d"

lemma map_of_dict_set [simp]: "map_of (dict_set d k v) = (map_of d)(k \<mapsto> v)"
  by (induction d k v rule: dict_set.induct) auto

lemma set_keys_dict_set [simp]: "set (keys (dict_set d k v)) = insert k (set (keys d))"
  by (induction d k v rule: dict_set.induct) auto

lemma image_fst_dict_set [simp]: "fst ` set (dict_set d k v) = insert k (fst ` set d)"
  using set_keys_dict_set [of d k v] by simp

lemma keys_dict_set:
  "keys (dict_set d k v) = (if k \<in> set (keys d) then keys d else keys d @ [k])"
  by (induction d k v rule: dict_set.induct) auto

lemma distinct_dict_set: "distinct (keys d) \<Longrightarrow> distinct (keys (dict_set d k v))"
  by (simp add: keys_dict_set)

lemma foldl_dict_set:
  "distinct (keys d @ map f ns) \<Longrightarrow> foldl (\<lambda>d n. dict_set d (f n) (g n)) d ns = d @ map (\<lambda>n. (f n, g n)) ns"
proof (induction ns arbitrary: d)
  case (Cons n ns)
  have new: "dict_set d (f n) (g n) = d @ [(f n, g n)]" if "f n \<notin> set (keys d)"
    using that by (induction d) auto
  show ?case using Cons by (simp add: new)
qed simp

lemma card_length_iff: "card (set xs) = length xs \<longleftrightarrow> distinct xs"
  using card_distinct distinct_card by blast

section \<open>Sorting\<close>

abbreviation sorted_set :: "'a::linorder set \<Rightarrow> 'a list" where
  "sorted_set S \<equiv> sorted_list_of_set S"

lemma sort_key_filter_comm: "sort_key f (filter P xs) = filter P (sort_key f xs)"
  by (simp add: filter_sort)

lemma set_dedup_sort [simp]: "set (sort (remdups xs)) = set xs"
  by simp

lemma distinct_map_sort_key [simp]: "distinct (map f (sort_key g xs)) \<longleftrightarrow> distinct (map f xs)"
  by (simp add: distinct_map)

lemma sort_key_empty [simp]: "sort_key f xs = [] \<longleftrightarrow> xs = []"
  by (metis set_empty set_sort)

section \<open>Reachability\<close>

text \<open>
  The nodes that a successor function reaches from a set of roots; the worklist loops of the
  compiler compute it (theory \<open>Digraph\<close>).
\<close>

definition reach_from :: "('a \<Rightarrow> 'a list) \<Rightarrow> 'a set \<Rightarrow> 'a set" where
  "reach_from succ R = {y. \<exists>x \<in> R. (\<lambda>a b. b \<in> set (succ a))\<^sup>*\<^sup>* x y}"

lemma reach_from_root: "R \<subseteq> reach_from succ R"
  by (auto simp: reach_from_def)

lemma reach_from_step: "x \<in> reach_from succ R \<Longrightarrow> y \<in> set (succ x) \<Longrightarrow> y \<in> reach_from succ R"
  by (auto simp: reach_from_def intro: rtranclp.rtrancl_into_rtrancl)

lemma reach_from_least:
  assumes "R \<subseteq> S" and "\<And>x y. x \<in> S \<Longrightarrow> y \<in> set (succ x) \<Longrightarrow> y \<in> S"
  shows "reach_from succ R \<subseteq> S"
proof
  fix y assume "y \<in> reach_from succ R"
  then obtain x where "x \<in> R" and "(\<lambda>a b. b \<in> set (succ a))\<^sup>*\<^sup>* x y"
    by (auto simp: reach_from_def)
  from this(2,1) show "y \<in> S"
    by (induction rule: rtranclp_induct) (use assms in auto)
qed

lemma reach_from_un: "reach_from succ (R \<union> S) = reach_from succ R \<union> reach_from succ S"
  by (auto simp: reach_from_def)

end
