(* ===== verification/Validators.thy ===== *)
theory Validators
  imports Prelude
begin

text \<open>
  The shared scalar validators of \<^verbatim>\<open>compiler/validators.py\<close>: the identifier grammars
  (regular expressions, written as the recognisers they denote under \<^verbatim>\<open>fullmatch\<close>),
  their length bounds, and the exact-version tool reference parser. Every validator returns its
  argument unchanged or raises; the locale \<open>identity_validator\<close> states that contract, and each
  identifier validator interprets it.
\<close>

section \<open>Bounds\<close>

definition HARNESS_ID_MAX_LENGTH :: nat where "HARNESS_ID_MAX_LENGTH = 160"
definition POLICY_ID_MAX_LENGTH :: nat where "POLICY_ID_MAX_LENGTH = 160"
definition PROFILE_ID_MAX_LENGTH :: nat where "PROFILE_ID_MAX_LENGTH = 160"
definition CANONICAL_TOOL_ID_MAX_LENGTH :: nat where "CANONICAL_TOOL_ID_MAX_LENGTH = 160"
definition CAPABILITY_ID_MAX_LENGTH :: nat where
  "CAPABILITY_ID_MAX_LENGTH = CANONICAL_TOOL_ID_MAX_LENGTH"
definition NODE_ID_MAX_LENGTH :: nat where "NODE_ID_MAX_LENGTH = 64"
definition ARTIFACT_ID_MAX_LENGTH :: nat where "ARTIFACT_ID_MAX_LENGTH = 128"
definition TERMINAL_RESULT_MAX_LENGTH :: nat where "TERMINAL_RESULT_MAX_LENGTH = 128"
definition ARGUMENT_NAME_MAX_LENGTH :: nat where "ARGUMENT_NAME_MAX_LENGTH = 128"
definition REQUEST_ID_MAX_LENGTH :: nat where "REQUEST_ID_MAX_LENGTH = 160"
definition TOOL_VERSION_MAX :: int where "TOOL_VERSION_MAX = 2147483647"
definition HARNESS_VERSION_MAX :: int where "HARNESS_VERSION_MAX = 2147483647"

lemmas max_length_defs =
  HARNESS_ID_MAX_LENGTH_def POLICY_ID_MAX_LENGTH_def PROFILE_ID_MAX_LENGTH_def
  CANONICAL_TOOL_ID_MAX_LENGTH_def CAPABILITY_ID_MAX_LENGTH_def NODE_ID_MAX_LENGTH_def
  ARTIFACT_ID_MAX_LENGTH_def TERMINAL_RESULT_MAX_LENGTH_def ARGUMENT_NAME_MAX_LENGTH_def
  REQUEST_ID_MAX_LENGTH_def

section \<open>The identifier grammars\<close>

definition is_lower :: "char \<Rightarrow> bool" where
  "is_lower c \<longleftrightarrow> CHR ''a'' \<le> c \<and> c \<le> CHR ''z''"

definition is_upper :: "char \<Rightarrow> bool" where
  "is_upper c \<longleftrightarrow> CHR ''A'' \<le> c \<and> c \<le> CHR ''Z''"

definition is_digit :: "char \<Rightarrow> bool" where
  "is_digit c \<longleftrightarrow> CHR ''0'' \<le> c \<and> c \<le> CHR ''9''"

lemmas char_class_defs = is_lower_def is_upper_def is_digit_def

text \<open>
  \<^verbatim>\<open>^[a-z][a-z0-9]*(?:[._-][a-z0-9]+)*$\<close>: after the first letter the text is in one of
  two states, inside a segment (accepting) or right after a separator.
\<close>

fun dotted_segment :: "string \<Rightarrow> bool" and dotted_separator :: "string \<Rightarrow> bool" where
  "dotted_segment [] = True"
| "dotted_segment (c # s) =
     (if is_lower c \<or> is_digit c then dotted_segment s
      else if c \<in> {CHR ''.'', CHR ''_'', CHR ''-''} then dotted_separator s
      else False)"
| "dotted_separator [] = False"
| "dotted_separator (c # s) = ((is_lower c \<or> is_digit c) \<and> dotted_segment s)"

definition DOTTED_ID_RE :: "string \<Rightarrow> bool" where
  "DOTTED_ID_RE s = (case s of [] \<Rightarrow> False | c # s' \<Rightarrow> is_lower c \<and> dotted_segment s')"

text \<open>The other grammars have the shape \<^verbatim>\<open>^[first][rest]{0,n}$\<close>.\<close>

definition first_rest :: "(char \<Rightarrow> bool) \<Rightarrow> (char \<Rightarrow> bool) \<Rightarrow> nat \<Rightarrow> string \<Rightarrow> bool" where
  "first_rest f r n s =
     (case s of [] \<Rightarrow> False | c # s' \<Rightarrow> f c \<and> list_all r s' \<and> length s' \<le> n)"

definition NODE_ID_RE :: "string \<Rightarrow> bool" where
  "NODE_ID_RE = first_rest is_lower (\<lambda>c. is_lower c \<or> is_digit c \<or> c = CHR ''_'') 63"

definition ARTIFACT_ID_RE :: "string \<Rightarrow> bool" where
  "ARTIFACT_ID_RE = first_rest is_lower
     (\<lambda>c. is_lower c \<or> is_digit c \<or> c \<in> {CHR ''.'', CHR ''_'', CHR ''-''}) 127"

definition TERMINAL_RESULT_RE :: "string \<Rightarrow> bool" where
  "TERMINAL_RESULT_RE = first_rest is_upper (\<lambda>c. is_upper c \<or> is_digit c \<or> c = CHR ''_'') 127"

definition ARGUMENT_NAME_RE :: "string \<Rightarrow> bool" where
  "ARGUMENT_NAME_RE = first_rest (\<lambda>c. is_upper c \<or> is_lower c \<or> c = CHR ''_'')
     (\<lambda>c. is_upper c \<or> is_lower c \<or> is_digit c \<or> c = CHR ''_'') 127"

definition LOWER_FIELD_KEY_RE :: "string \<Rightarrow> bool" where
  "LOWER_FIELD_KEY_RE = first_rest is_lower (\<lambda>c. is_lower c \<or> is_digit c \<or> c = CHR ''_'') 63"

definition SHA256_RE :: "string \<Rightarrow> bool" where
  "SHA256_RE s \<longleftrightarrow>
     length s = 64 \<and> list_all (\<lambda>c. is_digit c \<or> (CHR ''a'' \<le> c \<and> c \<le> CHR ''f'')) s"

lemmas regex_defs =
  DOTTED_ID_RE_def NODE_ID_RE_def ARTIFACT_ID_RE_def TERMINAL_RESULT_RE_def
  ARGUMENT_NAME_RE_def LOWER_FIELD_KEY_RE_def SHA256_RE_def first_rest_def

section \<open>Validators\<close>

definition validate_nonblank :: "string \<Rightarrow> string \<Rightarrow> string result" where
  "validate_nonblank value field_name =
     (if \<not> nonblank value then Raise (ValueError (field_name @ '' must be a non-empty string''))
      else Ok value)"

definition validate_utf8_size :: "string \<Rightarrow> string \<Rightarrow> nat \<Rightarrow> string result" where
  "validate_utf8_size value field_name maximum =
     (if utf8_len value > maximum
      then Raise (ValueError (field_name @ '' must be at most '' @ show_nat maximum @ '' UTF-8 bytes''))
      else Ok value)"

definition validate_unique :: "string list \<Rightarrow> string \<Rightarrow> string list result" where
  "validate_unique values field_name =
     (if card (set values) \<noteq> length values
      then Raise (ValueError (field_name @ '' values must be unique''))
      else Ok values)"

definition validate_pattern ::
  "string \<Rightarrow> string \<Rightarrow> (string \<Rightarrow> bool) \<Rightarrow> nat \<Rightarrow> string result" where
  "validate_pattern value field_name pattern maximum =
     (if length value > maximum
      then Raise (ValueError (field_name @ '' must be at most '' @ show_nat maximum @ '' characters''))
      else if \<not> pattern value
      then Raise (ValueError (field_name @ '' has invalid format''))
      else Ok value)"

definition validate_harness_id :: "string \<Rightarrow> string result" where
  "validate_harness_id value =
     validate_pattern value ''harness_id'' DOTTED_ID_RE HARNESS_ID_MAX_LENGTH"

definition validate_policy_id :: "string \<Rightarrow> string result" where
  "validate_policy_id value =
     validate_pattern value ''policy_id'' DOTTED_ID_RE POLICY_ID_MAX_LENGTH"

definition validate_profile_id :: "string \<Rightarrow> string result" where
  "validate_profile_id value =
     validate_pattern value ''profile_id'' DOTTED_ID_RE PROFILE_ID_MAX_LENGTH"

definition validate_canonical_tool_id :: "string \<Rightarrow> string result" where
  "validate_canonical_tool_id value =
     validate_pattern value ''tool_id'' DOTTED_ID_RE CANONICAL_TOOL_ID_MAX_LENGTH"

definition validate_capability_id :: "string \<Rightarrow> string result" where
  "validate_capability_id value =
     validate_pattern value ''capability_id'' DOTTED_ID_RE CAPABILITY_ID_MAX_LENGTH"

definition validate_stage_kind_id :: "string \<Rightarrow> string result" where
  "validate_stage_kind_id value =
     validate_pattern value ''stage_kind_id'' DOTTED_ID_RE POLICY_ID_MAX_LENGTH"

definition validate_request_id :: "string \<Rightarrow> string result" where
  "validate_request_id value =
     validate_pattern value ''request_id'' DOTTED_ID_RE REQUEST_ID_MAX_LENGTH"

definition validate_node_id :: "string \<Rightarrow> string result" where
  "validate_node_id value = validate_pattern value ''node_id'' NODE_ID_RE NODE_ID_MAX_LENGTH"

definition validate_artifact_id :: "string \<Rightarrow> string result" where
  "validate_artifact_id value =
     validate_pattern value ''artifact_id'' ARTIFACT_ID_RE ARTIFACT_ID_MAX_LENGTH"

definition validate_terminal_result :: "string \<Rightarrow> string result" where
  "validate_terminal_result value =
     validate_pattern value ''terminal_result'' TERMINAL_RESULT_RE TERMINAL_RESULT_MAX_LENGTH"

definition validate_argument_name :: "string \<Rightarrow> string result" where
  "validate_argument_name value =
     validate_pattern value ''argument_name'' ARGUMENT_NAME_RE ARGUMENT_NAME_MAX_LENGTH"

definition validate_lower_field_key :: "string \<Rightarrow> string result" where
  "validate_lower_field_key value = validate_pattern value ''key'' LOWER_FIELD_KEY_RE 64"

definition validate_sha256 :: "string \<Rightarrow> string \<Rightarrow> string result" where
  "validate_sha256 value field_name =
     (if \<not> SHA256_RE value
      then Raise (ValueError (field_name @ '' must be exactly 64 lowercase hex characters''))
      else Ok value)"

definition validate_harness_version :: "int \<Rightarrow> int result" where
  "validate_harness_version value =
     (if value < 1 \<or> value > HARNESS_VERSION_MAX
      then Raise (ValueError ''harness_version must be in range 1..2147483647'')
      else Ok value)"

definition validate_tool_version :: "int \<Rightarrow> int result" where
  "validate_tool_version value =
     (if value < 1 \<or> value > TOOL_VERSION_MAX
      then Raise (ValueError ''tool_version must be in range 1..2147483647'')
      else Ok value)"

section \<open>Exact-version tool references\<close>

record tool_reference =
  ref_tool_id :: string
  ref_version :: int

text \<open>\<^verbatim>\<open>int(text)\<close> on a text of ASCII digits; CPython refuses more than 4300 digits.\<close>

fun digits_value :: "nat \<Rightarrow> string \<Rightarrow> nat" where
  "digits_value acc [] = acc"
| "digits_value acc (c # s) = digits_value (10 * acc + (of_char c - 48)) s"

definition int_of_digits :: "string \<Rightarrow> int result" where
  "int_of_digits s =
     (if length s > 4300
      then Raise (ValueError ''Exceeds the limit (4300 digits) for integer string conversion'')
      else Ok (int (digits_value 0 s)))"

text \<open>
  The named groups of \<^verbatim>\<open>_TOOL_REF_RE\<close>. No dotted identifier holds an at sign, so the
  regular expression can only split at the first one.
\<close>

definition TOOL_REF_RE :: "string \<Rightarrow> (string \<times> string) option" where
  "TOOL_REF_RE s =
     (let tool_id = takeWhile (\<lambda>c. c \<noteq> CHR ''@'') s;
          rest = dropWhile (\<lambda>c. c \<noteq> CHR ''@'') s
      in case rest of
           [] \<Rightarrow> None
         | _ # version \<Rightarrow>
             if DOTTED_ID_RE tool_id \<and> version \<noteq> [] \<and> list_all is_digit version
             then Some (tool_id, version) else None)"

definition parse_tool_reference :: "string \<Rightarrow> tool_reference result" where
  "parse_tool_reference value =
     (case TOOL_REF_RE value of
        None \<Rightarrow> Raise (ValueError ''tool_ref must be an exact-version tool reference'')
      | Some (tool_id_group, version_text) \<Rightarrow>
          bind_result (validate_canonical_tool_id tool_id_group) (\<lambda>tool_id.
          if length version_text > 1 \<and> hd version_text = CHR ''0''
          then Raise (ValueError ''tool_ref version must not contain leading zeroes'')
          else bind_result (int_of_digits version_text) (\<lambda>version.
          if version < 1 \<or> version > TOOL_VERSION_MAX
          then Raise (ValueError ''tool_ref version must be in range 1..2147483647'')
          else Ok \<lparr>ref_tool_id = tool_id, ref_version = version\<rparr>)))"

definition validate_tool_reference :: "string \<Rightarrow> string result" where
  "validate_tool_reference value = bind_result (parse_tool_reference value) (\<lambda>_. Ok value)"

section \<open>Thresholds\<close>

text \<open>
  A Python \<^verbatim>\<open>float\<close> is one of the non-finite values or an exact rational; a scalar handed to
  \<^verbatim>\<open>validate_threshold\<close> is any object, of which the validator tells apart the types below.
\<close>

datatype pyfloat = Finite rat | NaN | PosInf | NegInf

datatype py_scalar = PyBool bool | PyInt int | PyFloat pyfloat | PyOther

text \<open>\<^verbatim>\<open>float(i)\<close> overflows from the midpoint above the largest double on.\<close>

definition float_overflow_bound :: int where
  "float_overflow_bound = 2 ^ 1024 - 2 ^ 970"

definition validate_threshold :: "py_scalar \<Rightarrow> string \<Rightarrow> rat result" where
  "validate_threshold value field_name =
     (case value of
        PyBool _ \<Rightarrow> Raise (ValueError (field_name @ '' must be a finite number''))
      | PyOther \<Rightarrow> Raise (ValueError (field_name @ '' must be a finite number''))
      | PyInt i \<Rightarrow>
          if \<bar>i\<bar> \<ge> float_overflow_bound then Raise OverflowErr
          else if i \<noteq> 1 then Raise (ValueError (field_name @ '' must be in (0, 1]''))
          else Ok 1
      | PyFloat (Finite q) \<Rightarrow>
          if q \<le> 0 \<or> q > 1 then Raise (ValueError (field_name @ '' must be in (0, 1]''))
          else Ok q
      | PyFloat _ \<Rightarrow> Raise (ValueError (field_name @ '' must be finite'')))"

section \<open>The contract of the identifier validators\<close>

text \<open>
  What the source contracts rely on: a validator accepts exactly the texts within its bound that
  its grammar accepts, and gives them back unchanged, so a validated tuple is the tuple itself.
\<close>

locale identity_validator =
  fixes validate :: "string \<Rightarrow> string result"
    and accepts :: "string \<Rightarrow> bool"
    and bound :: nat
  assumes accepted: "length s \<le> bound \<Longrightarrow> accepts s \<Longrightarrow> validate s = Inr s"
    and refused: "\<not> (length s \<le> bound \<and> accepts s) \<Longrightarrow> \<exists>m. validate s = Inl (ValueError m)"
begin

lemma ok_iff: "is_ok (validate s) \<longleftrightarrow> length s \<le> bound \<and> accepts s"
  using accepted refused by (fastforce simp: is_ok_iff)

lemma Inr_iff: "validate s = Inr t \<longleftrightarrow> t = s \<and> length s \<le> bound \<and> accepts s"
proof (cases "length s \<le> bound \<and> accepts s")
  case True
  then show ?thesis using accepted by auto
next
  case False
  then obtain m where "validate s = Inl (ValueError m)" using refused by blast
  with False show ?thesis by auto
qed

lemma idempotent: "validate s = Inr t \<Longrightarrow> validate t = Inr t"
  by (simp add: Inr_iff)

lemma traverse_Inr_iff:
  "traverse validate xs = Inr ys \<longleftrightarrow> ys = xs \<and> (\<forall>x \<in> set xs. length x \<le> bound \<and> accepts x)"
  by (induction xs arbitrary: ys) (auto simp: result_simps Inr_iff)

end

lemma validate_pattern_contract:
  assumes "\<And>s. v s = validate_pattern s f p n"
  shows "identity_validator v p n"
  by unfold_locales (auto simp: assms validate_pattern_def)

interpretation harness_id: identity_validator validate_harness_id DOTTED_ID_RE HARNESS_ID_MAX_LENGTH
  by (rule validate_pattern_contract) (rule validate_harness_id_def)

interpretation policy_id: identity_validator validate_policy_id DOTTED_ID_RE POLICY_ID_MAX_LENGTH
  by (rule validate_pattern_contract) (rule validate_policy_id_def)

interpretation profile_id: identity_validator validate_profile_id DOTTED_ID_RE PROFILE_ID_MAX_LENGTH
  by (rule validate_pattern_contract) (rule validate_profile_id_def)

interpretation canonical_tool_id:
  identity_validator validate_canonical_tool_id DOTTED_ID_RE CANONICAL_TOOL_ID_MAX_LENGTH
  by (rule validate_pattern_contract) (rule validate_canonical_tool_id_def)

interpretation capability_id:
  identity_validator validate_capability_id DOTTED_ID_RE CAPABILITY_ID_MAX_LENGTH
  by (rule validate_pattern_contract) (rule validate_capability_id_def)

interpretation stage_kind_id:
  identity_validator validate_stage_kind_id DOTTED_ID_RE POLICY_ID_MAX_LENGTH
  by (rule validate_pattern_contract) (rule validate_stage_kind_id_def)

interpretation request_id: identity_validator validate_request_id DOTTED_ID_RE REQUEST_ID_MAX_LENGTH
  by (rule validate_pattern_contract) (rule validate_request_id_def)

interpretation node_id: identity_validator validate_node_id NODE_ID_RE NODE_ID_MAX_LENGTH
  by (rule validate_pattern_contract) (rule validate_node_id_def)

interpretation artifact_id:
  identity_validator validate_artifact_id ARTIFACT_ID_RE ARTIFACT_ID_MAX_LENGTH
  by (rule validate_pattern_contract) (rule validate_artifact_id_def)

interpretation terminal_result:
  identity_validator validate_terminal_result TERMINAL_RESULT_RE TERMINAL_RESULT_MAX_LENGTH
  by (rule validate_pattern_contract) (rule validate_terminal_result_def)

interpretation argument_name:
  identity_validator validate_argument_name ARGUMENT_NAME_RE ARGUMENT_NAME_MAX_LENGTH
  by (rule validate_pattern_contract) (rule validate_argument_name_def)

interpretation lower_field_key: identity_validator validate_lower_field_key LOWER_FIELD_KEY_RE 64
  by (rule validate_pattern_contract) (rule validate_lower_field_key_def)

lemma validate_unique_Inr:
  "validate_unique xs f = Inr ys \<longleftrightarrow> ys = xs \<and> distinct xs"
  by (auto simp: validate_unique_def intro: card_distinct dest: distinct_card)

section \<open>Decimal texts\<close>

lemma is_digit_iff: "is_digit c \<longleftrightarrow> 48 \<le> (of_char c :: nat) \<and> (of_char c :: nat) \<le> 57"
  by (simp add: is_digit_def less_eq_char_def)

lemma of_char_digit [simp]: "n < 10 \<Longrightarrow> (of_char (char_of (48 + n) :: char) :: nat) = 48 + n"
  by (simp add: of_char_of)

lemma digits_value_snoc:
  "digits_value acc (s @ [c]) = 10 * digits_value acc s + (of_char c - 48)"
  by (induction acc s rule: digits_value.induct) auto

lemma is_digit_char_of: "n < (10::nat) \<Longrightarrow> is_digit (char_of (48 + n))"
  by (simp add: is_digit_iff)

lemma show_nat_digits: "list_all is_digit (show_nat n)"
proof (induction n rule: show_nat.induct)
  case (1 n)
  then show ?case by (subst show_nat.simps) (auto simp: is_digit_char_of)
qed

lemma show_nat_nonempty [simp]: "show_nat n \<noteq> []"
  by (subst show_nat.simps) simp

lemma digits_value_show_nat: "digits_value 0 (show_nat n) = n"
proof (induction n rule: show_nat.induct)
  case (1 n)
  then show ?case by (subst show_nat.simps) (auto simp: digits_value_snoc)
qed

lemma show_nat_hd: "n \<noteq> 0 \<Longrightarrow> hd (show_nat n) \<noteq> CHR ''0''"
proof (induction n rule: show_nat.induct)
  case (1 n)
  show ?case
  proof (cases "n < 10")
    case True
    have "(of_char (char_of (48 + n) :: char) :: nat) \<noteq> of_char (CHR ''0'')"
      using True "1.prems" by (simp add: of_char_of del: of_char_digit)
    then have "(char_of (48 + n) :: char) \<noteq> CHR ''0''" by metis
    with True show ?thesis by (subst show_nat.simps) simp
  next
    case False
    with "1.IH" show ?thesis by (subst show_nat.simps) (simp add: hd_append)
  qed
qed

lemma length_show_nat: "n < 10 ^ Suc k \<Longrightarrow> length (show_nat n) \<le> Suc k"
proof (induction k arbitrary: n)
  case 0
  then show ?case by (subst show_nat.simps) simp
next
  case (Suc k)
  then have "n div 10 < 10 ^ Suc k" by simp
  from Suc.IH [OF this] show ?case by (subst show_nat.simps) simp
qed

lemma show_nat_digits_value:
  assumes "s \<noteq> []" "list_all is_digit s" "1 < length s \<longrightarrow> hd s \<noteq> CHR ''0''"
  shows "show_nat (digits_value 0 s) = s \<and> (hd s \<noteq> CHR ''0'' \<longrightarrow> 0 < digits_value 0 s)"
  using assms
proof (induction s rule: rev_induct)
  case Nil
  then show ?case by simp
next
  case (snoc c s)
  let ?d = "of_char c - 48 :: nat"
  have d: "?d < 10" "of_char c = 48 + ?d" using snoc.prems by (auto simp: is_digit_iff)
  then have c: "char_of (48 + ?d) = c" by (metis char_of_char)
  show ?case
  proof (cases "s = []")
    case True
    have "of_char c = (of_char (CHR ''0'') :: nat)" if "?d = 0" using d(2) that by simp
    then have "c = CHR ''0'' \<or> 0 < ?d" by (metis gr0I of_char_eq_iff)
    with True d(1) c show ?thesis
      by (subst show_nat.simps) auto
  next
    case False
    then have "hd s \<noteq> CHR ''0''" using snoc.prems by (cases s) auto
    with False snoc have "show_nat (digits_value 0 s) = s" "0 < digits_value 0 s" by auto
    with d(1) c show ?thesis
      by (subst show_nat.simps) (auto simp: digits_value_snoc)
  qed
qed

section \<open>Tool references are canonical\<close>

lemma dotted_no_at:
  "dotted_segment s \<Longrightarrow> CHR ''@'' \<notin> set s"
  "dotted_separator t \<Longrightarrow> CHR ''@'' \<notin> set t"
  by (induction s and t rule: dotted_segment_dotted_separator.induct)
    (auto simp: char_class_defs split: if_splits)

lemma dotted_id_no_at: "DOTTED_ID_RE s \<Longrightarrow> CHR ''@'' \<notin> set s"
  using dotted_no_at by (auto simp: DOTTED_ID_RE_def char_class_defs split: list.splits)

lemma TOOL_REF_RE_iff:
  "TOOL_REF_RE s = Some (t, v) \<longleftrightarrow>
     s = t @ CHR ''@'' # v \<and> DOTTED_ID_RE t \<and> v \<noteq> [] \<and> list_all is_digit v"
proof
  assume a: "TOOL_REF_RE s = Some (t, v)"
  then obtain c where c: "t = takeWhile (\<lambda>c. c \<noteq> CHR ''@'') s" "dropWhile (\<lambda>c. c \<noteq> CHR ''@'') s = c # v"
    by (auto simp: TOOL_REF_RE_def Let_def split: list.splits if_splits)
  then have "c = CHR ''@''" using hd_dropWhile [of "\<lambda>c. c \<noteq> CHR ''@''" s] by auto
  moreover have "takeWhile (\<lambda>c. c \<noteq> CHR ''@'') s @ dropWhile (\<lambda>c. c \<noteq> CHR ''@'') s = s"
    by (rule takeWhile_dropWhile_id)
  ultimately have "s = t @ CHR ''@'' # v" by (simp only: c)
  moreover from a have "DOTTED_ID_RE t \<and> v \<noteq> [] \<and> list_all is_digit v"
    by (auto simp: TOOL_REF_RE_def Let_def split: list.splits if_splits)
  ultimately show "s = t @ CHR ''@'' # v \<and> DOTTED_ID_RE t \<and> v \<noteq> [] \<and> list_all is_digit v"
    by (rule conjI)
next
  assume a: "s = t @ CHR ''@'' # v \<and> DOTTED_ID_RE t \<and> v \<noteq> [] \<and> list_all is_digit v"
  then have "\<forall>c \<in> set t. c \<noteq> CHR ''@''" using dotted_id_no_at by blast
  with a show "TOOL_REF_RE s = Some (t, v)"
    by (simp add: TOOL_REF_RE_def takeWhile_append2 dropWhile_append2)
qed

definition canonical_reference :: "tool_reference \<Rightarrow> string" where
  "canonical_reference r = ref_tool_id r @ CHR ''@'' # show_int (ref_version r)"

definition valid_reference :: "tool_reference \<Rightarrow> bool" where
  "valid_reference r \<longleftrightarrow> DOTTED_ID_RE (ref_tool_id r) \<and> length (ref_tool_id r) \<le> 160
     \<and> 1 \<le> ref_version r \<and> ref_version r \<le> 2147483647"

lemma parse_canonical:
  assumes "valid_reference r"
  shows "parse_tool_reference (canonical_reference r) = Inr r"
proof -
  obtain n where n: "ref_version r = int n" "0 < n" "n \<le> 2147483647"
    using assms zero_less_imp_eq_int [of "ref_version r"] by (auto simp: valid_reference_def)
  have len: "length (show_nat n) \<le> 10" using length_show_nat [of n 9] n by simp
  have "TOOL_REF_RE (canonical_reference r) = Some (ref_tool_id r, show_nat n)"
    using assms n show_nat_digits
    by (simp add: TOOL_REF_RE_iff canonical_reference_def valid_reference_def show_int_def)
  then show ?thesis
    using assms n len show_nat_hd [of n]
    by (simp add: parse_tool_reference_def valid_reference_def canonical_tool_id.accepted
        max_length_defs int_of_digits_def digits_value_show_nat TOOL_VERSION_MAX_def)
qed

lemma parse_is_canonical:
  assumes "parse_tool_reference s = Inr r"
  shows "s = canonical_reference r \<and> valid_reference r"
proof -
  obtain t v where tv: "TOOL_REF_RE s = Some (t, v)"
    using assms by (auto simp: parse_tool_reference_def split: option.splits)
  then have s: "s = t @ CHR ''@'' # v" "v \<noteq> []" "list_all is_digit v"
    by (auto simp: TOOL_REF_RE_iff)
  from assms tv have r: "DOTTED_ID_RE t" "length t \<le> 160" "r = \<lparr>ref_tool_id = t, ref_version = int (digits_value 0 v)\<rparr>"
    "1 < length v \<longrightarrow> hd v \<noteq> CHR ''0''" "1 \<le> digits_value 0 v" "int (digits_value 0 v) \<le> 2147483647"
    by (auto simp: parse_tool_reference_def result_simps canonical_tool_id.Inr_iff max_length_defs
        int_of_digits_def TOOL_VERSION_MAX_def split: if_splits)
  with s show_nat_digits_value [of v] show ?thesis
    by (simp add: canonical_reference_def valid_reference_def show_int_def)
qed

text \<open>
  The parser accepts exactly the canonical spellings. A text parses to a reference exactly when
  the reference is within its bounds and the text is its identifier, an at sign and its decimal
  version without leading zeroes; so two different tool references never denote the same binding,
  and parsing inverts printing.
\<close>

theorem parse_tool_reference_canonical:
  "parse_tool_reference s = Inr r \<longleftrightarrow> valid_reference r \<and> s = canonical_reference r"
  using parse_canonical parse_is_canonical by blast

end
