(* ===== verification/Json.thy ===== *)
theory Json
  imports Validators
begin

text \<open>
  JSON-compatible Python values and \<^verbatim>\<open>json.dumps\<close> in the two configurations the compiler
  uses (compact separators, ASCII output, sorted keys). A dictionary is an insertion-ordered
  association list. How a finite float is printed is a parameter (\<^verbatim>\<open>float.__repr__\<close>); the
  non-finite ones are refused (\<^verbatim>\<open>allow_nan=False\<close>).
\<close>

datatype json =
    JNull
  | JBool bool
  | JInt int
  | JFloat pyfloat
  | JStr string
  | JArr "json list"
  | JObj "(string \<times> json) list"

fun jget :: "(string \<times> json) list \<Rightarrow> string \<Rightarrow> json option" where
  "jget kvs k = map_of kvs k"

definition has_key :: "(string \<times> json) list \<Rightarrow> string \<Rightarrow> bool" where
  "has_key kvs k \<longleftrightarrow> k \<in> set (keys kvs)"

lemma has_key_map_of: "has_key kvs k \<longleftrightarrow> map_of kvs k \<noteq> None"
  by (simp add: has_key_def map_of_eq_None_iff)

section \<open>json.dumps\<close>

definition json_escape_char :: "char \<Rightarrow> string" where
  "json_escape_char c =
     (let n = of_char c :: nat in
      if c = CHR 0x22 \<or> c = CHR 0x5C then [CHR 0x5C, c]
      else if n = 10 then [CHR 0x5C, CHR ''n'']
      else if n = 13 then [CHR 0x5C, CHR ''r'']
      else if n = 9 then [CHR 0x5C, CHR ''t'']
      else if n = 8 then [CHR 0x5C, CHR ''b'']
      else if n = 12 then [CHR 0x5C, CHR ''f'']
      else if n < 32 \<or> 127 \<le> n
        then [CHR 0x5C, CHR ''u'', CHR ''0'', CHR ''0'', hex_digit (n div 16), hex_digit (n mod 16)]
      else [c])"

definition json_string :: "string \<Rightarrow> string" where
  "json_string s = [CHR 0x22] @ concat (map json_escape_char s) @ [CHR 0x22]"

fun json_sort_keys :: "json \<Rightarrow> json"
  and json_sort_items :: "json list \<Rightarrow> json list"
  and json_sort_members :: "(string \<times> json) list \<Rightarrow> (string \<times> json) list" where
  "json_sort_keys (JArr xs) = JArr (json_sort_items xs)"
| "json_sort_keys (JObj kvs) = JObj (sort_key fst (json_sort_members kvs))"
| "json_sort_keys v = v"
| "json_sort_items [] = []"
| "json_sort_items (x # xs) = json_sort_keys x # json_sort_items xs"
| "json_sort_members [] = []"
| "json_sort_members ((k, v) # kvs) = (k, json_sort_keys v) # json_sort_members kvs"

fun json_text :: "(rat \<Rightarrow> string) \<Rightarrow> json \<Rightarrow> string result"
  and json_items :: "(rat \<Rightarrow> string) \<Rightarrow> json list \<Rightarrow> string list result"
  and json_members :: "(rat \<Rightarrow> string) \<Rightarrow> (string \<times> json) list \<Rightarrow> string list result" where
  "json_text fr JNull = Ok ''null''"
| "json_text fr (JBool b) = Ok (if b then ''true'' else ''false'')"
| "json_text fr (JInt i) = Ok (show_int i)"
| "json_text fr (JFloat (Finite q)) = Ok (fr q)"
| "json_text fr (JFloat _) = Raise (ValueError ''Out of range float values are not JSON compliant'')"
| "json_text fr (JStr s) = Ok (json_string s)"
| "json_text fr (JArr xs) =
     bind_result (json_items fr xs) (\<lambda>ts. Ok (''['' @ join_str '','' ts @ '']''))"
| "json_text fr (JObj kvs) =
     bind_result (json_members fr kvs) (\<lambda>ts. Ok (''{'' @ join_str '','' ts @ ''}''))"
| "json_items fr [] = Ok []"
| "json_items fr (x # xs) =
     bind_result (json_text fr x) (\<lambda>t. bind_result (json_items fr xs) (\<lambda>ts. Ok (t # ts)))"
| "json_members fr [] = Ok []"
| "json_members fr ((k, v) # kvs) =
     bind_result (json_text fr v) (\<lambda>t.
     bind_result (json_members fr kvs) (\<lambda>ts. Ok ((json_string k @ '':'' @ t) # ts)))"

text \<open>\<^verbatim>\<open>json.dumps(v, sort_keys=True, allow_nan=False, separators=(",", ":"))\<close>.\<close>

definition json_dumps :: "(rat \<Rightarrow> string) \<Rightarrow> json \<Rightarrow> string result" where
  "json_dumps fr v = json_text fr (json_sort_keys v)"

text \<open>No non-finite float occurs in the value.\<close>

fun json_finite :: "json \<Rightarrow> bool"
  and json_items_finite :: "json list \<Rightarrow> bool"
  and json_members_finite :: "(string \<times> json) list \<Rightarrow> bool" where
  "json_finite (JFloat f) = (case f of Finite _ \<Rightarrow> True | _ \<Rightarrow> False)"
| "json_finite (JArr xs) = json_items_finite xs"
| "json_finite (JObj kvs) = json_members_finite kvs"
| "json_finite _ = True"
| "json_items_finite [] = True"
| "json_items_finite (x # xs) = (json_finite x \<and> json_items_finite xs)"
| "json_members_finite [] = True"
| "json_members_finite ((k, v) # kvs) = (json_finite v \<and> json_members_finite kvs)"

lemma json_items_finite_iff: "json_items_finite xs \<longleftrightarrow> (\<forall>x \<in> set xs. json_finite x)"
  by (induction xs) auto

lemma json_members_finite_iff:
  "json_members_finite kvs \<longleftrightarrow> (\<forall>(k, v) \<in> set kvs. json_finite v)"
  by (induction kvs) auto

lemma json_text_ok_iff:
  "is_ok (json_text fr v) \<longleftrightarrow> json_finite v"
  "is_ok (json_items fr xs) \<longleftrightarrow> json_items_finite xs"
  "is_ok (json_members fr kvs) \<longleftrightarrow> json_members_finite kvs"
proof (induction fr v and fr xs and fr kvs rule: json_text_json_items_json_members.induct)
qed (auto simp: is_ok_bind is_ok_iff result_simps split: pyfloat.splits)

lemma json_sort_finite:
  "json_finite (json_sort_keys v) \<longleftrightarrow> json_finite v"
  "json_items_finite (json_sort_items xs) \<longleftrightarrow> json_items_finite xs"
  "json_members_finite (json_sort_members kvs) \<longleftrightarrow> json_members_finite kvs"
  by (induction v and xs and kvs rule: json_sort_keys_json_sort_items_json_sort_members.induct)
    (auto simp: json_members_finite_iff)

lemma json_dumps_ok_iff: "is_ok (json_dumps fr v) \<longleftrightarrow> json_finite v"
  by (simp add: json_dumps_def json_text_ok_iff json_sort_finite)

end
