(* ===== verification/Diagnostics.thy ===== *)
theory Diagnostics
  imports Json
begin

text \<open>
  \<^verbatim>\<open>compiler/diagnostics.py\<close>: the closed registry of diagnostic codes, the immutable
  diagnostic and its field validators (each a way for the constructor to raise), the
  deterministic order, and the bound on a report.

  The texts of a diagnostic go through the shared redactor. Its regular expressions are a
  parameter: \<open>redact_text\<close> stands for \<^verbatim>\<open>redact_diagnostic_text\<close> with the default policy and
  \<open>secret_pattern\<close> for the search of \<^verbatim>\<open>_SECRET_PATTERNS\<close>; \<open>float_repr\<close> is Python's rendering of a
  finite float.
\<close>

record redaction_env =
  redact_text :: "string \<Rightarrow> string"
  secret_pattern :: "string \<Rightarrow> bool"
  float_repr :: "rat \<Rightarrow> string"

section \<open>Bounds, phases and the registry\<close>

definition MAX_DIAGNOSTIC_MESSAGE_UTF8 :: nat where "MAX_DIAGNOSTIC_MESSAGE_UTF8 = 1024"
definition MAX_DIAGNOSTIC_FIELDS :: nat where "MAX_DIAGNOSTIC_FIELDS = 16"
definition MAX_DIAGNOSTIC_FIELD_STRING_UTF8 :: nat where "MAX_DIAGNOSTIC_FIELD_STRING_UTF8 = 512"
definition MAX_RELATED_IDS :: nat where "MAX_RELATED_IDS = 16"
definition MAX_DIAGNOSTIC_REPORT_BYTES :: nat where "MAX_DIAGNOSTIC_REPORT_BYTES = 256 * 1024"
definition MAX_DIAGNOSTICS_PER_REPORT :: nat where "MAX_DIAGNOSTICS_PER_REPORT = 128"
definition MAX_DIAGNOSTICS_WITHOUT_TRUNCATION_WARNING :: nat where
  "MAX_DIAGNOSTICS_WITHOUT_TRUNCATION_WARNING = MAX_DIAGNOSTICS_PER_REPORT - 1"
definition DIAGNOSTICS_TRUNCATED_MESSAGE :: string where
  "DIAGNOSTICS_TRUNCATED_MESSAGE = ''Diagnostics were truncated.''"
definition TRUNCATED_SUFFIX :: string where "TRUNCATED_SUFFIX = ''[truncated]''"

datatype compiler_phase =
  REQUEST | PARSE | SCHEMA | RESOLUTION | GRAPH | CAPABILITY | ARTIFACT | LOWERING | OUTPUT | INTERNAL

datatype diagnostic_severity = ERROR | WARNING

text \<open>\<^verbatim>\<open>tuple(CompilerPhase).index(phase)\<close>: the declaration order.\<close>

primrec phase_index :: "compiler_phase \<Rightarrow> nat" where
  "phase_index REQUEST = 0"
| "phase_index PARSE = 1"
| "phase_index SCHEMA = 2"
| "phase_index RESOLUTION = 3"
| "phase_index GRAPH = 4"
| "phase_index CAPABILITY = 5"
| "phase_index ARTIFACT = 6"
| "phase_index LOWERING = 7"
| "phase_index OUTPUT = 8"
| "phase_index INTERNAL = 9"

primrec phase_value :: "compiler_phase \<Rightarrow> string" where
  "phase_value REQUEST = ''request''"
| "phase_value PARSE = ''parse''"
| "phase_value SCHEMA = ''schema''"
| "phase_value RESOLUTION = ''resolution''"
| "phase_value GRAPH = ''graph''"
| "phase_value CAPABILITY = ''capability''"
| "phase_value ARTIFACT = ''artifact''"
| "phase_value LOWERING = ''lowering''"
| "phase_value OUTPUT = ''output''"
| "phase_value INTERNAL = ''internal''"

primrec severity_value :: "diagnostic_severity \<Rightarrow> string" where
  "severity_value ERROR = ''error''"
| "severity_value WARNING = ''warning''"

text \<open>Phases are compared by their place in the pipeline.\<close>

instantiation compiler_phase :: linorder
begin

definition less_eq_compiler_phase :: "compiler_phase \<Rightarrow> compiler_phase \<Rightarrow> bool" where
  "p \<le> q \<longleftrightarrow> phase_index p \<le> phase_index q"

definition less_compiler_phase :: "compiler_phase \<Rightarrow> compiler_phase \<Rightarrow> bool" where
  "p < q \<longleftrightarrow> phase_index p < phase_index q"

instance
proof
  fix p q :: compiler_phase
  assume "p \<le> q" and "q \<le> p"
  then show "p = q" by (cases p; cases q) (simp_all add: less_eq_compiler_phase_def)
qed (auto simp: less_eq_compiler_phase_def less_compiler_phase_def)

end

text \<open>\<^verbatim>\<open>f"{prefix}{number:03d}"\<close> for each number.\<close>

definition numbered_codes ::
  "string \<Rightarrow> nat list \<Rightarrow> compiler_phase \<times> diagnostic_severity \<Rightarrow>
   (string \<times> (compiler_phase \<times> diagnostic_severity)) list" where
  "numbered_codes prefix numbers entry =
     map (\<lambda>n. (prefix @ [char_of (48 + n div 100), char_of (48 + n div 10 mod 10),
                         char_of (48 + n mod 10)], entry)) numbers"

definition DIAGNOSTIC_REGISTRY :: "(string \<times> (compiler_phase \<times> diagnostic_severity)) list" where
  "DIAGNOSTIC_REGISTRY =
     numbered_codes ''MF-S'' [1, 2, 13, 14, 15, 16, 17, 18] (REQUEST, ERROR)
     @ numbered_codes ''MF-S'' [3..<13] (PARSE, ERROR)
     @ numbered_codes ''MF-S'' [20..<30] (SCHEMA, ERROR)
     @ numbered_codes ''MF-R'' [1..<12] (RESOLUTION, ERROR)
     @ [(''MF-C001_DISCOVERY_NOT_CATALOG'', (RESOLUTION, ERROR))]
     @ numbered_codes ''MF-G'' [1..<14] (GRAPH, ERROR)
     @ [(''MF-C001'', (CAPABILITY, ERROR))]
     @ numbered_codes ''MF-A'' [1..<8] (ARTIFACT, ERROR)
     @ numbered_codes ''MF-L'' [1..<5] (LOWERING, ERROR)
     @ numbered_codes ''MF-O'' [1..<6] (OUTPUT, ERROR)
     @ [(''MF-I001'', (INTERNAL, ERROR)), (''MF-D001'', (INTERNAL, WARNING))]"

definition REQUEST_DIAGNOSTIC_ORDER :: "(string \<times> nat) list" where
  "REQUEST_DIAGNOSTIC_ORDER =
     [(''MF-S018'', 0), (''MF-S001'', 1), (''MF-S002'', 2), (''MF-S016'', 3),
      (''MF-S017'', 4), (''MF-S013'', 5), (''MF-S014'', 6), (''MF-S015'', 7)]"

definition INTERNAL_DIAGNOSTIC_ORDER :: "(string \<times> nat) list" where
  "INTERNAL_DIAGNOSTIC_ORDER = [(''MF-I001'', 0), (''MF-D001'', 1)]"

section \<open>Source locations and references\<close>

record source_location =
  loc_line :: int
  loc_column :: int
  loc_end_line :: "int option"
  loc_end_column :: "int option"

definition mk_source_location ::
  "int \<Rightarrow> int \<Rightarrow> int option \<Rightarrow> int option \<Rightarrow> source_location result" where
  "mk_source_location line column end_line end_column =
     (if line < 1 \<or> column < 1 \<or> (\<exists>e \<in> set_option end_line. e < 1) \<or> (\<exists>e \<in> set_option end_column. e < 1)
      then Raise (ValueError ''Input should be greater than or equal to 1'')
      else case (end_line, end_column) of
        (None, Some _) \<Rightarrow> Raise (ValueError ''end_column requires end_line'')
      | (Some _, None) \<Rightarrow> Raise (ValueError ''end_line requires end_column'')
      | (Some el, Some ec) \<Rightarrow>
          if (el, ec) < (line, column)
          then Raise (ValueError ''end location must not precede start location'')
          else Ok \<lparr>loc_line = line, loc_column = column, loc_end_line = end_line, loc_end_column = end_column\<rparr>
      | (None, None) \<Rightarrow>
          Ok \<lparr>loc_line = line, loc_column = column, loc_end_line = None, loc_end_column = None\<rparr>)"

record source_ref =
  src_logical_path :: string
  src_field_path :: string
  src_location :: "source_location option"

definition mk_source_ref ::
  "string \<Rightarrow> string \<Rightarrow> source_location option \<Rightarrow> source_ref result" where
  "mk_source_ref logical_path field_path location =
     (if \<not> nonblank logical_path then Raise (ValueError ''logical_path must be nonblank'')
      else if take 1 field_path \<noteq> ''/''
      then Raise (ValueError ''field_path must be an RFC 6901 absolute pointer'')
      else Ok \<lparr>src_logical_path = logical_path, src_field_path = field_path, src_location = location\<rparr>)"

section \<open>Diagnostic fields\<close>

datatype field_value = FStr string | FInt int | FFloat pyfloat | FBool bool

record diagnostic_field =
  field_key :: string
  field_val :: field_value

definition lower_char :: "char \<Rightarrow> char" where
  "lower_char c = (if is_upper c then char_of (of_char c + 32 :: nat) else c)"

definition is_infix :: "string \<Rightarrow> string \<Rightarrow> bool" where
  "is_infix p s \<longleftrightarrow> list_ex (\<lambda>t. take (length p) t = p) (map (\<lambda>n. drop n s) [0..<Suc (length s)])"

text \<open>An evaluation of the search that stops at the first character that differs.\<close>

fun begins_with :: "string \<Rightarrow> string \<Rightarrow> bool" where
  "begins_with [] s = True"
| "begins_with (p # ps) [] = False"
| "begins_with (p # ps) (c # s) = (if c = p then begins_with ps s else False)"

lemma begins_with_take: "begins_with p s \<longleftrightarrow> take (length p) s = p"
  by (induction p s rule: begins_with.induct) auto

lemma is_infix_code [code]:
  "is_infix p [] = (p = [])"
  "is_infix p (c # s) = (if begins_with p (c # s) then True else is_infix p s)"
proof -
  have "is_infix p t \<longleftrightarrow> (\<exists>n < Suc (length t). take (length p) (drop n t) = p)" for t
    by (auto simp: is_infix_def list_ex_iff simp del: upt_Suc)
  then have cons: "is_infix p (d # t) \<longleftrightarrow> take (length p) (d # t) = p \<or> is_infix p t" for d t
    by (simp add: Ex_less_Suc2)
  show "is_infix p (c # s) = (if begins_with p (c # s) then True else is_infix p s)"
    unfolding cons begins_with_take by simp
qed (auto simp: is_infix_def)

definition SENSITIVE_FIELD_MARKERS :: "string list" where
  "SENSITIVE_FIELD_MARKERS =
     [''authorization'', ''api-key'', ''apikey'', ''token'', ''secret'', ''password'',
      ''credential'', ''cookie'', ''set-cookie'']"

definition REDACTED :: string where "REDACTED = ''**redacted**''"

definition detect_secret_candidate ::
  "redaction_env \<Rightarrow> string \<Rightarrow> string \<Rightarrow> string \<Rightarrow> bool" where
  "detect_secret_candidate env field_path field_name value =
     (let lowered = map lower_char (field_path @ ''/'' @ field_name);
          compact = filter (\<lambda>c. c \<noteq> CHR ''-'') (filter (\<lambda>c. c \<noteq> CHR ''_'') lowered);
          marker_match = list_ex (\<lambda>marker. is_infix marker lowered
             \<or> is_infix (filter (\<lambda>c. c \<noteq> CHR ''-'') marker) compact) SENSITIVE_FIELD_MARKERS
      in (marker_match \<and> nonblank value) \<or> secret_pattern env value)"

text \<open>The longest prefix of at most \<open>n\<close> UTF-8 bytes (\<^verbatim>\<open>decode(errors="ignore")\<close> of the cut bytes).\<close>

fun take_utf8 :: "nat \<Rightarrow> string \<Rightarrow> string" where
  "take_utf8 n [] = []"
| "take_utf8 n (c # s) =
     (let w = (if (of_char c :: nat) < 128 then 1 else 2)
      in if w \<le> n then c # take_utf8 (n - w) s else [])"

definition truncate_utf8 :: "string \<Rightarrow> nat \<Rightarrow> string" where
  "truncate_utf8 value maximum =
     (if utf8_len value \<le> maximum then value
      else take_utf8 (maximum - utf8_len TRUNCATED_SUFFIX) value @ TRUNCATED_SUFFIX)"

definition mk_diagnostic_field ::
  "redaction_env \<Rightarrow> string \<Rightarrow> field_value \<Rightarrow> diagnostic_field result" where
  "mk_diagnostic_field env key value =
     bind_result (validate_lower_field_key key) (\<lambda>k.
     case value of
       FStr s \<Rightarrow>
         Ok \<lparr>field_key = k,
             field_val = FStr (if detect_secret_candidate env (''/'' @ k) k s then REDACTED
                               else truncate_utf8 (redact_text env s) MAX_DIAGNOSTIC_FIELD_STRING_UTF8)\<rparr>
     | FFloat f \<Rightarrow>
         (case f of Finite _ \<Rightarrow> Ok \<lparr>field_key = k, field_val = value\<rparr>
          | _ \<Rightarrow> Raise (ValueError ''value must be finite''))
     | _ \<Rightarrow> Ok \<lparr>field_key = k, field_val = value\<rparr>)"

section \<open>Diagnostics\<close>

record diagnostic =
  diag_code :: string
  diag_severity :: diagnostic_severity
  diag_phase :: compiler_phase
  diag_message :: string
  diag_source :: "source_ref option"
  diag_harness_id :: "string option"
  diag_node_id :: "string option"
  diag_related_ids :: "string list"
  diag_suggested_fix :: "string option"
  diag_fields :: "diagnostic_field list"

definition message_valid :: "redaction_env \<Rightarrow> string \<Rightarrow> string result" where
  "message_valid env value =
     (if \<not> nonblank value then Raise (ValueError ''message must be nonblank'')
      else validate_utf8_size (redact_text env value) ''message'' MAX_DIAGNOSTIC_MESSAGE_UTF8)"

definition optional :: "('a \<Rightarrow> 'b result) \<Rightarrow> 'a option \<Rightarrow> 'b option result" where
  "optional f v = (case v of None \<Rightarrow> Ok None | Some x \<Rightarrow> bind_result (f x) (\<lambda>y. Ok (Some y)))"

definition related_ids_valid :: "string list \<Rightarrow> string list result" where
  "related_ids_valid value =
     (if length value > MAX_RELATED_IDS
      then Raise (ValueError ''related_ids may contain at most 16 entries'')
      else if \<exists>item \<in> set value. \<not> nonblank item
      then Raise (ValueError ''related_ids must be nonblank'')
      else Ok value)"

definition suggested_fix_valid :: "redaction_env \<Rightarrow> string \<Rightarrow> string result" where
  "suggested_fix_valid env value =
     (if \<not> nonblank value then Raise (ValueError ''suggested_fix must be nonblank'')
      else validate_utf8_size (redact_text env value) ''suggested_fix'' MAX_DIAGNOSTIC_MESSAGE_UTF8)"

definition fields_valid :: "diagnostic_field list \<Rightarrow> diagnostic_field list result" where
  "fields_valid value =
     (if length value > MAX_DIAGNOSTIC_FIELDS
      then Raise (ValueError ''fields may contain at most 16 entries'')
      else if card (set (map field_key value)) \<noteq> length (map field_key value)
      then Raise (ValueError ''diagnostic field keys must be unique'')
      else Ok value)"

text \<open>
  The constructor: the field validators in declaration order, then the registry check. Pydantic
  gathers the failures into one \<^verbatim>\<open>ValidationError\<close> (a \<^verbatim>\<open>ValueError\<close>); the model keeps the first.
\<close>

definition mk_diagnostic ::
  "redaction_env \<Rightarrow> string \<Rightarrow> diagnostic_severity \<Rightarrow> compiler_phase \<Rightarrow> string \<Rightarrow> source_ref option \<Rightarrow>
   string option \<Rightarrow> string option \<Rightarrow> string list \<Rightarrow> string option \<Rightarrow> diagnostic_field list \<Rightarrow>
   diagnostic result" where
  "mk_diagnostic env code severity phase message source harness nid related fix flds =
     bind_result (message_valid env message) (\<lambda>message'.
     bind_result (optional validate_harness_id harness) (\<lambda>harness'.
     bind_result (optional validate_node_id nid) (\<lambda>nid'.
     bind_result (related_ids_valid related) (\<lambda>related'.
     bind_result (optional (suggested_fix_valid env) fix) (\<lambda>fix'.
     bind_result (fields_valid flds) (\<lambda>flds'.
     case map_of DIAGNOSTIC_REGISTRY code of
       None \<Rightarrow> Raise (ValueError ''diagnostic code is not registered'')
     | Some expected \<Rightarrow>
         if (phase, severity) \<noteq> expected
         then Raise (ValueError ''diagnostic phase and severity must match registry'')
         else Ok \<lparr>diag_code = code, diag_severity = severity, diag_phase = phase,
                  diag_message = message', diag_source = source, diag_harness_id = harness',
                  diag_node_id = nid', diag_related_ids = related',
                  diag_suggested_fix = fix', diag_fields = flds'\<rparr>))))))"

text \<open>
  The private \<^verbatim>\<open>_diagnostic\<close> helpers of the compiler modules build the fields from a dictionary
  in key order and the diagnostic with severity ERROR.
\<close>

definition error_diagnostic ::
  "redaction_env \<Rightarrow> compiler_phase \<Rightarrow> string \<Rightarrow> string \<Rightarrow> string option \<Rightarrow> string list \<Rightarrow>
   (string \<times> field_value) list \<Rightarrow> diagnostic result" where
  "error_diagnostic env phase code message nid related flds =
     bind_result (traverse (\<lambda>(k, v). mk_diagnostic_field env k v) (sort_key fst flds)) (\<lambda>fs.
     mk_diagnostic env code ERROR phase message None None nid related None fs)"

section \<open>The deterministic order\<close>

type_synonym diagnostic_key =
  "nat \<times> nat \<times> int \<times> int \<times> string \<times> string \<times> string \<times> string"

definition diagnostic_sort_key :: "diagnostic \<Rightarrow> diagnostic_key" where
  "diagnostic_sort_key d =
     (let location = Option.bind (diag_source d) src_location;
          rank = (case diag_phase d of
              REQUEST \<Rightarrow> (case map_of REQUEST_DIAGNOSTIC_ORDER (diag_code d) of
                  Some r \<Rightarrow> r | None \<Rightarrow> length REQUEST_DIAGNOSTIC_ORDER)
            | INTERNAL \<Rightarrow> (case map_of INTERNAL_DIAGNOSTIC_ORDER (diag_code d) of
                  Some r \<Rightarrow> r | None \<Rightarrow> length INTERNAL_DIAGNOSTIC_ORDER)
            | _ \<Rightarrow> 0)
      in (phase_index (diag_phase d), rank,
          (case location of Some l \<Rightarrow> loc_line l | None \<Rightarrow> 0),
          (case location of Some l \<Rightarrow> loc_column l | None \<Rightarrow> 0),
          (case diag_source d of Some s \<Rightarrow> src_field_path s | None \<Rightarrow> ''''),
          diag_code d,
          (case diag_node_id d of Some n \<Rightarrow> n | None \<Rightarrow> ''''),
          diag_message d))"

definition sort_diagnostics :: "diagnostic list \<Rightarrow> diagnostic list" where
  "sort_diagnostics ds = sort_key diagnostic_sort_key ds"

section \<open>The bounded report\<close>

definition json_opt :: "('a \<Rightarrow> json) \<Rightarrow> 'a option \<Rightarrow> json" where
  "json_opt f v = (case v of None \<Rightarrow> JNull | Some x \<Rightarrow> f x)"

definition field_value_json :: "field_value \<Rightarrow> json" where
  "field_value_json v =
     (case v of FStr s \<Rightarrow> JStr s | FInt i \<Rightarrow> JInt i | FFloat f \<Rightarrow> JFloat f | FBool b \<Rightarrow> JBool b)"

text \<open>\<^verbatim>\<open>diagnostic.model_dump(mode="json")\<close>.\<close>

definition diagnostic_json :: "diagnostic \<Rightarrow> json" where
  "diagnostic_json d = JObj
     [(''code'', JStr (diag_code d)),
      (''severity'', JStr (severity_value (diag_severity d))),
      (''phase'', JStr (phase_value (diag_phase d))),
      (''message'', JStr (diag_message d)),
      (''source_reference'', json_opt (\<lambda>s. JObj
         [(''logical_path'', JStr (src_logical_path s)),
          (''field_path'', JStr (src_field_path s)),
          (''location'', json_opt (\<lambda>l. JObj
             [(''line'', JInt (loc_line l)), (''column'', JInt (loc_column l)),
              (''end_line'', json_opt JInt (loc_end_line l)),
              (''end_column'', json_opt JInt (loc_end_column l))]) (src_location s))]) (diag_source d)),
      (''harness_id'', json_opt JStr (diag_harness_id d)),
      (''node_id'', json_opt JStr (diag_node_id d)),
      (''related_ids'', JArr (map JStr (diag_related_ids d))),
      (''suggested_fix'', json_opt JStr (diag_suggested_fix d)),
      (''fields'', JArr (map (\<lambda>f. JObj
         [(''key'', JStr (field_key f)), (''value'', field_value_json (field_val f))]) (diag_fields d)))]"

definition diagnostic_report_size_bytes :: "redaction_env \<Rightarrow> diagnostic list \<Rightarrow> nat result" where
  "diagnostic_report_size_bytes env ds =
     bind_result (json_dumps (float_repr env) (JArr (map diagnostic_json ds))) (\<lambda>serialized.
     Ok (utf8_len serialized))"

definition diagnostics_truncated_warning :: "redaction_env \<Rightarrow> diagnostic result" where
  "diagnostics_truncated_warning env =
     mk_diagnostic env ''MF-D001'' WARNING INTERNAL DIAGNOSTICS_TRUNCATED_MESSAGE None None None [] None []"

function bound_loop :: "redaction_env \<Rightarrow> diagnostic \<Rightarrow> diagnostic list \<Rightarrow> diagnostic list result" where
  "bound_loop env warning kept =
     bind_result (diagnostic_report_size_bytes env (kept @ [warning])) (\<lambda>size.
       if size \<le> MAX_DIAGNOSTIC_REPORT_BYTES then Ok (kept @ [warning])
       else if kept = [] then Ok [warning]
       else bound_loop env warning (butlast kept))"
  by pat_completeness auto
termination
  by (relation "measure (\<lambda>(env, warning, kept). length kept)") auto

declare bound_loop.simps [simp del]

definition bound_diagnostics :: "redaction_env \<Rightarrow> diagnostic list \<Rightarrow> diagnostic list result" where
  "bound_diagnostics env ds =
     (let ordered = sort_diagnostics ds in
      bind_result (if length ordered \<le> MAX_DIAGNOSTICS_PER_REPORT
                   then bind_result (diagnostic_report_size_bytes env ordered) (\<lambda>size.
                        Ok (size \<le> MAX_DIAGNOSTIC_REPORT_BYTES))
                   else Ok False) (\<lambda>fits.
      if fits then Ok ordered
      else bind_result (diagnostics_truncated_warning env) (\<lambda>warning.
           bound_loop env warning
             (take MAX_DIAGNOSTICS_WITHOUT_TRUNCATION_WARNING
               (filter (\<lambda>d. diag_code d \<noteq> ''MF-D001'') ordered)))))"

section \<open>What a constructed diagnostic satisfies\<close>

definition finite_field :: "diagnostic_field \<Rightarrow> bool" where
  "finite_field f \<longleftrightarrow> json_finite (field_value_json (field_val f))"

definition wf_diagnostic :: "diagnostic \<Rightarrow> bool" where
  "wf_diagnostic d \<longleftrightarrow>
     map_of DIAGNOSTIC_REGISTRY (diag_code d) = Some (diag_phase d, diag_severity d)
     \<and> utf8_len (diag_message d) \<le> 1024
     \<and> (\<forall>n. diag_node_id d = Some n \<longrightarrow> NODE_ID_RE n)
     \<and> length (diag_related_ids d) \<le> 16 \<and> (\<forall>i \<in> set (diag_related_ids d). nonblank i)
     \<and> length (diag_fields d) \<le> 16 \<and> distinct (map field_key (diag_fields d))"

lemmas diagnostic_bound_defs =
  MAX_DIAGNOSTIC_MESSAGE_UTF8_def MAX_DIAGNOSTIC_FIELDS_def MAX_DIAGNOSTIC_FIELD_STRING_UTF8_def
  MAX_RELATED_IDS_def MAX_DIAGNOSTIC_REPORT_BYTES_def MAX_DIAGNOSTICS_PER_REPORT_def
  MAX_DIAGNOSTICS_WITHOUT_TRUNCATION_WARNING_def

lemma optional_Inr: "optional f v = Inr w \<longleftrightarrow>
    (v = None \<and> w = None \<or> (\<exists>x y. v = Some x \<and> f x = Inr y \<and> w = Some y))"
  by (auto simp: optional_def result_simps split: option.splits)

lemma validate_utf8_size_Inr: "validate_utf8_size v f n = Inr w \<longleftrightarrow> w = v \<and> utf8_len v \<le> n"
  by (auto simp: validate_utf8_size_def)

lemma message_valid_Inr:
  "message_valid env m = Inr w \<longleftrightarrow> nonblank m \<and> w = redact_text env m \<and> utf8_len w \<le> 1024"
  by (auto simp: message_valid_def validate_utf8_size_Inr diagnostic_bound_defs)

lemma related_ids_valid_Inr:
  "related_ids_valid r = Inr w \<longleftrightarrow> w = r \<and> length r \<le> 16 \<and> (\<forall>i \<in> set r. nonblank i)"
  by (auto simp: related_ids_valid_def diagnostic_bound_defs)

lemma fields_valid_Inr:
  "fields_valid r = Inr w \<longleftrightarrow> w = r \<and> length r \<le> 16 \<and> distinct (map field_key r)"
  by (auto simp: fields_valid_def diagnostic_bound_defs card_distinct dest: distinct_card)

lemma optional_node_id_Inr:
  "optional validate_node_id nid = Inr w \<longleftrightarrow>
     w = nid \<and> (\<forall>n. nid = Some n \<longrightarrow> length n \<le> 64 \<and> NODE_ID_RE n)"
  by (cases nid) (auto simp: optional_def result_simps node_id.Inr_iff max_length_defs)

lemma mk_diagnostic_Inr:
  "mk_diagnostic env code sev ph msg src har nid rel fix flds = Inr d \<longleftrightarrow>
     (nonblank msg \<and> utf8_len (redact_text env msg) \<le> 1024)
     \<and> (\<forall>n. nid = Some n \<longrightarrow> length n \<le> 64 \<and> NODE_ID_RE n)
     \<and> (length rel \<le> 16 \<and> (\<forall>i \<in> set rel. nonblank i))
     \<and> (length flds \<le> 16 \<and> distinct (map field_key flds))
     \<and> map_of DIAGNOSTIC_REGISTRY code = Some (ph, sev)
     \<and> (\<exists>h f. optional validate_harness_id har = Inr h \<and> optional (suggested_fix_valid env) fix = Inr f
        \<and> d = \<lparr>diag_code = code, diag_severity = sev, diag_phase = ph,
               diag_message = redact_text env msg, diag_source = src, diag_harness_id = h,
               diag_node_id = nid, diag_related_ids = rel, diag_suggested_fix = f, diag_fields = flds\<rparr>)"
  (is "?lhs \<longleftrightarrow> ?rhs")
proof
  assume ?lhs
  then obtain h f where "optional validate_harness_id har = Inr h"
      "optional (suggested_fix_valid env) fix = Inr f"
      "message_valid env msg = Inr (redact_text env msg)" "optional validate_node_id nid = Inr nid"
      "related_ids_valid rel = Inr rel" "fields_valid flds = Inr flds"
    and last: "(case map_of DIAGNOSTIC_REGISTRY code of
       None \<Rightarrow> Raise (ValueError ''diagnostic code is not registered'')
     | Some expected \<Rightarrow>
         if (ph, sev) \<noteq> expected
         then Raise (ValueError ''diagnostic phase and severity must match registry'')
         else Ok \<lparr>diag_code = code, diag_severity = sev, diag_phase = ph,
               diag_message = redact_text env msg, diag_source = src, diag_harness_id = h,
               diag_node_id = nid, diag_related_ids = rel, diag_suggested_fix = f, diag_fields = flds\<rparr>) = Inr d"
    unfolding mk_diagnostic_def bind_result_Inr message_valid_Inr related_ids_valid_Inr
      fields_valid_Inr optional_node_id_Inr by blast
  moreover from last have "map_of DIAGNOSTIC_REGISTRY code = Some (ph, sev) \<and>
      d = \<lparr>diag_code = code, diag_severity = sev, diag_phase = ph,
               diag_message = redact_text env msg, diag_source = src, diag_harness_id = h,
               diag_node_id = nid, diag_related_ids = rel, diag_suggested_fix = f, diag_fields = flds\<rparr>"
    by (cases "map_of DIAGNOSTIC_REGISTRY code") (auto split: if_splits)
  ultimately show ?rhs
    unfolding message_valid_Inr related_ids_valid_Inr fields_valid_Inr optional_node_id_Inr by blast
next
  assume ?rhs
  then show ?lhs
    unfolding mk_diagnostic_def bind_result_Inr message_valid_Inr related_ids_valid_Inr
      fields_valid_Inr optional_node_id_Inr by auto
qed

lemma mk_diagnostic_wf: "mk_diagnostic env code sev ph msg src har nid rel fix flds = Inr d \<Longrightarrow> wf_diagnostic d"
  unfolding mk_diagnostic_Inr wf_diagnostic_def
  by (elim conjE exE, simp only: diagnostic.select_convs) blast

lemma mk_diagnostic_field_Inr:
  "mk_diagnostic_field env k v = Inr f \<longleftrightarrow>
     length k \<le> 64 \<and> LOWER_FIELD_KEY_RE k \<and> json_finite (field_value_json v)
     \<and> f = \<lparr>field_key = k,
             field_val = (case v of
                FStr s \<Rightarrow> FStr (if detect_secret_candidate env (''/'' @ k) k s then REDACTED
                               else truncate_utf8 (redact_text env s) MAX_DIAGNOSTIC_FIELD_STRING_UTF8)
              | _ \<Rightarrow> v)\<rparr>"
proof (cases v)
  case (FFloat x)
  then show ?thesis
    unfolding mk_diagnostic_field_def bind_result_Inr lower_field_key.Inr_iff
    by (cases x) (auto simp: field_value_json_def)
qed (auto simp: mk_diagnostic_field_def bind_result_Inr lower_field_key.Inr_iff field_value_json_def)

lemma mk_diagnostic_field_finite: "mk_diagnostic_field env k v = Inr f \<Longrightarrow> finite_field f"
  unfolding mk_diagnostic_field_Inr finite_field_def
  by (cases v) (auto simp: field_value_json_def)

lemma mk_diagnostic_field_key: "mk_diagnostic_field env k v = Inr f \<Longrightarrow> field_key f = k"
  by (simp add: mk_diagnostic_field_Inr)

text \<open>A report with an over-long identifier list is refused by the constructor, whatever its code.\<close>

lemma mk_diagnostic_too_many_related:
  "16 < length rel \<Longrightarrow> \<not> is_ok (mk_diagnostic env code sev ph msg src har nid rel fix flds)"
  by (auto simp: is_ok_iff mk_diagnostic_Inr)

lemma error_diagnostic_too_many_related:
  "16 < length rel \<Longrightarrow> \<not> is_ok (error_diagnostic env ph code msg nid rel flds)"
  by (auto simp: error_diagnostic_def is_ok_bind dest: mk_diagnostic_too_many_related)

lemma error_diagnostic_Inr:
  assumes "error_diagnostic env ph code msg nid rel flds = Inr d"
  shows "diag_code d = code \<and> diag_phase d = ph \<and> diag_severity d = ERROR \<and> diag_node_id d = nid
     \<and> diag_related_ids d = rel \<and> diag_message d = redact_text env msg \<and> diag_source d = None
     \<and> wf_diagnostic d \<and> (\<forall>f \<in> set (diag_fields d). finite_field f)"
proof -
  from assms obtain fs where fs: "traverse (\<lambda>(k, v). mk_diagnostic_field env k v) (sort_key fst flds) = Inr fs"
    and d: "mk_diagnostic env code ERROR ph msg None None nid rel None fs = Inr d"
    by (auto simp: error_diagnostic_def result_simps)
  from fs have "\<forall>f \<in> set fs. finite_field f"
    by (rule traverse_ball) (auto intro: mk_diagnostic_field_finite)
  with d mk_diagnostic_wf [OF d] show ?thesis
    by (auto simp: mk_diagnostic_Inr)
qed

section \<open>The order is a stable sort, the report is bounded\<close>

lemma sort_diagnostics_mset: "mset (sort_diagnostics ds) = mset ds"
  by (simp add: sort_diagnostics_def)

lemma sort_diagnostics_set [simp]: "set (sort_diagnostics ds) = set ds"
  by (simp add: sort_diagnostics_def)

lemma sort_diagnostics_empty [simp]: "sort_diagnostics ds = [] \<longleftrightarrow> ds = []"
  by (simp add: sort_diagnostics_def)

lemma sort_diagnostics_sorted: "sorted (map diagnostic_sort_key (sort_diagnostics ds))"
  by (simp add: sort_diagnostics_def)

lemma sorted_phases:
  "sorted (map diagnostic_sort_key ds) \<Longrightarrow> sorted (map diag_phase ds)"
  by (induction ds) (auto simp: diagnostic_sort_key_def Let_def less_eq_prod_def
      less_eq_compiler_phase_def)

lemma json_escape_length: "length (json_escape_char c) \<le> 6"
  by (auto simp: json_escape_char_def Let_def)

lemma json_escape_ascii: "\<forall>x \<in> set (json_escape_char c). (of_char x :: nat) < 128"
proof -
  have "(of_char c :: nat) < 256" by simp
  then have "(of_char c :: nat) div 16 < 16" by (simp only: less_mult_imp_div_less)
  then show ?thesis by (auto simp: json_escape_char_def Let_def hex_digit_def of_char_of)
qed

lemma utf8_len_ascii: "\<forall>x \<in> set s. (of_char x :: nat) < 128 \<Longrightarrow> utf8_len s = length s"
  by (induction s) auto

lemma json_string_utf8_len: "utf8_len (json_string s) \<le> 6 * length s + 2"
proof -
  have "utf8_len (concat (map json_escape_char s)) \<le> 6 * length s"
  proof (induction s)
    case (Cons c s)
    have "utf8_len (json_escape_char c) \<le> 6"
      using json_escape_length [of c] utf8_len_ascii [OF json_escape_ascii [of c]] by simp
    with Cons show ?case by simp
  qed simp
  then show ?thesis by (simp add: json_string_def)
qed

lemma json_finite_opt: "json_finite (json_opt f v) \<longleftrightarrow> (\<forall>x. v = Some x \<longrightarrow> json_finite (f x))"
  by (cases v) (simp_all add: json_opt_def)

lemma diagnostic_json_finite: "json_finite (diagnostic_json d) \<longleftrightarrow> (\<forall>f \<in> set (diag_fields d). finite_field f)"
  by (auto simp: diagnostic_json_def json_finite_opt json_items_finite_iff finite_field_def)

lemma report_size_ok:
  "\<forall>d \<in> set ds. \<forall>f \<in> set (diag_fields d). finite_field f \<Longrightarrow>
   is_ok (diagnostic_report_size_bytes env ds)"
proof -
  assume "\<forall>d \<in> set ds. \<forall>f \<in> set (diag_fields d). finite_field f"
  then have "json_finite (JArr (map diagnostic_json ds))"
    by (simp add: json_items_finite_iff diagnostic_json_finite)
  then show ?thesis
    by (simp add: diagnostic_report_size_bytes_def is_ok_bind json_dumps_ok_iff [unfolded is_ok_iff])
qed

lemma json_dumps_one: "json_dumps fr (JArr [v]) = bind_result (json_text fr (json_sort_keys v)) (\<lambda>t. Ok (''['' @ t @ '']''))"
  by (cases "json_text fr (json_sort_keys v)") (simp_all add: json_dumps_def)

lemma warning_shape:
  assumes "diagnostics_truncated_warning env = Inr w"
  shows "w = \<lparr>diag_code = ''MF-D001'', diag_severity = WARNING, diag_phase = INTERNAL,
      diag_message = redact_text env DIAGNOSTICS_TRUNCATED_MESSAGE, diag_source = None,
      diag_harness_id = None, diag_node_id = None, diag_related_ids = [],
      diag_suggested_fix = None, diag_fields = []\<rparr>
    \<and> utf8_len (redact_text env DIAGNOSTICS_TRUNCATED_MESSAGE) \<le> 1024"
  using assms unfolding diagnostics_truncated_warning_def mk_diagnostic_Inr by (auto simp: optional_def)

lemma registry_D001: "map_of DIAGNOSTIC_REGISTRY ''MF-D001'' = Some (INTERNAL, WARNING)"
  by code_simp

lemma warning_ok:
  "utf8_len (redact_text env DIAGNOSTICS_TRUNCATED_MESSAGE) \<le> 1024 \<Longrightarrow>
   is_ok (diagnostics_truncated_warning env)"
  unfolding diagnostics_truncated_warning_def is_ok_iff mk_diagnostic_Inr
  by (simp add: optional_def DIAGNOSTICS_TRUNCATED_MESSAGE_def nonblank_def is_space_def Let_def
      registry_D001)

lemma warning_report_size:
  assumes w: "diagnostics_truncated_warning env = Inr w"
  shows "\<exists>n. diagnostic_report_size_bytes env [w] = Inr n \<and> n \<le> 7000"
proof -
  note sh = warning_shape [OF w]
  let ?m = "redact_text env DIAGNOSTICS_TRUNCATED_MESSAGE"
  have "length ?m \<le> 1024" using sh utf8_len_ge_length [of ?m] by simp
  then have "utf8_len (json_string ?m) \<le> 6200" using json_string_utf8_len [of ?m] by simp
  then show ?thesis
    using sh
    by (simp add: diagnostic_report_size_bytes_def json_dumps_one diagnostic_json_def json_opt_def
        json_dumps_def) (simp add: json_string_def json_escape_char_def Let_def)
qed

lemma bound_loop_spec:
  assumes w: "diagnostics_truncated_warning env = Inr w"
    and "\<forall>d \<in> set kept. \<forall>f \<in> set (diag_fields d). finite_field f"
  shows "\<exists>k n. bound_loop env w kept = Inr (take k kept @ [w])
     \<and> diagnostic_report_size_bytes env (take k kept @ [w]) = Inr n \<and> n \<le> MAX_DIAGNOSTIC_REPORT_BYTES"
  using assms(2)
proof (induction kept rule: rev_induct)
  case Nil
  then show ?case using warning_report_size [OF w]
    by (subst bound_loop.simps) (auto simp: MAX_DIAGNOSTIC_REPORT_BYTES_def)
next
  case (snoc d kept)
  have "diag_fields w = []" using warning_shape [OF w] by simp
  with snoc.prems have "is_ok (diagnostic_report_size_bytes env ((kept @ [d]) @ [w]))"
    by (intro report_size_ok) auto
  then obtain n where n: "diagnostic_report_size_bytes env ((kept @ [d]) @ [w]) = Inr n"
    by (auto simp: is_ok_iff)
  show ?case
  proof (cases "n \<le> MAX_DIAGNOSTIC_REPORT_BYTES")
    case True
    with n show ?thesis
      by (rule_tac exI [of _ "length (kept @ [d])"], rule_tac exI [of _ n])
        (simp add: bound_loop.simps [of _ _ "kept @ [d]"])
  next
    case False
    with n have "bound_loop env w (kept @ [d]) = bound_loop env w kept"
      by (subst bound_loop.simps) simp
    moreover obtain k m where "bound_loop env w kept = Inr (take k kept @ [w])"
      "diagnostic_report_size_bytes env (take k kept @ [w]) = Inr m" "m \<le> MAX_DIAGNOSTIC_REPORT_BYTES"
      using snoc by auto
    moreover have "take (min k (length kept)) kept = take k kept"
      by (simp add: min_def)
    ultimately show ?thesis
      by (rule_tac exI [of _ "min k (length kept)"], rule_tac exI [of _ m]) simp
  qed
qed

text \<open>
  C2: every report is bounded. On any diagnostics whose fields hold no non-finite number,
  \<^verbatim>\<open>bound_diagnostics\<close> returns a report of at most 128 entries and 262144 serialized bytes, and
  the report is either all diagnostics in order or a prefix of the ordered ones (without stale
  truncation warnings) followed by the truncation warning.
\<close>

theorem bound_diagnostics_bounded:
  assumes "\<forall>d \<in> set ds. \<forall>f \<in> set (diag_fields d). finite_field f"
    and "utf8_len (redact_text env DIAGNOSTICS_TRUNCATED_MESSAGE) \<le> 1024"
  shows "\<exists>r n. bound_diagnostics env ds = Inr r \<and> length r \<le> 128
     \<and> diagnostic_report_size_bytes env r = Inr n \<and> n \<le> 262144
     \<and> (r = sort_diagnostics ds
        \<or> (\<exists>k w. diagnostics_truncated_warning env = Inr w
             \<and> r = take k (filter (\<lambda>d. diag_code d \<noteq> ''MF-D001'') (sort_diagnostics ds)) @ [w]))"
proof -
  let ?o = "sort_diagnostics ds" and ?kept = "take 127 (filter (\<lambda>d. diag_code d \<noteq> ''MF-D001'') (sort_diagnostics ds))"
  obtain n where n: "diagnostic_report_size_bytes env ?o = Inr n"
    using report_size_ok [of ?o env] assms(1) by (auto simp: is_ok_iff)
  show ?thesis
  proof (cases "length ?o \<le> 128 \<and> n \<le> 262144")
    case True
    with n show ?thesis
      by (rule_tac exI [of _ ?o], rule_tac exI [of _ n]) (simp add: bound_diagnostics_def diagnostic_bound_defs)
  next
    case False
    obtain w where w: "diagnostics_truncated_warning env = Inr w"
      using warning_ok [OF assms(2)] by (auto simp: is_ok_iff)
    have "\<forall>d \<in> set ?kept. \<forall>f \<in> set (diag_fields d). finite_field f"
      using assms(1) by (auto dest!: in_set_takeD)
    from bound_loop_spec [OF w this] obtain k m
      where k: "bound_loop env w ?kept = Inr (take k ?kept @ [w])"
        "diagnostic_report_size_bytes env (take k ?kept @ [w]) = Inr m" "m \<le> 262144"
      by (auto simp: MAX_DIAGNOSTIC_REPORT_BYTES_def)
    from False n have "bound_diagnostics env ds = bound_loop env w ?kept"
      by (auto simp: bound_diagnostics_def diagnostic_bound_defs w Let_def)
    with k w show ?thesis
      by (rule_tac exI [of _ "take k ?kept @ [w]"], rule_tac exI [of _ m]) auto
  qed
qed

text \<open>An environment whose redactor leaves the text alone, and a diagnostic, for the witnesses.\<close>

definition plain_env :: redaction_env where
  "plain_env = \<lparr>redact_text = (\<lambda>s. s), secret_pattern = (\<lambda>s. False), float_repr = (\<lambda>q. ''0.5'')\<rparr>"

definition sample_diagnostic :: diagnostic where
  "sample_diagnostic = \<lparr>diag_code = ''MF-G002'', diag_severity = ERROR, diag_phase = GRAPH,
     diag_message = ''Node cannot require itself.'', diag_source = None, diag_harness_id = None,
     diag_node_id = Some ''plan'', diag_related_ids = [], diag_suggested_fix = None,
     diag_fields = [\<lparr>field_key = ''prerequisite'', field_val = FStr ''plan''\<rparr>]\<rparr>"

theorem bound_diagnostics_bounded_witness:
  "\<exists>r n. bound_diagnostics plain_env [sample_diagnostic] = Inr r \<and> length r \<le> 128
     \<and> diagnostic_report_size_bytes plain_env r = Inr n \<and> n \<le> 262144
     \<and> (r = sort_diagnostics [sample_diagnostic]
        \<or> (\<exists>k w. diagnostics_truncated_warning plain_env = Inr w
             \<and> r = take k (filter (\<lambda>d. diag_code d \<noteq> ''MF-D001'') (sort_diagnostics [sample_diagnostic])) @ [w]))"
proof (rule bound_diagnostics_bounded)
  show "\<forall>d \<in> set [sample_diagnostic]. \<forall>f \<in> set (diag_fields d). finite_field f"
    by (simp add: sample_diagnostic_def finite_field_def field_value_json_def)
  show "utf8_len (redact_text plain_env DIAGNOSTICS_TRUNCATED_MESSAGE) \<le> 1024"
    by (simp add: plain_env_def DIAGNOSTICS_TRUNCATED_MESSAGE_def)
qed

end
