(* ===== verification/Schema_Subset.thy ===== *)
theory Schema_Subset
  imports Json
begin

text \<open>
  \<^verbatim>\<open>compiler/schema_validation.py\<close>: the JSON Schema subset the compiler accepts, and its
  normal form. A schema is a JSON object (an association list with distinct string keys, so the
  check that keyword names are strings holds by typing); normalisation drops annotations, sorts
  properties and required names, and raises on everything outside the subset.
\<close>

section \<open>Keywords\<close>

definition SCHEMA_ANNOTATION_KEYWORDS :: "string list" where
  "SCHEMA_ANNOTATION_KEYWORDS = [''default'', ''description'']"

definition SCHEMA_STRUCTURAL_KEYWORDS :: "string list" where
  "SCHEMA_STRUCTURAL_KEYWORDS =
     [''additionalProperties'', ''const'', ''enum'', ''items'', ''properties'', ''required'', ''type'']"

definition SCHEMA_UNSUPPORTED_BOUND_KEYWORDS :: "string list" where
  "SCHEMA_UNSUPPORTED_BOUND_KEYWORDS = [''maxItems'', ''maxLength'', ''maximum'', ''minimum'']"

definition SCHEMA_ALLOWED_KEYWORDS :: "string list" where
  "SCHEMA_ALLOWED_KEYWORDS = SCHEMA_ANNOTATION_KEYWORDS @ SCHEMA_STRUCTURAL_KEYWORDS"

definition SCHEMA_SCALAR_TYPES :: "string list" where
  "SCHEMA_SCALAR_TYPES = [''boolean'', ''integer'', ''number'', ''string'']"

definition SCHEMA_ALLOWED_TYPES :: "string list" where
  "SCHEMA_ALLOWED_TYPES = SCHEMA_SCALAR_TYPES @ [''array'', ''object'']"

lemmas keyword_defs =
  SCHEMA_ANNOTATION_KEYWORDS_def SCHEMA_STRUCTURAL_KEYWORDS_def
  SCHEMA_UNSUPPORTED_BOUND_KEYWORDS_def SCHEMA_ALLOWED_KEYWORDS_def
  SCHEMA_SCALAR_TYPES_def SCHEMA_ALLOWED_TYPES_def

text \<open>\<^verbatim>\<open>SchemaSubsetError\<close> is a \<^verbatim>\<open>ValueError\<close>.\<close>

abbreviation schema_error :: "string \<Rightarrow> 'a result" where
  "schema_error m \<equiv> Raise (ValueError m)"

section \<open>Scalar literals\<close>

definition normalize_scalar_literal :: "json \<Rightarrow> string \<Rightarrow> json result" where
  "normalize_scalar_literal value path =
     (case value of
        JNull \<Rightarrow> Ok JNull
      | JBool b \<Rightarrow> Ok value
      | JStr s \<Rightarrow> Ok value
      | JInt i \<Rightarrow> Ok value
      | JFloat (Finite q) \<Rightarrow> Ok value
      | JFloat _ \<Rightarrow> schema_error ''Out of range float values are not JSON compliant''
      | _ \<Rightarrow> schema_error (path @ '' must be a scalar string, number, boolean, or null''))"

text \<open>
  The uniqueness key; numbers compare by value, so the integer 1 and the float 1.0 have the same
  key, as they do in a Python set.
\<close>

datatype scalar_key = NullKey | BooleanKey bool | StringKey string | NumberKey rat

fun scalar_uniqueness_key :: "json \<Rightarrow> scalar_key" where
  "scalar_uniqueness_key JNull = NullKey"
| "scalar_uniqueness_key (JBool b) = BooleanKey b"
| "scalar_uniqueness_key (JStr s) = StringKey s"
| "scalar_uniqueness_key (JInt i) = NumberKey (of_int i)"
| "scalar_uniqueness_key (JFloat (Finite q)) = NumberKey q"
| "scalar_uniqueness_key _ = NullKey"

fun normalize_enum_items ::
  "string \<Rightarrow> nat \<Rightarrow> scalar_key list \<Rightarrow> json list \<Rightarrow> json list result" where
  "normalize_enum_items path index seen [] = Ok []"
| "normalize_enum_items path index seen (item # items) =
     bind_result (normalize_scalar_literal item (path @ ''/'' @ show_nat index)) (\<lambda>literal.
     let key = scalar_uniqueness_key literal in
     if key \<in> set seen then schema_error (path @ '' contains duplicate scalar literal'')
     else bind_result (normalize_enum_items path (Suc index) (key # seen) items) (\<lambda>rest.
          Ok (literal # rest)))"

definition normalize_enum :: "json \<Rightarrow> string \<Rightarrow> json list result" where
  "normalize_enum value path =
     (case value of
        JArr (x # xs) \<Rightarrow> normalize_enum_items path 0 [] (x # xs)
      | _ \<Rightarrow> schema_error (path @ '' must be a non-empty array''))"

definition literal_matches_type :: "json \<Rightarrow> string \<Rightarrow> bool" where
  "literal_matches_type value schema_type =
     (if schema_type = ''boolean'' then (case value of JBool _ \<Rightarrow> True | _ \<Rightarrow> False)
      else if schema_type = ''integer'' then (case value of JInt _ \<Rightarrow> True | _ \<Rightarrow> False)
      else if schema_type = ''number'' then (case value of JInt _ \<Rightarrow> True | JFloat _ \<Rightarrow> True | _ \<Rightarrow> False)
      else if schema_type = ''string'' then (case value of JStr _ \<Rightarrow> True | _ \<Rightarrow> False)
      else False)"

text \<open>
  The \<^verbatim>\<open>const\<close> branch of the loop is dead: a schema with that keyword never gets here.
\<close>

definition validate_literal_types ::
  "string \<Rightarrow> json list option \<Rightarrow> string \<Rightarrow> unit result" where
  "validate_literal_types schema_type enum path =
     (case enum of
        None \<Rightarrow> Ok ()
      | Some values \<Rightarrow>
          ensure (\<forall>value \<in> set values. literal_matches_type value schema_type)
            (ValueError (path @ ''/enum value does not match schema type'')))"

section \<open>Keyword checks\<close>

fun validate_object_keys :: "string list \<Rightarrow> string \<Rightarrow> unit result" where
  "validate_object_keys [] path = Ok ()"
| "validate_object_keys (key # rest) path =
     (if key \<in> set SCHEMA_UNSUPPORTED_BOUND_KEYWORDS
      then schema_error (path @ ''/'' @ key @ '' is not accepted because runtime does not enforce schema bounds'')
      else if key \<notin> set SCHEMA_ALLOWED_KEYWORDS
      then schema_error (path @ ''/'' @ key @ '' is not in the accepted 03B subset'')
      else validate_object_keys rest path)"

fun reject_keywords :: "(string \<times> json) list \<Rightarrow> string list \<Rightarrow> string \<Rightarrow> string \<Rightarrow> unit result" where
  "reject_keywords schema [] schema_type path = Ok ()"
| "reject_keywords schema (keyword # rest) schema_type path =
     (if has_key schema keyword
      then schema_error (path @ ''/'' @ keyword @ '' is not valid for type '' @ py_repr schema_type)
      else reject_keywords schema rest schema_type path)"

definition normalize_const_only_schema ::
  "(string \<times> json) list \<Rightarrow> string \<Rightarrow> (string \<times> json) list result" where
  "normalize_const_only_schema schema path =
     (let structural_keys = set (keys schema) \<inter> set SCHEMA_STRUCTURAL_KEYWORDS in
      if structural_keys \<noteq> {''const''}
      then let joined = join_str '', '' (sorted_set (structural_keys - {''const''}))
           in schema_error (path @ ''/const-only schema cannot include non-annotation keys''
                @ (if joined \<noteq> [] then '': '' @ joined else []))
      else bind_result (normalize_scalar_literal (the (map_of schema ''const'')) (path @ ''/const''))
             (\<lambda>literal. Ok [(''const'', literal)]))"

fun normalize_required ::
  "string \<Rightarrow> string list \<Rightarrow> nat \<Rightarrow> string list \<Rightarrow> json list \<Rightarrow> string list result" where
  "normalize_required path properties index seen [] = Ok []"
| "normalize_required path properties index seen (item # rest) =
     (case item of
        JStr (c # s) \<Rightarrow>
          if c # s \<in> set seen
          then schema_error (path @ ''/required contains duplicate field '' @ py_repr (c # s))
          else if c # s \<notin> set properties
          then schema_error (path @ ''/required field '' @ py_repr (c # s) @ '' is not a property'')
          else bind_result (normalize_required path properties (Suc index) ((c # s) # seen) rest) (\<lambda>xs.
               Ok ((c # s) # xs))
      | _ \<Rightarrow> schema_error (path @ ''/required/'' @ show_nat index @ '' must be a nonblank string''))"

section \<open>Normalisation\<close>

text \<open>The weight of a value decreases from an object to its members.\<close>

fun jweight :: "json \<Rightarrow> nat" and jweights :: "json list \<Rightarrow> nat"
  and jmembers :: "(string \<times> json) list \<Rightarrow> nat" where
  "jweight (JArr xs) = Suc (jweights xs)"
| "jweight (JObj kvs) = Suc (jmembers kvs)"
| "jweight _ = 1"
| "jweights [] = 0"
| "jweights (x # xs) = jweight x + jweights xs"
| "jmembers [] = 0"
| "jmembers ((k, v) # kvs) = Suc (jweight v + jmembers kvs)"

lemma jmembers_sum: "jmembers kvs = sum_list (map (\<lambda>kv. Suc (jweight (snd kv))) kvs)"
  by (induction kvs) auto

lemma jmembers_sort [simp]: "jmembers (sort_key f kvs) = jmembers kvs"
proof -
  have "mset (map (\<lambda>kv. Suc (jweight (snd kv))) (sort_key f kvs))
      = mset (map (\<lambda>kv. Suc (jweight (snd kv))) kvs)" by simp
  then show ?thesis unfolding jmembers_sum by (metis sum_mset_sum_list)
qed

lemma jmembers_map_of: "map_of kvs k = Some v \<Longrightarrow> jweight v < jmembers kvs"
  by (induction kvs) (auto split: if_splits)

text \<open>
  \<^verbatim>\<open>_normalize_schema_node\<close> with the object and array cases in place;
  \<open>normalize_properties\<close> is the loop over \<^verbatim>\<open>sorted(properties)\<close>.
\<close>

function normalize_schema_node :: "(string \<times> json) list \<Rightarrow> string \<Rightarrow> (string \<times> json) list result"
  and normalize_object_schema :: "(string \<times> json) list \<Rightarrow> string \<Rightarrow> (string \<times> json) list result"
  and normalize_array_schema :: "(string \<times> json) list \<Rightarrow> string \<Rightarrow> (string \<times> json) list result"
  and normalize_properties :: "(string \<times> json) list \<Rightarrow> string \<Rightarrow> (string \<times> json) list result" where
  "normalize_schema_node schema path =
     bind_result (validate_object_keys (keys schema) path) (\<lambda>_.
     if has_key schema ''const'' then normalize_const_only_schema schema path
     else case map_of schema ''type'' of
       Some (JStr schema_type) \<Rightarrow>
         if schema_type \<notin> set SCHEMA_ALLOWED_TYPES
         then schema_error (path @ ''/type '' @ py_repr schema_type @ '' is not supported'')
         else bind_result (case map_of schema ''enum'' of
                None \<Rightarrow> Ok None
              | Some e \<Rightarrow> bind_result (normalize_enum e (path @ ''/enum'')) (\<lambda>vs. Ok (Some vs))) (\<lambda>enum.
              bind_result
                (if schema_type = ''object'' then normalize_object_schema schema path
                 else if schema_type = ''array'' then normalize_array_schema schema path
                 else bind_result (reject_keywords schema
                        [''additionalProperties'', ''items'', ''properties'', ''required''] schema_type path)
                        (\<lambda>_. Ok [])) (\<lambda>structure.
              bind_result (validate_literal_types schema_type enum path) (\<lambda>_.
              Ok ([(''type'', JStr schema_type)]
                  @ (case enum of None \<Rightarrow> [] | Some vs \<Rightarrow> [(''enum'', JArr vs)])
                  @ structure))))
     | _ \<Rightarrow> schema_error (path @ ''/type must be one schema type string''))"
| "normalize_object_schema schema path =
     bind_result (reject_keywords schema [''items''] ''object'' path) (\<lambda>_.
     if map_of schema ''additionalProperties'' \<noteq> Some (JBool False)
     then schema_error (path @ ''/additionalProperties must be false'')
     else bind_result (case map_of schema ''properties'' of
            None \<Rightarrow> Ok []
          | Some (JObj properties) \<Rightarrow> normalize_properties (sort_key fst properties) path
          | Some _ \<Rightarrow> schema_error (path @ ''/properties must be an object'')) (\<lambda>normalized_properties.
          bind_result (case map_of schema ''required'' of
            None \<Rightarrow> Ok []
          | Some (JArr required) \<Rightarrow>
              normalize_required path (keys normalized_properties) 0 [] required
          | Some _ \<Rightarrow> schema_error (path @ ''/required must be an array'')) (\<lambda>normalized_required.
          Ok [(''additionalProperties'', JBool False),
              (''properties'', JObj normalized_properties),
              (''required'', JArr (map JStr (sort normalized_required)))])))"
| "normalize_array_schema schema path =
     bind_result (reject_keywords schema [''additionalProperties'', ''properties'', ''required''] ''array'' path) (\<lambda>_.
     case map_of schema ''items'' of
       Some (JObj items) \<Rightarrow>
         bind_result (normalize_schema_node items (path @ ''/items'')) (\<lambda>node.
         Ok [(''items'', JObj node)])
     | _ \<Rightarrow> schema_error (path @ ''/items must be a schema object''))"
| "normalize_properties [] path = Ok []"
| "normalize_properties ((property_name, property_schema) # rest) path =
     (if property_name = [] then schema_error (path @ ''/properties keys must be nonblank strings'')
      else case property_schema of
        JObj node_schema \<Rightarrow>
          bind_result (normalize_schema_node node_schema (path @ ''/properties/'' @ property_name)) (\<lambda>node.
          bind_result (normalize_properties rest path) (\<lambda>nodes.
          Ok ((property_name, JObj node) # nodes)))
      | _ \<Rightarrow> schema_error (path @ ''/properties/'' @ property_name @ '' must be a schema object''))"
  by pat_completeness auto
termination
  by (relation "measure (case_sum (case_sum (\<lambda>(s, p). 2 * jmembers s + 1) (\<lambda>(s, p). 2 * jmembers s))
        (case_sum (\<lambda>(s, p). 2 * jmembers s) (\<lambda>(s, p). 2 * jmembers s)))")
    (auto dest!: jmembers_map_of)

declare normalize_schema_node.simps [simp del]
declare normalize_object_schema.simps [simp del]
declare normalize_array_schema.simps [simp del]

definition normalize_json_schema :: "json \<Rightarrow> string \<Rightarrow> json result" where
  "normalize_json_schema schema field_name =
     (case schema of
        JObj kvs \<Rightarrow> bind_result (normalize_schema_node kvs (''/'' @ field_name)) (\<lambda>n. Ok (JObj n))
      | _ \<Rightarrow> schema_error (field_name @ '' must be a JSON object''))"

text \<open>
  Freezing converts containers to read-only ones, which are the same JSON value, and refuses a
  non-finite float.
\<close>

definition freeze_json_object :: "json \<Rightarrow> json result" where
  "freeze_json_object value =
     (if json_finite value then Ok value
      else schema_error ''Out of range float values are not JSON compliant'')"

definition validate_json_schema_subset :: "json \<Rightarrow> string \<Rightarrow> json result" where
  "validate_json_schema_subset schema field_name =
     bind_result (normalize_json_schema schema field_name) freeze_json_object"

definition normalized_schema_bytes :: "(rat \<Rightarrow> string) \<Rightarrow> json \<Rightarrow> string result" where
  "normalized_schema_bytes fr schema =
     bind_result (normalize_json_schema schema ''schema'') (json_dumps fr)"

definition property_schema_compatibility_bytes :: "(rat \<Rightarrow> string) \<Rightarrow> json \<Rightarrow> string result" where
  "property_schema_compatibility_bytes fr schema =
     bind_result (normalize_json_schema schema ''property_schema'') (json_dumps fr)"

section \<open>The checks, characterised\<close>

lemma normalize_scalar_Inr: "normalize_scalar_literal v p = Inr w \<longleftrightarrow>
    w = v \<and> (case v of JArr _ \<Rightarrow> False | JObj _ \<Rightarrow> False | _ \<Rightarrow> json_finite v)"
  by (auto simp: normalize_scalar_literal_def split: json.splits pyfloat.splits)

abbreviation scalar_literal :: "json \<Rightarrow> bool" where
  "scalar_literal v \<equiv> (case v of JArr _ \<Rightarrow> False | JObj _ \<Rightarrow> False | _ \<Rightarrow> json_finite v)"

lemma normalize_enum_items_Inr:
  "normalize_enum_items p i seen xs = Inr ys \<longleftrightarrow>
     ys = xs \<and> (\<forall>x \<in> set xs. scalar_literal x) \<and> distinct (map scalar_uniqueness_key xs)
     \<and> set (map scalar_uniqueness_key xs) \<inter> set seen = {}"
proof (induction p i seen xs arbitrary: ys rule: normalize_enum_items.induct)
  case (2 p i seen x xs)
  show ?case
  proof (cases "scalar_literal x \<and> scalar_uniqueness_key x \<notin> set seen")
    case True
    then have "normalize_scalar_literal x (p @ ''/'' @ show_nat i) = Inr x"
      by (simp add: normalize_scalar_Inr)
    with True 2 [OF refl, of x] show ?thesis
      by (auto simp: Let_def bind_result_Inr)
  next
    case False
    then have "normalize_enum_items p i seen (x # xs) \<noteq> Inr ys"
      by (auto simp: Let_def bind_result_Inr normalize_scalar_Inr split: if_splits)
    with False show ?thesis by auto
  qed
qed auto

lemma normalize_enum_Inr:
  "normalize_enum v p = Inr ys \<longleftrightarrow>
     v = JArr ys \<and> ys \<noteq> [] \<and> (\<forall>x \<in> set ys. scalar_literal x) \<and> distinct (map scalar_uniqueness_key ys)"
  by (auto simp: normalize_enum_def normalize_enum_items_Inr simp del: normalize_enum_items.simps
      split: json.splits list.splits)

lemma validate_object_keys_Inr:
  "validate_object_keys ks p = Inr u \<longleftrightarrow> set ks \<subseteq> set SCHEMA_ALLOWED_KEYWORDS"
proof (induction ks p rule: validate_object_keys.induct)
  case (2 k ks p)
  have "set SCHEMA_UNSUPPORTED_BOUND_KEYWORDS \<inter> set SCHEMA_ALLOWED_KEYWORDS = {}"
    by (simp add: keyword_defs)
  with 2 show ?case by auto
qed simp

lemma reject_keywords_Inr:
  "reject_keywords s ks t p = Inr u \<longleftrightarrow> (\<forall>k \<in> set ks. k \<notin> set (keys s))"
  by (induction s ks t p rule: reject_keywords.induct) (auto simp: has_key_def)

lemma normalize_required_Inr:
  "normalize_required p props i seen req = Inr xs \<longleftrightarrow>
     req = map JStr xs \<and> distinct xs \<and> set xs \<inter> set seen = {} \<and> set xs \<subseteq> set props \<and> [] \<notin> set xs"
proof (induction p props i seen req arbitrary: xs rule: normalize_required.induct)
  case (2 p props i seen item rest)
  show ?case
  proof (cases "\<exists>c s. item = JStr (c # s) \<and> c # s \<notin> set seen \<and> c # s \<in> set props")
    case True
    then obtain c s where item: "item = JStr (c # s)" "c # s \<notin> set seen" "c # s \<in> set props" by blast
    from item 2 show ?thesis by (auto simp: bind_result_Inr)
  next
    case False
    then have "normalize_required p props i seen (item # rest) \<noteq> Inr xs"
      by (auto split: json.splits list.splits if_splits)
    moreover have "\<not> (item # rest = map JStr xs \<and> distinct xs \<and> set xs \<inter> set seen = {}
        \<and> set xs \<subseteq> set props \<and> [] \<notin> set xs)"
      using False by (cases xs) (auto, metis list.exhaust)
    ultimately show ?thesis by blast
  qed
qed auto

lemma validate_literal_types_Inr:
  "validate_literal_types t e p = Inr u \<longleftrightarrow>
     (\<forall>vs. e = Some vs \<longrightarrow> (\<forall>v \<in> set vs. literal_matches_type v t))"
  by (auto simp: validate_literal_types_def ensure_def split: option.splits)

lemma const_only_Inr:
  "normalize_const_only_schema s p = Inr n \<longleftrightarrow>
     set (keys s) \<inter> set SCHEMA_STRUCTURAL_KEYWORDS = {''const''}
     \<and> (\<exists>l. l = the (map_of s ''const'') \<and> scalar_literal l \<and> n = [(''const'', l)])"
  by (auto simp: normalize_const_only_schema_def Let_def bind_result_Inr normalize_scalar_Inr)

text \<open>
  What normalisation of a node means when it succeeds: the parts of a structured schema (any
  schema without \<^verbatim>\<open>const\<close>), as an elimination and an introduction rule.
\<close>

definition enum_part :: "(string \<times> json) list \<Rightarrow> json list option \<Rightarrow> bool" where
  "enum_part s e \<longleftrightarrow>
     (case map_of s ''enum'' of
        None \<Rightarrow> e = None
      | Some v \<Rightarrow> \<exists>vs. v = JArr vs \<and> e = Some vs \<and> vs \<noteq> [] \<and> (\<forall>x \<in> set vs. scalar_literal x)
          \<and> distinct (map scalar_uniqueness_key vs))"

definition structure_part ::
  "(string \<times> json) list \<Rightarrow> string \<Rightarrow> string \<Rightarrow> (string \<times> json) list \<Rightarrow> bool" where
  "structure_part s p t st \<longleftrightarrow>
     (if t = ''object'' then normalize_object_schema s p = Inr st
      else if t = ''array'' then normalize_array_schema s p = Inr st
      else st = [] \<and> set (keys s) \<inter>
        {''additionalProperties'', ''items'', ''properties'', ''required''} = {})"

definition structured_node ::
  "string \<Rightarrow> json list option \<Rightarrow> (string \<times> json) list \<Rightarrow> (string \<times> json) list" where
  "structured_node t e st =
     [(''type'', JStr t)] @ (case e of None \<Rightarrow> [] | Some vs \<Rightarrow> [(''enum'', JArr vs)]) @ st"

lemma enum_result:
  "(case map_of s ''enum'' of None \<Rightarrow> Ok None
    | Some v \<Rightarrow> bind_result (normalize_enum v q) (\<lambda>vs. Ok (Some vs))) = Inr e \<longleftrightarrow> enum_part s e"
  by (cases "map_of s ''enum''") (auto simp: enum_part_def bind_result_Inr normalize_enum_Inr)

lemma structure_result:
  "(if t = ''object'' then normalize_object_schema s p
    else if t = ''array'' then normalize_array_schema s p
    else bind_result (reject_keywords s
           [''additionalProperties'', ''items'', ''properties'', ''required''] t p) (\<lambda>_. Ok [])) = Inr st
   \<longleftrightarrow> structure_part s p t st"
  by (auto simp: structure_part_def bind_result_Inr reject_keywords_Inr simp del: reject_keywords.simps)

lemma structured_node_Inr:
  assumes "\<not> has_key s ''const''"
  shows "normalize_schema_node s p = Inr n \<longleftrightarrow>
     set (keys s) \<subseteq> set SCHEMA_ALLOWED_KEYWORDS \<and>
     (\<exists>t e st. map_of s ''type'' = Some (JStr t) \<and> t \<in> set SCHEMA_ALLOWED_TYPES
        \<and> enum_part s e \<and> structure_part s p t st
        \<and> (\<forall>vs. e = Some vs \<longrightarrow> (\<forall>v \<in> set vs. literal_matches_type v t))
        \<and> n = structured_node t e st)"
proof (cases "\<exists>t. map_of s ''type'' = Some (JStr t) \<and> t \<in> set SCHEMA_ALLOWED_TYPES")
  case True
  then obtain t where t: "map_of s ''type'' = Some (JStr t)" "t \<in> set SCHEMA_ALLOWED_TYPES" by blast
  show ?thesis
    unfolding normalize_schema_node.simps [of s p] bind_result_Inr validate_object_keys_Inr
    using assms t
    by (auto simp: bind_result_Inr enum_result structure_result validate_literal_types_Inr
        structured_node_def simp del: set_map)
next
  case False
  then show ?thesis
    unfolding normalize_schema_node.simps [of s p] bind_result_Inr validate_object_keys_Inr
    using assms by (auto split: option.splits json.splits)
qed

lemma const_node_Inr:
  assumes "has_key s ''const''"
  shows "normalize_schema_node s p = Inr n \<longleftrightarrow>
     set (keys s) \<subseteq> set SCHEMA_ALLOWED_KEYWORDS \<and> normalize_const_only_schema s p = Inr n"
  unfolding normalize_schema_node.simps [of s p] bind_result_Inr validate_object_keys_Inr
  using assms by auto

lemma object_schema_Inr:
  "normalize_object_schema s p = Inr st \<longleftrightarrow>
     ''items'' \<notin> set (keys s) \<and> map_of s ''additionalProperties'' = Some (JBool False)
     \<and> (\<exists>props req.
          (case map_of s ''properties'' of None \<Rightarrow> props = []
           | Some v \<Rightarrow> \<exists>ps. v = JObj ps \<and> normalize_properties (sort_key fst ps) p = Inr props)
        \<and> (case map_of s ''required'' of None \<Rightarrow> req = []
           | Some v \<Rightarrow> v = JArr (map JStr req) \<and> distinct req \<and> set req \<subseteq> set (keys props) \<and> [] \<notin> set req)
        \<and> st = [(''additionalProperties'', JBool False), (''properties'', JObj props),
                (''required'', JArr (map JStr (sort req)))])"
proof -
  have props: "(case map_of s ''properties'' of None \<Rightarrow> Ok []
      | Some (JObj ps) \<Rightarrow> normalize_properties (sort_key fst ps) p
      | Some _ \<Rightarrow> schema_error (p @ ''/properties must be an object'')) = Inr props \<longleftrightarrow>
      (case map_of s ''properties'' of None \<Rightarrow> props = []
       | Some v \<Rightarrow> \<exists>ps. v = JObj ps \<and> normalize_properties (sort_key fst ps) p = Inr props)" for props
    by (auto split: option.splits json.splits)
  have req: "(case map_of s ''required'' of None \<Rightarrow> Ok []
      | Some (JArr required) \<Rightarrow> normalize_required p (keys props) 0 [] required
      | Some _ \<Rightarrow> schema_error (p @ ''/required must be an array'')) = Inr req \<longleftrightarrow>
      (case map_of s ''required'' of None \<Rightarrow> req = []
       | Some v \<Rightarrow> v = JArr (map JStr req) \<and> distinct req \<and> set req \<subseteq> set (keys props) \<and> [] \<notin> set req)" for props req
    by (auto simp: normalize_required_Inr simp del: set_map split: option.splits json.splits)
  show ?thesis
    unfolding normalize_object_schema.simps bind_result_Inr reject_keywords_Inr
    by (cases "map_of s ''additionalProperties'' = Some (JBool False)")
      (simp_all only: bind_result_Inr props req not_True_eq_False not_False_eq_True if_False if_True
        simp_thms list.set ball_simps sum.inject, auto)
qed

lemma array_schema_Inr:
  "normalize_array_schema s p = Inr st \<longleftrightarrow>
     set (keys s) \<inter> {''additionalProperties'', ''properties'', ''required''} = {}
     \<and> (\<exists>items node. map_of s ''items'' = Some (JObj items)
        \<and> normalize_schema_node items (p @ ''/items'') = Inr node \<and> st = [(''items'', JObj node)])"
  unfolding normalize_array_schema.simps bind_result_Inr reject_keywords_Inr
  by (auto simp: bind_result_Inr split: option.splits json.splits)

section \<open>Normalisation is idempotent\<close>

lemma map_of_structured_node:
  assumes "set (keys st) \<inter> {''type'', ''enum'', ''const''} = {}"
  shows "map_of (structured_node t e st) ''type'' = Some (JStr t)"
    and "enum_part s e \<Longrightarrow> enum_part (structured_node t e st) e"
    and "\<not> has_key (structured_node t e st) ''const''"
    and "k \<notin> {''type'', ''enum''} \<Longrightarrow> map_of (structured_node t e st) k = map_of st k"
proof -
  have "map_of st ''enum'' = None"
    using assms by (auto simp: map_of_eq_None_iff)
  then show "enum_part s e \<Longrightarrow> enum_part (structured_node t e st) e"
    by (cases e) (auto simp: structured_node_def enum_part_def split: option.splits)
qed (use assms in \<open>auto simp: structured_node_def has_key_def split: option.splits\<close>)

lemma keys_structured_node:
  "set (keys (structured_node t e st)) =
     {''type''} \<union> (case e of None \<Rightarrow> {} | Some _ \<Rightarrow> {''enum''}) \<union> set (keys st)"
  by (auto simp: structured_node_def split: option.splits)

lemma structured_node_idem:
  assumes "t \<in> set SCHEMA_ALLOWED_TYPES" and "enum_part s e"
    and "\<forall>vs. e = Some vs \<longrightarrow> (\<forall>v \<in> set vs. literal_matches_type v t)"
    and "set (keys st) \<inter> {''type'', ''enum'', ''const''} = {}"
    and "set (keys st) \<subseteq> set SCHEMA_ALLOWED_KEYWORDS"
    and "structure_part (structured_node t e st) q t st"
  shows "normalize_schema_node (structured_node t e st) q = Inr (structured_node t e st)"
proof -
  have "set (keys (structured_node t e st)) \<subseteq> set SCHEMA_ALLOWED_KEYWORDS"
    using assms(5) unfolding keys_structured_node by (auto simp: keyword_defs split: option.splits)
  then show ?thesis
    unfolding structured_node_Inr [OF map_of_structured_node(3) [OF assms(4)]]
    using map_of_structured_node(1) [OF assms(4)] map_of_structured_node(2) [OF assms(4) assms(2)]
      assms(1,3,6) by blast
qed

lemma properties_idem:
  assumes "normalize_properties ps p = Inr ns"
    and "\<And>k kvs p n q. (k, JObj kvs) \<in> set ps \<Longrightarrow> normalize_schema_node kvs p = Inr n \<Longrightarrow>
           normalize_schema_node n q = Inr n"
  shows "normalize_properties ns q = Inr ns \<and> keys ns = keys ps"
  using assms
proof (induction ps arbitrary: ns)
  case (Cons kv ps)
  obtain k v where kv: "kv = (k, v)" by force
  with Cons.prems(1) obtain kvs node nodes where
    "k \<noteq> []" and v: "v = JObj kvs" and node: "normalize_schema_node kvs (p @ ''/properties/'' @ k) = Inr node" and
    "normalize_properties ps p = Inr nodes" "ns = (k, JObj node) # nodes"
    by (auto simp: bind_result_Inr split: if_splits json.splits)
  moreover have "normalize_properties nodes q = Inr nodes \<and> keys nodes = keys ps"
  proof (rule Cons.IH)
    fix k' kvs' p' n' q'
    assume "(k', JObj kvs') \<in> set ps" and "normalize_schema_node kvs' p' = Inr n'"
    then show "normalize_schema_node n' q' = Inr n'"
      by (intro Cons.prems(2) [of k' kvs' p']) simp_all
  qed fact
  moreover have "normalize_schema_node node (q @ ''/properties/'' @ k) = Inr node"
    by (rule Cons.prems(2) [OF _ node, of k]) (simp add: kv v)
  ultimately show ?case using kv by simp
qed simp

lemma object_schema_idem:
  assumes st: "normalize_object_schema s p = Inr st"
    and IH: "\<And>kvs p n q. jmembers kvs < jmembers s \<Longrightarrow> normalize_schema_node kvs p = Inr n \<Longrightarrow>
           normalize_schema_node n q = Inr n"
  shows "structure_part (structured_node ''object'' e st) q ''object'' st
     \<and> keys st = [''additionalProperties'', ''properties'', ''required'']"
proof -
  obtain props req where
    props: "case map_of s ''properties'' of None \<Rightarrow> props = []
           | Some v \<Rightarrow> \<exists>ps. v = JObj ps \<and> normalize_properties (sort_key fst ps) p = Inr props"
    and req: "case map_of s ''required'' of None \<Rightarrow> req = []
           | Some v \<Rightarrow> v = JArr (map JStr req) \<and> distinct req \<and> set req \<subseteq> set (keys props) \<and> [] \<notin> set req"
    and st_eq: "st = [(''additionalProperties'', JBool False), (''properties'', JObj props),
                (''required'', JArr (map JStr (sort req)))]"
    using st unfolding object_schema_Inr by blast
  have "normalize_properties (sort_key fst props) q = Inr props"
  proof (cases "map_of s ''properties''")
    case (Some v)
    with props obtain ps where ps: "v = JObj ps" "normalize_properties (sort_key fst ps) p = Inr props" by auto
    have small: "jmembers kvs < jmembers s" if "(k, JObj kvs) \<in> set ps" for k kvs
    proof -
      from that have "Suc (jmembers kvs) \<le> jmembers ps"
        by (induction ps) auto
      with jmembers_map_of [OF Some] ps(1) show ?thesis by simp
    qed
    have "normalize_properties props q = Inr props \<and> keys props = keys (sort_key fst ps)"
    proof (rule properties_idem [OF ps(2)])
      fix k kvs p' n' q'
      assume "(k, JObj kvs) \<in> set (sort_key fst ps)" and n': "normalize_schema_node kvs p' = Inr n'"
      then have "jmembers kvs < jmembers s" using small by simp
      then show "normalize_schema_node n' q' = Inr n'" using n' by (rule IH)
    qed
    then show ?thesis by (simp add: sort_key_id_if_sorted)
  qed (use props in simp)
  moreover have "distinct req \<and> set req \<subseteq> set (keys props) \<and> [] \<notin> set req"
    using req by (auto split: option.splits)
  ultimately have "normalize_object_schema (structured_node ''object'' e st) q = Inr st"
    unfolding object_schema_Inr st_eq
    by (auto simp: structured_node_def sorted_sort_id simp del: set_map split: option.splits
        intro!: exI [of _ props] exI [of _ "sort req"])
  then show ?thesis by (simp add: structure_part_def st_eq)
qed

lemma structure_part_idem:
  assumes st: "structure_part s p t st"
    and IH: "\<And>kvs p n q. jmembers kvs < jmembers s \<Longrightarrow> normalize_schema_node kvs p = Inr n \<Longrightarrow>
           normalize_schema_node n q = Inr n"
  shows "structure_part (structured_node t e st) q t st
        \<and> set (keys st) \<inter> {''type'', ''enum'', ''const''} = {}
        \<and> set (keys st) \<subseteq> set SCHEMA_ALLOWED_KEYWORDS"
proof -
  consider "t = ''object''" | "t = ''array''" | "t \<noteq> ''object''" "t \<noteq> ''array''" by blast
  then show ?thesis
  proof cases
    case 1
    with st have "normalize_object_schema s p = Inr st" by (simp add: structure_part_def)
    from object_schema_idem [OF this IH] 1 show ?thesis
      by (simp add: keyword_defs del: set_map)
  next
    case 2
    with st obtain items node where it: "map_of s ''items'' = Some (JObj items)"
      "normalize_schema_node items (p @ ''/items'') = Inr node" "st = [(''items'', JObj node)]"
      by (auto simp: structure_part_def array_schema_Inr)
    have "jmembers items < jmembers s" using jmembers_map_of [OF it(1)] by simp
    then have "normalize_schema_node node (q @ ''/items'') = Inr node" using it(2) by (rule IH)
    with 2 it(3) show ?thesis
      by (simp add: structure_part_def array_schema_Inr structured_node_def keyword_defs
          split: option.splits)
  next
    case 3
    with st show ?thesis
      by (cases e) (simp_all add: structure_part_def structured_node_def)
  qed
qed

lemma normalize_schema_node_idem:
  "normalize_schema_node s p = Inr n \<Longrightarrow> normalize_schema_node n q = Inr n"
proof (induction "jmembers s" arbitrary: s p n q rule: less_induct)
  case less
  show ?case
  proof (cases "has_key s ''const''")
    case True
    with less.prems obtain l where "scalar_literal l" "n = [(''const'', l)]"
      unfolding const_node_Inr [OF True] const_only_Inr by blast
    moreover have "has_key [(''const'', l)] ''const''" by (simp add: has_key_def)
    ultimately show ?thesis
      by (simp add: const_node_Inr const_only_Inr) (simp add: keyword_defs)
  next
    case False
    with less.prems obtain t e st where
      t: "t \<in> set SCHEMA_ALLOWED_TYPES" and e: "enum_part s e"
      and st: "structure_part s p t st"
      and lit: "\<forall>vs. e = Some vs \<longrightarrow> (\<forall>v \<in> set vs. literal_matches_type v t)"
      and n: "n = structured_node t e st"
      unfolding structured_node_Inr [OF False] by blast
    have "structure_part (structured_node t e st) q t st
        \<and> set (keys st) \<inter> {''type'', ''enum'', ''const''} = {}
        \<and> set (keys st) \<subseteq> set SCHEMA_ALLOWED_KEYWORDS"
    proof (rule structure_part_idem [OF st])
      fix kvs p' n' q'
      assume "jmembers kvs < jmembers s" and "normalize_schema_node kvs p' = Inr n'"
      then show "normalize_schema_node n' q' = Inr n'" by (rule less.hyps)
    qed
    note parts = this
    show ?thesis
      unfolding n
      by (rule structured_node_idem [OF t e lit conjunct1 [OF conjunct2 [OF parts]]
            conjunct2 [OF conjunct2 [OF parts]] conjunct1 [OF parts]])
  qed
qed

text \<open>The path is used in messages only: success and its value do not depend on it.\<close>

lemma properties_path:
  assumes "normalize_properties ps p = Inr ns"
    and "\<And>k kvs p n q. (k, JObj kvs) \<in> set ps \<Longrightarrow> normalize_schema_node kvs p = Inr n \<Longrightarrow>
           normalize_schema_node kvs q = Inr n"
  shows "normalize_properties ps q = Inr ns"
  using assms
proof (induction ps arbitrary: ns)
  case (Cons kv ps)
  obtain k v where kv: "kv = (k, v)" by force
  with Cons.prems(1) obtain kvs node nodes where
    "k \<noteq> []" and v: "v = JObj kvs" and node: "normalize_schema_node kvs (p @ ''/properties/'' @ k) = Inr node" and
    nodes: "normalize_properties ps p = Inr nodes" "ns = (k, JObj node) # nodes"
    by (auto simp: bind_result_Inr split: if_splits json.splits)
  have rest: "normalize_properties ps q = Inr nodes"
  proof (rule Cons.IH)
    fix k' kvs' p' n' q'
    assume "(k', JObj kvs') \<in> set ps" and n': "normalize_schema_node kvs' p' = Inr n'"
    then have "(k', JObj kvs') \<in> set (kv # ps)" by simp
    then show "normalize_schema_node kvs' q' = Inr n'" using n' by (rule Cons.prems(2))
  qed (rule nodes(1))
  have "normalize_schema_node kvs (q @ ''/properties/'' @ k) = Inr node"
    by (rule Cons.prems(2) [OF _ node, of k]) (simp add: kv v)
  with \<open>k \<noteq> []\<close> rest show ?case
    unfolding kv v nodes(2) by simp
qed simp

lemma structure_part_path:
  assumes st: "structure_part s p t st"
    and IH: "\<And>kvs p n q. jmembers kvs < jmembers s \<Longrightarrow> normalize_schema_node kvs p = Inr n \<Longrightarrow>
           normalize_schema_node kvs q = Inr n"
  shows "structure_part s q t st"
proof -
  have props: "normalize_properties (sort_key fst ps) q = Inr ns"
    if v: "map_of s ''properties'' = Some (JObj ps)"
      and ns: "normalize_properties (sort_key fst ps) p = Inr ns" for ps ns
  proof (rule properties_path [OF ns])
    fix k kvs p' n' q'
    assume "(k, JObj kvs) \<in> set (sort_key fst ps)" and n': "normalize_schema_node kvs p' = Inr n'"
    then have "(k, JObj kvs) \<in> set ps" by simp
    then have "Suc (jmembers kvs) \<le> jmembers ps" by (induction ps) auto
    with jmembers_map_of [OF v] have "jmembers kvs < jmembers s" by simp
    then show "normalize_schema_node kvs q' = Inr n'" using n' by (rule IH)
  qed
  consider "t = ''object''" | "t = ''array''" | "t \<noteq> ''object''" "t \<noteq> ''array''" by blast
  then show ?thesis
  proof cases
    case 1
    with st have "normalize_object_schema s p = Inr st" by (simp add: structure_part_def)
    moreover have "case map_of s ''properties'' of None \<Rightarrow> ns = []
        | Some v \<Rightarrow> \<exists>ps. v = JObj ps \<and> normalize_properties (sort_key fst ps) q = Inr ns"
      if "case map_of s ''properties'' of None \<Rightarrow> ns = []
        | Some v \<Rightarrow> \<exists>ps. v = JObj ps \<and> normalize_properties (sort_key fst ps) p = Inr ns" for ns
      using that props by (auto split: option.splits)
    ultimately have "normalize_object_schema s q = Inr st"
      unfolding object_schema_Inr by blast
    with 1 show ?thesis by (simp add: structure_part_def)
  next
    case 2
    with st obtain items node where it: "map_of s ''items'' = Some (JObj items)"
      "normalize_schema_node items (p @ ''/items'') = Inr node"
      by (auto simp: structure_part_def array_schema_Inr)
    have "jmembers items < jmembers s" using jmembers_map_of [OF it(1)] by simp
    then have "normalize_schema_node items (q @ ''/items'') = Inr node" using it(2) by (rule IH)
    with 2 it st show ?thesis by (simp add: structure_part_def array_schema_Inr)
  next
    case 3
    with st show ?thesis by (simp add: structure_part_def)
  qed
qed

lemma normalize_schema_node_path:
  "normalize_schema_node s p = Inr n \<Longrightarrow> normalize_schema_node s q = Inr n"
proof (induction "jmembers s" arbitrary: s p n q rule: less_induct)
  case less
  show ?case
  proof (cases "has_key s ''const''")
    case True
    with less.prems show ?thesis by (simp add: const_node_Inr const_only_Inr)
  next
    case False
    have "structure_part s q t st" if "structure_part s p t st" for t st
    proof (rule structure_part_path [OF that])
      fix kvs p' n' q'
      assume "jmembers kvs < jmembers s" and "normalize_schema_node kvs p' = Inr n'"
      then show "normalize_schema_node kvs q' = Inr n'" by (rule less.hyps)
    qed
    with less.prems False show ?thesis
      unfolding structured_node_Inr [OF False] by blast
  qed
qed

lemma normalize_json_schema_fixed:
  assumes "normalize_json_schema s f = Inr n"
  shows "normalize_json_schema n g = Inr n" and "normalize_json_schema s g = Inr n"
proof -
  from assms obtain kvs m where kvs: "s = JObj kvs" "n = JObj m"
    and m: "normalize_schema_node kvs (''/'' @ f) = Inr m"
    by (auto simp: normalize_json_schema_def bind_result_Inr split: json.splits)
  from normalize_schema_node_idem [OF m] kvs show "normalize_json_schema n g = Inr n"
    by (simp add: normalize_json_schema_def)
  from normalize_schema_node_path [OF m] kvs show "normalize_json_schema s g = Inr n"
    by (simp add: normalize_json_schema_def)
qed

text \<open>
  C3: the normal form is a fixed point. Normalising an accepted schema again, under any field
  name, gives the same value, so the bytes that two properties are compared by
  (\<^verbatim>\<open>property_schema_compatibility_bytes\<close>) are those of the already frozen schema.
\<close>

theorem normalize_json_schema_idem:
  assumes "normalize_json_schema s f = Inr n"
  shows "normalize_json_schema n g = Inr n
     \<and> property_schema_compatibility_bytes fr n = property_schema_compatibility_bytes fr s"
  using normalize_json_schema_fixed [OF assms]
  by (simp add: property_schema_compatibility_bytes_def)

definition sample_schema :: json where
  "sample_schema = JObj
     [(''description'', JStr ''arguments''), (''required'', JArr [JStr ''path'', JStr ''mode'']),
      (''type'', JStr ''object''), (''additionalProperties'', JBool False),
      (''properties'', JObj
         [(''path'', JObj [(''type'', JStr ''string''), (''default'', JStr ''.'')]),
          (''mode'', JObj [(''type'', JStr ''string''), (''enum'', JArr [JStr ''r'', JStr ''w''])])])]"

definition sample_schema_normal :: json where
  "sample_schema_normal = JObj
     [(''type'', JStr ''object''), (''additionalProperties'', JBool False),
      (''properties'', JObj
         [(''mode'', JObj [(''type'', JStr ''string''), (''enum'', JArr [JStr ''r'', JStr ''w''])]),
          (''path'', JObj [(''type'', JStr ''string'')])]),
      (''required'', JArr [JStr ''mode'', JStr ''path''])]"

lemma sample_schema_normalizes: "normalize_json_schema sample_schema ''schema'' = Inr sample_schema_normal"
  by code_simp

theorem normalize_json_schema_idem_witness:
  "normalize_json_schema sample_schema_normal ''input'' = Inr sample_schema_normal
     \<and> property_schema_compatibility_bytes (\<lambda>q. ''0.5'') sample_schema_normal
       = property_schema_compatibility_bytes (\<lambda>q. ''0.5'') sample_schema"
  by (rule normalize_json_schema_idem [OF sample_schema_normalizes])

end
