(* ===== verification/Source.thy ===== *)
theory Source
  imports Json
begin

text \<open>
  \<^verbatim>\<open>compiler/source.py\<close>: the typed harness source and the validators that guard its
  construction. A field with a strict Pydantic type is a HOL field of that type, so type errors and
  unknown keys do not arise; each \<open>check_\<close> function runs the field validators of one class in
  declaration order on the typed fields and gives the object back or the first error. The two
  \<^verbatim>\<open>mode="before"\<close> conversions of mappings into tuples act on raw JSON values.
\<close>

section \<open>Limits\<close>

definition MAX_NODES :: nat where "MAX_NODES = 512"
definition MAX_PREREQUISITES_PER_NODE :: nat where "MAX_PREREQUISITES_PER_NODE = 64"
definition MAX_ARGUMENT_MATCHES_PER_PREREQUISITE :: nat where
  "MAX_ARGUMENT_MATCHES_PER_PREREQUISITE = 32"
definition MAX_TERMINAL_NODES :: nat where "MAX_TERMINAL_NODES = 64"
definition MAX_DECLARED_ARTIFACTS :: nat where "MAX_DECLARED_ARTIFACTS = 512"
definition MAX_TERMINAL_ARTIFACT_POLICIES :: nat where "MAX_TERMINAL_ARTIFACT_POLICIES = 64"
definition MAX_ARTIFACTS_PER_TERMINAL :: nat where "MAX_ARTIFACTS_PER_TERMINAL = 512"
definition MAX_STAGE_KIND_IDS :: nat where "MAX_STAGE_KIND_IDS = 64"
definition MAX_SYSTEM_INSTRUCTIONS_UTF8 :: nat where "MAX_SYSTEM_INSTRUCTIONS_UTF8 = 65536"

lemmas source_limit_defs =
  MAX_NODES_def MAX_PREREQUISITES_PER_NODE_def MAX_ARGUMENT_MATCHES_PER_PREREQUISITE_def
  MAX_TERMINAL_NODES_def MAX_DECLARED_ARTIFACTS_def MAX_TERMINAL_ARTIFACT_POLICIES_def
  MAX_ARTIFACTS_PER_TERMINAL_def MAX_STAGE_KIND_IDS_def MAX_SYSTEM_INSTRUCTIONS_UTF8_def

section \<open>The objects\<close>

record argument_match_source =
  prior_argument :: string
  current_argument :: string

record prerequisite_source =
  prereq_node_id :: string
  argument_matches :: "argument_match_source list"

record harness_node_source =
  hnode_id :: string
  hnode_tool_ref :: string
  hnode_required :: bool
  hnode_prerequisites :: "prerequisite_source list"
  hnode_terminal_result :: "string option"
  hnode_produces :: "string list"

record harness_graph_source =
  graph_nodes :: "harness_node_source list"

record stage_scope_source =
  scope_stage_kind_ids :: "string list"

record prompt_source =
  prompt_policy_id :: string
  prompt_system_instructions :: string
  prompt_include_request_context :: bool

record budget_source =
  budget_max_iterations :: int
  budget_max_validation_retries :: int
  budget_max_tool_errors :: int
  budget_max_prerequisite_violations :: int
  budget_max_premature_terminal_attempts :: int

record context_policy_source =
  ctx_strategy_id :: string
  ctx_budget_tokens :: int
  ctx_keep_recent_iterations :: int
  ctx_phase_thresholds :: "rat list"

record terminal_artifact_policy_source =
  tap_terminal_result :: string
  tap_artifact_ids :: "string list"

record artifact_policy_source =
  declared_artifact_ids :: "string list"
  required_by_terminal :: "terminal_artifact_policy_source list"

record harness_source =
  hs_schema_version :: string
  hs_kind :: string
  hs_harness_id :: string
  hs_harness_version :: int
  hs_stage_scope :: stage_scope_source
  hs_model_profile_id :: string
  hs_prompt :: prompt_source
  hs_budgets :: budget_source
  hs_context :: context_policy_source
  hs_graph :: harness_graph_source
  hs_artifacts :: artifact_policy_source

section \<open>Mappings in the authoring format\<close>

text \<open>
  \<^verbatim>\<open>_convert_argument_mapping\<close>, \<^verbatim>\<open>_convert_node_mapping\<close> and
  \<^verbatim>\<open>_convert_terminal_mapping\<close>: a JSON object under the given key becomes the list of
  objects that carry their key as a field; anything else is left to the type checks.
\<close>

definition convert_argument_mapping :: "json \<Rightarrow> json" where
  "convert_argument_mapping data =
     (case data of
        JObj values \<Rightarrow>
          (case map_of values ''argument_matches'' of
             Some (JObj raw_matches) \<Rightarrow>
               JObj (dict_set values ''argument_matches''
                 (JArr (map (\<lambda>(key, value). JObj [(''prior_argument'', JStr key), (''current_argument'', value)])
                   raw_matches)))
           | _ \<Rightarrow> JObj values)
      | _ \<Rightarrow> data)"

definition convert_terminal_mapping :: "json \<Rightarrow> json" where
  "convert_terminal_mapping data =
     (case data of
        JObj values \<Rightarrow>
          (case map_of values ''required_by_terminal'' of
             Some (JObj raw_required) \<Rightarrow>
               JObj (dict_set values ''required_by_terminal''
                 (JArr (map (\<lambda>(terminal_result, artifact_ids).
                     JObj [(''terminal_result'', JStr terminal_result), (''artifact_ids'', artifact_ids)])
                   raw_required)))
           | _ \<Rightarrow> JObj values)
      | _ \<Rightarrow> data)"

fun convert_raw_nodes :: "(string \<times> json) list \<Rightarrow> json list result" where
  "convert_raw_nodes [] = Ok []"
| "convert_raw_nodes ((node_id, raw_node) # rest) =
     (case raw_node of
        JObj body \<Rightarrow>
          if has_key body ''node_id''
          then Raise (ValueError ''graph node bodies must not define node_id; the mapping key is authoritative'')
          else bind_result (convert_raw_nodes rest) (\<lambda>converted.
               Ok (JObj (dict_set body ''node_id'' (JStr node_id)) # converted))
      | _ \<Rightarrow> bind_result (convert_raw_nodes rest) (\<lambda>converted.
               Ok (JObj [(''node_id'', JStr node_id)] # converted)))"

definition convert_node_mapping :: "json \<Rightarrow> json result" where
  "convert_node_mapping data =
     (case data of
        JObj values \<Rightarrow>
          (case map_of values ''nodes'' of
             Some (JObj raw_nodes) \<Rightarrow>
               bind_result (convert_raw_nodes raw_nodes) (\<lambda>converted.
               Ok (JObj (dict_set values ''nodes'' (JArr converted))))
           | _ \<Rightarrow> Ok (JObj values))
      | _ \<Rightarrow> Ok data)"

section \<open>Validators of the objects\<close>

text \<open>\<^verbatim>\<open>Field(min_length=1)\<close>, \<^verbatim>\<open>Field(ge=a, le=b)\<close> and \<^verbatim>\<open>len(value) > limit\<close>.\<close>

definition require_nonempty :: "'a list \<Rightarrow> unit result" where
  "require_nonempty xs = ensure (xs \<noteq> []) (ValueError ''Tuple should have at least 1 item after validation'')"

definition require_range :: "int \<Rightarrow> int \<Rightarrow> int \<Rightarrow> unit result" where
  "require_range low high v = ensure (low \<le> v \<and> v \<le> high) (ValueError ''Input out of range'')"

definition require_at_most :: "nat \<Rightarrow> 'a list \<Rightarrow> string \<Rightarrow> unit result" where
  "require_at_most limit xs message = ensure (\<not> length xs > limit) (ValueError message)"

definition check_argument_match :: "argument_match_source \<Rightarrow> argument_match_source result" where
  "check_argument_match m =
     bind_result (validate_argument_name (prior_argument m)) (\<lambda>p.
     bind_result (validate_argument_name (current_argument m)) (\<lambda>c.
     Ok \<lparr>prior_argument = p, current_argument = c\<rparr>))"

definition check_prerequisite :: "prerequisite_source \<Rightarrow> prerequisite_source result" where
  "check_prerequisite p =
     bind_result (validate_node_id (prereq_node_id p)) (\<lambda>nid.
     bind_result (traverse check_argument_match (argument_matches p)) (\<lambda>ms.
     bind_result (require_at_most MAX_ARGUMENT_MATCHES_PER_PREREQUISITE ms
       ''argument_matches may contain at most 32 entries'') (\<lambda>_.
     bind_result (validate_unique (map prior_argument ms) ''prior_argument'') (\<lambda>_.
     bind_result (validate_unique (map current_argument ms) ''current_argument'') (\<lambda>_.
     Ok \<lparr>prereq_node_id = nid, argument_matches = ms\<rparr>)))))"

definition check_harness_node :: "harness_node_source \<Rightarrow> harness_node_source result" where
  "check_harness_node n =
     bind_result (validate_node_id (hnode_id n)) (\<lambda>nid.
     bind_result (validate_tool_reference (hnode_tool_ref n)) (\<lambda>ref.
     bind_result (traverse check_prerequisite (hnode_prerequisites n)) (\<lambda>ps.
     bind_result (require_at_most MAX_PREREQUISITES_PER_NODE ps
       ''prerequisites may contain at most 64 entries'') (\<lambda>_.
     bind_result (case hnode_terminal_result n of
         None \<Rightarrow> Ok None
       | Some t \<Rightarrow> bind_result (validate_terminal_result t) (\<lambda>t'. Ok (Some t'))) (\<lambda>term.
     bind_result (traverse validate_artifact_id (hnode_produces n)) (\<lambda>_.
     bind_result (validate_unique (hnode_produces n) ''produces'') (\<lambda>prod.
     Ok \<lparr>hnode_id = nid, hnode_tool_ref = ref, hnode_required = hnode_required n,
         hnode_prerequisites = ps, hnode_terminal_result = term, hnode_produces = prod\<rparr>)))))))"

definition is_terminal_node :: "harness_node_source \<Rightarrow> bool" where
  "is_terminal_node n \<longleftrightarrow> hnode_terminal_result n \<noteq> None"

definition check_harness_graph :: "harness_graph_source \<Rightarrow> harness_graph_source result" where
  "check_harness_graph g =
     bind_result (traverse check_harness_node (graph_nodes g)) (\<lambda>ns.
     bind_result (require_nonempty ns) (\<lambda>_.
     bind_result (require_at_most MAX_NODES ns ''nodes may contain at most 512 entries'') (\<lambda>_.
     bind_result (validate_unique (map hnode_id ns) ''node_id'') (\<lambda>_.
     bind_result (require_at_most MAX_TERMINAL_NODES (filter is_terminal_node ns)
       ''nodes may contain at most 64 terminal nodes'') (\<lambda>_.
     Ok \<lparr>graph_nodes = ns\<rparr>)))))"

definition check_stage_scope :: "stage_scope_source \<Rightarrow> stage_scope_source result" where
  "check_stage_scope s =
     (let value = scope_stage_kind_ids s in
      bind_result (require_nonempty value) (\<lambda>_.
      bind_result (require_at_most MAX_STAGE_KIND_IDS value
        ''stage_kind_ids may contain at most 64 entries'') (\<lambda>_.
      bind_result (traverse validate_stage_kind_id value) (\<lambda>_.
      bind_result (validate_unique value ''stage_kind_ids'') (\<lambda>ids.
      Ok \<lparr>scope_stage_kind_ids = ids\<rparr>)))))"

definition check_prompt :: "prompt_source \<Rightarrow> prompt_source result" where
  "check_prompt p =
     bind_result (validate_policy_id (prompt_policy_id p)) (\<lambda>pid.
     bind_result (ensure (nonblank (prompt_system_instructions p))
       (ValueError ''system_instructions must be nonblank'')) (\<lambda>_.
     bind_result (validate_utf8_size (prompt_system_instructions p) ''system_instructions''
       MAX_SYSTEM_INSTRUCTIONS_UTF8) (\<lambda>text.
     Ok (p\<lparr>prompt_policy_id := pid, prompt_system_instructions := text\<rparr>))))"

definition check_budgets :: "budget_source \<Rightarrow> budget_source result" where
  "check_budgets b =
     bind_result (require_range 1 256 (budget_max_iterations b)) (\<lambda>_.
     bind_result (require_range 1 64 (budget_max_validation_retries b)) (\<lambda>_.
     bind_result (require_range 1 64 (budget_max_tool_errors b)) (\<lambda>_.
     bind_result (require_range 1 64 (budget_max_prerequisite_violations b)) (\<lambda>_.
     bind_result (require_range 1 64 (budget_max_premature_terminal_attempts b)) (\<lambda>_.
     Ok b)))))"

text \<open>
  The thresholds arrive as arbitrary scalars; the typed field holds the values the first validator
  returns, which the second one orders.
\<close>

definition thresholds_scalar_valid :: "py_scalar list \<Rightarrow> rat list result" where
  "thresholds_scalar_valid value =
     (if length value \<noteq> 3
      then Raise (ValueError ''phase_thresholds must contain exactly three values'')
      else traverse (\<lambda>item. validate_threshold item ''phase_thresholds'') value)"

definition thresholds_ordered :: "rat list \<Rightarrow> rat list result" where
  "thresholds_ordered value =
     (if sort value \<noteq> value
      then Raise (ValueError ''phase_thresholds must be non-decreasing'') else Ok value)"

definition mk_context_policy ::
  "string \<Rightarrow> int \<Rightarrow> int \<Rightarrow> py_scalar list \<Rightarrow> context_policy_source result" where
  "mk_context_policy strategy budget keep_recent thresholds =
     bind_result (ensure (strategy = ''forge.tiered.v1'')
       (ValueError (''Input should be '' @ py_repr ''forge.tiered.v1''))) (\<lambda>_.
     bind_result (require_range 256 1000000 budget) (\<lambda>_.
     bind_result (require_range 0 64 keep_recent) (\<lambda>_.
     bind_result (thresholds_scalar_valid thresholds) (\<lambda>scalars.
     bind_result (thresholds_ordered scalars) (\<lambda>ordered.
     Ok \<lparr>ctx_strategy_id = strategy, ctx_budget_tokens = budget,
         ctx_keep_recent_iterations = keep_recent, ctx_phase_thresholds = ordered\<rparr>)))))"

definition check_terminal_artifact_policy ::
  "terminal_artifact_policy_source \<Rightarrow> terminal_artifact_policy_source result" where
  "check_terminal_artifact_policy p =
     bind_result (validate_terminal_result (tap_terminal_result p)) (\<lambda>t.
     bind_result (require_nonempty (tap_artifact_ids p)) (\<lambda>_.
     bind_result (require_at_most MAX_ARTIFACTS_PER_TERMINAL (tap_artifact_ids p)
       ''artifact_ids may contain at most 512 entries'') (\<lambda>_.
     bind_result (traverse validate_artifact_id (tap_artifact_ids p)) (\<lambda>_.
     bind_result (validate_unique (tap_artifact_ids p) ''artifact_ids'') (\<lambda>ids.
     Ok \<lparr>tap_terminal_result = t, tap_artifact_ids = ids\<rparr>)))))"

definition check_artifact_policy :: "artifact_policy_source \<Rightarrow> artifact_policy_source result" where
  "check_artifact_policy a =
     bind_result (require_at_most MAX_DECLARED_ARTIFACTS (declared_artifact_ids a)
       ''declared_artifact_ids may contain at most 512 entries'') (\<lambda>_.
     bind_result (traverse validate_artifact_id (declared_artifact_ids a)) (\<lambda>_.
     bind_result (validate_unique (declared_artifact_ids a) ''declared_artifact_ids'') (\<lambda>ids.
     bind_result (traverse check_terminal_artifact_policy (required_by_terminal a)) (\<lambda>req.
     bind_result (require_at_most MAX_TERMINAL_ARTIFACT_POLICIES req
       ''required_by_terminal may contain at most 64 entries'') (\<lambda>_.
     bind_result (validate_unique (map tap_terminal_result req) ''required_by_terminal'') (\<lambda>_.
     Ok \<lparr>declared_artifact_ids = ids, required_by_terminal = req\<rparr>))))))"

text \<open>
  The whole contract. The context policy is an object of its own class by then, so only its
  construction is checked, by \<open>mk_context_policy\<close>.
\<close>

definition check_harness_source :: "harness_source \<Rightarrow> harness_source result" where
  "check_harness_source h =
     bind_result (ensure (hs_schema_version h = ''1.0'') (ValueError (''Input should be '' @ py_repr ''1.0''))) (\<lambda>_.
     bind_result (ensure (hs_kind h = ''millforge_harness'')
       (ValueError (''Input should be '' @ py_repr ''millforge_harness''))) (\<lambda>_.
     bind_result (validate_harness_id (hs_harness_id h)) (\<lambda>hid.
     bind_result (validate_harness_version (hs_harness_version h)) (\<lambda>version.
     bind_result (check_stage_scope (hs_stage_scope h)) (\<lambda>scope.
     bind_result (validate_profile_id (hs_model_profile_id h)) (\<lambda>profile.
     bind_result (check_prompt (hs_prompt h)) (\<lambda>prompt.
     bind_result (check_budgets (hs_budgets h)) (\<lambda>budgets.
     bind_result (check_harness_graph (hs_graph h)) (\<lambda>graph.
     bind_result (check_artifact_policy (hs_artifacts h)) (\<lambda>artifacts.
     Ok (h\<lparr>hs_harness_id := hid, hs_harness_version := version, hs_stage_scope := scope,
           hs_model_profile_id := profile, hs_prompt := prompt, hs_budgets := budgets,
           hs_graph := graph, hs_artifacts := artifacts\<rparr>)))))))))))"

section \<open>What an accepted source satisfies\<close>

lemma require_Inr [result_simps]:
  "require_nonempty xs = Inr u \<longleftrightarrow> xs \<noteq> []"
  "require_range a b v = Inr u \<longleftrightarrow> a \<le> v \<and> v \<le> b"
  "require_at_most n xs m = Inr u \<longleftrightarrow> length xs \<le> n"
  by (auto simp: require_nonempty_def require_range_def require_at_most_def ensure_def)

text \<open>A validator that only accepts or refuses: it gives its argument back.\<close>

lemma traverse_check:
  assumes "\<And>x y. x \<in> set xs \<Longrightarrow> (f x = Inr y) = (y = x \<and> P x)"
  shows "traverse f xs = Inr ys \<longleftrightarrow> ys = xs \<and> (\<forall>x \<in> set xs. P x)"
  using assms by (induction xs arbitrary: ys) (auto simp: result_simps)

definition wf_argument_match :: "argument_match_source \<Rightarrow> bool" where
  "wf_argument_match m \<longleftrightarrow> length (prior_argument m) \<le> 128 \<and> ARGUMENT_NAME_RE (prior_argument m)
     \<and> length (current_argument m) \<le> 128 \<and> ARGUMENT_NAME_RE (current_argument m)"

definition wf_prerequisite :: "prerequisite_source \<Rightarrow> bool" where
  "wf_prerequisite p \<longleftrightarrow> length (prereq_node_id p) \<le> 64 \<and> NODE_ID_RE (prereq_node_id p)
     \<and> length (argument_matches p) \<le> 32 \<and> (\<forall>m \<in> set (argument_matches p). wf_argument_match m)
     \<and> distinct (map prior_argument (argument_matches p))
     \<and> distinct (map current_argument (argument_matches p))"

definition wf_harness_node :: "harness_node_source \<Rightarrow> bool" where
  "wf_harness_node n \<longleftrightarrow> length (hnode_id n) \<le> 64 \<and> NODE_ID_RE (hnode_id n)
     \<and> (\<exists>r. valid_reference r \<and> hnode_tool_ref n = canonical_reference r)
     \<and> length (hnode_prerequisites n) \<le> 64 \<and> (\<forall>p \<in> set (hnode_prerequisites n). wf_prerequisite p)
     \<and> (\<forall>t. hnode_terminal_result n = Some t \<longrightarrow> length t \<le> 128 \<and> TERMINAL_RESULT_RE t)
     \<and> (\<forall>a \<in> set (hnode_produces n). length a \<le> 128 \<and> ARTIFACT_ID_RE a)
     \<and> distinct (hnode_produces n)"

definition wf_harness_graph :: "harness_graph_source \<Rightarrow> bool" where
  "wf_harness_graph g \<longleftrightarrow> graph_nodes g \<noteq> [] \<and> length (graph_nodes g) \<le> 512
     \<and> (\<forall>n \<in> set (graph_nodes g). wf_harness_node n) \<and> distinct (map hnode_id (graph_nodes g))
     \<and> length (filter is_terminal_node (graph_nodes g)) \<le> 64"

lemma check_argument_match_Inr: "check_argument_match m = Inr n \<longleftrightarrow> n = m \<and> wf_argument_match m"
  by (auto simp: check_argument_match_def result_simps argument_name.Inr_iff wf_argument_match_def
      max_length_defs)

lemma check_prerequisite_Inr: "check_prerequisite p = Inr q \<longleftrightarrow> q = p \<and> wf_prerequisite p"
  by (auto simp: check_prerequisite_def result_simps node_id.Inr_iff max_length_defs
      traverse_check [OF check_argument_match_Inr] validate_unique_Inr wf_prerequisite_def source_limit_defs)

lemma validate_tool_reference_Inr:
  "validate_tool_reference s = Inr t \<longleftrightarrow> t = s \<and> (\<exists>r. valid_reference r \<and> s = canonical_reference r)"
proof -
  have "parse_tool_reference s = Inr r \<longleftrightarrow> valid_reference r \<and> s = canonical_reference r" for r
    using parse_canonical parse_is_canonical by blast
  then show ?thesis by (auto simp: validate_tool_reference_def result_simps)
qed

lemma check_terminal_Inr:
  "(case t of None \<Rightarrow> Ok None | Some t \<Rightarrow> bind_result (validate_terminal_result t) (\<lambda>t'. Ok (Some t'))) = Inr u
   \<longleftrightarrow> u = t \<and> (\<forall>s. t = Some s \<longrightarrow> length s \<le> 128 \<and> TERMINAL_RESULT_RE s)"
  by (cases t) (auto simp: result_simps terminal_result.Inr_iff max_length_defs)

lemma check_harness_node_Inr: "check_harness_node n = Inr m \<longleftrightarrow> m = n \<and> wf_harness_node n"
  unfolding check_harness_node_def bind_result_Inr node_id.Inr_iff validate_tool_reference_Inr
    traverse_check [OF check_prerequisite_Inr] require_Inr check_terminal_Inr
    artifact_id.traverse_Inr_iff validate_unique_Inr wf_harness_node_def max_length_defs source_limit_defs
  by auto

lemma check_harness_graph_Inr: "check_harness_graph g = Inr h \<longleftrightarrow> h = g \<and> wf_harness_graph g"
  unfolding check_harness_graph_def bind_result_Inr traverse_check [OF check_harness_node_Inr]
    require_Inr validate_unique_Inr wf_harness_graph_def source_limit_defs
  by auto

lemma check_harness_source_graph:
  "check_harness_source h = Inr h' \<Longrightarrow> wf_harness_graph (hs_graph h) \<and> hs_graph h' = hs_graph h"
  by (auto simp: check_harness_source_def result_simps check_harness_graph_Inr)

definition wf_artifact_policy :: "artifact_policy_source \<Rightarrow> bool" where
  "wf_artifact_policy a \<longleftrightarrow> length (declared_artifact_ids a) \<le> 512
     \<and> (\<forall>i \<in> set (declared_artifact_ids a). length i \<le> 128 \<and> ARTIFACT_ID_RE i)
     \<and> distinct (declared_artifact_ids a) \<and> length (required_by_terminal a) \<le> 64
     \<and> distinct (map tap_terminal_result (required_by_terminal a))
     \<and> (\<forall>p \<in> set (required_by_terminal a).
          length (tap_terminal_result p) \<le> 128 \<and> TERMINAL_RESULT_RE (tap_terminal_result p)
          \<and> tap_artifact_ids p \<noteq> [] \<and> length (tap_artifact_ids p) \<le> 512 \<and> distinct (tap_artifact_ids p)
          \<and> (\<forall>i \<in> set (tap_artifact_ids p). length i \<le> 128 \<and> ARTIFACT_ID_RE i))"

lemma check_terminal_artifact_policy_Inr:
  "check_terminal_artifact_policy p = Inr q \<longleftrightarrow> q = p \<and>
     (length (tap_terminal_result p) \<le> 128 \<and> TERMINAL_RESULT_RE (tap_terminal_result p)
          \<and> tap_artifact_ids p \<noteq> [] \<and> length (tap_artifact_ids p) \<le> 512 \<and> distinct (tap_artifact_ids p)
          \<and> (\<forall>i \<in> set (tap_artifact_ids p). length i \<le> 128 \<and> ARTIFACT_ID_RE i))"
  by (auto simp: check_terminal_artifact_policy_def result_simps terminal_result.Inr_iff
      artifact_id.traverse_Inr_iff validate_unique_Inr max_length_defs source_limit_defs)

lemma check_artifact_policy_Inr: "check_artifact_policy a = Inr b \<longleftrightarrow> b = a \<and> wf_artifact_policy a"
  unfolding check_artifact_policy_def bind_result_Inr require_Inr artifact_id.traverse_Inr_iff
    traverse_check [OF check_terminal_artifact_policy_Inr] validate_unique_Inr wf_artifact_policy_def
    max_length_defs source_limit_defs
  by auto

text \<open>The thresholds of an accepted context policy are three, ordered, and in (0, 1].\<close>

lemma validate_threshold_Inr: "validate_threshold v f = Inr q \<Longrightarrow> 0 < q \<and> q \<le> 1"
  by (auto simp: validate_threshold_def split: py_scalar.splits pyfloat.splits if_splits)

lemma mk_context_policy_Inr:
  assumes "mk_context_policy s b k ts = Inr c"
  shows "length (ctx_phase_thresholds c) = 3 \<and> sorted (ctx_phase_thresholds c)
     \<and> (\<forall>q \<in> set (ctx_phase_thresholds c). 0 < q \<and> q \<le> 1)
     \<and> 256 \<le> ctx_budget_tokens c \<and> ctx_budget_tokens c \<le> 1000000
     \<and> 0 \<le> ctx_keep_recent_iterations c \<and> ctx_keep_recent_iterations c \<le> 64"
proof -
  from assms have c: "thresholds_scalar_valid ts = Inr (ctx_phase_thresholds c)"
    "thresholds_ordered (ctx_phase_thresholds c) = Inr (ctx_phase_thresholds c)"
    "256 \<le> ctx_budget_tokens c" "ctx_budget_tokens c \<le> 1000000"
    "0 \<le> ctx_keep_recent_iterations c" "ctx_keep_recent_iterations c \<le> 64"
    by (auto simp: mk_context_policy_def result_simps thresholds_ordered_def split: if_splits)
  then have "traverse (\<lambda>i. validate_threshold i ''phase_thresholds'') ts = Inr (ctx_phase_thresholds c)"
    and "length ts = 3"
    by (auto simp: thresholds_scalar_valid_def split: if_splits)
  moreover have "\<forall>q \<in> set (ctx_phase_thresholds c). 0 < q \<and> q \<le> 1"
    by (rule traverse_ball [OF calculation(1)]) (rule validate_threshold_Inr)
  moreover have "sorted (ctx_phase_thresholds c)"
    using c(2) by (metis thresholds_ordered_def sorted_sort sum.distinct(1))
  ultimately show ?thesis using c traverse_length by force
qed

text \<open>
  C4: the graph contract is exact. \<^verbatim>\<open>HarnessGraphSource\<close> accepts a graph exactly when it has 1 to
  512 nodes with distinct grammatical identifiers, canonical tool references, at most 64 terminal
  nodes, at most 64 prerequisites per node and at most 32 argument matches per prerequisite, one to
  one on both sides; an accepted graph is returned unchanged.
\<close>

theorem check_harness_graph_exact:
  "check_harness_graph g = Inr h \<longleftrightarrow> h = g \<and> wf_harness_graph g"
  by (rule check_harness_graph_Inr)

end
