(* ===== verification/Catalog.thy ===== *)
theory Catalog
  imports Diagnostics Schema_Subset Source
begin

text \<open>
  \<^verbatim>\<open>compiler/catalogs.py\<close>: raw tool descriptors, their admission into immutable catalog
  entries, lookup outcomes and snapshot metadata. A catalog snapshot is code of the caller: here it
  is a record whose fields are what its properties and its \<^verbatim>\<open>resolve_exact\<close> return, any of which
  may raise. Descriptor schemas are JSON objects, so \<^verbatim>\<open>_reject_runtime_values\<close>, which looks for
  callables, accepts all of them.
\<close>

section \<open>Classes and limits\<close>

datatype side_effect_class =
    READ_ONLY | ARTIFACT_WRITE | WORKSPACE_WRITE | PROCESS_EXECUTION | NETWORK_READ | NETWORK_WRITE
  | SE_TERMINAL

datatype idempotency_class = IDEMPOTENT | IDEMPOTENT_WITH_KEY | NON_IDEMPOTENT | IDEMPOTENCY_UNKNOWN

fun side_effect_value :: "side_effect_class \<Rightarrow> string" where
  "side_effect_value READ_ONLY = ''read_only''"
| "side_effect_value ARTIFACT_WRITE = ''artifact_write''"
| "side_effect_value WORKSPACE_WRITE = ''workspace_write''"
| "side_effect_value PROCESS_EXECUTION = ''process_execution''"
| "side_effect_value NETWORK_READ = ''network_read''"
| "side_effect_value NETWORK_WRITE = ''network_write''"
| "side_effect_value SE_TERMINAL = ''terminal''"

fun idempotency_value :: "idempotency_class \<Rightarrow> string" where
  "idempotency_value IDEMPOTENT = ''idempotent''"
| "idempotency_value IDEMPOTENT_WITH_KEY = ''idempotent_with_key''"
| "idempotency_value NON_IDEMPOTENT = ''non_idempotent''"
| "idempotency_value IDEMPOTENCY_UNKNOWN = ''unknown''"

definition MAX_TOOL_DESCRIPTION_UTF8 :: nat where "MAX_TOOL_DESCRIPTION_UTF8 = 4096"
definition MAX_IMPLEMENTATION_ID_UTF8 :: nat where "MAX_IMPLEMENTATION_ID_UTF8 = 256"
definition MAX_MODEL_TOOL_NAME_UTF8 :: nat where "MAX_MODEL_TOOL_NAME_UTF8 = 64"
definition MF_R009 :: string where "MF_R009 = ''MF-R009''"
definition DISCOVERY_NOT_CATALOG_CODE :: string where
  "DISCOVERY_NOT_CATALOG_CODE = ''MF-C001_DISCOVERY_NOT_CATALOG''"

datatype catalog_lookup_classification = FOUND | MISSING | INVALID

text \<open>\<^verbatim>\<open>type(exc).__name__\<close>.\<close>

fun error_type_name :: "py_error \<Rightarrow> string" where
  "error_type_name (ValueError _) = ''ValueError''"
| "error_type_name (KeyError _) = ''KeyError''"
| "error_type_name (IndexError _) = ''IndexError''"
| "error_type_name (TypeErr _) = ''TypeError''"
| "error_type_name (AssertionErr _) = ''AssertionError''"
| "error_type_name (AttributeErr _) = ''AttributeError''"
| "error_type_name OverflowErr = ''OverflowError''"
| "error_type_name RecursionErr = ''RecursionError''"

section \<open>Evidence\<close>

definition redacted_evidence ::
  "redaction_env \<Rightarrow> (string \<times> string) list \<Rightarrow> (string \<times> string) list result" where
  "redacted_evidence env values =
     traverse (\<lambda>(key, value).
         bind_result (validate_utf8_size
             (if detect_secret_candidate env (''/'' @ key) key value then REDACTED else value) key 512)
           (\<lambda>v. Ok (key, v)))
       (sort_key fst values)"

section \<open>Descriptors and entries\<close>

record tool_descriptor =
  td_tool_id :: string
  td_tool_version :: int
  td_implementation_id :: string
  td_descriptor_sha256 :: string
  td_model_tool_name :: string
  td_description :: string
  td_input_schema :: json
  td_output_schema :: json
  td_side_effect_class :: side_effect_class
  td_idempotency :: idempotency_class
  td_required_capabilities :: "string list"
  td_produced_artifact_ids :: "string list"

text \<open>\<^verbatim>\<open>RawToolDescriptor\<close>: the validators in declaration order.\<close>

definition check_raw_tool_descriptor :: "tool_descriptor \<Rightarrow> tool_descriptor result" where
  "check_raw_tool_descriptor d =
     bind_result (validate_canonical_tool_id (td_tool_id d)) (\<lambda>_.
     bind_result (require_range 1 TOOL_VERSION_MAX (td_tool_version d)) (\<lambda>_.
     bind_result (validate_nonblank (td_implementation_id d) ''implementation_id'') (\<lambda>_.
     bind_result (validate_utf8_size (td_implementation_id d) ''implementation_id'' MAX_IMPLEMENTATION_ID_UTF8) (\<lambda>_.
     bind_result (validate_sha256 (td_descriptor_sha256 d) ''descriptor_sha256'') (\<lambda>_.
     bind_result (validate_nonblank (td_model_tool_name d) ''model_tool_name'') (\<lambda>_.
     bind_result (validate_utf8_size (td_model_tool_name d) ''model_tool_name'' MAX_MODEL_TOOL_NAME_UTF8) (\<lambda>_.
     bind_result (validate_nonblank (td_description d) ''description'') (\<lambda>_.
     bind_result (validate_utf8_size (td_description d) ''description'' MAX_TOOL_DESCRIPTION_UTF8) (\<lambda>_.
     bind_result (validate_json_schema_subset (td_input_schema d) ''input_schema'') (\<lambda>_.
     bind_result (validate_json_schema_subset (td_output_schema d) ''output_schema'') (\<lambda>_.
     bind_result (traverse validate_capability_id (td_required_capabilities d)) (\<lambda>_.
     bind_result (validate_unique (td_required_capabilities d) ''required_capabilities'') (\<lambda>_.
     bind_result (traverse validate_artifact_id (td_produced_artifact_ids d)) (\<lambda>_.
     bind_result (validate_unique (td_produced_artifact_ids d) ''produced_artifact_ids'') (\<lambda>_.
     Ok d)))))))))))))))"

text \<open>
  \<^verbatim>\<open>ToolCatalogEntry\<close> has the fields of a descriptor (the two policy objects it carries are not
  read by the compiler); its schemas are the normalised ones. \<^verbatim>\<open>admit\<close> takes a raw descriptor.
\<close>

type_synonym tool_catalog_entry = tool_descriptor

definition admit_entry :: "tool_descriptor \<Rightarrow> string \<Rightarrow> int \<Rightarrow> tool_catalog_entry result" where
  "admit_entry descriptor expected_tool_id expected_tool_version =
     bind_result (validate_canonical_tool_id expected_tool_id) (\<lambda>tool_id.
     if expected_tool_version < 1 \<or> expected_tool_version > TOOL_VERSION_MAX
     then Raise (ValueError ''expected_tool_version must be in range 1..2147483647'')
     else bind_result (check_raw_tool_descriptor descriptor) (\<lambda>raw.
     if td_tool_id raw \<noteq> tool_id
     then Raise (ValueError ''descriptor tool_id does not match requested tool_id'')
     else if td_tool_version raw \<noteq> expected_tool_version
     then Raise (ValueError ''descriptor tool_version does not match requested tool_version'')
     else bind_result (validate_json_schema_subset (td_input_schema raw) ''input_schema'') (\<lambda>input_schema.
          bind_result (validate_json_schema_subset (td_output_schema raw) ''output_schema'') (\<lambda>output_schema.
          Ok (raw\<lparr>td_input_schema := input_schema, td_output_schema := output_schema\<rparr>)))))"

section \<open>Lookups\<close>

text \<open>\<^verbatim>\<open>CompiledModelProfile\<close> holds the profile identifier only.\<close>

record compiled_model_profile =
  profile_id :: string

record 'e catalog_lookup =
  lookup_classification :: catalog_lookup_classification
  lookup_entry :: "'e option"
  lookup_error_code :: "string option"
  lookup_evidence :: "(string \<times> string) list"

type_synonym tool_catalog_lookup = "tool_catalog_entry catalog_lookup"
type_synonym model_profile_catalog_lookup = "compiled_model_profile catalog_lookup"

definition mk_catalog_lookup ::
  "catalog_lookup_classification \<Rightarrow> 'e option \<Rightarrow> string option \<Rightarrow> (string \<times> string) list \<Rightarrow>
   'e catalog_lookup result" where
  "mk_catalog_lookup cls entry error_code evidence =
     bind_result (optional (\<lambda>code. bind_result (validate_nonblank code ''error_code'') (\<lambda>_.
         validate_utf8_size code ''error_code'' 128)) error_code) (\<lambda>code.
     if cls = FOUND
     then if entry = None then Raise (ValueError ''found lookups require an entry'')
          else if code \<noteq> None \<or> evidence \<noteq> [] then Raise (ValueError ''found lookups cannot carry errors'')
          else Ok \<lparr>lookup_classification = cls, lookup_entry = entry, lookup_error_code = code,
                   lookup_evidence = evidence\<rparr>
     else if entry \<noteq> None
     then Raise (ValueError ''missing or invalid lookups cannot carry an entry'')
     else Ok \<lparr>lookup_classification = cls, lookup_entry = entry, lookup_error_code = code,
              lookup_evidence = evidence\<rparr>)"

definition found_lookup :: "'e \<Rightarrow> 'e catalog_lookup result" where
  "found_lookup entry = mk_catalog_lookup FOUND (Some entry) None []"

definition missing_lookup ::
  "redaction_env \<Rightarrow> string option \<Rightarrow> (string \<times> string) list \<Rightarrow> 'e catalog_lookup result" where
  "missing_lookup env error_code evidence =
     bind_result (redacted_evidence env evidence) (mk_catalog_lookup MISSING None error_code)"

definition invalid_lookup ::
  "redaction_env \<Rightarrow> string option \<Rightarrow> (string \<times> string) list \<Rightarrow> 'e catalog_lookup result" where
  "invalid_lookup env error_code evidence =
     bind_result (redacted_evidence env evidence) (mk_catalog_lookup INVALID None error_code)"

section \<open>Snapshots\<close>

record catalog_snapshot_metadata =
  meta_snapshot_id :: string
  meta_snapshot_sha256 :: string

record catalog_snapshot =
  snapshot_id :: "string result"
  snapshot_sha256 :: "string result"
  snapshot_attributes :: "string list"

record tool_catalog_snapshot = catalog_snapshot +
  resolve_tool :: "string \<Rightarrow> int \<Rightarrow> tool_catalog_lookup result"

record model_profile_catalog_snapshot = catalog_snapshot +
  resolve_profile :: "string \<Rightarrow> model_profile_catalog_lookup result"

text \<open>
  \<^verbatim>\<open>capture_catalog_snapshot_metadata\<close>: the left side is the evidence of a
  \<^verbatim>\<open>CatalogMetadataError\<close>, whose code is always \<^verbatim>\<open>MF-R009\<close>.
\<close>

definition capture_catalog_snapshot_metadata ::
  "redaction_env \<Rightarrow> 'a catalog_snapshot_scheme \<Rightarrow>
   ((string \<times> string) list + catalog_snapshot_metadata) result" where
  "capture_catalog_snapshot_metadata env snapshot =
     (case bind_result (snapshot_id snapshot) (\<lambda>i.
           bind_result (snapshot_sha256 snapshot) (\<lambda>h. Ok (i, h))) of
        Inl exc \<Rightarrow>
          bind_result (redacted_evidence env [(''error_type'', error_type_name exc)]) (\<lambda>ev. Ok (Inl ev))
      | Inr (i, h) \<Rightarrow>
          (case bind_result (validate_sha256 i ''snapshot_id'') (\<lambda>i'.
                bind_result (validate_sha256 h ''snapshot_sha256'') (\<lambda>h'.
                Ok \<lparr>meta_snapshot_id = i', meta_snapshot_sha256 = h'\<rparr>)) of
             Inl _ \<Rightarrow>
               bind_result (redacted_evidence env [(''error_type'', ''ValidationError'')]) (\<lambda>ev. Ok (Inl ev))
           | Inr meta \<Rightarrow> Ok (Inr meta)))"

definition is_connector_discovery_snapshot_like :: "'a catalog_snapshot_scheme \<Rightarrow> bool" where
  "is_connector_discovery_snapshot_like snapshot \<longleftrightarrow>
     (\<forall>attribute \<in> set [''connector_identity'', ''provider_tools'', ''discovery_snapshot_sha256''].
        attribute \<in> set (snapshot_attributes snapshot))"

text \<open>
  \<^verbatim>\<open>admit_model_profile\<close> on a mapping: runtime-only fields and secret material are refused before
  the profile is built. The other branch of the code copies a profile that is one already.
\<close>

fun reject_forbidden_model_profile_material ::
  "redaction_env \<Rightarrow> (string \<times> json) list \<Rightarrow> unit result" where
  "reject_forbidden_model_profile_material env [] = Ok ()"
| "reject_forbidden_model_profile_material env ((key, item) # rest) =
     (if key \<noteq> ''profile_id'' then Raise (ValueError ''model profile contains runtime-only fields'')
      else case item of
          JStr s \<Rightarrow>
            if detect_secret_candidate env (''/'' @ key) key s
            then Raise (ValueError ''model profile contains secret material'')
            else reject_forbidden_model_profile_material env rest
        | _ \<Rightarrow> reject_forbidden_model_profile_material env rest)"

definition check_profile_id :: "compiled_model_profile \<Rightarrow> string \<Rightarrow> compiled_model_profile result" where
  "check_profile_id profile expected =
     (if profile_id profile \<noteq> expected
      then Raise (ValueError ''model profile id does not match requested profile_id'')
      else Ok profile)"

definition admit_model_profile ::
  "redaction_env \<Rightarrow> compiled_model_profile + json \<Rightarrow> string \<Rightarrow> compiled_model_profile result" where
  "admit_model_profile env raw_profile expected_profile_id =
     bind_result (validate_profile_id expected_profile_id) (\<lambda>expected.
     case raw_profile of
       Inl profile \<Rightarrow> check_profile_id profile expected
     | Inr (JObj kvs) \<Rightarrow>
         bind_result (reject_forbidden_model_profile_material env kvs) (\<lambda>_.
         case map_of kvs ''profile_id'' of
           Some (JStr s) \<Rightarrow>
             bind_result (validate_nonblank s ''profile_id'') (\<lambda>s'.
             check_profile_id \<lparr>profile_id = s'\<rparr> expected)
         | _ \<Rightarrow> Raise (ValueError ''profile_id must be a string''))
     | Inr _ \<Rightarrow> Raise (ValueError ''model profile must be a CompiledModelProfile''))"

section \<open>What an admitted entry satisfies\<close>

lemma validate_nonblank_Inr [result_simps]: "validate_nonblank v f = Inr w \<longleftrightarrow> w = v \<and> nonblank v"
  by (auto simp: validate_nonblank_def)

lemma validate_sha256_Inr [result_simps]: "validate_sha256 v f = Inr w \<longleftrightarrow> w = v \<and> SHA256_RE v"
  by (auto simp: validate_sha256_def)

definition admitted_entry :: "tool_catalog_entry \<Rightarrow> bool" where
  "admitted_entry e \<longleftrightarrow> length (td_tool_id e) \<le> 160 \<and> DOTTED_ID_RE (td_tool_id e)
     \<and> 1 \<le> td_tool_version e \<and> td_tool_version e \<le> 2147483647
     \<and> nonblank (td_implementation_id e) \<and> utf8_len (td_implementation_id e) \<le> 256
     \<and> nonblank (td_model_tool_name e) \<and> utf8_len (td_model_tool_name e) \<le> 64
     \<and> nonblank (td_description e) \<and> utf8_len (td_description e) \<le> 4096
     \<and> SHA256_RE (td_descriptor_sha256 e)
     \<and> (\<forall>c \<in> set (td_required_capabilities e). length c \<le> 160 \<and> DOTTED_ID_RE c)
     \<and> (\<forall>a \<in> set (td_produced_artifact_ids e). length a \<le> 128 \<and> ARTIFACT_ID_RE a)
     \<and> distinct (td_required_capabilities e) \<and> distinct (td_produced_artifact_ids e)
     \<and> normalize_json_schema (td_input_schema e) ''input_schema'' = Inr (td_input_schema e)
     \<and> normalize_json_schema (td_output_schema e) ''output_schema'' = Inr (td_output_schema e)
     \<and> json_finite (td_input_schema e) \<and> json_finite (td_output_schema e)"

lemma check_raw_Inr:
  "check_raw_tool_descriptor d = Inr r \<longleftrightarrow>
     r = d \<and> (length (td_tool_id d) \<le> 160 \<and> DOTTED_ID_RE (td_tool_id d))
     \<and> (1 \<le> td_tool_version d \<and> td_tool_version d \<le> 2147483647)
     \<and> nonblank (td_implementation_id d) \<and> utf8_len (td_implementation_id d) \<le> 256
     \<and> SHA256_RE (td_descriptor_sha256 d)
     \<and> nonblank (td_model_tool_name d) \<and> utf8_len (td_model_tool_name d) \<le> 64
     \<and> nonblank (td_description d) \<and> utf8_len (td_description d) \<le> 4096
     \<and> is_ok (validate_json_schema_subset (td_input_schema d) ''input_schema'')
     \<and> is_ok (validate_json_schema_subset (td_output_schema d) ''output_schema'')
     \<and> (\<forall>c \<in> set (td_required_capabilities d). length c \<le> 160 \<and> DOTTED_ID_RE c)
     \<and> distinct (td_required_capabilities d)
     \<and> (\<forall>a \<in> set (td_produced_artifact_ids d). length a \<le> 128 \<and> ARTIFACT_ID_RE a)
     \<and> distinct (td_produced_artifact_ids d)"
  unfolding check_raw_tool_descriptor_def bind_result_Inr canonical_tool_id.Inr_iff
    capability_id.traverse_Inr_iff artifact_id.traverse_Inr_iff validate_unique_Inr
    validate_nonblank_Inr validate_sha256_Inr validate_utf8_size_Inr require_Inr is_ok_iff
    max_length_defs TOOL_VERSION_MAX_def MAX_TOOL_DESCRIPTION_UTF8_def MAX_IMPLEMENTATION_ID_UTF8_def
    MAX_MODEL_TOOL_NAME_UTF8_def
  by auto

text \<open>
  C5: an admitted entry needs no further validation. It carries the identifier and the version it
  was admitted for, satisfies every bound of the entry contract on its identifiers, texts and lists,
  its two schemas are finite and in normal form, so normalising them again changes nothing, and it
  differs from its descriptor in these two schemas only.
\<close>

theorem admit_entry_sound:
  assumes "admit_entry d tool_id version = Inr e"
  shows "td_tool_id e = tool_id \<and> td_tool_version e = version \<and> admitted_entry e
    \<and> e = d\<lparr>td_input_schema := td_input_schema e, td_output_schema := td_output_schema e\<rparr>"
proof -
  from assms obtain i out where
    raw: "check_raw_tool_descriptor d = Inr d" and
    ids: "td_tool_id d = tool_id" "td_tool_version d = version" and
    i: "validate_json_schema_subset (td_input_schema d) ''input_schema'' = Inr i" and
    out: "validate_json_schema_subset (td_output_schema d) ''output_schema'' = Inr out" and
    e: "e = d\<lparr>td_input_schema := i, td_output_schema := out\<rparr>"
    by (auto simp: admit_entry_def bind_result_Inr check_raw_Inr canonical_tool_id.Inr_iff
        split: if_splits)
  from i have "normalize_json_schema (td_input_schema d) ''input_schema'' = Inr i"
    by (auto simp: validate_json_schema_subset_def bind_result_Inr freeze_json_object_def split: if_splits)
  moreover from out have "normalize_json_schema (td_output_schema d) ''output_schema'' = Inr out"
    by (auto simp: validate_json_schema_subset_def bind_result_Inr freeze_json_object_def split: if_splits)
  ultimately have "normalize_json_schema i ''input_schema'' = Inr i"
    "normalize_json_schema out ''output_schema'' = Inr out"
    by (auto intro: normalize_json_schema_fixed)
  moreover have "json_finite i" "json_finite out"
    using i out by (auto simp: validate_json_schema_subset_def bind_result_Inr freeze_json_object_def split: if_splits)
  ultimately show ?thesis using raw ids e
    by (simp add: admitted_entry_def check_raw_Inr)
qed

definition sample_descriptor :: tool_descriptor where
  "sample_descriptor = \<lparr>td_tool_id = ''tools.read'', td_tool_version = 1,
     td_implementation_id = ''impl'',
     td_descriptor_sha256 = replicate 64 (CHR ''a''), td_model_tool_name = ''read'',
     td_description = ''Read a file'', td_input_schema = JObj [(''const'', JStr ''x'')],
     td_output_schema = JObj [(''const'', JNull)], td_side_effect_class = READ_ONLY,
     td_idempotency = IDEMPOTENT, td_required_capabilities = [''fs.read''],
     td_produced_artifact_ids = []\<rparr>"

lemma sample_descriptor_admitted:
  "admit_entry sample_descriptor ''tools.read'' 1 = Inr sample_descriptor"
  by code_simp

theorem admit_entry_sound_witness:
  "td_tool_id sample_descriptor = ''tools.read'' \<and> td_tool_version sample_descriptor = 1
     \<and> admitted_entry sample_descriptor"
  using admit_entry_sound [OF sample_descriptor_admitted] by blast

end
