(* ===== verification/Digraph.thy ===== *)
theory Digraph
  imports Prelude
begin

text \<open>
  The graph searches of \<^verbatim>\<open>compiler/graph.py\<close> and \<^verbatim>\<open>compiler/artifact_validation.py\<close> on adjacency
  dictionaries: Tarjan's strongly connected components (\<^verbatim>\<open>_cycle_components\<close>) and the two worklist
  loops. The recursive \<^verbatim>\<open>visit\<close> takes fuel, which stands for the interpreter's recursion limit;
  the number of nodes is enough (\<open>tarjan_components_correct\<close>).
\<close>

section \<open>Adjacency dictionaries\<close>

type_synonym 'a adjacency = "('a \<times> 'a list) list"

text \<open>\<^verbatim>\<open>adjacency.get(v, ())\<close>.\<close>

definition successors :: "'a adjacency \<Rightarrow> 'a \<Rightarrow> 'a list" where
  "successors adj v = (case map_of adj v of None \<Rightarrow> [] | Some ds \<Rightarrow> ds)"

abbreviation edge :: "'a adjacency \<Rightarrow> 'a \<Rightarrow> 'a \<Rightarrow> bool" where
  "edge adj u v \<equiv> v \<in> set (successors adj u)"

abbreviation reaches :: "'a adjacency \<Rightarrow> 'a \<Rightarrow> 'a \<Rightarrow> bool" where
  "reaches adj \<equiv> (edge adj)\<^sup>*\<^sup>*"

definition scc :: "'a adjacency \<Rightarrow> 'a \<Rightarrow> 'a set" where
  "scc adj x = {y. reaches adj x y \<and> reaches adj y x}"

definition closed_adjacency :: "'a adjacency \<Rightarrow> bool" where
  "closed_adjacency adj \<longleftrightarrow> (\<forall>v. set (successors adj v) \<subseteq> set (keys adj))"

section \<open>Tarjan's algorithm\<close>

record 'a tarjan_state =
  ts_index :: nat
  ts_stack :: "'a list"
  ts_indices :: "'a \<Rightarrow> nat option"
  ts_lowlinks :: "'a \<Rightarrow> nat option"
  ts_on_stack :: "'a set"
  ts_components :: "'a list list"

text \<open>The stack grows at the head of the list.\<close>

fun pop_until :: "'a \<Rightarrow> 'a list \<Rightarrow> ('a list \<times> 'a list) result" where
  "pop_until v [] = Raise (IndexError ''pop from empty list'')"
| "pop_until v (m # st) =
     (if m = v then Ok ([m], st)
      else bind_result (pop_until v st) (\<lambda>(component, rest). Ok (m # component, rest)))"

definition lower_link :: "'a \<Rightarrow> nat \<Rightarrow> 'a tarjan_state \<Rightarrow> 'a tarjan_state" where
  "lower_link v n s = s\<lparr>ts_lowlinks := (ts_lowlinks s)(v \<mapsto> min (the (ts_lowlinks s v)) n)\<rparr>"

definition enter_node :: "'a \<Rightarrow> 'a tarjan_state \<Rightarrow> 'a tarjan_state" where
  "enter_node v s =
     s\<lparr>ts_indices := (ts_indices s)(v \<mapsto> ts_index s),
       ts_lowlinks := (ts_lowlinks s)(v \<mapsto> ts_index s),
       ts_index := ts_index s + 1,
       ts_stack := v # ts_stack s,
       ts_on_stack := insert v (ts_on_stack s)\<rparr>"

definition leave_node :: "'a::linorder \<Rightarrow> 'a tarjan_state \<Rightarrow> 'a tarjan_state result" where
  "leave_node v s =
     (if ts_lowlinks s v \<noteq> ts_indices s v then Ok s
      else bind_result (pop_until v (ts_stack s)) (\<lambda>(component, rest).
           Ok (s\<lparr>ts_stack := rest,
                 ts_on_stack := ts_on_stack s - set component,
                 ts_components := ts_components s @
                   (if length component > 1 then [sort component] else [])\<rparr>)))"

fun visit :: "'a::linorder adjacency \<Rightarrow> nat \<Rightarrow> 'a \<Rightarrow> 'a tarjan_state \<Rightarrow> 'a tarjan_state result"
  and visit_dependents ::
    "'a::linorder adjacency \<Rightarrow> nat \<Rightarrow> 'a \<Rightarrow> 'a list \<Rightarrow> 'a tarjan_state \<Rightarrow> 'a tarjan_state result" where
  "visit adj 0 v s = Raise RecursionErr"
| "visit adj (Suc k) v s =
     bind_result (visit_dependents adj k v (successors adj v) (enter_node v s)) (leave_node v)"
| "visit_dependents adj k v [] s = Ok s"
| "visit_dependents adj k v (d # ds) s =
     (if ts_indices s d = None
      then bind_result (visit adj k d s) (\<lambda>s'.
           visit_dependents adj k v ds (lower_link v (the (ts_lowlinks s' d)) s'))
      else if d \<in> ts_on_stack s
      then visit_dependents adj k v ds (lower_link v (the (ts_indices s d)) s)
      else visit_dependents adj k v ds s)"

fun visit_roots ::
  "'a::linorder adjacency \<Rightarrow> nat \<Rightarrow> 'a list \<Rightarrow> 'a tarjan_state \<Rightarrow> 'a tarjan_state result" where
  "visit_roots adj k [] s = Ok s"
| "visit_roots adj k (v # vs) s =
     (if ts_indices s v = None
      then bind_result (visit adj k v s) (visit_roots adj k vs)
      else visit_roots adj k vs s)"

definition tarjan_start :: "'a tarjan_state" where
  "tarjan_start = \<lparr>ts_index = 0, ts_stack = [], ts_indices = Map.empty, ts_lowlinks = Map.empty,
     ts_on_stack = {}, ts_components = []\<rparr>"

definition cycle_components :: "'a::linorder adjacency \<Rightarrow> 'a list list result" where
  "cycle_components adj =
     bind_result (visit_roots adj (length adj) (sort (keys adj)) tarjan_start) (\<lambda>s.
     Ok (sort (ts_components s)))"

definition cycle_nodes :: "'a::linorder adjacency \<Rightarrow> 'a set result" where
  "cycle_nodes adj = bind_result (cycle_components adj) (\<lambda>cs. Ok (\<Union> (set (map set cs))))"

section \<open>The invariant\<close>

abbreviation visited :: "'a tarjan_state \<Rightarrow> 'a set" where
  "visited s \<equiv> dom (ts_indices s)"

abbreviation num :: "'a tarjan_state \<Rightarrow> 'a \<Rightarrow> nat" where
  "num s x \<equiv> the (ts_indices s x)"

abbreviation low :: "'a tarjan_state \<Rightarrow> 'a \<Rightarrow> nat" where
  "low s x \<equiv> the (ts_lowlinks s x)"

abbreviation stacked :: "'a tarjan_state \<Rightarrow> 'a set" where
  "stacked s \<equiv> set (ts_stack s)"

text \<open>
  \<open>G\<close> is the set of nodes on the recursion path. Stacked nodes are numbered from the bottom; every
  node that is finished has visited successors; a stacked node reaches a path node at or below it,
  and a path node reaches all stacked nodes above it; the nodes that have left the stack are closed
  under successors, and their components are exactly the ones recorded.
\<close>

definition tarjan_stack_ok :: "'a adjacency \<Rightarrow> 'a tarjan_state \<Rightarrow> bool" where
  "tarjan_stack_ok adj s \<longleftrightarrow>
     sorted_wrt (\<lambda>x y. num s y < num s x) (ts_stack s)
     \<and> stacked s \<subseteq> visited s \<and> visited s \<subseteq> set (keys adj)
     \<and> (\<forall>x \<in> visited s. num s x < ts_index s)
     \<and> ts_on_stack s = stacked s \<and> dom (ts_lowlinks s) = visited s"

definition tarjan_path_ok :: "'a adjacency \<Rightarrow> 'a set \<Rightarrow> 'a tarjan_state \<Rightarrow> bool" where
  "tarjan_path_ok adj G s \<longleftrightarrow>
     G \<subseteq> stacked s
     \<and> (\<forall>x \<in> visited s - G. set (successors adj x) \<subseteq> visited s)
     \<and> (\<forall>x \<in> stacked s. \<exists>g \<in> G. num s g \<le> num s x \<and> reaches adj x g)
     \<and> (\<forall>g \<in> G. \<forall>x \<in> stacked s. num s g \<le> num s x \<longrightarrow> reaches adj g x)"

definition tarjan_done_ok :: "'a::linorder adjacency \<Rightarrow> 'a tarjan_state \<Rightarrow> bool" where
  "tarjan_done_ok adj s \<longleftrightarrow>
     (\<forall>x \<in> visited s - stacked s. set (successors adj x) \<subseteq> visited s - stacked s)
     \<and> distinct (ts_components s)
     \<and> set (ts_components s) =
         {sorted_list_of_set (scc adj x) | x. x \<in> visited s - stacked s \<and> 1 < card (scc adj x)}"

definition tarjan_inv :: "'a::linorder adjacency \<Rightarrow> 'a set \<Rightarrow> 'a tarjan_state \<Rightarrow> bool" where
  "tarjan_inv adj G s \<longleftrightarrow> tarjan_stack_ok adj s \<and> tarjan_path_ok adj G s \<and> tarjan_done_ok adj s"

text \<open>What stays of an earlier state: its numbers, its links and its stack.\<close>

definition tarjan_extends :: "'a tarjan_state \<Rightarrow> 'a tarjan_state \<Rightarrow> bool" where
  "tarjan_extends s s' \<longleftrightarrow>
     (\<forall>x \<in> visited s. ts_indices s' x = ts_indices s x \<and> ts_lowlinks s' x = ts_lowlinks s x)
     \<and> ts_index s \<le> ts_index s'
     \<and> (\<exists>new. ts_stack s' = new @ ts_stack s \<and> set new \<inter> visited s = {})"

definition visit_post ::
  "'a::linorder adjacency \<Rightarrow> 'a set \<Rightarrow> 'a tarjan_state \<Rightarrow> 'a \<Rightarrow> 'a tarjan_state \<Rightarrow> bool" where
  "visit_post adj G s v s' \<longleftrightarrow>
     tarjan_inv adj G s' \<and> tarjan_extends s s' \<and> v \<in> visited s' \<and> num s' v = ts_index s
     \<and> (if v \<in> stacked s' then low s' v < num s' v
          \<and> (\<exists>x \<in> stacked s'. num s' x = low s' v \<and> reaches adj v x)
          \<and> (\<forall>x \<in> stacked s' - stacked s. \<forall>y \<in> stacked s. edge adj x y \<longrightarrow> low s' v \<le> num s y)
        else ts_stack s' = ts_stack s \<and> low s' v = num s' v)"

definition loop_inv ::
  "'a::linorder adjacency \<Rightarrow> 'a set \<Rightarrow> 'a tarjan_state \<Rightarrow> 'a \<Rightarrow> 'a set \<Rightarrow> 'a tarjan_state \<Rightarrow> bool" where
  "loop_inv adj G s0 v P s \<longleftrightarrow>
     tarjan_inv adj (insert v G) s
     \<and> tarjan_extends s0 s \<and> v \<notin> visited s0 \<and> (\<exists>new. ts_stack s = new @ v # ts_stack s0)
     \<and> num s v = ts_index s0 \<and> (\<forall>g \<in> G. reaches adj g v)
     \<and> low s v \<le> num s v \<and> (\<exists>x \<in> stacked s. num s x = low s v \<and> reaches adj v x)
     \<and> (\<forall>x \<in> stacked s - insert v (stacked s0). \<forall>y \<in> stacked s0. edge adj x y \<longrightarrow> low s v \<le> num s0 y)
     \<and> (\<forall>d \<in> P. d \<in> visited s \<and> (d \<in> stacked s0 \<longrightarrow> low s v \<le> num s0 d))"


section \<open>Tarjan's algorithm is correct\<close>

lemma reaches_closed:
  assumes "reaches adj x y" and "x \<in> D" and "\<And>u w. u \<in> D \<Longrightarrow> edge adj u w \<Longrightarrow> w \<in> D"
  shows "y \<in> D"
  using assms by (induction rule: rtranclp_induct) auto

lemma reaches_edge: "edge adj u v \<Longrightarrow> reaches adj v w \<Longrightarrow> reaches adj u w"
  by (rule converse_rtranclp_into_rtranclp)

lemma reaches_snoc: "reaches adj u v \<Longrightarrow> edge adj v w \<Longrightarrow> reaches adj u w"
  by (rule rtranclp.rtrancl_into_rtrancl)

lemma scc_eq: "y \<in> scc adj x \<Longrightarrow> scc adj y = scc adj x"
  by (auto simp: scc_def intro: rtranclp_trans)

lemma scc_refl: "x \<in> scc adj x"
  by (simp add: scc_def)

lemma sorted_wrt_distinct: "sorted_wrt (\<lambda>x y. f y < (f x :: nat)) xs \<Longrightarrow> distinct xs"
  by (induction xs) auto

lemma pop_until_append: "v \<notin> set new \<Longrightarrow> pop_until v (new @ v # st) = Inr (new @ [v], st)"
  by (induction new) auto

lemma tarjan_extends_refl: "tarjan_extends s s"
  by (simp add: tarjan_extends_def)

lemma tarjan_extends_visited: "tarjan_extends s s' \<Longrightarrow> visited s \<subseteq> visited s'"
  by (auto simp: tarjan_extends_def) (metis domI domIff)

lemma tarjan_extends_trans:
  assumes "tarjan_extends s t" and "tarjan_extends t u"
  shows "tarjan_extends s u"
proof -
  obtain n1 n2 where n: "ts_stack t = n1 @ ts_stack s" "set n1 \<inter> visited s = {}"
    "ts_stack u = n2 @ ts_stack t" "set n2 \<inter> visited t = {}"
    using assms by (auto simp: tarjan_extends_def)
  have sub: "visited s \<subseteq> visited t" using assms(1) by (rule tarjan_extends_visited)
  have "ts_stack u = (n2 @ n1) @ ts_stack s \<and> set (n2 @ n1) \<inter> visited s = {}"
    using n sub by (simp add: Int_Un_distrib2) blast
  then show ?thesis
    using assms sub unfolding tarjan_extends_def by (metis (no_types, lifting) le_trans subsetD)
qed

lemma tarjan_extends_num: "tarjan_extends s s' \<Longrightarrow> x \<in> visited s \<Longrightarrow> num s' x = num s x \<and> low s' x = low s x"
  by (simp add: tarjan_extends_def)

lemma tarjan_extends_stacked: "tarjan_extends s s' \<Longrightarrow> stacked s \<subseteq> stacked s'"
  by (auto simp: tarjan_extends_def)

text \<open>Entering a node.\<close>

lemma enter_node_simps [simp]:
  "ts_indices (enter_node v s) = (ts_indices s)(v \<mapsto> ts_index s)"
  "ts_lowlinks (enter_node v s) = (ts_lowlinks s)(v \<mapsto> ts_index s)"
  "ts_index (enter_node v s) = Suc (ts_index s)"
  "ts_stack (enter_node v s) = v # ts_stack s"
  "ts_on_stack (enter_node v s) = insert v (ts_on_stack s)"
  "ts_components (enter_node v s) = ts_components s"
  by (simp_all add: enter_node_def)

lemma enter_stack_ok:
  assumes "tarjan_stack_ok adj s" and "v \<notin> visited s" and "v \<in> set (keys adj)"
  shows "tarjan_stack_ok adj (enter_node v s)"
proof -
  have "v \<notin> stacked s" using assms by (auto simp: tarjan_stack_ok_def)
  have "sorted_wrt (\<lambda>x y. num s y < num s x) (ts_stack s)"
    using assms(1) by (simp add: tarjan_stack_ok_def)
  then have "sorted_wrt (\<lambda>x y. num (enter_node v s) y < num (enter_node v s) x) (ts_stack s)"
  proof (rule sorted_wrt_mono_rel [rotated])
    fix x y assume "x \<in> stacked s" "y \<in> stacked s" and lt: "num s y < num s x"
    with \<open>v \<notin> stacked s\<close> have "x \<noteq> v" "y \<noteq> v" by auto
    with lt show "num (enter_node v s) y < num (enter_node v s) x" by simp
  qed
  moreover have "num s x < ts_index s" if "x \<in> stacked s" for x
    using that assms(1) by (auto simp: tarjan_stack_ok_def)
  ultimately show ?thesis using assms \<open>v \<notin> stacked s\<close>
    unfolding tarjan_stack_ok_def by (auto simp: less_Suc_eq)
qed

lemma enter_path_ok:
  assumes stack: "tarjan_stack_ok adj s" and path: "tarjan_path_ok adj G s"
    and v: "v \<notin> visited s" and G: "\<forall>g \<in> G. reaches adj g v"
  shows "tarjan_path_ok adj (insert v G) (enter_node v s)"
proof -
  have vS: "v \<notin> stacked s" and vG: "v \<notin> G" and sub: "stacked s \<subseteq> visited s"
    and lt: "\<forall>x \<in> visited s. num s x < ts_index s"
    using stack path v by (auto simp: tarjan_stack_ok_def tarjan_path_ok_def)
  have num: "num (enter_node v s) x = num s x" if "x \<in> stacked s" for x using that vS by auto
  have "\<exists>g \<in> insert v G. num (enter_node v s) g \<le> num (enter_node v s) x \<and> reaches adj x g"
    if x: "x \<in> stacked (enter_node v s)" for x
  proof (cases "x = v")
    case False
    with x have xs: "x \<in> stacked s" by simp
    then obtain g where g: "g \<in> G" "num s g \<le> num s x" "reaches adj x g"
      using path by (auto simp: tarjan_path_ok_def)
    then have "g \<in> stacked s" using path by (auto simp: tarjan_path_ok_def)
    then show ?thesis using g num xs by (intro bexI [of _ g]) simp_all
  qed auto
  moreover have "reaches adj g x"
    if g: "g \<in> insert v G" and x: "x \<in> stacked (enter_node v s)"
      and le: "num (enter_node v s) g \<le> num (enter_node v s) x" for g x
  proof (cases "x = v")
    case True
    then show ?thesis using g G by auto
  next
    case False
    then have xs: "x \<in> stacked s" using x by simp
    have "num s x < ts_index s" using lt xs sub by blast
    then have "g \<noteq> v" using le False by auto
    then have "g \<in> G" "g \<in> stacked s" using g path by (auto simp: tarjan_path_ok_def)
    then show ?thesis using path le xs num by (auto simp: tarjan_path_ok_def)
  qed
  moreover have "insert v G \<subseteq> stacked (enter_node v s)"
    using path by (auto simp: tarjan_path_ok_def)
  moreover have "\<forall>x \<in> visited (enter_node v s) - insert v G.
      set (successors adj x) \<subseteq> visited (enter_node v s)"
    using path by (auto simp: tarjan_path_ok_def)
  ultimately show ?thesis unfolding tarjan_path_ok_def by blast
qed

lemma enter_loop_inv:
  assumes inv: "tarjan_inv adj G s" and v: "v \<notin> visited s" "v \<in> set (keys adj)"
    and G: "\<forall>g \<in> G. reaches adj g v"
  shows "loop_inv adj G s v {} (enter_node v s)"
proof -
  have stack: "tarjan_stack_ok adj s" and path: "tarjan_path_ok adj G s" and don: "tarjan_done_ok adj s"
    using inv by (auto simp: tarjan_inv_def)
  have vS: "v \<notin> stacked s" using stack v by (auto simp: tarjan_stack_ok_def)
  have same: "visited (enter_node v s) - stacked (enter_node v s) = visited s - stacked s"
    using v by auto
  have "tarjan_done_ok adj (enter_node v s)"
    using don unfolding tarjan_done_ok_def same by simp
  moreover have "tarjan_extends s (enter_node v s)"
    using v unfolding tarjan_extends_def by (auto intro: exI [of _ "[v]"])
  ultimately show ?thesis
    using enter_stack_ok [OF stack v] enter_path_ok [OF stack path v(1) G] v G
    by (auto simp: loop_inv_def tarjan_inv_def)
qed


text \<open>One dependent of the loop.\<close>

lemma lower_link_simps [simp]:
  "ts_indices (lower_link v n s) = ts_indices s"
  "ts_lowlinks (lower_link v n s) = (ts_lowlinks s)(v \<mapsto> min (low s v) n)"
  "ts_index (lower_link v n s) = ts_index s"
  "ts_stack (lower_link v n s) = ts_stack s"
  "ts_on_stack (lower_link v n s) = ts_on_stack s"
  "ts_components (lower_link v n s) = ts_components s"
  by (simp_all add: lower_link_def)

lemma lower_link_inv: "v \<in> visited s \<Longrightarrow> tarjan_inv adj G s \<Longrightarrow> tarjan_inv adj G (lower_link v n s)"
  by (simp add: tarjan_inv_def tarjan_stack_ok_def tarjan_path_ok_def tarjan_done_ok_def insert_absorb)

lemma loop_inv_visited: "loop_inv adj G s0 v P s \<Longrightarrow> v \<in> visited s \<and> v \<in> stacked s"
  by (auto simp: loop_inv_def tarjan_inv_def tarjan_path_ok_def tarjan_stack_ok_def)

lemma loop_invD:
  assumes "loop_inv adj G s0 v P s"
  shows "tarjan_inv adj (insert v G) s" and "tarjan_extends s0 s" and "v \<notin> visited s0"
    and "\<exists>new. ts_stack s = new @ v # ts_stack s0" and "num s v = ts_index s0"
    and "\<forall>g \<in> G. reaches adj g v" and "low s v \<le> num s v"
    and "\<exists>x \<in> stacked s. num s x = low s v \<and> reaches adj v x"
    and "\<forall>x \<in> stacked s - insert v (stacked s0). \<forall>y \<in> stacked s0. edge adj x y \<longrightarrow> low s v \<le> num s0 y"
    and "\<forall>d \<in> P. d \<in> visited s \<and> (d \<in> stacked s0 \<longrightarrow> low s v \<le> num s0 d)"
  by (rule assms [unfolded loop_inv_def, THEN conjunct1]
      | rule assms [unfolded loop_inv_def, THEN conjunct2, THEN conjunct1]
      | insert assms [unfolded loop_inv_def], elim conjE, assumption)+

lemma loop_inv_num_lt: "tarjan_inv adj G s \<Longrightarrow> x \<in> visited s \<Longrightarrow> num s x < ts_index s"
  by (auto simp: tarjan_inv_def tarjan_stack_ok_def)

lemma stacked_visited: "tarjan_inv adj G s \<Longrightarrow> stacked s \<subseteq> visited s"
  by (auto simp: tarjan_inv_def tarjan_stack_ok_def)

text \<open>
  A state in which more has been visited keeps the loop invariant when the link of the current node
  is lowered to a value that some stacked node reached from it has, and that bounds the new edges.
\<close>

lemma loop_inv_step:
  assumes loop: "loop_inv adj G s0 v P s" and inv: "tarjan_inv adj (insert v G) s'"
    and inv0: "stacked s0 \<subseteq> visited s0" and ext: "tarjan_extends s s'"
    and n: "low s v \<le> n \<or> (\<exists>x \<in> stacked s'. num s' x = n \<and> reaches adj v x)"
    and new: "\<forall>x \<in> stacked s' - stacked s. \<forall>y \<in> stacked s0. edge adj x y \<longrightarrow> n \<le> num s0 y"
    and d: "d \<in> visited s'" "d \<in> stacked s0 \<Longrightarrow> n \<le> num s0 d"
  shows "loop_inv adj G s0 v (insert d P) (lower_link v n s')"
proof -
  note L = loop [unfolded loop_inv_def]
  have v: "v \<in> visited s" "v \<in> stacked s" using loop_inv_visited [OF loop] by auto
  then have v': "v \<in> visited s'" using tarjan_extends_visited [OF ext] by blast
  have num_v: "num s' v = num s v" "low s' v = low s v"
    using tarjan_extends_num [OF ext v(1)] by auto
  have ext0: "tarjan_extends s0 s'" using L ext tarjan_extends_trans by blast
  obtain new0 where "ts_stack s = new0 @ v # ts_stack s0" using L by blast
  moreover obtain new1 where "ts_stack s' = new1 @ ts_stack s"
    using ext unfolding tarjan_extends_def by blast
  ultimately have stack: "\<exists>new. ts_stack s' = new @ v # ts_stack s0" by auto
  have ext1: "tarjan_extends s0 (lower_link v n s')"
    using ext0 L by (auto simp: tarjan_extends_def)
  have low: "low (lower_link v n s') v = min (low s v) n" by (simp add: num_v)
  have "\<exists>x \<in> stacked s'. num s' x = min (low s v) n \<and> reaches adj v x"
  proof (cases "low s v \<le> n")
    case True
    obtain x where x: "x \<in> stacked s" "num s x = low s v" "reaches adj v x" using L by blast
    then have "x \<in> stacked s'" using tarjan_extends_stacked [OF ext] by blast
    moreover have "x \<in> visited s" using x(1) L stacked_visited by blast
    then have "num s' x = num s x" using tarjan_extends_num [OF ext] by blast
    ultimately show ?thesis using x True by (intro bexI [of _ x]) simp_all
  next
    case False
    then show ?thesis using n by (auto simp: min_def)
  qed
  moreover have "min (low s v) n \<le> num s0 y"
    if "x \<in> stacked s' - insert v (stacked s0)" "y \<in> stacked s0" "edge adj x y" for x y
  proof (cases "x \<in> stacked s")
    case True
    then have "low s v \<le> num s0 y" using that loop_invD(9) [OF loop] by blast
    then show ?thesis by (rule min.coboundedI1)
  next
    case False
    then have "n \<le> num s0 y" using that new by blast
    then show ?thesis by (rule min.coboundedI2)
  qed
  moreover have "e \<in> visited s' \<and> (e \<in> stacked s0 \<longrightarrow> min (low s v) n \<le> num s0 e)"
    if "e \<in> insert d P" for e
  proof (cases "e = d")
    case True
    then show ?thesis using d by (auto intro: min.coboundedI2)
  next
    case False
    then have "e \<in> visited s \<and> (e \<in> stacked s0 \<longrightarrow> low s v \<le> num s0 e)" using that L by blast
    then show ?thesis using tarjan_extends_visited [OF ext] by (auto intro: min.coboundedI1)
  qed
  moreover have "num s v = ts_index s0" "\<forall>g \<in> G. reaches adj g v" "v \<notin> visited s0" "low s v \<le> num s v"
    using L by blast+
  moreover have "tarjan_inv adj (insert v G) (lower_link v n s')" using inv v' lower_link_inv by blast
  ultimately show ?thesis
    unfolding loop_inv_def low using ext1 stack num_v by (simp add: min.coboundedI1)
qed

lemma loop_inv_visit:
  assumes loop: "loop_inv adj G s0 v P s" and inv0: "tarjan_inv adj G s0"
    and post: "visit_post adj (insert v G) s d s'" and d: "d \<notin> visited s" and e: "edge adj v d"
  shows "loop_inv adj G s0 v (insert d P) (lower_link v (low s' d) s')"
proof (rule loop_inv_step [OF loop])
  note L = loop [unfolded loop_inv_def] and Q = post [unfolded visit_post_def]
  have sub0: "stacked s0 \<subseteq> stacked s" and vis0: "visited s0 \<subseteq> visited s"
    using L tarjan_extends_stacked tarjan_extends_visited by blast+
  have num0: "num s y = num s0 y" if "y \<in> stacked s0" for y
  proof -
    have "y \<in> visited s0" using that stacked_visited [OF inv0] by blast
    then show ?thesis using tarjan_extends_num [OF loop_invD(2) [OF loop]] by simp
  qed
  show "tarjan_inv adj (insert v G) s'" "tarjan_extends s s'" "d \<in> visited s'" using Q by blast+
  show "stacked s0 \<subseteq> visited s0" using inv0 by (rule stacked_visited)
  show "low s v \<le> low s' d \<or> (\<exists>x \<in> stacked s'. num s' x = low s' d \<and> reaches adj v x)"
  proof (cases "d \<in> stacked s'")
    case True
    then obtain x where "x \<in> stacked s'" "num s' x = low s' d" "reaches adj d x" using Q by auto
    then show ?thesis using reaches_edge [OF e] by blast
  next
    case False
    then have "low s' d = ts_index s" using Q by simp
    moreover have "low s v \<le> num s v" using L by blast
    moreover have "num s v < ts_index s" using loop_inv_num_lt L loop_inv_visited [OF loop] by blast
    ultimately show ?thesis by simp
  qed
  show "\<forall>x \<in> stacked s' - stacked s. \<forall>y \<in> stacked s0. edge adj x y \<longrightarrow> low s' d \<le> num s0 y"
  proof (intro ballI impI)
    fix x y assume x: "x \<in> stacked s' - stacked s" and y: "y \<in> stacked s0" and xy: "edge adj x y"
    then have "ts_stack s' \<noteq> ts_stack s" by auto
    then have "d \<in> stacked s'" using Q by (auto split: if_splits)
    then have "low s' d \<le> num s y" using Q x y xy sub0 by (simp split: if_splits) blast
    then show "low s' d \<le> num s0 y" using num0 [OF y] by simp
  qed
  show "d \<in> stacked s0 \<Longrightarrow> low s' d \<le> num s0 d"
    using d vis0 stacked_visited [OF inv0] by blast
qed

lemma loop_inv_stacked:
  assumes loop: "loop_inv adj G s0 v P s" and inv0: "tarjan_inv adj G s0"
    and d: "d \<in> stacked s" and e: "edge adj v d"
  shows "loop_inv adj G s0 v (insert d P) (lower_link v (num s d) s)"
proof (rule loop_inv_step [OF loop])
  note L = loop [unfolded loop_inv_def]
  show "tarjan_inv adj (insert v G) s" using L by blast
  then show "d \<in> visited s" using d stacked_visited by blast
  show "stacked s0 \<subseteq> visited s0" using inv0 by (rule stacked_visited)
  show "tarjan_extends s s" by (rule tarjan_extends_refl)
  show "low s v \<le> num s d \<or> (\<exists>x \<in> stacked s. num s x = num s d \<and> reaches adj v x)"
    using d e by (auto intro!: bexI [of _ d])
  show "num s d \<le> num s0 d" if "d \<in> stacked s0"
  proof -
    have "d \<in> visited s0" using that stacked_visited [OF inv0] by blast
    then show ?thesis using tarjan_extends_num [OF loop_invD(2) [OF loop]] by simp
  qed
qed simp

lemma loop_inv_closed:
  assumes loop: "loop_inv adj G s0 v P s" and d: "d \<in> visited s" "d \<notin> stacked s"
  shows "loop_inv adj G s0 v (insert d P) s"
proof -
  have "stacked s0 \<subseteq> stacked s" using loop_invD(2) [OF loop] by (rule tarjan_extends_stacked)
  then have "\<forall>e \<in> insert d P. e \<in> visited s \<and> (e \<in> stacked s0 \<longrightarrow> low s v \<le> num s0 e)"
    using d loop_invD(10) [OF loop] by blast
  then show ?thesis
    unfolding loop_inv_def by (intro conjI) (rule loop_invD [OF loop] | assumption)+
qed


text \<open>
  Leaving a node. If its link equals its number, no edge leads from the new stack part to the old
  one, and the new part is the component of the node.
\<close>

lemma new_part_reach:
  assumes loop: "loop_inv adj G s0 v P s" and inv0: "tarjan_inv adj G s0"
    and succs: "set (successors adj v) \<subseteq> P" and root: "low s v = num s v"
  defines "N \<equiv> stacked s - stacked s0" and "C \<equiv> visited s - stacked s"
  shows "\<And>x. x \<in> N \<Longrightarrow> set (successors adj x) \<subseteq> N \<union> C"
    and "\<And>x y. x \<in> N \<Longrightarrow> reaches adj x y \<Longrightarrow> y \<in> N \<union> C"
    and "scc adj v = N"
proof -
  note inv = loop_invD(1) [OF loop] and ext = loop_invD(2) [OF loop]
  have path: "tarjan_path_ok adj (insert v G) s" and don: "tarjan_done_ok adj s"
    using inv by (auto simp: tarjan_inv_def)
  have sub: "stacked s \<subseteq> visited s" using inv by (rule stacked_visited)
  have G0: "G \<subseteq> stacked s0" using inv0 by (auto simp: tarjan_inv_def tarjan_path_ok_def)
  have lt0: "num s0 y < low s v" if "y \<in> stacked s0" for y
  proof -
    have "y \<in> visited s0" using that stacked_visited [OF inv0] by blast
    then have "num s0 y < ts_index s0" by (rule loop_inv_num_lt [OF inv0])
    then show ?thesis using root loop_invD(5) [OF loop] by simp
  qed
  have vN: "v \<in> N" using loop_inv_visited [OF loop] loop_invD(3) [OF loop] stacked_visited [OF inv0]
    by (auto simp: N_def)
  have succN: "set (successors adj x) \<subseteq> N \<union> C" if x: "x \<in> N" for x
  proof
    fix y assume y: "y \<in> set (successors adj x)"
    have "y \<in> visited s \<and> y \<notin> stacked s0"
    proof (cases "x = v")
      case True
      then have "y \<in> P" using y succs by blast
      then show ?thesis using loop_invD(10) [OF loop] lt0 by (metis leD)
    next
      case False
      then have "x \<in> visited s - insert v G" using x sub G0 by (auto simp: N_def)
      then have "y \<in> visited s" using path y by (auto simp: tarjan_path_ok_def)
      moreover have "y \<notin> stacked s0"
      proof
        assume ys: "y \<in> stacked s0"
        moreover have "x \<in> stacked s - insert v (stacked s0)" using x False by (simp add: N_def)
        ultimately have "low s v \<le> num s0 y" using loop_invD(9) [OF loop] y by blast
        with lt0 [OF ys] show False by simp
      qed
      ultimately show ?thesis by blast
    qed
    then show "y \<in> N \<union> C" by (auto simp: N_def C_def)
  qed
  have closedC: "edge adj x y \<Longrightarrow> x \<in> C \<Longrightarrow> y \<in> C" for x y
    using don by (auto simp: C_def tarjan_done_ok_def)
  have stay: "y \<in> N \<union> C" if x: "x \<in> N" and r: "reaches adj x y" for x y
    by (rule reaches_closed [OF r]) (use x succN closedC in auto)
  show "\<And>x. x \<in> N \<Longrightarrow> set (successors adj x) \<subseteq> N \<union> C" by (rule succN)
  show "\<And>x y. x \<in> N \<Longrightarrow> reaches adj x y \<Longrightarrow> y \<in> N \<union> C" by (rule stay)
  obtain new where new: "ts_stack s = new @ v # ts_stack s0" using loop_invD(4) [OF loop] by blast
  show "scc adj v = N"
  proof (intro equalityI subsetI)
    fix x assume x: "x \<in> N"
    then have xs: "x \<in> stacked s" by (simp add: N_def)
    then obtain g where g: "g \<in> insert v G" "reaches adj x g"
      using path unfolding tarjan_path_ok_def by blast
    then have "g \<in> N \<union> C" using x stay by blast
    then have "g = v" using g(1) G0 loop_inv_visited [OF loop] tarjan_extends_stacked [OF ext]
      by (auto simp: N_def C_def)
    moreover have "num s v \<le> num s x"
    proof -
      have "x \<in> set new \<or> x = v" using x new by (auto simp: N_def)
      moreover have "sorted_wrt (\<lambda>x y. num s y < num s x) (ts_stack s)"
        using inv by (auto simp: tarjan_inv_def tarjan_stack_ok_def)
      ultimately show ?thesis using new by (auto simp: sorted_wrt_append)
    qed
    then have "reaches adj v x" using path xs unfolding tarjan_path_ok_def by blast
    ultimately show "x \<in> scc adj v" using g by (simp add: scc_def)
  next
    fix x assume "x \<in> scc adj v"
    then have r: "reaches adj v x" "reaches adj x v" by (auto simp: scc_def)
    then have "x \<in> N \<union> C" using stay vN by blast
    moreover have "x \<notin> C"
    proof
      assume "x \<in> C"
      then have "v \<in> C" by (rule reaches_closed [OF r(2)]) (rule closedC)
      then show False using loop_inv_visited [OF loop] by (simp add: C_def)
    qed
    ultimately show "x \<in> N" by blast
  qed
qed


lemma scc_collect:
  assumes "\<And>x. x \<in> N \<Longrightarrow> scc adj x = N" and "v \<in> N"
  shows "{f (scc adj x) | x. x \<in> N \<union> C \<and> 1 < card (scc adj x)}
      = {f (scc adj x) | x. x \<in> C \<and> 1 < card (scc adj x)} \<union> (if 1 < card N then {f N} else {})"
proof -
  have "{f (scc adj x) | x. x \<in> N \<and> 1 < card (scc adj x)} = (if 1 < card N then {f N} else {})"
    using assms by (auto intro!: exI [of _ v])
  then show ?thesis by blast
qed

text \<open>The state after the component of \<open>v\<close> has been popped.\<close>

lemma popped_inv:
  assumes loop: "loop_inv adj G s0 v P s" and inv0: "tarjan_inv adj G s0"
    and succs: "set (successors adj v) \<subseteq> P" and root: "low s v = num s v"
    and new: "ts_stack s = new @ v # ts_stack s0"
  shows "tarjan_inv adj G (s\<lparr>ts_stack := ts_stack s0,
           ts_on_stack := ts_on_stack s - set (new @ [v]),
           ts_components := ts_components s
             @ (if length (new @ [v]) > 1 then [sort (new @ [v])] else [])\<rparr>)"
    (is "tarjan_inv adj G ?s'")
proof -
  note inv = loop_invD(1) [OF loop] and ext = loop_invD(2) [OF loop]
  let ?N = "stacked s - stacked s0" and ?C = "visited s - stacked s"
  have stack: "tarjan_stack_ok adj s" and path: "tarjan_path_ok adj (insert v G) s"
    and don: "tarjan_done_ok adj s" using inv by (auto simp: tarjan_inv_def)
  have path0: "tarjan_path_ok adj G s0" using inv0 by (simp add: tarjan_inv_def)
  have sub: "stacked s \<subseteq> visited s" and sub0: "stacked s0 \<subseteq> visited s0"
    using inv inv0 by (auto dest: stacked_visited)
  have vis0: "visited s0 \<subseteq> visited s" using ext by (rule tarjan_extends_visited)
  have sorted: "sorted_wrt (\<lambda>x y. num s y < num s x) (ts_stack s)"
    using stack by (simp add: tarjan_stack_ok_def)
  have dist: "distinct (ts_stack s)"
    using sorted by (rule sorted_wrt_distinct)
  have N: "set (new @ [v]) = ?N" using dist new by auto
  have comp: "scc adj v = ?N" by (rule new_part_reach(3) [OF loop inv0 succs root])
  have len: "length (new @ [v]) = card ?N" using dist new N distinct_card [of "new @ [v]"] by auto
  have num0: "num s x = num s0 x" if "x \<in> stacked s0" for x
    using that sub0 tarjan_extends_num [OF ext] by blast
  have G0: "G \<subseteq> stacked s0" using path0 by (simp add: tarjan_path_ok_def)
  have "tarjan_stack_ok adj ?s'"
    using stack sorted new sub0 vis0 dist unfolding tarjan_stack_ok_def
    by (auto simp: sorted_wrt_append)
  moreover have "tarjan_path_ok adj G ?s'"
    unfolding tarjan_path_ok_def
  proof (intro conjI)
    show "\<forall>x \<in> visited ?s' - G. set (successors adj x) \<subseteq> visited ?s'"
    proof
      fix x assume x: "x \<in> visited ?s' - G"
      show "set (successors adj x) \<subseteq> visited ?s'"
      proof (cases "x = v")
        case True
        then show ?thesis using succs loop_invD(10) [OF loop] by auto
      next
        case False
        then show ?thesis using x path unfolding tarjan_path_ok_def by auto
      qed
    qed
    show "\<forall>x \<in> stacked ?s'. \<exists>g \<in> G. num ?s' g \<le> num ?s' x \<and> reaches adj x g"
    proof
      fix x assume "x \<in> stacked ?s'"
      then have x: "x \<in> stacked s0" by simp
      then obtain g where g: "g \<in> G" "num s0 g \<le> num s0 x" "reaches adj x g"
        using path0 unfolding tarjan_path_ok_def by blast
      then show "\<exists>g \<in> G. num ?s' g \<le> num ?s' x \<and> reaches adj x g"
        using x G0 num0 by (intro bexI [of _ g]) auto
    qed
    show "\<forall>g \<in> G. \<forall>x \<in> stacked ?s'. num ?s' g \<le> num ?s' x \<longrightarrow> reaches adj g x"
      using path0 G0 num0 unfolding tarjan_path_ok_def by auto
  qed (use G0 in simp)
  moreover have "tarjan_done_ok adj ?s'"
  proof -
    have C': "visited ?s' - stacked ?s' = ?N \<union> ?C" using sub sub0 vis0 tarjan_extends_stacked [OF ext] by auto
    have closed: "\<forall>x \<in> ?N \<union> ?C. set (successors adj x) \<subseteq> ?N \<union> ?C"
    proof
      fix x assume "x \<in> ?N \<union> ?C"
      then show "set (successors adj x) \<subseteq> ?N \<union> ?C"
      proof
        assume "x \<in> ?N"
        then show ?thesis by (rule new_part_reach(1) [OF loop inv0 succs root])
      next
        assume "x \<in> ?C"
        then have "set (successors adj x) \<subseteq> ?C" using don by (simp add: tarjan_done_ok_def)
        then show ?thesis by blast
      qed
    qed
    have sccN: "scc adj x = ?N" if "x \<in> ?N" for x using that comp scc_eq [of x adj v] by blast
    have srt: "sort (new @ [v]) = sorted_list_of_set ?N"
      using N dist new by (metis distinct_append distinct_remdups_id sorted_list_of_set_sort_remdups
          append.assoc append_Cons append_Nil)
    have old: "sorted_list_of_set ?N \<notin> set (ts_components s)"
    proof
      assume "sorted_list_of_set ?N \<in> set (ts_components s)"
      then obtain x where x: "x \<in> ?C" "sorted_list_of_set ?N = sorted_list_of_set (scc adj x)"
          "1 < card (scc adj x)"
        using don unfolding tarjan_done_ok_def by blast
      then have "?N = scc adj x" by (metis card.infinite finite_set finite_Diff not_less_zero
            sorted_list_of_set.set_sorted_key_list_of_set)
      then show False using x(1) scc_refl [of x adj] by auto
    qed
    have vN: "v \<in> ?N" using comp scc_refl [of v adj] by blast
    have eq: "{sorted_list_of_set (scc adj x) | x. x \<in> ?N \<union> ?C \<and> 1 < card (scc adj x)}
      = {sorted_list_of_set (scc adj x) | x. x \<in> ?C \<and> 1 < card (scc adj x)}
        \<union> (if 1 < card ?N then {sorted_list_of_set ?N} else {})"
      by (rule scc_collect [OF _ vN]) (rule sccN)
    have comps: "ts_components ?s' = ts_components s
        @ (if 1 < card ?N then [sorted_list_of_set ?N] else [])"
      unfolding len srt by simp
    have don2: "distinct (ts_components s)"
      "set (ts_components s) = {sorted_list_of_set (scc adj x) | x. x \<in> ?C \<and> 1 < card (scc adj x)}"
      using don unfolding tarjan_done_ok_def by blast+
    have "distinct (ts_components ?s')" unfolding comps using don2(1) old by simp
    moreover have "set (ts_components ?s')
        = {sorted_list_of_set (scc adj x) | x. x \<in> ?N \<union> ?C \<and> 1 < card (scc adj x)}"
      unfolding comps unfolding eq set_append don2(2) by simp
    ultimately show ?thesis
      using closed unfolding tarjan_done_ok_def C' by blast
  qed
  ultimately show ?thesis by (simp add: tarjan_inv_def)
qed


text \<open>A node whose link is below its number stays on the stack.\<close>

lemma kept_inv:
  assumes loop: "loop_inv adj G s0 v P s" and inv0: "tarjan_inv adj G s0"
    and succs: "set (successors adj v) \<subseteq> P" and below: "low s v < num s v"
  shows "tarjan_inv adj G s"
proof -
  note inv = loop_invD(1) [OF loop]
  have path: "tarjan_path_ok adj (insert v G) s" using inv by (simp add: tarjan_inv_def)
  obtain y where y: "y \<in> stacked s" "num s y = low s v" "reaches adj v y"
    using loop_invD(8) [OF loop] by blast
  have wit: "\<exists>g \<in> G. num s g \<le> num s x \<and> reaches adj x g" if x: "x \<in> stacked s" for x
  proof -
    obtain h where h: "h \<in> insert v G" "num s h \<le> num s y" "reaches adj y h"
      using path y(1) unfolding tarjan_path_ok_def by blast
    then have hG: "h \<in> G" using below y(2) by auto
    obtain g where g: "g \<in> insert v G" "num s g \<le> num s x" "reaches adj x g"
      using path x unfolding tarjan_path_ok_def by blast
    show ?thesis
    proof (cases "g = v")
      case True
      then have "reaches adj x h" using g(3) y(3) h(3) by (metis rtranclp_trans)
      moreover have "num s h \<le> num s x" using True g(2) h(2) y(2) below by simp
      ultimately show ?thesis using hG by blast
    qed (use g in blast)
  qed
  have "set (successors adj x) \<subseteq> visited s" if "x \<in> visited s - G" for x
  proof (cases "x = v")
    case True
    then show ?thesis using succs loop_invD(10) [OF loop] by blast
  next
    case False
    then show ?thesis using that path unfolding tarjan_path_ok_def by blast
  qed
  then have "tarjan_path_ok adj G s"
    using path wit unfolding tarjan_path_ok_def by blast
  then show ?thesis using inv by (simp add: tarjan_inv_def)
qed

lemma leave_node_post:
  assumes loop: "loop_inv adj G s0 v P s" and inv0: "tarjan_inv adj G s0"
    and succs: "set (successors adj v) \<subseteq> P"
  shows "\<exists>s'. leave_node v s = Inr s' \<and> visit_post adj G s0 v s'"
proof -
  note inv = loop_invD(1) [OF loop] and ext = loop_invD(2) [OF loop]
  have v: "v \<in> visited s" "v \<in> stacked s" using loop_inv_visited [OF loop] by auto
  have some: "ts_indices s v = Some (num s v)" "ts_lowlinks s v = Some (low s v)"
  proof -
    have "dom (ts_lowlinks s) = visited s" using inv by (simp add: tarjan_inv_def tarjan_stack_ok_def)
    then have "v \<in> dom (ts_lowlinks s)" using v by blast
    then show "ts_indices s v = Some (num s v)" "ts_lowlinks s v = Some (low s v)" using v by auto
  qed
  have sub0: "stacked s0 \<subseteq> visited s0" using inv0 by (rule stacked_visited)
  show ?thesis
  proof (cases "low s v = num s v")
    case True
    obtain new where new: "ts_stack s = new @ v # ts_stack s0" using loop_invD(4) [OF loop] by blast
    have "sorted_wrt (\<lambda>x y. num s y < num s x) (ts_stack s)"
      using inv by (simp add: tarjan_inv_def tarjan_stack_ok_def)
    then have "distinct (ts_stack s)" by (rule sorted_wrt_distinct)
    then have "pop_until v (ts_stack s) = Inr (new @ [v], ts_stack s0)"
      unfolding new by (intro pop_until_append) simp
    then have leave: "leave_node v s = Inr (s\<lparr>ts_stack := ts_stack s0,
           ts_on_stack := ts_on_stack s - set (new @ [v]),
           ts_components := ts_components s
             @ (if length (new @ [v]) > 1 then [sort (new @ [v])] else [])\<rparr>)" (is "_ = Inr ?s'")
      using some True by (simp add: leave_node_def)
    have "tarjan_inv adj G ?s'" by (rule popped_inv [OF loop inv0 succs True new])
    moreover have "tarjan_extends s0 ?s'"
      using ext by (auto simp: tarjan_extends_def)
    moreover have "v \<notin> stacked s0" using sub0 loop_invD(3) [OF loop] by blast
    ultimately have "visit_post adj G s0 v ?s'"
      using v True loop_invD(5) [OF loop] by (simp add: visit_post_def)
    with leave show ?thesis by blast
  next
    case False
    then have below: "low s v < num s v" using loop_invD(7) [OF loop] by simp
    have "low s v \<le> num s0 y"
      if x: "x \<in> stacked s - stacked s0" and y: "y \<in> stacked s0" and e: "edge adj x y" for x y
    proof (cases "x = v")
      case True
      then have "y \<in> P" using e succs by blast
      then show ?thesis using loop_invD(10) [OF loop] y by blast
    next
      case False
      then show ?thesis using loop_invD(9) [OF loop] x y e by blast
    qed
    then have "visit_post adj G s0 v s"
      using kept_inv [OF loop inv0 succs below] ext v below loop_invD(5,8) [OF loop]
      by (simp add: visit_post_def)
    moreover have "ts_lowlinks s v \<noteq> ts_indices s v" using False by auto
    then have "leave_node v s = Inr s" by (simp add: leave_node_def)
    ultimately show ?thesis by blast
  qed
qed

lemma visited_card_less:
  assumes "v \<notin> visited s" and "v \<in> set (keys adj)" and "visited s' = insert v (visited s)"
    and "card (set (keys adj) - visited s) \<le> Suc k"
  shows "card (set (keys adj) - visited s') \<le> k"
proof -
  have "set (keys adj) - visited s' = (set (keys adj) - visited s) - {v}" using assms(3) by auto
  then show ?thesis using assms by (simp add: card_Diff_singleton)
qed

lemma visited_card_mono:
  assumes "visited s \<subseteq> visited s'" and "card (set (keys adj) - visited s) \<le> k"
  shows "card (set (keys adj) - visited s') \<le> k"
proof -
  have "card (set (keys adj) - visited s') \<le> card (set (keys adj) - visited s)"
    by (rule card_mono) (use assms(1) in auto)
  then show ?thesis using assms(2) by simp
qed

text \<open>
  Total correctness: with fuel for the nodes not yet visited, a visit returns and its
  postcondition holds.
\<close>

lemma visit_total:
  "closed_adjacency adj \<Longrightarrow> tarjan_inv adj G s \<Longrightarrow> v \<notin> visited s \<Longrightarrow> v \<in> set (keys adj) \<Longrightarrow> \<forall>g \<in> G. reaches adj g v
      \<Longrightarrow> card (set (keys adj) - visited s) \<le> k
      \<Longrightarrow> \<exists>s'. visit adj k v s = Inr s' \<and> visit_post adj G s v s'"
  "closed_adjacency adj \<Longrightarrow> tarjan_inv adj H s0 \<Longrightarrow> loop_inv adj H s0 v P s \<Longrightarrow> set ds \<subseteq> set (successors adj v)
      \<Longrightarrow> card (set (keys adj) - visited s) \<le> k
      \<Longrightarrow> \<exists>s'. visit_dependents adj k v ds s = Inr s' \<and> loop_inv adj H s0 v (P \<union> set ds) s'"
proof (induction adj k v s and adj k v ds s arbitrary: G and H s0 P rule: visit_visit_dependents.induct)
  case (1 adj v s)
  then show ?case by auto
next
  case (2 adj k v s)
  note loop = enter_loop_inv [OF "2.prems"(2-5)]
  have card: "card (set (keys adj) - visited (enter_node v s)) \<le> k"
    by (rule visited_card_less [OF "2.prems"(3,4) _ "2.prems"(6)]) simp
  obtain s1 where s1: "visit_dependents adj k v (successors adj v) (enter_node v s) = Inr s1"
      "loop_inv adj G s v ({} \<union> set (successors adj v)) s1"
    using "2.IH" [OF "2.prems"(1,2) loop order.refl card] by blast
  obtain s2 where "leave_node v s1 = Inr s2" "visit_post adj G s v s2"
    using leave_node_post [OF s1(2) "2.prems"(2)] by auto
  then show ?case using s1(1) by simp
next
  case (3 adj k v s)
  then show ?case by auto
next
  case (4 adj k v d ds s)
  have e: "edge adj v d" and ds: "set ds \<subseteq> set (successors adj v)" using "4.prems" by auto
  note closed = "4.prems"(1) and inv0 = "4.prems"(2) and loop = "4.prems"(3)
  have P: "insert d P \<union> set ds = P \<union> set (d # ds)" by auto
  show ?case
  proof (cases "d \<in> visited s")
    case False
    then have none: "ts_indices s d = None" by auto
    have dk: "d \<in> set (keys adj)" using e closed unfolding closed_adjacency_def by blast
    have reach: "\<forall>g \<in> insert v H. reaches adj g d"
    proof
      fix g assume "g \<in> insert v H"
      then have "reaches adj g v" using loop_invD(6) [OF loop] by auto
      then show "reaches adj g d" using e by (rule reaches_snoc)
    qed
    obtain s1 where s1: "visit adj k d s = Inr s1" "visit_post adj (insert v H) s d s1"
      using "4.IH"(1) [OF none closed loop_invD(1) [OF loop] False dk reach "4.prems"(5)] by blast
    let ?s2 = "lower_link v (low s1 d) s1"
    have loop2: "loop_inv adj H s0 v (insert d P) ?s2"
      by (rule loop_inv_visit [OF loop inv0 s1(2) False e])
    have "tarjan_extends s s1" using s1(2) by (simp add: visit_post_def)
    then have "visited s \<subseteq> visited ?s2" using tarjan_extends_visited by simp
    then have "card (set (keys adj) - visited ?s2) \<le> k"
      using "4.prems"(5) by (rule visited_card_mono)
    from "4.IH"(2) [OF none closed inv0 loop2 ds this] none s1(1) P show ?thesis by simp
  next
    case True
    then obtain n where n: "ts_indices s d = Some n" by blast
    show ?thesis
    proof (cases "d \<in> ts_on_stack s")
      case on: True
      then have "d \<in> stacked s"
        using loop_invD(1) [OF loop] by (simp add: tarjan_inv_def tarjan_stack_ok_def)
      note loop2 = loop_inv_stacked [OF loop inv0 this e]
      have "\<exists>s'. visit_dependents adj k v ds (lower_link v (num s d) s) = Inr s'
          \<and> loop_inv adj H s0 v (insert d P \<union> set ds) s'"
        using "4.IH"(3) [OF _ on closed inv0 loop2 ds] "4.prems"(5) n by simp
      then show ?thesis unfolding P using n on by simp
    next
      case off: False
      then have "d \<notin> stacked s"
        using loop_invD(1) [OF loop] by (simp add: tarjan_inv_def tarjan_stack_ok_def)
      note loop2 = loop_inv_closed [OF loop True this]
      have "\<exists>s'. visit_dependents adj k v ds s = Inr s'
          \<and> loop_inv adj H s0 v (insert d P \<union> set ds) s'"
        using "4.IH"(4) [OF _ off closed inv0 loop2 ds "4.prems"(5)] n by simp
      then show ?thesis unfolding P using n off by simp
    qed
  qed
qed


lemma tarjan_inv_start: "tarjan_inv adj {} tarjan_start"
  by (simp add: tarjan_inv_def tarjan_stack_ok_def tarjan_path_ok_def tarjan_done_ok_def tarjan_start_def)

lemma tarjan_inv_no_path: "tarjan_inv adj {} s \<Longrightarrow> stacked s = {}"
  by (auto simp: tarjan_inv_def tarjan_path_ok_def)

lemma visit_roots_total:
  assumes closed: "closed_adjacency adj" and k: "card (set (keys adj)) \<le> k"
  shows "tarjan_inv adj {} s \<Longrightarrow> set vs \<subseteq> set (keys adj) \<Longrightarrow>
    \<exists>s'. visit_roots adj k vs s = Inr s' \<and> tarjan_inv adj {} s' \<and> visited s \<union> set vs \<subseteq> visited s'"
proof (induction vs arbitrary: s)
  case (Cons v vs)
  show ?case
  proof (cases "v \<in> visited s")
    case True
    have "set vs \<subseteq> set (keys adj)" using Cons.prems(2) by simp
    then obtain s' where "visit_roots adj k vs s = Inr s'" "tarjan_inv adj {} s'"
        "visited s \<union> set vs \<subseteq> visited s'"
      using Cons.IH [OF Cons.prems(1)] by blast
    moreover from this(3) True have "visited s \<union> set (v # vs) \<subseteq> visited s'" by auto
    moreover obtain n where "ts_indices s v = Some n" using True by blast
    ultimately show ?thesis by simp
  next
    case False
    have "card (set (keys adj) - visited s) \<le> card (set (keys adj))" by (intro card_mono) auto
    then have le: "card (set (keys adj) - visited s) \<le> k" using k by simp
    obtain s1 where s1: "visit adj k v s = Inr s1" "visit_post adj {} s v s1"
      using visit_total(1) [OF closed Cons.prems(1) False _ _ le] Cons.prems(2) by auto
    then have inv1: "tarjan_inv adj {} s1" and "tarjan_extends s s1" and v1: "v \<in> visited s1"
      by (simp_all add: visit_post_def)
    then have vis: "visited s \<subseteq> visited s1" by (intro tarjan_extends_visited)
    have "set vs \<subseteq> set (keys adj)" using Cons.prems(2) by simp
    then obtain s2 where s2: "visit_roots adj k vs s1 = Inr s2" "tarjan_inv adj {} s2"
        "visited s1 \<union> set vs \<subseteq> visited s2"
      using Cons.IH [OF inv1] by blast
    have "ts_indices s v = None" using False by auto
    then have "visit_roots adj k (v # vs) s = Inr s2" using s1(1) s2(1) by simp
    moreover have "visited s \<union> set (v # vs) \<subseteq> visited s2" using s2(3) vis v1 by auto
    ultimately show ?thesis using s2(2) by blast
  qed
qed auto

lemma cycle_components_correct:
  assumes closed: "closed_adjacency adj"
  shows "\<exists>cs. cycle_components adj = Inr cs \<and> sorted cs \<and> distinct cs
     \<and> set cs = {sorted_list_of_set (scc adj x) | x. x \<in> set (keys adj) \<and> 1 < card (scc adj x)}"
proof -
  have "card (set (keys adj)) \<le> length adj" by (metis card_length length_map)
  then obtain s where s: "visit_roots adj (length adj) (sort (keys adj)) tarjan_start = Inr s"
      "tarjan_inv adj {} s" "set (keys adj) \<subseteq> visited s"
    using visit_roots_total [OF closed _ tarjan_inv_start, of "length adj" "sort (keys adj)"] by auto
  then have vis: "visited s = set (keys adj)"
    by (auto simp: tarjan_inv_def tarjan_stack_ok_def)
  have "tarjan_done_ok adj s" using s(2) by (simp add: tarjan_inv_def)
  then show ?thesis
    unfolding tarjan_done_ok_def tarjan_inv_no_path [OF s(2)] vis
    using s(1) by (simp add: cycle_components_def)
qed

lemma scc_finite: "1 < card (scc adj x) \<Longrightarrow> finite (scc adj x)"
  by (metis card.infinite not_less_zero)

lemma cycle_nodes_correct:
  assumes closed: "closed_adjacency adj"
  shows "cycle_nodes adj = Inr {x \<in> set (keys adj). 1 < card (scc adj x)}"
proof -
  obtain cs where cs: "cycle_components adj = Inr cs"
      "set cs = {sorted_list_of_set (scc adj x) | x. x \<in> set (keys adj) \<and> 1 < card (scc adj x)}"
    using cycle_components_correct [OF closed] by blast
  have sub: "scc adj x \<subseteq> set (keys adj)" if "x \<in> set (keys adj)" for x
  proof
    fix y assume "y \<in> scc adj x"
    then have "reaches adj x y" by (simp add: scc_def)
    then show "y \<in> set (keys adj)"
      by (rule reaches_closed) (use that closed in \<open>auto simp: closed_adjacency_def\<close>)
  qed
  have "\<Union> (set (map set cs)) = {x \<in> set (keys adj). 1 < card (scc adj x)}"
  proof (intro equalityI subsetI)
    fix y assume "y \<in> \<Union> (set (map set cs))"
    then obtain c where c: "c \<in> set cs" "y \<in> set c" by auto
    from c(1) obtain x where x: "c = sorted_list_of_set (scc adj x)" "x \<in> set (keys adj)" "1 < card (scc adj x)"
      unfolding cs(2) mem_Collect_eq by (elim exE conjE)
    from c(2) x(1,3) have "y \<in> scc adj x" by (simp add: scc_finite)
    then show "y \<in> {x \<in> set (keys adj). 1 < card (scc adj x)}"
      using x sub scc_eq [of y adj x] by auto
  next
    fix y assume y: "y \<in> {x \<in> set (keys adj). 1 < card (scc adj x)}"
    then have "sorted_list_of_set (scc adj y) \<in> set cs" unfolding cs(2) by blast
    moreover have "y \<in> set (sorted_list_of_set (scc adj y))"
      using y scc_refl [of y adj] by (simp add: scc_finite)
    ultimately show "y \<in> \<Union> (set (map set cs))" by auto
  qed
  then show ?thesis using cs(1) by (simp add: cycle_nodes_def)
qed

text \<open>Without self-edges, a node of a component with two members is a node on a cycle.\<close>

lemma scc_cycle:
  assumes "\<not> edge adj x x" and "finite (scc adj x)"
  shows "1 < card (scc adj x) \<longleftrightarrow> (edge adj)\<^sup>+\<^sup>+ x x"
proof
  assume "1 < card (scc adj x)"
  then obtain y where y: "y \<in> scc adj x" "y \<noteq> x"
    by (metis card_le_Suc0_iff_eq [OF assms(2)] scc_refl One_nat_def leD)
  then have "(edge adj)\<^sup>+\<^sup>+ x y" "reaches adj y x" by (auto simp: scc_def dest: rtranclpD)
  then show "(edge adj)\<^sup>+\<^sup>+ x x" by (rule tranclp_rtranclp_tranclp)
next
  assume "(edge adj)\<^sup>+\<^sup>+ x x"
  then obtain y where y: "edge adj x y" "reaches adj y x" by (metis tranclpD)
  then have "y \<in> scc adj x" "y \<noteq> x" using assms(1) by (auto simp: scc_def)
  then show "1 < card (scc adj x)"
    using scc_refl [of x adj] assms(2) by (metis One_nat_def card_le_Suc0_iff_eq leI)
qed

section \<open>Worklist searches\<close>

text \<open>
  The loop of \<^verbatim>\<open>_nodes_blocked_by_unresolved\<close>: a node is marked when it is pushed. The top of the
  stack is the head of the list.
\<close>

fun push_dependents :: "'a list \<Rightarrow> 'a set \<Rightarrow> 'a list \<Rightarrow> 'a set \<times> 'a list" where
  "push_dependents [] blocked stack = (blocked, stack)"
| "push_dependents (d # ds) blocked stack =
     (if d \<in> blocked then push_dependents ds blocked stack
      else push_dependents ds (insert d blocked) (d # stack))"

definition adjacency_universe :: "'a adjacency \<Rightarrow> 'a set" where
  "adjacency_universe adj = (\<Union>(v, ds) \<in> set adj. set ds)"

lemma finite_universe [simp]: "finite (adjacency_universe adj)"
  by (auto simp: adjacency_universe_def)

lemma successors_universe: "set (successors adj v) \<subseteq> adjacency_universe adj"
proof (cases "map_of adj v")
  case (Some ds)
  then have "(v, ds) \<in> set adj" by (rule map_of_SomeD)
  then show ?thesis using Some by (auto simp: successors_def adjacency_universe_def)
qed (simp add: successors_def)

lemma push_dependents_spec:
  "push_dependents ds blocked stack = (b', st') \<Longrightarrow>
     b' = blocked \<union> set ds
     \<and> (\<exists>new. st' = new @ stack \<and> set new = set ds - blocked \<and> distinct new)"
proof (induction ds blocked stack rule: push_dependents.induct)
  case (2 d ds blocked stack)
  show ?case
  proof (cases "d \<in> blocked")
    case True
    then show ?thesis using 2 by auto
  next
    case False
    then obtain new where "b' = insert d blocked \<union> set ds" "st' = new @ d # stack"
        "set new = set ds - insert d blocked" "distinct new"
      using 2 by auto
    then show ?thesis using False by (auto intro!: exI [of _ "new @ [d]"])
  qed
qed auto

function blocked_loop :: "'a adjacency \<Rightarrow> 'a set \<Rightarrow> 'a list \<Rightarrow> 'a set" where
  "blocked_loop adj blocked [] = blocked"
| "blocked_loop adj blocked (current # stack) =
     (let (blocked', stack') = push_dependents (successors adj current) blocked stack
      in blocked_loop adj blocked' stack')"
  by pat_completeness auto
termination
proof (relation "measure (\<lambda>(adj, blocked, stack). card (adjacency_universe adj - blocked) + length stack)")
  fix adj :: "'a adjacency" and blocked current stack x blocked' stack'
  assume x: "x = push_dependents (successors adj current) blocked stack" and "(blocked', stack') = x"
  then obtain new where p: "blocked' = blocked \<union> set (successors adj current)" "stack' = new @ stack"
      "set new = set (successors adj current) - blocked" "distinct new"
    using push_dependents_spec [of "successors adj current" blocked stack blocked' stack'] by auto
  have sub: "set new \<subseteq> adjacency_universe adj - blocked"
    using p(3) successors_universe [of adj current] by blast
  have "adjacency_universe adj - blocked' = (adjacency_universe adj - blocked) - set new"
    using p by auto
  then have "card (adjacency_universe adj - blocked') + length new = card (adjacency_universe adj - blocked)"
    using sub p(4) card_mono [OF _ sub] by (simp add: card_Diff_subset distinct_card)
  then show "((adj, blocked', stack'), (adj, blocked, current # stack))
      \<in> measure (\<lambda>(adj, blocked, stack). card (adjacency_universe adj - blocked) + length stack)"
    by (simp add: p(2))
qed simp

text \<open>
  The loop of \<^verbatim>\<open>_required_ancestor_gaps\<close>: a node is marked when it is popped, and
  \<^verbatim>\<open>reverse[current]\<close> raises for a node the dictionary does not have.
\<close>

function ancestor_loop :: "'a adjacency \<Rightarrow> 'a set \<Rightarrow> 'a list \<Rightarrow> 'a set result" where
  "ancestor_loop rev_adj ancestors [] = Ok ancestors"
| "ancestor_loop rev_adj ancestors (current # stack) =
     (if current \<in> ancestors then ancestor_loop rev_adj ancestors stack
      else case map_of rev_adj current of
          None \<Rightarrow> Raise (KeyError ''current'')
        | Some ps \<Rightarrow> ancestor_loop rev_adj (insert current ancestors) (rev ps @ stack))"
  by pat_completeness auto
termination
proof (relation "measures [\<lambda>(adj, seen, stack). card (set (keys adj) - seen),
    \<lambda>(adj, seen, stack). length stack]")
  fix adj :: "('a \<times> 'a list) list" and seen current stack ps
  assume "current \<notin> seen" and "map_of adj current = Some ps"
  then have "current \<in> set (keys adj) - seen" by (force dest: map_of_SomeD)
  then have "card (set (keys adj) - insert current seen) < card (set (keys adj) - seen)"
    by (intro psubset_card_mono) auto
  then show "((adj, insert current seen, rev ps @ stack), (adj, seen, current # stack))
      \<in> measures [\<lambda>(adj, seen, stack). card (set (keys adj) - seen), \<lambda>(adj, seen, stack). length stack]"
    by simp
qed auto


text \<open>
  The loop of \<^verbatim>\<open>_ancestors\<close> in \<^verbatim>\<open>artifact_validation.py\<close>, which skips the nodes that the dictionary
  does not have.
\<close>

function known_ancestor_loop :: "'a adjacency \<Rightarrow> 'a set \<Rightarrow> 'a list \<Rightarrow> 'a set" where
  "known_ancestor_loop rev_adj ancestors [] = ancestors"
| "known_ancestor_loop rev_adj ancestors (node_id # stack) =
     (if node_id \<in> ancestors \<or> node_id \<notin> set (keys rev_adj)
      then known_ancestor_loop rev_adj ancestors stack
      else known_ancestor_loop rev_adj (insert node_id ancestors)
             (rev (successors rev_adj node_id) @ stack))"
  by pat_completeness auto
termination
proof (relation "measures [\<lambda>(adj, seen, stack). card (set (keys adj) - seen),
    \<lambda>(adj, seen, stack). length stack]")
  fix adj :: "('a \<times> 'a list) list" and seen current stack
  assume "\<not> (current \<in> seen \<or> current \<notin> set (keys adj))"
  then have "card (set (keys adj) - insert current seen) < card (set (keys adj) - seen)"
    by (intro psubset_card_mono) auto
  then show "((adj, insert current seen, rev (successors adj current) @ stack), (adj, seen, current # stack))
      \<in> measures [\<lambda>(adj, seen, stack). card (set (keys adj) - seen), \<lambda>(adj, seen, stack). length stack]"
    by simp
qed auto

declare blocked_loop.simps [simp del] ancestor_loop.simps [simp del] known_ancestor_loop.simps [simp del]

lemma reach_from_absorb:
  assumes "S \<subseteq> reach_from succ R"
  shows "reach_from succ (R \<union> S) = reach_from succ R"
proof -
  have "reach_from succ S \<subseteq> reach_from succ R"
    by (rule reach_from_least [OF assms]) (rule reach_from_step)
  then show ?thesis by (simp add: reach_from_un Un_absorb2)
qed

lemma reach_from_closed:
  assumes "\<And>x. x \<in> R \<Longrightarrow> set (succ x) \<subseteq> R"
  shows "reach_from succ R = R"
  using reach_from_least [of R R succ] reach_from_root [of R succ] assms by blast

lemma blocked_loop_reach:
  "set stack \<subseteq> blocked \<Longrightarrow> (\<And>x. x \<in> blocked - set stack \<Longrightarrow> set (successors adj x) \<subseteq> blocked)
   \<Longrightarrow> blocked_loop adj blocked stack = reach_from (successors adj) blocked"
proof (induction adj blocked stack rule: blocked_loop.induct)
  case (1 adj blocked)
  then show ?case by (simp add: blocked_loop.simps reach_from_closed)
next
  case (2 adj blocked current stack)
  obtain b st where p: "push_dependents (successors adj current) blocked stack = (b, st)" by force
  from push_dependents_spec [OF p] obtain new where b: "b = blocked \<union> set (successors adj current)"
    and st: "st = new @ stack" "set new = set (successors adj current) - blocked" by blast
  have "set (successors adj x) \<subseteq> b" if "x \<in> b - set st" for x
  proof (cases "x = current")
    case False
    then have "x \<in> blocked - set (current # stack)" using that b st by auto
    then have "set (successors adj x) \<subseteq> blocked" by (rule "2.prems"(2))
    then show ?thesis using b by blast
  qed (simp add: b)
  moreover have "set st \<subseteq> b" using "2.prems"(1) b st by auto
  ultimately have "blocked_loop adj b st = reach_from (successors adj) b"
    using "2.IH" [OF p [symmetric] refl] by blast
  moreover have "set (successors adj current) \<subseteq> reach_from (successors adj) blocked"
    using "2.prems"(1) reach_from_root [of blocked "successors adj"] reach_from_step [of current "successors adj" blocked]
    by auto
  then have "reach_from (successors adj) b = reach_from (successors adj) blocked"
    unfolding b by (rule reach_from_absorb)
  ultimately show ?case by (simp add: blocked_loop.simps p)
qed

lemma successors_some: "map_of adj v = Some ds \<Longrightarrow> successors adj v = ds"
  by (simp add: successors_def)

lemma ancestor_loop_reach:
  "closed_adjacency adj \<Longrightarrow> set stack \<subseteq> set (keys adj)
   \<Longrightarrow> (\<And>x. x \<in> ancestors \<Longrightarrow> set (successors adj x) \<subseteq> ancestors \<union> set stack)
   \<Longrightarrow> ancestor_loop adj ancestors stack = Inr (reach_from (successors adj) (ancestors \<union> set stack))"
proof (induction adj ancestors stack rule: ancestor_loop.induct)
  case (1 adj ancestors)
  then show ?case by (simp add: ancestor_loop.simps reach_from_closed)
next
  case (2 adj ancestors current stack)
  show ?case
  proof (cases "current \<in> ancestors")
    case True
    then have "ancestors \<union> set (current # stack) = ancestors \<union> set stack" by auto
    then show ?thesis using True "2.IH"(1) [OF True] "2.prems" by (simp add: ancestor_loop.simps)
  next
    case False
    obtain ps where ps: "map_of adj current = Some ps"
      using "2.prems"(2) by (cases "map_of adj current") (auto simp: map_of_eq_None_iff)
    note succ = successors_some [OF ps]
    let ?a = "insert current ancestors" and ?st = "rev ps @ stack"
    have "set ?st \<subseteq> set (keys adj)"
      using "2.prems"(1,2) succ unfolding closed_adjacency_def by auto
    moreover have "set (successors adj x) \<subseteq> ?a \<union> set ?st" if "x \<in> ?a" for x
      using that "2.prems"(3) [of x] succ by auto
    ultimately have "ancestor_loop adj ?a ?st = Inr (reach_from (successors adj) (?a \<union> set ?st))"
      using "2.IH"(2) [OF False ps "2.prems"(1)] by blast
    moreover have eq: "?a \<union> set ?st = (ancestors \<union> set (current # stack)) \<union> set ps" by auto
    have "set ps \<subseteq> reach_from (successors adj) (ancestors \<union> set (current # stack))"
      using reach_from_step [of current "successors adj" "ancestors \<union> set (current # stack)"]
        reach_from_root [of "ancestors \<union> set (current # stack)" "successors adj"] succ by auto
    then have "reach_from (successors adj) (?a \<union> set ?st)
        = reach_from (successors adj) (ancestors \<union> set (current # stack))"
      unfolding eq by (rule reach_from_absorb)
    ultimately show ?thesis using False ps by (simp only: ancestor_loop.simps option.case if_False)
  qed
qed

lemma known_ancestor_loop_eq:
  "closed_adjacency adj \<Longrightarrow> set stack \<subseteq> set (keys adj)
   \<Longrightarrow> ancestor_loop adj ancestors stack = Inr (known_ancestor_loop adj ancestors stack)"
proof (induction adj ancestors stack rule: ancestor_loop.induct)
  case (1 adj ancestors)
  then show ?case by (simp add: ancestor_loop.simps known_ancestor_loop.simps)
next
  case (2 adj ancestors current stack)
  obtain ps where ps: "map_of adj current = Some ps"
    using "2.prems"(2) by (cases "map_of adj current") (auto simp: map_of_eq_None_iff)
  have "set ps \<subseteq> set (keys adj)"
    using "2.prems"(1) successors_some [OF ps] unfolding closed_adjacency_def by metis
  then show ?case
    using 2 ps by (cases "current \<in> ancestors")
      (simp_all add: ancestor_loop.simps known_ancestor_loop.simps successors_some)
qed


text \<open>
  C6: Tarjan's search is totally correct. On a dictionary whose successors are all keys, the
  recursion never runs out of the fuel it is given (one unit per node); the result is the sorted
  list, without repetitions, of the strongly connected components with at least two members, each
  in order, and \<^verbatim>\<open>_cycle_nodes\<close> is the set of their members.
\<close>

theorem tarjan_components_correct:
  assumes "closed_adjacency adj"
  shows "\<exists>cs. cycle_components adj = Inr cs \<and> sorted cs \<and> distinct cs
     \<and> set cs = {sorted_list_of_set (scc adj x) | x. x \<in> set (keys adj) \<and> 1 < card (scc adj x)}
     \<and> cycle_nodes adj = Inr {x \<in> set (keys adj). 1 < card (scc adj x)}"
  using cycle_components_correct [OF assms] cycle_nodes_correct [OF assms] by blast

definition sample_adjacency :: "nat adjacency" where
  "sample_adjacency = [(1, [2]), (2, [3]), (3, [1, 4]), (4, []), (5, [4])]"

lemma sample_adjacency_closed: "closed_adjacency sample_adjacency"
  by (auto simp: closed_adjacency_def successors_def sample_adjacency_def split: if_splits)

theorem tarjan_components_correct_witness:
  "cycle_components sample_adjacency = Inr [[1, 2, 3]]
   \<and> (\<exists>cs. cycle_components sample_adjacency = Inr cs \<and> sorted cs \<and> distinct cs
     \<and> set cs = {sorted_list_of_set (scc sample_adjacency x) | x.
          x \<in> set (keys sample_adjacency) \<and> 1 < card (scc sample_adjacency x)}
     \<and> cycle_nodes sample_adjacency
         = Inr {x \<in> set (keys sample_adjacency). 1 < card (scc sample_adjacency x)})"
proof
  show "cycle_components sample_adjacency = Inr [[1, 2, 3]]" by code_simp
qed (rule tarjan_components_correct [OF sample_adjacency_closed])

end
