(* ===== verification/Graph.thy ===== *)
theory Graph
  imports Catalog Digraph
begin

text \<open>
  \<^verbatim>\<open>compiler/graph.py\<close>: validation of the prerequisite graph and of the argument matches.
  Sets of edges are pairs (dependent, prerequisite); dictionaries are association lists. The
  function \<open>validate_harness_graph\<close> is composed of one definition per block of the code, in order.
\<close>

section \<open>Resolved nodes and the result\<close>

record resolved_node_descriptor =
  rnd_node_id :: string
  rnd_source :: harness_node_source
  rnd_descriptor :: tool_catalog_entry

type_synonym resolved_value = "tool_catalog_entry + resolved_node_descriptor"
type_synonym edge_pair = "string \<times> string"

record graph_validation_result =
  gvr_diagnostics :: "diagnostic list"
  gvr_terminal_node_ids :: "string list"
  gvr_terminal_result_map :: "(string \<times> string) list"
  gvr_required_node_ids :: "string list"

definition gvr_ok :: "graph_validation_result \<Rightarrow> bool" where
  "gvr_ok r \<longleftrightarrow> gvr_diagnostics r = []"

text \<open>\<^verbatim>\<open>_diagnostic\<close>.\<close>

definition graph_diagnostic ::
  "redaction_env \<Rightarrow> string \<Rightarrow> string \<Rightarrow> string option \<Rightarrow> string list \<Rightarrow> (string \<times> string) list \<Rightarrow>
   diagnostic result" where
  "graph_diagnostic env code message nid related flds =
     error_diagnostic env GRAPH code message nid related (map (\<lambda>(k, v). (k, FStr v)) flds)"

definition resolved_entries :: "(string \<times> resolved_value) list \<Rightarrow> (string \<times> tool_catalog_entry) list" where
  "resolved_entries resolved =
     map (\<lambda>(nid, v). (nid, case v of Inl entry \<Rightarrow> entry | Inr d \<Rightarrow> rnd_descriptor d)) resolved"

text \<open>\<^verbatim>\<open>{node.node_id: node for node in source.graph.nodes}\<close>.\<close>

definition nodes_by_id :: "harness_node_source list \<Rightarrow> (string \<times> harness_node_source) list" where
  "nodes_by_id nodes = foldl (\<lambda>d n. dict_set d (hnode_id n) n) [] nodes"

section \<open>Edges\<close>

fun duplicate_prerequisites :: "string \<Rightarrow> string set \<Rightarrow> prerequisite_source list \<Rightarrow> edge_pair set" where
  "duplicate_prerequisites nid seen [] = {}"
| "duplicate_prerequisites nid seen (p # ps) =
     (if prereq_node_id p \<in> seen then {(nid, prereq_node_id p)} else {})
     \<union> duplicate_prerequisites nid (insert (prereq_node_id p) seen) ps"

definition duplicate_prerequisite_pairs :: "harness_node_source list \<Rightarrow> edge_pair set" where
  "duplicate_prerequisite_pairs nodes =
     \<Union> (set (map (\<lambda>n. duplicate_prerequisites (hnode_id n) {} (hnode_prerequisites n)) nodes))"

text \<open>All prerequisite pairs, in declaration order.\<close>

definition prerequisite_pairs :: "harness_node_source list \<Rightarrow> edge_pair list" where
  "prerequisite_pairs nodes =
     concat (map (\<lambda>n. map (\<lambda>p. (hnode_id n, prereq_node_id p)) (hnode_prerequisites n)) nodes)"

definition unknown_prerequisite_pairs ::
  "harness_node_source list \<Rightarrow> (string \<times> harness_node_source) list \<Rightarrow> edge_pair set" where
  "unknown_prerequisite_pairs nodes by_id =
     set (filter (\<lambda>(n, p). p \<notin> set (keys by_id)) (prerequisite_pairs nodes))"

definition self_prerequisite_pairs :: "harness_node_source list \<Rightarrow> edge_pair set" where
  "self_prerequisite_pairs nodes = set (filter (\<lambda>(n, p). p = n) (prerequisite_pairs nodes))"

definition terminal_as_prerequisite_pairs ::
  "harness_node_source list \<Rightarrow> (string \<times> harness_node_source) list \<Rightarrow> edge_pair set" where
  "terminal_as_prerequisite_pairs nodes by_id =
     set (filter (\<lambda>(n, p). case map_of by_id p of None \<Rightarrow> False | Some m \<Rightarrow> hnode_terminal_result m \<noteq> None)
       (prerequisite_pairs nodes))"

text \<open>
  \<^verbatim>\<open>adjacency[prerequisite.node_id].append\<close> raises for an unknown prerequisite; the caller passes
  those edges among the invalid ones.
\<close>

definition valid_adjacency :: "harness_node_source list \<Rightarrow> edge_pair set \<Rightarrow> string adjacency result" where
  "valid_adjacency nodes invalid_edges =
     (let valid = filter (\<lambda>e. e \<notin> invalid_edges) (prerequisite_pairs nodes);
          ids = keys (nodes_by_id nodes)
      in if \<exists>e \<in> set valid. snd e \<notin> set ids then Raise (KeyError ''prerequisite'')
         else Ok (map (\<lambda>i. (i, sort (remdups (map fst (filter (\<lambda>e. snd e = i) valid))))) ids))"

definition adjacency_pairs :: "string adjacency \<Rightarrow> edge_pair list" where
  "adjacency_pairs adj = concat (map (\<lambda>(p, ds). map (\<lambda>d. (d, p)) ds) adj)"

definition reverse_adjacency ::
  "(string \<times> harness_node_source) list \<Rightarrow> string adjacency \<Rightarrow> string adjacency result" where
  "reverse_adjacency by_id adj =
     (if \<exists>e \<in> set (adjacency_pairs adj). fst e \<notin> set (keys by_id) then Raise (KeyError ''dependent'')
      else Ok (map (\<lambda>i. (i, sort (map snd (filter (\<lambda>e. fst e = i) (adjacency_pairs adj))))) (keys by_id)))"

section \<open>Satisfiable nodes\<close>

definition has_invalid_edge :: "edge_pair set \<Rightarrow> harness_node_source \<Rightarrow> bool" where
  "has_invalid_edge invalid_edges n \<longleftrightarrow>
     (\<exists>p \<in> set (hnode_prerequisites n). (hnode_id n, prereq_node_id p) \<in> invalid_edges)"

type_synonym memo = "string \<Rightarrow> bool option"

fun satisfiable :: "(string \<times> harness_node_source) list \<Rightarrow> string adjacency \<Rightarrow> string set \<Rightarrow> edge_pair set \<Rightarrow>
    nat \<Rightarrow> string \<Rightarrow> memo \<Rightarrow> (bool \<times> memo) result"
  and all_satisfiable :: "(string \<times> harness_node_source) list \<Rightarrow> string adjacency \<Rightarrow> string set \<Rightarrow> edge_pair set \<Rightarrow>
    nat \<Rightarrow> string list \<Rightarrow> memo \<Rightarrow> (bool \<times> memo) result" where
  "satisfiable by_id rev_adj cycles invalid_edges 0 node_id memo = Raise RecursionErr"
| "satisfiable by_id rev_adj cycles invalid_edges (Suc k) node_id memo =
     (case memo node_id of
        Some b \<Rightarrow> Ok (b, memo)
      | None \<Rightarrow>
          if node_id \<in> cycles then Ok (False, memo(node_id \<mapsto> False))
          else case map_of by_id node_id of
            None \<Rightarrow> Raise (KeyError node_id)
          | Some node \<Rightarrow>
              if has_invalid_edge invalid_edges node then Ok (False, memo(node_id \<mapsto> False))
              else case map_of rev_adj node_id of
                None \<Rightarrow> Raise (KeyError node_id)
              | Some ps \<Rightarrow>
                  bind_result (all_satisfiable by_id rev_adj cycles invalid_edges k ps memo) (\<lambda>(b, memo').
                  Ok (b, memo'(node_id \<mapsto> b))))"
| "all_satisfiable by_id rev_adj cycles invalid_edges k [] memo = Ok (True, memo)"
| "all_satisfiable by_id rev_adj cycles invalid_edges k (p # ps) memo =
     bind_result (satisfiable by_id rev_adj cycles invalid_edges k p memo) (\<lambda>(b, memo').
     if b then all_satisfiable by_id rev_adj cycles invalid_edges k ps memo' else Ok (False, memo'))"

fun satisfiable_loop :: "(string \<times> harness_node_source) list \<Rightarrow> string adjacency \<Rightarrow> string set \<Rightarrow> edge_pair set \<Rightarrow>
    nat \<Rightarrow> string list \<Rightarrow> memo \<Rightarrow> string list result" where
  "satisfiable_loop by_id rev_adj cycles invalid_edges k [] memo = Ok []"
| "satisfiable_loop by_id rev_adj cycles invalid_edges k (n # ns) memo =
     bind_result (satisfiable by_id rev_adj cycles invalid_edges k n memo) (\<lambda>(b, memo').
     bind_result (satisfiable_loop by_id rev_adj cycles invalid_edges k ns memo') (\<lambda>rest.
     Ok (if b then n # rest else rest)))"

definition satisfiable_nodes ::
  "(string \<times> harness_node_source) list \<Rightarrow> string adjacency \<Rightarrow> string set \<Rightarrow> edge_pair set \<Rightarrow>
   string set result" where
  "satisfiable_nodes by_id adj cycles invalid_edges =
     bind_result (reverse_adjacency by_id adj) (\<lambda>rev_adj.
     bind_result (satisfiable_loop by_id rev_adj cycles invalid_edges (Suc (length by_id))
       (sort (keys by_id)) Map.empty) (\<lambda>ids. Ok (set ids)))"

section \<open>Closures\<close>

definition nodes_blocked_by_unresolved ::
  "(string \<times> harness_node_source) list \<Rightarrow> string adjacency \<Rightarrow> (string \<times> tool_catalog_entry) list \<Rightarrow>
   string set" where
  "nodes_blocked_by_unresolved by_id adj resolved =
     (let unresolved = set (keys by_id) - set (keys resolved)
      in if unresolved = {} then {}
         else blocked_loop adj unresolved (rev (sorted_set unresolved)))"

definition terminal_ancestors :: "string adjacency \<Rightarrow> string \<Rightarrow> string set result" where
  "terminal_ancestors rev_adj t =
     (case map_of rev_adj t of
        None \<Rightarrow> Raise (KeyError t)
      | Some ps \<Rightarrow> ancestor_loop rev_adj {} (rev ps))"

definition required_ancestor_gaps ::
  "(string \<times> harness_node_source) list \<Rightarrow> string adjacency \<Rightarrow> string list \<Rightarrow> string list \<Rightarrow>
   (string \<times> string list) list result" where
  "required_ancestor_gaps by_id adj terminal_ids required_ids =
     bind_result (reverse_adjacency by_id adj) (\<lambda>rev_adj.
     bind_result (traverse (\<lambda>t. bind_result (terminal_ancestors rev_adj t) (\<lambda>ancestors.
         Ok (t, sorted_set (set required_ids - ancestors - {t})))) (sort terminal_ids)) (\<lambda>gaps.
     Ok (filter (\<lambda>(t, missing). missing \<noteq> []) gaps)))"

section \<open>Argument matches\<close>

definition schema_properties :: "json \<Rightarrow> (string \<times> json) list" where
  "schema_properties schema =
     (case schema of
        JObj kvs \<Rightarrow> (case map_of kvs ''properties'' of Some (JObj ps) \<Rightarrow> ps | _ \<Rightarrow> [])
      | _ \<Rightarrow> [])"

text \<open>The members of the set are compared with argument names only.\<close>

definition required_properties :: "json \<Rightarrow> json list" where
  "required_properties schema =
     (case schema of
        JObj kvs \<Rightarrow> (case map_of kvs ''required'' of Some (JArr rs) \<Rightarrow> rs | _ \<Rightarrow> [])
      | _ \<Rightarrow> [])"

text \<open>One match that is neither a fan-out nor a fan-in by itself: at most one message.\<close>

definition argument_match_fault ::
  "redaction_env \<Rightarrow> json \<Rightarrow> json \<Rightarrow> argument_match_source \<Rightarrow> string option result" where
  "argument_match_fault env prior_schema current_schema m =
     (case map_of (schema_properties prior_schema) (prior_argument m) of
        None \<Rightarrow> Ok (Some ''Argument match references unknown prerequisite argument.'')
      | Some prior \<Rightarrow>
         (case map_of (schema_properties current_schema) (current_argument m) of
            None \<Rightarrow> Ok (Some ''Argument match references unknown current argument.'')
          | Some current \<Rightarrow>
              if JStr (prior_argument m) \<notin> set (required_properties prior_schema)
              then Ok (Some ''Prerequisite argument match source must be required.'')
              else if JStr (current_argument m) \<notin> set (required_properties current_schema)
              then Ok (Some ''Current argument match target must be required.'')
              else bind_result (property_schema_compatibility_bytes (float_repr env) prior) (\<lambda>b1.
                   bind_result (property_schema_compatibility_bytes (float_repr env) current) (\<lambda>b2.
                   Ok (if b1 \<noteq> b2 then Some ''Argument match schemas are not compatible.'' else None)))))"

fun argument_match_loop ::
  "redaction_env \<Rightarrow> string \<Rightarrow> string \<Rightarrow> json \<Rightarrow> json \<Rightarrow> (string \<times> string) list \<Rightarrow> (string \<times> string) list \<Rightarrow>
   argument_match_source list \<Rightarrow> diagnostic list result" where
  "argument_match_loop env nid pid prior_schema current_schema prior_seen current_seen [] = Ok []"
| "argument_match_loop env nid pid prior_schema current_schema prior_seen current_seen (m # ms) =
     (let flds = [(''prerequisite'', pid), (''prior_argument'', prior_argument m),
                  (''current_argument'', current_argument m)];
          report = (\<lambda>message. graph_diagnostic env ''MF-G012'' message (Some nid) [pid] flds);
          fan_out = (case map_of prior_seen (prior_argument m) of
                       Some c \<Rightarrow> c \<noteq> current_argument m | None \<Rightarrow> False);
          fan_in = (case map_of current_seen (current_argument m) of
                       Some p \<Rightarrow> p \<noteq> prior_argument m | None \<Rightarrow> False)
      in bind_result (if fan_out
             then bind_result (report ''Argument match fans out from one prerequisite argument.'') (\<lambda>d. Ok [d])
             else Ok []) (\<lambda>d1.
         bind_result (if fan_in
             then bind_result (report ''Argument match fans in to one current argument.'') (\<lambda>d. Ok [d])
             else Ok []) (\<lambda>d2.
         bind_result (argument_match_fault env prior_schema current_schema m) (\<lambda>fault.
         bind_result (case fault of None \<Rightarrow> Ok []
             | Some message \<Rightarrow> bind_result (report message) (\<lambda>d. Ok [d])) (\<lambda>d3.
         bind_result (argument_match_loop env nid pid prior_schema current_schema
             (if map_of prior_seen (prior_argument m) = None
              then dict_set prior_seen (prior_argument m) (current_argument m) else prior_seen)
             (if map_of current_seen (current_argument m) = None
              then dict_set current_seen (current_argument m) (prior_argument m) else current_seen) ms) (\<lambda>ds.
         Ok (d1 @ d2 @ d3 @ ds)))))))"

definition argument_edge_diagnostics ::
  "redaction_env \<Rightarrow> string \<Rightarrow> string \<Rightarrow> argument_match_source list \<Rightarrow> json \<Rightarrow> json \<Rightarrow>
   diagnostic list result" where
  "argument_edge_diagnostics env nid pid matches prior_schema current_schema =
     argument_match_loop env nid pid prior_schema current_schema [] []
       (sort_key (\<lambda>m. (prior_argument m, current_argument m)) matches)"

definition argument_diagnostics ::
  "redaction_env \<Rightarrow> harness_node_source list \<Rightarrow> (string \<times> harness_node_source) list \<Rightarrow>
   (string \<times> tool_catalog_entry) list \<Rightarrow> edge_pair set \<Rightarrow> diagnostic list result" where
  "argument_diagnostics env nodes by_id resolved invalid_edges =
     bind_result (traverse (\<lambda>n.
         case map_of resolved (hnode_id n) of
           None \<Rightarrow> Ok []
         | Some current \<Rightarrow>
             bind_result (traverse (\<lambda>p.
                 if (hnode_id n, prereq_node_id p) \<in> invalid_edges then Ok []
                 else case map_of resolved (prereq_node_id p) of
                     None \<Rightarrow> Ok []
                   | Some prior \<Rightarrow>
                       if prereq_node_id p \<notin> set (keys by_id) then Ok []
                       else argument_edge_diagnostics env (hnode_id n) (prereq_node_id p) (argument_matches p)
                              (td_input_schema prior) (td_input_schema current))
               (sort_key prereq_node_id (hnode_prerequisites n))) (\<lambda>dss. Ok (concat dss)))
       (sort_key hnode_id nodes)) (\<lambda>dss. Ok (concat dss))"

section \<open>The blocks of validate_harness_graph\<close>

definition edge_diagnostics ::
  "redaction_env \<Rightarrow> edge_pair set \<Rightarrow> edge_pair set \<Rightarrow> edge_pair set \<Rightarrow> edge_pair set \<Rightarrow>
   diagnostic list result" where
  "edge_diagnostics env unknown self dup term =
     bind_result (traverse (\<lambda>(n, p). graph_diagnostic env ''MF-G001''
         (''Node '' @ py_repr n @ '' references unknown prerequisite '' @ py_repr p @ ''.'')
         (Some n) [] [(''prerequisite'', p)]) (sorted_set unknown)) (\<lambda>d1.
     bind_result (traverse (\<lambda>(n, p). graph_diagnostic env ''MF-G002''
         (''Node '' @ py_repr n @ '' cannot require itself.'') (Some n) [] []) (sorted_set self)) (\<lambda>d2.
     bind_result (traverse (\<lambda>(n, p). graph_diagnostic env ''MF-G003''
         (''Node '' @ py_repr n @ '' declares duplicate prerequisite '' @ py_repr p @ ''.'')
         (Some n) [] [(''prerequisite'', p)]) (sorted_set dup)) (\<lambda>d3.
     bind_result (traverse (\<lambda>(n, p). graph_diagnostic env ''MF-G013''
         (''Terminal node '' @ py_repr p @ '' cannot be a prerequisite.'') (Some n) [p] []) (sorted_set term)) (\<lambda>d4.
     Ok (d1 @ d2 @ d3 @ d4)))))"

definition cycle_diagnostics :: "redaction_env \<Rightarrow> string list list \<Rightarrow> diagnostic list result" where
  "cycle_diagnostics env components =
     traverse (\<lambda>component. graph_diagnostic env ''MF-G004''
         (''Prerequisite cycle includes '' @ join_str '', '' component @ ''.'')
         (Some (hd component)) (tl component) []) components"

definition terminal_nodes :: "harness_node_source list \<Rightarrow> (string \<times> string) list" where
  "terminal_nodes nodes =
     map (\<lambda>n. (hnode_id n, the (hnode_terminal_result n))) (sort_key hnode_id (filter is_terminal_node nodes))"

text \<open>
  The loop over the terminal nodes: its diagnostics and the duplicated results; \<open>owners\<close> is the
  dictionary \<^verbatim>\<open>terminal_results\<close>.
\<close>

fun terminal_result_loop ::
  "redaction_env \<Rightarrow> string set option \<Rightarrow> (string \<times> string) list \<Rightarrow> (string \<times> string) list \<Rightarrow>
   (diagnostic list \<times> string set) result" where
  "terminal_result_loop env allowed owners [] = Ok ([], {})"
| "terminal_result_loop env allowed owners ((nid, res) # rest) =
     bind_result (case allowed of
         None \<Rightarrow> Ok []
       | Some results \<Rightarrow>
           if res \<notin> results
           then bind_result (graph_diagnostic env ''MF-G009''
                  (''Terminal result '' @ py_repr res @ '' is not allowed.'') (Some nid) []
                  [(''terminal_result'', res)]) (\<lambda>d. Ok [d])
           else Ok []) (\<lambda>d1.
     let (previous, owners') = (case map_of owners res of
             Some p \<Rightarrow> (p, owners) | None \<Rightarrow> (nid, dict_set owners res nid))
     in bind_result (terminal_result_loop env allowed owners' rest) (\<lambda>(ds, dups).
        Ok (d1 @ ds, (if previous \<noteq> nid then insert res dups else dups))))"

definition terminal_diagnostics ::
  "redaction_env \<Rightarrow> (string \<times> string) list \<Rightarrow> string set option \<Rightarrow> diagnostic list result" where
  "terminal_diagnostics env terminals allowed =
     bind_result (if terminals = []
       then bind_result (graph_diagnostic env ''MF-G011'' ''Graph must contain at least one terminal node.''
              None [] []) (\<lambda>d. Ok [d])
       else Ok []) (\<lambda>d1.
     bind_result (terminal_result_loop env allowed [] terminals) (\<lambda>(d2, duplicates).
     bind_result (traverse (\<lambda>res.
         let related = map fst (filter (\<lambda>t. snd t = res) terminals)
         in graph_diagnostic env ''MF-G010''
              (''Terminal result '' @ py_repr res @ '' is used by multiple nodes.'')
              (Some (hd related)) (tl related) [(''terminal_result'', res)]) (sorted_set duplicates)) (\<lambda>d3.
     bind_result (case allowed of
         None \<Rightarrow> Ok []
       | Some results \<Rightarrow>
           traverse (\<lambda>res. graph_diagnostic env ''MF-G011''
               (''Terminal result '' @ py_repr res @ '' has no terminal node.'') None []
               [(''terminal_result'', res)])
             (sorted_set (results - set (map snd terminals)))) (\<lambda>d4.
     Ok (d1 @ d2 @ d3 @ d4)))))"

definition terminal_required_diagnostics ::
  "redaction_env \<Rightarrow> harness_node_source list \<Rightarrow> diagnostic list result" where
  "terminal_required_diagnostics env nodes =
     traverse (\<lambda>n. graph_diagnostic env ''MF-G008''
         (''Terminal node '' @ py_repr (hnode_id n) @ '' cannot be required.'') (Some (hnode_id n)) [] [])
       (filter (\<lambda>n. hnode_required n \<and> is_terminal_node n) (sort_key hnode_id nodes))"

text \<open>The body of the reachability loop for one node: at most one diagnostic.\<close>

definition reachability_diagnostic ::
  "redaction_env \<Rightarrow> string set \<Rightarrow> string set \<Rightarrow> edge_pair set \<Rightarrow> string set \<Rightarrow> (string \<times> string list) list \<Rightarrow>
   string list \<Rightarrow> harness_node_source \<Rightarrow> diagnostic list result" where
  "reachability_diagnostic env cycles blocked invalid_edges sat_ids gaps required_ids n =
     (if hnode_id n \<in> cycles \<or> hnode_id n \<in> blocked \<or> has_invalid_edge invalid_edges n then Ok []
      else if hnode_id n \<notin> sat_ids
      then bind_result (graph_diagnostic env
             (if is_terminal_node n then ''MF-G006'' else if hnode_required n then ''MF-G007'' else ''MF-G005'')
             (''Node '' @ py_repr (hnode_id n) @ '' is not reachable from graph roots.'')
             (Some (hnode_id n)) [] []) (\<lambda>d. Ok [d])
      else if is_terminal_node n
      then (let missing = (case map_of gaps (hnode_id n) of None \<Rightarrow> [] | Some m \<Rightarrow> m)
            in if hnode_id n \<notin> set required_ids \<and> missing \<noteq> [] \<and> (\<forall>r \<in> set missing. r \<in> sat_ids)
                 \<and> \<not> has_invalid_edge invalid_edges n
               then bind_result (graph_diagnostic env ''MF-G006''
                      (''Terminal node '' @ py_repr (hnode_id n) @ '' is not gated by required nodes.'')
                      (Some (hnode_id n)) missing []) (\<lambda>d. Ok [d])
               else Ok [])
      else Ok [])"

definition reachability_diagnostics ::
  "redaction_env \<Rightarrow> string set \<Rightarrow> string set \<Rightarrow> edge_pair set \<Rightarrow> string set \<Rightarrow> (string \<times> string list) list \<Rightarrow>
   string list \<Rightarrow> harness_node_source list \<Rightarrow> diagnostic list result" where
  "reachability_diagnostics env cycles blocked invalid_edges sat_ids gaps required_ids nodes =
     bind_result (traverse (reachability_diagnostic env cycles blocked invalid_edges sat_ids gaps required_ids)
       (sort_key hnode_id nodes)) (\<lambda>dss. Ok (concat dss))"

definition invalid_edge_set ::
  "harness_node_source list \<Rightarrow> (string \<times> harness_node_source) list \<Rightarrow> edge_pair set" where
  "invalid_edge_set nodes by_id =
     duplicate_prerequisite_pairs nodes \<union> unknown_prerequisite_pairs nodes by_id
     \<union> self_prerequisite_pairs nodes \<union> terminal_as_prerequisite_pairs nodes by_id"

definition required_node_ids :: "harness_node_source list \<Rightarrow> string list" where
  "required_node_ids nodes = sort (map hnode_id (filter hnode_required nodes))"

definition validate_harness_graph ::
  "redaction_env \<Rightarrow> harness_source \<Rightarrow> (string \<times> resolved_value) list \<Rightarrow> string list option \<Rightarrow>
   graph_validation_result result" where
  "validate_harness_graph env source resolved_nodes allowed_terminal_results =
     (let nodes = graph_nodes (hs_graph source);
          by_id = nodes_by_id nodes;
          resolved = resolved_entries resolved_nodes;
          allowed = map_option set allowed_terminal_results;
          invalid_edges = invalid_edge_set nodes by_id;
          terminals = terminal_nodes nodes;
          required_ids = required_node_ids nodes
      in bind_result (edge_diagnostics env (unknown_prerequisite_pairs nodes by_id) (self_prerequisite_pairs nodes)
           (duplicate_prerequisite_pairs nodes) (terminal_as_prerequisite_pairs nodes by_id)) (\<lambda>d1.
         bind_result (valid_adjacency nodes invalid_edges) (\<lambda>adj.
         bind_result (cycle_nodes adj) (\<lambda>cycles.
         bind_result (cycle_components adj) (\<lambda>components.
         bind_result (cycle_diagnostics env components) (\<lambda>d2.
         bind_result (terminal_diagnostics env terminals allowed) (\<lambda>d3.
         bind_result (terminal_required_diagnostics env nodes) (\<lambda>d4.
         bind_result (satisfiable_nodes by_id adj cycles invalid_edges) (\<lambda>sat.
         bind_result (required_ancestor_gaps by_id adj (map fst terminals) required_ids) (\<lambda>gaps.
         bind_result (reachability_diagnostics env cycles (nodes_blocked_by_unresolved by_id adj resolved)
           invalid_edges sat gaps required_ids nodes) (\<lambda>d5.
         bind_result (argument_diagnostics env nodes by_id resolved invalid_edges) (\<lambda>d6.
         Ok \<lparr>gvr_diagnostics = sort_diagnostics (d1 @ d2 @ d3 @ d4 @ d5 @ d6),
             gvr_terminal_node_ids = map fst terminals,
             gvr_terminal_result_map = sort_key fst (foldl (\<lambda>d (n, r). dict_set d n r) [] terminals),
             gvr_required_node_ids = required_ids\<rparr>))))))))))))"

end
