(* ===== verification/Graph_Correct.thy ===== *)
theory Graph_Correct
  imports Graph
begin

text \<open>
  Correctness of the graph validation: what the edge sets, the adjacency dictionaries, the
  satisfiability recursion and the ancestor search compute, and from them what a validation
  without diagnostics means.
\<close>

section \<open>Dictionaries of nodes\<close>

lemma nodes_by_id_distinct:
  "distinct (map hnode_id nodes) \<Longrightarrow> nodes_by_id nodes = map (\<lambda>n. (hnode_id n, n)) nodes"
  using foldl_dict_set [of "[]" hnode_id nodes "\<lambda>n. n"] by (simp add: nodes_by_id_def)

lemma keys_nodes_by_id: "distinct (map hnode_id nodes) \<Longrightarrow> keys (nodes_by_id nodes) = map hnode_id nodes"
  by (simp add: nodes_by_id_distinct comp_def)

lemma map_of_nodes:
  "distinct (map hnode_id nodes) \<Longrightarrow> map_of (nodes_by_id nodes) i = Some n \<longleftrightarrow> n \<in> set nodes \<and> hnode_id n = i"
  by (auto simp: nodes_by_id_distinct map_of_eq_Some_iff comp_def)

section \<open>Edges\<close>

lemma prerequisite_pairs_iff:
  "(i, j) \<in> set (prerequisite_pairs nodes) \<longleftrightarrow>
     (\<exists>n \<in> set nodes. hnode_id n = i \<and> (\<exists>p \<in> set (hnode_prerequisites n). prereq_node_id p = j))"
  by (auto simp: prerequisite_pairs_def)

lemma duplicate_prerequisites_empty:
  "duplicate_prerequisites i seen ps = {} \<longleftrightarrow>
     distinct (map prereq_node_id ps) \<and> prereq_node_id ` set ps \<inter> seen = {}"
  by (induction i seen ps rule: duplicate_prerequisites.induct) auto

lemma duplicate_prerequisites_subset:
  "duplicate_prerequisites i seen ps \<subseteq> (\<lambda>p. (i, prereq_node_id p)) ` set ps"
  by (induction i seen ps rule: duplicate_prerequisites.induct) auto

lemma duplicate_pairs_empty:
  "duplicate_prerequisite_pairs nodes = {} \<longleftrightarrow>
     (\<forall>n \<in> set nodes. distinct (map prereq_node_id (hnode_prerequisites n)))"
  by (simp add: duplicate_prerequisite_pairs_def duplicate_prerequisites_empty)

lemma duplicate_pairs_subset: "duplicate_prerequisite_pairs nodes \<subseteq> set (prerequisite_pairs nodes)"
  using duplicate_prerequisites_subset
  by (fastforce simp: duplicate_prerequisite_pairs_def prerequisite_pairs_def)

lemma invalid_edge_subset: "invalid_edge_set nodes by_id \<subseteq> set (prerequisite_pairs nodes)"
  using duplicate_pairs_subset
  by (auto simp: invalid_edge_set_def unknown_prerequisite_pairs_def self_prerequisite_pairs_def
      terminal_as_prerequisite_pairs_def)

section \<open>Adjacency dictionaries\<close>

definition valid_edge :: "harness_node_source list \<Rightarrow> string \<Rightarrow> string \<Rightarrow> bool" where
  "valid_edge nodes p n \<longleftrightarrow> (n, p) \<in> set (prerequisite_pairs nodes)
     \<and> (n, p) \<notin> invalid_edge_set nodes (nodes_by_id nodes)"

lemma map_of_map_key: "map_of (map (\<lambda>i. (i, f i)) ids) i = (if i \<in> set ids then Some (f i) else None)"
  by (induction ids) auto

lemma successors_map: "successors (map (\<lambda>i. (i, f i)) ids) i = (if i \<in> set ids then f i else [])"
  by (simp add: successors_def map_of_map_key)

lemma valid_edge_nodes:
  assumes "distinct (map hnode_id nodes)" and "valid_edge nodes p n"
  shows "p \<in> hnode_id ` set nodes" and "n \<in> hnode_id ` set nodes" and "p \<noteq> n"
proof -
  have "(n, p) \<in> set (prerequisite_pairs nodes)" and ni: "(n, p) \<notin> invalid_edge_set nodes (nodes_by_id nodes)"
    using assms(2) by (auto simp: valid_edge_def)
  then have "(n, p) \<notin> unknown_prerequisite_pairs nodes (nodes_by_id nodes)" "(n, p) \<notin> self_prerequisite_pairs nodes"
    by (auto simp: invalid_edge_set_def)
  with \<open>(n, p) \<in> set (prerequisite_pairs nodes)\<close>
  show "p \<in> hnode_id ` set nodes" and "n \<in> hnode_id ` set nodes" and "p \<noteq> n"
    using assms(1)
    by (auto simp: unknown_prerequisite_pairs_def self_prerequisite_pairs_def keys_nodes_by_id prerequisite_pairs_iff)
qed

lemma valid_adjacency_spec:
  assumes "distinct (map hnode_id nodes)"
  obtains adj where "valid_adjacency nodes (invalid_edge_set nodes (nodes_by_id nodes)) = Inr adj"
    and "keys adj = map hnode_id nodes" and "\<And>p n. edge adj p n \<longleftrightarrow> valid_edge nodes p n"
    and "closed_adjacency adj"
proof -
  let ?ivs = "invalid_edge_set nodes (nodes_by_id nodes)"
  let ?valid = "filter (\<lambda>e. e \<notin> ?ivs) (prerequisite_pairs nodes)"
  let ?adj = "map (\<lambda>i. (i, sort (remdups (map fst (filter (\<lambda>e. snd e = i) ?valid))))) (map hnode_id nodes)"
  have valid: "(n, p) \<in> set ?valid \<longleftrightarrow> valid_edge nodes p n" for n p
    by (auto simp: valid_edge_def)
  have known: "snd e \<in> hnode_id ` set nodes" if "e \<in> set ?valid" for e
    using that valid [of "fst e" "snd e"] valid_edge_nodes [OF assms] by simp
  have eq: "valid_adjacency nodes ?ivs = Inr ?adj"
    using known unfolding valid_adjacency_def Let_def keys_nodes_by_id [OF assms] by auto
  have ed: "edge ?adj p n \<longleftrightarrow> valid_edge nodes p n" for p n
  proof -
    have "edge ?adj p n \<longleftrightarrow> p \<in> hnode_id ` set nodes \<and> (n, p) \<in> set ?valid"
      unfolding successors_map by (auto simp: image_iff)
    then show ?thesis using valid valid_edge_nodes [OF assms] by blast
  qed
  have k: "keys ?adj = map hnode_id nodes" by (simp add: comp_def)
  have cl: "closed_adjacency ?adj"
    unfolding closed_adjacency_def
  proof (intro allI subsetI)
    fix v w assume "w \<in> set (successors ?adj v)"
    then have "w \<in> hnode_id ` set nodes" using ed valid_edge_nodes [OF assms] by blast
    then show "w \<in> set (keys ?adj)" by (simp add: image_image)
  qed
  show ?thesis by (rule that [OF eq k ed cl])
qed

lemma valid_adjacency_props:
  assumes dist: "distinct (map hnode_id nodes)"
    and adj: "valid_adjacency nodes (invalid_edge_set nodes (nodes_by_id nodes)) = Inr adj"
  shows "keys adj = map hnode_id nodes" and "edge adj p n \<longleftrightarrow> valid_edge nodes p n"
    and "closed_adjacency adj"
proof -
  obtain a where a: "valid_adjacency nodes (invalid_edge_set nodes (nodes_by_id nodes)) = Inr a"
      "keys a = map hnode_id nodes" "\<And>p n. edge a p n \<longleftrightarrow> valid_edge nodes p n" "closed_adjacency a"
    by (rule valid_adjacency_spec [OF dist]) blast
  then have "a = adj" using adj by simp
  then show "keys adj = map hnode_id nodes" and "edge adj p n \<longleftrightarrow> valid_edge nodes p n"
    and "closed_adjacency adj" using a by blast+
qed

lemma adjacency_pairs_iff:
  assumes "distinct (keys adj)"
  shows "(d, p) \<in> set (adjacency_pairs adj) \<longleftrightarrow> edge adj p d"
proof -
  have "(d, p) \<in> set (adjacency_pairs adj) \<longleftrightarrow> (\<exists>ds. (p, ds) \<in> set adj \<and> d \<in> set ds)"
    by (auto simp: adjacency_pairs_def)
  also have "\<dots> \<longleftrightarrow> edge adj p d"
  proof
    assume "\<exists>ds. (p, ds) \<in> set adj \<and> d \<in> set ds"
    then obtain ds where ds: "(p, ds) \<in> set adj" "d \<in> set ds" by blast
    from map_of_is_SomeI [OF assms ds(1)] ds(2) show "edge adj p d" by (simp add: successors_def)
  next
    assume e: "edge adj p d"
    then obtain ds where "map_of adj p = Some ds" "d \<in> set ds"
      by (cases "map_of adj p") (auto simp: successors_def)
    then show "\<exists>ds. (p, ds) \<in> set adj \<and> d \<in> set ds" by (auto dest: map_of_SomeD)
  qed
  finally show ?thesis .
qed

lemma reverse_adjacency_spec:
  assumes dist: "distinct (map hnode_id nodes)" and keys: "keys adj = map hnode_id nodes"
    and closed: "closed_adjacency adj"
  obtains radj where "reverse_adjacency (nodes_by_id nodes) adj = Inr radj"
    and "keys radj = map hnode_id nodes" and "\<And>n p. edge radj n p \<longleftrightarrow> edge adj p n"
    and "closed_adjacency radj"
proof -
  let ?radj = "map (\<lambda>i. (i, sort (map snd (filter (\<lambda>e. fst e = i) (adjacency_pairs adj))))) (map hnode_id nodes)"
  have pairs: "(d, p) \<in> set (adjacency_pairs adj) \<longleftrightarrow> edge adj p d" for d p
    using adjacency_pairs_iff [of adj d p] dist keys by simp
  have inside: "d \<in> hnode_id ` set nodes" "p \<in> hnode_id ` set nodes" if e: "edge adj p d" for p d
  proof -
    have "d \<in> set (keys adj)" using e closed unfolding closed_adjacency_def by blast
    then show "d \<in> hnode_id ` set nodes" unfolding keys by simp
    have "p \<in> set (keys adj)"
      using e by (cases "map_of adj p") (force simp: successors_def dest: map_of_SomeD)+
    then show "p \<in> hnode_id ` set nodes" unfolding keys by simp
  qed
  have "\<not> (\<exists>e \<in> set (adjacency_pairs adj). fst e \<notin> set (map hnode_id nodes))"
    using pairs inside(1) by fastforce
  then have eq: "reverse_adjacency (nodes_by_id nodes) adj = Inr ?radj"
    unfolding reverse_adjacency_def keys_nodes_by_id [OF dist] by (simp only: if_False)
  have ed: "edge ?radj n p \<longleftrightarrow> edge adj p n" for n p
  proof -
    have "edge ?radj n p \<longleftrightarrow> n \<in> hnode_id ` set nodes \<and> (n, p) \<in> set (adjacency_pairs adj)"
      unfolding successors_map by (auto simp: image_iff)
    then show ?thesis using pairs inside(1) by blast
  qed
  have k: "keys ?radj = map hnode_id nodes" by (simp add: comp_def)
  have cl: "closed_adjacency ?radj"
    unfolding closed_adjacency_def
  proof (intro allI subsetI)
    fix v w assume "w \<in> set (successors ?radj v)"
    then have "w \<in> hnode_id ` set nodes" using ed inside(2) by blast
    then show "w \<in> set (keys ?radj)" by (simp add: image_image)
  qed
  show ?thesis by (rule that [OF eq k ed cl])
qed


section \<open>Satisfiability\<close>

text \<open>
  A node is satisfiable when no node it depends on, directly or not, and not itself, lies on a cycle
  or declares an invalid prerequisite.
\<close>

definition node_satisfiable ::
  "(string \<times> harness_node_source) list \<Rightarrow> string adjacency \<Rightarrow> string set \<Rightarrow> edge_pair set \<Rightarrow> string \<Rightarrow> bool" where
  "node_satisfiable by_id radj cycles ivs x \<longleftrightarrow>
     (\<forall>y. reaches radj x y \<longrightarrow> y \<notin> cycles \<and> (\<forall>n. map_of by_id y = Some n \<longrightarrow> \<not> has_invalid_edge ivs n))"

lemma node_satisfiable_step:
  "node_satisfiable by_id radj cycles ivs x \<longleftrightarrow>
     x \<notin> cycles \<and> (\<forall>n. map_of by_id x = Some n \<longrightarrow> \<not> has_invalid_edge ivs n)
     \<and> (\<forall>p \<in> set (successors radj x). node_satisfiable by_id radj cycles ivs p)"
proof -
  have "(\<forall>y. reaches radj x y \<longrightarrow> Q y) \<longleftrightarrow>
      Q x \<and> (\<forall>p \<in> set (successors radj x). \<forall>y. reaches radj p y \<longrightarrow> Q y)" for Q
  proof (intro iffI conjI ballI allI impI)
    fix y assume all: "Q x \<and> (\<forall>p \<in> set (successors radj x). \<forall>y. reaches radj p y \<longrightarrow> Q y)"
      and "reaches radj x y"
    from this(2) show "Q y" by (cases rule: converse_rtranclpE) (use all in auto)
  qed (auto intro: reaches_edge)
  from this [of "\<lambda>y. y \<notin> cycles \<and> (\<forall>n. map_of by_id y = Some n \<longrightarrow> \<not> has_invalid_edge ivs n)"]
  show ?thesis unfolding node_satisfiable_def by (simp only: conj_assoc)
qed

definition memo_correct ::
  "(string \<times> harness_node_source) list \<Rightarrow> string adjacency \<Rightarrow> string set \<Rightarrow> edge_pair set \<Rightarrow> memo \<Rightarrow> bool" where
  "memo_correct by_id radj cycles ivs m \<longleftrightarrow>
     (\<forall>y b. m y = Some b \<longrightarrow> b = node_satisfiable by_id radj cycles ivs y)"

lemma memo_correct_upd:
  "memo_correct by_id radj cycles ivs m \<Longrightarrow> b = node_satisfiable by_id radj cycles ivs y
   \<Longrightarrow> memo_correct by_id radj cycles ivs (m(y \<mapsto> b))"
  by (auto simp: memo_correct_def)

definition ancestor_count :: "string adjacency \<Rightarrow> string \<Rightarrow> nat" where
  "ancestor_count radj x = card {y. reaches radj x y}"

lemma reaches_in_keys:
  "closed_adjacency radj \<Longrightarrow> x \<in> set (keys radj) \<Longrightarrow> {y. reaches radj x y} \<subseteq> set (keys radj)"
  by (auto elim!: reaches_closed simp: closed_adjacency_def simp del: set_map)

lemma ancestor_count_le:
  assumes "closed_adjacency radj" and "x \<in> set (keys radj)"
  shows "ancestor_count radj x \<le> length radj"
proof -
  have "ancestor_count radj x \<le> card (set (keys radj))"
    unfolding ancestor_count_def by (rule card_mono) (simp_all only: List.finite_set reaches_in_keys [OF assms])
  also have "\<dots> \<le> length (keys radj)" by (rule card_length)
  finally show ?thesis by simp
qed

lemma ancestor_count_less:
  assumes "closed_adjacency radj" and "x \<in> set (keys radj)" and "\<not> (edge radj)\<^sup>+\<^sup>+ x x"
    and p: "edge radj x p"
  shows "ancestor_count radj p < ancestor_count radj x"
  unfolding ancestor_count_def
proof (rule psubset_card_mono)
  show "finite {y. reaches radj x y}"
    using reaches_in_keys [OF assms(1,2)] by (rule finite_subset) simp
  have "\<not> reaches radj p x" using assms(3) p by (metis rtranclp_into_tranclp2)
  moreover have "{y. reaches radj p y} \<subseteq> {y. reaches radj x y}" using p reaches_edge by fastforce
  ultimately show "{y. reaches radj p y} \<subset> {y. reaches radj x y}" by blast
qed

lemma satisfiable_total:
  "closed_adjacency radj \<Longrightarrow> set (keys radj) = set (keys by_id)
     \<Longrightarrow> (\<forall>x \<in> set (keys radj). x \<notin> cycles \<longrightarrow> \<not> (edge radj)\<^sup>+\<^sup>+ x x)
     \<Longrightarrow> x \<in> set (keys radj) \<Longrightarrow> ancestor_count radj x \<le> k \<Longrightarrow> 0 < k
     \<Longrightarrow> memo_correct by_id radj cycles ivs m
     \<Longrightarrow> \<exists>m'. satisfiable by_id radj cycles ivs k x m = Inr (node_satisfiable by_id radj cycles ivs x, m')
           \<and> memo_correct by_id radj cycles ivs m'"
  "closed_adjacency radj \<Longrightarrow> set (keys radj) = set (keys by_id)
     \<Longrightarrow> (\<forall>x \<in> set (keys radj). x \<notin> cycles \<longrightarrow> \<not> (edge radj)\<^sup>+\<^sup>+ x x)
     \<Longrightarrow> set ps \<subseteq> set (keys radj) \<Longrightarrow> (\<forall>p \<in> set ps. ancestor_count radj p \<le> k \<and> 0 < k)
     \<Longrightarrow> memo_correct by_id radj cycles ivs m
     \<Longrightarrow> \<exists>m'. all_satisfiable by_id radj cycles ivs k ps m
             = Inr (\<forall>p \<in> set ps. node_satisfiable by_id radj cycles ivs p, m')
           \<and> memo_correct by_id radj cycles ivs m'"
proof (induction by_id radj cycles ivs k x m and by_id radj cycles ivs k ps m
    rule: satisfiable_all_satisfiable.induct)
  case (2 by_id radj cycles ivs k x m)
  note step = node_satisfiable_step [of by_id radj cycles ivs x]
  obtain n where n: "map_of by_id x = Some n"
    using "2.prems"(2,4) by (metis map_of_eq_None_iff not_None_eq list.set_map)
  obtain ps where ps: "map_of radj x = Some ps"
    using "2.prems"(4) by (metis map_of_eq_None_iff not_None_eq list.set_map)
  show ?case
  proof (cases "m x")
    case (Some b)
    then show ?thesis using "2.prems"(7) by (auto simp: memo_correct_def)
  next
    case none: None
    show ?thesis
    proof (cases "x \<in> cycles \<or> has_invalid_edge ivs n")
      case True
      then have "\<not> node_satisfiable by_id radj cycles ivs x" using step n by blast
      then show ?thesis using True none n memo_correct_upd [OF "2.prems"(7), of False x] by auto
    next
      case False
      then have acyclic: "\<not> (edge radj)\<^sup>+\<^sup>+ x x" using "2.prems"(3,4) by blast
      have sub: "set ps \<subseteq> set (keys radj)"
        using "2.prems"(1) successors_some [OF ps] unfolding closed_adjacency_def by metis
      have count: "\<forall>p \<in> set ps. ancestor_count radj p \<le> k \<and> 0 < k"
      proof
        fix p assume "p \<in> set ps"
        then have "ancestor_count radj p < ancestor_count radj x"
          using ancestor_count_less [OF "2.prems"(1,4) acyclic] successors_some [OF ps] by simp
        moreover have "0 < ancestor_count radj p"
        proof -
          have "{y. reaches radj p y} \<subseteq> set (keys radj)"
            by (rule reaches_in_keys [OF "2.prems"(1)]) (use sub \<open>p \<in> set ps\<close> in blast)
          then have "finite {y. reaches radj p y}" by (rule finite_subset) simp
          then show ?thesis unfolding ancestor_count_def card_gt_0_iff by blast
        qed
        ultimately show "ancestor_count radj p \<le> k \<and> 0 < k" using "2.prems"(5) by simp
      qed
      obtain m1 where m1: "all_satisfiable by_id radj cycles ivs k ps m
            = Inr (\<forall>p \<in> set ps. node_satisfiable by_id radj cycles ivs p, m1)"
          "memo_correct by_id radj cycles ivs m1"
        using "2.IH" [OF none _ n _ ps "2.prems"(1-3) sub count "2.prems"(7)] False by blast
      have sat: "node_satisfiable by_id radj cycles ivs x
          \<longleftrightarrow> (\<forall>p \<in> set ps. node_satisfiable by_id radj cycles ivs p)"
        using step n False successors_some [OF ps] by auto
      show ?thesis
        using m1 none n ps False memo_correct_upd [OF m1(2) sat [symmetric]] sat
        by (auto simp del: fun_upd_apply)
    qed
  qed
next
  case (4 by_id radj cycles ivs k p ps m)
  obtain m1 where m1: "satisfiable by_id radj cycles ivs k p m = Inr (node_satisfiable by_id radj cycles ivs p, m1)"
      "memo_correct by_id radj cycles ivs m1"
    using "4.IH"(1) "4.prems" by auto
  show ?case
  proof (cases "node_satisfiable by_id radj cycles ivs p")
    case True
    have "set ps \<subseteq> set (keys radj)" "\<forall>p \<in> set ps. ancestor_count radj p \<le> k \<and> 0 < k"
      using "4.prems"(4,5) by auto
    then obtain m2 where "all_satisfiable by_id radj cycles ivs k ps m1
            = Inr (\<forall>p \<in> set ps. node_satisfiable by_id radj cycles ivs p, m2)"
          "memo_correct by_id radj cycles ivs m2"
      using "4.IH"(2) [OF True "4.prems"(1-3) _ _ m1(2)] by blast
    then show ?thesis using True m1 by auto
  next
    case False
    then show ?thesis using m1 by auto
  qed
qed auto

lemma satisfiable_loop_total:
  assumes "closed_adjacency radj" and "set (keys radj) = set (keys by_id)"
    and "\<forall>x \<in> set (keys radj). x \<notin> cycles \<longrightarrow> \<not> (edge radj)\<^sup>+\<^sup>+ x x"
    and "\<forall>x \<in> set (keys radj). ancestor_count radj x \<le> k" and "0 < k"
  shows "set ns \<subseteq> set (keys radj) \<Longrightarrow> memo_correct by_id radj cycles ivs m \<Longrightarrow>
    satisfiable_loop by_id radj cycles ivs k ns m = Inr (filter (node_satisfiable by_id radj cycles ivs) ns)"
proof (induction ns arbitrary: m)
  case (Cons n ns)
  then obtain m' where "satisfiable by_id radj cycles ivs k n m
        = Inr (node_satisfiable by_id radj cycles ivs n, m')" "memo_correct by_id radj cycles ivs m'"
    using satisfiable_total(1) [OF assms(1-3), of n k ivs m] assms(4,5) by auto
  then show ?case using Cons by auto
qed simp


lemma reverse_reaches:
  assumes "\<And>n p. edge radj n p \<longleftrightarrow> edge adj p n"
  shows "reaches radj x y \<longleftrightarrow> reaches adj y x"
proof -
  have "edge radj = (edge adj)\<inverse>\<inverse>" using assms by (auto simp: fun_eq_iff)
  then show ?thesis by (simp add: rtranclp_conversep)
qed

lemma reverse_tranclp:
  assumes "\<And>n p. edge radj n p \<longleftrightarrow> edge adj p n"
  shows "(edge radj)\<^sup>+\<^sup>+ x y \<longleftrightarrow> (edge adj)\<^sup>+\<^sup>+ y x"
proof -
  have "edge radj = (edge adj)\<inverse>\<inverse>" using assms by (auto simp: fun_eq_iff)
  then show ?thesis by (simp add: tranclp_converse)
qed

lemma satisfiable_nodes_spec:
  assumes dist: "distinct (map hnode_id nodes)" and keys: "keys adj = map hnode_id nodes"
    and closed: "closed_adjacency adj" and noself: "\<And>x. \<not> edge adj x x"
    and cycles: "cycles = {x \<in> set (keys adj). 1 < card (scc adj x)}"
  shows "satisfiable_nodes (nodes_by_id nodes) adj cycles ivs =
    Inr {x \<in> hnode_id ` set nodes. \<forall>y. reaches adj y x \<longrightarrow> y \<notin> cycles
           \<and> (\<forall>n \<in> set nodes. hnode_id n = y \<longrightarrow> \<not> has_invalid_edge ivs n)}"
proof -
  obtain radj where radj: "reverse_adjacency (nodes_by_id nodes) adj = Inr radj"
      "keys radj = map hnode_id nodes" "\<And>n p. edge radj n p \<longleftrightarrow> edge adj p n" "closed_adjacency radj"
    by (rule reverse_adjacency_spec [OF dist keys closed]) blast
  have ids: "keys (nodes_by_id nodes) = map hnode_id nodes" using dist by (rule keys_nodes_by_id)
  have fin: "finite (scc adj x)" if "x \<in> set (keys adj)" for x
  proof (rule finite_subset)
    show "scc adj x \<subseteq> set (keys adj)"
      using reaches_in_keys [OF closed that] by (auto simp: scc_def)
  qed simp
  have acyc: "\<forall>x \<in> set (keys radj). x \<notin> cycles \<longrightarrow> \<not> (edge radj)\<^sup>+\<^sup>+ x x"
    using scc_cycle [OF noself fin] reverse_tranclp [OF radj(3)] unfolding cycles radj(2) keys by auto
  have count: "\<forall>x \<in> set (keys radj). ancestor_count radj x \<le> Suc (length (nodes_by_id nodes))"
  proof
    fix x assume "x \<in> set (keys radj)"
    then have "ancestor_count radj x \<le> length radj" by (rule ancestor_count_le [OF radj(4)])
    also have "length radj = length (keys radj)" by simp
    also have "\<dots> = length (keys (nodes_by_id nodes))" unfolding radj(2) ids ..
    finally show "ancestor_count radj x \<le> Suc (length (nodes_by_id nodes))" by simp
  qed
  have "satisfiable_loop (nodes_by_id nodes) radj cycles ivs (Suc (length (nodes_by_id nodes)))
      (sort (keys (nodes_by_id nodes))) Map.empty
    = Inr (filter (node_satisfiable (nodes_by_id nodes) radj cycles ivs) (sort (keys (nodes_by_id nodes))))"
    by (rule satisfiable_loop_total [OF radj(4) _ acyc count])
      (simp_all add: radj(2) ids memo_correct_def)
  moreover have "node_satisfiable (nodes_by_id nodes) radj cycles ivs x \<longleftrightarrow>
      (\<forall>y. reaches adj y x \<longrightarrow> y \<notin> cycles \<and> (\<forall>n \<in> set nodes. hnode_id n = y \<longrightarrow> \<not> has_invalid_edge ivs n))" for x
    unfolding node_satisfiable_def reverse_reaches [OF radj(3)] map_of_nodes [OF dist] by blast
  ultimately show ?thesis
    unfolding satisfiable_nodes_def radj(1) by (auto simp: ids)
qed

section \<open>Ancestors of the terminal nodes\<close>

lemma reach_from_edges:
  "reach_from (successors adj) (set (successors adj x)) = {y. (edge adj)\<^sup>+\<^sup>+ x y}"
  by (auto simp: reach_from_def intro: rtranclp_into_tranclp2 dest: tranclpD)

lemma required_ancestor_gaps_spec:
  assumes dist: "distinct (map hnode_id nodes)" and keys: "keys adj = map hnode_id nodes"
    and closed: "closed_adjacency adj" and ts: "set ts \<subseteq> hnode_id ` set nodes" and tdist: "distinct ts"
  obtains gaps where "required_ancestor_gaps (nodes_by_id nodes) adj ts req = Inr gaps"
    and "\<And>t. t \<in> set ts \<Longrightarrow> (case map_of gaps t of None \<Rightarrow> [] | Some m \<Rightarrow> m)
          = sorted_set (set req - {y. (edge adj)\<^sup>+\<^sup>+ y t} - {t})"
proof -
  obtain radj where radj: "reverse_adjacency (nodes_by_id nodes) adj = Inr radj"
      "keys radj = map hnode_id nodes" "\<And>n p. edge radj n p \<longleftrightarrow> edge adj p n" "closed_adjacency radj"
    by (rule reverse_adjacency_spec [OF dist keys closed]) blast
  let ?missing = "\<lambda>t. sorted_set (set req - {y. (edge adj)\<^sup>+\<^sup>+ y t} - {t})"
  have anc: "terminal_ancestors radj t = Inr {y. (edge adj)\<^sup>+\<^sup>+ y t}" if "t \<in> set ts" for t
  proof -
    have "t \<in> set (keys radj)" using that ts radj(2) by auto
    then obtain ps where ps: "map_of radj t = Some ps"
      by (cases "map_of radj t") (auto simp: map_of_eq_None_iff)
    have sub: "set (rev ps) \<subseteq> set (keys radj)"
      using radj(4) successors_some [OF ps] unfolding closed_adjacency_def by (metis set_rev)
    have "ancestor_loop radj {} (rev ps) = Inr (reach_from (successors radj) ({} \<union> set (rev ps)))"
      by (rule ancestor_loop_reach [OF radj(4) sub]) simp
    then show ?thesis
      using reach_from_edges [of radj t] successors_some [OF ps] reverse_tranclp [OF radj(3)]
      by (simp add: terminal_ancestors_def ps)
  qed
  have "traverse (\<lambda>t. bind_result (terminal_ancestors radj t) (\<lambda>ancestors.
         Ok (t, sorted_set (set req - ancestors - {t})))) (sort ts) = Inr (map (\<lambda>t. (t, ?missing t)) (sort ts))"
    by (rule traverse_map) (simp add: anc)
  then have gaps: "required_ancestor_gaps (nodes_by_id nodes) adj ts req
      = Inr (filter (\<lambda>(t, missing). missing \<noteq> []) (map (\<lambda>t. (t, ?missing t)) (sort ts)))"
    by (simp add: required_ancestor_gaps_def radj(1))
  have "(case map_of (filter (\<lambda>(t, missing). missing \<noteq> []) (map (\<lambda>t. (t, f t)) us)) t of
      None \<Rightarrow> [] | Some m \<Rightarrow> m) = f t" if "distinct us" "t \<in> set us" for t f and us :: "string list"
    using that
  proof (induction us)
    case (Cons u us)
    have "map_of (filter (\<lambda>(t, missing). missing \<noteq> []) (map (\<lambda>t. (t, f t)) us)) u = None" if "u \<notin> set us"
      using that by (auto simp: map_of_eq_None_iff)
    then show ?case using Cons by auto
  qed simp
  from this [of "sort ts" _ ?missing] tdist show ?thesis by (intro that [OF gaps]) simp
qed

section \<open>What each block reports\<close>

lemma traverse_Nil: "traverse f xs = Inr ys \<Longrightarrow> ys = [] \<longleftrightarrow> xs = []"
  by (metis length_0_conv traverse_length)

lemma traverse_concat_Nil:
  "traverse f xs = Inr yss \<Longrightarrow> concat yss = [] \<longleftrightarrow> (\<forall>x \<in> set xs. f x = Inr [])"
  by (induction xs arbitrary: yss) (auto simp: result_simps)

lemma sorted_set_Nil: "finite S \<Longrightarrow> sorted_set S = [] \<longleftrightarrow> S = {}"
  by simp

lemma finite_edge_sets [simp]:
  "finite (duplicate_prerequisite_pairs nodes)" "finite (unknown_prerequisite_pairs nodes by_id)"
  "finite (self_prerequisite_pairs nodes)" "finite (terminal_as_prerequisite_pairs nodes by_id)"
  using finite_subset [OF duplicate_pairs_subset]
  by (auto simp: unknown_prerequisite_pairs_def self_prerequisite_pairs_def terminal_as_prerequisite_pairs_def)

lemma edge_diagnostics_Nil:
  assumes "edge_diagnostics env u s d t = Inr ds" and "finite u" "finite s" "finite d" "finite t"
  shows "ds = [] \<longleftrightarrow> u = {} \<and> s = {} \<and> d = {} \<and> t = {}"
  using assms(1) unfolding edge_diagnostics_def bind_result_Inr
  by (elim exE conjE) (drule traverse_Nil, drule traverse_Nil, drule traverse_Nil, drule traverse_Nil,
    use assms(2-) in auto)


lemma terminal_result_loop_spec:
  "terminal_result_loop env allowed owners ts = Inr (ds, dups) \<Longrightarrow> distinct (map fst ts) \<Longrightarrow>
   (\<forall>r p. map_of owners r = Some p \<longrightarrow> p \<notin> set (map fst ts)) \<Longrightarrow>
   finite dups
   \<and> (ds = [] \<longleftrightarrow> (\<forall>R. allowed = Some R \<longrightarrow> set (map snd ts) \<subseteq> R))
   \<and> (dups = {} \<longleftrightarrow> distinct (map snd ts) \<and> set (map snd ts) \<inter> dom (map_of owners) = {})"
proof (induction env allowed owners ts arbitrary: ds dups rule: terminal_result_loop.induct)
  case (2 env allowed owners nid res rest)
  define po where "po = (case map_of owners res of
             Some p \<Rightarrow> (p, owners) | None \<Rightarrow> (nid, dict_set owners res nid))"
  obtain previous owners' where po': "po = (previous, owners')" by force
  from "2.prems"(1) obtain d1 ds' dups' where
    d1: "(case allowed of None \<Rightarrow> Ok []
       | Some results \<Rightarrow>
           if res \<notin> results
           then bind_result (graph_diagnostic env ''MF-G009''
                  (''Terminal result '' @ py_repr res @ '' is not allowed.'') (Some nid) []
                  [(''terminal_result'', res)]) (\<lambda>d. Ok [d])
           else Ok []) = Inr d1"
    and loop: "terminal_result_loop env allowed owners' rest = Inr (ds', dups')"
    and ds: "ds = d1 @ ds'" and dups: "dups = (if previous \<noteq> nid then insert res dups' else dups')"
    using po' unfolding po_def [symmetric] terminal_result_loop.simps bind_result_Inr Let_def
    by (auto simp: bind_result_Inr)
  have nil: "d1 = [] \<longleftrightarrow> (\<forall>R. allowed = Some R \<longrightarrow> res \<in> R)"
    using d1 by (cases allowed) (auto simp: bind_result_Inr split: if_splits)
  have rest: "distinct (map fst rest)" using "2.prems"(2) by simp
  have owners: "\<forall>r p. map_of owners' r = Some p \<longrightarrow> p \<notin> set (map fst rest)"
  proof (intro allI impI)
    fix r p assume "map_of owners' r = Some p"
    then have "p = nid \<or> map_of owners r = Some p"
      using po' unfolding po_def by (auto split: option.splits if_splits)
    then show "p \<notin> set (map fst rest)" using "2.prems"(2,3) by auto
  qed
  note IH = "2.IH" [OF po_def [symmetric, THEN trans, OF po', symmetric] refl loop rest owners]
  have fin: "finite dups" using IH dups by (auto split: if_splits)
  have nil2: "ds = [] \<longleftrightarrow> (\<forall>R. allowed = Some R \<longrightarrow> set (map snd ((nid, res) # rest)) \<subseteq> R)"
  proof -
    have "ds' = [] \<longleftrightarrow> (\<forall>R. allowed = Some R \<longrightarrow> set (map snd rest) \<subseteq> R)" using IH by blast
    then show ?thesis unfolding ds append_is_Nil_conv nil by (cases allowed) auto
  qed
  have IHd: "dups' = {} \<longleftrightarrow> distinct (map snd rest) \<and> set (map snd rest) \<inter> dom (map_of owners') = {}"
    using IH by blast
  have "dups = {} \<longleftrightarrow> distinct (map snd ((nid, res) # rest))
      \<and> set (map snd ((nid, res) # rest)) \<inter> dom (map_of owners) = {}"
  proof (cases "map_of owners res")
    case None
    then have p: "previous = nid" and o: "dom (map_of owners') = insert res (dom (map_of owners))"
      using po' by (auto simp: po_def)
    have "res \<notin> dom (map_of owners)" using None by auto
    then show ?thesis using p IHd unfolding dups o by auto
  next
    case (Some p)
    then have "previous \<noteq> nid" using po' "2.prems"(3) by (auto simp: po_def)
    then show ?thesis using dups Some by auto
  qed
  then show ?case using fin nil2 by blast
qed auto

lemma terminal_diagnostics_Nil:
  assumes ds: "terminal_diagnostics env ts allowed = Inr ds" and dist: "distinct (map fst ts)"
    and fin: "\<And>R. allowed = Some R \<Longrightarrow> finite R"
  shows "ds = [] \<longleftrightarrow> ts \<noteq> [] \<and> distinct (map snd ts) \<and> (\<forall>R. allowed = Some R \<longrightarrow> R = set (map snd ts))"
proof -
  obtain d1 d2 dups d3 d4 where
    d1: "(if ts = []
       then bind_result (graph_diagnostic env ''MF-G011'' ''Graph must contain at least one terminal node.''
              None [] []) (\<lambda>d. Ok [d])
       else Ok []) = Inr d1" and
    d2: "terminal_result_loop env allowed [] ts = Inr (d2, dups)" and
    d3: "traverse (\<lambda>res.
         let related = map fst (filter (\<lambda>t. snd t = res) ts)
         in graph_diagnostic env ''MF-G010''
              (''Terminal result '' @ py_repr res @ '' is used by multiple nodes.'')
              (Some (hd related)) (tl related) [(''terminal_result'', res)]) (sorted_set dups) = Inr d3" and
    d4: "(case allowed of
         None \<Rightarrow> Ok []
       | Some results \<Rightarrow>
           traverse (\<lambda>res. graph_diagnostic env ''MF-G011''
               (''Terminal result '' @ py_repr res @ '' has no terminal node.'') None []
               [(''terminal_result'', res)])
             (sorted_set (results - set (map snd ts)))) = Inr d4" and
    all: "ds = d1 @ d2 @ d3 @ d4"
    using ds unfolding terminal_diagnostics_def bind_result_Inr
    by (elim exE conjE, simp only: split_paired_all prod.case bind_result_Inr sum.inject)
      (elim exE conjE, blast)
  have "d1 = [] \<longleftrightarrow> ts \<noteq> []" using d1 by (auto simp: bind_result_Inr split: if_splits)
  moreover have "finite dups \<and> (d2 = [] \<longleftrightarrow> (\<forall>R. allowed = Some R \<longrightarrow> set (map snd ts) \<subseteq> R))
     \<and> (dups = {} \<longleftrightarrow> distinct (map snd ts))"
    using terminal_result_loop_spec [OF d2 dist] by simp
  moreover have "d3 = [] \<longleftrightarrow> dups = {}"
    using traverse_Nil [OF d3] calculation(2) by simp
  moreover have "d4 = [] \<longleftrightarrow> (\<forall>R. allowed = Some R \<longrightarrow> R \<subseteq> set (map snd ts))"
  proof (cases allowed)
    case (Some R)
    from d4 have "d4 = [] \<longleftrightarrow> sorted_set (R - set (map snd ts)) = []"
      unfolding Some option.case by (rule traverse_Nil)
    then show ?thesis using Some fin by auto
  qed (use d4 in simp)
  moreover have "(\<forall>R. allowed = Some R \<longrightarrow> R = set (map snd ts)) \<longleftrightarrow>
      (\<forall>R. allowed = Some R \<longrightarrow> set (map snd ts) \<subseteq> R) \<and> (\<forall>R. allowed = Some R \<longrightarrow> R \<subseteq> set (map snd ts))"
    by blast
  ultimately show ?thesis unfolding all append_is_Nil_conv by blast
qed

lemma cycle_diagnostics_Nil:
  assumes closed: "closed_adjacency adj" and noself: "\<And>x. \<not> edge adj x x"
    and comps: "cycle_components adj = Inr cs" and ds: "cycle_diagnostics env cs = Inr ds"
  shows "ds = [] \<longleftrightarrow> (\<forall>x. \<not> (edge adj)\<^sup>+\<^sup>+ x x)"
proof -
  have "set cs = {sorted_list_of_set (scc adj x) | x. x \<in> set (keys adj) \<and> 1 < card (scc adj x)}"
    using cycle_components_correct [OF closed] comps by auto
  then have "cs = [] \<longleftrightarrow> (\<forall>x \<in> set (keys adj). \<not> 1 < card (scc adj x))" by (auto simp flip: set_empty)
  moreover have "1 < card (scc adj x) \<longleftrightarrow> (edge adj)\<^sup>+\<^sup>+ x x" if "x \<in> set (keys adj)" for x
  proof (rule scc_cycle [OF noself])
    have "scc adj x \<subseteq> set (keys adj)" using reaches_in_keys [OF closed that] by (auto simp: scc_def)
    then show "finite (scc adj x)" by (rule finite_subset) simp
  qed
  moreover have "x \<in> set (keys adj)" if "(edge adj)\<^sup>+\<^sup>+ x x" for x
  proof -
    from that have "\<exists>y. edge adj y x" by (cases rule: tranclp.cases) auto
    then show ?thesis using closed unfolding closed_adjacency_def by blast
  qed
  ultimately have "cs = [] \<longleftrightarrow> (\<forall>x. \<not> (edge adj)\<^sup>+\<^sup>+ x x)" by blast
  then show ?thesis using traverse_Nil [OF ds [unfolded cycle_diagnostics_def]] by simp
qed


section \<open>Argument matches\<close>

definition match_compatible ::
  "redaction_env \<Rightarrow> json \<Rightarrow> json \<Rightarrow> argument_match_source \<Rightarrow> bool" where
  "match_compatible env prior_schema current_schema m \<longleftrightarrow>
     JStr (prior_argument m) \<in> set (required_properties prior_schema)
     \<and> JStr (current_argument m) \<in> set (required_properties current_schema)
     \<and> (\<exists>prior current bytes. map_of (schema_properties prior_schema) (prior_argument m) = Some prior
          \<and> map_of (schema_properties current_schema) (current_argument m) = Some current
          \<and> property_schema_compatibility_bytes (float_repr env) prior = Inr bytes
          \<and> property_schema_compatibility_bytes (float_repr env) current = Inr bytes)"

lemma argument_match_fault_None:
  "argument_match_fault env ps cs m = Inr None \<longleftrightarrow> match_compatible env ps cs m"
  by (auto simp: argument_match_fault_def match_compatible_def bind_result_Inr split: option.splits)

lemma argument_match_loop_Nil:
  "argument_match_loop env nid pid ps cs prior_seen current_seen ms = Inr ds \<Longrightarrow>
   distinct (map prior_argument ms) \<Longrightarrow> distinct (map current_argument ms) \<Longrightarrow>
   set (map prior_argument ms) \<inter> set (keys prior_seen) = {} \<Longrightarrow>
   set (map current_argument ms) \<inter> set (keys current_seen) = {} \<Longrightarrow>
   ds = [] \<longleftrightarrow> (\<forall>m \<in> set ms. match_compatible env ps cs m)"
proof (induction env nid pid ps cs prior_seen current_seen ms arbitrary: ds rule: argument_match_loop.induct)
  case (2 env nid pid ps cs prior_seen current_seen m ms)
  have seen: "map_of prior_seen (prior_argument m) = None" "map_of current_seen (current_argument m) = None"
    using "2.prems"(4,5) by (auto simp: map_of_eq_None_iff)
  from "2.prems"(1) seen obtain fault d3 rest where
    f: "argument_match_fault env ps cs m = Inr fault" and
    d3: "(case fault of None \<Rightarrow> Ok []
             | Some message \<Rightarrow> bind_result (graph_diagnostic env ''MF-G012'' message (Some nid) [pid]
                 [(''prerequisite'', pid), (''prior_argument'', prior_argument m),
                  (''current_argument'', current_argument m)]) (\<lambda>d. Ok [d])) = Inr d3" and
    loop: "argument_match_loop env nid pid ps cs (dict_set prior_seen (prior_argument m) (current_argument m))
        (dict_set current_seen (current_argument m) (prior_argument m)) ms = Inr rest" and
    ds: "ds = d3 @ rest"
    by (auto simp: Let_def bind_result_Inr)
  have "rest = [] \<longleftrightarrow> (\<forall>m \<in> set ms. match_compatible env ps cs m)"
  proof (rule "2.IH" [OF refl refl refl refl])
    show "argument_match_loop env nid pid ps cs
        (if map_of prior_seen (prior_argument m) = None
         then dict_set prior_seen (prior_argument m) (current_argument m) else prior_seen)
        (if map_of current_seen (current_argument m) = None
         then dict_set current_seen (current_argument m) (prior_argument m) else current_seen) ms = Inr rest"
      using loop seen by simp
  qed (use "2.prems" seen in auto)
  moreover have "d3 = [] \<longleftrightarrow> match_compatible env ps cs m"
    using d3 f argument_match_fault_None [of env ps cs m] by (cases fault) (auto simp: bind_result_Inr)
  ultimately show ?case using ds by auto
qed simp

lemma argument_edge_diagnostics_Nil:
  assumes "argument_edge_diagnostics env nid pid ms ps cs = Inr ds"
    and "distinct (map prior_argument ms)" and "distinct (map current_argument ms)"
  shows "ds = [] \<longleftrightarrow> (\<forall>m \<in> set ms. match_compatible env ps cs m)"
proof -
  let ?ms = "sort_key (\<lambda>m. (prior_argument m, current_argument m)) ms"
  have "distinct (map prior_argument ?ms)" "distinct (map current_argument ?ms)"
    using assms(2,3) by (simp_all only: distinct_map_sort_key)
  from argument_match_loop_Nil [OF assms(1) [unfolded argument_edge_diagnostics_def] this] show ?thesis by simp
qed


section \<open>What a validation without diagnostics means\<close>

definition depends :: "harness_node_source list \<Rightarrow> string \<Rightarrow> string \<Rightarrow> bool" where
  "depends nodes n p \<longleftrightarrow> (n, p) \<in> set (prerequisite_pairs nodes)"

definition prerequisites_sound :: "harness_node_source list \<Rightarrow> bool" where
  "prerequisites_sound nodes \<longleftrightarrow>
     (\<forall>n \<in> set nodes. distinct (map prereq_node_id (hnode_prerequisites n))
        \<and> (\<forall>p \<in> set (hnode_prerequisites n). prereq_node_id p \<noteq> hnode_id n
             \<and> (\<exists>m \<in> set nodes. hnode_id m = prereq_node_id p \<and> hnode_terminal_result m = None)))"

definition terminals_sound :: "harness_node_source list \<Rightarrow> string list option \<Rightarrow> bool" where
  "terminals_sound nodes allowed \<longleftrightarrow>
     (let results = map (\<lambda>n. the (hnode_terminal_result n)) (filter is_terminal_node nodes)
      in results \<noteq> [] \<and> distinct results \<and> (\<forall>rs. allowed = Some rs \<longrightarrow> set rs = set results))"

definition terminals_gated :: "harness_node_source list \<Rightarrow> bool" where
  "terminals_gated nodes \<longleftrightarrow>
     (\<forall>t \<in> set nodes. is_terminal_node t \<longrightarrow>
        \<not> hnode_required t
        \<and> (\<forall>m \<in> set nodes. hnode_required m \<longrightarrow> (depends nodes)\<^sup>+\<^sup>+ (hnode_id t) (hnode_id m)))"

definition arguments_compatible ::
  "redaction_env \<Rightarrow> harness_node_source list \<Rightarrow> (string \<times> tool_catalog_entry) list \<Rightarrow> bool" where
  "arguments_compatible env nodes resolved \<longleftrightarrow>
     (\<forall>n \<in> set nodes. \<forall>p \<in> set (hnode_prerequisites n). \<forall>m \<in> set (argument_matches p).
        \<forall>current prior. map_of resolved (hnode_id n) = Some current \<longrightarrow>
          map_of resolved (prereq_node_id p) = Some prior \<longrightarrow>
          match_compatible env (td_input_schema prior) (td_input_schema current) m)"

lemma invalid_edges_empty:
  assumes dist: "distinct (map hnode_id nodes)"
  shows "invalid_edge_set nodes (nodes_by_id nodes) = {} \<longleftrightarrow> prerequisites_sound nodes"
proof -
  have unknown: "unknown_prerequisite_pairs nodes (nodes_by_id nodes) = {} \<longleftrightarrow>
      (\<forall>n \<in> set nodes. \<forall>p \<in> set (hnode_prerequisites n). \<exists>m \<in> set nodes. hnode_id m = prereq_node_id p)"
    by (auto simp: unknown_prerequisite_pairs_def prerequisite_pairs_def keys_nodes_by_id [OF dist]
        filter_empty_conv image_iff) (metis)+
  have self: "self_prerequisite_pairs nodes = {} \<longleftrightarrow>
      (\<forall>n \<in> set nodes. \<forall>p \<in> set (hnode_prerequisites n). prereq_node_id p \<noteq> hnode_id n)"
    unfolding self_prerequisite_pairs_def set_empty filter_empty_conv
    by (force simp: prerequisite_pairs_def)
  have terminal: "terminal_as_prerequisite_pairs nodes (nodes_by_id nodes) = {} \<longleftrightarrow>
      (\<forall>n \<in> set nodes. \<forall>p \<in> set (hnode_prerequisites n). \<forall>m \<in> set nodes.
         hnode_id m = prereq_node_id p \<longrightarrow> hnode_terminal_result m = None)"
    by (auto simp: terminal_as_prerequisite_pairs_def prerequisite_pairs_def filter_empty_conv
        map_of_nodes [OF dist] split: option.splits)
  have uniq: "m = m'" if "m \<in> set nodes" "m' \<in> set nodes" "hnode_id m = hnode_id m'" for m m'
    using dist that by (simp add: distinct_map inj_on_def)
  have split: "(\<exists>m \<in> set nodes. hnode_id m = j \<and> hnode_terminal_result m = None) \<longleftrightarrow>
      (\<exists>m \<in> set nodes. hnode_id m = j)
      \<and> (\<forall>m \<in> set nodes. hnode_id m = j \<longrightarrow> hnode_terminal_result m = None)" for j
    using uniq by blast
  show ?thesis
    unfolding invalid_edge_set_def prerequisites_sound_def Un_empty duplicate_pairs_empty unknown self
      terminal split by blast
qed

lemma terminal_nodes_props:
  assumes "distinct (map hnode_id nodes)"
  shows "distinct (map fst (terminal_nodes nodes))"
    and "map fst (terminal_nodes nodes) = map hnode_id (sort_key hnode_id (filter is_terminal_node nodes))"
    and "distinct (map snd (terminal_nodes nodes)) \<longleftrightarrow>
      distinct (map (\<lambda>n. the (hnode_terminal_result n)) (filter is_terminal_node nodes))"
    and "set (map snd (terminal_nodes nodes)) = (\<lambda>n. the (hnode_terminal_result n)) ` set (filter is_terminal_node nodes)"
    and "terminal_nodes nodes = [] \<longleftrightarrow> filter is_terminal_node nodes = []"
proof -
  have map: "map fst (terminal_nodes nodes) = map hnode_id (sort_key hnode_id (filter is_terminal_node nodes))"
    "map snd (terminal_nodes nodes)
       = map (\<lambda>n. the (hnode_terminal_result n)) (sort_key hnode_id (filter is_terminal_node nodes))"
    by (simp_all add: terminal_nodes_def comp_def)
  show "map fst (terminal_nodes nodes) = map hnode_id (sort_key hnode_id (filter is_terminal_node nodes))"
    by (rule map)
  show "distinct (map fst (terminal_nodes nodes))"
    unfolding map distinct_map_sort_key using assms by (simp add: distinct_map_filter)
  show "distinct (map snd (terminal_nodes nodes)) \<longleftrightarrow>
      distinct (map (\<lambda>n. the (hnode_terminal_result n)) (filter is_terminal_node nodes))"
    unfolding map distinct_map_sort_key ..
  show "set (map snd (terminal_nodes nodes)) = (\<lambda>n. the (hnode_terminal_result n)) ` set (filter is_terminal_node nodes)"
    unfolding map by simp
  show "terminal_nodes nodes = [] \<longleftrightarrow> filter is_terminal_node nodes = []"
    by (simp add: terminal_nodes_def)
qed

lemma reachability_Nil:
  assumes ds: "reachability_diagnostics env {} {} {} sat gaps req nodes = Inr ds"
    and sat: "hnode_id ` set nodes \<subseteq> sat" and req: "set req \<subseteq> sat"
    and notreq: "\<And>n. n \<in> set nodes \<Longrightarrow> is_terminal_node n \<Longrightarrow> hnode_id n \<notin> set req"
    and gaps: "\<And>n. n \<in> set nodes \<Longrightarrow> is_terminal_node n \<Longrightarrow>
       (case map_of gaps (hnode_id n) of None \<Rightarrow> [] | Some m \<Rightarrow> m) = sorted_set (missing n)"
    and missing: "\<And>n. missing n \<subseteq> set req"
  shows "ds = [] \<longleftrightarrow> (\<forall>n \<in> set nodes. is_terminal_node n \<longrightarrow> missing n = {})"
proof -
  obtain dss where t: "traverse (reachability_diagnostic env {} {} {} sat gaps req) (sort_key hnode_id nodes) = Inr dss"
      "ds = concat dss"
    using ds by (auto simp: reachability_diagnostics_def bind_result_Inr)
  have "reachability_diagnostic env {} {} {} sat gaps req n = Inr [] \<longleftrightarrow>
      (is_terminal_node n \<longrightarrow> missing n = {})" if n: "n \<in> set nodes" for n
  proof (cases "is_terminal_node n")
    case True
    have fin: "finite (missing n)" using missing [of n] by (rule finite_subset) simp
    have "\<forall>r \<in> set (sorted_set (missing n)). r \<in> sat" using missing [of n] req fin by auto
    then show ?thesis
      using True n sat notreq [OF n True] gaps [OF n True] fin
      by (auto simp: reachability_diagnostic_def has_invalid_edge_def Let_def bind_result_Inr)
  next
    case False
    then show ?thesis using n sat by (auto simp: reachability_diagnostic_def has_invalid_edge_def)
  qed
  then show ?thesis using traverse_concat_Nil [OF t(1)] t(2) by auto
qed


lemma argument_diagnostics_Nil:
  assumes ds: "argument_diagnostics env nodes (nodes_by_id nodes) resolved {} = Inr ds"
    and dist: "distinct (map hnode_id nodes)"
    and known: "\<And>n p. n \<in> set nodes \<Longrightarrow> p \<in> set (hnode_prerequisites n) \<Longrightarrow> prereq_node_id p \<in> hnode_id ` set nodes"
    and wf: "\<And>n p. n \<in> set nodes \<Longrightarrow> p \<in> set (hnode_prerequisites n) \<Longrightarrow> wf_prerequisite p"
  shows "ds = [] \<longleftrightarrow> arguments_compatible env nodes resolved"
proof -
  define edge_ds where "edge_ds = (\<lambda>(n :: harness_node_source) (current :: tool_catalog_entry) (p :: prerequisite_source).
                 if (hnode_id n, prereq_node_id p) \<in> ({} :: edge_pair set) then Ok []
                 else case map_of resolved (prereq_node_id p) of
                     None \<Rightarrow> Ok []
                   | Some prior \<Rightarrow>
                       if prereq_node_id p \<notin> set (keys (nodes_by_id nodes)) then Ok []
                       else argument_edge_diagnostics env (hnode_id n) (prereq_node_id p) (argument_matches p)
                              (td_input_schema prior) (td_input_schema current))"
  define node_ds where "node_ds = (\<lambda>n. case map_of resolved (hnode_id n) of
           None \<Rightarrow> Ok []
         | Some current \<Rightarrow>
             bind_result (traverse (edge_ds n current) (sort_key prereq_node_id (hnode_prerequisites n))) (\<lambda>dss.
             Ok (concat dss)))"
  obtain dss where t: "traverse node_ds (sort_key hnode_id nodes) = Inr dss" "ds = concat dss"
    using ds unfolding argument_diagnostics_def node_ds_def edge_ds_def bind_result_Inr by auto
  have edge: "eds = [] \<longleftrightarrow> (\<forall>prior. map_of resolved (prereq_node_id p) = Some prior \<longrightarrow>
        (\<forall>m \<in> set (argument_matches p). match_compatible env (td_input_schema prior) (td_input_schema current) m))"
    if n: "n \<in> set nodes" and p: "p \<in> set (hnode_prerequisites n)" and e: "edge_ds n current p = Inr eds"
    for n p current eds
  proof (cases "map_of resolved (prereq_node_id p)")
    case None
    then show ?thesis using e by (simp add: edge_ds_def)
  next
    case (Some prior)
    have "prereq_node_id p \<in> set (keys (nodes_by_id nodes))"
      using known [OF n p] by (simp add: keys_nodes_by_id [OF dist])
    then have "argument_edge_diagnostics env (hnode_id n) (prereq_node_id p) (argument_matches p)
        (td_input_schema prior) (td_input_schema current) = Inr eds"
      using e Some by (simp add: edge_ds_def)
    then show ?thesis
      using wf [OF n p] Some by (simp add: argument_edge_diagnostics_Nil wf_prerequisite_def)
  qed
  have node: "node_ds n = Inr [] \<longleftrightarrow> (\<forall>p \<in> set (hnode_prerequisites n). \<forall>m \<in> set (argument_matches p).
        \<forall>current prior. map_of resolved (hnode_id n) = Some current \<longrightarrow>
          map_of resolved (prereq_node_id p) = Some prior \<longrightarrow>
          match_compatible env (td_input_schema prior) (td_input_schema current) m)"
    if n: "n \<in> set nodes" for n
  proof (cases "map_of resolved (hnode_id n)")
    case None
    then show ?thesis by (simp add: node_ds_def)
  next
    case (Some current)
    obtain nds where "node_ds n = Inr nds"
      using traverse_set [OF t(1)] n by auto
    then obtain edss where edss: "traverse (edge_ds n current) (sort_key prereq_node_id (hnode_prerequisites n)) = Inr edss"
        "node_ds n = Inr (concat edss)"
      using Some by (auto simp: node_ds_def bind_result_Inr)
    have ok: "\<exists>eds. edge_ds n current p = Inr eds" if "p \<in> set (hnode_prerequisites n)" for p
      using traverse_set [OF edss(1)] that by auto
    have "concat edss = [] \<longleftrightarrow> (\<forall>p \<in> set (hnode_prerequisites n). edge_ds n current p = Inr [])"
      using traverse_concat_Nil [OF edss(1)] by simp
    also have "\<dots> \<longleftrightarrow> (\<forall>p \<in> set (hnode_prerequisites n). \<forall>prior. map_of resolved (prereq_node_id p) = Some prior \<longrightarrow>
        (\<forall>m \<in> set (argument_matches p). match_compatible env (td_input_schema prior) (td_input_schema current) m))"
      using edge [OF n] ok by (intro ball_cong refl) (metis sum.inject(2))
    finally show ?thesis using edss(2) Some by auto
  qed
  show ?thesis
    using traverse_concat_Nil [OF t(1)] t(2) node by (simp add: arguments_compatible_def)
qed

text \<open>
  On an acyclic graph with sound edges and all nodes resolved, the reachability block reports
  nothing exactly when every terminal node depends on every required one.
\<close>

lemma gating_exact:
  assumes dist: "distinct (map hnode_id nodes)"
    and keys: "keys adj = map hnode_id nodes" and closed: "closed_adjacency adj"
    and edge: "\<And>p n. edge adj p n \<longleftrightarrow> depends nodes n p" and noself: "\<And>x. \<not> edge adj x x"
    and acyclic: "\<forall>i. \<not> (depends nodes)\<^sup>+\<^sup>+ i i"
    and nr: "\<forall>n \<in> set nodes. is_terminal_node n \<longrightarrow> \<not> hnode_required n"
    and res: "hnode_id ` set nodes \<subseteq> set (keys resolved)"
    and cycles: "cycle_nodes adj = Inr cycles"
    and sat: "satisfiable_nodes (nodes_by_id nodes) adj cycles {} = Inr sat"
    and gaps: "required_ancestor_gaps (nodes_by_id nodes) adj (map fst (terminal_nodes nodes))
         (required_node_ids nodes) = Inr gaps"
    and d5: "reachability_diagnostics env cycles (nodes_blocked_by_unresolved (nodes_by_id nodes) adj resolved)
         {} sat gaps (required_node_ids nodes) nodes = Inr d5"
  shows "d5 = [] \<longleftrightarrow> terminals_gated nodes"
proof -
  have plus: "(edge adj)\<^sup>+\<^sup>+ p n \<longleftrightarrow> (depends nodes)\<^sup>+\<^sup>+ n p" for p n
  proof -
    have "edge adj = (depends nodes)\<inverse>\<inverse>" using edge by (auto simp: fun_eq_iff)
    then show ?thesis by (simp add: tranclp_converse)
  qed
  have cyc: "cycles = {x \<in> set (keys adj). 1 < card (scc adj x)}"
    using cycles cycle_nodes_correct [OF closed] by simp
  have fin: "finite (scc adj x)" if "x \<in> set (keys adj)" for x
  proof (rule finite_subset)
    show "scc adj x \<subseteq> set (keys adj)" using reaches_in_keys [OF closed that] by (auto simp: scc_def)
  qed simp
  have cyc0: "cycles = {}"
    using scc_cycle [OF noself fin] acyclic plus unfolding cyc by blast
  have sat': "sat = hnode_id ` set nodes"
    using satisfiable_nodes_spec [OF dist keys closed noself cyc, of "{}"] sat
    unfolding cyc0 has_invalid_edge_def by simp
  have blocked: "nodes_blocked_by_unresolved (nodes_by_id nodes) adj resolved = {}"
  proof -
    have "set (keys (nodes_by_id nodes)) - set (keys resolved) = {}"
      using res unfolding keys_nodes_by_id [OF dist] by auto
    then show ?thesis by (simp add: nodes_blocked_by_unresolved_def)
  qed
  let ?missing = "\<lambda>n. set (required_node_ids nodes) - {y. (edge adj)\<^sup>+\<^sup>+ y (hnode_id n)} - {hnode_id n}"
  have ts: "set (map fst (terminal_nodes nodes)) \<subseteq> hnode_id ` set nodes"
    unfolding terminal_nodes_props(2) [OF dist] by auto
  obtain gs where gs: "required_ancestor_gaps (nodes_by_id nodes) adj (map fst (terminal_nodes nodes)) (required_node_ids nodes) = Inr gs"
    "\<And>t. t \<in> set (map fst (terminal_nodes nodes)) \<Longrightarrow> (case map_of gs t of None \<Rightarrow> [] | Some m \<Rightarrow> m)
      = sorted_set (set (required_node_ids nodes) - {y. (edge adj)\<^sup>+\<^sup>+ y t} - {t})"
    using required_ancestor_gaps_spec [OF dist keys closed ts terminal_nodes_props(1) [OF dist]]
    by blast
  have gap: "(case map_of gaps (hnode_id n) of None \<Rightarrow> [] | Some m \<Rightarrow> m) = sorted_set (?missing n)"
    if "n \<in> set nodes" "is_terminal_node n" for n
  proof -
    have "hnode_id n \<in> set (map fst (terminal_nodes nodes))"
      unfolding terminal_nodes_props(2) [OF dist] using that by simp
    then show ?thesis using gs gaps by simp
  qed
  have uniq: "m = m'" if "m \<in> set nodes" "m' \<in> set nodes" "hnode_id m = hnode_id m'" for m m'
    using dist that by (simp add: distinct_map inj_on_def)
  have reqs: "i \<in> set (required_node_ids nodes) \<longleftrightarrow> (\<exists>m \<in> set nodes. hnode_required m \<and> hnode_id m = i)" for i
    by (auto simp: required_node_ids_def)
  have nreq: "hnode_id n \<notin> set (required_node_ids nodes)" if "n \<in> set nodes" "is_terminal_node n" for n
    using that nr uniq unfolding reqs by blast
  have "d5 = [] \<longleftrightarrow> (\<forall>n \<in> set nodes. is_terminal_node n \<longrightarrow> ?missing n = {})"
  proof (rule reachability_Nil [OF d5 [unfolded cyc0 blocked] _ _ nreq gap])
    show "hnode_id ` set nodes \<subseteq> sat" using sat' by simp
    show "set (required_node_ids nodes) \<subseteq> sat" using sat' by (auto simp: required_node_ids_def)
  qed auto
  also have "\<dots> \<longleftrightarrow> terminals_gated nodes"
  proof -
    have "?missing n = {} \<longleftrightarrow> (\<forall>m \<in> set nodes. hnode_required m \<longrightarrow> (depends nodes)\<^sup>+\<^sup>+ (hnode_id n) (hnode_id m))"
      if "n \<in> set nodes" "is_terminal_node n" for n
    proof -
      have "?missing n = {} \<longleftrightarrow>
          (\<forall>i \<in> set (required_node_ids nodes). (depends nodes)\<^sup>+\<^sup>+ (hnode_id n) i)"
        using nreq [OF that] unfolding plus by blast
      moreover have "set (required_node_ids nodes) = hnode_id ` {m \<in> set nodes. hnode_required m}"
        by (auto simp: required_node_ids_def)
      then have "(\<forall>i \<in> set (required_node_ids nodes). Q i) \<longleftrightarrow>
          (\<forall>m \<in> set nodes. hnode_required m \<longrightarrow> Q (hnode_id m))" for Q
        by simp blast
      ultimately show ?thesis by (rule trans)
    qed
    then show ?thesis using nr unfolding terminals_gated_def by blast
  qed
  finally show ?thesis .
qed

lemma graph_validation_exact:
  assumes wf: "wf_harness_graph (hs_graph source)"
    and res: "hnode_id ` set (graph_nodes (hs_graph source)) \<subseteq> fst ` set resolved_nodes"
    and run: "validate_harness_graph env source resolved_nodes allowed = Inr r"
  shows "gvr_ok r \<longleftrightarrow> prerequisites_sound (graph_nodes (hs_graph source))
     \<and> (\<forall>i. \<not> (depends (graph_nodes (hs_graph source)))\<^sup>+\<^sup>+ i i)
     \<and> terminals_sound (graph_nodes (hs_graph source)) allowed
     \<and> terminals_gated (graph_nodes (hs_graph source))
     \<and> arguments_compatible env (graph_nodes (hs_graph source)) (resolved_entries resolved_nodes)"
proof -
  define nodes where "nodes = graph_nodes (hs_graph source)"
  define by_id where "by_id = nodes_by_id nodes"
  define ivs where "ivs = invalid_edge_set nodes by_id"
  define resolved where "resolved = resolved_entries resolved_nodes"
  have dist: "distinct (map hnode_id nodes)" using wf by (simp add: wf_harness_graph_def nodes_def)
  obtain d1 adj cycles components d2 d3 d4 sat gaps d5 d6 where
    d1: "edge_diagnostics env (unknown_prerequisite_pairs nodes by_id) (self_prerequisite_pairs nodes)
           (duplicate_prerequisite_pairs nodes) (terminal_as_prerequisite_pairs nodes by_id) = Inr d1" and
    adj: "valid_adjacency nodes ivs = Inr adj" and
    cycles: "cycle_nodes adj = Inr cycles" and
    components: "cycle_components adj = Inr components" and
    d2: "cycle_diagnostics env components = Inr d2" and
    d3: "terminal_diagnostics env (terminal_nodes nodes) (map_option set allowed) = Inr d3" and
    d4: "terminal_required_diagnostics env nodes = Inr d4" and
    sat: "satisfiable_nodes by_id adj cycles ivs = Inr sat" and
    gaps: "required_ancestor_gaps by_id adj (map fst (terminal_nodes nodes)) (required_node_ids nodes) = Inr gaps" and
    d5: "reachability_diagnostics env cycles (nodes_blocked_by_unresolved by_id adj resolved)
           ivs sat gaps (required_node_ids nodes) nodes = Inr d5" and
    d6: "argument_diagnostics env nodes by_id resolved ivs = Inr d6" and
    r: "gvr_ok r \<longleftrightarrow> d1 @ d2 @ d3 @ d4 @ d5 @ d6 = []"
    using run unfolding validate_harness_graph_def Let_def bind_result_Inr
      nodes_def [symmetric] by_id_def [symmetric] ivs_def [symmetric] resolved_def [symmetric]
    by (elim exE conjE) (rule that, assumption+, auto simp: gvr_ok_def)
  have edges_ok: "d1 = [] \<longleftrightarrow> prerequisites_sound nodes"
    using edge_diagnostics_Nil [OF d1] invalid_edges_empty [OF dist]
    by (simp add: invalid_edge_set_def by_id_def) blast
  have final: "gvr_ok r \<longleftrightarrow> prerequisites_sound nodes \<and> (\<forall>i. \<not> (depends nodes)\<^sup>+\<^sup>+ i i)
     \<and> terminals_sound nodes allowed \<and> terminals_gated nodes \<and> arguments_compatible env nodes resolved"
  proof (cases "prerequisites_sound nodes")
    case False
    then show ?thesis using edges_ok r by simp
  next
    case sound: True
    then have ivs: "ivs = {}" using invalid_edges_empty [OF dist] by (simp add: ivs_def by_id_def)
    note adj' = valid_adjacency_props [OF dist adj [unfolded ivs_def by_id_def]]
    have keys: "keys adj = map hnode_id nodes" and closed: "closed_adjacency adj" by (rule adj')+
    have edge: "edge adj p n \<longleftrightarrow> depends nodes n p" for p n
      using adj'(2) [of n p] ivs by (simp add: valid_edge_def depends_def ivs_def by_id_def)
    have noself: "\<not> edge adj x x" for x
      using adj'(2) [of x x] valid_edge_nodes(3) [OF dist] by blast
    have plus: "(edge adj)\<^sup>+\<^sup>+ p n \<longleftrightarrow> (depends nodes)\<^sup>+\<^sup>+ n p" for p n
    proof -
      have "edge adj = (depends nodes)\<inverse>\<inverse>" using edge by (auto simp: fun_eq_iff)
      then show ?thesis by (simp add: tranclp_converse)
    qed
    have d2': "d2 = [] \<longleftrightarrow> (\<forall>i. \<not> (depends nodes)\<^sup>+\<^sup>+ i i)"
      using cycle_diagnostics_Nil [OF closed noself components d2] plus by simp
    have d3': "d3 = [] \<longleftrightarrow> terminals_sound nodes allowed"
    proof -
      have "d3 = [] \<longleftrightarrow> terminal_nodes nodes \<noteq> [] \<and> distinct (map snd (terminal_nodes nodes))
          \<and> (\<forall>R. map_option set allowed = Some R \<longrightarrow> R = set (map snd (terminal_nodes nodes)))"
        by (rule terminal_diagnostics_Nil [OF d3 terminal_nodes_props(1) [OF dist]]) auto
      then show ?thesis
        unfolding terminal_nodes_props(3-5) [OF dist] terminals_sound_def Let_def by auto
    qed
    have d4': "d4 = [] \<longleftrightarrow> (\<forall>n \<in> set nodes. is_terminal_node n \<longrightarrow> \<not> hnode_required n)"
      using traverse_Nil [OF d4 [unfolded terminal_required_diagnostics_def]] by (auto simp: filter_empty_conv)
    have d6': "d6 = [] \<longleftrightarrow> arguments_compatible env nodes resolved"
    proof (rule argument_diagnostics_Nil [OF d6 [unfolded by_id_def ivs] dist])
      fix n p assume np: "n \<in> set nodes" "p \<in> set (hnode_prerequisites n)"
      then show "prereq_node_id p \<in> hnode_id ` set nodes"
        using sound by (force simp: prerequisites_sound_def)
      show "wf_prerequisite p"
        using np wf by (auto simp: wf_harness_graph_def wf_harness_node_def nodes_def)
    qed
    have res': "hnode_id ` set nodes \<subseteq> set (keys resolved)"
      using res by (auto simp: nodes_def resolved_def resolved_entries_def image_image case_prod_unfold)
    note d5' = gating_exact [OF dist keys closed edge noself _ _ res' cycles sat [unfolded by_id_def ivs]
        gaps [unfolded by_id_def] d5 [unfolded by_id_def ivs]]
    show ?thesis
      using edges_ok r d2' d3' d4' d5' d6' sound by (auto simp: terminals_gated_def)
  qed
  then show ?thesis by (simp add: nodes_def resolved_def)
qed


text \<open>
  C7: graph validation is exact. For a source whose graph satisfies its contract and whose nodes
  are all resolved, a validation that returns reports no diagnostic exactly when every node's
  prerequisites are distinct, known, non-terminal and not itself, the prerequisite relation is
  acyclic, the terminal results are distinct and are exactly the legal ones, no terminal node is
  required and each one depends, directly or not, on every required node, and every argument match
  links two required properties with the same canonical schema.
\<close>

theorem validate_harness_graph_exact:
  assumes "wf_harness_graph (hs_graph source)"
    and "hnode_id ` set (graph_nodes (hs_graph source)) \<subseteq> fst ` set resolved_nodes"
    and "validate_harness_graph env source resolved_nodes allowed = Inr r"
  shows "gvr_diagnostics r = [] \<longleftrightarrow> prerequisites_sound (graph_nodes (hs_graph source))
     \<and> (\<forall>i. \<not> (depends (graph_nodes (hs_graph source)))\<^sup>+\<^sup>+ i i)
     \<and> terminals_sound (graph_nodes (hs_graph source)) allowed
     \<and> terminals_gated (graph_nodes (hs_graph source))
     \<and> arguments_compatible env (graph_nodes (hs_graph source)) (resolved_entries resolved_nodes)"
  using graph_validation_exact [OF assms] by (simp add: gvr_ok_def)

definition path_schema :: json where
  "path_schema = JObj [(''type'', JStr ''object''), (''additionalProperties'', JBool False),
     (''properties'', JObj [(''path'', JObj [(''type'', JStr ''string'')])]),
     (''required'', JArr [JStr ''path''])]"

definition sample_artifacts :: "string \<Rightarrow> string list" where
  "sample_artifacts name = (if name = ''write'' then [''patch''] else [])"

definition sample_tool :: "string \<Rightarrow> tool_catalog_entry" where
  "sample_tool name = sample_descriptor\<lparr>td_tool_id := ''tools.'' @ name, td_model_tool_name := name,
     td_input_schema := path_schema, td_produced_artifact_ids := sample_artifacts name\<rparr>"

definition sample_node :: "string \<Rightarrow> bool \<Rightarrow> prerequisite_source list \<Rightarrow> string option \<Rightarrow> harness_node_source" where
  "sample_node name req ps term = \<lparr>hnode_id = name, hnode_tool_ref = ''tools.'' @ name @ ''@1'',
     hnode_required = req, hnode_prerequisites = ps, hnode_terminal_result = term, hnode_produces = sample_artifacts name\<rparr>"

definition sample_source :: harness_source where
  "sample_source = \<lparr>hs_schema_version = ''1.0'', hs_kind = ''millforge_harness'', hs_harness_id = ''demo.edit'',
     hs_harness_version = 1, hs_stage_scope = \<lparr>scope_stage_kind_ids = [''builder'']\<rparr>,
     hs_model_profile_id = ''profile.main'',
     hs_prompt = \<lparr>prompt_policy_id = ''policy.main'', prompt_system_instructions = ''Work.'',
       prompt_include_request_context = True\<rparr>,
     hs_budgets = \<lparr>budget_max_iterations = 10, budget_max_validation_retries = 2,
       budget_max_tool_errors = 2, budget_max_prerequisite_violations = 2,
       budget_max_premature_terminal_attempts = 2\<rparr>,
     hs_context = \<lparr>ctx_strategy_id = ''forge.tiered.v1'', ctx_budget_tokens = 4096,
       ctx_keep_recent_iterations = 2, ctx_phase_thresholds = [1/2, 3/4, 1]\<rparr>,
     hs_graph = \<lparr>graph_nodes =
       [sample_node ''read'' True [] None,
        sample_node ''write'' False
          [\<lparr>prereq_node_id = ''read'',
            argument_matches = [\<lparr>prior_argument = ''path'', current_argument = ''path''\<rparr>]\<rparr>] None,
        sample_node ''done'' False [\<lparr>prereq_node_id = ''write'', argument_matches = []\<rparr>] (Some ''DONE'')]\<rparr>,
     hs_artifacts = \<lparr>declared_artifact_ids = [''patch''], required_by_terminal =
       [\<lparr>tap_terminal_result = ''DONE'', tap_artifact_ids = [''patch'']\<rparr>]\<rparr>\<rparr>"

definition sample_resolved :: "(string \<times> resolved_value) list" where
  "sample_resolved = map (\<lambda>n. (n, Inl (sample_tool n))) [''done'', ''read'', ''write'']"

definition sample_graph_result :: graph_validation_result where
  "sample_graph_result = \<lparr>gvr_diagnostics = [], gvr_terminal_node_ids = [''done''],
     gvr_terminal_result_map = [(''done'', ''DONE'')], gvr_required_node_ids = [''read'']\<rparr>"

lemma sample_graph_wf: "wf_harness_graph (hs_graph sample_source)"
proof -
  have "check_harness_graph (hs_graph sample_source) = Inr (hs_graph sample_source)" by code_simp
  then show ?thesis by (simp add: check_harness_graph_Inr)
qed

text \<open>The pieces of the validation of the sample, each evaluated on its own.\<close>

abbreviation sample_nodes :: "harness_node_source list" where
  "sample_nodes \<equiv> graph_nodes (hs_graph sample_source)"

definition sample_valid_adjacency :: "string adjacency" where
  "sample_valid_adjacency = [(''read'', [''write'']), (''write'', [''done'']), (''done'', [])]"

lemma sample_adjacency_eval:
  "invalid_edge_set sample_nodes (nodes_by_id sample_nodes) = {}"
  "unknown_prerequisite_pairs sample_nodes (nodes_by_id sample_nodes) = {}"
  "self_prerequisite_pairs sample_nodes = {}" "duplicate_prerequisite_pairs sample_nodes = {}"
  "terminal_as_prerequisite_pairs sample_nodes (nodes_by_id sample_nodes) = {}"
  "valid_adjacency sample_nodes {} = Inr sample_valid_adjacency"
  by code_simp+

lemma sample_search_eval:
  "cycle_nodes sample_valid_adjacency = Inr {}" "cycle_components sample_valid_adjacency = Inr []"
  "satisfiable_nodes (nodes_by_id sample_nodes) sample_valid_adjacency {} {}
     = Inr {''done'', ''read'', ''write''}"
  "required_ancestor_gaps (nodes_by_id sample_nodes) sample_valid_adjacency [''done''] [''read''] = Inr []"
  "nodes_blocked_by_unresolved (nodes_by_id sample_nodes) sample_valid_adjacency
     (resolved_entries sample_resolved) = {}"
  by code_simp+

lemma sample_list_eval:
  "terminal_nodes sample_nodes = [(''done'', ''DONE'')]" "required_node_ids sample_nodes = [''read'']"
  "keys (nodes_by_id sample_nodes) = [''read'', ''write'', ''done'']"
  "sort_key hnode_id sample_nodes =
     [sample_node ''done'' False [\<lparr>prereq_node_id = ''write'', argument_matches = []\<rparr>] (Some ''DONE''),
      sample_node ''read'' True [] None,
      sample_node ''write'' False
        [\<lparr>prereq_node_id = ''read'',
          argument_matches = [\<lparr>prior_argument = ''path'', current_argument = ''path''\<rparr>]\<rparr>] None]"
  by code_simp+

lemma sample_string_bytes:
  "is_ok (property_schema_compatibility_bytes (float_repr plain_env) (JObj [(''type'', JStr ''string'')]))"
  by code_simp

lemma sample_match_fault:
  "argument_match_fault plain_env (td_input_schema (sample_tool a)) (td_input_schema (sample_tool b))
     \<lparr>prior_argument = ''path'', current_argument = ''path''\<rparr> = Inr None"
proof -
  show ?thesis
    using sample_string_bytes
    by (auto simp: argument_match_fault_def schema_properties_def required_properties_def sample_tool_def
        path_schema_def is_ok_iff)
qed

lemma sample_argument_eval:
  "argument_diagnostics plain_env sample_nodes (nodes_by_id sample_nodes) (resolved_entries sample_resolved) {}
     = Inr []"
  unfolding argument_diagnostics_def sample_list_eval
  by (simp add: sample_node_def resolved_entries_def sample_resolved_def argument_edge_diagnostics_def
      sample_match_fault Let_def)

lemma sample_graph_validates:
  "validate_harness_graph plain_env sample_source sample_resolved (Some [''DONE'']) = Inr sample_graph_result"
proof -
  have "terminal_diagnostics plain_env [(''done'', ''DONE'')] (Some {''DONE''}) = Inr []"
    by (simp add: terminal_diagnostics_def)
  moreover have "terminal_required_diagnostics plain_env sample_nodes = Inr []"
    unfolding terminal_required_diagnostics_def sample_list_eval
    by (simp add: sample_node_def is_terminal_node_def)
  moreover have "reachability_diagnostics plain_env {} {} {} {''done'', ''read'', ''write''} [] [''read'']
      sample_nodes = Inr []"
    unfolding reachability_diagnostics_def sample_list_eval
    by (simp add: reachability_diagnostic_def sample_node_def has_invalid_edge_def is_terminal_node_def)
  ultimately show ?thesis
    by (simp add: validate_harness_graph_def Let_def sample_adjacency_eval sample_search_eval
        sample_list_eval(1,2) sample_argument_eval edge_diagnostics_def cycle_diagnostics_def
        sample_graph_result_def sort_diagnostics_def)
qed

theorem validate_harness_graph_exact_witness:
  "gvr_diagnostics sample_graph_result = [] \<longleftrightarrow> prerequisites_sound sample_nodes
     \<and> (\<forall>i. \<not> (depends sample_nodes)\<^sup>+\<^sup>+ i i)
     \<and> terminals_sound sample_nodes (Some [''DONE'']) \<and> terminals_gated sample_nodes
     \<and> arguments_compatible plain_env sample_nodes (resolved_entries sample_resolved)"
proof (rule validate_harness_graph_exact [OF sample_graph_wf _ sample_graph_validates])
  show "hnode_id ` set sample_nodes \<subseteq> fst ` set sample_resolved"
    by (simp add: sample_source_def sample_node_def sample_resolved_def)
qed


section \<open>Long cycles\<close>

lemma traverse_fails: "x \<in> set xs \<Longrightarrow> \<not> is_ok (f x) \<Longrightarrow> \<not> is_ok (traverse f xs)"
  by (auto simp: traverse_is_ok)

lemma cycle_diagnostics_fail:
  assumes "c \<in> set cs" and "17 < length c"
  shows "\<not> is_ok (cycle_diagnostics env cs)"
  unfolding cycle_diagnostics_def
  by (rule traverse_fails [OF assms(1)])
    (use assms(2) in \<open>auto simp: graph_diagnostic_def intro!: error_diagnostic_too_many_related\<close>)

text \<open>
  C8: a long cycle is not reported. Whenever the search finds a component of more than 17 nodes,
  the report of that cycle names more than 16 related nodes, which the diagnostic contract refuses:
  the validation raises instead of returning the cycle diagnostic (and the service turns that into
  an internal error).
\<close>

theorem validate_long_cycle_raises:
  assumes "valid_adjacency (graph_nodes (hs_graph source))
      (invalid_edge_set (graph_nodes (hs_graph source)) (nodes_by_id (graph_nodes (hs_graph source)))) = Inr adj"
    and "cycle_components adj = Inr cs" and "c \<in> set cs" and "17 < length c"
  shows "\<not> is_ok (validate_harness_graph env source resolved_nodes allowed)"
  using cycle_diagnostics_fail [OF assms(3,4), of env]
  by (auto simp: validate_harness_graph_def Let_def is_ok_bind assms(1,2))

definition ring_source :: "string list \<Rightarrow> harness_source" where
  "ring_source ids = sample_source\<lparr>hs_graph := \<lparr>graph_nodes =
     map (\<lambda>(i, p). sample_node i False [\<lparr>prereq_node_id = p, argument_matches = []\<rparr>] None)
       (zip ids (rotate1 ids))\<rparr>\<rparr>"

definition ring_ids :: "string list" where
  "ring_ids = map (\<lambda>c. [c]) ''abcdefghijklmnopqr''"

definition ring_adjacency :: "string adjacency" where
  "ring_adjacency = map (\<lambda>(i, p). (p, [i])) (zip (last ring_ids # butlast ring_ids) ring_ids)"

lemma ring_eval:
  "valid_adjacency (graph_nodes (hs_graph (ring_source ring_ids)))
      (invalid_edge_set (graph_nodes (hs_graph (ring_source ring_ids)))
        (nodes_by_id (graph_nodes (hs_graph (ring_source ring_ids))))) = Inr ring_adjacency"
  by code_simp

lemma successively_reach:
  "successively R (a # xs) \<Longrightarrow> x \<in> set (a # xs) \<Longrightarrow> R\<^sup>*\<^sup>* a x \<and> R\<^sup>*\<^sup>* x (last (a # xs))"
proof (induction xs arbitrary: a x)
  case (Cons b xs)
  have R: "R a b" using Cons.prems(1) by simp
  have IH: "R\<^sup>*\<^sup>* b y \<and> R\<^sup>*\<^sup>* y (last (b # xs))" if "y \<in> set (b # xs)" for y
    using Cons.IH [OF _ that] Cons.prems(1) by simp
  show ?case
  proof (cases "x = a")
    case True
    then show ?thesis using converse_rtranclp_into_rtranclp [of R, OF R] IH [of b] by simp
  next
    case False
    then show ?thesis using converse_rtranclp_into_rtranclp [of R, OF R] IH [of x] Cons.prems(2) by simp
  qed
qed simp

lemma closed_adjacencyI:
  assumes "\<forall>(v, ds) \<in> set adj. set ds \<subseteq> set (keys adj)"
  shows "closed_adjacency adj"
  unfolding closed_adjacency_def
proof
  fix v
  show "set (successors adj v) \<subseteq> set (keys adj)"
  proof (cases "map_of adj v")
    case (Some ds)
    then have "(v, ds) \<in> set adj" by (rule map_of_SomeD)
    then show ?thesis using assms Some by (auto simp: successors_def simp del: set_map)
  qed (simp add: successors_def)
qed

lemma ring_scc:
  assumes x: "x \<in> set ring_ids"
  shows "scc ring_adjacency x = set ring_ids"
proof -
  have ring: "successively (edge ring_adjacency) (''a'' # rev ring_ids)" by code_simp
  have last: "last (''a'' # rev ring_ids) = ''a''" by code_simp
  have hub: "reaches ring_adjacency ''a'' y \<and> reaches ring_adjacency y ''a''" if "y \<in> set ring_ids" for y
    using successively_reach [OF ring, of y] that unfolding last by simp
  have "\<forall>(v, ds) \<in> set ring_adjacency. set ds \<subseteq> set (keys ring_adjacency)"
    and keys: "set (keys ring_adjacency) = set ring_ids" by code_simp+
  then have closed: "closed_adjacency ring_adjacency" by (intro closed_adjacencyI)
  have "y \<in> set ring_ids" if "reaches ring_adjacency x y" for y
    using reaches_in_keys [OF closed, of x] that x unfolding keys by blast
  then show ?thesis
    using hub x by (auto simp: scc_def intro: rtranclp_trans)
qed

lemma ring_components: "cycle_components ring_adjacency = Inr [ring_ids]"
proof -
  have keys: "set (keys ring_adjacency) = set ring_ids" by code_simp
  have "\<forall>(v, ds) \<in> set ring_adjacency. set ds \<subseteq> set (keys ring_adjacency)" by code_simp
  then obtain cs where cs: "cycle_components ring_adjacency = Inr cs" "distinct cs"
      "set cs = {sorted_list_of_set (scc ring_adjacency x) | x.
         x \<in> set (keys ring_adjacency) \<and> 1 < card (scc ring_adjacency x)}"
    using cycle_components_correct [OF closed_adjacencyI] by blast
  have "sorted ring_ids" "distinct ring_ids" "1 < card (set ring_ids)" "ring_ids \<noteq> []" by code_simp+
  then have "set cs = {ring_ids}"
    unfolding cs(3) keys using ring_scc
    by (auto simp: sorted_list_of_set.idem_if_sorted_distinct intro!: exI [of _ "hd ring_ids"])
  then have "cs = [ring_ids]"
    using cs(2) by (cases cs; cases "tl cs") auto
  then show ?thesis using cs(1) by simp
qed

theorem validate_long_cycle_raises_witness:
  "\<not> is_ok (validate_harness_graph plain_env (ring_source ring_ids) [] None)"
  by (rule validate_long_cycle_raises [OF ring_eval ring_components, of ring_ids])
    (simp_all add: ring_ids_def)

end
