(* ===== verification/Requirements.thy ===== *)
theory Requirements
  imports Graph_Correct
begin

text \<open>
  \<^verbatim>\<open>compiler/capabilities.py\<close> and \<^verbatim>\<open>compiler/artifact_validation.py\<close>: the capabilities that the
  resolved tools need against the grants of the request, and the artifacts that terminal results
  need against the nodes that can produce them. A \<^verbatim>\<open>defaultdict\<close> of lists is an association list
  (for the capabilities, whose keys are enumerated) or a function of the key (for the producers,
  which are only looked up).
\<close>

section \<open>Capabilities\<close>

record capability_validation_result =
  cvr_required_capability_ids :: "string list"
  cvr_diagnostics :: "diagnostic list"

definition dict_append :: "('k \<times> 'v list) list \<Rightarrow> 'k \<Rightarrow> 'v \<Rightarrow> ('k \<times> 'v list) list" where
  "dict_append d k v = dict_set d k ((case map_of d k of None \<Rightarrow> [] | Some vs \<Rightarrow> vs) @ [v])"

definition capability_nodes ::
  "(string \<times> tool_catalog_entry) list \<Rightarrow> (string \<times> string list) list" where
  "capability_nodes entries =
     foldl (\<lambda>d (nid, e). foldl (\<lambda>d' c. dict_append d' c nid) d (td_required_capabilities e)) [] entries"

definition validate_capability_grants ::
  "redaction_env \<Rightarrow> (string \<times> resolved_value) list \<Rightarrow> string list \<Rightarrow>
   capability_validation_result result" where
  "validate_capability_grants env resolved_nodes granted_ids =
     (let nodes = capability_nodes (resolved_entries resolved_nodes);
          required = sort (keys nodes);
          granted = set granted_ids
      in bind_result (traverse (\<lambda>(capability_id, node_ids).
             bind_result (mk_diagnostic_field env ''capability_id'' (FStr capability_id)) (\<lambda>f.
             mk_diagnostic env ''MF-C001'' ERROR CAPABILITY
               (''Required capability '' @ py_repr capability_id @ '' is not granted.'') None None
               (Some (hd (sort node_ids))) (tl (sort node_ids)) None [f]))
           (filter (\<lambda>(capability_id, node_ids). capability_id \<notin> granted) (sort_key fst nodes))) (\<lambda>ds.
         Ok \<lparr>cvr_required_capability_ids = required, cvr_diagnostics = sort_diagnostics ds\<rparr>))"

lemma map_of_dict_append:
  "map_of (dict_append d k v) = (map_of d)(k \<mapsto> (case map_of d k of None \<Rightarrow> [] | Some vs \<Rightarrow> vs) @ [v])"
  by (simp add: dict_append_def)

lemma keys_dict_append: "set (keys (dict_append d k v)) = insert k (set (keys d))"
  unfolding dict_append_def set_keys_dict_set ..

lemma distinct_dict_append: "distinct (keys d) \<Longrightarrow> distinct (keys (dict_append d k v))"
  by (simp add: dict_append_def distinct_dict_set)

lemma capability_nodes_inner:
  "set (keys (foldl (\<lambda>d' c. dict_append d' c nid) d cs)) = set (keys d) \<union> set cs"
  "distinct (keys d) \<Longrightarrow> distinct (keys (foldl (\<lambda>d' c. dict_append d' c nid) d cs))"
  by (induction cs arbitrary: d) (auto simp: keys_dict_append distinct_dict_append simp del: set_map)

lemma capability_nodes_keys:
  "set (keys (capability_nodes entries)) = (\<Union>(nid, e) \<in> set entries. set (td_required_capabilities e))
   \<and> distinct (keys (capability_nodes entries))"
proof -
  have "set (keys (foldl (\<lambda>d (nid, e). foldl (\<lambda>d' c. dict_append d' c nid) d (td_required_capabilities e)) d entries))
      = set (keys d) \<union> (\<Union>(nid, e) \<in> set entries. set (td_required_capabilities e))
    \<and> (distinct (keys d) \<longrightarrow> distinct (keys (foldl (\<lambda>d (nid, e). foldl (\<lambda>d' c. dict_append d' c nid) d
          (td_required_capabilities e)) d entries)))"
    for d :: "(string \<times> string list) list"
  proof (induction entries arbitrary: d)
    case (Cons e entries)
    obtain nid t where e: "e = (nid, t)" by force
    show ?case
      using Cons [of "foldl (\<lambda>d' c. dict_append d' c nid) d (td_required_capabilities t)"]
        capability_nodes_inner [where nid = nid and d = d and cs = "td_required_capabilities t"]
      by (auto simp: e simp del: set_map)
  qed simp
  from this [of "[]"] show ?thesis by (simp add: capability_nodes_def)
qed

lemma capability_grants_exact:
  assumes "validate_capability_grants env resolved_nodes granted = Inr r"
  shows "cvr_required_capability_ids r =
           sorted_set (\<Union>(nid, e) \<in> set (resolved_entries resolved_nodes). set (td_required_capabilities e))"
    and "cvr_diagnostics r = [] \<longleftrightarrow>
           (\<forall>(nid, e) \<in> set (resolved_entries resolved_nodes). set (td_required_capabilities e) \<subseteq> set granted)"
proof -
  let ?nodes = "capability_nodes (resolved_entries resolved_nodes)"
  let ?missing = "filter (\<lambda>(c, ns). c \<notin> set granted) (sort_key fst ?nodes)"
  have k: "set (keys ?nodes) = (\<Union>(nid, e) \<in> set (resolved_entries resolved_nodes). set (td_required_capabilities e))"
    and d: "distinct (keys ?nodes)" using capability_nodes_keys by auto
  obtain ds where ds: "cvr_diagnostics r = sort_diagnostics ds" "cvr_required_capability_ids r = sort (keys ?nodes)"
      "ds = [] \<longleftrightarrow> ?missing = []"
    using assms unfolding validate_capability_grants_def Let_def bind_result_Inr
    by (elim exE conjE) (drule traverse_Nil, auto)
  show "cvr_required_capability_ids r =
      sorted_set (\<Union>(nid, e) \<in> set (resolved_entries resolved_nodes). set (td_required_capabilities e))"
    unfolding ds(2) k [symmetric] sorted_list_of_set_sort_remdups distinct_remdups_id [OF d] ..
  have "?missing = [] \<longleftrightarrow> set (keys ?nodes) \<subseteq> set granted"
    by (auto simp: filter_empty_conv)
  then show "cvr_diagnostics r = [] \<longleftrightarrow>
      (\<forall>(nid, e) \<in> set (resolved_entries resolved_nodes). set (td_required_capabilities e) \<subseteq> set granted)"
    using ds k by auto
qed

text \<open>
  Capability checking is exact. A check that returns lists, in order and without repetition,
  exactly the capabilities some resolved tool needs, and reports nothing exactly when each of them
  is granted.
\<close>

theorem validate_capability_grants_exact:
  assumes "validate_capability_grants env resolved_nodes granted = Inr r"
  shows "cvr_required_capability_ids r =
           sorted_set (\<Union>(nid, e) \<in> set (resolved_entries resolved_nodes). set (td_required_capabilities e))
     \<and> (cvr_diagnostics r = [] \<longleftrightarrow>
           (\<forall>(nid, e) \<in> set (resolved_entries resolved_nodes). set (td_required_capabilities e) \<subseteq> set granted))"
  using capability_grants_exact [OF assms] by blast

lemma sample_capabilities:
  "validate_capability_grants plain_env sample_resolved [''fs.read'', ''fs.write'']
     = Inr \<lparr>cvr_required_capability_ids = [''fs.read''], cvr_diagnostics = []\<rparr>"
proof -
  have "capability_nodes (resolved_entries sample_resolved) = [(''fs.read'', [''done'', ''read'', ''write''])]"
    by code_simp
  then show ?thesis by (simp add: validate_capability_grants_def Let_def sort_diagnostics_def)
qed

theorem validate_capability_grants_exact_witness:
  "[''fs.read''] = sorted_set (\<Union>(nid, e) \<in> set (resolved_entries sample_resolved). set (td_required_capabilities e))
     \<and> (\<Union>(nid, e) \<in> set (resolved_entries sample_resolved). set (td_required_capabilities e))
         \<subseteq> {''fs.read'', ''fs.write''}"
  using validate_capability_grants_exact [OF sample_capabilities] by auto

section \<open>Artifacts\<close>

record artifact_producer_evidence =
  ev_artifact_id :: string
  ev_all_producer_node_ids :: "string list"
  ev_terminal_gated_producer_node_ids :: "string list"

record artifact_validation_result =
  avr_diagnostics :: "diagnostic list"
  avr_producer_evidence :: "artifact_producer_evidence list"

definition artifact_diagnostic ::
  "redaction_env \<Rightarrow> string \<Rightarrow> string \<Rightarrow> string option \<Rightarrow> string option \<Rightarrow> string option \<Rightarrow>
   diagnostic result" where
  "artifact_diagnostic env code message nid artifact terminal =
     bind_result (optional (\<lambda>a. mk_diagnostic_field env ''artifact_id'' (FStr a)) artifact) (\<lambda>f1.
     bind_result (optional (\<lambda>t. mk_diagnostic_field env ''terminal_result'' (FStr t)) terminal) (\<lambda>f2.
     mk_diagnostic env code ERROR ARTIFACT message None None nid [] None
       ((case f1 of None \<Rightarrow> [] | Some f \<Rightarrow> [f]) @ (case f2 of None \<Rightarrow> [] | Some f \<Rightarrow> [f]))))"

fun duplicates_from :: "string set \<Rightarrow> string list \<Rightarrow> string set" where
  "duplicates_from seen [] = {}"
| "duplicates_from seen (v # vs) =
     (if v \<in> seen then {v} else {}) \<union> duplicates_from (insert v seen) vs"

definition duplicates :: "string list \<Rightarrow> string list" where
  "duplicates values = sorted_set (duplicates_from {} values)"

text \<open>\<^verbatim>\<open>_ancestors\<close>; the dictionary \<^verbatim>\<open>reverse\<close> lists the prerequisites in declaration order.\<close>

definition artifact_ancestors :: "string \<Rightarrow> (string \<times> harness_node_source) list \<Rightarrow> string set result" where
  "artifact_ancestors t by_id =
     (let reverse = map (\<lambda>(i, n). (hnode_id n, map prereq_node_id (hnode_prerequisites n))) by_id
      in case map_of reverse t of
           None \<Rightarrow> Raise (KeyError t)
         | Some ps \<Rightarrow> Ok (known_ancestor_loop reverse {} (rev ps)))"

text \<open>The body of the loop over the nodes, for a node with its descriptor.\<close>

definition node_artifact_diagnostics ::
  "redaction_env \<Rightarrow> string set \<Rightarrow> harness_node_source \<Rightarrow> tool_catalog_entry \<Rightarrow> diagnostic list result" where
  "node_artifact_diagnostics env declared n descriptor =
     bind_result (traverse (\<lambda>a. artifact_diagnostic env ''MF-A006''
         (''Node '' @ py_repr (hnode_id n) @ '' duplicates produced artifact '' @ py_repr a @ ''.'')
         (Some (hnode_id n)) (Some a) None) (duplicates (hnode_produces n))) (\<lambda>d1.
     bind_result (traverse (\<lambda>a.
         bind_result (if a \<notin> declared
           then bind_result (artifact_diagnostic env ''MF-A001''
                  (''Node '' @ py_repr (hnode_id n) @ '' produces undeclared artifact '' @ py_repr a @ ''.'')
                  (Some (hnode_id n)) (Some a) None) (\<lambda>d. Ok [d])
           else Ok []) (\<lambda>da.
         bind_result (if a \<notin> set (td_produced_artifact_ids descriptor)
           then bind_result (artifact_diagnostic env ''MF-A002''
                  (''Node '' @ py_repr (hnode_id n) @ '' cannot produce artifact '' @ py_repr a @ ''.'')
                  (Some (hnode_id n)) (Some a) None) (\<lambda>d. Ok [d])
           else Ok []) (\<lambda>db. Ok (da @ db)))) (sorted_set (set (hnode_produces n)))) (\<lambda>d2.
     Ok (d1 @ concat d2)))"

text \<open>\<^verbatim>\<open>valid_producers[artifact_id]\<close>, in the order of the loop.\<close>

definition valid_producers ::
  "harness_node_source list \<Rightarrow> (string \<times> tool_catalog_entry) list \<Rightarrow> string set \<Rightarrow> string \<Rightarrow> string list" where
  "valid_producers nodes descriptors declared artifact =
     map hnode_id (filter (\<lambda>n. case map_of descriptors (hnode_id n) of
         None \<Rightarrow> False
       | Some d \<Rightarrow> artifact \<in> set (hnode_produces n) \<and> artifact \<in> declared
             \<and> artifact \<in> set (td_produced_artifact_ids d)) (sort_key hnode_id nodes))"

definition requirement_diagnostics ::
  "redaction_env \<Rightarrow> string set \<Rightarrow> string set \<Rightarrow> terminal_artifact_policy_source \<Rightarrow>
   diagnostic list result" where
  "requirement_diagnostics env declared terminal_results requirement =
     (let t = tap_terminal_result requirement
      in bind_result (traverse (\<lambda>a. artifact_diagnostic env ''MF-A006''
             (''Terminal artifact policy '' @ py_repr t @ '' duplicates artifact '' @ py_repr a @ ''.'')
             None (Some a) (Some t)) (duplicates (tap_artifact_ids requirement))) (\<lambda>d1.
         bind_result (if t \<notin> terminal_results
           then bind_result (artifact_diagnostic env ''MF-A003''
                  (''Artifact policy references unknown terminal result '' @ py_repr t @ ''.'')
                  None None (Some t)) (\<lambda>d. Ok [d])
           else traverse (\<lambda>a. artifact_diagnostic env ''MF-A007''
                  (''Terminal-required artifact '' @ py_repr a @ '' is not declared.'') None (Some a) (Some t))
                (filter (\<lambda>a. a \<notin> declared) (sorted_set (set (tap_artifact_ids requirement))))) (\<lambda>d2.
         Ok (d1 @ d2))))"

text \<open>
  The second loop over the requirements, for a requirement whose terminal node has the gated nodes
  \<open>gated\<close>: the diagnostics; what it adds to \<^verbatim>\<open>terminal_gated\<close> is \<open>gated_producers\<close>.
\<close>

definition producer_diagnostic ::
  "redaction_env \<Rightarrow> (string \<Rightarrow> string list) \<Rightarrow> string set \<Rightarrow> string \<Rightarrow> string \<Rightarrow> diagnostic list result" where
  "producer_diagnostic env producers gated terminal a =
     (if producers a = []
      then bind_result (artifact_diagnostic env ''MF-A004''
             (''Terminal-required artifact '' @ py_repr a @ '' has no valid producer.'') None (Some a)
             (Some terminal)) (\<lambda>d. Ok [d])
      else if set (producers a) \<inter> gated = {}
      then bind_result (artifact_diagnostic env ''MF-A005''
             (''Terminal-required artifact '' @ py_repr a @ '' has no terminal-gated producer.'') None (Some a)
             (Some terminal)) (\<lambda>d. Ok [d])
      else Ok [])"

definition producer_diagnostics ::
  "redaction_env \<Rightarrow> (string \<Rightarrow> string list) \<Rightarrow> string set \<Rightarrow> string set \<Rightarrow>
   terminal_artifact_policy_source \<Rightarrow> diagnostic list result" where
  "producer_diagnostics env producers declared gated requirement =
     bind_result (traverse (producer_diagnostic env producers gated (tap_terminal_result requirement))
       (filter (\<lambda>a. a \<in> declared) (sorted_set (set (tap_artifact_ids requirement))))) (\<lambda>dss.
     Ok (concat dss))"

definition terminal_nodes_by_result :: "(string \<times> string) list \<Rightarrow> (string \<times> string) list" where
  "terminal_nodes_by_result result_map = foldl (\<lambda>d (n, r). dict_set d r n) [] result_map"

text \<open>The requirements of the second loop with their gated nodes.\<close>

definition gated_requirements ::
  "(string \<times> harness_node_source) list \<Rightarrow> graph_validation_result \<Rightarrow>
   terminal_artifact_policy_source list \<Rightarrow> (terminal_artifact_policy_source \<times> string set) list result" where
  "gated_requirements by_id graph_result requirements =
     bind_result (traverse (\<lambda>t. bind_result (artifact_ancestors t by_id) (\<lambda>a. Ok (t, a)))
       (gvr_terminal_node_ids graph_result)) (\<lambda>ancestors_by_terminal.
     bind_result (traverse (\<lambda>req.
         case map_of (terminal_nodes_by_result (gvr_terminal_result_map graph_result)) (tap_terminal_result req) of
           None \<Rightarrow> Ok []
         | Some t \<Rightarrow>
             (case map_of ancestors_by_terminal t of
                None \<Rightarrow> Raise (KeyError t)
              | Some a \<Rightarrow> Ok [(req, a \<union> set (gvr_required_node_ids graph_result))])) requirements) (\<lambda>rss.
     Ok (concat rss)))"

definition gated_producers ::
  "(string \<Rightarrow> string list) \<Rightarrow> string set \<Rightarrow> (terminal_artifact_policy_source \<times> string set) list \<Rightarrow>
   string \<Rightarrow> string set" where
  "gated_producers producers declared gated artifact =
     \<Union> (set (map (\<lambda>(req, nodes). if artifact \<in> set (tap_artifact_ids req) \<and> artifact \<in> declared
        then set (producers artifact) \<inter> nodes else {}) gated))"

definition validate_artifacts ::
  "redaction_env \<Rightarrow> harness_source \<Rightarrow> (string \<times> resolved_value) list \<Rightarrow> graph_validation_result \<Rightarrow>
   artifact_validation_result result" where
  "validate_artifacts env source resolved_nodes graph_result =
     (let nodes = graph_nodes (hs_graph source);
          by_id = nodes_by_id nodes;
          descriptors = resolved_entries resolved_nodes;
          declared_ids = declared_artifact_ids (hs_artifacts source);
          declared = set declared_ids;
          requirements = required_by_terminal (hs_artifacts source);
          producers = valid_producers nodes descriptors declared
      in bind_result (traverse (\<lambda>a. artifact_diagnostic env ''MF-A006''
             (''Declared artifact '' @ py_repr a @ '' is duplicated.'') None (Some a) None)
           (duplicates declared_ids)) (\<lambda>d1.
         bind_result (traverse (\<lambda>n. case map_of descriptors (hnode_id n) of
               None \<Rightarrow> Ok []
             | Some descriptor \<Rightarrow> node_artifact_diagnostics env declared n descriptor)
           (sort_key hnode_id nodes)) (\<lambda>d2.
         bind_result (traverse (requirement_diagnostics env declared
             (set (map snd (gvr_terminal_result_map graph_result)))) requirements) (\<lambda>d3.
         bind_result (if gvr_diagnostics graph_result = []
             then gated_requirements by_id graph_result requirements else Ok []) (\<lambda>gated.
         bind_result (traverse (\<lambda>(req, g). producer_diagnostics env producers declared g req) gated) (\<lambda>d4.
         Ok \<lparr>avr_diagnostics = sort_diagnostics (d1 @ concat d2 @ concat d3 @ concat d4),
             avr_producer_evidence = map (\<lambda>a. \<lparr>ev_artifact_id = a,
                 ev_all_producer_node_ids = sort (producers a),
                 ev_terminal_gated_producer_node_ids = sorted_set (gated_producers producers declared gated a)\<rparr>)
               (sorted_set declared)\<rparr>))))))"

lemma duplicates_from_empty: "duplicates_from seen vs = {} \<longleftrightarrow> distinct vs \<and> set vs \<inter> seen = {}"
  by (induction seen vs rule: duplicates_from.induct) auto

lemma finite_duplicates_from [simp]: "finite (duplicates_from seen vs)"
  by (induction seen vs rule: duplicates_from.induct) auto

lemma duplicates_Nil: "duplicates vs = [] \<longleftrightarrow> distinct vs"
  by (simp add: duplicates_def sorted_set_Nil duplicates_from_empty)

lemma duplicate_reports_Nil:
  "traverse f (duplicates vs) = Inr ds \<Longrightarrow> ds = [] \<longleftrightarrow> distinct vs"
  by (simp add: traverse_Nil duplicates_Nil)

lemma report_if_Nil:
  "(if b then bind_result r (\<lambda>d. Ok [d]) else Ok []) = Inr ds \<Longrightarrow> ds = [] \<longleftrightarrow> \<not> b"
  by (auto simp: result_simps split: if_splits)

lemma traverse_each_Nil:
  assumes "traverse f xs = Inr dss" and "\<And>x ds. x \<in> set xs \<Longrightarrow> f x = Inr ds \<Longrightarrow> ds = [] \<longleftrightarrow> P x"
  shows "concat dss = [] \<longleftrightarrow> (\<forall>x \<in> set xs. P x)"
  using assms
proof (induction xs arbitrary: dss)
  case (Cons x xs)
  obtain y ys where y: "f x = Inr y" "traverse f xs = Inr ys" "dss = y # ys"
    using Cons.prems(1) by (auto simp: result_simps)
  have "concat ys = [] \<longleftrightarrow> (\<forall>x \<in> set xs. P x)"
    by (rule Cons.IH [OF y(2)]) (use Cons.prems(2) in auto)
  then show ?case using Cons.prems(2) [OF _ y(1)] by (simp add: y(3))
qed simp

lemma node_artifact_diagnostics_Nil:
  assumes "node_artifact_diagnostics env declared n d = Inr ds"
  shows "ds = [] \<longleftrightarrow> distinct (hnode_produces n)
    \<and> set (hnode_produces n) \<subseteq> declared \<inter> set (td_produced_artifact_ids d)"
proof -
  obtain d1 d2 where d1: "d1 = [] \<longleftrightarrow> distinct (hnode_produces n)"
    and d2: "concat d2 = [] \<longleftrightarrow> (\<forall>a \<in> set (sorted_set (set (hnode_produces n))).
        a \<in> declared \<and> a \<in> set (td_produced_artifact_ids d))" and ds: "ds = d1 @ concat d2"
    using assms unfolding node_artifact_diagnostics_def bind_result_Inr
    by (elim exE conjE) (drule duplicate_reports_Nil, drule traverse_each_Nil [where
        P = "\<lambda>a. a \<in> declared \<and> a \<in> set (td_produced_artifact_ids d)"],
      auto simp: bind_result_Inr dest!: report_if_Nil)
  then show ?thesis by auto
qed

lemma requirement_diagnostics_Nil:
  assumes "requirement_diagnostics env declared results req = Inr ds"
  shows "ds = [] \<longleftrightarrow> distinct (tap_artifact_ids req) \<and> tap_terminal_result req \<in> results
    \<and> set (tap_artifact_ids req) \<subseteq> declared"
proof (cases "tap_terminal_result req \<in> results")
  case True
  then show ?thesis
    using assms unfolding requirement_diagnostics_def Let_def bind_result_Inr
    by (elim exE conjE) (drule duplicate_reports_Nil, simp only: not_not if_False simp_thms,
        drule traverse_Nil, auto simp: filter_empty_conv)
next
  case False
  then show ?thesis
    using assms unfolding requirement_diagnostics_def Let_def bind_result_Inr
    by (elim exE conjE) (auto simp: bind_result_Inr)
qed

lemma producer_diagnostic_Nil:
  "producer_diagnostic env producers gated terminal a = Inr ds
   \<Longrightarrow> ds = [] \<longleftrightarrow> set (producers a) \<inter> gated \<noteq> {}"
  unfolding producer_diagnostic_def by (auto simp: bind_result_Inr split: if_splits)

lemma producer_diagnostics_Nil:
  assumes "producer_diagnostics env producers declared gated req = Inr ds"
  shows "ds = [] \<longleftrightarrow> (\<forall>a \<in> set (tap_artifact_ids req) \<inter> declared. set (producers a) \<inter> gated \<noteq> {})"
proof -
  have "ds = [] \<longleftrightarrow>
        (\<forall>a \<in> set (filter (\<lambda>a. a \<in> declared) (sorted_set (set (tap_artifact_ids req)))).
           set (producers a) \<inter> gated \<noteq> {})"
    using assms unfolding producer_diagnostics_def bind_result_Inr
    by (elim exE conjE) (drule traverse_each_Nil, erule producer_diagnostic_Nil, simp only: sum.inject)
  then show ?thesis by auto
qed

lemma artifact_ancestors_spec:
  assumes dist: "distinct (map hnode_id nodes)" and sound: "prerequisites_sound nodes"
    and t: "t \<in> hnode_id ` set nodes"
  shows "artifact_ancestors t (nodes_by_id nodes) = Inr {p. (depends nodes)\<^sup>+\<^sup>+ t p}"
proof -
  define rv where "rv = map (\<lambda>n. (hnode_id n, map prereq_node_id (hnode_prerequisites n))) nodes"
  have keys: "keys rv = map hnode_id nodes" by (simp add: rv_def comp_def)
  have some: "map_of rv (hnode_id n) = Some (map prereq_node_id (hnode_prerequisites n))" if "n \<in> set nodes" for n
    using that dist keys by (intro map_of_is_SomeI) (auto simp: rv_def comp_def)
  have edge_iff: "edge rv i j \<longleftrightarrow> depends nodes i j" for i j
  proof (cases "i \<in> hnode_id ` set nodes")
    case True
    then obtain n where n: "n \<in> set nodes" "hnode_id n = i" by auto
    have "m = n" if "m \<in> set nodes" "hnode_id m = i" for m
      using that n dist by (auto simp: distinct_map inj_on_def)
    then have "depends nodes i j \<longleftrightarrow> (\<exists>p \<in> set (hnode_prerequisites n). prereq_node_id p = j)"
      unfolding depends_def prerequisite_pairs_iff using n by blast
    moreover have "successors rv i = map prereq_node_id (hnode_prerequisites n)"
      using some [OF n(1)] n(2) by (simp add: successors_some)
    ultimately show ?thesis by auto
  next
    case False
    then have "map_of rv i = None" using keys by (simp add: map_of_eq_None_iff flip: set_map)
    then show ?thesis using False by (auto simp: successors_def depends_def prerequisite_pairs_iff)
  qed
  have closed: "closed_adjacency rv"
    unfolding closed_adjacency_def keys
    using sound edge_iff unfolding prerequisites_sound_def depends_def prerequisite_pairs_iff set_map
    by (intro allI subsetI) (simp add: image_iff, metis)
  obtain ps where ps: "map_of rv t = Some ps" using t some by blast
  have sub: "set (rev ps) \<subseteq> set (keys rv)"
    using closed successors_some [OF ps] unfolding closed_adjacency_def by (metis set_rev)
  have "ancestor_loop rv {} (rev ps) = Inr (reach_from (successors rv) ({} \<union> set (rev ps)))"
    by (rule ancestor_loop_reach [OF closed sub]) simp
  then have "known_ancestor_loop rv {} (rev ps) = {p. (edge rv)\<^sup>+\<^sup>+ t p}"
    using known_ancestor_loop_eq [OF closed sub, of "{}"] reach_from_edges [of rv t] successors_some [OF ps] by simp
  moreover have "edge rv = depends nodes" using edge_iff by blast
  ultimately show ?thesis
    using ps by (simp add: artifact_ancestors_def Let_def nodes_by_id_distinct [OF dist] comp_def rv_def)
qed

lemma graph_result_fields:
  assumes "validate_harness_graph env source resolved_nodes allowed = Inr r"
  shows "gvr_terminal_node_ids r = map fst (terminal_nodes (graph_nodes (hs_graph source)))"
    and "gvr_terminal_result_map r
      = sort_key fst (foldl (\<lambda>d (n, r). dict_set d n r) [] (terminal_nodes (graph_nodes (hs_graph source))))"
    and "gvr_required_node_ids r = required_node_ids (graph_nodes (hs_graph source))"
  using assms by (auto simp: validate_harness_graph_def Let_def bind_result_Inr)

lemma terminal_result_map_eq:
  assumes "validate_harness_graph env source resolved_nodes allowed = Inr r"
    and dist: "distinct (map hnode_id (graph_nodes (hs_graph source)))"
  shows "gvr_terminal_result_map r = sort_key fst (terminal_nodes (graph_nodes (hs_graph source)))"
proof -
  have "foldl (\<lambda>d (n, r). dict_set d n r) [] ts = ts" if "distinct (map fst ts)" for ts :: "(string \<times> string) list"
    using foldl_dict_set [of "[]" fst ts snd] that by (simp add: case_prod_beta')
  then show ?thesis
    using terminal_nodes_props(1) [OF dist] by (simp add: graph_result_fields(2) [OF assms(1)])
qed

lemma terminal_nodes_iff:
  "(t, r) \<in> set (terminal_nodes nodes) \<longleftrightarrow>
     (\<exists>n \<in> set nodes. hnode_id n = t \<and> hnode_terminal_result n = Some r)"
  by (auto simp: terminal_nodes_def is_terminal_node_def image_iff)

lemma terminal_nodes_by_result_iff:
  assumes "distinct (map snd ts)"
  shows "map_of (terminal_nodes_by_result ts) r = Some t \<longleftrightarrow> (t, r) \<in> set ts"
proof -
  have "terminal_nodes_by_result ts = map (\<lambda>x. (snd x, fst x)) ts"
    using foldl_dict_set [of "[]" snd ts fst] assms by (simp add: terminal_nodes_by_result_def case_prod_beta')
  then show ?thesis
    using assms by (force simp: map_of_eq_Some_iff comp_def image_iff)
qed

lemma valid_producers_iff:
  "i \<in> set (valid_producers nodes entries declared a) \<longleftrightarrow>
     (\<exists>n \<in> set nodes. hnode_id n = i \<and> (\<exists>d. map_of entries i = Some d \<and> a \<in> set (hnode_produces n)
        \<and> a \<in> declared \<and> a \<in> set (td_produced_artifact_ids d)))"
  by (auto simp: valid_producers_def image_iff split: option.splits)

lemma gated_requirements_spec:
  assumes "gated_requirements by_id g reqs = Inr gated"
    and anc: "\<And>t. t \<in> set (gvr_terminal_node_ids g) \<Longrightarrow> artifact_ancestors t by_id = Inr (A t)"
    and owners: "\<And>req. req \<in> set reqs \<Longrightarrow>
      map_of (terminal_nodes_by_result (gvr_terminal_result_map g)) (tap_terminal_result req) = T req"
  shows "(\<forall>(req, G) \<in> set gated. P req G) \<longleftrightarrow>
    (\<forall>req \<in> set reqs. \<forall>t. T req = Some t \<longrightarrow> P req (A t \<union> set (gvr_required_node_ids g)))"
proof -
  let ?ts = "gvr_terminal_node_ids g"
  have "traverse (\<lambda>t. bind_result (artifact_ancestors t by_id) (\<lambda>a. Ok (t, a))) ?ts = Inr (map (\<lambda>t. (t, A t)) ?ts)"
    by (rule traverse_map) (simp add: anc)
  then obtain rss where rss: "traverse (\<lambda>req.
         case map_of (terminal_nodes_by_result (gvr_terminal_result_map g)) (tap_terminal_result req) of
           None \<Rightarrow> Ok []
         | Some t \<Rightarrow> (case map_of (map (\<lambda>t. (t, A t)) ?ts) t of
                None \<Rightarrow> Raise (KeyError t)
              | Some a \<Rightarrow> Ok [(req, a \<union> set (gvr_required_node_ids g))])) reqs = Inr rss"
      and gated: "gated = concat rss"
    using assms(1) by (auto simp: gated_requirements_def bind_result_Inr)
  have one: "map_of (map (\<lambda>t. (t, A t)) ts) t = Some a \<Longrightarrow> a = A t" for ts t a
    by (induction ts) (auto split: if_splits)
  have first: "(\<forall>(req, G) \<in> set y. P req G) \<longleftrightarrow>
        (\<forall>t. T req = Some t \<longrightarrow> P req (A t \<union> set (gvr_required_node_ids g)))"
    if "(case T req of None \<Rightarrow> Ok []
         | Some t \<Rightarrow> (case map_of (map (\<lambda>t. (t, A t)) ts) t of
                None \<Rightarrow> Raise (KeyError t)
              | Some a \<Rightarrow> Ok [(req, a \<union> set (gvr_required_node_ids g))])) = Inr y" for req y ts
  proof (cases "T req")
    case None
    then show ?thesis using that by simp
  next
    case (Some t)
    show ?thesis
    proof (cases "map_of (map (\<lambda>t. (t, A t)) ts) t")
      case None
      then show ?thesis using that \<open>T req = Some t\<close> by simp
    next
      case (Some a)
      with that one [OF Some] \<open>T req = Some t\<close> have "y = [(req, A t \<union> set (gvr_required_node_ids g))]" by simp
      then show ?thesis using \<open>T req = Some t\<close> by simp
    qed
  qed
  have "(\<forall>(req, G) \<in> set (concat rss). P req G) \<longleftrightarrow>
    (\<forall>req \<in> set reqs. \<forall>t. T req = Some t \<longrightarrow> P req (A t \<union> set (gvr_required_node_ids g)))"
    using rss owners
  proof (induction reqs arbitrary: rss)
    case (Cons req reqs)
    obtain y ys where y: "rss = y # ys" and
      hd: "(case T req of None \<Rightarrow> Ok []
         | Some t \<Rightarrow> (case map_of (map (\<lambda>t. (t, A t)) ?ts) t of
                None \<Rightarrow> Raise (KeyError t)
              | Some a \<Rightarrow> Ok [(req, a \<union> set (gvr_required_node_ids g))])) = Inr y" and
      tl: "traverse (\<lambda>req.
         case map_of (terminal_nodes_by_result (gvr_terminal_result_map g)) (tap_terminal_result req) of
           None \<Rightarrow> Ok []
         | Some t \<Rightarrow> (case map_of (map (\<lambda>t. (t, A t)) ?ts) t of
                None \<Rightarrow> Raise (KeyError t)
              | Some a \<Rightarrow> Ok [(req, a \<union> set (gvr_required_node_ids g))])) reqs = Inr ys"
      using Cons.prems(1) Cons.prems(2) [of req] by (auto simp: result_simps)
    have ih: "(\<forall>(req, G) \<in> set (concat ys). P req G) \<longleftrightarrow>
      (\<forall>req \<in> set reqs. \<forall>t. T req = Some t \<longrightarrow> P req (A t \<union> set (gvr_required_node_ids g)))"
      by (rule Cons.IH [OF tl]) (use Cons.prems(2) in simp)
    show ?case using ih first [OF hd] unfolding y by (simp add: ball_Un)
  qed simp
  then show ?thesis by (simp add: gated)
qed

text \<open>What it means for the artifacts of a harness to be in order.\<close>

definition artifacts_sound ::
  "harness_node_source list \<Rightarrow> (string \<times> tool_catalog_entry) list \<Rightarrow> string list \<Rightarrow>
   terminal_artifact_policy_source list \<Rightarrow> bool" where
  "artifacts_sound nodes entries declared requirements \<longleftrightarrow>
     distinct declared
     \<and> (\<forall>n \<in> set nodes. \<forall>d. map_of entries (hnode_id n) = Some d \<longrightarrow>
          distinct (hnode_produces n)
          \<and> set (hnode_produces n) \<subseteq> set declared \<inter> set (td_produced_artifact_ids d))
     \<and> (\<forall>req \<in> set requirements. distinct (tap_artifact_ids req) \<and> set (tap_artifact_ids req) \<subseteq> set declared
          \<and> (\<exists>t \<in> set nodes. hnode_terminal_result t = Some (tap_terminal_result req)
               \<and> (\<forall>a \<in> set (tap_artifact_ids req). \<exists>n \<in> set nodes. a \<in> set (hnode_produces n)
                    \<and> (hnode_required n \<or> (depends nodes)\<^sup>+\<^sup>+ (hnode_id t) (hnode_id n)))))"

lemma sort_diagnostics_Nil [simp]: "sort_diagnostics ds = [] \<longleftrightarrow> ds = []"
  by (simp add: sort_diagnostics_def)

lemma artifact_validation_exact:
  assumes wf: "wf_harness_graph (hs_graph source)"
    and res: "hnode_id ` set (graph_nodes (hs_graph source)) \<subseteq> fst ` set resolved_nodes"
    and graph: "validate_harness_graph env source resolved_nodes allowed = Inr g" "gvr_diagnostics g = []"
    and run: "validate_artifacts env source resolved_nodes g = Inr r"
  shows "avr_diagnostics r = [] \<longleftrightarrow>
    artifacts_sound (graph_nodes (hs_graph source)) (resolved_entries resolved_nodes)
      (declared_artifact_ids (hs_artifacts source)) (required_by_terminal (hs_artifacts source))"
proof -
  define nodes where "nodes = graph_nodes (hs_graph source)"
  define entries where "entries = resolved_entries resolved_nodes"
  define declared where "declared = declared_artifact_ids (hs_artifacts source)"
  define reqs where "reqs = required_by_terminal (hs_artifacts source)"
  define terminals where "terminals = terminal_nodes nodes"
  let ?prods = "valid_producers nodes entries (set declared)"
  have dist: "distinct (map hnode_id nodes)" using wf by (simp add: wf_harness_graph_def nodes_def)
  have sound: "prerequisites_sound nodes" and ts: "terminals_sound nodes allowed"
    using graph_validation_exact [OF wf res graph(1)] graph(2) by (simp_all add: gvr_ok_def nodes_def)
  have tmap: "gvr_terminal_result_map g = sort_key fst terminals"
    using terminal_result_map_eq [OF graph(1)] dist by (simp add: nodes_def terminals_def)
  have tdist: "distinct (map snd (sort_key fst terminals))"
    using ts terminal_nodes_props(3) [OF dist] by (simp add: terminals_sound_def Let_def terminals_def)
  obtain d1 d2 d3 gated d4 where
    d1: "d1 = [] \<longleftrightarrow> distinct declared" and
    d2: "traverse (\<lambda>n. case map_of entries (hnode_id n) of None \<Rightarrow> Ok []
           | Some d \<Rightarrow> node_artifact_diagnostics env (set declared) n d) (sort_key hnode_id nodes) = Inr d2" and
    d3: "traverse (requirement_diagnostics env (set declared) (set (map snd (gvr_terminal_result_map g)))) reqs
           = Inr d3" and
    gated: "gated_requirements (nodes_by_id nodes) g reqs = Inr gated" and
    d4: "traverse (\<lambda>(req, G). producer_diagnostics env ?prods (set declared) G req) gated = Inr d4" and
    r: "avr_diagnostics r = [] \<longleftrightarrow> d1 @ concat d2 @ concat d3 @ concat d4 = []"
    using run graph(2) unfolding validate_artifacts_def Let_def bind_result_Inr if_P [OF refl]
      nodes_def [symmetric] entries_def [symmetric] declared_def [symmetric] reqs_def [symmetric]
    by (elim exE conjE) (drule duplicate_reports_Nil, simp only: if_True simp_thms,
        rule that, assumption+, auto)
  have e2: "concat d2 = [] \<longleftrightarrow> (\<forall>n \<in> set nodes. \<forall>d. map_of entries (hnode_id n) = Some d \<longrightarrow>
        distinct (hnode_produces n) \<and> set (hnode_produces n) \<subseteq> set declared \<inter> set (td_produced_artifact_ids d))"
  proof -
    have "concat d2 = [] \<longleftrightarrow> (\<forall>n \<in> set (sort_key hnode_id nodes). \<forall>d. map_of entries (hnode_id n) = Some d \<longrightarrow>
        distinct (hnode_produces n) \<and> set (hnode_produces n) \<subseteq> set declared \<inter> set (td_produced_artifact_ids d))"
      by (rule traverse_each_Nil [OF d2]) (auto split: option.splits dest!: node_artifact_diagnostics_Nil)
    then show ?thesis by simp
  qed
  have e3: "concat d3 = [] \<longleftrightarrow> (\<forall>req \<in> set reqs. distinct (tap_artifact_ids req)
        \<and> tap_terminal_result req \<in> snd ` set terminals \<and> set (tap_artifact_ids req) \<subseteq> set declared)"
    using traverse_each_Nil [OF d3 requirement_diagnostics_Nil] by (simp add: tmap)
  have anc: "artifact_ancestors t (nodes_by_id nodes) = Inr {p. (depends nodes)\<^sup>+\<^sup>+ t p}"
    if "t \<in> set (gvr_terminal_node_ids g)" for t
    using that artifact_ancestors_spec [OF dist sound]
    by (auto simp: graph_result_fields(1) [OF graph(1)] nodes_def [symmetric] terminal_nodes_def)
  have e4: "concat d4 = [] \<longleftrightarrow> (\<forall>req \<in> set reqs. \<forall>t. (t, tap_terminal_result req) \<in> set terminals \<longrightarrow>
        (\<forall>a \<in> set (tap_artifact_ids req) \<inter> set declared. set (?prods a)
           \<inter> ({p. (depends nodes)\<^sup>+\<^sup>+ t p} \<union> set (required_node_ids nodes)) \<noteq> {}))"
  proof -
    have "concat d4 = [] \<longleftrightarrow> (\<forall>(req, G) \<in> set gated.
        \<forall>a \<in> set (tap_artifact_ids req) \<inter> set declared. set (?prods a) \<inter> G \<noteq> {})"
      by (rule traverse_each_Nil [OF d4]) (auto dest!: producer_diagnostics_Nil)
    also have "\<dots> \<longleftrightarrow> (\<forall>req \<in> set reqs. \<forall>t.
        map_of (terminal_nodes_by_result (gvr_terminal_result_map g)) (tap_terminal_result req) = Some t \<longrightarrow>
        (\<forall>a \<in> set (tap_artifact_ids req) \<inter> set declared. set (?prods a)
           \<inter> ({p. (depends nodes)\<^sup>+\<^sup>+ t p} \<union> set (gvr_required_node_ids g)) \<noteq> {}))"
      by (rule gated_requirements_spec [OF gated anc refl])
    finally show ?thesis
      by (simp add: tmap terminal_nodes_by_result_iff [OF tdist] graph_result_fields(3) [OF graph(1)] nodes_def)
  qed
  have in_entries: "\<exists>d. map_of entries (hnode_id n) = Some d" if "n \<in> set nodes" for n
  proof -
    have "fst ` set entries = fst ` set resolved_nodes" by (force simp: entries_def resolved_entries_def)
    then have "hnode_id n \<in> fst ` set entries" using that res by (auto simp: nodes_def)
    then show ?thesis by (metis map_of_eq_None_iff not_None_eq)
  qed
  have prods: "i \<in> set (?prods a) \<longleftrightarrow> (\<exists>n \<in> set nodes. hnode_id n = i \<and> a \<in> set (hnode_produces n))"
    if ok: "concat d2 = []" for i a
  proof -
    have "\<exists>d. map_of entries (hnode_id n) = Some d \<and> a \<in> set declared \<and> a \<in> set (td_produced_artifact_ids d)"
      if n: "n \<in> set nodes" "a \<in> set (hnode_produces n)" for n
    proof -
      obtain d where "map_of entries (hnode_id n) = Some d" using in_entries [OF n(1)] by blast
      then show ?thesis using ok [unfolded e2] n by blast
    qed
    then show ?thesis unfolding valid_producers_iff by blast
  qed
  have owner: "(\<exists>t \<in> set nodes. hnode_terminal_result t = Some res \<and> Q (hnode_id t)) \<longleftrightarrow>
      res \<in> snd ` set terminals \<and> (\<forall>t. (t, res) \<in> set terminals \<longrightarrow> Q t)" for res Q
  proof -
    have "t = t'" if "(t, res) \<in> set terminals" "(t', res) \<in> set terminals" for t t'
      using tdist that by (fastforce simp: distinct_map inj_on_def)
    moreover have "res \<in> snd ` set terminals \<longleftrightarrow> (\<exists>t. (t, res) \<in> set terminals)" by force
    ultimately have "(\<exists>t. (t, res) \<in> set terminals \<and> Q t) \<longleftrightarrow>
      res \<in> snd ` set terminals \<and> (\<forall>t. (t, res) \<in> set terminals \<longrightarrow> Q t)" by blast
    then show ?thesis unfolding terminals_def terminal_nodes_iff by blast
  qed
  have inter: "set (?prods a) \<inter> ({p. (depends nodes)\<^sup>+\<^sup>+ t p} \<union> set (required_node_ids nodes)) \<noteq> {} \<longleftrightarrow>
      (\<exists>n \<in> set nodes. a \<in> set (hnode_produces n) \<and> (hnode_required n \<or> (depends nodes)\<^sup>+\<^sup>+ t (hnode_id n)))"
    if "concat d2 = []" for a t
  proof -
    have "hnode_required n \<longleftrightarrow> hnode_id n \<in> set (required_node_ids nodes)" if "n \<in> set nodes" for n
      using that dist by (auto simp: required_node_ids_def distinct_map inj_on_def)
    then show ?thesis using prods [OF that] by (auto simp: set_eq_iff)
  qed
  have "d1 = [] \<and> concat d2 = [] \<and> concat d3 = [] \<and> concat d4 = [] \<longleftrightarrow>
      artifacts_sound nodes entries declared reqs"
  proof (cases "concat d2 = []")
    case False
    then show ?thesis unfolding e2 artifacts_sound_def by blast
  next
    case True
    have "concat d3 = [] \<and> concat d4 = [] \<longleftrightarrow> (\<forall>req \<in> set reqs. distinct (tap_artifact_ids req)
        \<and> set (tap_artifact_ids req) \<subseteq> set declared
        \<and> tap_terminal_result req \<in> snd ` set terminals
        \<and> (\<forall>t. (t, tap_terminal_result req) \<in> set terminals \<longrightarrow>
            (\<forall>a \<in> set (tap_artifact_ids req). \<exists>n \<in> set nodes. a \<in> set (hnode_produces n)
               \<and> (hnode_required n \<or> (depends nodes)\<^sup>+\<^sup>+ t (hnode_id n)))))"
      unfolding e3 e4 inter [OF True] by blast
    moreover have own: "(\<exists>t \<in> set nodes. hnode_terminal_result t = Some (tap_terminal_result req)
               \<and> (\<forall>a \<in> set (tap_artifact_ids req). \<exists>n \<in> set nodes. a \<in> set (hnode_produces n)
                    \<and> (hnode_required n \<or> (depends nodes)\<^sup>+\<^sup>+ (hnode_id t) (hnode_id n))))
        \<longleftrightarrow> tap_terminal_result req \<in> snd ` set terminals
        \<and> (\<forall>t. (t, tap_terminal_result req) \<in> set terminals \<longrightarrow>
            (\<forall>a \<in> set (tap_artifact_ids req). \<exists>n \<in> set nodes. a \<in> set (hnode_produces n)
               \<and> (hnode_required n \<or> (depends nodes)\<^sup>+\<^sup>+ t (hnode_id n))))" for req
      by (rule owner)
    ultimately show ?thesis
      unfolding artifacts_sound_def d1 own using True [unfolded e2] True by simp
  qed
  then show ?thesis
    unfolding r append_is_Nil_conv nodes_def entries_def declared_def reqs_def .
qed

text \<open>
  C10: artifact validation is exact. When the graph of a fully resolved harness was validated
  without diagnostics, an artifact validation that returns reports nothing exactly when the
  declared artifacts are distinct, every node's produced artifacts are distinct, declared and
  within what its tool produces, and every terminal requirement names a terminal result of the
  graph and distinct declared artifacts, each produced by a node that must have run before that
  terminal: a required node or an ancestor of the terminal node.
\<close>

theorem validate_artifacts_exact:
  assumes "wf_harness_graph (hs_graph source)"
    and "hnode_id ` set (graph_nodes (hs_graph source)) \<subseteq> fst ` set resolved_nodes"
    and "validate_harness_graph env source resolved_nodes allowed = Inr g" and "gvr_diagnostics g = []"
    and "validate_artifacts env source resolved_nodes g = Inr r"
  shows "avr_diagnostics r = [] \<longleftrightarrow>
    artifacts_sound (graph_nodes (hs_graph source)) (resolved_entries resolved_nodes)
      (declared_artifact_ids (hs_artifacts source)) (required_by_terminal (hs_artifacts source))"
  by (rule artifact_validation_exact [OF assms])

definition sample_artifact_result :: artifact_validation_result where
  "sample_artifact_result = \<lparr>avr_diagnostics = [], avr_producer_evidence =
     [\<lparr>ev_artifact_id = ''patch'', ev_all_producer_node_ids = [''write''],
       ev_terminal_gated_producer_node_ids = [''write'']\<rparr>]\<rparr>"

lemma sample_artifact_eval:
  "sort_key hnode_id sample_nodes = [sample_nodes ! 2, sample_nodes ! 0, sample_nodes ! 1]"
  "valid_producers sample_nodes (resolved_entries sample_resolved) {''patch''} ''patch'' = [''write'']"
  "gated_requirements (nodes_by_id sample_nodes) sample_graph_result
     [\<lparr>tap_terminal_result = ''DONE'', tap_artifact_ids = [''patch'']\<rparr>]
   = Inr [(\<lparr>tap_terminal_result = ''DONE'', tap_artifact_ids = [''patch'']\<rparr>, {''read'', ''write''})]"
  "map_of (resolved_entries sample_resolved) ''read'' = Some (sample_tool ''read'')"
  "map_of (resolved_entries sample_resolved) ''write'' = Some (sample_tool ''write'')"
  "map_of (resolved_entries sample_resolved) ''done'' = Some (sample_tool ''done'')"
  by code_simp+

lemma sample_artifacts_validate:
  "validate_artifacts plain_env sample_source sample_resolved sample_graph_result = Inr sample_artifact_result"
proof -
  have parts:
    "declared_artifact_ids (hs_artifacts sample_source) = [''patch'']"
    "required_by_terminal (hs_artifacts sample_source)
       = [\<lparr>tap_terminal_result = ''DONE'', tap_artifact_ids = [''patch'']\<rparr>]"
    "gvr_diagnostics sample_graph_result = []"
    "set (map snd (gvr_terminal_result_map sample_graph_result)) = {''DONE''}"
    by (simp_all add: sample_source_def sample_graph_result_def)
  have nodes: "sample_nodes ! 0 = sample_node ''read'' True [] None"
    "hnode_id (sample_nodes ! Suc 0) = ''write''" "hnode_produces (sample_nodes ! Suc 0) = [''patch'']"
    "hnode_id (sample_nodes ! 2) = ''done''" "hnode_produces (sample_nodes ! 2) = []"
    by (simp_all add: sample_source_def sample_node_def sample_artifacts_def)
  have fields: "hnode_id (sample_node n q ps t) = n" "hnode_produces (sample_node n q ps t) = sample_artifacts n"
    "td_produced_artifact_ids (sample_tool n) = sample_artifacts n" for n q ps t
    by (simp_all add: sample_node_def sample_tool_def)
  show ?thesis
    unfolding validate_artifacts_def Let_def parts sample_artifact_eval(1)
    by (simp add: sample_artifact_eval(2-6) nodes fields sample_artifacts_def duplicates_def
        node_artifact_diagnostics_def requirement_diagnostics_def producer_diagnostics_def producer_diagnostic_def
        gated_producers_def sample_artifact_result_def sort_diagnostics_def)
qed

theorem validate_artifacts_exact_witness:
  "artifacts_sound sample_nodes (resolved_entries sample_resolved)
     (declared_artifact_ids (hs_artifacts sample_source)) (required_by_terminal (hs_artifacts sample_source))"
proof -
  have "hnode_id ` set sample_nodes \<subseteq> fst ` set sample_resolved"
    by (simp add: sample_source_def sample_node_def sample_resolved_def)
  from validate_artifacts_exact [OF sample_graph_wf this sample_graph_validates _ sample_artifacts_validate]
  show ?thesis by (simp add: sample_artifact_result_def sample_graph_result_def)
qed

end
