(* ===== verification/Compiled_Plan.thy ===== *)
theory Compiled_Plan
  imports Catalog
begin

text \<open>
  The compiled plan of \<^verbatim>\<open>compiled_plan.py\<close>: its classes with their field validators, the
  cross-field invariants, the canonical JSON text and the self-describing SHA-256 digest.

  A \<open>check_\<close> function runs the validators of one class, nested objects first, and gives the
  object back or the first error. Three things are not the program's own code and are parameters:
  the hash function, \<^verbatim>\<open>json.loads\<close>, and Pydantic's conversion of a JSON value to the typed fields.
\<close>

section \<open>Field validators\<close>

definition nonblank_field :: "string \<Rightarrow> string \<Rightarrow> string result" where
  "nonblank_field value field_name =
     (if \<not> nonblank value then Raise (ValueError (field_name @ '' must be a non-empty string''))
      else Ok value)"

definition unique_field :: "string list \<Rightarrow> string \<Rightarrow> unit result" where
  "unique_field values field_name =
     (if card (set values) \<noteq> length values
      then Raise (ValueError (field_name @ '' values must be unique'')) else Ok ())"

definition sha256_field :: "string \<Rightarrow> string \<Rightarrow> string result" where
  "sha256_field value field_name =
     (if \<not> SHA256_RE value
      then Raise (ValueError (field_name @ '' must be exactly 64 lowercase hex characters''))
      else Ok value)"

text \<open>The validators of tuples of names: each item is nonblank, then all are distinct.\<close>

definition names_field :: "string list \<Rightarrow> string \<Rightarrow> string list result" where
  "names_field value field_name =
     bind_result (traverse (\<lambda>item. nonblank_field item field_name) value) (\<lambda>_.
     bind_result (unique_field value field_name) (\<lambda>_. Ok value))"

lemma nonblank_field_Inr [result_simps]: "nonblank_field v f = Inr w \<longleftrightarrow> w = v \<and> nonblank v"
  by (auto simp: nonblank_field_def)

lemma unique_field_Inr [result_simps]: "unique_field vs f = Inr u \<longleftrightarrow> distinct vs"
  using card_distinct [of vs] distinct_card [of vs] by (auto simp: unique_field_def)

lemma sha256_field_Inr [result_simps]: "sha256_field v f = Inr w \<longleftrightarrow> w = v \<and> SHA256_RE v"
  by (auto simp: sha256_field_def)

lemma traverse_check_Inr:
  assumes "\<And>x y. f x = Inr y \<longleftrightarrow> y = x \<and> P x"
  shows "traverse f xs = Inr ys \<longleftrightarrow> ys = xs \<and> (\<forall>x \<in> set xs. P x)"
  by (induction xs arbitrary: ys) (auto simp: result_simps assms)

lemma names_field_Inr [result_simps]:
  "names_field vs f = Inr ws \<longleftrightarrow> ws = vs \<and> (\<forall>v \<in> set vs. nonblank v) \<and> distinct vs"
  by (auto simp: names_field_def bind_result_Inr unique_field_Inr
      traverse_check_Inr [where P = nonblank, OF nonblank_field_Inr])

section \<open>The classes of a plan\<close>

definition check_model_profile :: "compiled_model_profile \<Rightarrow> compiled_model_profile result" where
  "check_model_profile p = bind_result (nonblank_field (profile_id p) ''profile_id'') (\<lambda>_. Ok p)"

record compiler_identity =
  ci_name :: string
  ci_version :: string
  ci_build_id :: string

definition check_compiler_identity :: "compiler_identity \<Rightarrow> compiler_identity result" where
  "check_compiler_identity c =
     bind_result (nonblank_field (ci_name c) ''name'') (\<lambda>_.
     bind_result (nonblank_field (ci_version c) ''version'') (\<lambda>_.
     bind_result (nonblank_field (ci_build_id c) ''build_id'') (\<lambda>_. Ok c)))"

record compiled_prompt_policy =
  pp_policy_id :: string
  pp_system_instructions :: string
  pp_include_request_context :: bool

definition check_prompt_policy :: "compiled_prompt_policy \<Rightarrow> compiled_prompt_policy result" where
  "check_prompt_policy p =
     bind_result (nonblank_field (pp_policy_id p) ''policy_id'') (\<lambda>_.
     bind_result (nonblank_field (pp_system_instructions p) ''system_instructions'') (\<lambda>_. Ok p))"

record compiled_budget_policy =
  bp_max_iterations :: int
  bp_max_validation_retries :: int
  bp_max_tool_errors :: int
  bp_max_prerequisite_violations :: int
  bp_max_premature_terminal_attempts :: int

definition require_positive :: "int \<Rightarrow> unit result" where
  "require_positive v = ensure (0 < v) (ValueError ''Input should be greater than 0'')"

definition check_budget_policy :: "compiled_budget_policy \<Rightarrow> compiled_budget_policy result" where
  "check_budget_policy b =
     bind_result (require_positive (bp_max_iterations b)) (\<lambda>_.
     bind_result (require_positive (bp_max_validation_retries b)) (\<lambda>_.
     bind_result (require_positive (bp_max_tool_errors b)) (\<lambda>_.
     bind_result (require_positive (bp_max_prerequisite_violations b)) (\<lambda>_.
     bind_result (require_positive (bp_max_premature_terminal_attempts b)) (\<lambda>_. Ok b)))))"

text \<open>The three thresholds are finite by typing.\<close>

record compiled_context_policy =
  cp_strategy_id :: string
  cp_budget_tokens :: int
  cp_keep_recent_iterations :: int
  cp_phase_thresholds :: "rat \<times> rat \<times> rat"

definition check_context_policy :: "compiled_context_policy \<Rightarrow> compiled_context_policy result" where
  "check_context_policy c =
     (case cp_phase_thresholds c of (t1, t2, t3) \<Rightarrow>
      bind_result (ensure (cp_strategy_id c = ''forge.tiered.v1'')
        (ValueError (''Input should be '' @ py_repr ''forge.tiered.v1''))) (\<lambda>_.
      bind_result (require_positive (cp_budget_tokens c)) (\<lambda>_.
      bind_result (ensure (0 \<le> cp_keep_recent_iterations c)
        (ValueError ''Input should be greater than or equal to 0'')) (\<lambda>_.
      bind_result (ensure (\<not> (\<exists>item \<in> {t1, t2, t3}. item \<le> 0 \<or> item > 1))
        (ValueError ''phase_thresholds must be in (0, 1]'')) (\<lambda>_.
      bind_result (ensure (sort [t1, t2, t3] = [t1, t2, t3])
        (ValueError ''phase_thresholds must be non-decreasing'')) (\<lambda>_.
      Ok c))))))"

record tool_binding_ref =
  tb_tool_id :: string
  tb_tool_version :: int
  tb_descriptor_sha256 :: string
  tb_implementation_id :: string

definition check_tool_binding :: "tool_binding_ref \<Rightarrow> tool_binding_ref result" where
  "check_tool_binding b =
     bind_result (nonblank_field (tb_tool_id b) ''tool_id'') (\<lambda>_.
     bind_result (require_positive (tb_tool_version b)) (\<lambda>_.
     bind_result (sha256_field (tb_descriptor_sha256 b) ''descriptor_sha256'') (\<lambda>_.
     bind_result (nonblank_field (tb_implementation_id b) ''implementation_id'') (\<lambda>_. Ok b))))"

record plan_argument_match =
  am_prerequisite_argument :: string
  am_current_argument :: string

definition check_plan_match :: "plan_argument_match \<Rightarrow> plan_argument_match result" where
  "check_plan_match m =
     bind_result (nonblank_field (am_prerequisite_argument m) ''prerequisite_argument'') (\<lambda>_.
     bind_result (nonblank_field (am_current_argument m) ''current_argument'') (\<lambda>_. Ok m))"

record compiled_prerequisite =
  cpre_node_id :: string
  cpre_argument_matches :: "plan_argument_match list"

definition check_compiled_prerequisite :: "compiled_prerequisite \<Rightarrow> compiled_prerequisite result" where
  "check_compiled_prerequisite p =
     bind_result (nonblank_field (cpre_node_id p) ''node_id'') (\<lambda>_.
     bind_result (traverse check_plan_match (cpre_argument_matches p)) (\<lambda>_. Ok p))"

record compiled_harness_node =
  cn_node_id :: string
  cn_model_tool_name :: string
  cn_description :: string
  cn_input_schema :: json
  cn_binding :: tool_binding_ref
  cn_prerequisites :: "compiled_prerequisite list"
  cn_required :: bool
  cn_terminal_result :: "string option"
  cn_required_capabilities :: "string list"
  cn_produced_artifact_ids :: "string list"
  cn_side_effect_class :: side_effect_class
  cn_idempotency :: idempotency_class

definition check_compiled_node :: "compiled_harness_node \<Rightarrow> compiled_harness_node result" where
  "check_compiled_node n =
     bind_result (nonblank_field (cn_node_id n) ''node_id'') (\<lambda>_.
     bind_result (nonblank_field (cn_model_tool_name n) ''model_tool_name'') (\<lambda>_.
     bind_result (nonblank_field (cn_description n) ''description'') (\<lambda>_.
     bind_result (check_tool_binding (cn_binding n)) (\<lambda>_.
     bind_result (traverse check_compiled_prerequisite (cn_prerequisites n)) (\<lambda>_.
     bind_result (optional (\<lambda>t. nonblank_field t ''terminal_result'') (cn_terminal_result n)) (\<lambda>_.
     bind_result (names_field (cn_required_capabilities n) ''required_capabilities'') (\<lambda>_.
     bind_result (names_field (cn_produced_artifact_ids n) ''produced_artifact_ids'') (\<lambda>_. Ok n))))))))"

record terminal_artifact_requirement =
  tar_terminal_result :: string
  tar_artifact_ids :: "string list"

definition check_terminal_requirement ::
  "terminal_artifact_requirement \<Rightarrow> terminal_artifact_requirement result" where
  "check_terminal_requirement r =
     bind_result (nonblank_field (tar_terminal_result r) ''terminal_result'') (\<lambda>_.
     bind_result (require_nonempty (tar_artifact_ids r)) (\<lambda>_.
     bind_result (names_field (tar_artifact_ids r) ''artifact_ids'') (\<lambda>_. Ok r)))"

record compiled_artifact_policy =
  cap_declared_artifact_ids :: "string list"
  cap_required_by_terminal :: "terminal_artifact_requirement list"

definition check_plan_artifacts :: "compiled_artifact_policy \<Rightarrow> compiled_artifact_policy result" where
  "check_plan_artifacts a =
     bind_result (names_field (cap_declared_artifact_ids a) ''declared_artifact_ids'') (\<lambda>_.
     bind_result (traverse check_terminal_requirement (cap_required_by_terminal a)) (\<lambda>_. Ok a))"

record compiled_harness_plan =
  plan_schema_version :: string
  plan_kind :: string
  plan_harness_id :: string
  plan_harness_version :: int
  plan_source_sha256 :: string
  plan_compiled_sha256 :: string
  plan_stage_kind_ids :: "string list"
  plan_model_profile :: compiled_model_profile
  plan_prompt_policy :: compiled_prompt_policy
  plan_budgets :: compiled_budget_policy
  plan_context_policy :: compiled_context_policy
  plan_nodes :: "compiled_harness_node list"
  plan_required_capabilities :: "string list"
  plan_terminal_result_map :: "(string \<times> string) list"
  plan_artifact_policy :: compiled_artifact_policy
  plan_compiler_identity :: compiler_identity

definition check_terminal_result_map :: "(string \<times> string) list \<Rightarrow> unit result" where
  "check_terminal_result_map value =
     bind_result (traverse (\<lambda>(key, item).
         bind_result (nonblank_field key ''terminal_result_map key'') (\<lambda>_.
         nonblank_field item ''terminal_result_map value'')) value) (\<lambda>_.
     ensure (card (set (map snd value)) = length value)
       (ValueError ''terminal_result_map values must be unique''))"

definition check_plan_fields :: "compiled_harness_plan \<Rightarrow> compiled_harness_plan result" where
  "check_plan_fields p =
     bind_result (ensure (plan_schema_version p = ''1.0'') (ValueError ''schema_version'')) (\<lambda>_.
     bind_result (ensure (plan_kind p = ''compiled_millforge_harness'') (ValueError ''kind'')) (\<lambda>_.
     bind_result (nonblank_field (plan_harness_id p) ''harness_id'') (\<lambda>_.
     bind_result (require_positive (plan_harness_version p)) (\<lambda>_.
     bind_result (sha256_field (plan_source_sha256 p) ''source_sha256'') (\<lambda>_.
     bind_result (sha256_field (plan_compiled_sha256 p) ''compiled_sha256'') (\<lambda>_.
     bind_result (names_field (plan_stage_kind_ids p) ''stage_kind_ids'') (\<lambda>_.
     bind_result (check_model_profile (plan_model_profile p)) (\<lambda>_.
     bind_result (check_prompt_policy (plan_prompt_policy p)) (\<lambda>_.
     bind_result (check_budget_policy (plan_budgets p)) (\<lambda>_.
     bind_result (check_context_policy (plan_context_policy p)) (\<lambda>_.
     bind_result (traverse check_compiled_node (plan_nodes p)) (\<lambda>_.
     bind_result (require_nonempty (plan_nodes p)) (\<lambda>_.
     bind_result (names_field (plan_required_capabilities p) ''required_capabilities'') (\<lambda>_.
     bind_result (check_terminal_result_map (plan_terminal_result_map p)) (\<lambda>_.
     bind_result (check_plan_artifacts (plan_artifact_policy p)) (\<lambda>_.
     bind_result (check_compiler_identity (plan_compiler_identity p)) (\<lambda>_. Ok p)))))))))))))))))"

section \<open>Cross-field invariants\<close>

definition report :: "bool \<Rightarrow> string \<Rightarrow> string list" where
  "report b message = (if b then [message] else [])"

lemma report_Nil [simp]: "report b message = [] \<longleftrightarrow> \<not> b"
  by (simp add: report_def)

text \<open>\<^verbatim>\<open>terminal_nodes\<close>: the nodes with a truthy (nonempty) terminal result, by identifier.\<close>

definition plan_terminal_nodes :: "compiled_harness_node list \<Rightarrow> (string \<times> compiled_harness_node) list" where
  "plan_terminal_nodes nodes =
     foldl (\<lambda>d n. dict_set d (cn_node_id n) n) []
       (filter (\<lambda>n. case cn_terminal_result n of None \<Rightarrow> False | Some t \<Rightarrow> t \<noteq> []) nodes)"

definition plan_terminal_results :: "compiled_harness_node list \<Rightarrow> string set" where
  "plan_terminal_results nodes = set (concat (map (\<lambda>n. case cn_terminal_result n of None \<Rightarrow> [] | Some t \<Rightarrow> [t]) nodes))"

definition node_violations ::
  "string list \<Rightarrow> string set \<Rightarrow> string set \<Rightarrow> compiled_harness_node \<Rightarrow> string list" where
  "node_violations node_ids capabilities artifacts n =
     report (cn_terminal_result n \<noteq> None \<and> cn_required n)
       (''Terminal node '' @ py_repr (cn_node_id n) @ '' must not be required'')
     @ concat (map (\<lambda>p.
         report (cpre_node_id p \<notin> set node_ids)
           (''Node '' @ py_repr (cn_node_id n) @ '' prerequisite references unknown node_id ''
              @ py_repr (cpre_node_id p))
         @ report (cpre_node_id p = cn_node_id n)
           (''Node '' @ py_repr (cn_node_id n) @ '' cannot require itself'')) (cn_prerequisites n))
     @ concat (map (\<lambda>c. report (c \<notin> capabilities)
         (''Node '' @ py_repr (cn_node_id n) @ '' requires undeclared capability '' @ py_repr c))
         (cn_required_capabilities n))
     @ concat (map (\<lambda>a. report (a \<notin> artifacts)
         (''Node '' @ py_repr (cn_node_id n) @ '' produces undeclared artifact '' @ py_repr a))
         (cn_produced_artifact_ids n))"

definition requirement_violations ::
  "string set \<Rightarrow> string set \<Rightarrow> string set \<Rightarrow> terminal_artifact_requirement \<Rightarrow> string list" where
  "requirement_violations results declared produced r =
     report (tar_terminal_result r \<notin> results)
       (''Artifact requirement terminal_result '' @ py_repr (tar_terminal_result r)
          @ '' is not in terminal_result_map'')
     @ concat (map (\<lambda>a.
         report (a \<notin> declared) (''Required artifact '' @ py_repr a @ '' is not declared'')
         @ report (a \<notin> produced) (''Required artifact '' @ py_repr a @ '' has no producer''))
         (tar_artifact_ids r))"

definition validate_plan_invariants :: "compiled_harness_plan \<Rightarrow> string list" where
  "validate_plan_invariants p =
     (let nodes = plan_nodes p;
          node_ids = map cn_node_id nodes;
          model_tool_names = map cn_model_tool_name nodes;
          binding_pairs = map (\<lambda>n. (tb_tool_id (cn_binding n), tb_tool_version (cn_binding n))) nodes;
          terminal_nodes = plan_terminal_nodes nodes;
          declared = set (cap_declared_artifact_ids (plan_artifact_policy p));
          produced = set (concat (map cn_produced_artifact_ids nodes))
      in report (card (set node_ids) \<noteq> length node_ids) ''node_id values must be unique''
         @ report (card (set model_tool_names) \<noteq> length model_tool_names)
             ''model_tool_name values must be unique''
         @ report (card (set binding_pairs) \<noteq> length binding_pairs)
             ''binding tool_id/tool_version pairs must be unique''
         @ report (terminal_nodes = []) ''Plan must contain at least one terminal node''
         @ concat (map (node_violations node_ids (set (plan_required_capabilities p)) declared) nodes)
         @ report (set (keys (plan_terminal_result_map p)) \<noteq> set (keys terminal_nodes))
             ''terminal_result_map keys must exactly name terminal nodes''
         @ concat (map (\<lambda>(node_id, terminal_result). case map_of terminal_nodes node_id of
               None \<Rightarrow> []
             | Some n \<Rightarrow> report (cn_terminal_result n \<noteq> Some terminal_result)
                 (''terminal_result_map value for '' @ py_repr node_id @ '' must match node terminal_result''))
             (plan_terminal_result_map p))
         @ concat (map (requirement_violations (plan_terminal_results nodes) declared produced)
             (cap_required_by_terminal (plan_artifact_policy p))))"

definition check_compiled_plan :: "compiled_harness_plan \<Rightarrow> compiled_harness_plan result" where
  "check_compiled_plan p =
     bind_result (check_plan_fields p) (\<lambda>q.
     if validate_plan_invariants q \<noteq> [] then Raise (ValueError (join_str ''; '' (validate_plan_invariants q)))
     else Ok q)"

text \<open>What a plan without violations satisfies.\<close>

definition plan_sound :: "compiled_harness_plan \<Rightarrow> bool" where
  "plan_sound p \<longleftrightarrow>
     (let nodes = plan_nodes p; declared = set (cap_declared_artifact_ids (plan_artifact_policy p)) in
      distinct (map cn_node_id nodes) \<and> distinct (map cn_model_tool_name nodes)
      \<and> distinct (map (\<lambda>n. (tb_tool_id (cn_binding n), tb_tool_version (cn_binding n))) nodes)
      \<and> (\<exists>n \<in> set nodes. \<exists>t. cn_terminal_result n = Some t \<and> t \<noteq> [])
      \<and> (\<forall>n \<in> set nodes.
           (cn_terminal_result n \<noteq> None \<longrightarrow> \<not> cn_required n)
           \<and> (\<forall>p \<in> set (cn_prerequisites n). cpre_node_id p \<noteq> cn_node_id n
                \<and> (\<exists>m \<in> set nodes. cn_node_id m = cpre_node_id p))
           \<and> set (cn_required_capabilities n) \<subseteq> set (plan_required_capabilities p)
           \<and> set (cn_produced_artifact_ids n) \<subseteq> declared)
      \<and> fst ` set (plan_terminal_result_map p)
          = cn_node_id ` {n \<in> set nodes. \<exists>t. cn_terminal_result n = Some t \<and> t \<noteq> []}
      \<and> (\<forall>(i, t) \<in> set (plan_terminal_result_map p). \<forall>n \<in> set nodes.
           cn_node_id n = i \<longrightarrow> cn_terminal_result n = Some t)
      \<and> (\<forall>r \<in> set (cap_required_by_terminal (plan_artifact_policy p)).
           (\<exists>n \<in> set nodes. cn_terminal_result n = Some (tar_terminal_result r))
           \<and> (\<forall>a \<in> set (tar_artifact_ids r). a \<in> declared
                \<and> (\<exists>n \<in> set nodes. a \<in> set (cn_produced_artifact_ids n)))))"

lemma node_violations_Nil:
  "node_violations ids caps arts n = [] \<longleftrightarrow>
     (cn_terminal_result n \<noteq> None \<longrightarrow> \<not> cn_required n)
     \<and> (\<forall>p \<in> set (cn_prerequisites n). cpre_node_id p \<noteq> cn_node_id n \<and> cpre_node_id p \<in> set ids)
     \<and> set (cn_required_capabilities n) \<subseteq> caps \<and> set (cn_produced_artifact_ids n) \<subseteq> arts"
  by (auto simp: node_violations_def)

lemma requirement_violations_Nil:
  "requirement_violations results declared produced r = [] \<longleftrightarrow>
     tar_terminal_result r \<in> results \<and> set (tar_artifact_ids r) \<subseteq> declared \<inter> produced"
  by (auto simp: requirement_violations_def)

lemma plan_terminal_nodes_eq:
  assumes "distinct (map cn_node_id nodes)"
  shows "plan_terminal_nodes nodes = map (\<lambda>n. (cn_node_id n, n))
    (filter (\<lambda>n. case cn_terminal_result n of None \<Rightarrow> False | Some t \<Rightarrow> t \<noteq> []) nodes)"
  unfolding plan_terminal_nodes_def
  using foldl_dict_set [of "[]" cn_node_id "filter (\<lambda>n. case cn_terminal_result n of None \<Rightarrow> False
      | Some t \<Rightarrow> t \<noteq> []) nodes" "\<lambda>n. n"] assms by (simp add: distinct_map_filter)

lemma plan_terminal_results_iff:
  "t \<in> plan_terminal_results nodes \<longleftrightarrow> (\<exists>n \<in> set nodes. cn_terminal_result n = Some t)"
  by (force simp: plan_terminal_results_def split: option.splits)

lemma plan_invariants_exact: "validate_plan_invariants p = [] \<longleftrightarrow> plan_sound p"
proof (cases "distinct (map cn_node_id (plan_nodes p))")
  case False
  then show ?thesis by (simp add: validate_plan_invariants_def plan_sound_def Let_def card_length_iff)
next
  case True
  let ?ns = "plan_nodes p"
  note tn = plan_terminal_nodes_eq [OF True]
  have keys: "set (keys (plan_terminal_nodes ?ns))
      = cn_node_id ` {n \<in> set ?ns. \<exists>t. cn_terminal_result n = Some t \<and> t \<noteq> []}"
    unfolding tn by (auto split: option.splits)
  have empty: "plan_terminal_nodes ?ns = [] \<longleftrightarrow> \<not> (\<exists>n \<in> set ?ns. \<exists>t. cn_terminal_result n = Some t \<and> t \<noteq> [])"
    unfolding tn by (auto simp: filter_empty_conv split: option.splits)
  have get: "map_of (plan_terminal_nodes ?ns) i = Some n \<longleftrightarrow>
      n \<in> set ?ns \<and> cn_node_id n = i \<and> (\<exists>t. cn_terminal_result n = Some t \<and> t \<noteq> [])" for i n
    unfolding tn using True
    by (subst map_of_eq_Some_iff) (auto simp: comp_def distinct_map_filter split: option.splits)
  have vals: "concat (map (\<lambda>(i, t). case map_of (plan_terminal_nodes ?ns) i of None \<Rightarrow> []
        | Some n \<Rightarrow> report (cn_terminal_result n \<noteq> Some t) (m i)) tmap) = [] \<longleftrightarrow>
      (\<forall>(i, t) \<in> set tmap. \<forall>n \<in> set ?ns. cn_node_id n = i \<longrightarrow> cn_terminal_result n = Some t)"
    if sub: "fst ` set tmap = cn_node_id ` {n \<in> set ?ns. \<exists>t. cn_terminal_result n = Some t \<and> t \<noteq> []}" for m tmap
  proof -
    have "(case map_of (plan_terminal_nodes ?ns) i of None \<Rightarrow> []
        | Some n \<Rightarrow> report (cn_terminal_result n \<noteq> Some t) (m i)) = [] \<longleftrightarrow>
        (\<forall>n \<in> set ?ns. cn_node_id n = i \<longrightarrow> cn_terminal_result n = Some t)" if it: "(i, t) \<in> set tmap" for i t
    proof -
      have "i \<in> cn_node_id ` {n \<in> set ?ns. \<exists>t. cn_terminal_result n = Some t \<and> t \<noteq> []}"
        using it sub by force
      then obtain n where n: "n \<in> set ?ns" "cn_node_id n = i" "\<exists>t. cn_terminal_result n = Some t \<and> t \<noteq> []" by auto
      have "m = n" if "m \<in> set ?ns" "cn_node_id m = i" for m
        using that n True by (auto simp: distinct_map inj_on_def)
      then have "(\<forall>m \<in> set ?ns. cn_node_id m = i \<longrightarrow> cn_terminal_result m = Some t)
          \<longleftrightarrow> cn_terminal_result n = Some t" using n by blast
      moreover have "map_of (plan_terminal_nodes ?ns) i = Some n" using n get by blast
      ultimately show ?thesis by simp
    qed
    then show ?thesis by fastforce
  qed
  have nodes: "concat (map (node_violations (map cn_node_id ?ns) caps arts) ?ns) = [] \<longleftrightarrow> (\<forall>n \<in> set ?ns.
           (cn_terminal_result n \<noteq> None \<longrightarrow> \<not> cn_required n)
           \<and> (\<forall>p \<in> set (cn_prerequisites n). cpre_node_id p \<noteq> cn_node_id n
                \<and> (\<exists>m \<in> set ?ns. cn_node_id m = cpre_node_id p))
           \<and> set (cn_required_capabilities n) \<subseteq> caps \<and> set (cn_produced_artifact_ids n) \<subseteq> arts)" for caps arts
  proof -
    have eq: "(\<exists>m \<in> S. cpre_node_id q = cn_node_id m) \<longleftrightarrow> (\<exists>m \<in> S. cn_node_id m = cpre_node_id q)" for q S
      unfolding eq_commute [of "cpre_node_id q"] ..
    show ?thesis unfolding concat_eq_Nil_conv set_map ball_simps node_violations_Nil image_iff eq ..
  qed
  have reqs: "concat (map (requirement_violations (plan_terminal_results ?ns) D
        (set (concat (map cn_produced_artifact_ids ?ns)))) rs) = [] \<longleftrightarrow> (\<forall>r \<in> set rs.
           (\<exists>n \<in> set ?ns. cn_terminal_result n = Some (tar_terminal_result r))
           \<and> (\<forall>a \<in> set (tar_artifact_ids r). a \<in> D \<and> (\<exists>n \<in> set ?ns. a \<in> set (cn_produced_artifact_ids n))))"
    for D rs
    by (simp add: requirement_violations_Nil plan_terminal_results_iff) blast
  have sets: "set (keys (plan_terminal_result_map p)) = fst ` set (plan_terminal_result_map p)" by simp
  show ?thesis
  proof (cases "fst ` set (plan_terminal_result_map p)
      = cn_node_id ` {n \<in> set ?ns. \<exists>t. cn_terminal_result n = Some t \<and> t \<noteq> []}")
    case same: True
    show ?thesis
      unfolding validate_plan_invariants_def plan_sound_def Let_def append_is_Nil_conv report_Nil empty keys
        card_length_iff not_not nodes reqs sets vals [OF same]
      using True same by (simp only: simp_thms)
  next
    case False
    then show ?thesis
      unfolding validate_plan_invariants_def plan_sound_def Let_def append_is_Nil_conv report_Nil keys sets
      by (simp only: simp_thms)
  qed
qed

text \<open>
  C11: the cross-field check of a compiled plan is exact. It reports no violation exactly when node
  identifiers, model tool names and tool bindings are distinct, there is a terminal node, no
  terminal node is required, prerequisites are other nodes of the plan, the capabilities and
  artifacts of the nodes are declared, the terminal map names exactly the terminal nodes with
  their results, and every artifact requirement is for a terminal result and for declared
  artifacts that some node produces.
\<close>

theorem validate_plan_invariants_exact: "validate_plan_invariants p = [] \<longleftrightarrow> plan_sound p"
  by (rule plan_invariants_exact)

section \<open>Canonical JSON and the digest\<close>

text \<open>
  \<open>json_loads\<close> is \<^verbatim>\<open>json.loads\<close> with a hook for the pairs of an object (its error is the text of the
  exception), \<open>plan_fields\<close> is the conversion of JSON to typed fields that Pydantic does before
  the validators run, \<open>sha256_hex\<close> the hexadecimal digest of a text.
\<close>

record plan_env =
  sha256_hex :: "string \<Rightarrow> string"
  float_text :: "rat \<Rightarrow> string"
  json_loads :: "((string \<times> json) list \<Rightarrow> (string \<times> json) list result) \<Rightarrow> string \<Rightarrow> string + json"
  plan_fields :: "json \<Rightarrow> compiled_harness_plan result"

fun replace_crlf :: "string \<Rightarrow> string" where
  "replace_crlf (c # d # s) =
     (if c = CHR 0x0D \<and> d = CHR 0x0A then CHR 0x0A # replace_crlf s else c # replace_crlf (d # s))"
| "replace_crlf s = s"

definition canonical_json_serialize :: "(rat \<Rightarrow> string) \<Rightarrow> json \<Rightarrow> string result" where
  "canonical_json_serialize fr obj =
     bind_result (json_dumps fr obj) (\<lambda>text. Ok (replace_crlf text @ [newline_chr]))"

text \<open>\<^verbatim>\<open>plan.model_dump(mode="json")\<close>, class by class.\<close>

abbreviation jstrs :: "string list \<Rightarrow> json" where
  "jstrs xs \<equiv> JArr (map JStr xs)"

definition prompt_policy_json :: "compiled_prompt_policy \<Rightarrow> json" where
  "prompt_policy_json p = JObj [(''policy_id'', JStr (pp_policy_id p)),
     (''system_instructions'', JStr (pp_system_instructions p)),
     (''include_request_context'', JBool (pp_include_request_context p))]"

definition budget_policy_json :: "compiled_budget_policy \<Rightarrow> json" where
  "budget_policy_json b = JObj [(''max_iterations'', JInt (bp_max_iterations b)),
     (''max_validation_retries'', JInt (bp_max_validation_retries b)),
     (''max_tool_errors'', JInt (bp_max_tool_errors b)),
     (''max_prerequisite_violations'', JInt (bp_max_prerequisite_violations b)),
     (''max_premature_terminal_attempts'', JInt (bp_max_premature_terminal_attempts b))]"

definition context_policy_json :: "compiled_context_policy \<Rightarrow> json" where
  "context_policy_json c = (case cp_phase_thresholds c of (t1, t2, t3) \<Rightarrow>
     JObj [(''strategy_id'', JStr (cp_strategy_id c)), (''budget_tokens'', JInt (cp_budget_tokens c)),
       (''keep_recent_iterations'', JInt (cp_keep_recent_iterations c)),
       (''phase_thresholds'', JArr (map (\<lambda>t. JFloat (Finite t)) [t1, t2, t3]))])"

definition tool_binding_json :: "tool_binding_ref \<Rightarrow> json" where
  "tool_binding_json b = JObj [(''tool_id'', JStr (tb_tool_id b)), (''tool_version'', JInt (tb_tool_version b)),
     (''descriptor_sha256'', JStr (tb_descriptor_sha256 b)), (''implementation_id'', JStr (tb_implementation_id b))]"

definition prerequisite_json :: "compiled_prerequisite \<Rightarrow> json" where
  "prerequisite_json p = JObj [(''node_id'', JStr (cpre_node_id p)),
     (''argument_matches'', JArr (map (\<lambda>m. JObj [(''prerequisite_argument'', JStr (am_prerequisite_argument m)),
        (''current_argument'', JStr (am_current_argument m))]) (cpre_argument_matches p)))]"

definition node_json :: "compiled_harness_node \<Rightarrow> json" where
  "node_json n = JObj [(''node_id'', JStr (cn_node_id n)), (''model_tool_name'', JStr (cn_model_tool_name n)),
     (''description'', JStr (cn_description n)), (''input_schema'', cn_input_schema n),
     (''binding'', tool_binding_json (cn_binding n)),
     (''prerequisites'', JArr (map prerequisite_json (cn_prerequisites n))),
     (''required'', JBool (cn_required n)), (''terminal_result'', json_opt JStr (cn_terminal_result n)),
     (''required_capabilities'', jstrs (cn_required_capabilities n)),
     (''produced_artifact_ids'', jstrs (cn_produced_artifact_ids n)),
     (''side_effect_class'', JStr (side_effect_value (cn_side_effect_class n))),
     (''idempotency'', JStr (idempotency_value (cn_idempotency n)))]"

definition artifact_policy_json :: "compiled_artifact_policy \<Rightarrow> json" where
  "artifact_policy_json a = JObj [(''declared_artifact_ids'', jstrs (cap_declared_artifact_ids a)),
     (''required_by_terminal'', JArr (map (\<lambda>r. JObj [(''terminal_result'', JStr (tar_terminal_result r)),
        (''artifact_ids'', jstrs (tar_artifact_ids r))]) (cap_required_by_terminal a)))]"

definition compiler_identity_json :: "compiler_identity \<Rightarrow> json" where
  "compiler_identity_json c = JObj [(''name'', JStr (ci_name c)), (''version'', JStr (ci_version c)),
     (''build_id'', JStr (ci_build_id c))]"

definition plan_members :: "compiled_harness_plan \<Rightarrow> (string \<times> json) list" where
  "plan_members p = [(''schema_version'', JStr (plan_schema_version p)), (''kind'', JStr (plan_kind p)),
     (''harness_id'', JStr (plan_harness_id p)), (''harness_version'', JInt (plan_harness_version p)),
     (''source_sha256'', JStr (plan_source_sha256 p)), (''compiled_sha256'', JStr (plan_compiled_sha256 p)),
     (''stage_kind_ids'', jstrs (plan_stage_kind_ids p)),
     (''model_profile'', JObj [(''profile_id'', JStr (profile_id (plan_model_profile p)))]),
     (''prompt_policy'', prompt_policy_json (plan_prompt_policy p)),
     (''budgets'', budget_policy_json (plan_budgets p)),
     (''context_policy'', context_policy_json (plan_context_policy p)),
     (''nodes'', JArr (map node_json (plan_nodes p))),
     (''required_capabilities'', jstrs (plan_required_capabilities p)),
     (''terminal_result_map'', JObj (map (\<lambda>(k, v). (k, JStr v)) (plan_terminal_result_map p))),
     (''artifact_policy'', artifact_policy_json (plan_artifact_policy p)),
     (''compiler_identity'', compiler_identity_json (plan_compiler_identity p))]"

definition plan_json :: "compiled_harness_plan \<Rightarrow> json" where
  "plan_json p = JObj (plan_members p)"

text \<open>\<^verbatim>\<open>CompiledHarnessPlan.model_validate\<close>.\<close>

definition model_validate_plan :: "plan_env \<Rightarrow> json \<Rightarrow> compiled_harness_plan result" where
  "model_validate_plan env parsed = bind_result (plan_fields env parsed) check_compiled_plan"

fun no_duplicate_keys_from :: "string set \<Rightarrow> (string \<times> json) list \<Rightarrow> (string \<times> json) list result" where
  "no_duplicate_keys_from seen [] = Ok []"
| "no_duplicate_keys_from seen ((key, value) # pairs) =
     (if key \<in> seen then Raise (ValueError (''Duplicate key '' @ py_repr key))
      else bind_result (no_duplicate_keys_from (insert key seen) pairs) (\<lambda>rest. Ok ((key, value) # rest)))"

definition no_duplicate_keys :: "(string \<times> json) list \<Rightarrow> (string \<times> json) list result" where
  "no_duplicate_keys pairs = no_duplicate_keys_from {} pairs"

definition without_digest :: "(string \<times> json) list \<Rightarrow> (string \<times> json) list" where
  "without_digest kvs = filter (\<lambda>kv. fst kv \<noteq> ''compiled_sha256'') kvs"

definition parse_and_strip_compiled_plan ::
  "plan_env \<Rightarrow> string \<Rightarrow> (compiled_harness_plan \<times> (string \<times> json) list) result" where
  "parse_and_strip_compiled_plan env raw =
     (case json_loads env no_duplicate_keys raw of
        Inl m \<Rightarrow> Raise (ValueError m)
      | Inr parsed \<Rightarrow>
          bind_result (model_validate_plan env parsed) (\<lambda>plan.
          case parsed of
            JObj kvs \<Rightarrow> Ok (plan, without_digest kvs)
          | _ \<Rightarrow> Raise (TypeErr ''not a mapping'')))"

definition calculate_compiled_plan_sha256 :: "plan_env \<Rightarrow> (string \<times> json) list \<Rightarrow> string result" where
  "calculate_compiled_plan_sha256 env payload =
     (if \<not> has_key payload ''compiled_sha256''
      then Raise (ValueError ''compiled plan payload must include compiled_sha256'')
      else bind_result (canonical_json_serialize (float_text env) (JObj (without_digest payload))) (\<lambda>text.
           Ok (sha256_hex env text)))"

text \<open>The message of a caught exception stands in the warning; a Pydantic error lists all failures.\<close>

fun error_message :: "py_error \<Rightarrow> string" where
  "error_message (ValueError m) = m"
| "error_message (KeyError m) = py_repr m"
| "error_message (IndexError m) = m"
| "error_message (TypeErr m) = m"
| "error_message (AssertionErr m) = m"
| "error_message (AttributeErr m) = m"
| "error_message OverflowErr = ''''"
| "error_message RecursionErr = ''maximum recursion depth exceeded''"

definition mismatch_warnings ::
  "string \<Rightarrow> compiled_harness_plan \<Rightarrow> string option \<Rightarrow> string option \<Rightarrow> int option \<Rightarrow> string list" where
  "mismatch_warnings computed plan expected_hash expected_id expected_version =
     report (computed \<noteq> plan_compiled_sha256 plan)
       (''Computed hash '' @ computed @ '' does not match plan.compiled_sha256 '' @ plan_compiled_sha256 plan)
     @ (case expected_hash of None \<Rightarrow> []
        | Some h \<Rightarrow> report (computed \<noteq> h)
            (''Computed hash '' @ computed @ '' does not match expected_compiled_hash '' @ h))
     @ (case expected_id of None \<Rightarrow> []
        | Some i \<Rightarrow> report (plan_harness_id plan \<noteq> i)
            (''Plan harness_id '' @ py_repr (plan_harness_id plan) @ '' does not match expected_harness_id ''
               @ py_repr i))
     @ (case expected_version of None \<Rightarrow> []
        | Some v \<Rightarrow> report (plan_harness_version plan \<noteq> v)
            (''Plan harness_version '' @ show_int (plan_harness_version plan)
               @ '' does not match expected_harness_version '' @ show_int v))"

definition verify_compiled_plan_sha256 ::
  "plan_env \<Rightarrow> string \<Rightarrow> string option \<Rightarrow> string option \<Rightarrow> int option \<Rightarrow>
   bool \<times> string \<times> string list \<times> compiled_harness_plan option" where
  "verify_compiled_plan_sha256 env raw expected_hash expected_id expected_version =
     (case json_loads env no_duplicate_keys raw of
        Inl m \<Rightarrow> (False, '''', [''JSON parse error: '' @ m], None)
      | Inr parsed \<Rightarrow>
         (case model_validate_plan env parsed of
            Inl e \<Rightarrow> (False, '''', [''Plan validation error: '' @ error_message e], None)
          | Inr plan \<Rightarrow>
             (case (case parsed of JObj kvs \<Rightarrow> calculate_compiled_plan_sha256 env kvs
                     | _ \<Rightarrow> Raise (TypeErr ''not a mapping'')) of
                Inl e \<Rightarrow> (False, '''', [''Canonical serialisation error: '' @ error_message e], None)
              | Inr computed \<Rightarrow>
                 let warnings = mismatch_warnings computed plan expected_hash expected_id expected_version
                 in (warnings = [], computed, warnings, Some plan))))"

definition verification_failure :: "string list \<Rightarrow> py_error" where
  "verification_failure warnings =
     ValueError (if warnings \<noteq> [] then join_str ''; '' warnings else ''compiled hash verification failed'')"

definition finalize_compiled_plan_sha256 :: "plan_env \<Rightarrow> compiled_harness_plan \<Rightarrow> compiled_harness_plan result" where
  "finalize_compiled_plan_sha256 env plan =
     bind_result (calculate_compiled_plan_sha256 env (plan_members plan)) (\<lambda>digest.
     bind_result (model_validate_plan env
       (JObj (dict_set (plan_members plan) ''compiled_sha256'' (JStr digest)))) (\<lambda>finalized.
     bind_result (canonical_json_serialize (float_text env) (plan_json finalized)) (\<lambda>text.
     case verify_compiled_plan_sha256 env text (Some digest) (Some (plan_harness_id finalized))
            (Some (plan_harness_version finalized)) of
       (verified, computed, warnings, restored) \<Rightarrow>
         if \<not> verified \<or> computed \<noteq> digest then Raise (verification_failure warnings)
         else Ok finalized)))"

definition canonical_compiled_plan_bytes :: "plan_env \<Rightarrow> compiled_harness_plan \<Rightarrow> string result" where
  "canonical_compiled_plan_bytes env plan =
     bind_result (canonical_json_serialize (float_text env) (plan_json plan)) (\<lambda>text.
     case verify_compiled_plan_sha256 env text (Some (plan_compiled_sha256 plan)) (Some (plan_harness_id plan))
            (Some (plan_harness_version plan)) of
       (verified, computed, warnings, restored) \<Rightarrow>
         (case restored of
            None \<Rightarrow> Raise (verification_failure warnings)
          | Some r \<Rightarrow> if \<not> verified then Raise (verification_failure warnings)
                       else canonical_json_serialize (float_text env) (plan_json r)))"

text \<open>The loader after the file was read; the reference carries the expected hash and identity.\<close>

definition load_compiled_plan ::
  "plan_env \<Rightarrow> string \<Rightarrow> string option \<Rightarrow> string \<Rightarrow> int \<Rightarrow> compiled_harness_plan result" where
  "load_compiled_plan env raw expected_hash harness_id harness_version =
     (case verify_compiled_plan_sha256 env raw expected_hash (Some harness_id) (Some harness_version) of
       (verified, computed, warnings, plan) \<Rightarrow>
         (case plan of
            None \<Rightarrow> Raise (ValueError (if warnings \<noteq> [] then join_str ''; '' warnings else ''compiled plan invalid''))
          | Some p \<Rightarrow>
              if \<not> verified
              then Raise (ValueError (if warnings \<noteq> [] then join_str ''; '' warnings else ''compiled plan invalid''))
              else Ok p))"

section \<open>The validators are checks\<close>

lemma traverse_same: "(\<And>x y. f x = Inr y \<Longrightarrow> y = x) \<Longrightarrow> traverse f xs = Inr ys \<Longrightarrow> ys = xs"
  by (induction xs arbitrary: ys) (auto simp: result_simps)

lemma check_node_schema [simp]:
  "is_ok (check_compiled_node (n\<lparr>cn_input_schema := v\<rparr>)) \<longleftrightarrow> is_ok (check_compiled_node n)"
  by (simp add: check_compiled_node_def is_ok_bind)

lemma check_plan_fields_same: "check_plan_fields p = Inr q \<Longrightarrow> q = p"
  unfolding check_plan_fields_def bind_result_Inr by auto

lemma check_compiled_plan_Inr:
  "check_compiled_plan p = Inr q \<longleftrightarrow> q = p \<and> is_ok (check_plan_fields p) \<and> plan_sound p"
  unfolding check_compiled_plan_def bind_result_Inr plan_invariants_exact [symmetric]
  by (auto simp: is_ok_iff dest: check_plan_fields_same)

lemma check_compiled_plan_Inl:
  "check_compiled_plan p = Inl e \<Longrightarrow> \<not> (is_ok (check_plan_fields p) \<and> plan_sound p)"
  using check_compiled_plan_Inr [of p p] by auto

section \<open>Verification and finalisation\<close>

lemma mismatch_warnings_Nil:
  "mismatch_warnings computed p h i v = [] \<longleftrightarrow>
     computed = plan_compiled_sha256 p \<and> (\<forall>h'. h = Some h' \<longrightarrow> computed = h')
     \<and> (\<forall>i'. i = Some i' \<longrightarrow> plan_harness_id p = i') \<and> (\<forall>v'. v = Some v' \<longrightarrow> plan_harness_version p = v')"
  by (auto simp: mismatch_warnings_def split: option.splits)

lemma verify_accepts:
  "verify_compiled_plan_sha256 env raw h i v = (True, computed, ws, Some p) \<longleftrightarrow>
     (\<exists>kvs text. json_loads env no_duplicate_keys raw = Inr (JObj kvs)
        \<and> plan_fields env (JObj kvs) = Inr p \<and> is_ok (check_plan_fields p) \<and> plan_sound p
        \<and> has_key kvs ''compiled_sha256''
        \<and> canonical_json_serialize (float_text env) (JObj (without_digest kvs)) = Inr text
        \<and> computed = sha256_hex env text \<and> ws = []
        \<and> mismatch_warnings computed p h i v = [])"
  unfolding verify_compiled_plan_sha256_def Let_def
  by (auto simp: model_validate_plan_def bind_result_Inr check_compiled_plan_Inr
      calculate_compiled_plan_sha256_def dest: check_compiled_plan_Inl split: sum.splits json.splits if_splits)

text \<open>
  C12: a plan that the loader returns is intact. Its text decodes, without duplicate keys, to the
  fields of a plan that satisfies all validators and cross-field invariants; the digest of the
  canonical text of the decoded object without its digest field is the plan's own digest and the
  expected one, and the harness identity is the expected one.
\<close>

theorem load_compiled_plan_sound:
  assumes "load_compiled_plan env raw expected_hash hid hversion = Inr p"
  shows "is_ok (check_plan_fields p) \<and> plan_sound p
     \<and> plan_harness_id p = hid \<and> plan_harness_version p = hversion
     \<and> (\<exists>kvs text. json_loads env no_duplicate_keys raw = Inr (JObj kvs)
          \<and> plan_fields env (JObj kvs) = Inr p
          \<and> canonical_json_serialize (float_text env) (JObj (without_digest kvs)) = Inr text
          \<and> plan_compiled_sha256 p = sha256_hex env text
          \<and> expected_hash \<in> {None, Some (sha256_hex env text)})"
proof -
  obtain computed ws where "verify_compiled_plan_sha256 env raw expected_hash (Some hid) (Some hversion)
      = (True, computed, ws, Some p)"
    using assms by (auto simp: load_compiled_plan_def split: prod.splits option.splits if_splits)
  then show ?thesis unfolding verify_accepts mismatch_warnings_Nil by (cases expected_hash) auto
qed

lemma json_sort_members_map: "json_sort_members kvs = map (\<lambda>(k, v). (k, json_sort_keys v)) kvs"
  by (induction kvs) auto

lemma json_sort_items_map: "json_sort_items xs = map json_sort_keys xs"
  by (induction xs) auto

lemma sort_key_map_keys:
  "sort_key fst (map (\<lambda>(k, v). (k, f v)) kvs) = map (\<lambda>(k, v). (k, f v)) (sort_key fst kvs)"
proof -
  have ins: "insort_key fst (k, f v) (map (\<lambda>(k, v). (k, f v)) ls) = map (\<lambda>(k, v). (k, f v)) (insort_key fst (k, v) ls)"
    for k v and ls by (induction ls) auto
  show ?thesis by (induction kvs) (auto simp: ins)
qed

lemma sort_key_idem [simp]: "sort_key f (sort_key f xs) = sort_key f xs"
  by (rule sort_key_id_if_sorted) simp

lemma json_sort_idem:
  "json_sort_keys (json_sort_keys v) = json_sort_keys v"
  "json_sort_items (json_sort_items xs) = json_sort_items xs"
  "json_sort_members (json_sort_members kvs) = json_sort_members kvs"
proof (induction v and xs and kvs rule: json_sort_keys_json_sort_items_json_sort_members.induct)
  case (2 kvs)
  then have "\<forall>(k, v) \<in> set kvs. json_sort_keys (json_sort_keys v) = json_sort_keys v"
    by (auto simp: json_sort_members_map)
  then have "map (\<lambda>(k, v). (k, json_sort_keys v)) (map (\<lambda>(k, v). (k, json_sort_keys v)) (sort_key fst kvs))
      = map (\<lambda>(k, v). (k, json_sort_keys v)) (sort_key fst kvs)"
    by (auto intro!: map_cong)
  then show ?case by (simp only: json_sort_keys.simps json_sort_members_map sort_key_map_keys sort_key_idem)
qed auto

lemma json_dumps_sorted: "json_dumps fr (json_sort_keys v) = json_dumps fr v"
  by (simp add: json_dumps_def json_sort_idem)

lemma canonical_ok_iff: "is_ok (canonical_json_serialize fr v) \<longleftrightarrow> json_finite v"
  using json_dumps_ok_iff [of fr v]
  by (cases "json_dumps fr v") (simp_all add: canonical_json_serialize_def)

lemma canonical_serialize_sorted:
  "canonical_json_serialize fr (json_sort_keys v) = canonical_json_serialize fr v"
  by (simp add: canonical_json_serialize_def json_dumps_sorted)

lemma has_key_sorted [simp]: "has_key (sort_key fst (json_sort_members kvs)) k \<longleftrightarrow> has_key kvs k"
  by (force simp: has_key_def json_sort_members_map)

lemma without_digest_sorted:
  "JObj (without_digest (sort_key fst (json_sort_members kvs))) = json_sort_keys (JObj (without_digest kvs))"
proof -
  have "filter (\<lambda>kv. fst kv \<noteq> k) (json_sort_members kvs) = json_sort_members (filter (\<lambda>kv. fst kv \<noteq> k) kvs)" for k
    by (induction kvs) auto
  then show ?thesis by (simp add: without_digest_def filter_sort)
qed

text \<open>The digest ignores the order of keys and the digest field itself.\<close>

lemma calculate_sorted:
  "calculate_compiled_plan_sha256 env (sort_key fst (json_sort_members kvs)) = calculate_compiled_plan_sha256 env kvs"
  by (simp add: calculate_compiled_plan_sha256_def without_digest_sorted canonical_serialize_sorted
      del: json_sort_keys.simps)

lemma plan_members_digest:
  "dict_set (plan_members p) ''compiled_sha256'' (JStr d) = plan_members (p\<lparr>plan_compiled_sha256 := d\<rparr>)"
  by (simp add: plan_members_def)

lemma without_digest_members:
  "without_digest (plan_members (p\<lparr>plan_compiled_sha256 := d\<rparr>)) = without_digest (plan_members p)"
  by (simp add: without_digest_def plan_members_def)

lemma has_key_members [simp]: "has_key (plan_members p) ''compiled_sha256''"
  by (simp add: has_key_def plan_members_def)

lemma calculate_members_digest:
  "calculate_compiled_plan_sha256 env (plan_members (p\<lparr>plan_compiled_sha256 := d\<rparr>))
     = calculate_compiled_plan_sha256 env (plan_members p)"
  by (simp add: calculate_compiled_plan_sha256_def without_digest_members)

text \<open>What decoding the canonical text gives back: the plan with its two dictionaries in key order.\<close>

definition decoded_plan :: "compiled_harness_plan \<Rightarrow> compiled_harness_plan" where
  "decoded_plan p =
     p\<lparr>plan_nodes := map (\<lambda>n. n\<lparr>cn_input_schema := json_sort_keys (cn_input_schema n)\<rparr>) (plan_nodes p),
       plan_terminal_result_map := sort_key fst (plan_terminal_result_map p)\<rparr>"

text \<open>
  \<^verbatim>\<open>json.loads\<close> undoes \<^verbatim>\<open>json.dumps\<close> on the text of this plan, and the conversion to typed
  fields undoes \<^verbatim>\<open>model_dump\<close>.
\<close>

definition json_roundtrip :: "plan_env \<Rightarrow> compiled_harness_plan \<Rightarrow> bool" where
  "json_roundtrip env p \<longleftrightarrow>
     plan_fields env (plan_json p) = Inr p
     \<and> plan_fields env (json_sort_keys (plan_json p)) = Inr (decoded_plan p)
     \<and> (\<forall>text. canonical_json_serialize (float_text env) (plan_json p) = Inr text \<longrightarrow>
          json_loads env no_duplicate_keys text = Inr (json_sort_keys (plan_json p)))"

lemma check_decoded_fields: "is_ok (check_plan_fields (decoded_plan p)) \<longleftrightarrow> is_ok (check_plan_fields p)"
proof -
  have tmap: "is_ok (check_terminal_result_map (sort_key fst m)) \<longleftrightarrow> is_ok (check_terminal_result_map m)" for m
    by (auto simp: check_terminal_result_map_def is_ok_bind traverse_is_ok ensure_def is_ok_iff [symmetric]
        simp flip: is_ok_iff)
  then have tmap: "check_terminal_result_map (sort_key fst m) = Inr () \<longleftrightarrow> check_terminal_result_map m = Inr ()" for m
    by (simp add: is_ok_iff)
  show ?thesis
    by (simp add: decoded_plan_def check_plan_fields_def is_ok_bind traverse_is_ok is_ok_iff [symmetric]
        require_nonempty_def ensure_Inr tmap comp_def)
qed

lemma plan_sound_decoded: "plan_sound (decoded_plan p) \<longleftrightarrow> plan_sound p"
proof -
  have "cn_node_id ` {n \<in> (\<lambda>n. n\<lparr>cn_input_schema := json_sort_keys (cn_input_schema n)\<rparr>) ` S. Q (cn_terminal_result n)}
      = cn_node_id ` {n \<in> S. Q (cn_terminal_result n)}" (is "cn_node_id ` ?L = cn_node_id ` ?R")
    for S :: "compiled_harness_node set" and Q
  proof -
    have "?L = (\<lambda>n. n\<lparr>cn_input_schema := json_sort_keys (cn_input_schema n)\<rparr>) ` ?R" by auto
    then show ?thesis by (simp add: image_image)
  qed
  note this [of _ "\<lambda>r. \<exists>t. r = Some t \<and> t \<noteq> []"]
  then show ?thesis by (simp add: plan_sound_def decoded_plan_def Let_def comp_def)
qed

lemma plan_sound_digest [simp]: "plan_sound (p\<lparr>plan_compiled_sha256 := d\<rparr>) \<longleftrightarrow> plan_sound p"
  by (simp add: plan_sound_def)

lemma check_fields_digest:
  "SHA256_RE d \<Longrightarrow> is_ok (check_plan_fields p) \<Longrightarrow> is_ok (check_plan_fields (p\<lparr>plan_compiled_sha256 := d\<rparr>))"
  by (auto simp: check_plan_fields_def is_ok_bind sha256_field_Inr)

lemma verify_own_text:
  assumes rt: "json_roundtrip env p" and ok: "is_ok (check_plan_fields p)" "plan_sound p"
    and dump: "canonical_json_serialize (float_text env) (plan_json p) = Inr text"
    and digest: "calculate_compiled_plan_sha256 env (plan_members p) = Inr (plan_compiled_sha256 p)"
  shows "verify_compiled_plan_sha256 env text (Some (plan_compiled_sha256 p)) (Some (plan_harness_id p))
      (Some (plan_harness_version p)) = (True, plan_compiled_sha256 p, [], Some (decoded_plan p))"
proof -
  have "json_loads env no_duplicate_keys text = Inr (json_sort_keys (plan_json p))"
    and "plan_fields env (json_sort_keys (plan_json p)) = Inr (decoded_plan p)"
    using rt dump by (auto simp: json_roundtrip_def)
  moreover have "check_compiled_plan (decoded_plan p) = Inr (decoded_plan p)"
    using ok by (simp add: check_compiled_plan_Inr check_decoded_fields plan_sound_decoded)
  moreover have "mismatch_warnings (plan_compiled_sha256 p) (decoded_plan p) (Some (plan_compiled_sha256 p))
      (Some (plan_harness_id p)) (Some (plan_harness_version p)) = []"
    by (simp add: mismatch_warnings_def decoded_plan_def)
  ultimately show ?thesis
    by (simp add: verify_compiled_plan_sha256_def model_validate_plan_def plan_json_def calculate_sorted digest)
qed

lemma node_json_decoded:
  "json_sort_keys (node_json (n\<lparr>cn_input_schema := json_sort_keys (cn_input_schema n)\<rparr>)) = json_sort_keys (node_json n)"
  by (simp add: node_json_def json_sort_idem)

lemma members_decoded: "json_sort_members (plan_members (decoded_plan p)) = json_sort_members (plan_members p)"
proof -
  have "sort_key fst (json_sort_members (map (\<lambda>(k, v). (k, JStr v)) (sort_key fst m)))
      = sort_key fst (json_sort_members (map (\<lambda>(k, v). (k, JStr v)) m))" for m :: "(string \<times> string) list"
    by (simp only: json_sort_members_map sort_key_map_keys sort_key_idem)
  then show ?thesis
    by (simp add: plan_members_def decoded_plan_def json_sort_items_map node_json_decoded comp_def)
qed

lemma canonical_decoded:
  "canonical_json_serialize fr (plan_json (decoded_plan p)) = canonical_json_serialize fr (plan_json p)"
  by (simp add: canonical_json_serialize_def json_dumps_def plan_json_def members_decoded)

lemma finalize_valid:
  assumes "is_ok (check_plan_fields p)" and "plan_sound p"
    and "canonical_json_serialize (float_text env) (JObj (without_digest (plan_members p))) = Inr content"
    and "SHA256_RE (sha256_hex env content)"
    and "q = p\<lparr>plan_compiled_sha256 := sha256_hex env content\<rparr>" and "json_roundtrip env q"
    and "canonical_json_serialize (float_text env) (plan_json q) = Inr text"
  shows "finalize_compiled_plan_sha256 env (p\<lparr>plan_compiled_sha256 := d\<rparr>) = Inr q"
    and "verify_compiled_plan_sha256 env text (Some (plan_compiled_sha256 q)) (Some (plan_harness_id q))
         (Some (plan_harness_version q)) = (True, plan_compiled_sha256 q, [], Some (decoded_plan q))"
    and "calculate_compiled_plan_sha256 env (plan_members q) = Inr (plan_compiled_sha256 q)"
proof -
  have calc: "calculate_compiled_plan_sha256 env (plan_members p) = Inr (sha256_hex env content)"
    using assms(3) by (simp add: calculate_compiled_plan_sha256_def)
  have okq: "is_ok (check_plan_fields q)" "plan_sound q" using assms(1,2,4,5) by (simp_all add: check_fields_digest)
  show digest: "calculate_compiled_plan_sha256 env (plan_members q) = Inr (plan_compiled_sha256 q)"
    using calc by (simp add: assms(5) calculate_members_digest)
  show v: "verify_compiled_plan_sha256 env text (Some (plan_compiled_sha256 q)) (Some (plan_harness_id q))
         (Some (plan_harness_version q)) = (True, plan_compiled_sha256 q, [], Some (decoded_plan q))"
    by (rule verify_own_text [OF assms(6) okq assms(7) digest])
  have "dict_set (plan_members (p\<lparr>plan_compiled_sha256 := d\<rparr>)) ''compiled_sha256'' (JStr (sha256_hex env content))
      = plan_members q"
    by (simp add: plan_members_digest assms(5))
  moreover have "model_validate_plan env (plan_json q) = Inr q"
    using assms(6) okq by (simp add: model_validate_plan_def json_roundtrip_def check_compiled_plan_Inr)
  ultimately show "finalize_compiled_plan_sha256 env (p\<lparr>plan_compiled_sha256 := d\<rparr>) = Inr q"
    using calc v assms(7)
    by (simp add: finalize_compiled_plan_sha256_def calculate_members_digest plan_json_def assms(5))
qed

text \<open>Only a schema can hold a float that JSON does not have.\<close>

lemma members_finite:
  "json_members_finite (plan_members p) \<longleftrightarrow> (\<forall>n \<in> set (plan_nodes p). json_finite (cn_input_schema n))"
proof -
  have "json_finite (node_json n) \<longleftrightarrow> json_finite (cn_input_schema n)" for n
    by (auto simp: node_json_def tool_binding_json_def prerequisite_json_def json_items_finite_iff json_opt_def
        split: option.splits)
  then show ?thesis
    by (auto simp: plan_members_def json_items_finite_iff json_members_finite_iff prompt_policy_json_def
        budget_policy_json_def context_policy_json_def artifact_policy_json_def compiler_identity_json_def
        split: prod.splits)
qed

definition schemas_finite :: "compiled_harness_plan \<Rightarrow> bool" where
  "schemas_finite p \<longleftrightarrow> (\<forall>n \<in> set (plan_nodes p). json_finite (cn_input_schema n))"

lemma schemas_finite_digest [simp]: "schemas_finite (p\<lparr>plan_compiled_sha256 := d\<rparr>) = schemas_finite p"
  by (simp add: schemas_finite_def)

lemma canonical_plan_text:
  assumes "schemas_finite p"
  obtains content doc where
    "canonical_json_serialize fr (JObj (without_digest (plan_members p))) = Inr content"
    and "canonical_json_serialize fr (plan_json p) = Inr doc"
proof -
  have "json_finite (JObj (without_digest (plan_members p)))" "json_finite (plan_json p)"
    using assms members_finite [of p]
    by (auto simp: schemas_finite_def plan_json_def without_digest_def json_members_finite_iff)
  then show thesis by (metis canonical_ok_iff is_ok_iff that)
qed

text \<open>
  What is asked of the environment: a digest is the hexadecimal text of a SHA-256, and decoding
  undoes encoding for the one plan that carries the digest of \<open>p\<close>.
\<close>

definition hash_law :: "plan_env \<Rightarrow> bool" where
  "hash_law env \<longleftrightarrow> (\<forall>s. SHA256_RE (sha256_hex env s))"

definition codec_law :: "plan_env \<Rightarrow> compiled_harness_plan \<Rightarrow> bool" where
  "codec_law env p \<longleftrightarrow>
     (\<forall>content. canonical_json_serialize (float_text env) (JObj (without_digest (plan_members p))) = Inr content
        \<longrightarrow> json_roundtrip env (p\<lparr>plan_compiled_sha256 := sha256_hex env content\<rparr>))"

text \<open>
  C13: finalisation sets the digest and nothing else, and what it returns can be stored and loaded.
  For a plan that satisfies its contract and whose schemas hold no infinite float, with a codec that
  decodes what it encodes, the finalised plan is the plan with the digest of its own content, whatever
  placeholder it had; its canonical bytes exist, and loading them with its digest and identity
  returns the plan with the keys of its dictionaries in order, which is the same JSON document.
\<close>

theorem finalize_compiled_plan_verifies:
  assumes "is_ok (check_plan_fields p)" and "plan_sound p" and "schemas_finite p"
    and "hash_law env" and "codec_law env p"
  shows "\<exists>q text. q = p\<lparr>plan_compiled_sha256 := plan_compiled_sha256 q\<rparr>
     \<and> calculate_compiled_plan_sha256 env (plan_members p) = Inr (plan_compiled_sha256 q)
     \<and> (\<forall>other. finalize_compiled_plan_sha256 env (p\<lparr>plan_compiled_sha256 := other\<rparr>) = Inr q)
     \<and> canonical_compiled_plan_bytes env q = Inr text
     \<and> load_compiled_plan env text (Some (plan_compiled_sha256 q)) (plan_harness_id p) (plan_harness_version p)
         = Inr (decoded_plan q)
     \<and> json_sort_keys (plan_json (decoded_plan q)) = json_sort_keys (plan_json q)"
proof -
  obtain content where content:
    "canonical_json_serialize (float_text env) (JObj (without_digest (plan_members p))) = Inr content"
    using canonical_plan_text [OF assms(3)] by metis
  let ?q = "p\<lparr>plan_compiled_sha256 := sha256_hex env content\<rparr>"
  have hex: "SHA256_RE (sha256_hex env content)" using assms(4) by (simp add: hash_law_def)
  have rt: "json_roundtrip env ?q" using assms(5) content by (simp add: codec_law_def)
  obtain doc where doc: "canonical_json_serialize (float_text env) (plan_json ?q) = Inr doc"
    using canonical_plan_text [of ?q] assms(3) by (metis schemas_finite_digest)
  note fin = finalize_valid [OF assms(1,2) content hex refl rt doc]
  have "calculate_compiled_plan_sha256 env (plan_members p) = Inr (plan_compiled_sha256 ?q)"
    using fin(3) by (simp add: calculate_members_digest)
  moreover have "canonical_compiled_plan_bytes env ?q = Inr doc"
    using fin(2) doc by (simp add: canonical_compiled_plan_bytes_def canonical_decoded)
  moreover have "load_compiled_plan env doc (Some (plan_compiled_sha256 ?q)) (plan_harness_id p) (plan_harness_version p)
      = Inr (decoded_plan ?q)"
    using fin(2) by (simp add: load_compiled_plan_def)
  moreover have "json_sort_keys (plan_json (decoded_plan ?q)) = json_sort_keys (plan_json ?q)"
    by (simp add: plan_json_def members_decoded)
  ultimately show ?thesis using fin(1) by (intro exI [of _ ?q] exI [of _ doc]) simp
qed

section \<open>A plan\<close>

definition sample_plan_node :: "string \<Rightarrow> bool \<Rightarrow> compiled_prerequisite list \<Rightarrow> string option \<Rightarrow> compiled_harness_node" where
  "sample_plan_node name req ps term = \<lparr>cn_node_id = name, cn_model_tool_name = name,
     cn_description = ''Tool'', cn_input_schema = JObj [(''type'', JStr ''string'')],
     cn_binding = \<lparr>tb_tool_id = ''tools.'' @ name, tb_tool_version = 1,
       tb_descriptor_sha256 = replicate 64 (CHR ''a''), tb_implementation_id = ''impl''\<rparr>,
     cn_prerequisites = ps, cn_required = req, cn_terminal_result = term,
     cn_required_capabilities = [], cn_produced_artifact_ids = [],
     cn_side_effect_class = READ_ONLY, cn_idempotency = IDEMPOTENT\<rparr>"

definition sample_plan :: "string \<Rightarrow> compiled_harness_plan" where
  "sample_plan digest = \<lparr>plan_schema_version = ''1.0'', plan_kind = ''compiled_millforge_harness'',
     plan_harness_id = ''demo'', plan_harness_version = 1,
     plan_source_sha256 = replicate 64 (CHR ''b''), plan_compiled_sha256 = digest,
     plan_stage_kind_ids = [''builder''], plan_model_profile = \<lparr>profile_id = ''main''\<rparr>,
     plan_prompt_policy = \<lparr>pp_policy_id = ''policy'', pp_system_instructions = ''Work.'',
       pp_include_request_context = True\<rparr>,
     plan_budgets = \<lparr>bp_max_iterations = 4, bp_max_validation_retries = 1, bp_max_tool_errors = 1,
       bp_max_prerequisite_violations = 1, bp_max_premature_terminal_attempts = 1\<rparr>,
     plan_context_policy = \<lparr>cp_strategy_id = ''forge.tiered.v1'', cp_budget_tokens = 256,
       cp_keep_recent_iterations = 2, cp_phase_thresholds = (1/2, 3/4, 1)\<rparr>,
     plan_nodes = [sample_plan_node ''done'' False [\<lparr>cpre_node_id = ''read'', cpre_argument_matches = []\<rparr>]
         (Some ''DONE''),
       sample_plan_node ''read'' True [] None],
     plan_required_capabilities = [], plan_terminal_result_map = [(''done'', ''DONE'')],
     plan_artifact_policy = \<lparr>cap_declared_artifact_ids = [], cap_required_by_terminal = []\<rparr>,
     plan_compiler_identity = \<lparr>ci_name = ''millforge'', ci_version = ''1'', ci_build_id = ''build''\<rparr>\<rparr>"

definition sample_digest :: string where
  "sample_digest = replicate 64 (CHR ''c'')"

definition sample_plan_env :: plan_env where
  "sample_plan_env = \<lparr>sha256_hex = (\<lambda>_. sample_digest), float_text = (\<lambda>_. ''0.5''),
     json_loads = (\<lambda>_ _. Inr (json_sort_keys (plan_json (sample_plan sample_digest)))),
     plan_fields = (\<lambda>j. if j = plan_json (sample_plan sample_digest) then Inr (sample_plan sample_digest)
        else Inr (decoded_plan (sample_plan sample_digest)))\<rparr>"

lemma sample_plan_valid:
  "is_ok (check_plan_fields (sample_plan (replicate 64 (CHR ''0''))))"
  "validate_plan_invariants (sample_plan (replicate 64 (CHR ''0''))) = []"
  by code_simp+

lemma sample_plan_texts:
  "is_ok (canonical_json_serialize (float_text sample_plan_env)
     (JObj (without_digest (plan_members (sample_plan (replicate 64 (CHR ''0'')))))))"
  "is_ok (canonical_json_serialize (float_text sample_plan_env) (plan_json (sample_plan sample_digest)))"
  unfolding canonical_ok_iff by code_simp+

lemma sample_digest_hex: "SHA256_RE sample_digest"
  by code_simp

lemma sample_roundtrip: "json_roundtrip sample_plan_env (sample_plan sample_digest)"
proof -
  have "json_sort_keys (plan_json (sample_plan sample_digest)) \<noteq> plan_json (sample_plan sample_digest)"
    by code_simp
  then show ?thesis by (simp add: json_roundtrip_def sample_plan_env_def)
qed

lemma sample_parts:
  obtains content out where "canonical_json_serialize (float_text sample_plan_env)
      (JObj (without_digest (plan_members (sample_plan (replicate 64 (CHR ''0'')))))) = Inr content"
    and "canonical_json_serialize (float_text sample_plan_env) (plan_json (sample_plan sample_digest)) = Inr out"
    and "SHA256_RE (sha256_hex sample_plan_env content)"
    and "sample_plan sample_digest
      = (sample_plan (replicate 64 (CHR ''0'')))\<lparr>plan_compiled_sha256 := sha256_hex sample_plan_env content\<rparr>"
    and "plan_sound (sample_plan (replicate 64 (CHR ''0'')))"
proof -
  obtain content out where "canonical_json_serialize (float_text sample_plan_env)
      (JObj (without_digest (plan_members (sample_plan (replicate 64 (CHR ''0'')))))) = Inr content"
    and "canonical_json_serialize (float_text sample_plan_env) (plan_json (sample_plan sample_digest)) = Inr out"
    using sample_plan_texts by (auto elim!: is_okE)
  then show ?thesis
  proof (rule that)
    show "SHA256_RE (sha256_hex sample_plan_env content)"
      using sample_digest_hex by (simp add: sample_plan_env_def)
  qed (use sample_plan_valid(2) in \<open>simp_all add: sample_plan_def sample_plan_env_def plan_invariants_exact [symmetric]\<close>)
qed

lemma sample_schemas_plain: "schemas_finite (sample_plan d)"
  by (simp add: schemas_finite_def sample_plan_def sample_plan_node_def)

theorem finalize_compiled_plan_verifies_witness:
  "\<exists>q text. (\<forall>other. finalize_compiled_plan_sha256 sample_plan_env (sample_plan other) = Inr q)
     \<and> canonical_compiled_plan_bytes sample_plan_env q = Inr text
     \<and> load_compiled_plan sample_plan_env text (Some (plan_compiled_sha256 q)) ''demo'' 1 = Inr (decoded_plan q)"
proof -
  let ?p = "sample_plan (replicate 64 (CHR ''0''))"
  have digest: "?p\<lparr>plan_compiled_sha256 := d\<rparr> = sample_plan d" for d by (simp add: sample_plan_def)
  have "hash_law sample_plan_env" using sample_digest_hex by (simp add: hash_law_def sample_plan_env_def)
  moreover have "codec_law sample_plan_env ?p"
    using sample_roundtrip digest [of sample_digest] by (simp add: codec_law_def sample_plan_env_def)
  moreover have "plan_sound ?p" using sample_plan_valid(2) by (simp add: plan_invariants_exact)
  ultimately show ?thesis
    using finalize_compiled_plan_verifies [OF sample_plan_valid(1) _ sample_schemas_plain] unfolding digest
    by (simp add: sample_plan_def) blast
qed

lemma sample_load:
  obtains out where "load_compiled_plan sample_plan_env out (Some sample_digest) ''demo'' 1
    = Inr (decoded_plan (sample_plan sample_digest))"
proof -
  let ?p = "sample_plan (replicate 64 (CHR ''0''))" and ?q = "sample_plan sample_digest"
  obtain content out where parts: "canonical_json_serialize (float_text sample_plan_env)
      (JObj (without_digest (plan_members ?p))) = Inr content"
    "canonical_json_serialize (float_text sample_plan_env) (plan_json ?q) = Inr out"
    "SHA256_RE (sha256_hex sample_plan_env content)"
    "?q = ?p\<lparr>plan_compiled_sha256 := sha256_hex sample_plan_env content\<rparr>" "plan_sound ?p"
    by (rule sample_parts)
  have fields: "plan_compiled_sha256 ?q = sample_digest" "plan_harness_id ?q = ''demo''" "plan_harness_version ?q = 1"
    by (simp_all add: sample_plan_def)
  have digest: "calculate_compiled_plan_sha256 sample_plan_env (plan_members ?q) = Inr (plan_compiled_sha256 ?q)"
    unfolding parts(4) calculate_members_digest using parts(1) by (simp add: calculate_compiled_plan_sha256_def)
  have ok: "is_ok (check_plan_fields ?q)" "plan_sound ?q"
    unfolding parts(4) using parts(5) check_fields_digest [OF parts(3) sample_plan_valid(1)] by simp_all
  show ?thesis
    using verify_own_text [OF sample_roundtrip ok parts(2) digest] unfolding fields
    by (intro that [of out]) (simp add: load_compiled_plan_def)
qed

theorem load_compiled_plan_sound_witness:
  "plan_sound (decoded_plan (sample_plan sample_digest))
     \<and> plan_harness_id (decoded_plan (sample_plan sample_digest)) = ''demo''"
  by (rule sample_load) (drule load_compiled_plan_sound, blast)

end
