(* ===== verification/Requests.thy ===== *)
theory Requests
  imports Diagnostics Source
begin

text \<open>
  \<^verbatim>\<open>compiler/requests.py\<close>: the compile request, the rule for relative paths, and the compile
  result with the invariants that tie its status to the evidence it carries. The capability
  envelope of a request (\<^verbatim>\<open>contracts.py\<close>) is the list of its grants; their constraints are not
  read by the compiler.
\<close>

section \<open>Requests\<close>

record capability_envelope =
  env_grants :: "string list"

definition check_capability_envelope :: "capability_envelope \<Rightarrow> capability_envelope result" where
  "check_capability_envelope e =
     bind_result (traverse (\<lambda>c. validate_nonblank c ''capability_id'') (env_grants e)) (\<lambda>_.
     bind_result (validate_unique (env_grants e) ''capability_id'') (\<lambda>_. Ok e))"

record harness_compile_request =
  req_request_id :: string
  req_source_path :: string
  req_source_root :: string
  req_source_format :: string
  req_output_dir :: string
  req_output_root :: string
  req_expected_harness_id :: string
  req_stage_kind_id :: string
  req_legal_terminal_results :: "string list"
  req_capability_envelope :: capability_envelope

definition relative_path_size_valid :: "string \<Rightarrow> string result" where
  "relative_path_size_valid value =
     (if \<not> nonblank value then Raise (ValueError ''path must be nonblank'')
      else validate_utf8_size value ''path'' 1024)"

definition absolute_root_size_valid :: "string \<Rightarrow> string result" where
  "absolute_root_size_valid value =
     (if take 1 value \<noteq> ''/'' then Raise (ValueError ''root must be an absolute path string'')
      else validate_utf8_size value ''root'' 4096)"

definition check_compile_request :: "harness_compile_request \<Rightarrow> harness_compile_request result" where
  "check_compile_request r =
     bind_result (validate_request_id (req_request_id r)) (\<lambda>_.
     bind_result (relative_path_size_valid (req_source_path r)) (\<lambda>_.
     bind_result (absolute_root_size_valid (req_source_root r)) (\<lambda>_.
     bind_result (ensure (req_source_format r \<in> {''yaml'', ''json''}) (ValueError ''source_format'')) (\<lambda>_.
     bind_result (relative_path_size_valid (req_output_dir r)) (\<lambda>_.
     bind_result (absolute_root_size_valid (req_output_root r)) (\<lambda>_.
     bind_result (validate_harness_id (req_expected_harness_id r)) (\<lambda>_.
     bind_result (validate_stage_kind_id (req_stage_kind_id r)) (\<lambda>_.
     bind_result (require_nonempty (req_legal_terminal_results r)) (\<lambda>_.
     bind_result (require_at_most 64 (req_legal_terminal_results r) ''legal_terminal_results'') (\<lambda>_.
     bind_result (traverse validate_terminal_result (req_legal_terminal_results r)) (\<lambda>_.
     bind_result (validate_unique (req_legal_terminal_results r) ''legal_terminal_results'') (\<lambda>_.
     bind_result (check_capability_envelope (req_capability_envelope r)) (\<lambda>_. Ok r)))))))))))))"

section \<open>Relative paths\<close>

fun split_on :: "'a \<Rightarrow> 'a list \<Rightarrow> 'a list list" where
  "split_on d [] = [[]]"
| "split_on d (c # s) =
     (if c = d then [] # split_on d s
      else case split_on d s of [] \<Rightarrow> [[c]] | p # ps \<Rightarrow> (c # p) # ps)"

text \<open>\<^verbatim>\<open>PurePosixPath(value).parts\<close> of a path that is not absolute.\<close>

definition posix_parts :: "string \<Rightarrow> string list" where
  "posix_parts value = filter (\<lambda>p. p \<noteq> [] \<and> p \<noteq> ''.'') (split_on (CHR ''/'') value)"

definition reserved_names :: "string list" where
  "reserved_names = [''con'', ''prn'', ''aux'', ''nul'']
     @ map (\<lambda>i. ''com'' @ show_nat i) [1..<10] @ map (\<lambda>i. ''lpt'' @ show_nat i) [1..<10]"

text \<open>The reserved names are ASCII, so \<^verbatim>\<open>casefold\<close> only matters on ASCII letters.\<close>

definition is_forbidden_path_part :: "string \<Rightarrow> bool" where
  "is_forbidden_path_part part =
     (let stem = map lower_char (hd (split_on (CHR ''.'') part))
      in part \<in> {[], ''.'', ''..''} \<or> last part \<in> {CHR '' '', CHR ''.''} \<or> CHR '':'' \<in> set part
         \<or> CHR 0x00 \<in> set part \<or> stem \<in> set reserved_names)"

definition relative_posix_parts :: "string \<Rightarrow> string list option" where
  "relative_posix_parts value =
     (if take 1 value = ''/'' \<or> CHR 0x5C \<in> set value then None
      else let parts = posix_parts value
           in if parts = [] \<or> (\<exists>p \<in> set parts. is_forbidden_path_part p) then None else Some parts)"

lemma split_on_no_sep: "p \<in> set (split_on d s) \<Longrightarrow> d \<notin> set p \<and> set p \<subseteq> set s"
  by (induction s arbitrary: p) (fastforce split: if_splits list.splits)+

lemma split_on_not_Nil [simp]: "split_on d s \<noteq> []"
  by (induction s) (auto split: list.splits)

lemma split_on_chunk: "d \<notin> set p \<Longrightarrow> split_on d (p @ d # s) = p # split_on d s"
  by (induction p) auto

lemma split_on_single: "d \<notin> set p \<Longrightarrow> split_on d p = [p]"
  by (induction p) auto

lemma split_on_join:
  "ps \<noteq> [] \<Longrightarrow> \<forall>p \<in> set ps. d \<notin> set p \<Longrightarrow> split_on d (join_str [d] ps) = ps"
  by (induction "[d]" ps rule: join_str.induct) (auto simp: split_on_single split_on_chunk)

text \<open>
  Joining the components to a directory, with the meaning of the special names: the empty name and
  the dot stay, the double dot leaves the directory.
\<close>

fun lexical_join :: "string list \<Rightarrow> string list \<Rightarrow> string list" where
  "lexical_join base [] = base"
| "lexical_join base (p # ps) =
     lexical_join (if p \<in> {[], ''.''} then base else if p = ''..'' then butlast base else base @ [p]) ps"

lemma lexical_join_plain:
  "\<forall>p \<in> set ps. p \<notin> {[], ''.'', ''..''} \<Longrightarrow> lexical_join base ps = base @ ps"
  by (induction ps arbitrary: base) auto

lemma set_join: "c \<in> set (join_str sep ps) \<Longrightarrow> c \<in> set sep \<or> (\<exists>p \<in> set ps. c \<in> set p)"
  by (induction sep ps rule: join_str.induct) auto

lemma relative_parts_props:
  assumes "relative_posix_parts value = Some ps"
  shows "ps \<noteq> []" and "\<forall>p \<in> set ps. \<not> is_forbidden_path_part p \<and> CHR ''/'' \<notin> set p \<and> CHR 0x5C \<notin> set p"
  using assms split_on_no_sep
  by (fastforce simp: relative_posix_parts_def posix_parts_def Let_def split: if_splits)+

lemma relative_parts_canonical:
  assumes "relative_posix_parts value = Some ps"
  shows "relative_posix_parts (join_str ''/'' ps) = Some ps"
proof -
  note props = relative_parts_props [OF assms]
  have split: "split_on (CHR ''/'') (join_str ''/'' ps) = ps"
    by (rule split_on_join) (use props in auto)
  have plain: "\<forall>p \<in> set ps. p \<noteq> [] \<and> p \<noteq> ''.''"
    using props(2) by (auto simp: is_forbidden_path_part_def Let_def)
  have "take 1 (join_str ''/'' ps) \<noteq> ''/''"
    using props(1) plain props(2) by (cases ps rule: list.exhaust; cases "tl ps") (auto simp: neq_Nil_conv)
  moreover have "CHR 0x5C \<notin> set (join_str ''/'' ps)"
    using props(2) by (auto dest!: set_join)
  ultimately show ?thesis
    using props plain by (auto simp: relative_posix_parts_def posix_parts_def split Let_def filter_id_conv)
qed

text \<open>
  C14: an admitted relative path stays below its root and has one spelling. Its components are
  nonempty names without separators, backslashes, colons or NUL, none of them special or reserved;
  joined to a root they never leave it; and the path written from the components is admitted
  with the same components.
\<close>

theorem relative_posix_parts_contained:
  assumes "relative_posix_parts value = Some ps"
  shows "ps \<noteq> [] \<and> lexical_join base ps = base @ ps
     \<and> (\<forall>p \<in> set ps. p \<notin> {[], ''.'', ''..''} \<and> set p \<inter> {CHR ''/'', CHR 0x5C, CHR '':'', CHR 0x00} = {}
          \<and> map lower_char (hd (split_on (CHR ''.'') p)) \<notin> set reserved_names)
     \<and> relative_posix_parts (join_str ''/'' ps) = Some ps"
proof -
  have "\<forall>p \<in> set ps. p \<notin> {[], ''.'', ''..''} \<and> set p \<inter> {CHR ''/'', CHR 0x5C, CHR '':'', CHR 0x00} = {}
          \<and> map lower_char (hd (split_on (CHR ''.'') p)) \<notin> set reserved_names"
    using relative_parts_props(2) [OF assms] unfolding is_forbidden_path_part_def Let_def by blast
  then show ?thesis
    using relative_parts_props(1) [OF assms] relative_parts_canonical [OF assms]
      lexical_join_plain [of ps base] by blast
qed

theorem relative_posix_parts_contained_witness:
  "lexical_join [''srv'', ''data''] [''plans'', ''edit.yaml''] = [''srv'', ''data'', ''plans'', ''edit.yaml'']
     \<and> relative_posix_parts ''plans/edit.yaml'' = Some [''plans'', ''edit.yaml'']"
proof -
  have "relative_posix_parts ''./plans//edit.yaml'' = Some [''plans'', ''edit.yaml'']" by code_simp
  from relative_posix_parts_contained [OF this, of "[''srv'', ''data'']"] show ?thesis by simp
qed

section \<open>The compile result\<close>

datatype compile_status = FAILED | PREPARED | COMMITTED

datatype plan_commit_certainty = PLAN_ABSENT | PLAN_COMMITTED | PLAN_UNKNOWN

datatype diagnostic_report_state = REPORT_ABSENT | REPORT_PREPARED | REPORT_COMMITTED | REPORT_UNKNOWN

record harness_compile_result =
  hcr_request_id :: string
  hcr_status :: compile_status
  hcr_plan_commit_certainty :: plan_commit_certainty
  hcr_diagnostic_report_state :: diagnostic_report_state
  hcr_failure_phase :: "compiler_phase option"
  hcr_source_document_sha256 :: "string option"
  hcr_source_sha256 :: "string option"
  hcr_request_identity_sha256 :: "string option"
  hcr_harness_id :: "string option"
  hcr_compiled_plan_path :: "string option"
  hcr_compiled_sha256 :: "string option"
  hcr_diagnostics_path :: "string option"
  hcr_diagnostics :: "diagnostic list"

definition relative_output_path_valid :: "string \<Rightarrow> string result" where
  "relative_output_path_valid value =
     (if \<not> nonblank value \<or> relative_posix_parts value = None
      then Raise (ValueError ''output path must be a relative POSIX path string'')
      else validate_utf8_size value ''output path'' 1024)"

text \<open>The checks of \<^verbatim>\<open>_result_invariants\<close> in order; \<open>refuse b m\<close> is \<^verbatim>\<open>if b: raise ValueError(m)\<close>.\<close>

definition refuse :: "bool \<Rightarrow> string \<Rightarrow> unit result" where
  "refuse b message = ensure (\<not> b) (ValueError message)"

definition failed_invariants :: "harness_compile_result \<Rightarrow> unit result" where
  "failed_invariants r =
     bind_result (refuse (hcr_failure_phase r = None) ''failed results require a failure phase'') (\<lambda>_.
     bind_result (refuse (hcr_plan_commit_certainty r = PLAN_COMMITTED)
       ''failed results cannot have committed certainty'') (\<lambda>_.
     bind_result (refuse (hcr_failure_phase r = Some REQUEST \<and> (hcr_source_document_sha256 r \<noteq> None
         \<or> hcr_source_sha256 r \<noteq> None \<or> hcr_harness_id r \<noteq> None))
       ''request failures cannot carry source evidence'') (\<lambda>_.
     bind_result (refuse (hcr_failure_phase r = Some PARSE
         \<and> (hcr_source_sha256 r \<noteq> None \<or> hcr_harness_id r \<noteq> None))
       ''parse failures cannot carry semantic evidence'') (\<lambda>_.
     bind_result (refuse (hcr_plan_commit_certainty r = PLAN_ABSENT
         \<and> (hcr_compiled_plan_path r \<noteq> None \<or> hcr_compiled_sha256 r \<noteq> None))
       ''failed/absent carries no plan path or compiled hash'') (\<lambda>_.
     bind_result (refuse (hcr_plan_commit_certainty r = PLAN_UNKNOWN \<and> hcr_failure_phase r \<noteq> Some OUTPUT)
       ''unknown certainty is only valid for output failures'') (\<lambda>_.
     refuse (hcr_plan_commit_certainty r = PLAN_UNKNOWN
         \<and> (hcr_compiled_plan_path r = None \<or> hcr_compiled_sha256 r = None))
       ''unknown certainty requires candidate plan path and hash''))))))"

definition prepared_invariants :: "harness_compile_result \<Rightarrow> unit result" where
  "prepared_invariants r =
     bind_result (refuse (hcr_failure_phase r \<noteq> None) ''prepared results cannot carry a failure phase'') (\<lambda>_.
     bind_result (refuse (hcr_source_document_sha256 r = None \<or> hcr_source_sha256 r = None
         \<or> hcr_harness_id r = None) ''prepared results require source hashes and harness identity'') (\<lambda>_.
     bind_result (refuse (hcr_plan_commit_certainty r = PLAN_UNKNOWN)
       ''prepared results cannot have unknown certainty'') (\<lambda>_.
     bind_result (refuse (hcr_plan_commit_certainty r = PLAN_COMMITTED
         \<and> (hcr_compiled_plan_path r = None \<or> hcr_compiled_sha256 r = None))
       ''prepared/committed results require compiled plan path and hash'') (\<lambda>_.
     refuse (hcr_plan_commit_certainty r = PLAN_ABSENT \<and> hcr_compiled_plan_path r \<noteq> None)
       ''prepared/absent carries no committed plan path''))))"

definition committed_invariants :: "harness_compile_result \<Rightarrow> unit result" where
  "committed_invariants r =
     bind_result (refuse (hcr_failure_phase r \<noteq> None) ''committed results cannot carry a failure phase'') (\<lambda>_.
     bind_result (refuse (hcr_plan_commit_certainty r \<noteq> PLAN_COMMITTED)
       ''committed results require committed certainty'') (\<lambda>_.
     refuse (\<exists>item \<in> set [hcr_compiled_plan_path r, hcr_compiled_sha256 r, hcr_source_sha256 r,
         hcr_source_document_sha256 r, hcr_harness_id r]. item = None)
       ''committed results require paths, hashes, and harness identity''))"

definition result_invariants :: "harness_compile_result \<Rightarrow> unit result" where
  "result_invariants r =
     bind_result (refuse (hcr_source_sha256 r \<noteq> None \<and> hcr_source_document_sha256 r = None)
       ''semantic hashes require a source document hash'') (\<lambda>_.
     bind_result (refuse (hcr_harness_id r \<noteq> None \<and> hcr_source_sha256 r = None)
       ''harness identity requires a semantic hash'') (\<lambda>_.
     bind_result (case hcr_diagnostic_report_state r of
         REPORT_ABSENT \<Rightarrow> refuse (hcr_diagnostics_path r \<noteq> None)
           ''absent diagnostics cannot carry a diagnostics path''
       | REPORT_UNKNOWN \<Rightarrow> Ok ()
       | _ \<Rightarrow> refuse (hcr_diagnostics_path r = None) ''persisted diagnostics require a diagnostics path'') (\<lambda>_.
     case hcr_status r of
       FAILED \<Rightarrow> failed_invariants r
     | PREPARED \<Rightarrow> prepared_invariants r
     | COMMITTED \<Rightarrow> committed_invariants r)))"

definition check_compile_result :: "redaction_env \<Rightarrow> harness_compile_result \<Rightarrow> harness_compile_result result" where
  "check_compile_result env r =
     bind_result (validate_request_id (hcr_request_id r)) (\<lambda>_.
     bind_result (optional (\<lambda>h. validate_sha256 h ''source_document_sha256'') (hcr_source_document_sha256 r)) (\<lambda>_.
     bind_result (optional (\<lambda>h. validate_sha256 h ''source_sha256'') (hcr_source_sha256 r)) (\<lambda>_.
     bind_result (optional (\<lambda>h. validate_sha256 h ''request_identity_sha256'') (hcr_request_identity_sha256 r)) (\<lambda>_.
     bind_result (optional validate_harness_id (hcr_harness_id r)) (\<lambda>_.
     bind_result (optional relative_output_path_valid (hcr_compiled_plan_path r)) (\<lambda>_.
     bind_result (optional (\<lambda>h. validate_sha256 h ''compiled_sha256'') (hcr_compiled_sha256 r)) (\<lambda>_.
     bind_result (optional relative_output_path_valid (hcr_diagnostics_path r)) (\<lambda>_.
     bind_result (bound_diagnostics env (hcr_diagnostics r)) (\<lambda>ds.
     let r' = r\<lparr>hcr_diagnostics := ds\<rparr>
     in bind_result (result_invariants r') (\<lambda>_. Ok r'))))))))))"

lemma refuse_Inr [result_simps]: "refuse b m = Inr u \<longleftrightarrow> \<not> b"
  by (simp add: refuse_def ensure_def)

text \<open>
  C15: a compile result says truthfully what was published. An accepted result has a plan path
  exactly when a plan may have been published (its certainty is not absent); then it also has the
  plan's hash. The certainty is unknown only for a failed output phase, a committed result is
  certain and complete, a failed one is never certain, and the evidence is a chain: a harness
  identity needs the semantic hash, which needs the hash of the document.
\<close>

theorem compile_result_consistent:
  assumes "check_compile_result env r = Inr r'"
  shows "(hcr_compiled_plan_path r' \<noteq> None \<longleftrightarrow> hcr_plan_commit_certainty r' \<noteq> PLAN_ABSENT)
     \<and> (hcr_compiled_plan_path r' \<noteq> None \<longrightarrow> hcr_compiled_sha256 r' \<noteq> None)
     \<and> (hcr_plan_commit_certainty r' = PLAN_UNKNOWN \<longrightarrow>
          hcr_status r' = FAILED \<and> hcr_failure_phase r' = Some OUTPUT)
     \<and> (hcr_failure_phase r' \<noteq> None \<longleftrightarrow> hcr_status r' = FAILED)
     \<and> (hcr_status r' = FAILED \<longrightarrow> hcr_plan_commit_certainty r' \<noteq> PLAN_COMMITTED)
     \<and> (hcr_status r' = COMMITTED \<longrightarrow> hcr_plan_commit_certainty r' = PLAN_COMMITTED)
     \<and> (hcr_status r' \<noteq> FAILED \<longrightarrow> hcr_harness_id r' \<noteq> None)
     \<and> (hcr_harness_id r' \<noteq> None \<longrightarrow> hcr_source_sha256 r' \<noteq> None)
     \<and> (hcr_source_sha256 r' \<noteq> None \<longrightarrow> hcr_source_document_sha256 r' \<noteq> None)"
proof -
  have inv: "result_invariants r' = Inr ()"
    using assms unfolding check_compile_result_def Let_def bind_result_Inr by (auto simp: result_simps)
  note head = inv [unfolded result_invariants_def bind_result_Inr refuse_Inr]
  show ?thesis
  proof (cases "hcr_status r'")
    case FAILED
    then have "failed_invariants r' = Inr ()" using head by auto
    then show ?thesis
      using head FAILED unfolding failed_invariants_def bind_result_Inr refuse_Inr
      by (cases "hcr_plan_commit_certainty r'") auto
  next
    case PREPARED
    then have "prepared_invariants r' = Inr ()" using head by auto
    then show ?thesis
      using head PREPARED unfolding prepared_invariants_def bind_result_Inr refuse_Inr
      by (cases "hcr_plan_commit_certainty r'") auto
  next
    case COMMITTED
    then have "committed_invariants r' = Inr ()" using head by auto
    then show ?thesis
      using head COMMITTED unfolding committed_invariants_def bind_result_Inr refuse_Inr
      by (auto simp: eq_commute [of None])
  qed
qed

definition sample_compile_result :: harness_compile_result where
  "sample_compile_result = \<lparr>hcr_request_id = ''req.one'', hcr_status = COMMITTED,
     hcr_plan_commit_certainty = PLAN_COMMITTED, hcr_diagnostic_report_state = REPORT_ABSENT,
     hcr_failure_phase = None, hcr_source_document_sha256 = Some (replicate 64 (CHR ''a'')),
     hcr_source_sha256 = Some (replicate 64 (CHR ''b'')), hcr_request_identity_sha256 = None,
     hcr_harness_id = Some ''demo'', hcr_compiled_plan_path = Some ''plans/demo.json'',
     hcr_compiled_sha256 = Some (replicate 64 (CHR ''c'')), hcr_diagnostics_path = None,
     hcr_diagnostics = []\<rparr>"

lemma sample_result_fields:
  "validate_request_id ''req.one'' = Inr ''req.one''" "validate_harness_id ''demo'' = Inr ''demo''"
  "relative_output_path_valid ''plans/demo.json'' = Inr ''plans/demo.json''"
  "SHA256_RE (replicate 64 (CHR ''a''))" "SHA256_RE (replicate 64 (CHR ''b''))" "SHA256_RE (replicate 64 (CHR ''c''))"
  by code_simp+

lemma sample_result_accepted: "check_compile_result plain_env sample_compile_result = Inr sample_compile_result"
proof -
  have "bound_diagnostics plain_env [] = Inr []"
    by (simp add: bound_diagnostics_def sort_diagnostics_def diagnostic_report_size_bytes_def json_dumps_def
        MAX_DIAGNOSTIC_REPORT_BYTES_def MAX_DIAGNOSTICS_PER_REPORT_def)
  then show ?thesis
    by (simp add: check_compile_result_def sample_compile_result_def optional_def validate_sha256_def
        sample_result_fields result_invariants_def committed_invariants_def refuse_def)
qed

theorem compile_result_consistent_witness:
  "hcr_compiled_plan_path sample_compile_result \<noteq> None \<longleftrightarrow>
     hcr_plan_commit_certainty sample_compile_result \<noteq> PLAN_ABSENT"
  using compile_result_consistent [OF sample_result_accepted] by blast

end
