(* ===== verification/Semantic.thy ===== *)
theory Semantic
  imports Requirements Compiled_Plan Requests
begin

text \<open>
  \<^verbatim>\<open>compiler/semantic.py\<close>: resolution of a parsed harness against the two catalog snapshots, and
  the semantic checks. \<open>compile_semantic\<close> runs the phases in the order of the code; a loop that
  appends to the diagnostics returns what it appends. The deep copies of the code are the
  identity on values.
\<close>

section \<open>Resolved objects\<close>

text \<open>\<^verbatim>\<open>ResolvedToolBindingRef\<close> has the fields of the plan's binding reference.\<close>

record resolved_tool_binding =
  rtb_node_id :: string
  rtb_source :: harness_node_source
  rtb_descriptor :: tool_catalog_entry
  rtb_binding :: tool_binding_ref

record resolved_harness =
  rh_request :: harness_compile_request
  rh_source :: harness_source
  rh_tool_snapshot :: catalog_snapshot_metadata
  rh_model_profile_snapshot :: catalog_snapshot_metadata
  rh_model_profile :: compiled_model_profile
  rh_resolved_nodes :: "resolved_tool_binding list"
  rh_terminal_node_ids :: "string list"
  rh_terminal_result_map :: "(string \<times> string) list"
  rh_required_node_ids :: "string list"
  rh_required_capability_ids :: "string list"
  rh_artifact_evidence :: "artifact_producer_evidence list"

record semantic_compile_result =
  scr_resolved_harness :: "resolved_harness option"
  scr_frontend_result :: "harness_compile_result option"
  scr_diagnostics :: "diagnostic list"
  scr_graph_result :: "graph_validation_result option"
  scr_capability_result :: "capability_validation_result option"
  scr_artifact_result :: "artifact_validation_result option"

definition scr_ok :: "semantic_compile_result \<Rightarrow> bool" where
  "scr_ok r \<longleftrightarrow> scr_resolved_harness r \<noteq> None \<and> scr_diagnostics r = []"

definition semantic_failure :: "diagnostic list \<Rightarrow> semantic_compile_result" where
  "semantic_failure ds = \<lparr>scr_resolved_harness = None, scr_frontend_result = None, scr_diagnostics = ds,
     scr_graph_result = None, scr_capability_result = None, scr_artifact_result = None\<rparr>"

section \<open>Diagnostics\<close>

text \<open>The fields are a dictionary; \<open>dict_update\<close> is \<^verbatim>\<open>{**d, **dict(items)}\<close>.\<close>

definition semantic_diagnostic ::
  "redaction_env \<Rightarrow> string \<Rightarrow> string \<Rightarrow> string option \<Rightarrow> string list \<Rightarrow> (string \<times> field_value) list \<Rightarrow>
   diagnostic result" where
  "semantic_diagnostic env code message nid related flds =
     error_diagnostic env RESOLUTION code message nid related flds"

definition dict_update :: "(string \<times> 'v) list \<Rightarrow> (string \<times> 'v) list \<Rightarrow> (string \<times> 'v) list" where
  "dict_update d items = foldl (\<lambda>d' (k, v). dict_set d' k v) d items"

definition str_fields :: "(string \<times> string) list \<Rightarrow> (string \<times> field_value) list" where
  "str_fields items = map (\<lambda>(k, v). (k, FStr v)) items"

section \<open>Tool references\<close>

text \<open>The loop of \<^verbatim>\<open>_parse_unique_tool_refs\<close>; \<open>seen\<close> is \<^verbatim>\<open>seen_bindings\<close>.\<close>

fun parse_refs_loop ::
  "redaction_env \<Rightarrow> ((string \<times> int) \<times> string) list \<Rightarrow> harness_node_source list \<Rightarrow>
   ((string \<times> tool_reference) list \<times> diagnostic list) result" where
  "parse_refs_loop env seen [] = Ok ([], [])"
| "parse_refs_loop env seen (n # ns) =
     (case parse_tool_reference (hnode_tool_ref n) of
        Inl _ \<Rightarrow>
          bind_result (semantic_diagnostic env ''MF-R011''
            (''Node '' @ py_repr (hnode_id n) @ '' has invalid exact tool reference.'')
            (Some (hnode_id n)) [] [(''tool_ref'', FStr (hnode_tool_ref n))]) (\<lambda>d.
          bind_result (parse_refs_loop env seen ns) (\<lambda>(refs, ds). Ok (refs, d # ds)))
      | Inr reference \<Rightarrow>
          let key = (ref_tool_id reference, ref_version reference);
              (previous, seen') = (case map_of seen key of
                 Some p \<Rightarrow> (p, seen) | None \<Rightarrow> (hnode_id n, dict_set seen key (hnode_id n)))
          in bind_result (if previous \<noteq> hnode_id n
               then bind_result (semantic_diagnostic env ''MF-R005''
                      (''Exact tool binding '' @ py_repr (hnode_tool_ref n) @ '' is used by multiple nodes.'')
                      (Some previous) [hnode_id n] [(''tool_ref'', FStr (hnode_tool_ref n))]) (\<lambda>d. Ok [d])
               else Ok []) (\<lambda>d1.
             bind_result (parse_refs_loop env seen' ns) (\<lambda>(refs, ds).
             Ok ((hnode_id n, reference) # refs, d1 @ ds))))"

definition parse_unique_tool_refs ::
  "redaction_env \<Rightarrow> harness_source \<Rightarrow> ((string \<times> tool_reference) list \<times> diagnostic list) result" where
  "parse_unique_tool_refs env source =
     parse_refs_loop env [] (sort_key hnode_id (graph_nodes (hs_graph source)))"

section \<open>Lookups\<close>

definition lookup_model_profile ::
  "redaction_env \<Rightarrow> string \<Rightarrow> model_profile_catalog_snapshot \<Rightarrow>
   (compiled_model_profile option \<times> diagnostic list) result" where
  "lookup_model_profile env pid snapshot =
     (case resolve_profile snapshot pid of
        Inl exc \<Rightarrow>
          bind_result (semantic_diagnostic env ''MF-R009'' ''Model profile catalog lookup failed.'' None []
            [(''error_type'', FStr (error_type_name exc)), (''profile_id'', FStr pid)]) (\<lambda>d. Ok (None, [d]))
      | Inr lookup \<Rightarrow>
          if lookup_classification lookup = FOUND
          then (case lookup_entry lookup of
             None \<Rightarrow>
               bind_result (semantic_diagnostic env ''MF-R010'' ''Model profile lookup returned no profile payload.''
                 None [] [(''profile_id'', FStr pid)]) (\<lambda>d. Ok (None, [d]))
           | Some profile \<Rightarrow>
               if profile_id profile \<noteq> pid
               then bind_result (semantic_diagnostic env ''MF-R010''
                      ''Model profile lookup returned a mismatched profile.'' None []
                      [(''profile_id'', FStr pid), (''resolved_profile_id'', FStr (profile_id profile))])
                      (\<lambda>d. Ok (None, [d]))
               else Ok (Some profile, []))
          else bind_result (semantic_diagnostic env
                 (if lookup_classification lookup = MISSING then ''MF-R001'' else ''MF-R010'')
                 (''Model profile '' @ py_repr pid @ '' could not be resolved.'') None []
                 (dict_update [(''profile_id'', FStr pid)] (str_fields (lookup_evidence lookup))))
                 (\<lambda>d. Ok (None, [d])))"

definition tool_lookup_invalid_code :: "tool_catalog_lookup \<Rightarrow> string" where
  "tool_lookup_invalid_code lookup =
     (if lookup_error_code lookup = Some ''unsupported-tool-schema'' then ''MF-R007''
      else if lookup_error_code lookup = Some ''catalog-snapshot-drift'' then ''MF-R008''
      else ''MF-R004'')"

text \<open>\<^verbatim>\<open>ResolvedToolBindingRef(...)\<close> checks that the version is positive.\<close>

definition mk_tool_binding :: "tool_catalog_entry \<Rightarrow> tool_binding_ref result" where
  "mk_tool_binding entry =
     bind_result (require_positive (td_tool_version entry)) (\<lambda>_.
     Ok \<lparr>tb_tool_id = td_tool_id entry, tb_tool_version = td_tool_version entry,
         tb_descriptor_sha256 = td_descriptor_sha256 entry, tb_implementation_id = td_implementation_id entry\<rparr>)"

text \<open>One round of the loop: the node is bound, or a diagnostic says why not.\<close>

definition lookup_tool_binding ::
  "redaction_env \<Rightarrow> (string \<times> harness_node_source) list \<Rightarrow> tool_catalog_snapshot \<Rightarrow> string \<Rightarrow>
   tool_reference \<Rightarrow> (diagnostic + resolved_tool_binding) result" where
  "lookup_tool_binding env by_id snapshot nid reference =
     (let tool_id = ref_tool_id reference; version = ref_version reference;
          flds = [(''tool_id'', FStr tool_id), (''tool_version'', FInt version)];
          report = (\<lambda>code message flds'. bind_result (semantic_diagnostic env code message (Some nid) [] flds')
            (\<lambda>d. Ok (Inl d)))
      in case resolve_tool snapshot tool_id version of
           Inl exc \<Rightarrow> report ''MF-R009'' ''Tool catalog lookup failed.''
             [(''error_type'', FStr (error_type_name exc)), (''tool_id'', FStr tool_id)]
         | Inr lookup \<Rightarrow>
             if lookup_classification lookup = FOUND
             then (case lookup_entry lookup of
                None \<Rightarrow> report ''MF-R004'' ''Tool binding lookup returned no entry payload.'' flds
              | Some entry \<Rightarrow>
                  if td_tool_id entry \<noteq> tool_id \<or> td_tool_version entry \<noteq> version
                  then report ''MF-R003'' ''Tool binding lookup returned a mismatched entry.''
                         (flds @ [(''resolved_tool_id'', FStr (td_tool_id entry)),
                            (''resolved_tool_version'', FInt (td_tool_version entry))])
                  else (case map_of by_id nid of
                     None \<Rightarrow> Raise (KeyError nid)
                   | Some node \<Rightarrow>
                       bind_result (mk_tool_binding entry) (\<lambda>binding.
                       Ok (Inr \<lparr>rtb_node_id = nid, rtb_source = node, rtb_descriptor = entry,
                                rtb_binding = binding\<rparr>))))
             else report (if lookup_classification lookup = MISSING then ''MF-R002''
                          else tool_lookup_invalid_code lookup)
                    (''Tool binding '' @ tool_id @ ''@'' @ show_int version @ '' could not be resolved.'')
                    (dict_update flds (str_fields (lookup_evidence lookup))))"

definition lookup_tool_bindings ::
  "redaction_env \<Rightarrow> harness_source \<Rightarrow> (string \<times> tool_reference) list \<Rightarrow> tool_catalog_snapshot \<Rightarrow>
   (resolved_tool_binding list \<times> diagnostic list) result" where
  "lookup_tool_bindings env source parsed_refs snapshot =
     bind_result (traverse (\<lambda>(nid, reference).
         lookup_tool_binding env (nodes_by_id (graph_nodes (hs_graph source))) snapshot nid reference)
       (sort_key fst parsed_refs)) (\<lambda>outcomes.
     Ok (concat (map (\<lambda>r. case r of Inl _ \<Rightarrow> [] | Inr b \<Rightarrow> [b]) outcomes),
         concat (map (\<lambda>r. case r of Inl d \<Rightarrow> [d] | Inr _ \<Rightarrow> []) outcomes)))"

section \<open>Model tool names\<close>

fun tool_name_loop ::
  "redaction_env \<Rightarrow> (string \<times> string) list \<Rightarrow> resolved_tool_binding list \<Rightarrow> diagnostic list result" where
  "tool_name_loop env seen [] = Ok []"
| "tool_name_loop env seen (b # bs) =
     (let name = td_model_tool_name (rtb_descriptor b);
          (previous, seen') = (case map_of seen name of
             Some p \<Rightarrow> (p, seen) | None \<Rightarrow> (rtb_node_id b, dict_set seen name (rtb_node_id b)))
      in bind_result (if previous \<noteq> rtb_node_id b
           then bind_result (semantic_diagnostic env ''MF-R006''
                  (''Model tool name '' @ py_repr name @ '' is used by multiple resolved nodes.'')
                  (Some previous) [rtb_node_id b] [(''model_tool_name'', FStr name)]) (\<lambda>d. Ok [d])
           else Ok []) (\<lambda>d1.
         bind_result (tool_name_loop env seen' bs) (\<lambda>ds. Ok (d1 @ ds))))"

definition duplicate_model_tool_name_diagnostics ::
  "redaction_env \<Rightarrow> resolved_tool_binding list \<Rightarrow> diagnostic list result" where
  "duplicate_model_tool_name_diagnostics env resolved_nodes =
     tool_name_loop env [] (sort_key rtb_node_id resolved_nodes)"

section \<open>The semantic phase\<close>

text \<open>\<^verbatim>\<open>ResolvedNodeDescriptor(...)\<close> validates its node identifier.\<close>

definition mk_resolved_node_descriptor :: "resolved_tool_binding \<Rightarrow> resolved_node_descriptor result" where
  "mk_resolved_node_descriptor b =
     bind_result (validate_node_id (rtb_node_id b)) (\<lambda>nid.
     Ok \<lparr>rnd_node_id = nid, rnd_source = rtb_source b, rnd_descriptor = rtb_descriptor b\<rparr>)"

text \<open>The dictionary \<^verbatim>\<open>resolved_descriptors\<close>; the bound nodes have distinct identifiers.\<close>

definition resolved_descriptors ::
  "resolved_tool_binding list \<Rightarrow> (string \<times> resolved_value) list result" where
  "resolved_descriptors bs =
     traverse (\<lambda>b. bind_result (mk_resolved_node_descriptor b) (\<lambda>d. Ok (rtb_node_id b, Inr d))) bs"

text \<open>The rest of \<^verbatim>\<open>compile_semantic\<close>, after the metadata of the snapshots was captured.\<close>

definition compile_resolved ::
  "redaction_env \<Rightarrow> harness_compile_request \<Rightarrow> harness_source \<Rightarrow> tool_catalog_snapshot \<Rightarrow>
   model_profile_catalog_snapshot \<Rightarrow> (string \<times> tool_reference) list \<Rightarrow> catalog_snapshot_metadata \<Rightarrow>
   catalog_snapshot_metadata \<Rightarrow> semantic_compile_result result" where
  "compile_resolved env request source tool_snapshot profile_snapshot refs tool_metadata model_metadata =
     bind_result (lookup_model_profile env (hs_model_profile_id source) profile_snapshot) (\<lambda>(profile, d1).
     bind_result (lookup_tool_bindings env source refs tool_snapshot) (\<lambda>(resolved_nodes, d2).
     bind_result (resolved_descriptors resolved_nodes) (\<lambda>descriptors.
     bind_result (duplicate_model_tool_name_diagnostics env resolved_nodes) (\<lambda>d3.
     bind_result (validate_harness_graph env source descriptors
       (Some (req_legal_terminal_results request))) (\<lambda>graph.
     bind_result (validate_capability_grants env descriptors
       (env_grants (req_capability_envelope request))) (\<lambda>capability.
     bind_result (validate_artifacts env source descriptors graph) (\<lambda>artifact.
     bind_result (bound_diagnostics env
       (d1 @ d2 @ d3 @ gvr_diagnostics graph @ cvr_diagnostics capability @ avr_diagnostics artifact)) (\<lambda>bounded.
     let done = \<lparr>scr_resolved_harness = None, scr_frontend_result = None, scr_diagnostics = bounded,
                 scr_graph_result = Some graph, scr_capability_result = Some capability,
                 scr_artifact_result = Some artifact\<rparr>
     in case profile of
          None \<Rightarrow> Ok done
        | Some p \<Rightarrow>
            if bounded \<noteq> [] then Ok done
            else Ok (done\<lparr>scr_resolved_harness := Some
              \<lparr>rh_request = request, rh_source = source, rh_tool_snapshot = tool_metadata,
               rh_model_profile_snapshot = model_metadata, rh_model_profile = p,
               rh_resolved_nodes = sort_key rtb_node_id resolved_nodes,
               rh_terminal_node_ids = gvr_terminal_node_ids graph,
               rh_terminal_result_map = sort_key fst (gvr_terminal_result_map graph),
               rh_required_node_ids = gvr_required_node_ids graph,
               rh_required_capability_ids = cvr_required_capability_ids capability,
               rh_artifact_evidence = avr_producer_evidence artifact\<rparr>\<rparr>)))))))))"

text \<open>
  \<^verbatim>\<open>compile_semantic\<close>. The metadata of the model profile snapshot is captured only when that of the
  tool snapshot was; the left side of a capture is the evidence of the error.
\<close>

definition compile_semantic ::
  "redaction_env \<Rightarrow> harness_compile_request \<Rightarrow> harness_source \<Rightarrow> tool_catalog_snapshot \<Rightarrow>
   model_profile_catalog_snapshot \<Rightarrow> semantic_compile_result result" where
  "compile_semantic env request source tool_snapshot profile_snapshot =
     bind_result (parse_unique_tool_refs env source) (\<lambda>(refs, preflight).
     if preflight \<noteq> []
     then bind_result (bound_diagnostics env preflight) (\<lambda>ds. Ok (semantic_failure ds))
     else if is_connector_discovery_snapshot_like tool_snapshot
     then bind_result (semantic_diagnostic env DISCOVERY_NOT_CATALOG_CODE
            ''Connector discovery snapshots are not semantic tool catalogs.'' None []
            [(''catalog_role'', FStr ''tool_snapshot'')]) (\<lambda>d. Ok (semantic_failure [d]))
     else bind_result (bind_result (capture_catalog_snapshot_metadata env tool_snapshot) (\<lambda>t.
            case t of
              Inl evidence \<Rightarrow> Ok (Inl evidence)
            | Inr tool_metadata \<Rightarrow>
                bind_result (capture_catalog_snapshot_metadata env profile_snapshot) (\<lambda>m.
                case m of
                  Inl evidence \<Rightarrow> Ok (Inl evidence)
                | Inr model_metadata \<Rightarrow> Ok (Inr (tool_metadata, model_metadata))))) (\<lambda>captured.
          case captured of
            Inl evidence \<Rightarrow>
              bind_result (semantic_diagnostic env MF_R009 ''Catalog snapshot metadata is invalid.'' None []
                (dict_update [] (str_fields evidence))) (\<lambda>d. Ok (semantic_failure [d]))
          | Inr (tool_metadata, model_metadata) \<Rightarrow>
              compile_resolved env request source tool_snapshot profile_snapshot refs
                tool_metadata model_metadata))"

text \<open>
  \<^verbatim>\<open>compile_semantic_from_admission\<close> on the outcome of the admission: a failed result (with the
  request and source it does not have), or the request with the parsed source.
\<close>

definition compile_semantic_from_admission ::
  "redaction_env \<Rightarrow> harness_compile_result + harness_compile_request \<Rightarrow> harness_source option \<Rightarrow>
   tool_catalog_snapshot \<Rightarrow> model_profile_catalog_snapshot \<Rightarrow> semantic_compile_result result" where
  "compile_semantic_from_admission env admission source tool_snapshot profile_snapshot =
     (case admission of
        Inl failed \<Rightarrow> Ok ((semantic_failure (hcr_diagnostics failed))\<lparr>scr_frontend_result := Some failed\<rparr>)
      | Inr request \<Rightarrow>
          (case source of
             None \<Rightarrow> Raise (ValueError ''successful admission requires a parsed HarnessSource'')
           | Some s \<Rightarrow> compile_semantic env request s tool_snapshot profile_snapshot))"

section \<open>What each step reports\<close>

text \<open>The reference, binding key and catalog entry of a node, when there is one.\<close>

definition node_reference :: "harness_node_source \<Rightarrow> tool_reference option" where
  "node_reference n = (case parse_tool_reference (hnode_tool_ref n) of Inl _ \<Rightarrow> None | Inr r \<Rightarrow> Some r)"

definition binding_key :: "tool_reference \<Rightarrow> string \<times> int" where
  "binding_key r = (ref_tool_id r, ref_version r)"

definition resolved_entry :: "tool_catalog_snapshot \<Rightarrow> tool_reference \<Rightarrow> tool_catalog_entry option" where
  "resolved_entry snapshot r =
     (case resolve_tool snapshot (ref_tool_id r) (ref_version r) of
        Inl _ \<Rightarrow> None
      | Inr lookup \<Rightarrow>
          if lookup_classification lookup \<noteq> FOUND then None
          else (case lookup_entry lookup of
             None \<Rightarrow> None
           | Some e \<Rightarrow> if td_tool_id e = ref_tool_id r \<and> td_tool_version e = ref_version r then Some e else None))"

definition node_entry :: "tool_catalog_snapshot \<Rightarrow> harness_node_source \<Rightarrow> tool_catalog_entry option" where
  "node_entry snapshot n = Option.bind (node_reference n) (resolved_entry snapshot)"

definition resolved_model_profile ::
  "model_profile_catalog_snapshot \<Rightarrow> string \<Rightarrow> compiled_model_profile option" where
  "resolved_model_profile snapshot pid =
     (case resolve_profile snapshot pid of
        Inl _ \<Rightarrow> None
      | Inr lookup \<Rightarrow>
          if lookup_classification lookup \<noteq> FOUND then None
          else (case lookup_entry lookup of
             None \<Rightarrow> None
           | Some p \<Rightarrow> if profile_id p = pid then Some p else None))"

definition binding_of :: "harness_node_source \<Rightarrow> tool_catalog_entry \<Rightarrow> resolved_tool_binding" where
  "binding_of n e = \<lparr>rtb_node_id = hnode_id n, rtb_source = n, rtb_descriptor = e,
     rtb_binding = \<lparr>tb_tool_id = td_tool_id e, tb_tool_version = td_tool_version e,
       tb_descriptor_sha256 = td_descriptor_sha256 e, tb_implementation_id = td_implementation_id e\<rparr>\<rparr>"

lemma bound_loop_nonempty: "bound_loop env w kept = Inr ds \<Longrightarrow> ds \<noteq> []"
proof (induction env w kept rule: bound_loop.induct)
  case (1 env w kept)
  show ?case
    using "1.prems" [unfolded bound_loop.simps [of env w kept]] "1.IH"
    by (auto simp: bind_result_Inr split: if_splits)
qed

lemma bound_diagnostics_Nil:
  assumes "bound_diagnostics env ds = Inr b"
  shows "b = [] \<longleftrightarrow> ds = []"
proof (cases "ds = []")
  case True
  have "bound_diagnostics env [] = Inr []"
    by (simp add: bound_diagnostics_def sort_diagnostics_def diagnostic_report_size_bytes_def json_dumps_def
        MAX_DIAGNOSTIC_REPORT_BYTES_def MAX_DIAGNOSTICS_PER_REPORT_def)
  then show ?thesis using assms True by simp
next
  case False
  then show ?thesis
    using assms unfolding bound_diagnostics_def Let_def bind_result_Inr
    by (auto simp: bind_result_Inr dest: bound_loop_nonempty split: if_splits)
qed

text \<open>
  The loops that report a key seen twice, for keys of list elements with distinct identifiers:
  \<open>fresh\<close> says that the first owners recorded so far are not among them.
\<close>

definition fresh :: "('k \<times> string) list \<Rightarrow> string list \<Rightarrow> bool" where
  "fresh seen ids \<longleftrightarrow> snd ` set seen \<inter> set ids = {}"

lemma fresh_Cons: "fresh seen (i # ids) \<longleftrightarrow> i \<notin> snd ` set seen \<and> fresh seen ids"
  by (auto simp: fresh_def)

lemma fresh_lookup: "fresh seen ids \<Longrightarrow> map_of seen k = Some p \<Longrightarrow> p \<notin> set ids"
  by (force simp: fresh_def dest: map_of_SomeD)

lemma values_dict_set: "snd ` set (dict_set d k v) \<subseteq> insert v (snd ` set d)"
  by (induction d k v rule: dict_set.induct) auto

lemma fresh_set: "fresh seen ids \<Longrightarrow> i \<notin> set ids \<Longrightarrow> fresh (dict_set seen k i) ids"
  using values_dict_set [of seen k i] unfolding fresh_def by blast

lemma ball_insert_image: "(\<forall>m \<in> S. f m \<notin> insert r T) \<longleftrightarrow> r \<notin> f ` S \<and> (\<forall>m \<in> S. f m \<notin> T)"
  by auto

lemma parse_refs_loop_spec:
  assumes "parse_refs_loop env seen ns = Inr (refs, ds)"
    and "distinct (map hnode_id ns)" and "fresh seen (map hnode_id ns)"
  shows "ds = [] \<longleftrightarrow> (\<forall>n \<in> set ns. node_reference n \<noteq> None)
        \<and> distinct (map (\<lambda>n. binding_key (the (node_reference n))) ns)
        \<and> (\<forall>n \<in> set ns. binding_key (the (node_reference n)) \<notin> fst ` set seen)"
    and "ds = [] \<Longrightarrow> refs = map (\<lambda>n. (hnode_id n, the (node_reference n))) ns"
proof -
  have "(ds = [] \<longleftrightarrow> (\<forall>n \<in> set ns. node_reference n \<noteq> None)
        \<and> distinct (map (\<lambda>n. binding_key (the (node_reference n))) ns)
        \<and> (\<forall>n \<in> set ns. binding_key (the (node_reference n)) \<notin> fst ` set seen))
      \<and> (ds = [] \<longrightarrow> refs = map (\<lambda>n. (hnode_id n, the (node_reference n))) ns)"
    using assms
  proof (induction ns arbitrary: seen refs ds)
    case (Cons n ns)
    show ?case
    proof (cases "parse_tool_reference (hnode_tool_ref n)")
      case (Inl e)
      then show ?thesis using Cons.prems(1) by (auto simp: bind_result_Inr node_reference_def)
    next
      case (Inr r)
      have ref: "node_reference n = Some r" by (simp add: node_reference_def Inr)
      show ?thesis
      proof (cases "map_of seen (binding_key r)")
        case None
        let ?seen = "dict_set seen (binding_key r) (hnode_id n)"
        obtain refs' where tl: "parse_refs_loop env ?seen ns = Inr (refs', ds)"
          and refs: "refs = (hnode_id n, r) # refs'"
          using Cons.prems(1) Inr None by (auto simp: bind_result_Inr binding_key_def)
        have "fresh ?seen (map hnode_id ns)"
          by (rule fresh_set) (use Cons.prems in \<open>auto simp: fresh_Cons\<close>)
        note ih = Cons.IH [OF tl _ this]
        have "binding_key r \<notin> fst ` set seen" using None by (simp add: map_of_eq_None_iff)
        moreover have "(\<forall>m \<in> set ns. binding_key (the (node_reference m)) \<notin> insert (binding_key r) (fst ` set seen))
            \<longleftrightarrow> binding_key r \<notin> (\<lambda>m. binding_key (the (node_reference m))) ` set ns
              \<and> (\<forall>m \<in> set ns. binding_key (the (node_reference m)) \<notin> fst ` set seen)"
          by (rule ball_insert_image)
        ultimately show ?thesis
          using ih Cons.prems(2) ref unfolding refs image_fst_dict_set by (simp, blast)
      next
        case (Some p)
        then have "p \<noteq> hnode_id n" using fresh_lookup [OF Cons.prems(3) Some] by auto
        then have "ds \<noteq> []"
          using Cons.prems(1) Inr Some by (auto simp: bind_result_Inr binding_key_def)
        moreover have "binding_key r \<in> fst ` set seen"
          using Some by (force dest: map_of_SomeD)
        ultimately show ?thesis using ref by (auto)
      qed
    qed
  qed simp
  then show "ds = [] \<longleftrightarrow> (\<forall>n \<in> set ns. node_reference n \<noteq> None)
        \<and> distinct (map (\<lambda>n. binding_key (the (node_reference n))) ns)
        \<and> (\<forall>n \<in> set ns. binding_key (the (node_reference n)) \<notin> fst ` set seen)"
    and "ds = [] \<Longrightarrow> refs = map (\<lambda>n. (hnode_id n, the (node_reference n))) ns" by blast+
qed

lemma tool_name_loop_Nil:
  assumes "tool_name_loop env seen bs = Inr ds"
    and "distinct (map rtb_node_id bs)" and "fresh seen (map rtb_node_id bs)"
  shows "ds = [] \<longleftrightarrow> distinct (map (\<lambda>b. td_model_tool_name (rtb_descriptor b)) bs)
      \<and> (\<forall>b \<in> set bs. td_model_tool_name (rtb_descriptor b) \<notin> fst ` set seen)"
  using assms
proof (induction bs arbitrary: seen ds)
  case (Cons b bs)
  let ?k = "td_model_tool_name (rtb_descriptor b)"
  show ?case
  proof (cases "map_of seen ?k")
    case None
    have tl: "tool_name_loop env (dict_set seen ?k (rtb_node_id b)) bs = Inr ds"
      using Cons.prems(1) None by (auto simp: bind_result_Inr Let_def)
    have "fresh (dict_set seen ?k (rtb_node_id b)) (map rtb_node_id bs)"
      by (rule fresh_set) (use Cons.prems in \<open>auto simp: fresh_Cons\<close>)
    note ih = Cons.IH [OF tl _ this]
    have "?k \<notin> fst ` set seen" using None by (simp add: map_of_eq_None_iff)
    then show ?thesis using ih Cons.prems(2) by auto (metis image_eqI)+
  next
    case (Some p)
    then have "p \<noteq> rtb_node_id b" using fresh_lookup [OF Cons.prems(3) Some] by auto
    then have "ds \<noteq> []" using Cons.prems(1) Some by (auto simp: bind_result_Inr Let_def)
    moreover have "?k \<in> fst ` set seen"
      using Some by (force dest: map_of_SomeD)
    ultimately show ?thesis by (auto)
  qed
qed simp


section \<open>When a harness has a meaning\<close>

definition snapshot_sound :: "'a catalog_snapshot_scheme \<Rightarrow> bool" where
  "snapshot_sound snapshot \<longleftrightarrow>
     (case (snapshot_id snapshot, snapshot_sha256 snapshot) of
        (Inr i, Inr h) \<Rightarrow> SHA256_RE i \<and> SHA256_RE h | _ \<Rightarrow> False)"

definition snapshot_metadata :: "'a catalog_snapshot_scheme \<Rightarrow> catalog_snapshot_metadata" where
  "snapshot_metadata snapshot =
     \<lparr>meta_snapshot_id = projr (snapshot_id snapshot), meta_snapshot_sha256 = projr (snapshot_sha256 snapshot)\<rparr>"

text \<open>The nodes in the order of their names, with the catalog entries they are bound to.\<close>

definition ordered_nodes :: "harness_source \<Rightarrow> harness_node_source list" where
  "ordered_nodes source = sort_key hnode_id (graph_nodes (hs_graph source))"

definition node_entries :: "tool_catalog_snapshot \<Rightarrow> harness_source \<Rightarrow> (string \<times> tool_catalog_entry) list" where
  "node_entries snapshot source = map (\<lambda>n. (hnode_id n, the (node_entry snapshot n))) (ordered_nodes source)"

definition bindings_sound :: "tool_catalog_snapshot \<Rightarrow> harness_node_source list \<Rightarrow> bool" where
  "bindings_sound snapshot nodes \<longleftrightarrow>
     (\<forall>n \<in> set nodes. node_reference n \<noteq> None \<and> node_entry snapshot n \<noteq> None)
     \<and> distinct (map (\<lambda>n. binding_key (the (node_reference n))) nodes)
     \<and> distinct (map (\<lambda>n. td_model_tool_name (the (node_entry snapshot n))) nodes)"

lemma captured_metadata:
  assumes "capture_catalog_snapshot_metadata env snapshot = Inr out"
  shows "(if snapshot_sound snapshot then out = Inr (snapshot_metadata snapshot) else \<exists>ev. out = Inl ev)"
proof -
  have [simp]: "SHA256_RE v \<Longrightarrow> validate_sha256 v f = Inr v" for v f by (simp add: validate_sha256_Inr)
  show ?thesis
    using assms unfolding capture_catalog_snapshot_metadata_def snapshot_sound_def snapshot_metadata_def
    by (cases "snapshot_id snapshot"; cases "snapshot_sha256 snapshot")
      (auto simp: bind_result_Inr validate_sha256_Inr split: sum.splits)
qed

lemma looked_up_profile:
  assumes "lookup_model_profile env pid snapshot = Inr (p, ds)"
  shows "p = resolved_model_profile snapshot pid" and "ds = [] \<longleftrightarrow> p \<noteq> None"
  using assms unfolding lookup_model_profile_def resolved_model_profile_def
  by (auto simp: bind_result_Inr Let_def split: sum.splits option.splits if_splits) metis

lemma looked_up_binding:
  assumes "lookup_tool_binding env by_id snapshot nid r = Inr out" and "map_of by_id nid = Some n"
    and "hnode_id n = nid"
  shows "(case resolved_entry snapshot r of Some e \<Rightarrow> out = Inr (binding_of n e) | None \<Rightarrow> \<exists>d. out = Inl d)"
  using assms unfolding lookup_tool_binding_def resolved_entry_def mk_tool_binding_def binding_of_def Let_def
  by (auto simp: bind_result_Inr split: sum.splits option.splits if_splits)


lemma map_of_nodes_by_id:
  "distinct (map hnode_id nodes) \<Longrightarrow> n \<in> set nodes \<Longrightarrow> map_of (nodes_by_id nodes) (hnode_id n) = Some n"
  by (simp add: nodes_by_id_distinct map_of_eq_Some_iff comp_def)

lemma looked_up_bindings:
  assumes dist: "distinct (map hnode_id (graph_nodes (hs_graph source)))"
    and run: "lookup_tool_bindings env source
      (map (\<lambda>n. (hnode_id n, the (node_reference n))) (ordered_nodes source)) snapshot = Inr (bs, ds)"
    and refs: "\<forall>n \<in> set (graph_nodes (hs_graph source)). node_reference n \<noteq> None"
  shows "ds = [] \<longleftrightarrow> (\<forall>n \<in> set (graph_nodes (hs_graph source)). node_entry snapshot n \<noteq> None)"
    and "ds = [] \<Longrightarrow> bs = map (\<lambda>n. binding_of n (the (node_entry snapshot n))) (ordered_nodes source)"
proof -
  let ?nodes = "graph_nodes (hs_graph source)"
  let ?ref = "\<lambda>n. (hnode_id n, the (node_reference n))"
  have sub: "set (ordered_nodes source) = set ?nodes" by (simp add: ordered_nodes_def)
  have "sort_key fst (map ?ref (ordered_nodes source)) = map ?ref (ordered_nodes source)"
    by (rule sort_key_id_if_sorted) (simp add: ordered_nodes_def comp_def)
  then obtain outs where outs: "traverse (\<lambda>(nid, r). lookup_tool_binding env (nodes_by_id ?nodes) snapshot nid r)
        (map ?ref (ordered_nodes source)) = Inr outs"
    and bs: "bs = concat (map (\<lambda>r. case r of Inl _ \<Rightarrow> [] | Inr b \<Rightarrow> [b]) outs)"
    and ds: "ds = concat (map (\<lambda>r. case r of Inl d \<Rightarrow> [d] | Inr _ \<Rightarrow> []) outs)"
    using run by (auto simp: lookup_tool_bindings_def bind_result_Inr)
  have one: "case node_entry snapshot n of Some e \<Rightarrow> out = Inr (binding_of n e) | None \<Rightarrow> \<exists>d. out = Inl d"
    if "n \<in> set ?nodes" "lookup_tool_binding env (nodes_by_id ?nodes) snapshot (hnode_id n) (the (node_reference n)) = Inr out"
    for n out
    using looked_up_binding [OF that(2) map_of_nodes_by_id [OF dist that(1)] refl] refs that(1)
    by (auto simp: node_entry_def)
  have "(ds = [] \<longleftrightarrow> (\<forall>n \<in> set ns. node_entry snapshot n \<noteq> None))
      \<and> (ds = [] \<longrightarrow> bs = map (\<lambda>n. binding_of n (the (node_entry snapshot n))) ns)"
    if "set ns \<subseteq> set ?nodes" and "traverse (\<lambda>(nid, r). lookup_tool_binding env (nodes_by_id ?nodes) snapshot nid r)
        (map ?ref ns) = Inr outs"
      and "bs = concat (map (\<lambda>r. case r of Inl _ \<Rightarrow> [] | Inr b \<Rightarrow> [b]) outs)"
      and "ds = concat (map (\<lambda>r. case r of Inl d \<Rightarrow> [d] | Inr _ \<Rightarrow> []) outs)" for ns outs bs ds
    using that
  proof (induction ns arbitrary: outs bs ds)
    case (Cons n ns)
    obtain out outs' where o: "outs = out # outs'"
      "lookup_tool_binding env (nodes_by_id ?nodes) snapshot (hnode_id n) (the (node_reference n)) = Inr out"
      "traverse (\<lambda>(nid, r). lookup_tool_binding env (nodes_by_id ?nodes) snapshot nid r) (map ?ref ns) = Inr outs'"
      using Cons.prems(2) by (auto simp: bind_result_Inr)
    have n: "n \<in> set ?nodes" using Cons.prems(1) by simp
    show ?case
      using one [OF n o(2)] Cons.IH [OF _ o(3) refl refl] Cons.prems(1) unfolding Cons.prems(3,4) o(1)
      by (cases "node_entry snapshot n") auto
  qed simp
  note this [OF _ outs bs ds]
  then show "ds = [] \<longleftrightarrow> (\<forall>n \<in> set ?nodes. node_entry snapshot n \<noteq> None)"
    and "ds = [] \<Longrightarrow> bs = map (\<lambda>n. binding_of n (the (node_entry snapshot n))) (ordered_nodes source)"
    by (auto simp: sub)
qed


text \<open>
  The meaning of a harness: what the source, its binding to the catalogs and the grants of the
  request must satisfy.
\<close>

definition harness_sound ::
  "redaction_env \<Rightarrow> harness_compile_request \<Rightarrow> harness_source \<Rightarrow> tool_catalog_snapshot \<Rightarrow>
   model_profile_catalog_snapshot \<Rightarrow> bool" where
  "harness_sound env request source tool_snapshot profile_snapshot \<longleftrightarrow>
     (let nodes = graph_nodes (hs_graph source); entries = node_entries tool_snapshot source in
      \<not> is_connector_discovery_snapshot_like tool_snapshot
      \<and> snapshot_sound tool_snapshot \<and> snapshot_sound profile_snapshot
      \<and> resolved_model_profile profile_snapshot (hs_model_profile_id source) \<noteq> None
      \<and> bindings_sound tool_snapshot nodes
      \<and> prerequisites_sound nodes \<and> (\<forall>i. \<not> (depends nodes)\<^sup>+\<^sup>+ i i)
      \<and> terminals_sound nodes (Some (req_legal_terminal_results request)) \<and> terminals_gated nodes
      \<and> arguments_compatible env nodes entries
      \<and> (\<forall>(nid, e) \<in> set entries.
           set (td_required_capabilities e) \<subseteq> set (env_grants (req_capability_envelope request)))
      \<and> artifacts_sound nodes entries (declared_artifact_ids (hs_artifacts source))
          (required_by_terminal (hs_artifacts source)))"

definition resolution ::
  "harness_compile_request \<Rightarrow> harness_source \<Rightarrow> tool_catalog_snapshot \<Rightarrow> model_profile_catalog_snapshot \<Rightarrow>
   artifact_producer_evidence list \<Rightarrow> resolved_harness" where
  "resolution request source tool_snapshot profile_snapshot evidence =
     \<lparr>rh_request = request, rh_source = source, rh_tool_snapshot = snapshot_metadata tool_snapshot,
      rh_model_profile_snapshot = snapshot_metadata profile_snapshot,
      rh_model_profile = the (resolved_model_profile profile_snapshot (hs_model_profile_id source)),
      rh_resolved_nodes = map (\<lambda>n. binding_of n (the (node_entry tool_snapshot n))) (ordered_nodes source),
      rh_terminal_node_ids = map fst (terminal_nodes (graph_nodes (hs_graph source))),
      rh_terminal_result_map = sort_key fst (terminal_nodes (graph_nodes (hs_graph source))),
      rh_required_node_ids = required_node_ids (graph_nodes (hs_graph source)),
      rh_required_capability_ids =
        sorted_set (\<Union>(nid, e) \<in> set (node_entries tool_snapshot source). set (td_required_capabilities e)),
      rh_artifact_evidence = evidence\<rparr>"

lemma described_bindings:
  assumes "resolved_descriptors (map (\<lambda>n. binding_of n (the (node_entry snapshot n))) ns) = Inr descriptors"
  shows "resolved_entries descriptors = map (\<lambda>n. (hnode_id n, the (node_entry snapshot n))) ns"
    and "fst ` set descriptors = hnode_id ` set ns"
proof -
  have "resolved_entries descriptors = map (\<lambda>n. (hnode_id n, the (node_entry snapshot n))) ns
      \<and> map fst descriptors = map hnode_id ns"
    using assms unfolding resolved_descriptors_def
    by (induction ns arbitrary: descriptors)
      (auto simp: bind_result_Inr mk_resolved_node_descriptor_def resolved_entries_def binding_of_def)
  then show "resolved_entries descriptors = map (\<lambda>n. (hnode_id n, the (node_entry snapshot n))) ns"
    and "fst ` set descriptors = hnode_id ` set ns" by (blast, metis list.set_map)
qed

lemma compile_resolved_outcome:
  assumes wf: "wf_harness_graph (hs_graph source)"
    and refs: "\<forall>n \<in> set (graph_nodes (hs_graph source)). node_reference n \<noteq> None"
      "distinct (map (\<lambda>n. binding_key (the (node_reference n))) (graph_nodes (hs_graph source)))"
    and snap: "\<not> is_connector_discovery_snapshot_like ts" "snapshot_sound ts" "snapshot_sound ps"
    and run: "compile_resolved env request source ts ps
      (map (\<lambda>n. (hnode_id n, the (node_reference n))) (ordered_nodes source))
      (snapshot_metadata ts) (snapshot_metadata ps) = Inr r"
  shows "scr_ok r \<longleftrightarrow> harness_sound env request source ts ps"
    and "scr_ok r \<Longrightarrow> \<exists>evidence. scr_resolved_harness r = Some (resolution request source ts ps evidence)"
proof -
  let ?nodes = "graph_nodes (hs_graph source)" and ?ns = "ordered_nodes source"
  let ?bound = "map (\<lambda>n. binding_of n (the (node_entry ts n))) ?ns"
  have dist: "distinct (map hnode_id ?nodes)" using wf by (simp add: wf_harness_graph_def)
  have ns: "set ?ns = set ?nodes" "distinct (map hnode_id ?ns)" "distinct (map f ?ns) \<longleftrightarrow> distinct (map f ?nodes)" for f :: "_ \<Rightarrow> string"
    using dist by (simp_all add: ordered_nodes_def)
  obtain p d1 bs d2 descriptors d3 g c a bounded where
    p: "lookup_model_profile env (hs_model_profile_id source) ps = Inr (p, d1)" and
    bs: "lookup_tool_bindings env source (map (\<lambda>n. (hnode_id n, the (node_reference n))) ?ns) ts = Inr (bs, d2)" and
    descriptors: "resolved_descriptors bs = Inr descriptors" and
    d3: "tool_name_loop env [] (sort_key rtb_node_id bs) = Inr d3" and
    g: "validate_harness_graph env source descriptors (Some (req_legal_terminal_results request)) = Inr g" and
    c: "validate_capability_grants env descriptors (env_grants (req_capability_envelope request)) = Inr c" and
    a: "validate_artifacts env source descriptors g = Inr a" and
    bounded: "bound_diagnostics env
      (d1 @ d2 @ d3 @ gvr_diagnostics g @ cvr_diagnostics c @ avr_diagnostics a) = Inr bounded" and
    r: "r = (let done = \<lparr>scr_resolved_harness = None, scr_frontend_result = None, scr_diagnostics = bounded,
                 scr_graph_result = Some g, scr_capability_result = Some c, scr_artifact_result = Some a\<rparr>
       in case p of None \<Rightarrow> done | Some p \<Rightarrow>
            if bounded \<noteq> [] then done
            else done\<lparr>scr_resolved_harness := Some
              \<lparr>rh_request = request, rh_source = source, rh_tool_snapshot = snapshot_metadata ts,
               rh_model_profile_snapshot = snapshot_metadata ps, rh_model_profile = p,
               rh_resolved_nodes = sort_key rtb_node_id bs,
               rh_terminal_node_ids = gvr_terminal_node_ids g,
               rh_terminal_result_map = sort_key fst (gvr_terminal_result_map g),
               rh_required_node_ids = gvr_required_node_ids g,
               rh_required_capability_ids = cvr_required_capability_ids c,
               rh_artifact_evidence = avr_producer_evidence a\<rparr>\<rparr>)"
    using run unfolding compile_resolved_def duplicate_model_tool_name_diagnostics_def bind_result_Inr
    by (auto simp: Let_def bind_result_Inr split: option.splits if_splits)
  have ok: "scr_ok r \<longleftrightarrow> d1 = [] \<and> d2 = [] \<and> d3 = [] \<and> gvr_diagnostics g = [] \<and> cvr_diagnostics c = []
      \<and> avr_diagnostics a = []"
    using looked_up_profile(2) [OF p] bound_diagnostics_Nil [OF bounded]
    unfolding scr_ok_def r by (cases p) (auto simp: Let_def)
  have profile: "p = resolved_model_profile ps (hs_model_profile_id source)" "d1 = [] \<longleftrightarrow> p \<noteq> None"
    using looked_up_profile [OF p] by auto
  note d2 = looked_up_bindings [OF dist bs refs(1)]
  have bound: "sort_key rtb_node_id ?bound = ?bound"
    by (rule sort_key_id_if_sorted) (simp add: ordered_nodes_def binding_of_def comp_def)
  have rest: "d3 = [] \<longleftrightarrow> distinct (map (\<lambda>n. td_model_tool_name (the (node_entry ts n))) ?nodes)"
    "gvr_diagnostics g = [] \<longleftrightarrow> prerequisites_sound ?nodes \<and> (\<forall>i. \<not> (depends ?nodes)\<^sup>+\<^sup>+ i i)
       \<and> terminals_sound ?nodes (Some (req_legal_terminal_results request)) \<and> terminals_gated ?nodes
       \<and> arguments_compatible env ?nodes (node_entries ts source)"
    "cvr_diagnostics c = [] \<longleftrightarrow> (\<forall>(nid, e) \<in> set (node_entries ts source).
       set (td_required_capabilities e) \<subseteq> set (env_grants (req_capability_envelope request)))"
    "cvr_required_capability_ids c =
       sorted_set (\<Union>(nid, e) \<in> set (node_entries ts source). set (td_required_capabilities e))"
    "gvr_diagnostics g = [] \<Longrightarrow> avr_diagnostics a = [] \<longleftrightarrow> artifacts_sound ?nodes (node_entries ts source)
       (declared_artifact_ids (hs_artifacts source)) (required_by_terminal (hs_artifacts source))"
    "gvr_terminal_node_ids g = map fst (terminal_nodes ?nodes)"
    "sort_key fst (gvr_terminal_result_map g) = sort_key fst (terminal_nodes ?nodes)"
    "gvr_required_node_ids g = required_node_ids ?nodes"
    if "d2 = []"
  proof -
    note bs' = d2(2) [OF that]
    note desc = described_bindings [OF descriptors [unfolded bs']]
    have res: "hnode_id ` set ?nodes \<subseteq> fst ` set descriptors" using desc(2) ns(1) by simp
    have entries: "resolved_entries descriptors = node_entries ts source" using desc(1) by (simp add: node_entries_def)
    show "d3 = [] \<longleftrightarrow> distinct (map (\<lambda>n. td_model_tool_name (the (node_entry ts n))) ?nodes)"
      using tool_name_loop_Nil [OF d3] ns(2) ns(3) [of "\<lambda>n. td_model_tool_name (the (node_entry ts n))"]
      by (simp add: bs' bound fresh_def binding_of_def comp_def)
    show "gvr_diagnostics g = [] \<longleftrightarrow> prerequisites_sound ?nodes \<and> (\<forall>i. \<not> (depends ?nodes)\<^sup>+\<^sup>+ i i)
       \<and> terminals_sound ?nodes (Some (req_legal_terminal_results request)) \<and> terminals_gated ?nodes
       \<and> arguments_compatible env ?nodes (node_entries ts source)"
      using graph_validation_exact [OF wf res g] unfolding gvr_ok_def entries .
    show "cvr_diagnostics c = [] \<longleftrightarrow> (\<forall>(nid, e) \<in> set (node_entries ts source).
       set (td_required_capabilities e) \<subseteq> set (env_grants (req_capability_envelope request)))"
      using capability_grants_exact(2) [OF c] unfolding entries .
    show "cvr_required_capability_ids c =
       sorted_set (\<Union>(nid, e) \<in> set (node_entries ts source). set (td_required_capabilities e))"
      using capability_grants_exact(1) [OF c] unfolding entries .
    show "avr_diagnostics a = [] \<longleftrightarrow> artifacts_sound ?nodes (node_entries ts source)
       (declared_artifact_ids (hs_artifacts source)) (required_by_terminal (hs_artifacts source))"
      if "gvr_diagnostics g = []"
      using artifact_validation_exact [OF wf res g that a] unfolding entries .
  qed (use graph_result_fields [OF g] terminal_result_map_eq [OF g dist] in simp_all)
  show "scr_ok r \<longleftrightarrow> harness_sound env request source ts ps"
    unfolding ok harness_sound_def bindings_sound_def Let_def using snap refs profile d2(1) rest(1-3,5) by auto
  show "\<exists>evidence. scr_resolved_harness r = Some (resolution request source ts ps evidence)" if "scr_ok r"
  proof -
    have all: "d2 = []" "bounded = []" "p \<noteq> None"
      using that ok profile(2) bound_diagnostics_Nil [OF bounded] by auto
    then show ?thesis
      unfolding r resolution_def
      by (auto simp: d2(2) bound rest(4,6,7,8) profile(1) [symmetric])
  qed
qed


lemma semantic_outcome:
  assumes wf: "wf_harness_graph (hs_graph source)" and run: "compile_semantic env request source ts ps = Inr r"
  shows "scr_ok r \<longleftrightarrow> harness_sound env request source ts ps"
    and "scr_ok r \<Longrightarrow> \<exists>evidence. scr_resolved_harness r = Some (resolution request source ts ps evidence)"
proof -
  let ?nodes = "graph_nodes (hs_graph source)"
  let ?sound = "harness_sound env request source ts ps"
  have dist: "distinct (map hnode_id (ordered_nodes source))"
    using wf by (simp add: wf_harness_graph_def ordered_nodes_def)
  obtain refs preflight where refs: "parse_refs_loop env [] (ordered_nodes source) = Inr (refs, preflight)"
    using run by (auto simp: compile_semantic_def parse_unique_tool_refs_def ordered_nodes_def bind_result_Inr)
  note spec = parse_refs_loop_spec [OF refs dist]
  have perm: "distinct (map f (ordered_nodes source)) \<longleftrightarrow> distinct (map f ?nodes)" for f :: "_ \<Rightarrow> string \<times> int"
    by (simp add: ordered_nodes_def)
  have pre: "preflight = [] \<longleftrightarrow> (\<forall>n \<in> set ?nodes. node_reference n \<noteq> None)
      \<and> distinct (map (\<lambda>n. binding_key (the (node_reference n))) ?nodes)"
    using spec(1) perm by (simp add: fresh_def ordered_nodes_def)
  have failure: "\<not> scr_ok (semantic_failure ds)" for ds by (simp add: scr_ok_def semantic_failure_def)
  have "(scr_ok r \<longleftrightarrow> ?sound)
      \<and> (scr_ok r \<longrightarrow> (\<exists>evidence. scr_resolved_harness r = Some (resolution request source ts ps evidence)))"
  proof (cases "preflight = [] \<and> \<not> is_connector_discovery_snapshot_like ts \<and> snapshot_sound ts \<and> snapshot_sound ps")
    case True
    then have refs_eq: "refs = map (\<lambda>n. (hnode_id n, the (node_reference n))) (ordered_nodes source)"
      using spec(2) by (simp add: fresh_def)
    note run' = run [unfolded compile_semantic_def parse_unique_tool_refs_def ordered_nodes_def [symmetric] refs]
    have ts: "capture_catalog_snapshot_metadata env ts = Inr (Inr (snapshot_metadata ts))"
      using run' True captured_metadata [of env ts] by (cases "capture_catalog_snapshot_metadata env ts") auto
    have ps: "capture_catalog_snapshot_metadata env ps = Inr (Inr (snapshot_metadata ps))"
      using run' True ts captured_metadata [of env ps] by (cases "capture_catalog_snapshot_metadata env ps") auto
    have resolved: "compile_resolved env request source ts ps refs (snapshot_metadata ts) (snapshot_metadata ps) = Inr r"
      using run' True ts ps by simp
    show ?thesis
      using compile_resolved_outcome [OF wf _ _ _ _ _ resolved [unfolded refs_eq]] True pre by blast
  next
    case False
    note run' = run [unfolded compile_semantic_def parse_unique_tool_refs_def ordered_nodes_def [symmetric] refs]
    have "\<not> scr_ok r"
    proof (cases "preflight = [] \<and> \<not> is_connector_discovery_snapshot_like ts")
      case early: True
      obtain out where out: "capture_catalog_snapshot_metadata env ts = Inr out"
        using run' early by (cases "capture_catalog_snapshot_metadata env ts") auto
      show ?thesis
      proof (cases "snapshot_sound ts")
        case True
        then have ts: "capture_catalog_snapshot_metadata env ts = Inr (Inr (snapshot_metadata ts))"
          using captured_metadata [OF out] out by simp
        obtain out' where out': "capture_catalog_snapshot_metadata env ps = Inr out'"
          using run' early ts by (cases "capture_catalog_snapshot_metadata env ps") auto
        have "\<not> snapshot_sound ps" using True early False by simp
        then obtain ev where "out' = Inl ev" using captured_metadata [OF out'] by auto
        then show ?thesis using run' early ts out' failure by (auto simp: bind_result_Inr)
      next
        case False
        then obtain ev where "out = Inl ev" using captured_metadata [OF out] by auto
        then show ?thesis using run' early out failure by (auto simp: bind_result_Inr)
      qed
    next
      case False
      then show ?thesis using run' failure by (auto simp: bind_result_Inr split: if_splits)
    qed
    moreover have "\<not> ?sound" using False pre by (auto simp: harness_sound_def bindings_sound_def Let_def)
    ultimately show ?thesis by blast
  qed
  then show "scr_ok r \<longleftrightarrow> ?sound"
    and "scr_ok r \<Longrightarrow> \<exists>evidence. scr_resolved_harness r = Some (resolution request source ts ps evidence)" by blast+
qed

text \<open>
  C29: semantic compilation is exact. A run over a source whose graph satisfies its contract accepts
  the harness exactly when it has a meaning: the catalogs and their metadata are sound, every node
  is bound to the catalog entry of its exact reference, no two nodes to the same binding or the
  same model tool name, the profile is the requested one, the graph, its terminals and its argument
  matches are sound for the legal results of the request, every capability a tool needs is
  granted, and the artifacts are satisfiable. What it then resolves is the nodes in the order of
  their names with those entries, the terminal map of the graph and the needed capabilities.
\<close>

theorem compile_semantic_exact:
  assumes "wf_harness_graph (hs_graph source)"
    and "compile_semantic env request source tool_snapshot profile_snapshot = Inr r"
  shows "(scr_ok r \<longleftrightarrow> harness_sound env request source tool_snapshot profile_snapshot)
    \<and> (scr_ok r \<longrightarrow> (\<exists>evidence. scr_resolved_harness r
          = Some (resolution request source tool_snapshot profile_snapshot evidence)))"
  using semantic_outcome [OF assms] by blast


text \<open>The sample harness against catalogs that know its tools and its profile.\<close>

definition sample_tools :: tool_catalog_snapshot where
  "sample_tools = \<lparr>snapshot_id = Ok (replicate 64 (CHR ''a'')), snapshot_sha256 = Ok (replicate 64 (CHR ''b'')),
     snapshot_attributes = [],
     resolve_tool = (\<lambda>tool_id version. case map_of [(''tools.read'', ''read''), (''tools.write'', ''write''),
         (''tools.done'', ''done'')] tool_id of
       Some name \<Rightarrow> found_lookup (sample_tool name) | None \<Rightarrow> missing_lookup plain_env None [])\<rparr>"

definition sample_profiles :: model_profile_catalog_snapshot where
  "sample_profiles = \<lparr>snapshot_id = Ok (replicate 64 (CHR ''c'')), snapshot_sha256 = Ok (replicate 64 (CHR ''d'')),
     snapshot_attributes = [], resolve_profile = (\<lambda>pid. found_lookup \<lparr>profile_id = pid\<rparr>)\<rparr>"

definition sample_request :: harness_compile_request where
  "sample_request = \<lparr>req_request_id = ''req.one'', req_source_path = ''in-memory'', req_source_root = ''/'',
     req_source_format = ''json'', req_output_dir = ''in-memory'', req_output_root = ''/'',
     req_expected_harness_id = ''demo.edit'', req_stage_kind_id = ''builder'',
     req_legal_terminal_results = [''DONE''],
     req_capability_envelope = \<lparr>env_grants = [''fs.read'', ''fs.write'']\<rparr>\<rparr>"

definition sample_descriptors :: "(string \<times> resolved_value) list" where
  "sample_descriptors = map (\<lambda>n. (hnode_id n, Inr \<lparr>rnd_node_id = hnode_id n, rnd_source = n,
     rnd_descriptor = sample_tool (hnode_id n)\<rparr>)) (ordered_nodes sample_source)"

definition sample_bindings :: "resolved_tool_binding list" where
  "sample_bindings = map (\<lambda>n. binding_of n (sample_tool (hnode_id n))) (ordered_nodes sample_source)"

lemma sample_descriptor_entries: "resolved_entries sample_descriptors = resolved_entries sample_resolved"
  by (simp add: sample_descriptors_def ordered_nodes_def sample_list_eval(4) resolved_entries_def
      sample_resolved_def sample_node_def)

lemma checks_only_see_entries:
  assumes "resolved_entries a = resolved_entries b"
  shows "validate_harness_graph env source a allowed = validate_harness_graph env source b allowed"
    and "validate_capability_grants env a granted = validate_capability_grants env b granted"
    and "validate_artifacts env source a g = validate_artifacts env source b g"
  using assms
  by (simp_all add: validate_harness_graph_def validate_capability_grants_def validate_artifacts_def)

lemma sample_resolution_steps:
  "parse_unique_tool_refs plain_env sample_source
     = Inr (map (\<lambda>n. (hnode_id n, the (node_reference n))) (ordered_nodes sample_source), [])"
  "resolved_descriptors sample_bindings = Inr sample_descriptors"
  "lookup_tool_bindings plain_env sample_source
     (map (\<lambda>n. (hnode_id n, the (node_reference n))) (ordered_nodes sample_source)) sample_tools
     = Inr (sample_bindings, [])"
  "duplicate_model_tool_name_diagnostics plain_env sample_bindings = Inr []"
  "lookup_model_profile plain_env ''profile.main'' sample_profiles = Inr (Some \<lparr>profile_id = ''profile.main''\<rparr>, [])"
  "capture_catalog_snapshot_metadata plain_env sample_tools = Inr (Inr (snapshot_metadata sample_tools))"
  "capture_catalog_snapshot_metadata plain_env sample_profiles = Inr (Inr (snapshot_metadata sample_profiles))"
  by code_simp+


definition sample_resolution :: resolved_harness where
  "sample_resolution = resolution sample_request sample_source sample_tools sample_profiles
     (avr_producer_evidence sample_artifact_result)"

lemma sample_sorted: "sort_key rtb_node_id sample_bindings = sample_bindings"
  by (rule sort_key_id_if_sorted) (simp add: sample_bindings_def ordered_nodes_def binding_of_def comp_def)

lemma sample_compiles:
  "\<exists>r. compile_semantic plain_env sample_request sample_source sample_tools sample_profiles = Inr r
     \<and> scr_resolved_harness r = Some sample_resolution \<and> scr_ok r"
proof -
  have preds: "\<not> is_connector_discovery_snapshot_like sample_tools"
    by (simp add: is_connector_discovery_snapshot_like_def sample_tools_def) blast
  have fields: "req_legal_terminal_results sample_request = [''DONE'']"
    "env_grants (req_capability_envelope sample_request) = [''fs.read'', ''fs.write'']"
    "hs_model_profile_id sample_source = ''profile.main''"
    "gvr_diagnostics sample_graph_result = []" "avr_diagnostics sample_artifact_result = []"
    by (simp_all add: sample_request_def sample_source_def sample_graph_result_def sample_artifact_result_def)
  have "bound_diagnostics plain_env [] = Inr []"
    by (simp add: bound_diagnostics_def sort_diagnostics_def diagnostic_report_size_bytes_def json_dumps_def
        MAX_DIAGNOSTIC_REPORT_BYTES_def MAX_DIAGNOSTICS_PER_REPORT_def)
  then have "is_ok (compile_semantic plain_env sample_request sample_source sample_tools sample_profiles)"
    and ok: "\<And>r. compile_semantic plain_env sample_request sample_source sample_tools sample_profiles = Inr r \<Longrightarrow>
      scr_ok r \<and> rh_artifact_evidence (the (scr_resolved_harness r)) = avr_producer_evidence sample_artifact_result"
    unfolding compile_semantic_def compile_resolved_def
    by (auto simp: sample_resolution_steps preds fields scr_ok_def Let_def
        checks_only_see_entries [OF sample_descriptor_entries] sample_graph_validates sample_capabilities
        sample_artifacts_validate)
  then obtain r where r: "compile_semantic plain_env sample_request sample_source sample_tools sample_profiles = Inr r"
    by (auto simp: is_ok_iff)
  then show ?thesis
    using semantic_outcome(2) [OF sample_graph_wf r] ok [OF r]
    by (auto simp: sample_resolution_def resolution_def)
qed

theorem compile_semantic_exact_witness:
  "harness_sound plain_env sample_request sample_source sample_tools sample_profiles"
  using sample_compiles compile_semantic_exact [OF sample_graph_wf] by blast

end
