(* ===== verification/Lowering.thy ===== *)
theory Lowering
  imports Semantic
begin

text \<open>
  \<^verbatim>\<open>compiler/canonicalization.py\<close> and \<^verbatim>\<open>compiler/lowering.py\<close>: the canonical
  JSON payload of a resolved harness, whose digest identifies the source, and the lowering of the
  resolved harness to a compiled plan. Fresh copies of JSON values are the identity, so
  \<open>fresh_json_object\<close> only checks that the value is an object.
\<close>

section \<open>The canonical payload\<close>

definition match_payload :: "argument_match_source \<Rightarrow> json" where
  "match_payload m = JObj [(''prior_argument'', JStr (prior_argument m)),
     (''current_argument'', JStr (current_argument m))]"

definition sorted_matches :: "argument_match_source list \<Rightarrow> argument_match_source list" where
  "sorted_matches ms = sort_key (\<lambda>m. (prior_argument m, current_argument m)) ms"

definition node_payload :: "resolved_tool_binding \<Rightarrow> json" where
  "node_payload n =
     (let source = rtb_source n; descriptor = rtb_descriptor n in
      JObj [(''node_id'', JStr (rtb_node_id n)), (''required'', JBool (hnode_required source)),
        (''terminal_result'', json_opt JStr (hnode_terminal_result source)),
        (''prerequisites'', JArr (map (\<lambda>p. JObj [(''node_id'', JStr (prereq_node_id p)),
            (''argument_matches'', JArr (map match_payload (sorted_matches (argument_matches p))))])
          (sort_key prereq_node_id (hnode_prerequisites source)))),
        (''produces'', jstrs (sort (hnode_produces source))),
        (''binding'', JObj [(''tool_id'', JStr (tb_tool_id (rtb_binding n))),
          (''tool_version'', JInt (tb_tool_version (rtb_binding n))),
          (''descriptor_sha256'', JStr (tb_descriptor_sha256 (rtb_binding n))),
          (''implementation_id'', JStr (tb_implementation_id (rtb_binding n)))]),
        (''descriptor'', JObj [(''model_tool_name'', JStr (td_model_tool_name descriptor)),
          (''description'', JStr (td_description descriptor)),
          (''input_schema'', td_input_schema descriptor),
          (''side_effect_class'', JStr (side_effect_value (td_side_effect_class descriptor))),
          (''idempotency'', JStr (idempotency_value (td_idempotency descriptor))),
          (''required_capabilities'', jstrs (sort (td_required_capabilities descriptor))),
          (''produced_artifact_ids'', jstrs (sort (td_produced_artifact_ids descriptor)))])])"

definition source_budgets_payload :: "budget_source \<Rightarrow> json" where
  "source_budgets_payload b = JObj [(''max_iterations'', JInt (budget_max_iterations b)),
     (''max_validation_retries'', JInt (budget_max_validation_retries b)),
     (''max_tool_errors'', JInt (budget_max_tool_errors b)),
     (''max_prerequisite_violations'', JInt (budget_max_prerequisite_violations b)),
     (''max_premature_terminal_attempts'', JInt (budget_max_premature_terminal_attempts b))]"

definition source_artifacts_payload :: "artifact_policy_source \<Rightarrow> artifact_producer_evidence list \<Rightarrow> json" where
  "source_artifacts_payload artifacts evidence =
     JObj [(''declared_artifact_ids'', jstrs (sort (declared_artifact_ids artifacts))),
       (''required_by_terminal'', JArr (map (\<lambda>item. JObj [
            (''terminal_result'', JStr (tap_terminal_result item)),
            (''artifact_ids'', jstrs (sort (tap_artifact_ids item)))])
          (sort_key tap_terminal_result (required_by_terminal artifacts)))),
       (''producer_evidence'', JArr (map (\<lambda>item. JObj [
            (''artifact_id'', JStr (ev_artifact_id item)),
            (''all_producer_node_ids'', jstrs (sort (ev_all_producer_node_ids item))),
            (''terminal_gated_producer_node_ids'', jstrs (sort (ev_terminal_gated_producer_node_ids item)))])
          (sort_key ev_artifact_id evidence)))]"

text \<open>The keys of the terminal map are distinct, so sorting its items sorts them by key.\<close>

definition canonical_semantic_payload :: "resolved_harness \<Rightarrow> json" where
  "canonical_semantic_payload resolved =
     (let source = rh_source resolved in
      JObj [(''schema_version'', JStr (hs_schema_version source)), (''kind'', JStr (hs_kind source)),
        (''harness_id'', JStr (hs_harness_id source)),
        (''harness_version'', JInt (hs_harness_version source)),
        (''stage_kind_ids'', jstrs (sort (scope_stage_kind_ids (hs_stage_scope source)))),
        (''model_profile'', JObj [(''profile_id'', JStr (profile_id (rh_model_profile resolved)))]),
        (''prompt'', JObj [(''policy_id'', JStr (prompt_policy_id (hs_prompt source))),
          (''system_instructions'', JStr (prompt_system_instructions (hs_prompt source))),
          (''include_request_context'', JBool (prompt_include_request_context (hs_prompt source)))]),
        (''budgets'', source_budgets_payload (hs_budgets source)),
        (''context'', JObj [(''strategy_id'', JStr (ctx_strategy_id (hs_context source))),
          (''budget_tokens'', JInt (ctx_budget_tokens (hs_context source))),
          (''keep_recent_iterations'', JInt (ctx_keep_recent_iterations (hs_context source))),
          (''phase_thresholds'', JArr (map (\<lambda>t. JFloat (Finite t)) (ctx_phase_thresholds (hs_context source))))]),
        (''nodes'', JArr (map node_payload (rh_resolved_nodes resolved))),
        (''required_node_ids'', jstrs (sort (rh_required_node_ids resolved))),
        (''required_capability_ids'', jstrs (sort (rh_required_capability_ids resolved))),
        (''terminal_result_map'', JObj (map (\<lambda>(k, v). (k, JStr v)) (sort_key fst (rh_terminal_result_map resolved)))),
        (''artifacts'', source_artifacts_payload (hs_artifacts source) (rh_artifact_evidence resolved))])"

definition canonical_semantic_bytes :: "plan_env \<Rightarrow> resolved_harness \<Rightarrow> string result" where
  "canonical_semantic_bytes env resolved =
     canonical_json_serialize (float_text env) (canonical_semantic_payload resolved)"

definition source_sha256 :: "plan_env \<Rightarrow> resolved_harness \<Rightarrow> string result" where
  "source_sha256 env resolved =
     bind_result (canonical_semantic_bytes env resolved) (\<lambda>text. Ok (sha256_hex env text))"

section \<open>Lowering\<close>

text \<open>An exception that none of the handlers catches leaves the function as it is.\<close>

datatype lowering_error = SourceSemanticHashError | CompiledPlanValidationError | LoweringInvariantError
  | UncaughtError py_error

fun hash_failure :: "py_error \<Rightarrow> lowering_error" where
  "hash_failure (TypeErr m) = SourceSemanticHashError"
| "hash_failure (ValueError m) = SourceSemanticHashError"
| "hash_failure e = UncaughtError e"

fun lowering_failure :: "py_error \<Rightarrow> lowering_error" where
  "lowering_failure (AssertionErr m) = UncaughtError (AssertionErr m)"
| "lowering_failure OverflowErr = UncaughtError OverflowErr"
| "lowering_failure RecursionErr = UncaughtError RecursionErr"
| "lowering_failure e = LoweringInvariantError"

definition failing :: "(py_error \<Rightarrow> 'e) \<Rightarrow> 'a result \<Rightarrow> 'e + 'a" where
  "failing f r = (case r of Inl e \<Rightarrow> Inl (f e) | Inr x \<Rightarrow> Inr x)"

text \<open>The construction of a class of the plan: its validators end in Pydantic's \<^verbatim>\<open>ValidationError\<close>.\<close>

definition validated :: "'a result \<Rightarrow> lowering_error + 'a" where
  "validated r = failing (\<lambda>_. CompiledPlanValidationError) r"

definition fresh_json_object :: "json \<Rightarrow> json result" where
  "fresh_json_object v = (case v of JObj _ \<Rightarrow> Ok v | _ \<Rightarrow> Raise (TypeErr ''expected JSON object''))"

definition COMPILER_NAME :: string where "COMPILER_NAME = ''millforge''"
definition COMPILER_BUILD_ID :: string where "COMPILER_BUILD_ID = ''millforge.compiler.lowering.v1''"

text \<open>\<^verbatim>\<open>compiler_identity\<close>; \<open>version\<close> is that of the installed distribution.\<close>

definition this_compiler_identity :: "string \<Rightarrow> compiler_identity" where
  "this_compiler_identity version =
     \<lparr>ci_name = COMPILER_NAME, ci_version = version, ci_build_id = COMPILER_BUILD_ID\<rparr>"

definition placeholder_sha256 :: string where
  "placeholder_sha256 = replicate 64 (CHR ''0'')"

definition lowered_node :: "resolved_tool_binding \<Rightarrow> compiled_harness_node" where
  "lowered_node n =
     (let descriptor = rtb_descriptor n; source = rtb_source n in
      \<lparr>cn_node_id = rtb_node_id n, cn_model_tool_name = td_model_tool_name descriptor,
       cn_description = td_description descriptor, cn_input_schema = td_input_schema descriptor,
       cn_binding = rtb_binding n,
       cn_prerequisites = map (\<lambda>p. \<lparr>cpre_node_id = prereq_node_id p,
           cpre_argument_matches = map (\<lambda>m. \<lparr>am_prerequisite_argument = prior_argument m,
               am_current_argument = current_argument m\<rparr>) (sorted_matches (argument_matches p))\<rparr>)
         (sort_key prereq_node_id (hnode_prerequisites source)),
       cn_required = hnode_required source, cn_terminal_result = hnode_terminal_result source,
       cn_required_capabilities = sort (td_required_capabilities descriptor),
       cn_produced_artifact_ids = sort (td_produced_artifact_ids descriptor),
       cn_side_effect_class = td_side_effect_class descriptor, cn_idempotency = td_idempotency descriptor\<rparr>)"

text \<open>
  \<^verbatim>\<open>_lower_node\<close>: the schema is copied first; the objects inside the node are validated when they
  are built, by the checks that \<open>check_compiled_node\<close> makes of them, with the same exception.
\<close>

definition lower_node :: "resolved_tool_binding \<Rightarrow> lowering_error + compiled_harness_node" where
  "lower_node n =
     bind_result (failing lowering_failure (fresh_json_object (td_input_schema (rtb_descriptor n)))) (\<lambda>_.
     validated (check_compiled_node (lowered_node n)))"

definition lower_prompt :: "prompt_source \<Rightarrow> compiled_prompt_policy" where
  "lower_prompt p = \<lparr>pp_policy_id = prompt_policy_id p, pp_system_instructions = prompt_system_instructions p,
     pp_include_request_context = prompt_include_request_context p\<rparr>"

definition lower_budgets :: "budget_source \<Rightarrow> compiled_budget_policy" where
  "lower_budgets b = \<lparr>bp_max_iterations = budget_max_iterations b,
     bp_max_validation_retries = budget_max_validation_retries b, bp_max_tool_errors = budget_max_tool_errors b,
     bp_max_prerequisite_violations = budget_max_prerequisite_violations b,
     bp_max_premature_terminal_attempts = budget_max_premature_terminal_attempts b\<rparr>"

definition lower_context :: "context_policy_source \<Rightarrow> lowering_error + compiled_context_policy" where
  "lower_context c =
     (case ctx_phase_thresholds c of
        t1 # t2 # t3 # _ \<Rightarrow> validated (check_context_policy
          \<lparr>cp_strategy_id = ctx_strategy_id c, cp_budget_tokens = ctx_budget_tokens c,
           cp_keep_recent_iterations = ctx_keep_recent_iterations c, cp_phase_thresholds = (t1, t2, t3)\<rparr>)
      | _ \<Rightarrow> Inl (lowering_failure (IndexError ''tuple index out of range'')))"

definition lower_artifacts :: "artifact_policy_source \<Rightarrow> compiled_artifact_policy" where
  "lower_artifacts a =
     \<lparr>cap_declared_artifact_ids = sort (declared_artifact_ids a),
      cap_required_by_terminal = map (\<lambda>item. \<lparr>tar_terminal_result = tap_terminal_result item,
          tar_artifact_ids = sort (tap_artifact_ids item)\<rparr>)
        (sort_key tap_terminal_result (required_by_terminal a))\<rparr>"

text \<open>The plan before its digest is set; the arguments of the constructor are evaluated in order.\<close>

definition construct_plan :: "string \<Rightarrow> string \<Rightarrow> resolved_harness \<Rightarrow> lowering_error + compiled_harness_plan" where
  "construct_plan version semantic_hash resolved =
     (let source = rh_source resolved in
      bind_result (validated (check_prompt_policy (lower_prompt (hs_prompt source)))) (\<lambda>prompt.
      bind_result (validated (check_budget_policy (lower_budgets (hs_budgets source)))) (\<lambda>budgets.
      bind_result (lower_context (hs_context source)) (\<lambda>context.
      bind_result (traverse lower_node (sort_key rtb_node_id (rh_resolved_nodes resolved))) (\<lambda>nodes.
      bind_result (validated (check_plan_artifacts (lower_artifacts (hs_artifacts source)))) (\<lambda>artifacts.
      bind_result (validated (check_compiler_identity (this_compiler_identity version))) (\<lambda>identity.
      validated (check_compiled_plan
        \<lparr>plan_schema_version = hs_schema_version source, plan_kind = ''compiled_millforge_harness'',
         plan_harness_id = hs_harness_id source, plan_harness_version = hs_harness_version source,
         plan_source_sha256 = semantic_hash, plan_compiled_sha256 = placeholder_sha256,
         plan_stage_kind_ids = sort (scope_stage_kind_ids (hs_stage_scope source)),
         plan_model_profile = rh_model_profile resolved, plan_prompt_policy = prompt, plan_budgets = budgets,
         plan_context_policy = context, plan_nodes = nodes,
         plan_required_capabilities = sort (rh_required_capability_ids resolved),
         plan_terminal_result_map = sort_key fst (rh_terminal_result_map resolved),
         plan_artifact_policy = artifacts, plan_compiler_identity = identity\<rparr>))))))))"

text \<open>
  The digest is set inside the same \<^verbatim>\<open>try\<close>; of its errors, those of \<^verbatim>\<open>model_validate\<close>
  are Pydantic's.
\<close>

definition finalize_lowered :: "plan_env \<Rightarrow> compiled_harness_plan \<Rightarrow> lowering_error + compiled_harness_plan" where
  "finalize_lowered env plan =
     failing (\<lambda>e. case calculate_compiled_plan_sha256 env (plan_members plan) of
          Inl _ \<Rightarrow> lowering_failure e
        | Inr digest \<Rightarrow>
            if is_ok (model_validate_plan env
                 (JObj (dict_set (plan_members plan) ''compiled_sha256'' (JStr digest))))
            then lowering_failure e else CompiledPlanValidationError)
       (finalize_compiled_plan_sha256 env plan)"

definition lower_resolved_harness ::
  "plan_env \<Rightarrow> string \<Rightarrow> resolved_harness \<Rightarrow> lowering_error + compiled_harness_plan" where
  "lower_resolved_harness env version resolved =
     bind_result (failing hash_failure (source_sha256 env resolved)) (\<lambda>semantic_hash.
     bind_result (construct_plan version semantic_hash resolved) (finalize_lowered env))"


section \<open>What lowering accepts\<close>

lemma is_lower_not_space: "is_lower c \<Longrightarrow> \<not> is_space c" and is_upper_not_space: "is_upper c \<Longrightarrow> \<not> is_space c"
  by (auto simp: is_lower_def is_upper_def is_space_def less_eq_char_def Let_def)

lemma first_rest_nonblank:
  assumes "first_rest f r n s" and "\<And>c. f c \<Longrightarrow> \<not> is_space c"
  shows "nonblank s"
  using assms by (cases s) (auto simp: first_rest_def nonblank_def)

lemma identifier_nonblank:
  "DOTTED_ID_RE s \<Longrightarrow> nonblank s" "NODE_ID_RE s \<Longrightarrow> nonblank s" "ARTIFACT_ID_RE s \<Longrightarrow> nonblank s"
  "TERMINAL_RESULT_RE s \<Longrightarrow> nonblank s" "ARGUMENT_NAME_RE s \<Longrightarrow> nonblank s"
proof -
  show "DOTTED_ID_RE s \<Longrightarrow> nonblank s"
    by (cases s) (auto simp: DOTTED_ID_RE_def nonblank_def dest: is_lower_not_space)
  have "\<not> is_space c" if "is_upper c \<or> is_lower c \<or> c = CHR ''_''" for c
    using that by (auto simp: is_lower_not_space is_upper_not_space) (simp add: is_space_def)
  then show "ARGUMENT_NAME_RE s \<Longrightarrow> nonblank s"
    by (auto simp: ARGUMENT_NAME_RE_def intro: first_rest_nonblank)
qed (auto simp: NODE_ID_RE_def ARTIFACT_ID_RE_def TERMINAL_RESULT_RE_def
    elim!: first_rest_nonblank dest: is_lower_not_space is_upper_not_space)

lemma terminal_result_nonempty: "TERMINAL_RESULT_RE t \<Longrightarrow> t \<noteq> []"
  by (auto simp: TERMINAL_RESULT_RE_def first_rest_def)

lemma validated_simps [simp]: "validated (Inr x) = Inr x" "validated (Inl e) = Inl CompiledPlanValidationError"
  by (simp_all add: validated_def failing_def)

lemma admitted_schema_object: "admitted_entry e \<Longrightarrow> \<exists>kvs. td_input_schema e = JObj kvs"
  by (auto simp: admitted_entry_def normalize_json_schema_def split: json.splits)

lemma traverse_unchanged: "(\<And>x. x \<in> set xs \<Longrightarrow> f x = Inr x) \<Longrightarrow> traverse f xs = Inr xs"
  by (induction xs) auto

lemma lower_node_Inr:
  assumes "wf_harness_node n" and "admitted_entry e"
  shows "lower_node (binding_of n e) = Inr (lowered_node (binding_of n e))"
proof -
  obtain kvs where schema: "td_input_schema e = JObj kvs" using admitted_schema_object [OF assms(2)] by blast
  have "traverse check_compiled_prerequisite (cn_prerequisites (lowered_node (binding_of n e)))
      = Inr (cn_prerequisites (lowered_node (binding_of n e)))"
  proof (rule traverse_unchanged)
    fix p assume "p \<in> set (cn_prerequisites (lowered_node (binding_of n e)))"
    then obtain q where q: "q \<in> set (hnode_prerequisites n)" and p: "cpre_node_id p = prereq_node_id q"
      "cpre_argument_matches p = map (\<lambda>m. \<lparr>am_prerequisite_argument = prior_argument m,
         am_current_argument = current_argument m\<rparr>) (sorted_matches (argument_matches q))"
      by (auto simp: lowered_node_def binding_of_def)
    have wf: "wf_prerequisite q" using q assms(1) by (simp add: wf_harness_node_def)
    have "traverse check_plan_match (cpre_argument_matches p) = Inr (cpre_argument_matches p)"
      by (rule traverse_unchanged)
        (use wf in \<open>auto simp: p(2) sorted_matches_def check_plan_match_def bind_result_Inr nonblank_field_Inr
           wf_prerequisite_def wf_argument_match_def intro!: identifier_nonblank(5)\<close>)
    then show "check_compiled_prerequisite p = Inr p"
      using wf by (auto simp: check_compiled_prerequisite_def bind_result_Inr nonblank_field_Inr p(1)
          wf_prerequisite_def identifier_nonblank(2))
  qed
  moreover have "check_tool_binding (cn_binding (lowered_node (binding_of n e)))
      = Inr (cn_binding (lowered_node (binding_of n e)))"
    using assms(2) unfolding check_tool_binding_def bind_result_Inr
    by (auto simp: lowered_node_def binding_of_def Let_def nonblank_field_Inr sha256_field_Inr require_positive_def
        admitted_entry_def identifier_nonblank(1))
  ultimately have "check_compiled_node (lowered_node (binding_of n e)) = Inr (lowered_node (binding_of n e))"
    using assms unfolding check_compiled_node_def bind_result_Inr nonblank_field_Inr names_field_Inr
    by (auto simp: lowered_node_def binding_of_def Let_def optional_def nonblank_field_Inr bind_result_Inr
        wf_harness_node_def admitted_entry_def identifier_nonblank split: option.splits)
  then show ?thesis
    using schema by (simp add: lower_node_def failing_def fresh_json_object_def binding_of_def)
qed


text \<open>The plan of a resolved harness, for a context policy with three thresholds.\<close>

definition lowered_plan :: "string \<Rightarrow> string \<Rightarrow> resolved_harness \<Rightarrow> compiled_harness_plan" where
  "lowered_plan version semantic_hash resolved =
     (let source = rh_source resolved; context = hs_context source; ts = ctx_phase_thresholds context in
      \<lparr>plan_schema_version = hs_schema_version source, plan_kind = ''compiled_millforge_harness'',
       plan_harness_id = hs_harness_id source, plan_harness_version = hs_harness_version source,
       plan_source_sha256 = semantic_hash, plan_compiled_sha256 = placeholder_sha256,
       plan_stage_kind_ids = sort (scope_stage_kind_ids (hs_stage_scope source)),
       plan_model_profile = rh_model_profile resolved, plan_prompt_policy = lower_prompt (hs_prompt source),
       plan_budgets = lower_budgets (hs_budgets source),
       plan_context_policy = \<lparr>cp_strategy_id = ctx_strategy_id context, cp_budget_tokens = ctx_budget_tokens context,
          cp_keep_recent_iterations = ctx_keep_recent_iterations context,
          cp_phase_thresholds = (ts ! 0, ts ! 1, ts ! 2)\<rparr>,
       plan_nodes = map lowered_node (rh_resolved_nodes resolved),
       plan_required_capabilities = rh_required_capability_ids resolved,
       plan_terminal_result_map = rh_terminal_result_map resolved,
       plan_artifact_policy = lower_artifacts (hs_artifacts source),
       plan_compiler_identity = this_compiler_identity version\<rparr>)"

text \<open>What a source that passed its contract gives to the fields of the plan.\<close>

definition valid_source :: "harness_source \<Rightarrow> bool" where
  "valid_source source \<longleftrightarrow> check_harness_source source = Inr source
     \<and> (\<exists>strategy budget keep_recent thresholds.
          mk_context_policy strategy budget keep_recent thresholds = Inr (hs_context source))"

lemma valid_source_graph: "valid_source source \<Longrightarrow> wf_harness_graph (hs_graph source)"
  by (simp add: valid_source_def check_harness_source_graph)

lemma valid_source_artifacts: "valid_source source \<Longrightarrow> wf_artifact_policy (hs_artifacts source)"
  by (auto simp: valid_source_def check_harness_source_def bind_result_Inr check_artifact_policy_Inr)

lemma valid_source_fields:
  assumes "valid_source source"
  shows "hs_schema_version source = ''1.0''" "nonblank (hs_harness_id source)" "0 < hs_harness_version source"
    "\<forall>i \<in> set (scope_stage_kind_ids (hs_stage_scope source)). nonblank i"
    "distinct (scope_stage_kind_ids (hs_stage_scope source))" "nonblank (hs_model_profile_id source)"
    "check_prompt_policy (lower_prompt (hs_prompt source)) = Inr (lower_prompt (hs_prompt source))"
    "check_budget_policy (lower_budgets (hs_budgets source)) = Inr (lower_budgets (hs_budgets source))"
proof -
  have c: "check_harness_source source = Inr source" using assms by (simp add: valid_source_def)
  show "hs_schema_version source = ''1.0''" "0 < hs_harness_version source"
    using c by (auto simp: check_harness_source_def result_simps validate_harness_version_def split: if_splits)
  show "nonblank (hs_harness_id source)" "nonblank (hs_model_profile_id source)"
    using c by (auto simp: check_harness_source_def result_simps harness_id.Inr_iff profile_id.Inr_iff
        intro: identifier_nonblank(1))
  show "\<forall>i \<in> set (scope_stage_kind_ids (hs_stage_scope source)). nonblank i"
    "distinct (scope_stage_kind_ids (hs_stage_scope source))"
    using c by (auto simp: check_harness_source_def check_stage_scope_def Let_def result_simps validate_unique_Inr
        stage_kind_id.traverse_Inr_iff intro: identifier_nonblank(1))
  obtain p b where "check_prompt (hs_prompt source) = Inr p" "check_budgets (hs_budgets source) = Inr b"
    using c by (auto simp: check_harness_source_def bind_result_Inr)
  then show "check_prompt_policy (lower_prompt (hs_prompt source)) = Inr (lower_prompt (hs_prompt source))"
    "check_budget_policy (lower_budgets (hs_budgets source)) = Inr (lower_budgets (hs_budgets source))"
    by (auto simp: check_prompt_def check_budgets_def check_prompt_policy_def check_budget_policy_def lower_prompt_def
        lower_budgets_def bind_result_Inr nonblank_field_Inr policy_id.Inr_iff require_Inr require_positive_def
        ensure_Inr intro: identifier_nonblank(1))
qed

lemma valid_source_context:
  assumes "valid_source source"
  shows "lower_context (hs_context source) = Inr
    (plan_context_policy (lowered_plan version h (r\<lparr>rh_source := source\<rparr>)))"
proof -
  obtain s b k ts where c: "mk_context_policy s b k ts = Inr (hs_context source)"
    using assms by (auto simp: valid_source_def)
  have strategy: "ctx_strategy_id (hs_context source) = ''forge.tiered.v1''"
    using c by (cases "hs_context source") (auto simp: mk_context_policy_def result_simps)
  obtain t1 t2 t3 where t: "ctx_phase_thresholds (hs_context source) = [t1, t2, t3]"
    using mk_context_policy_Inr [OF c] by (auto simp: numeral_3_eq_3 length_Suc_conv)
  have "sort [t1, t2, t3] = [t1, t2, t3]"
    by (rule sort_key_id_if_sorted) (use mk_context_policy_Inr [OF c] t in simp)
  then show ?thesis
    using mk_context_policy_Inr [OF c] t strategy
    by (simp add: lower_context_def lowered_plan_def check_context_policy_def require_positive_def not_le Let_def)
qed


text \<open>The condition that the semantic phase does not check: every artifact of a tool is declared.\<close>

definition tool_artifacts_declared :: "tool_catalog_snapshot \<Rightarrow> harness_source \<Rightarrow> bool" where
  "tool_artifacts_declared snapshot source \<longleftrightarrow>
     (\<forall>n \<in> set (graph_nodes (hs_graph source)). set (td_produced_artifact_ids (the (node_entry snapshot n)))
        \<subseteq> set (declared_artifact_ids (hs_artifacts source)))"

definition entries_admitted :: "tool_catalog_snapshot \<Rightarrow> harness_source \<Rightarrow> bool" where
  "entries_admitted snapshot source \<longleftrightarrow>
     (\<forall>n \<in> set (graph_nodes (hs_graph source)). admitted_entry (the (node_entry snapshot n)))"

lemma resolved_entry_key:
  "resolved_entry snapshot r = Some e \<Longrightarrow> td_tool_id e = ref_tool_id r \<and> td_tool_version e = ref_version r"
  by (auto simp: resolved_entry_def split: sum.splits option.splits if_splits)

lemma node_entry_key:
  assumes "node_entry snapshot n = Some e"
  shows "(td_tool_id e, td_tool_version e) = binding_key (the (node_reference n))"
  using assms resolved_entry_key by (cases "node_reference n") (auto simp: node_entry_def binding_key_def)


lemma lowered_plan_nodes:
  "plan_nodes (lowered_plan version h (resolution request source ts ps evidence))
     = map (\<lambda>n. lowered_node (binding_of n (the (node_entry ts n)))) (ordered_nodes source)"
  by (simp add: lowered_plan_def resolution_def Let_def)

lemma lowered_node_fields [simp]:
  "cn_node_id (lowered_node (binding_of n e)) = hnode_id n"
  "cn_model_tool_name (lowered_node (binding_of n e)) = td_model_tool_name e"
  "cn_required (lowered_node (binding_of n e)) = hnode_required n"
  "cn_terminal_result (lowered_node (binding_of n e)) = hnode_terminal_result n"
  "tb_tool_id (cn_binding (lowered_node (binding_of n e))) = td_tool_id e"
  "tb_tool_version (cn_binding (lowered_node (binding_of n e))) = td_tool_version e"
  "cpre_node_id ` set (cn_prerequisites (lowered_node (binding_of n e)))
     = prereq_node_id ` set (hnode_prerequisites n)"
  "set (cn_required_capabilities (lowered_node (binding_of n e))) = set (td_required_capabilities e)"
  "set (cn_produced_artifact_ids (lowered_node (binding_of n e))) = set (td_produced_artifact_ids e)"
  by (simp_all add: lowered_node_def binding_of_def Let_def image_image)

lemma plan_sound_produced:
  "plan_sound p \<Longrightarrow> n \<in> set (plan_nodes p) \<Longrightarrow>
     set (cn_produced_artifact_ids n) \<subseteq> set (cap_declared_artifact_ids (plan_artifact_policy p))"
  by (simp add: plan_sound_def Let_def)

lemma sound_plan_invariants:
  assumes sound: "harness_sound env request source ts ps" and valid: "valid_source source"
  shows "plan_sound (lowered_plan version h (resolution request source ts ps evidence))
    \<longleftrightarrow> tool_artifacts_declared ts source"
proof -
  let ?nodes = "graph_nodes (hs_graph source)" and ?entry = "\<lambda>n. the (node_entry ts n)"
  let ?plan = "lowered_plan version h (resolution request source ts ps evidence)"
  let ?declared = "declared_artifact_ids (hs_artifacts source)"
  note wf = valid_source_graph [OF valid]
  have dist: "distinct (map hnode_id ?nodes)" using wf by (simp add: wf_harness_graph_def)
  have terminal: "t \<noteq> []" if "n \<in> set ?nodes" "hnode_terminal_result n = Some t" for n t
    using that wf by (auto simp: wf_harness_graph_def wf_harness_node_def dest: terminal_result_nonempty)
  have bound: "\<forall>n \<in> set ?nodes. node_reference n \<noteq> None \<and> node_entry ts n \<noteq> None"
    and keys: "distinct (map (\<lambda>n. binding_key (the (node_reference n))) ?nodes)"
    and names: "distinct (map (\<lambda>n. td_model_tool_name (?entry n)) ?nodes)"
    and pre: "prerequisites_sound ?nodes" and results: "terminals_sound ?nodes (Some (req_legal_terminal_results request))"
    and gated: "terminals_gated ?nodes"
    and art: "artifacts_sound ?nodes (node_entries ts source) ?declared (required_by_terminal (hs_artifacts source))"
    using sound by (auto simp: harness_sound_def bindings_sound_def Let_def)
  have key: "map (\<lambda>n. (td_tool_id (?entry n), td_tool_version (?entry n))) ?nodes
      = map (\<lambda>n. binding_key (the (node_reference n))) ?nodes"
    by (rule map_cong [OF refl]) (use bound node_entry_key in force)
  have entry: "map_of (node_entries ts source) (hnode_id n) = Some (?entry n)" if "n \<in> set ?nodes" for n
    unfolding node_entries_def
    by (rule map_of_is_SomeI) (use that dist in \<open>auto simp: ordered_nodes_def comp_def\<close>)
  have tmap: "(t, r) \<in> set (plan_terminal_result_map ?plan)
      \<longleftrightarrow> (\<exists>n \<in> set ?nodes. hnode_id n = t \<and> hnode_terminal_result n = Some r)" for t r
    by (simp add: lowered_plan_def resolution_def Let_def terminal_nodes_iff)
  have policy: "set (cap_declared_artifact_ids (plan_artifact_policy ?plan)) = set ?declared"
    "r \<in> set (cap_required_by_terminal (plan_artifact_policy ?plan)) \<longleftrightarrow>
       (\<exists>i \<in> set (required_by_terminal (hs_artifacts source)).
          r = \<lparr>tar_terminal_result = tap_terminal_result i, tar_artifact_ids = sort (tap_artifact_ids i)\<rparr>)" for r
    by (auto simp: lowered_plan_def resolution_def Let_def lower_artifacts_def)
  have caps: "set (plan_required_capabilities ?plan) = (\<Union>n \<in> set ?nodes. set (td_required_capabilities (?entry n)))"
    by (simp add: lowered_plan_def resolution_def Let_def node_entries_def ordered_nodes_def case_prod_beta)
  have node_set: "set (plan_nodes ?plan) = (\<lambda>n. lowered_node (binding_of n (?entry n))) ` set ?nodes"
    by (simp add: lowered_plan_nodes ordered_nodes_def)
  have dists: "distinct (map cn_node_id (plan_nodes ?plan))" "distinct (map cn_model_tool_name (plan_nodes ?plan))"
    "distinct (map (\<lambda>n. (tb_tool_id (cn_binding n), tb_tool_version (cn_binding n))) (plan_nodes ?plan))"
    using dist names keys by (simp_all add: lowered_plan_nodes comp_def ordered_nodes_def flip: key)
  have has_terminal: "\<exists>n \<in> set ?nodes. \<exists>t. hnode_terminal_result n = Some t \<and> t \<noteq> []"
    using results terminal by (fastforce simp: terminals_sound_def Let_def filter_empty_conv is_terminal_node_def)
  have nodes_ok: "(hnode_terminal_result n \<noteq> None \<longrightarrow> \<not> hnode_required n)
      \<and> (\<forall>p \<in> set (hnode_prerequisites n). prereq_node_id p \<noteq> hnode_id n
           \<and> (\<exists>m \<in> set ?nodes. hnode_id m = prereq_node_id p))" if "n \<in> set ?nodes" for n
    using that gated pre unfolding terminals_gated_def is_terminal_node_def prerequisites_sound_def by blast
  have keys_eq: "fst ` set (plan_terminal_result_map ?plan)
      = hnode_id ` {n \<in> set ?nodes. \<exists>t. hnode_terminal_result n = Some t \<and> t \<noteq> []}"
  proof -
    have "i \<in> fst ` set (plan_terminal_result_map ?plan) \<longleftrightarrow> (\<exists>r. (i, r) \<in> set (plan_terminal_result_map ?plan))" for i
      by (auto simp: image_iff Bex_def)
    then show ?thesis unfolding set_eq_iff tmap using terminal by (simp add: image_iff) blast
  qed
  have tvalues: "hnode_terminal_result n = Some t"
    if "(i, t) \<in> set (plan_terminal_result_map ?plan)" "n \<in> set ?nodes" "hnode_id n = i" for i t n
    using that tmap dist by (metis inj_on_contraD distinct_map)
  have reqs: "(\<exists>n \<in> set ?nodes. hnode_terminal_result n = Some (tap_terminal_result i))
      \<and> (\<forall>a \<in> set (tap_artifact_ids i). a \<in> set ?declared
           \<and> (\<exists>n \<in> set ?nodes. a \<in> set (td_produced_artifact_ids (?entry n))))"
    if "i \<in> set (required_by_terminal (hs_artifacts source))" for i
  proof -
    have produced: "hnode_produces n = [] \<or> set (hnode_produces n) \<subseteq> set (td_produced_artifact_ids (?entry n))"
      if "n \<in> set ?nodes" for n
      using that art entry [OF that] unfolding artifacts_sound_def by blast
    obtain t where "t \<in> set ?nodes" "hnode_terminal_result t = Some (tap_terminal_result i)"
      "\<forall>a \<in> set (tap_artifact_ids i). \<exists>n \<in> set ?nodes. a \<in> set (hnode_produces n)"
      "set (tap_artifact_ids i) \<subseteq> set ?declared"
      using \<open>i \<in> _\<close> art unfolding artifacts_sound_def by blast
    then show ?thesis using produced by fastforce
  qed
  have terminal_ids: "cn_node_id ` {n \<in> set (plan_nodes ?plan). \<exists>t. cn_terminal_result n = Some t \<and> t \<noteq> []}
      = hnode_id ` {n \<in> set ?nodes. \<exists>t. hnode_terminal_result n = Some t \<and> t \<noteq> []}"
  proof -
    have "{n \<in> set (plan_nodes ?plan). \<exists>t. cn_terminal_result n = Some t \<and> t \<noteq> []}
        = (\<lambda>n. lowered_node (binding_of n (?entry n))) `
            {n \<in> set ?nodes. \<exists>t. hnode_terminal_result n = Some t \<and> t \<noteq> []}"
      unfolding node_set by auto
    then show ?thesis by (simp add: image_image)
  qed
  have node_ok: "(cn_terminal_result n \<noteq> None \<longrightarrow> \<not> cn_required n)
      \<and> (\<forall>p \<in> set (cn_prerequisites n). cpre_node_id p \<noteq> cn_node_id n
           \<and> (\<exists>m \<in> set (plan_nodes ?plan). cn_node_id m = cpre_node_id p))
      \<and> set (cn_required_capabilities n) \<subseteq> set (plan_required_capabilities ?plan)"
    if "n \<in> set (plan_nodes ?plan)" for n
  proof -
    obtain m where m: "m \<in> set ?nodes" and n: "n = lowered_node (binding_of m (?entry m))"
      using \<open>n \<in> set (plan_nodes ?plan)\<close> unfolding node_set by blast
    have "cpre_node_id p \<in> prereq_node_id ` set (hnode_prerequisites m)" if "p \<in> set (cn_prerequisites n)" for p
      using that lowered_node_fields(7) [of m "?entry m"] unfolding n by blast
    then have "\<forall>p \<in> set (cn_prerequisites n). cpre_node_id p \<noteq> hnode_id m
        \<and> (\<exists>k \<in> set ?nodes. hnode_id k = cpre_node_id p)"
      using nodes_ok [OF m] by fastforce
    then show ?thesis
      using nodes_ok [OF m] m unfolding node_set n caps by auto
  qed
  have tvalues': "\<forall>(i, t) \<in> set (plan_terminal_result_map ?plan). \<forall>n \<in> set (plan_nodes ?plan).
      cn_node_id n = i \<longrightarrow> cn_terminal_result n = Some t"
    using tvalues unfolding node_set by auto
  have reqs': "\<forall>r \<in> set (cap_required_by_terminal (plan_artifact_policy ?plan)).
      (\<exists>n \<in> set (plan_nodes ?plan). cn_terminal_result n = Some (tar_terminal_result r))
      \<and> (\<forall>a \<in> set (tar_artifact_ids r). a \<in> set ?declared
           \<and> (\<exists>n \<in> set (plan_nodes ?plan). a \<in> set (cn_produced_artifact_ids n)))"
  proof
    fix r assume "r \<in> set (cap_required_by_terminal (plan_artifact_policy ?plan))"
    then obtain i where i: "i \<in> set (required_by_terminal (hs_artifacts source))"
      and r: "r = \<lparr>tar_terminal_result = tap_terminal_result i, tar_artifact_ids = sort (tap_artifact_ids i)\<rparr>"
      unfolding policy(2) by blast
    show "(\<exists>n \<in> set (plan_nodes ?plan). cn_terminal_result n = Some (tar_terminal_result r))
      \<and> (\<forall>a \<in> set (tar_artifact_ids r). a \<in> set ?declared
           \<and> (\<exists>n \<in> set (plan_nodes ?plan). a \<in> set (cn_produced_artifact_ids n)))"
      using reqs [OF i] unfolding node_set r by simp
  qed
  have "(\<forall>n \<in> set (plan_nodes ?plan). set (cn_produced_artifact_ids n) \<subseteq> set ?declared)
      \<longleftrightarrow> tool_artifacts_declared ts source"
    unfolding node_set tool_artifacts_declared_def by simp
  moreover have "plan_sound ?plan \<longleftrightarrow> (\<forall>n \<in> set (plan_nodes ?plan). set (cn_produced_artifact_ids n) \<subseteq> set ?declared)"
    (is "_ \<longleftrightarrow> ?produced")
  proof
    show ?produced if "plan_sound ?plan"
      using plan_sound_produced [OF that] unfolding policy(1) by blast
    have some: "\<exists>n \<in> set (plan_nodes ?plan). \<exists>t. cn_terminal_result n = Some t \<and> t \<noteq> []"
      using has_terminal unfolding node_set by auto
    show "plan_sound ?plan" if ?produced
    proof -
      have "\<forall>n \<in> set (plan_nodes ?plan). (cn_terminal_result n \<noteq> None \<longrightarrow> \<not> cn_required n)
          \<and> (\<forall>p \<in> set (cn_prerequisites n). cpre_node_id p \<noteq> cn_node_id n
               \<and> (\<exists>m \<in> set (plan_nodes ?plan). cn_node_id m = cpre_node_id p))
          \<and> set (cn_required_capabilities n) \<subseteq> set (plan_required_capabilities ?plan)
          \<and> set (cn_produced_artifact_ids n) \<subseteq> set ?declared"
        using node_ok that by blast
      then show ?thesis
        unfolding plan_sound_def Let_def policy(1) terminal_ids
        by (intro conjI dists some keys_eq tvalues' reqs')
    qed
  qed
  ultimately show ?thesis by blast
qed


lemma check_lowered_node:
  "wf_harness_node n \<Longrightarrow> admitted_entry e \<Longrightarrow>
     check_compiled_node (lowered_node (binding_of n e)) = Inr (lowered_node (binding_of n e))"
  using lower_node_Inr [of n e]
  by (auto simp: lower_node_def validated_def failing_def bind_result_Inr split: sum.splits)

lemma checked_context:
  "valid_source source \<Longrightarrow> is_ok (check_context_policy (plan_context_policy (lowered_plan version h
     (resolution request source ts ps evidence))))"
  using valid_source_context [of source version h "resolution request source ts ps evidence"]
  by (auto simp: lower_context_def resolution_def validated_def failing_def is_ok_def Let_def lowered_plan_def
      split: list.splits sum.splits)

lemma is_ok_fields:
  "is_ok (nonblank_field v f) \<longleftrightarrow> nonblank v" "is_ok (sha256_field v f) \<longleftrightarrow> SHA256_RE v"
  "is_ok (names_field vs f) \<longleftrightarrow> (\<forall>v \<in> set vs. nonblank v) \<and> distinct vs"
  "is_ok (require_positive i) \<longleftrightarrow> 0 < i" "is_ok (require_nonempty xs) \<longleftrightarrow> xs \<noteq> []"
  by (auto simp: is_ok_iff nonblank_field_Inr sha256_field_Inr names_field_Inr require_positive_def require_Inr
      ensure_Inr)

lemma checked_terminal_map:
  assumes "wf_harness_graph g" and "terminals_sound (graph_nodes g) allowed"
  shows "check_terminal_result_map (sort_key fst (terminal_nodes (graph_nodes g))) = Inr ()"
proof -
  have "distinct (map snd (sort_key fst (terminal_nodes (graph_nodes g))))"
    using assms(2) by (simp add: terminal_nodes_def terminals_sound_def Let_def comp_def)
  moreover have "nonblank t \<and> nonblank r" if "(t, r) \<in> set (terminal_nodes (graph_nodes g))" for t r
    using that assms(1)
    by (auto simp: terminal_nodes_iff wf_harness_graph_def wf_harness_node_def
        intro: identifier_nonblank(2) identifier_nonblank(4))
  then have "is_ok (traverse (\<lambda>(key, item).
         bind_result (nonblank_field key ''terminal_result_map key'') (\<lambda>_.
         nonblank_field item ''terminal_result_map value'')) (sort_key fst (terminal_nodes (graph_nodes g))))"
    by (auto simp: traverse_is_ok is_ok_bind_const is_ok_fields)
  ultimately show ?thesis
    using distinct_card [of "map snd (sort_key fst (terminal_nodes (graph_nodes g)))"]
    unfolding check_terminal_result_map_def by (auto simp: is_ok_iff)
qed

lemma checked_artifacts:
  assumes "wf_artifact_policy a"
  shows "check_plan_artifacts (lower_artifacts a) = Inr (lower_artifacts a)"
proof -
  have "check_terminal_requirement r = Inr r" if "r \<in> set (cap_required_by_terminal (lower_artifacts a))" for r
    using that assms
    by (auto simp: lower_artifacts_def wf_artifact_policy_def check_terminal_requirement_def bind_result_Inr
        nonblank_field_Inr names_field_Inr require_Inr intro: identifier_nonblank)
  then have "traverse check_terminal_requirement (cap_required_by_terminal (lower_artifacts a))
      = Inr (cap_required_by_terminal (lower_artifacts a))" by (rule traverse_unchanged)
  then show ?thesis
    using assms unfolding check_plan_artifacts_def bind_result_Inr names_field_Inr
    by (auto simp: lower_artifacts_def wf_artifact_policy_def intro: identifier_nonblank)
qed


lemma sound_plan_fields:
  assumes sound: "harness_sound env request source ts ps" and valid: "valid_source source"
    and admitted: "entries_admitted ts source" and version: "nonblank version" and h: "SHA256_RE h"
  shows "is_ok (check_plan_fields (lowered_plan version h (resolution request source ts ps evidence)))"
proof -
  let ?nodes = "graph_nodes (hs_graph source)" and ?entry = "\<lambda>n. the (node_entry ts n)"
  let ?r = "resolution request source ts ps evidence"
  let ?plan = "lowered_plan version h ?r"
  note fields = valid_source_fields [OF valid] and wf = valid_source_graph [OF valid]
  have results: "terminals_sound ?nodes (Some (req_legal_terminal_results request))"
    and profile: "resolved_model_profile ps (hs_model_profile_id source) \<noteq> None"
    using sound by (auto simp: harness_sound_def Let_def)
  have nodes: "traverse check_compiled_node (plan_nodes ?plan) = Inr (plan_nodes ?plan)"
    unfolding lowered_plan_nodes
    by (rule traverse_unchanged)
      (use wf admitted in \<open>auto simp: ordered_nodes_def wf_harness_graph_def entries_admitted_def check_lowered_node\<close>)
  have "profile_id (plan_model_profile ?plan) = hs_model_profile_id source"
    using profile by (auto simp: lowered_plan_def resolution_def Let_def resolved_model_profile_def
        split: sum.splits option.splits if_splits)
  moreover have "\<forall>c \<in> set (plan_required_capabilities ?plan). nonblank c" "distinct (plan_required_capabilities ?plan)"
    using admitted by (auto simp: lowered_plan_def resolution_def Let_def node_entries_def ordered_nodes_def
        entries_admitted_def admitted_entry_def intro: identifier_nonblank(1))
  moreover have "plan_nodes ?plan \<noteq> []"
    using wf by (simp add: lowered_plan_nodes ordered_nodes_def wf_harness_graph_def)
  moreover have "SHA256_RE placeholder_sha256" by code_simp
  moreover have "check_terminal_result_map (plan_terminal_result_map ?plan) = Inr ()"
    using checked_terminal_map [OF wf results] by (simp add: lowered_plan_def resolution_def Let_def)
  moreover have "check_plan_artifacts (plan_artifact_policy ?plan) = Inr (plan_artifact_policy ?plan)"
    using checked_artifacts [OF valid_source_artifacts [OF valid]] by (simp add: lowered_plan_def resolution_def Let_def)
  moreover have "check_compiler_identity (plan_compiler_identity ?plan) = Inr (plan_compiler_identity ?plan)"
  proof -
    have "nonblank COMPILER_NAME" "nonblank COMPILER_BUILD_ID" by code_simp+
    then show ?thesis
      using version by (simp add: check_compiler_identity_def lowered_plan_def this_compiler_identity_def Let_def
          nonblank_field_def)
  qed
  moreover note checked_context [OF valid, of version h request ts ps evidence]
  moreover have "plan_schema_version ?plan = ''1.0''" "plan_kind ?plan = ''compiled_millforge_harness''"
    "plan_harness_id ?plan = hs_harness_id source" "plan_harness_version ?plan = hs_harness_version source"
    "plan_source_sha256 ?plan = h" "plan_compiled_sha256 ?plan = placeholder_sha256"
    "plan_stage_kind_ids ?plan = sort (scope_stage_kind_ids (hs_stage_scope source))"
    "plan_prompt_policy ?plan = lower_prompt (hs_prompt source)"
    "plan_budgets ?plan = lower_budgets (hs_budgets source)"
    using fields(1) by (simp_all add: lowered_plan_def resolution_def Let_def)
  ultimately show ?thesis
    using nodes fields h
    by (simp add: check_plan_fields_def is_ok_bind_const is_ok_fields check_model_profile_def)
qed


lemma construct_plan_outcome:
  assumes sound: "harness_sound env request source ts ps" and valid: "valid_source source"
    and admitted: "entries_admitted ts source" and version: "nonblank version" and h: "SHA256_RE h"
  shows "construct_plan version h (resolution request source ts ps evidence) =
    (if tool_artifacts_declared ts source
     then Inr (lowered_plan version h (resolution request source ts ps evidence))
     else Inl CompiledPlanValidationError)"
proof -
  let ?r = "resolution request source ts ps evidence"
  let ?plan = "lowered_plan version h ?r"
  note fields = valid_source_fields [OF valid] and wf = valid_source_graph [OF valid]
  have source: "rh_source ?r = source" by (simp add: resolution_def)
  have sorted: "sort_key rtb_node_id (rh_resolved_nodes ?r) = rh_resolved_nodes ?r"
    by (rule sort_key_id_if_sorted) (simp add: resolution_def ordered_nodes_def binding_of_def comp_def)
  have nodes: "traverse lower_node (rh_resolved_nodes ?r) = Inr (plan_nodes ?plan)"
    using traverse_map [of "rh_resolved_nodes ?r" lower_node lowered_node] lower_node_Inr wf admitted
    by (auto simp: resolution_def lowered_plan_def Let_def ordered_nodes_def wf_harness_graph_def entries_admitted_def)
  have ctx: "lower_context (hs_context source) = Inr (plan_context_policy ?plan)"
    using valid_source_context [OF valid, of version h ?r] by (simp add: resolution_def)
  have "check_plan_artifacts (lower_artifacts (hs_artifacts source)) = Inr (lower_artifacts (hs_artifacts source))"
    by (rule checked_artifacts [OF valid_source_artifacts [OF valid]])
  moreover have "is_ok (check_compiler_identity (this_compiler_identity version))"
    and fields_ok: "check_plan_fields ?plan = Inr ?plan"
  proof -
    obtain q where "check_plan_fields ?plan = Inr q"
      using sound_plan_fields [OF assms] by (auto simp: is_ok_iff)
    then show ok: "check_plan_fields ?plan = Inr ?plan" using check_plan_fields_same by metis
    have "is_ok (check_plan_fields ?plan)" using ok by simp
    then have "is_ok (check_compiler_identity (plan_compiler_identity ?plan))"
      unfolding check_plan_fields_def is_ok_bind_const by blast
    then show "is_ok (check_compiler_identity (this_compiler_identity version))" by (simp add: lowered_plan_def Let_def)
  qed
  then obtain "check_compiler_identity (this_compiler_identity version) = Inr (this_compiler_identity version)"
    by (auto simp: is_ok_iff check_compiler_identity_def bind_result_Inr)
  ultimately have "construct_plan version h ?r = validated (check_compiled_plan ?plan)"
    unfolding construct_plan_def source sorted nodes Let_def
    by (simp add: fields ctx) (simp add: lowered_plan_def Let_def resolution_def sorted_sort_id fields(1))
  moreover have "check_compiled_plan ?plan = (if plan_sound ?plan then Inr ?plan
      else Raise (ValueError (join_str ''; '' (validate_plan_invariants ?plan))))"
    using plan_invariants_exact [of ?plan] by (auto simp: check_compiled_plan_def fields_ok)
  ultimately show ?thesis
    by (simp add: sound_plan_invariants [OF sound valid])
qed


text \<open>
  The codec behaves on the plan \<open>p\<close>, whose finalised form is \<open>q\<close>: both have a canonical text, the
  digest is a hexadecimal SHA-256, and decoding undoes encoding.
\<close>

definition codec_faithful :: "plan_env \<Rightarrow> compiled_harness_plan \<Rightarrow> compiled_harness_plan \<Rightarrow> bool" where
  "codec_faithful env p q \<longleftrightarrow>
     (\<exists>content text. canonical_json_serialize (float_text env) (JObj (without_digest (plan_members p))) = Inr content
        \<and> SHA256_RE (sha256_hex env content) \<and> q = p\<lparr>plan_compiled_sha256 := sha256_hex env content\<rparr>
        \<and> json_roundtrip env q \<and> canonical_json_serialize (float_text env) (plan_json q) = Inr text)"

lemma finalize_faithful:
  assumes "codec_faithful env p q" and "is_ok (check_plan_fields p)" and "plan_sound p"
  shows "finalize_compiled_plan_sha256 env p = Inr q"
proof -
  obtain content out where c:
    "canonical_json_serialize (float_text env) (JObj (without_digest (plan_members p))) = Inr content"
    "SHA256_RE (sha256_hex env content)" "q = p\<lparr>plan_compiled_sha256 := sha256_hex env content\<rparr>"
    "json_roundtrip env q" "canonical_json_serialize (float_text env) (plan_json q) = Inr out"
    using assms(1) by (auto simp: codec_faithful_def)
  show ?thesis using finalize_valid(1) [OF assms(2,3) c, of "plan_compiled_sha256 p"] by simp
qed

lemma lower_outcome:
  assumes "harness_sound env request source ts ps" and "valid_source source" and "entries_admitted ts source"
    and "nonblank version"
    and hash: "source_sha256 penv (resolution request source ts ps evidence) = Inr h" "SHA256_RE h"
  shows "lower_resolved_harness penv version (resolution request source ts ps evidence) =
    (if tool_artifacts_declared ts source
     then finalize_lowered penv (lowered_plan version h (resolution request source ts ps evidence))
     else Inl CompiledPlanValidationError)"
  using construct_plan_outcome [OF assms(1-4,6), of evidence]
  by (simp add: lower_resolved_harness_def hash(1) failing_def)

text \<open>The plan lowering returns for an accepted harness, but for its digest.\<close>

lemma lowered_plan_finalized:
  assumes "harness_sound env request source ts ps" and "valid_source source" and "entries_admitted ts source"
    and "nonblank version" and "tool_artifacts_declared ts source"
    and "source_sha256 penv (resolution request source ts ps evidence) = Inr h" and "SHA256_RE h"
    and "codec_faithful penv (lowered_plan version h (resolution request source ts ps evidence)) plan"
  shows "lower_resolved_harness penv version (resolution request source ts ps evidence) = Inr plan"
    and "plan_sound plan" and "is_ok (check_plan_fields plan)"
    and "\<exists>d. plan = lowered_plan version h (resolution request source ts ps evidence)\<lparr>plan_compiled_sha256 := d\<rparr>"
proof -
  let ?p = "lowered_plan version h (resolution request source ts ps evidence)"
  have ok: "is_ok (check_plan_fields ?p)" "plan_sound ?p"
    using sound_plan_fields [OF assms(1-4,7)] sound_plan_invariants [OF assms(1,2)] assms(5) by blast+
  obtain d where q: "plan = ?p\<lparr>plan_compiled_sha256 := d\<rparr>" "SHA256_RE d" using assms(8) by (auto simp: codec_faithful_def)
  have "lower_resolved_harness penv version (resolution request source ts ps evidence) = finalize_lowered penv ?p"
    using lower_outcome [OF assms(1-4,6,7)] assms(5) by simp
  also have "\<dots> = Inr plan"
    using finalize_faithful [OF assms(8) ok] by (simp add: finalize_lowered_def failing_def)
  finally show "lower_resolved_harness penv version (resolution request source ts ps evidence) = Inr plan" .
  show "plan_sound plan" "is_ok (check_plan_fields plan)"
    using ok check_fields_digest [OF q(2)] by (simp_all add: q(1))
  show "\<exists>d. plan = ?p\<lparr>plan_compiled_sha256 := d\<rparr>" using q(1) by blast
qed

text \<open>Only a schema can hold a float that JSON does not have.\<close>

lemma payload_finite:
  "json_finite (canonical_semantic_payload r)
     \<longleftrightarrow> (\<forall>b \<in> set (rh_resolved_nodes r). json_finite (td_input_schema (rtb_descriptor b)))"
proof -
  have "json_finite (node_payload b) \<longleftrightarrow> json_finite (td_input_schema (rtb_descriptor b))" for b
    by (auto simp: node_payload_def match_payload_def json_items_finite_iff json_opt_def Let_def split: option.splits)
  then show ?thesis
    by (auto simp: canonical_semantic_payload_def json_items_finite_iff json_members_finite_iff
        source_budgets_payload_def source_artifacts_payload_def Let_def)
qed

text \<open>With admitted entries there is no such float, so the digests exist.\<close>

lemma lowered_texts:
  assumes "entries_admitted ts source"
  shows "\<exists>h. source_sha256 penv (resolution request source ts ps evidence) = Inr h \<and> (\<exists>s. h = sha256_hex penv s)"
    and "schemas_finite (lowered_plan version h (resolution request source ts ps evidence))"
proof -
  let ?r = "resolution request source ts ps evidence"
  have finite: "json_finite (td_input_schema (the (node_entry ts n)))" if "n \<in> set (ordered_nodes source)" for n
    using assms that by (auto simp: entries_admitted_def admitted_entry_def ordered_nodes_def)
  then have "json_finite (canonical_semantic_payload ?r)"
    unfolding payload_finite by (auto simp: resolution_def binding_of_def)
  then obtain doc where "canonical_json_serialize (float_text penv) (canonical_semantic_payload ?r) = Inr doc"
    by (metis canonical_ok_iff is_ok_iff)
  then show "\<exists>h. source_sha256 penv ?r = Inr h \<and> (\<exists>s. h = sha256_hex penv s)"
    by (auto simp: source_sha256_def canonical_semantic_bytes_def)
  show "schemas_finite (lowered_plan version h ?r)"
    using finite by (auto simp: schemas_finite_def lowered_plan_nodes lowered_node_def binding_of_def Let_def)
qed

lemma codec_law_faithful:
  assumes "hash_law penv" and "codec_law penv p" and "schemas_finite p"
  obtains q where "codec_faithful penv p q"
proof -
  obtain content where content:
    "canonical_json_serialize (float_text penv) (JObj (without_digest (plan_members p))) = Inr content"
    using canonical_plan_text [OF assms(3)] by metis
  let ?q = "p\<lparr>plan_compiled_sha256 := sha256_hex penv content\<rparr>"
  obtain doc where doc: "canonical_json_serialize (float_text penv) (plan_json ?q) = Inr doc"
    using canonical_plan_text [of ?q] assms(3) by (metis schemas_finite_digest)
  have "codec_faithful penv p ?q"
    unfolding codec_faithful_def using content doc assms(1,2) by (auto simp: hash_law_def codec_law_def)
  then show thesis by (rule that)
qed

text \<open>
  C30: lowering refines the resolved harness. For a source that passed its contract, a harness with
  a meaning, admitted catalog entries whose artifacts are all declared, and a codec that decodes what
  it encodes, the digests exist and lowering succeeds. The plan's nodes are the source nodes in the
  order of their names with the tools they are bound to, its terminal map is that of the graph, it
  carries the digest of the source and of its own content, and it satisfies every field check and
  every cross-field invariant of its contract.
\<close>

theorem lower_resolved_harness_refines:
  assumes "harness_sound env request source ts ps" and "valid_source source" and "entries_admitted ts source"
    and "nonblank version" and "tool_artifacts_declared ts source" and "hash_law penv"
    and "\<And>h. source_sha256 penv (resolution request source ts ps evidence) = Inr h \<Longrightarrow>
      codec_law penv (lowered_plan version h (resolution request source ts ps evidence))"
  shows "\<exists>plan. lower_resolved_harness penv version (resolution request source ts ps evidence) = Inr plan
    \<and> plan_sound plan \<and> is_ok (check_plan_fields plan)
    \<and> plan_nodes plan = map (\<lambda>n. lowered_node (binding_of n (the (node_entry ts n)))) (ordered_nodes source)
    \<and> plan_terminal_result_map plan = sort_key fst (terminal_nodes (graph_nodes (hs_graph source)))
    \<and> source_sha256 penv (resolution request source ts ps evidence) = Inr (plan_source_sha256 plan)
    \<and> calculate_compiled_plan_sha256 penv (plan_members plan) = Inr (plan_compiled_sha256 plan)"
proof -
  let ?r = "resolution request source ts ps evidence"
  obtain h where h: "source_sha256 penv ?r = Inr h" "SHA256_RE h"
    using lowered_texts(1) [OF assms(3), of penv] assms(6) by (metis hash_law_def)
  let ?p = "lowered_plan version h ?r"
  obtain plan where codec: "codec_faithful penv ?p plan"
    by (rule codec_law_faithful [OF assms(6) assms(7) [OF h(1)] lowered_texts(2) [OF assms(3)]])
  note plan = lowered_plan_finalized [OF assms(1-5) h codec]
  obtain d where d: "plan = ?p\<lparr>plan_compiled_sha256 := d\<rparr>" using plan(4) by blast
  then have "plan_nodes plan = plan_nodes ?p" "plan_terminal_result_map plan = plan_terminal_result_map ?p"
    "plan_source_sha256 plan = h"
    by (simp_all add: lowered_plan_def Let_def)
  moreover have "calculate_compiled_plan_sha256 penv (plan_members plan) = Inr (plan_compiled_sha256 plan)"
    using codec unfolding codec_faithful_def
    by (auto simp: calculate_members_digest) (simp add: calculate_compiled_plan_sha256_def)
  ultimately show ?thesis
    using plan(1,2,3) h(1) lowered_plan_nodes [of version h request source ts ps evidence]
    by (intro exI [of _ plan]) (simp add: lowered_plan_def resolution_def Let_def)
qed

text \<open>
  C31: an undeclared artifact of a tool is found too late. The semantic phase compares the artifacts
  a node says it produces, lowering puts those its tool produces into the plan. When some tool
  produces an artifact that the source does not declare, a harness that semantic compilation
  accepts is refused by the contract of the compiled plan, as a lowering failure without a node or
  an artifact in its diagnostic.
\<close>

theorem undeclared_tool_artifact_refused:
  assumes "harness_sound env request source ts ps" and "valid_source source" and "entries_admitted ts source"
    and "nonblank version"
    and "source_sha256 penv (resolution request source ts ps evidence) = Inr h" and "SHA256_RE h"
    and "n \<in> set (graph_nodes (hs_graph source))" and "node_entry ts n = Some e"
    and "a \<in> set (td_produced_artifact_ids e)" and "a \<notin> set (declared_artifact_ids (hs_artifacts source))"
  shows "lower_resolved_harness penv version (resolution request source ts ps evidence)
    = Inl CompiledPlanValidationError"
proof -
  have "\<not> tool_artifacts_declared ts source"
    using assms(7-10) unfolding tool_artifacts_declared_def by force
  then show ?thesis using lower_outcome [OF assms(1-6)] by simp
qed


section \<open>The sample harness, lowered\<close>

text \<open>A codec that knows one plan, with a constant digest.\<close>

definition one_plan_env :: "compiled_harness_plan \<Rightarrow> plan_env" where
  "one_plan_env q = \<lparr>sha256_hex = (\<lambda>_. sample_digest), float_text = (\<lambda>_. ''0.5''),
     json_loads = (\<lambda>_ _. Inr (json_sort_keys (plan_json q))),
     plan_fields = (\<lambda>j. if j = plan_json q then Inr q else Inr (decoded_plan q))\<rparr>"

definition sample_lowered :: compiled_harness_plan where
  "sample_lowered = lowered_plan ''1.0.0'' sample_digest sample_resolution"

definition sample_finalized :: compiled_harness_plan where
  "sample_finalized = sample_lowered\<lparr>plan_compiled_sha256 := sample_digest\<rparr>"

lemma sample_source_parts:
  "validate_harness_id ''demo.edit'' = Inr ''demo.edit''" "validate_harness_version 1 = Inr 1"
  "check_stage_scope (hs_stage_scope sample_source) = Inr (hs_stage_scope sample_source)"
  "validate_profile_id ''profile.main'' = Inr ''profile.main''"
  "check_budgets (hs_budgets sample_source) = Inr (hs_budgets sample_source)"
  "check_harness_graph (hs_graph sample_source) = Inr (hs_graph sample_source)"
  "check_artifact_policy (hs_artifacts sample_source) = Inr (hs_artifacts sample_source)"
  by code_simp+

lemma sample_prompt: "check_prompt (hs_prompt sample_source) = Inr (hs_prompt sample_source)"
proof -
  have "validate_policy_id ''policy.main'' = Inr ''policy.main''" "nonblank ''Work.''" "utf8_len ''Work.'' = 5"
    by code_simp+
  then show ?thesis
    by (simp add: check_prompt_def sample_source_def validate_utf8_size_def MAX_SYSTEM_INSTRUCTIONS_UTF8_def)
qed

lemma sample_context:
  "mk_context_policy ''forge.tiered.v1'' 4096 2
     [PyFloat (Finite (1/2)), PyFloat (Finite (3/4)), PyFloat (Finite 1)] = Inr (hs_context sample_source)"
  by (simp add: mk_context_policy_def require_range_def thresholds_scalar_valid_def validate_threshold_def
      thresholds_ordered_def sample_source_def)

lemma sample_source_valid: "valid_source sample_source"
proof -
  have "hs_harness_id sample_source = ''demo.edit''" "hs_harness_version sample_source = 1"
    "hs_model_profile_id sample_source = ''profile.main''" "hs_schema_version sample_source = ''1.0''"
    "hs_kind sample_source = ''millforge_harness''"
    by (simp_all add: sample_source_def)
  then have "check_harness_source sample_source = Inr sample_source"
    by (simp add: check_harness_source_def sample_source_parts sample_prompt)
  then show ?thesis using sample_context unfolding valid_source_def by blast
qed

lemma sample_node_entries:
  "n \<in> set sample_nodes \<Longrightarrow> node_entry sample_tools n = Some (sample_tool (hnode_id n))"
proof -
  have "map (node_entry sample_tools) sample_nodes = map (\<lambda>n. Some (sample_tool (hnode_id n))) sample_nodes"
    by code_simp
  then show "n \<in> set sample_nodes \<Longrightarrow> node_entry sample_tools n = Some (sample_tool (hnode_id n))" by simp
qed

lemma sample_tool_admitted: "i \<in> {''read'', ''write'', ''done''} \<Longrightarrow> admitted_entry (sample_tool i)"
proof -
  have "normalize_json_schema path_schema ''input_schema'' = Inr path_schema"
    "normalize_json_schema (JObj [(''const'', JNull)]) ''output_schema'' = Inr (JObj [(''const'', JNull)])"
    "json_finite path_schema"
    by code_simp+
  moreover have "SHA256_RE (replicate 64 (CHR ''a''))" "ARTIFACT_ID_RE ''patch''" "DOTTED_ID_RE ''fs.read''"
    "\<forall>i \<in> {''read'', ''write'', ''done''}. DOTTED_ID_RE (''tools.'' @ i) \<and> nonblank i \<and> utf8_len i \<le> 64"
    "nonblank ''impl''" "nonblank ''Read a file''" "utf8_len ''impl'' \<le> 256" "utf8_len ''Read a file'' \<le> 4096"
    by code_simp+
  ultimately show "i \<in> {''read'', ''write'', ''done''} \<Longrightarrow> admitted_entry (sample_tool i)"
    by (auto simp: admitted_entry_def sample_tool_def sample_descriptor_def sample_artifacts_def)
qed

lemma sample_ids: "n \<in> set sample_nodes \<Longrightarrow> hnode_id n \<in> {''read'', ''write'', ''done''}"
  by (auto simp: sample_source_def sample_node_def)

lemma sample_entries_admitted: "entries_admitted sample_tools sample_source"
  unfolding entries_admitted_def using sample_node_entries sample_tool_admitted sample_ids by simp

lemma sample_artifacts_declared: "tool_artifacts_declared sample_tools sample_source"
proof -
  have "set (sample_artifacts i) \<subseteq> {''patch''}" for i by (auto simp: sample_artifacts_def)
  then show ?thesis
    unfolding tool_artifacts_declared_def using sample_node_entries
    by (simp add: sample_tool_def) (simp add: sample_source_def)
qed

lemma sample_sound: "harness_sound plain_env sample_request sample_source sample_tools sample_profiles"
  using sample_compiles semantic_outcome(1) [OF sample_graph_wf] by blast

lemma sample_schemas_finite:
  "n \<in> set (ordered_nodes sample_source) \<Longrightarrow>
     json_finite (td_input_schema (rtb_descriptor (binding_of n (the (node_entry sample_tools n)))))"
proof -
  have "json_finite path_schema" by code_simp
  then show "n \<in> set (ordered_nodes sample_source) \<Longrightarrow>
     json_finite (td_input_schema (rtb_descriptor (binding_of n (the (node_entry sample_tools n)))))"
    using sample_node_entries by (simp add: ordered_nodes_def binding_of_def sample_tool_def)
qed

lemma sample_payload_hash: "source_sha256 (one_plan_env q) sample_resolution = Inr sample_digest"
proof -
  have "json_finite (canonical_semantic_payload sample_resolution)"
    unfolding payload_finite using sample_schemas_finite by (simp add: sample_resolution_def resolution_def)
  then have "is_ok (canonical_json_serialize (float_text (one_plan_env q)) (canonical_semantic_payload sample_resolution))"
    by (simp add: canonical_ok_iff)
  then show ?thesis
    by (auto simp: is_ok_iff source_sha256_def canonical_semantic_bytes_def one_plan_env_def)
qed

lemma plan_json_unsorted: "json_sort_keys (plan_json p) \<noteq> plan_json p"
proof
  assume "json_sort_keys (plan_json p) = plan_json p"
  then have "sorted (map fst (plan_members p))"
    using sorted_sort_key [of fst "json_sort_members (plan_members p)"] by (simp add: plan_json_def)
  then show False by (simp add: plan_members_def)
qed

lemma one_plan_faithful:
  assumes "\<forall>n \<in> set (plan_nodes p). json_finite (cn_input_schema n)"
    and "q = p\<lparr>plan_compiled_sha256 := sample_digest\<rparr>"
  shows "codec_faithful (one_plan_env q) p q"
proof -
  have finite: "schemas_finite p" "schemas_finite q" using assms by (simp_all add: schemas_finite_def)
  obtain content where
    "canonical_json_serialize (float_text (one_plan_env q)) (JObj (without_digest (plan_members p))) = Inr content"
    by (rule canonical_plan_text [OF finite(1)])
  moreover obtain out where "canonical_json_serialize (float_text (one_plan_env q)) (plan_json q) = Inr out"
    by (rule canonical_plan_text [OF finite(2)])
  moreover have "json_roundtrip (one_plan_env q) q"
    using plan_json_unsorted [of q] by (simp add: json_roundtrip_def one_plan_env_def)
  moreover have "sha256_hex (one_plan_env q) c = sample_digest" for c by (simp add: one_plan_env_def)
  ultimately show ?thesis using assms(2) sample_digest_hex unfolding codec_faithful_def by metis
qed

lemma sample_codec: "codec_faithful (one_plan_env sample_finalized) sample_lowered sample_finalized"
proof (rule one_plan_faithful)
  show "\<forall>n \<in> set (plan_nodes sample_lowered). json_finite (cn_input_schema n)"
    unfolding sample_lowered_def sample_resolution_def lowered_plan_nodes
    using sample_schemas_finite by (simp add: lowered_node_def Let_def)
qed (rule sample_finalized_def)

theorem lower_resolved_harness_refines_witness:
  "\<exists>plan. lower_resolved_harness (one_plan_env sample_finalized) ''1.0.0'' sample_resolution = Inr plan
     \<and> plan_sound plan \<and> plan_source_sha256 plan = sample_digest"
proof -
  let ?env = "one_plan_env sample_finalized"
  have version: "nonblank ''1.0.0''" by code_simp
  have hash: "hash_law ?env" using sample_digest_hex by (simp add: hash_law_def one_plan_env_def)
  have law: "codec_law ?env (lowered_plan ''1.0.0'' h sample_resolution)"
    if "source_sha256 ?env sample_resolution = Inr h" for h
    using that sample_codec by (auto simp: codec_law_def codec_faithful_def sample_payload_hash sample_lowered_def)
  show ?thesis
    using lower_resolved_harness_refines [OF sample_sound sample_source_valid sample_entries_admitted version
        sample_artifacts_declared hash law [unfolded sample_resolution_def]] sample_payload_hash
    unfolding sample_resolution_def by auto
qed


text \<open>A harness with one terminal node, whose tool produces an artifact that the source does not declare.\<close>

definition log_tool :: tool_catalog_entry where
  "log_tool = (sample_tool ''done'')\<lparr>td_produced_artifact_ids := [''log'']\<rparr>"

definition log_tools :: tool_catalog_snapshot where
  "log_tools = sample_tools\<lparr>resolve_tool := (\<lambda>_ _. found_lookup log_tool)\<rparr>"

definition log_node :: harness_node_source where
  "log_node = sample_node ''done'' False [] (Some ''DONE'')"

definition log_source :: harness_source where
  "log_source = sample_source\<lparr>hs_graph := \<lparr>graph_nodes = [log_node]\<rparr>,
     hs_artifacts := \<lparr>declared_artifact_ids = [], required_by_terminal = []\<rparr>\<rparr>"

definition log_resolution :: resolved_harness where
  "log_resolution = resolution sample_request log_source log_tools sample_profiles []"

lemma log_node_entry: "node_reference log_node \<noteq> None" "node_entry log_tools log_node = Some log_tool"
  by code_simp+

lemma log_nodes: "graph_nodes (hs_graph log_source) = [log_node]" "ordered_nodes log_source = [log_node]"
  by (simp_all add: log_source_def ordered_nodes_def)

lemma log_node_fields:
  "hnode_prerequisites log_node = []" "hnode_required log_node = False" "hnode_terminal_result log_node = Some ''DONE''"
  "hnode_produces log_node = []" "hnode_id log_node = ''done''"
  by (simp_all add: log_node_def sample_node_def sample_artifacts_def)

lemma log_sound: "harness_sound plain_env sample_request log_source log_tools sample_profiles"
proof -
  have "\<not> is_connector_discovery_snapshot_like log_tools"
    by (simp add: is_connector_discovery_snapshot_like_def log_tools_def sample_tools_def) blast
  moreover have "snapshot_sound log_tools" "snapshot_sound sample_profiles"
    by code_simp+
  moreover have "resolved_model_profile sample_profiles (hs_model_profile_id log_source) \<noteq> None"
    by (simp add: resolved_model_profile_def sample_profiles_def found_lookup_def mk_catalog_lookup_def optional_def)
  moreover have "\<not> depends [log_node] i j" for i j
    by (simp add: depends_def prerequisite_pairs_def log_node_fields)
  then have "\<not> (depends [log_node])\<^sup>+\<^sup>+ i j" for i j
    using tranclpD by fastforce
  moreover have "terminals_sound [log_node] (Some [''DONE''])" "terminals_gated [log_node]" "prerequisites_sound [log_node]"
    by (simp_all add: terminals_sound_def terminals_gated_def prerequisites_sound_def is_terminal_node_def log_node_fields)
  moreover have "set (td_required_capabilities log_tool) \<subseteq> {''fs.read'', ''fs.write''}"
    by (simp add: log_tool_def sample_tool_def sample_descriptor_def)
  ultimately show ?thesis
    using log_node_entry
    by (simp add: harness_sound_def log_nodes bindings_sound_def node_entries_def arguments_compatible_def
        artifacts_sound_def log_node_fields sample_request_def)
      (simp add: log_source_def)
qed


lemma log_source_valid: "valid_source log_source"
proof -
  have "check_harness_graph (hs_graph log_source) = Inr (hs_graph log_source)"
    "check_artifact_policy (hs_artifacts log_source) = Inr (hs_artifacts log_source)"
    by code_simp+
  moreover have "hs_harness_id log_source = ''demo.edit''" "hs_harness_version log_source = 1"
    "hs_model_profile_id log_source = ''profile.main''" "hs_schema_version log_source = ''1.0''"
    "hs_kind log_source = ''millforge_harness''" "hs_stage_scope log_source = hs_stage_scope sample_source"
    "hs_prompt log_source = hs_prompt sample_source" "hs_budgets log_source = hs_budgets sample_source"
    "hs_context log_source = hs_context sample_source"
    by (simp_all add: log_source_def) (simp_all add: sample_source_def)
  ultimately show ?thesis
    using sample_context by (auto simp: valid_source_def check_harness_source_def sample_source_parts sample_prompt)
qed

lemma log_entries_admitted: "entries_admitted log_tools log_source"
proof -
  have "ARTIFACT_ID_RE ''log''" by code_simp
  then have "admitted_entry log_tool"
    using sample_tool_admitted [of "''done''"] by (simp add: admitted_entry_def log_tool_def)
  then show ?thesis by (simp add: entries_admitted_def log_nodes log_node_entry)
qed

lemma log_payload_hash: "source_sha256 (one_plan_env q) log_resolution = Inr sample_digest"
proof -
  have "json_finite path_schema" by code_simp
  then have "json_finite (canonical_semantic_payload log_resolution)"
    unfolding payload_finite
    by (simp add: log_resolution_def resolution_def log_nodes log_node_entry binding_of_def log_tool_def sample_tool_def)
  then have "is_ok (canonical_json_serialize (float_text (one_plan_env q)) (canonical_semantic_payload log_resolution))"
    by (simp add: canonical_ok_iff)
  then show ?thesis
    by (auto simp: is_ok_iff source_sha256_def canonical_semantic_bytes_def one_plan_env_def)
qed

theorem undeclared_tool_artifact_refused_witness:
  "harness_sound plain_env sample_request log_source log_tools sample_profiles
     \<and> lower_resolved_harness (one_plan_env sample_finalized) ''1.0.0'' log_resolution
         = Inl CompiledPlanValidationError"
proof -
  have "nonblank ''1.0.0''" by code_simp
  from undeclared_tool_artifact_refused [OF log_sound log_source_valid log_entries_admitted this
      log_payload_hash [unfolded log_resolution_def] sample_digest_hex, of log_node log_tool "''log''"]
  show ?thesis
    using log_sound log_node_entry
    by (simp add: log_nodes log_tool_def log_resolution_def) (simp add: log_source_def)
qed

end
