(* ===== verification/Service.thy ===== *)
theory Service
  imports Lowering
begin

text \<open>
  \<^verbatim>\<open>compiler/service.py\<close> with the checks of \<^verbatim>\<open>compiler/requests.py\<close> on a parsed source:
  the phases of the compiler composed, from a validated source to a compiled plan or a failed
  result, and the compilation of a source in memory. A Python exception is a left value; the
  outcomes \<^verbatim>\<open>HarnessCompileResult\<close> and \<^verbatim>\<open>CompiledHarnessPlan\<close> are the two sides of a sum.
\<close>

section \<open>Source references\<close>

definition replace_char :: "char \<Rightarrow> string \<Rightarrow> string \<Rightarrow> string" where
  "replace_char c new s = concat (map (\<lambda>d. if d = c then new else [d]) s)"

definition join_pointer :: "string \<Rightarrow> string \<Rightarrow> string" where
  "join_pointer parent token =
     (let escaped = replace_char (CHR ''/'') ''~1'' (replace_char (CHR ''~'') ''~0'' token)
      in if parent = ''/'' then ''/'' @ escaped else parent @ ''/'' @ escaped)"

text \<open>\<^verbatim>\<open>candidate.rsplit("/", 1)[0]\<close>: the text before the last slash.\<close>

definition before_last_slash :: "string \<Rightarrow> string" where
  "before_last_slash s =
     (if CHR ''/'' \<in> set s then rev (tl (dropWhile (\<lambda>c. c \<noteq> CHR ''/'') (rev s))) else s)"

lemma dropWhile_split: "c \<in> set s \<Longrightarrow> length (tl (dropWhile (\<lambda>d. d \<noteq> c) s)) < length s"
  by (induction s) (auto simp: less_Suc_eq)

lemma before_last_slash_length: "CHR ''/'' \<in> set s \<Longrightarrow> length (before_last_slash s) < length s"
  using dropWhile_split [of "CHR ''/''" "rev s"] by (simp add: before_last_slash_def)

text \<open>
  The loop of \<^verbatim>\<open>_nearest_source_reference\<close>. Every pointer it is called with is absolute, so a
  candidate always has a slash; the model stops at one that has none, where the code would not.
\<close>

function nearest_loop ::
  "(string \<times> source_ref) list \<Rightarrow> string \<Rightarrow> string \<Rightarrow> string \<Rightarrow> source_ref result" where
  "nearest_loop by_path logical_path field_path candidate =
     (if candidate = [] then mk_source_ref logical_path field_path None
      else case map_of by_path candidate of
        Some reference \<Rightarrow>
          if src_field_path reference = field_path then Ok reference
          else mk_source_ref (src_logical_path reference) field_path (src_location reference)
      | None \<Rightarrow>
          if candidate = ''/'' \<or> CHR ''/'' \<notin> set candidate then mk_source_ref logical_path field_path None
          else let parent = before_last_slash candidate
               in nearest_loop by_path logical_path field_path (if parent = [] then ''/'' else parent))"
  by pat_completeness auto
termination
proof (relation "measure (\<lambda>(_, _, _, candidate). length candidate)", goal_cases)
  case (2 by_path logical_path field_path candidate parent)
  then have "length parent < length candidate" using before_last_slash_length by simp
  moreover have "1 < length candidate"
  proof (rule ccontr)
    assume "\<not> 1 < length candidate"
    then obtain c where "candidate = [c]" using 2(1) by (cases candidate) auto
    then show False using 2(3) by auto
  qed
  ultimately show ?case by simp
qed simp

declare nearest_loop.simps [simp del]

definition nearest_source_reference :: "string \<Rightarrow> string \<Rightarrow> source_ref list \<Rightarrow> source_ref result" where
  "nearest_source_reference logical_path field_path location_index =
     nearest_loop (foldl (\<lambda>d r. dict_set d (src_field_path r) r) [] location_index)
       logical_path field_path field_path"

definition source_schema_diagnostic ::
  "redaction_env \<Rightarrow> string \<Rightarrow> string \<Rightarrow> string \<Rightarrow> string \<Rightarrow> source_ref list \<Rightarrow> diagnostic result" where
  "source_schema_diagnostic env code message logical_path field_path location_index =
     bind_result (mk_diagnostic_field env ''field_path'' (FStr field_path)) (\<lambda>fld.
     bind_result (nearest_source_reference logical_path field_path location_index) (\<lambda>reference.
     mk_diagnostic env code ERROR SCHEMA message (Some reference) None None [] None [fld]))"

section \<open>The source against the request\<close>

record parsed_harness_source =
  ps_source :: "harness_source option"
  ps_source_document_sha256 :: string
  ps_diagnostics :: "diagnostic list"
  ps_location_index :: "source_ref list"

definition terminal_message :: string where
  "terminal_message = ''Legal terminal results must match source terminal declarations.''"

text \<open>
  The first loop of \<^verbatim>\<open>_terminal_result_diagnostic\<close>: the paths of the terminal results (right), or the
  path of the first one that is repeated (left).
\<close>

fun terminal_paths :: "nat \<Rightarrow> (string \<times> string) list \<Rightarrow> harness_node_source list \<Rightarrow> string + (string \<times> string) list" where
  "terminal_paths index paths [] = Inr paths"
| "terminal_paths index paths (n # ns) =
     (case hnode_terminal_result n of
        None \<Rightarrow> terminal_paths (Suc index) paths ns
      | Some t \<Rightarrow>
          let field_path = ''/graph/nodes/'' @ show_nat index @ ''/terminal_result''
          in if map_of paths t \<noteq> None then Inl field_path
             else terminal_paths (Suc index) (dict_set paths t field_path) ns)"

text \<open>The terminal results of the nodes, in order.\<close>

fun node_results :: "harness_node_source list \<Rightarrow> string list" where
  "node_results [] = []"
| "node_results (n # ns) =
     (case hnode_terminal_result n of None \<Rightarrow> node_results ns | Some t \<Rightarrow> t # node_results ns)"

text \<open>The pointer of the mismatch, when there is one.\<close>

definition terminal_mismatch :: "harness_compile_request \<Rightarrow> harness_source \<Rightarrow> string option" where
  "terminal_mismatch request source =
     (case terminal_paths 0 [] (graph_nodes (hs_graph source)) of
        Inl field_path \<Rightarrow> Some field_path
      | Inr paths \<Rightarrow>
          let requested = req_legal_terminal_results request;
              missing = find (\<lambda>t. map_of paths t = None) requested;
              undeclared = find (\<lambda>t. t \<notin> set requested) (node_results (graph_nodes (hs_graph source)));
              policies = required_by_terminal (hs_artifacts source);
              unused = find (\<lambda>i. map_of paths (tap_terminal_result (policies ! i)) = None) [0..<length policies]
          in case undeclared of
               Some t \<Rightarrow> Some (the (map_of paths t))
             | None \<Rightarrow>
                 (case unused of
                    Some i \<Rightarrow> Some (''/artifacts/required_by_terminal/''
                      @ show_nat (the (find (\<lambda>j. tap_terminal_result (policies ! j) = tap_terminal_result (policies ! i))
                          [0..<length policies])) @ ''/terminal_result'')
                  | None \<Rightarrow> if missing \<noteq> None then Some ''/graph/nodes'' else None))"

definition cross_field_diagnostics ::
  "redaction_env \<Rightarrow> harness_compile_request \<Rightarrow> harness_source \<Rightarrow> string \<Rightarrow> source_ref list \<Rightarrow>
   diagnostic list result" where
  "cross_field_diagnostics env request source logical_path location_index =
     bind_result (if hs_harness_id source \<noteq> req_expected_harness_id request
       then bind_result (source_schema_diagnostic env ''MF-S027''
              ''Source harness_id does not match expected_harness_id.'' logical_path ''/harness_id'' location_index)
              (\<lambda>d. Ok [d])
       else Ok []) (\<lambda>d1.
     bind_result (if req_stage_kind_id request \<notin> set (scope_stage_kind_ids (hs_stage_scope source))
       then bind_result (source_schema_diagnostic env ''MF-S028''
              ''Requested stage_kind_id is outside source stage_scope.'' logical_path
              ''/stage_scope/stage_kind_ids'' location_index) (\<lambda>d. Ok [d])
       else Ok []) (\<lambda>d2.
     bind_result (case terminal_mismatch request source of
         None \<Rightarrow> Ok []
       | Some field_path \<Rightarrow>
           bind_result (source_schema_diagnostic env ''MF-S029'' terminal_message logical_path field_path
             location_index) (\<lambda>d. Ok [d])) (\<lambda>d3.
     Ok (d1 @ d2 @ d3))))"

section \<open>Secrets in the source\<close>

text \<open>\<^verbatim>\<open>source.model_dump(mode="python")\<close>, with tuples and floats as JSON values.\<close>

definition source_node_dump :: "harness_node_source \<Rightarrow> json" where
  "source_node_dump n = JObj [(''node_id'', JStr (hnode_id n)), (''tool_ref'', JStr (hnode_tool_ref n)),
     (''required'', JBool (hnode_required n)),
     (''prerequisites'', JArr (map (\<lambda>p. JObj [(''node_id'', JStr (prereq_node_id p)),
        (''argument_matches'', JArr (map match_payload (argument_matches p)))]) (hnode_prerequisites n))),
     (''terminal_result'', json_opt JStr (hnode_terminal_result n)), (''produces'', jstrs (hnode_produces n))]"

definition source_dump :: "harness_source \<Rightarrow> json" where
  "source_dump h = JObj [(''schema_version'', JStr (hs_schema_version h)), (''kind'', JStr (hs_kind h)),
     (''harness_id'', JStr (hs_harness_id h)), (''harness_version'', JInt (hs_harness_version h)),
     (''stage_scope'', JObj [(''stage_kind_ids'', jstrs (scope_stage_kind_ids (hs_stage_scope h)))]),
     (''model_profile_id'', JStr (hs_model_profile_id h)),
     (''prompt'', JObj [(''policy_id'', JStr (prompt_policy_id (hs_prompt h))),
        (''system_instructions'', JStr (prompt_system_instructions (hs_prompt h))),
        (''include_request_context'', JBool (prompt_include_request_context (hs_prompt h)))]),
     (''budgets'', source_budgets_payload (hs_budgets h)),
     (''context'', JObj [(''strategy_id'', JStr (ctx_strategy_id (hs_context h))),
        (''budget_tokens'', JInt (ctx_budget_tokens (hs_context h))),
        (''keep_recent_iterations'', JInt (ctx_keep_recent_iterations (hs_context h))),
        (''phase_thresholds'', JArr (map (\<lambda>t. JFloat (Finite t)) (ctx_phase_thresholds (hs_context h))))]),
     (''graph'', JObj [(''nodes'', JArr (map source_node_dump (graph_nodes (hs_graph h))))]),
     (''artifacts'', JObj [(''declared_artifact_ids'', jstrs (declared_artifact_ids (hs_artifacts h))),
        (''required_by_terminal'', JArr (map (\<lambda>item. JObj [
            (''terminal_result'', JStr (tap_terminal_result item)), (''artifact_ids'', jstrs (tap_artifact_ids item))])
          (required_by_terminal (hs_artifacts h))))])]"

text \<open>\<^verbatim>\<open>_source_scalar_strings\<close>: the strings of a value with their pointers and nearest field names.\<close>

fun source_scalar_strings :: "string \<Rightarrow> string \<Rightarrow> json \<Rightarrow> (string \<times> string \<times> string) list"
  and scalar_items :: "string \<Rightarrow> string \<Rightarrow> nat \<Rightarrow> json list \<Rightarrow> (string \<times> string \<times> string) list"
  and scalar_members :: "string \<Rightarrow> (string \<times> json) list \<Rightarrow> (string \<times> string \<times> string) list" where
  "source_scalar_strings path name (JStr s) = [(path, name, s)]"
| "source_scalar_strings path name (JObj kvs) = scalar_members path kvs"
| "source_scalar_strings path name (JArr xs) = scalar_items path name 0 xs"
| "source_scalar_strings path name _ = []"
| "scalar_items path name i [] = []"
| "scalar_items path name i (x # xs) =
     source_scalar_strings (join_pointer path (show_nat i)) name x @ scalar_items path name (Suc i) xs"
| "scalar_members path [] = []"
| "scalar_members path ((k, v) # kvs) =
     source_scalar_strings (join_pointer path k) k v @ scalar_members path kvs"

definition secret_scalars :: "redaction_env \<Rightarrow> harness_source \<Rightarrow> (string \<times> string \<times> string) list" where
  "secret_scalars env source =
     filter (\<lambda>(path, name, value). detect_secret_candidate env path name value)
       (source_scalar_strings ''/'' '''' (source_dump source))"

definition secret_scalar_diagnostics ::
  "redaction_env \<Rightarrow> harness_source \<Rightarrow> string \<Rightarrow> source_ref list \<Rightarrow> diagnostic list result" where
  "secret_scalar_diagnostics env source logical_path location_index =
     traverse (\<lambda>(path, name, value). source_schema_diagnostic env ''MF-S026''
       ''Source scalar resembles a secret and must be removed.'' logical_path path location_index)
       (secret_scalars env source)"

definition post_parse_source_diagnostics ::
  "redaction_env \<Rightarrow> harness_compile_request \<Rightarrow> parsed_harness_source \<Rightarrow> diagnostic list result" where
  "post_parse_source_diagnostics env request parsed =
     (case ps_source parsed of
        None \<Rightarrow> Ok []
      | Some source \<Rightarrow>
          bind_result (cross_field_diagnostics env request source (req_source_path request)
            (ps_location_index parsed)) (\<lambda>d1.
          bind_result (secret_scalar_diagnostics env source (req_source_path request)
            (ps_location_index parsed)) (\<lambda>d2.
          bound_diagnostics env (d1 @ d2))))"


section \<open>The phases\<close>

text \<open>The service's \<^verbatim>\<open>_diagnostic\<close>, and the failed results it builds.\<close>

definition service_diagnostic ::
  "redaction_env \<Rightarrow> string \<Rightarrow> compiler_phase \<Rightarrow> string \<Rightarrow> (string \<times> field_value) list \<Rightarrow> diagnostic result" where
  "service_diagnostic env code phase message flds = error_diagnostic env phase code message None [] flds"

definition failed_result ::
  "redaction_env \<Rightarrow> harness_compile_request \<Rightarrow> compiler_phase \<Rightarrow> diagnostic list \<Rightarrow> string option \<Rightarrow> string option \<Rightarrow>
   string option \<Rightarrow> harness_compile_result result" where
  "failed_result env request phase ds document_sha256 semantic_sha256 harness_id =
     bind_result (bound_diagnostics env ds) (\<lambda>bounded.
     check_compile_result env
       \<lparr>hcr_request_id = req_request_id request, hcr_status = FAILED, hcr_plan_commit_certainty = PLAN_ABSENT,
        hcr_diagnostic_report_state = REPORT_ABSENT, hcr_failure_phase = Some phase,
        hcr_source_document_sha256 = document_sha256, hcr_source_sha256 = semantic_sha256,
        hcr_request_identity_sha256 = None, hcr_harness_id = harness_id, hcr_compiled_plan_path = None,
        hcr_compiled_sha256 = None, hcr_diagnostics_path = None, hcr_diagnostics = bounded\<rparr>)"

definition failure_phase :: "diagnostic list \<Rightarrow> compiler_phase" where
  "failure_phase ds = (case ds of [] \<Rightarrow> INTERNAL | d # _ \<Rightarrow> diag_phase d)"

definition compiled_hash_diagnostic ::
  "redaction_env \<Rightarrow> int option \<Rightarrow> string option \<Rightarrow> string option \<Rightarrow> diagnostic result" where
  "compiled_hash_diagnostic env warning_count computed_hash error_type =
     service_diagnostic env ''MF-L004'' LOWERING ''Compiled plan canonical hash verification failed.''
       ((case warning_count of None \<Rightarrow> [] | Some c \<Rightarrow> [(''warning_count'', FInt c)])
        @ (case computed_hash of None \<Rightarrow> [] | Some h \<Rightarrow> [(''computed_hash'', FStr h)])
        @ (case error_type of None \<Rightarrow> [] | Some t \<Rightarrow> [(''error_type'', FStr t)]))"

text \<open>\<^verbatim>\<open>_compiled_hash_failure\<close>: the diagnostic, when the plan does not verify.\<close>

definition compiled_hash_failure :: "redaction_env \<Rightarrow> plan_env \<Rightarrow> compiled_harness_plan \<Rightarrow> diagnostic option result" where
  "compiled_hash_failure env penv plan =
     (case bind_result (canonical_json_serialize (float_text penv) (plan_json plan)) (\<lambda>raw.
           bind_result (calculate_compiled_plan_sha256 penv (plan_members plan)) (\<lambda>computed. Ok (raw, computed))) of
        Inl e \<Rightarrow> bind_result (compiled_hash_diagnostic env None None (Some (error_type_name e))) (\<lambda>d. Ok (Some d))
      | Inr (raw, computed) \<Rightarrow>
          if computed \<noteq> plan_compiled_sha256 plan
          then bind_result (compiled_hash_diagnostic env None (Some computed) None) (\<lambda>d. Ok (Some d))
          else (case verify_compiled_plan_sha256 penv raw (Some (plan_compiled_sha256 plan))
                  (Some (plan_harness_id plan)) (Some (plan_harness_version plan)) of
            (verified, verified_computed, warnings, restored) \<Rightarrow>
              if verified \<and> verified_computed = plan_compiled_sha256 plan then Ok None
              else bind_result (compiled_hash_diagnostic env (Some (int (length warnings)))
                     (Some (if verified_computed \<noteq> [] then verified_computed else computed)) None)
                     (\<lambda>d. Ok (Some d))))"

definition lowering_failed_result ::
  "redaction_env \<Rightarrow> plan_env \<Rightarrow> harness_compile_request \<Rightarrow> string \<Rightarrow> resolved_harness \<Rightarrow> string \<Rightarrow> string \<Rightarrow> string \<Rightarrow>
   harness_compile_result result" where
  "lowering_failed_result env penv request document_sha256 resolved code message error_type =
     bind_result (service_diagnostic env code LOWERING message [(''error_type'', FStr error_type)]) (\<lambda>d.
     failed_result env request LOWERING [d] (Some document_sha256)
       (case source_sha256 penv resolved of Inl _ \<Rightarrow> None | Inr h \<Rightarrow> Some h)
       (Some (hs_harness_id (rh_source resolved))))"

text \<open>\<^verbatim>\<open>_compile_post_parse\<close> after the semantic phase resolved the harness.\<close>

definition compile_lowered ::
  "redaction_env \<Rightarrow> plan_env \<Rightarrow> string \<Rightarrow> harness_compile_request \<Rightarrow> string \<Rightarrow> resolved_harness \<Rightarrow>
   (harness_compile_result + compiled_harness_plan) result" where
  "compile_lowered env penv version request document_sha256 resolved =
     (case lower_resolved_harness penv version resolved of
        Inl (UncaughtError e) \<Rightarrow> Raise e
      | Inl SourceSemanticHashError \<Rightarrow>
          bind_result (service_diagnostic env ''MF-L003'' LOWERING
            ''Source semantic hash calculation failed during lowering.''
            [(''error_type'', FStr ''SourceSemanticHashError'')]) (\<lambda>d.
          bind_result (failed_result env request LOWERING [d] (Some document_sha256) None None) (\<lambda>r. Ok (Inl r)))
      | Inl CompiledPlanValidationError \<Rightarrow>
          bind_result (lowering_failed_result env penv request document_sha256 resolved ''MF-L002''
            ''Compiled plan model validation failed during lowering.'' ''CompiledPlanValidationError'')
            (\<lambda>r. Ok (Inl r))
      | Inl LoweringInvariantError \<Rightarrow>
          bind_result (lowering_failed_result env penv request document_sha256 resolved ''MF-L001''
            ''Lowering invariant failed.'' ''LoweringInvariantError'') (\<lambda>r. Ok (Inl r))
      | Inr plan \<Rightarrow>
          bind_result (compiled_hash_failure env penv plan) (\<lambda>failure.
          case failure of
            None \<Rightarrow> Ok (Inr plan)
          | Some d \<Rightarrow>
              bind_result (failed_result env request LOWERING [d] (Some document_sha256)
                (Some (plan_source_sha256 plan)) (Some (plan_harness_id plan))) (\<lambda>r. Ok (Inl r))))"

definition compile_post_parse ::
  "redaction_env \<Rightarrow> plan_env \<Rightarrow> string \<Rightarrow> harness_compile_request \<Rightarrow> parsed_harness_source \<Rightarrow>
   tool_catalog_snapshot \<Rightarrow> model_profile_catalog_snapshot \<Rightarrow>
   (harness_compile_result + compiled_harness_plan) result" where
  "compile_post_parse env penv version request parsed tool_catalog profile_catalog =
     bind_result (compile_semantic_from_admission env (Inr request) (ps_source parsed) tool_catalog profile_catalog)
       (\<lambda>semantic.
     case scr_frontend_result semantic of
       Some r \<Rightarrow> Ok (Inl r)
     | None \<Rightarrow>
         (case scr_resolved_harness semantic of
            Some resolved \<Rightarrow>
              if scr_diagnostics semantic = []
              then compile_lowered env penv version request (ps_source_document_sha256 parsed) resolved
              else bind_result (failed_result env request (failure_phase (scr_diagnostics semantic))
                     (scr_diagnostics semantic) (Some (ps_source_document_sha256 parsed)) None None) (\<lambda>r. Ok (Inl r))
          | None \<Rightarrow>
              bind_result (if scr_diagnostics semantic \<noteq> [] then Ok (scr_diagnostics semantic)
                else bind_result (service_diagnostic env ''MF-I001'' INTERNAL
                       ''Semantic compilation returned no resolved harness.'' []) (\<lambda>d. Ok [d])) (\<lambda>ds.
              bind_result (failed_result env request (failure_phase (scr_diagnostics semantic)) ds
                (Some (ps_source_document_sha256 parsed)) None None) (\<lambda>r. Ok (Inl r)))))"

section \<open>Compilation in memory\<close>

datatype in_memory_error = InMemoryHarnessCompileError "diagnostic list" | InMemoryOther py_error

text \<open>\<^verbatim>\<open>InMemoryHarnessCompileError(diagnostics)\<close>; its constructor bounds the report and may raise itself.\<close>

definition in_memory_failure :: "redaction_env \<Rightarrow> diagnostic list \<Rightarrow> in_memory_error" where
  "in_memory_failure env ds =
     (case bound_diagnostics env ds of
        Inl e \<Rightarrow> InMemoryOther e
      | Inr bounded \<Rightarrow> InMemoryHarnessCompileError (map (\<lambda>d. d\<lparr>diag_source := None\<rparr>) bounded))"

definition in_memory_request ::
  "string \<Rightarrow> harness_source \<Rightarrow> string \<Rightarrow> string list \<Rightarrow> capability_envelope \<Rightarrow> harness_compile_request" where
  "in_memory_request request_id source stage_kind_id legal_terminal_results envelope =
     \<lparr>req_request_id = request_id, req_source_path = ''in-memory'', req_source_root = ''/'',
      req_source_format = ''json'', req_output_dir = ''in-memory'', req_output_root = ''/'',
      req_expected_harness_id = hs_harness_id source, req_stage_kind_id = stage_kind_id,
      req_legal_terminal_results = legal_terminal_results, req_capability_envelope = envelope\<rparr>"

definition in_memory_parsed :: "harness_source \<Rightarrow> parsed_harness_source" where
  "in_memory_parsed source = \<lparr>ps_source = Some source, ps_source_document_sha256 = placeholder_sha256,
     ps_diagnostics = [], ps_location_index = []\<rparr>"

definition internal_failure :: "redaction_env \<Rightarrow> py_error \<Rightarrow> in_memory_error" where
  "internal_failure env e =
     (case service_diagnostic env ''MF-I001'' INTERNAL ''Compiler service failed internally.''
        [(''error_type'', FStr (error_type_name e))] of
        Inl e' \<Rightarrow> InMemoryOther e'
      | Inr d \<Rightarrow> in_memory_failure env [d])"

definition compile_harness_source_in_memory ::
  "redaction_env \<Rightarrow> plan_env \<Rightarrow> string \<Rightarrow> string \<Rightarrow> harness_source \<Rightarrow> string \<Rightarrow> string list \<Rightarrow> capability_envelope \<Rightarrow>
   tool_catalog_snapshot \<Rightarrow> model_profile_catalog_snapshot \<Rightarrow> in_memory_error + compiled_harness_plan" where
  "compile_harness_source_in_memory env penv version request_id source stage_kind_id legal_terminal_results envelope
       tool_catalog profile_catalog =
     bind_result (failing InMemoryOther (check_compile_request
       (in_memory_request request_id source stage_kind_id legal_terminal_results envelope))) (\<lambda>request.
     bind_result (failing InMemoryOther (post_parse_source_diagnostics env request (in_memory_parsed source))) (\<lambda>ds.
     if ds \<noteq> [] then Inl (in_memory_failure env ds)
     else case compile_post_parse env penv version request (in_memory_parsed source) tool_catalog profile_catalog of
       Inl e \<Rightarrow> Inl (internal_failure env e)
     | Inr (Inl r) \<Rightarrow> Inl (in_memory_failure env (hcr_diagnostics r))
     | Inr (Inr plan) \<Rightarrow> Inr plan))"


section \<open>What the checks accept\<close>

lemma terminal_paths_keys:
  "case terminal_paths i paths ns of
      Inl p \<Rightarrow> \<not> (distinct (node_results ns) \<and> set (node_results ns) \<inter> fst ` set paths = {})
    | Inr paths' \<Rightarrow> distinct (node_results ns) \<and> set (node_results ns) \<inter> fst ` set paths = {}
        \<and> fst ` set paths' = set (node_results ns) \<union> fst ` set paths"
proof (induction i paths ns rule: terminal_paths.induct)
  case (2 i paths n ns)
  show ?case
  proof (cases "hnode_terminal_result n")
    case None
    then show ?thesis using 2(1) by (simp split: sum.splits)
  next
    case (Some t)
    show ?thesis
    proof (cases "map_of paths t")
      case None
      then have "t \<notin> fst ` set paths" by (simp add: map_of_eq_None_iff)
      then show ?thesis
        using 2(2) [OF Some refl] None Some by (auto split: sum.splits)
    next
      case (Some p)
      then have "t \<in> fst ` set paths" by (force dest: map_of_SomeD)
      then show ?thesis using Some \<open>hnode_terminal_result n = Some t\<close> by auto
    qed
  qed
qed simp

lemma find_None_all: "find P xs = None \<longleftrightarrow> (\<forall>x \<in> set xs. \<not> P x)"
  by (auto simp: find_None_iff)

lemma terminal_mismatch_None:
  "terminal_mismatch request source = None \<longleftrightarrow>
     distinct (node_results (graph_nodes (hs_graph source))) \<and> set (node_results (graph_nodes (hs_graph source))) = set (req_legal_terminal_results request)
     \<and> (\<forall>p \<in> set (required_by_terminal (hs_artifacts source)). tap_terminal_result p \<in> set (node_results (graph_nodes (hs_graph source))))"
proof (cases "terminal_paths 0 [] (graph_nodes (hs_graph source))")
  case (Inl p)
  then show ?thesis
    using terminal_paths_keys [where i = 0 and paths = "[]" and ns = "graph_nodes (hs_graph source)"]
    by (simp add: terminal_mismatch_def)
next
  case (Inr paths)
  then have keys: "distinct (node_results (graph_nodes (hs_graph source)))" "fst ` set paths = set (node_results (graph_nodes (hs_graph source)))"
    using terminal_paths_keys [where i = 0 and paths = "[]" and ns = "graph_nodes (hs_graph source)"] by simp_all
  have look: "map_of paths t = None \<longleftrightarrow> t \<notin> set (node_results (graph_nodes (hs_graph source)))" for t
    by (simp add: map_of_eq_None_iff keys(2))
  let ?requested = "req_legal_terminal_results request" and ?policies = "required_by_terminal (hs_artifacts source)"
    and ?results = "node_results (graph_nodes (hs_graph source))"
  have "terminal_mismatch request source = None \<longleftrightarrow> find (\<lambda>t. t \<notin> set ?requested) ?results = None
      \<and> find (\<lambda>i. map_of paths (tap_terminal_result (?policies ! i)) = None) [0..<length ?policies] = None
      \<and> find (\<lambda>t. map_of paths t = None) ?requested = None"
    unfolding terminal_mismatch_def Inr sum.case Let_def by (simp split: option.split)
  also have "\<dots> \<longleftrightarrow> set ?results = set ?requested \<and> (\<forall>p \<in> set ?policies. tap_terminal_result p \<in> set ?results)"
    unfolding find_None_all look by (auto simp: all_set_conv_all_nth [of ?policies])
  finally show ?thesis using keys(1) by blast
qed

lemma post_parse_Nil:
  assumes "post_parse_source_diagnostics env request parsed = Inr ds" and "ps_source parsed = Some source"
  shows "ds = [] \<longleftrightarrow> hs_harness_id source = req_expected_harness_id request
    \<and> req_stage_kind_id request \<in> set (scope_stage_kind_ids (hs_stage_scope source))
    \<and> terminal_mismatch request source = None \<and> secret_scalars env source = []"
proof -
  obtain d1 d2 where d1: "cross_field_diagnostics env request source (req_source_path request)
      (ps_location_index parsed) = Inr d1" and d2: "secret_scalar_diagnostics env source (req_source_path request)
      (ps_location_index parsed) = Inr d2" and b: "bound_diagnostics env (d1 @ d2) = Inr ds"
    using assms by (auto simp: post_parse_source_diagnostics_def bind_result_Inr)
  have "d1 = [] \<longleftrightarrow> hs_harness_id source = req_expected_harness_id request
    \<and> req_stage_kind_id request \<in> set (scope_stage_kind_ids (hs_stage_scope source))
    \<and> terminal_mismatch request source = None"
    using d1 unfolding cross_field_diagnostics_def bind_result_Inr
    by (auto simp: bind_result_Inr split: option.splits if_splits)
  moreover have "d2 = [] \<longleftrightarrow> secret_scalars env source = []"
    using traverse_length [OF d2 [unfolded secret_scalar_diagnostics_def]] by auto
  ultimately show ?thesis using bound_diagnostics_Nil [OF b] by simp
qed

lemma node_results_eq: "node_results ns = map (\<lambda>n. the (hnode_terminal_result n)) (filter is_terminal_node ns)"
  by (induction ns) (auto simp: is_terminal_node_def)

lemma sound_terminals:
  assumes "harness_sound env request source ts ps"
  shows "terminal_mismatch request source = None"
proof -
  let ?nodes = "graph_nodes (hs_graph source)"
  have results: "terminals_sound ?nodes (Some (req_legal_terminal_results request))"
    and art: "artifacts_sound ?nodes (node_entries ts source) (declared_artifact_ids (hs_artifacts source))
      (required_by_terminal (hs_artifacts source))"
    using assms by (auto simp: harness_sound_def Let_def)
  have "t \<in> set (node_results ?nodes)" if "n \<in> set ?nodes" "hnode_terminal_result n = Some t" for n t
    using that by (force simp: node_results_eq is_terminal_node_def)
  then have "\<forall>p \<in> set (required_by_terminal (hs_artifacts source)). tap_terminal_result p \<in> set (node_results ?nodes)"
    using art unfolding artifacts_sound_def by blast
  then show ?thesis
    using results by (simp add: terminal_mismatch_None terminals_sound_def Let_def node_results_eq)
qed


text \<open>The codec is ready for what a resolved harness lowers to: the plan \<open>q\<close> in the end.\<close>

definition codec_ready :: "plan_env \<Rightarrow> string \<Rightarrow> resolved_harness \<Rightarrow> compiled_harness_plan \<Rightarrow> bool" where
  "codec_ready penv version resolved q \<longleftrightarrow>
     (\<exists>h. source_sha256 penv resolved = Inr h \<and> SHA256_RE h
        \<and> codec_faithful penv (lowered_plan version h resolved) q)"

definition catalog_admitted :: "tool_catalog_snapshot \<Rightarrow> harness_source \<Rightarrow> bool" where
  "catalog_admitted ts source \<longleftrightarrow>
     (\<forall>n \<in> set (graph_nodes (hs_graph source)). \<forall>e. node_entry ts n = Some e \<longrightarrow> admitted_entry e)"

lemma sound_entries_admitted:
  "harness_sound env request source ts ps \<Longrightarrow> catalog_admitted ts source \<Longrightarrow> entries_admitted ts source"
  by (auto simp: harness_sound_def bindings_sound_def catalog_admitted_def entries_admitted_def Let_def)

lemma faithful_verifies:
  assumes "codec_faithful penv p q" and "is_ok (check_plan_fields p)" and "plan_sound p"
  shows "compiled_hash_failure env penv q = Inr None"
proof -
  obtain content out where c:
    "canonical_json_serialize (float_text penv) (JObj (without_digest (plan_members p))) = Inr content"
    "SHA256_RE (sha256_hex penv content)" "q = p\<lparr>plan_compiled_sha256 := sha256_hex penv content\<rparr>"
    "json_roundtrip penv q" "canonical_json_serialize (float_text penv) (plan_json q) = Inr out"
    using assms(1) by (auto simp: codec_faithful_def)
  show ?thesis
    using finalize_valid(2,3) [OF assms(2,3) c] c(5) by (simp add: compiled_hash_failure_def)
qed

lemma compile_lowered_Inr:
  assumes sound: "harness_sound env request source ts ps" and valid: "valid_source source"
    and admitted: "catalog_admitted ts source" and version: "nonblank version"
    and ready: "codec_ready penv version (resolution request source ts ps evidence) q"
  shows "compile_lowered env penv version request sha (resolution request source ts ps evidence) = Inr (Inr plan)
    \<longleftrightarrow> tool_artifacts_declared ts source \<and> plan = q"
proof -
  let ?r = "resolution request source ts ps evidence"
  obtain h where h: "source_sha256 penv ?r = Inr h" "SHA256_RE h" "codec_faithful penv (lowered_plan version h ?r) q"
    using ready by (auto simp: codec_ready_def)
  note entries = sound_entries_admitted [OF sound admitted]
  note out = lower_outcome [OF sound valid entries version h(1,2)]
  show ?thesis
  proof (cases "tool_artifacts_declared ts source")
    case True
    have ok: "is_ok (check_plan_fields (lowered_plan version h ?r))" "plan_sound (lowered_plan version h ?r)"
      using sound_plan_fields [OF sound valid entries version h(2)] sound_plan_invariants [OF sound valid] True by blast+
    have "lower_resolved_harness penv version ?r = Inr q"
      using out True finalize_faithful [OF h(3) ok] by (simp add: finalize_lowered_def failing_def)
    then show ?thesis
      using True faithful_verifies [OF h(3) ok, of env] by (auto simp: compile_lowered_def)
  next
    case False
    then show ?thesis using out by (auto simp: compile_lowered_def bind_result_Inr)
  qed
qed

lemma compile_resolved_frontend:
  "compile_resolved env request source ts ps refs tm mm = Inr r \<Longrightarrow> scr_frontend_result r = None"
  unfolding compile_resolved_def
  by (auto elim!: bind_resultE simp: Let_def split: if_splits option.splits prod.splits)

lemma compile_semantic_frontend:
  "compile_semantic env request source ts ps = Inr r \<Longrightarrow> scr_frontend_result r = None"
  unfolding compile_semantic_def
  by (auto elim!: bind_resultE simp: semantic_failure_def split: if_splits sum.splits prod.splits)
    (rule compile_resolved_frontend)

lemma compile_post_parse_Inr:
  assumes valid: "valid_source source" and admitted: "catalog_admitted ts source" and version: "nonblank version"
    and source: "ps_source parsed = Some source"
    and run: "compile_semantic env request source ts ps = Inr semantic"
    and ready: "\<And>resolved. scr_resolved_harness semantic = Some resolved \<Longrightarrow> codec_ready penv version resolved q"
  shows "compile_post_parse env penv version request parsed ts ps = Inr (Inr plan)
    \<longleftrightarrow> harness_sound env request source ts ps \<and> tool_artifacts_declared ts source \<and> plan = q"
proof -
  note wf = valid_source_graph [OF valid]
  have front: "scr_frontend_result semantic = None"
    by (rule compile_semantic_frontend [OF run])
  have semantic: "compile_semantic_from_admission env (Inr request) (ps_source parsed) ts ps = Inr semantic"
    by (simp add: compile_semantic_from_admission_def source run)
  show ?thesis
  proof (cases "scr_ok semantic")
    case True
    then obtain evidence where r: "scr_resolved_harness semantic = Some (resolution request source ts ps evidence)"
      and sound: "harness_sound env request source ts ps"
      using semantic_outcome [OF wf run] by blast
    show ?thesis
      using compile_lowered_Inr [OF sound valid admitted version ready [OF r]] True sound r
      by (simp add: compile_post_parse_def semantic front scr_ok_def)
  next
    case False
    then have "\<not> harness_sound env request source ts ps" using semantic_outcome(1) [OF wf run] by simp
    moreover have "compile_post_parse env penv version request parsed ts ps \<noteq> Inr (Inr plan)"
      using False by (auto simp: compile_post_parse_def semantic front scr_ok_def bind_result_Inr
          split: option.splits if_splits)
    ultimately show ?thesis by simp
  qed
qed

text \<open>
  C32: in-memory compilation is exact. For a valid source and request, a catalog of admitted
  entries and a codec that decodes what it encodes, when neither the source checks nor the
  semantic phase raise, a plan comes back exactly when the stage is in the scope of the source, no
  scalar of it looks like a secret, the harness has a meaning for the request, and every artifact
  its tools produce is declared; and then it is the lowered plan with its digest. When the source
  checks report anything, compilation raises with their diagnostics and goes no further.
\<close>

theorem compile_in_memory_exact:
  assumes "valid_source source" and "catalog_admitted ts source" and "nonblank version"
    and "request = in_memory_request request_id source stage legal envelope"
    and "check_compile_request request = Inr request"
    and "post_parse_source_diagnostics env request (in_memory_parsed source) = Inr ds"
    and "compile_semantic env request source ts ps = Inr semantic"
    and "\<And>resolved. scr_resolved_harness semantic = Some resolved \<Longrightarrow> codec_ready penv version resolved q"
  shows "(compile_harness_source_in_memory env penv version request_id source stage legal envelope ts ps = Inr plan
      \<longleftrightarrow> stage \<in> set (scope_stage_kind_ids (hs_stage_scope source)) \<and> secret_scalars env source = []
        \<and> harness_sound env request source ts ps \<and> tool_artifacts_declared ts source \<and> plan = q)
    \<and> (ds \<noteq> [] \<longrightarrow> compile_harness_source_in_memory env penv version request_id source stage legal envelope ts ps
        = Inl (in_memory_failure env ds))"
proof -
  have parsed: "ps_source (in_memory_parsed source) = Some source" by (simp add: in_memory_parsed_def)
  have request: "req_expected_harness_id request = hs_harness_id source" "req_stage_kind_id request = stage"
    by (simp_all add: assms(4) in_memory_request_def)
  note nil = post_parse_Nil [OF assms(6) parsed, unfolded request]
  note exact = compile_post_parse_Inr [OF assms(1-3) parsed assms(7,8), of plan]
  have "compile_harness_source_in_memory env penv version request_id source stage legal envelope ts ps = Inr plan
      \<longleftrightarrow> ds = [] \<and> compile_post_parse env penv version request (in_memory_parsed source) ts ps = Inr (Inr plan)"
    by (auto simp: compile_harness_source_in_memory_def assms(4) [symmetric] assms(5,6) failing_def
        split: sum.splits)
  moreover have "ds \<noteq> [] \<Longrightarrow> compile_harness_source_in_memory env penv version request_id source stage legal envelope ts ps
      = Inl (in_memory_failure env ds)"
    by (simp add: compile_harness_source_in_memory_def assms(4) [symmetric] assms(5,6) failing_def)
  ultimately show ?thesis using nil exact sound_terminals by blast
qed


section \<open>The sample harness, compiled\<close>

lemma sample_request_admitted: "check_compile_request sample_request = Inr sample_request"
proof -
  have "validate_request_id ''req.one'' = Inr ''req.one''" "validate_harness_id ''demo.edit'' = Inr ''demo.edit''"
    "validate_stage_kind_id ''builder'' = Inr ''builder''" "validate_terminal_result ''DONE'' = Inr ''DONE''"
    "nonblank ''in-memory''" "nonblank ''fs.read''" "nonblank ''fs.write''"
    by code_simp+
  then show ?thesis
    by (simp add: check_compile_request_def sample_request_def relative_path_size_valid_def absolute_root_size_valid_def
        validate_utf8_size_def require_nonempty_def require_at_most_def validate_unique_def
        check_capability_envelope_def validate_nonblank_def)
qed

lemma sample_request_in_memory:
  "sample_request = in_memory_request ''req.one'' sample_source ''builder'' [''DONE'']
     \<lparr>env_grants = [''fs.read'', ''fs.write'']\<rparr>"
  by (simp add: sample_request_def in_memory_request_def) (simp add: sample_source_def)

lemma sample_no_secrets: "secret_scalars plain_env sample_source = []"
  by code_simp

lemma sample_source_checks:
  "post_parse_source_diagnostics plain_env sample_request (in_memory_parsed sample_source) = Inr []"
proof -
  have "hs_harness_id sample_source = req_expected_harness_id sample_request"
    "req_stage_kind_id sample_request \<in> set (scope_stage_kind_ids (hs_stage_scope sample_source))"
    by (simp_all add: sample_source_def sample_request_def)
  moreover have "bound_diagnostics plain_env [] = Inr []"
    by (simp add: bound_diagnostics_def sort_diagnostics_def diagnostic_report_size_bytes_def json_dumps_def
        MAX_DIAGNOSTIC_REPORT_BYTES_def MAX_DIAGNOSTICS_PER_REPORT_def)
  ultimately show ?thesis
    using sound_terminals [OF sample_sound]
    by (simp add: post_parse_source_diagnostics_def in_memory_parsed_def cross_field_diagnostics_def
        secret_scalar_diagnostics_def sample_no_secrets)
qed

theorem compile_in_memory_exact_witness:
  "compile_harness_source_in_memory plain_env (one_plan_env sample_finalized) ''1.0.0'' ''req.one'' sample_source
     ''builder'' [''DONE''] \<lparr>env_grants = [''fs.read'', ''fs.write'']\<rparr> sample_tools sample_profiles
   = Inr sample_finalized"
proof -
  obtain r where r: "compile_semantic plain_env sample_request sample_source sample_tools sample_profiles = Inr r"
    "scr_resolved_harness r = Some sample_resolution"
    using sample_compiles by blast
  have ready: "codec_ready (one_plan_env sample_finalized) ''1.0.0'' resolved sample_finalized"
    if "scr_resolved_harness r = Some resolved" for resolved
    using that r(2) sample_payload_hash sample_digest_hex sample_codec
    unfolding codec_ready_def sample_lowered_def by auto
  have "catalog_admitted sample_tools sample_source"
    using sample_entries_admitted by (auto simp: catalog_admitted_def entries_admitted_def sample_node_entries)
  moreover have "nonblank ''1.0.0''" by code_simp
  moreover have "''builder'' \<in> set (scope_stage_kind_ids (hs_stage_scope sample_source))"
    by (simp add: sample_source_def)
  ultimately show ?thesis
    using compile_in_memory_exact [OF sample_source_valid _ _ sample_request_in_memory sample_request_admitted
        sample_source_checks r(1) ready, of sample_finalized]
      sample_no_secrets sample_sound sample_artifacts_declared
    by simp
qed

end
