(* ===== verification/Trace.thy ===== *)
theory Trace
  imports Compiled_Plan
begin

text \<open>
  The records a guarded session leaves behind, the second half of \<^verbatim>\<open>compiled_plan.py\<close>: session
  events and tool traces, with the checks their construction makes. Closed sets of strings
  (\<^verbatim>\<open>Literal\<close>) that the runtime only passes on are strings; durations and monotonic offsets are
  finite, so they are rationals. Pydantic reports every failed check of an object at once, as one
  \<^verbatim>\<open>ValueError\<close>; the first of them stands for it.
\<close>

section \<open>Closed values\<close>

datatype trace_decision = ALLOWED | DENIED

datatype tool_execution_status =
  NOT_EXECUTED | SUCCESS | SOFT_FAILURE | HARD_FAILURE | STATUS_CANCELLED | STATUS_TIMED_OUT | AMBIGUOUS

datatype side_effect_certainty =
  NOT_ATTEMPTED | CONFIRMED_ABSENT | CONFIRMED_COMPLETE | ROLLED_BACK | COMPLETION_UNKNOWN

datatype session_event_type =
    RUNTIME_RECEIVED | RUNTIME_VERIFIED | BACKEND_CONSTRUCTED | BINDING_REJECTED | COMPILED_HARNESS_INVALID
  | BACKEND_FAILED | SESSION_STARTED | WORKFLOW_CONSTRUCTED | MODEL_REQUEST_STARTED | MODEL_REQUEST_COMPLETED
  | MODEL_REQUEST_FAILED | CORRECTION_ISSUED | PREMATURE_TERMINAL_REJECTED | PREREQUISITE_REJECTED
  | TOOL_STARTED | TOOL_COMPLETED | TOOL_FAILED | CONTEXT_COMPACTED | TERMINAL_INTENT_ACCEPTED
  | TERMINAL_INTENT_REJECTED | FINALIZATION_STARTED | FINALIZATION_COMPLETED | FINALIZATION_FAILED
  | BUDGET_EXHAUSTED | EVENT_TIMED_OUT | EVENT_CANCELLED | INTERNAL_FAILED

datatype plane = EXECUTION | PLANNING | LEARNING

text \<open>
  \<^verbatim>\<open>ToolTraceSideEffectClass\<close> and \<^verbatim>\<open>ToolTraceIdempotency\<close> have the values of the classes they copy,
  so a trace uses \<open>side_effect_class\<close> and \<open>idempotency_class\<close> themselves.
\<close>

record stage_identity =
  stage_plane :: plane
  stage_node_id :: string
  stage_kind_id :: string

definition check_stage_identity :: "stage_identity \<Rightarrow> stage_identity result" where
  "check_stage_identity s =
     bind_result (nonblank_field (stage_node_id s) ''node_id'') (\<lambda>_.
     bind_result (nonblank_field (stage_kind_id s) ''stage_kind_id'') (\<lambda>_. Ok s))"

section \<open>Session events\<close>

record event_field =
  evf_key :: string
  evf_value :: json

definition check_event_field :: "event_field \<Rightarrow> event_field result" where
  "check_event_field f = bind_result (nonblank_field (evf_key f) ''key'') (\<lambda>_. Ok f)"

record session_event =
  evt_sequence :: int
  evt_occurred_at :: string
  evt_monotonic_offset_ms :: rat
  evt_type :: session_event_type
  evt_request_id :: string
  evt_run_id :: string
  evt_session_id :: string
  evt_stage :: stage_identity
  evt_node_id :: "string option"
  evt_model_turn :: "int option"
  evt_tool_call_id :: "string option"
  evt_code :: "string option"
  evt_fields :: "event_field list"

definition require :: "bool \<Rightarrow> string \<Rightarrow> unit result" where
  "require b message = ensure b (ValueError message)"

definition optional_nonblank :: "string option \<Rightarrow> string \<Rightarrow> unit result" where
  "optional_nonblank v field_name =
     (case v of None \<Rightarrow> Ok () | Some s \<Rightarrow> require (nonblank s) (field_name @ '' must be a non-empty string''))"

definition optional_sha256 :: "string option \<Rightarrow> string \<Rightarrow> unit result" where
  "optional_sha256 v field_name =
     (case v of None \<Rightarrow> Ok ()
      | Some s \<Rightarrow> require (SHA256_RE s) (field_name @ '' must be exactly 64 lowercase hex characters''))"

definition check_session_event :: "session_event \<Rightarrow> session_event result" where
  "check_session_event e =
     bind_result (require (0 < evt_sequence e) ''sequence must be greater than 0'') (\<lambda>_.
     bind_result (nonblank_field (evt_occurred_at e) ''occurred_at'') (\<lambda>_.
     bind_result (require (0 \<le> evt_monotonic_offset_ms e) ''monotonic_offset_ms must not be negative'') (\<lambda>_.
     bind_result (nonblank_field (evt_request_id e) ''request_id'') (\<lambda>_.
     bind_result (nonblank_field (evt_run_id e) ''run_id'') (\<lambda>_.
     bind_result (nonblank_field (evt_session_id e) ''session_id'') (\<lambda>_.
     bind_result (check_stage_identity (evt_stage e)) (\<lambda>_.
     bind_result (optional_nonblank (evt_node_id e) ''node_id'') (\<lambda>_.
     bind_result (require (case evt_model_turn e of None \<Rightarrow> True | Some n \<Rightarrow> 0 \<le> n)
       ''model_turn must not be negative'') (\<lambda>_.
     bind_result (optional_nonblank (evt_tool_call_id e) ''tool_call_id'') (\<lambda>_.
     bind_result (optional_nonblank (evt_code e) ''code'') (\<lambda>_.
     bind_result (traverse check_event_field (evt_fields e)) (\<lambda>_.
     bind_result (require (distinct (map evf_key (evt_fields e))) ''diagnostic field keys must be unique'') (\<lambda>_.
     Ok e)))))))))))))"

section \<open>Tool traces\<close>

record decision_record =
  dr_key :: string
  dr_decision :: trace_decision

definition check_decision_record :: "decision_record \<Rightarrow> decision_record result" where
  "check_decision_record d = bind_result (nonblank_field (dr_key d) ''key'') (\<lambda>_. Ok d)"

text \<open>The fields of a trace that describe a call through a connector.\<close>

record connector_trace =
  ct_connector_id :: "string option"
  ct_provider_tool_name :: "string option"
  ct_connector_tool_id :: "string option"
  ct_connector_tool_version :: "int option"
  ct_connector_descriptor_sha256 :: "string option"
  ct_connector_identity_sha256 :: "string option"
  ct_discovery_snapshot_sha256 :: "string option"
  ct_approval_policy :: "string option"
  ct_approval_decision :: "string option"
  ct_approval_evidence :: "(string \<times> json) list"
  ct_broker_attempted :: "bool option"
  ct_request_sha256 :: "string option"
  ct_response_sha256 :: "string option"
  ct_retry_decision :: "string option"
  ct_drift_decision :: "string option"
  ct_redacted_evidence :: "(string \<times> json) list"

definition no_connector :: connector_trace where
  "no_connector = \<lparr>ct_connector_id = None, ct_provider_tool_name = None, ct_connector_tool_id = None,
     ct_connector_tool_version = None, ct_connector_descriptor_sha256 = None, ct_connector_identity_sha256 = None,
     ct_discovery_snapshot_sha256 = None, ct_approval_policy = None, ct_approval_decision = None,
     ct_approval_evidence = [], ct_broker_attempted = None, ct_request_sha256 = None, ct_response_sha256 = None,
     ct_retry_decision = None, ct_drift_decision = None, ct_redacted_evidence = []\<rparr>"

record tool_trace_record =
  tr_sequence :: int
  tr_occurred_at :: string
  tr_monotonic_offset_ms :: rat
  tr_request_id :: string
  tr_run_id :: string
  tr_session_id :: string
  tr_stage :: stage_identity
  tr_node_id :: string
  tr_model_turn :: int
  tr_tool_call_id :: string
  tr_model_tool_name :: string
  tr_binding :: tool_binding_ref
  tr_binding_resolution_status :: string
  tr_connector :: connector_trace
  tr_input_sha256 :: string
  tr_prerequisite_decisions :: "decision_record list"
  tr_capability_decisions :: "decision_record list"
  tr_execution_status :: tool_execution_status
  tr_retryable :: bool
  tr_side_effect_class :: side_effect_class
  tr_idempotency :: idempotency_class
  tr_side_effect_certainty :: side_effect_certainty
  tr_side_effect_detail_code :: "string option"
  tr_side_effect_detail_summary :: "string option"
  tr_side_effect_retry_allowed :: "bool option"
  tr_output_sha256 :: "string option"
  tr_duration_ms :: rat
  tr_summary :: string

text \<open>Whether each of the fields that must be given together is given.\<close>

definition connector_fields :: "connector_trace \<Rightarrow> bool list" where
  "connector_fields c =
     [ct_connector_id c \<noteq> None, ct_provider_tool_name c \<noteq> None, ct_connector_tool_id c \<noteq> None,
      ct_connector_tool_version c \<noteq> None, ct_connector_descriptor_sha256 c \<noteq> None,
      ct_connector_identity_sha256 c \<noteq> None, ct_discovery_snapshot_sha256 c \<noteq> None, ct_approval_policy c \<noteq> None,
      ct_approval_decision c \<noteq> None, ct_broker_attempted c \<noteq> None, ct_request_sha256 c \<noteq> None,
      ct_response_sha256 c \<noteq> None, ct_retry_decision c \<noteq> None, ct_drift_decision c \<noteq> None]"

definition check_connector_fields :: "connector_trace \<Rightarrow> unit result" where
  "check_connector_fields c =
     bind_result (optional_nonblank (ct_connector_id c) ''connector_id'') (\<lambda>_.
     bind_result (optional_nonblank (ct_provider_tool_name c) ''provider_tool_name'') (\<lambda>_.
     bind_result (optional_nonblank (ct_connector_tool_id c) ''connector_tool_id'') (\<lambda>_.
     bind_result (require (case ct_connector_tool_version c of None \<Rightarrow> True | Some v \<Rightarrow> 1 \<le> v)
       ''connector_tool_version must be at least 1'') (\<lambda>_.
     bind_result (optional_sha256 (ct_connector_descriptor_sha256 c) ''connector_descriptor_sha256'') (\<lambda>_.
     bind_result (optional_sha256 (ct_connector_identity_sha256 c) ''connector_identity_sha256'') (\<lambda>_.
     bind_result (optional_sha256 (ct_discovery_snapshot_sha256 c) ''discovery_snapshot_sha256'') (\<lambda>_.
     bind_result (optional_nonblank (ct_approval_policy c) ''approval_policy'') (\<lambda>_.
     bind_result (optional_nonblank (ct_approval_decision c) ''approval_decision'') (\<lambda>_.
     bind_result (optional_sha256 (ct_request_sha256 c) ''request_sha256'') (\<lambda>_.
     optional_sha256 (ct_response_sha256 c) ''response_sha256''))))))))))"

definition check_decisions :: "decision_record list \<Rightarrow> string \<Rightarrow> unit result" where
  "check_decisions ds field_name =
     bind_result (traverse check_decision_record ds) (\<lambda>_.
     require (distinct (map dr_key ds)) (field_name @ '' keys must be unique''))"

definition is_denial :: "decision_record \<Rightarrow> bool" where
  "is_denial d \<longleftrightarrow> dr_decision d = DENIED"

definition unsafe_retry :: "side_effect_certainty \<Rightarrow> idempotency_class \<Rightarrow> bool \<Rightarrow> bool" where
  "unsafe_retry certainty idempotency retryable \<longleftrightarrow>
     certainty = COMPLETION_UNKNOWN \<and> idempotency \<in> {NON_IDEMPOTENT, IDEMPOTENCY_UNKNOWN} \<and> retryable"

definition unsafe_retry_message :: string where
  "unsafe_retry_message =
     ''completion_unknown side effects are not retryable for non-idempotent or unknown-idempotency tool work''"

definition trace_consistency :: "tool_trace_record \<Rightarrow> unit result" where
  "trace_consistency t =
     (let c = tr_connector t;
          denied = list_ex is_denial (tr_prerequisite_decisions t @ tr_capability_decisions t);
          details = [tr_side_effect_detail_code t \<noteq> None, tr_side_effect_detail_summary t \<noteq> None,
                     tr_side_effect_retry_allowed t \<noteq> None]
      in bind_result (if list_ex id (connector_fields c)
           then bind_result (require (list_all id (connector_fields c))
                  ''connector approval trace fields must be provided together'') (\<lambda>_.
                bind_result (require (ct_approval_evidence c \<noteq> [])
                  ''connector approval trace requires approval_evidence'') (\<lambda>_.
                require (ct_redacted_evidence c \<noteq> []) ''connector trace requires redacted_evidence''))
           else Ok ()) (\<lambda>_.
         bind_result (require (\<not> (tr_binding_resolution_status t \<noteq> ''resolved'' \<and> tr_execution_status t = SUCCESS))
           ''binding-resolution failures cannot be marked as successful'') (\<lambda>_.
         bind_result (if denied \<or> tr_execution_status t = NOT_EXECUTED
           then bind_result (require (tr_side_effect_certainty t = NOT_ATTEMPTED)
                  ''denied or not_executed calls must use side_effect_certainty=not_attempted'') (\<lambda>_.
                require (tr_output_sha256 t = None) ''denied or not_executed calls must not have output_sha256'')
           else Ok ()) (\<lambda>_.
         bind_result (require (list_ex id details \<longrightarrow> list_all id details)
           ''side-effect detail fields must be provided together'') (\<lambda>_.
         bind_result (require (\<not> unsafe_retry (tr_side_effect_certainty t) (tr_idempotency t) (tr_retryable t))
           unsafe_retry_message) (\<lambda>_.
         require (case tr_side_effect_retry_allowed t of None \<Rightarrow> True | Some b \<Rightarrow> b = tr_retryable t)
           ''side_effect_retry_allowed must match retryable''))))))"

definition check_tool_trace_record :: "tool_trace_record \<Rightarrow> tool_trace_record result" where
  "check_tool_trace_record t =
     bind_result (require (0 < tr_sequence t) ''sequence must be greater than 0'') (\<lambda>_.
     bind_result (nonblank_field (tr_occurred_at t) ''occurred_at'') (\<lambda>_.
     bind_result (require (0 \<le> tr_monotonic_offset_ms t) ''monotonic_offset_ms must not be negative'') (\<lambda>_.
     bind_result (nonblank_field (tr_request_id t) ''request_id'') (\<lambda>_.
     bind_result (nonblank_field (tr_run_id t) ''run_id'') (\<lambda>_.
     bind_result (nonblank_field (tr_session_id t) ''session_id'') (\<lambda>_.
     bind_result (check_stage_identity (tr_stage t)) (\<lambda>_.
     bind_result (nonblank_field (tr_node_id t) ''node_id'') (\<lambda>_.
     bind_result (require (0 \<le> tr_model_turn t) ''model_turn must not be negative'') (\<lambda>_.
     bind_result (nonblank_field (tr_tool_call_id t) ''tool_call_id'') (\<lambda>_.
     bind_result (nonblank_field (tr_model_tool_name t) ''model_tool_name'') (\<lambda>_.
     bind_result (check_tool_binding (tr_binding t)) (\<lambda>_.
     bind_result (check_connector_fields (tr_connector t)) (\<lambda>_.
     bind_result (sha256_field (tr_input_sha256 t) ''input_sha256'') (\<lambda>_.
     bind_result (check_decisions (tr_prerequisite_decisions t) ''prerequisite_decisions'') (\<lambda>_.
     bind_result (check_decisions (tr_capability_decisions t) ''capability_decisions'') (\<lambda>_.
     bind_result (optional_nonblank (tr_side_effect_detail_code t) ''side_effect_detail_code'') (\<lambda>_.
     bind_result (optional_nonblank (tr_side_effect_detail_summary t) ''side_effect_detail_summary'') (\<lambda>_.
     bind_result (optional_sha256 (tr_output_sha256 t) ''output_sha256'') (\<lambda>_.
     bind_result (require (0 \<le> tr_duration_ms t) ''duration_ms must not be negative'') (\<lambda>_.
     bind_result (nonblank_field (tr_summary t) ''summary'') (\<lambda>_.
     bind_result (trace_consistency t) (\<lambda>_. Ok t))))))))))))))))))))))"

end
