(* ===== verification/Selected_Output.thy ===== *)
theory Selected_Output
  imports Trace
begin

text \<open>
  The selected JSON output of a terminal call, \<^verbatim>\<open>contracts.py\<close>: the closed schema subset and its
  canonical bytes, the global bounds of a payload, the requirement with its pinned digest, and the
  admission of a candidate. \<^verbatim>\<open>json.loads\<close> without its hooks is a parameter (it keeps repeated
  members and non-finite numbers, which the hooks of the program refuse); so are the printing of
  floats and SHA-256. The frozen containers of an admitted value are the value itself.
\<close>

record output_env =
  oe_loads :: "string \<Rightarrow> string + json"
  oe_float :: "rat \<Rightarrow> string"
  oe_sha256 :: "string \<Rightarrow> string"

section \<open>Bounds and keywords\<close>

definition MAX_SELECTED_OUTPUT_SCHEMA_BYTES :: nat where "MAX_SELECTED_OUTPUT_SCHEMA_BYTES = 64 * 1024"
definition MAX_SELECTED_OUTPUT_PAYLOAD_BYTES :: nat where "MAX_SELECTED_OUTPUT_PAYLOAD_BYTES = 1024 * 1024"
definition MAX_SELECTED_OUTPUT_NESTING_DEPTH :: nat where "MAX_SELECTED_OUTPUT_NESTING_DEPTH = 16"
definition MAX_SELECTED_OUTPUT_OBJECT_PROPERTIES :: nat where "MAX_SELECTED_OUTPUT_OBJECT_PROPERTIES = 64"
definition MAX_SELECTED_OUTPUT_ARRAY_ITEMS :: nat where "MAX_SELECTED_OUTPUT_ARRAY_ITEMS = 1024"
definition MAX_SELECTED_OUTPUT_STRING_LENGTH :: nat where "MAX_SELECTED_OUTPUT_STRING_LENGTH = 64 * 1024"

definition SELECTED_OUTPUT_TYPES :: "string list" where
  "SELECTED_OUTPUT_TYPES =
     [''object'', ''array'', ''string'', ''integer'', ''number'', ''boolean'', ''null'']"

definition SELECTED_OUTPUT_SCHEMA_KEYWORDS :: "string \<Rightarrow> string list" where
  "SELECTED_OUTPUT_SCHEMA_KEYWORDS t =
     (if t = ''object'' then [''type'', ''properties'', ''required'', ''additionalProperties'']
      else if t = ''array'' then [''type'', ''items'', ''minItems'', ''maxItems'']
      else if t = ''string'' then [''type'', ''minLength'', ''maxLength'']
      else [''type''])"

definition SELECTED_OUTPUT_VALUE_CONSTRAINTS :: "string list" where
  "SELECTED_OUTPUT_VALUE_CONSTRAINTS = [''const'', ''enum'']"

abbreviation refused :: "string \<Rightarrow> 'a result" where
  "refused m \<equiv> Raise (ValueError m)"

section \<open>Strict parsing\<close>

text \<open>The hooks of the parser: no repeated key, no non-finite number.\<close>

fun strict_json :: "json \<Rightarrow> json result"
  and strict_items :: "json list \<Rightarrow> json list result"
  and strict_members :: "string list \<Rightarrow> (string \<times> json) list \<Rightarrow> (string \<times> json) list result" where
  "strict_json (JFloat f) =
     (case f of Finite q \<Rightarrow> Ok (JFloat f) | _ \<Rightarrow> refused ''selected output JSON contains a non-finite number'')"
| "strict_json (JArr xs) = bind_result (strict_items xs) (\<lambda>ys. Ok (JArr ys))"
| "strict_json (JObj kvs) = bind_result (strict_members [] kvs) (\<lambda>ms. Ok (JObj ms))"
| "strict_json v = Ok v"
| "strict_items [] = Ok []"
| "strict_items (x # xs) = bind_result (strict_json x) (\<lambda>y. bind_result (strict_items xs) (\<lambda>ys. Ok (y # ys)))"
| "strict_members seen [] = Ok []"
| "strict_members seen ((k, v) # kvs) =
     bind_result (strict_json v) (\<lambda>w.
     if k \<in> set seen then refused (''selected output JSON contains duplicate key '' @ py_repr k)
     else bind_result (strict_members (k # seen) kvs) (\<lambda>ms. Ok ((k, w) # ms)))"

definition parse_selected_output_json :: "output_env \<Rightarrow> string \<Rightarrow> string \<Rightarrow> json result" where
  "parse_selected_output_json env raw field_name =
     (case oe_loads env raw of
        Inl e \<Rightarrow> refused (field_name @ '' must be strict JSON: '' @ e)
      | Inr parsed \<Rightarrow>
          (case strict_json parsed of
             Inl e \<Rightarrow> refused (field_name @ '' must be strict JSON: '' @ error_message e)
           | Inr v \<Rightarrow> Ok v))"

text \<open>
  \<^verbatim>\<open>_validate_raw_json_strictness\<close> makes the same two checks on a value that is then thrown away.
\<close>

fun raw_json_strict :: "string \<Rightarrow> json \<Rightarrow> unit result"
  and raw_items_strict :: "string \<Rightarrow> json list \<Rightarrow> unit result"
  and raw_members_strict :: "string \<Rightarrow> string list \<Rightarrow> (string \<times> json) list \<Rightarrow> unit result" where
  "raw_json_strict name (JObj kvs) = raw_members_strict name [] kvs"
| "raw_json_strict name (JArr xs) = raw_items_strict name xs"
| "raw_json_strict name (JFloat f) =
     (case f of Finite q \<Rightarrow> Ok () | _ \<Rightarrow> refused (name @ '' contains a non-finite number''))"
| "raw_json_strict name _ = Ok ()"
| "raw_items_strict name [] = Ok ()"
| "raw_items_strict name (x # xs) = bind_result (raw_json_strict name x) (\<lambda>_. raw_items_strict name xs)"
| "raw_members_strict name seen [] = Ok ()"
| "raw_members_strict name seen ((k, v) # kvs) =
     (if k \<in> set seen then refused (name @ '' contains duplicate key '' @ py_repr k)
      else bind_result (raw_json_strict name v) (\<lambda>_. raw_members_strict name (k # seen) kvs))"

definition validate_harness_request_raw_json :: "output_env \<Rightarrow> string \<Rightarrow> unit result" where
  "validate_harness_request_raw_json env raw =
     (case oe_loads env raw of Inl _ \<Rightarrow> Ok () | Inr parsed \<Rightarrow> raw_json_strict ''request JSON'' parsed)"

section \<open>Normalising a schema\<close>

definition bound_value :: "(string \<times> json) list \<Rightarrow> string \<Rightarrow> int \<Rightarrow> int option" where
  "bound_value schema key default_value =
     (case map_of schema key of None \<Rightarrow> Some default_value | Some (JInt i) \<Rightarrow> Some i | Some _ \<Rightarrow> None)"

definition validate_selected_output_bound ::
  "(string \<times> json) list \<Rightarrow> string \<Rightarrow> string \<Rightarrow> int \<Rightarrow> unit result" where
  "validate_selected_output_bound schema minimum_key maximum_key global_maximum =
     (case (bound_value schema minimum_key 0, bound_value schema maximum_key global_maximum) of
        (Some minimum, Some maximum) \<Rightarrow>
          if minimum < 0 \<or> maximum < 0
          then refused (minimum_key @ '' and '' @ maximum_key @ '' must be non-negative'')
          else if maximum < minimum then refused (minimum_key @ '' must not exceed '' @ maximum_key)
          else require (maximum \<le> global_maximum) (maximum_key @ '' exceeds the selected output global ceiling'')
      | _ \<Rightarrow> refused (minimum_key @ '' and '' @ maximum_key @ '' must be integers''))"

definition normalize_selected_output_scalar :: "json \<Rightarrow> string \<Rightarrow> json result" where
  "normalize_selected_output_scalar value field_name =
     (case value of
        JNull \<Rightarrow> Ok value
      | JBool _ \<Rightarrow> Ok value
      | JInt _ \<Rightarrow> Ok value
      | JFloat (Finite _) \<Rightarrow> Ok value
      | JFloat _ \<Rightarrow> refused (field_name @ '' contains a non-finite number'')
      | JStr s \<Rightarrow> if MAX_SELECTED_OUTPUT_STRING_LENGTH < length s
          then refused (field_name @ '' string exceeds the string ceiling'') else Ok value
      | _ \<Rightarrow> refused (field_name @ '' must contain strict JSON scalar values''))"

definition selected_output_scalar_matches_type :: "json \<Rightarrow> string \<Rightarrow> bool" where
  "selected_output_scalar_matches_type value t =
     (case value of
        JStr _ \<Rightarrow> t = ''string''
      | JInt _ \<Rightarrow> t \<in> {''integer'', ''number''}
      | JFloat _ \<Rightarrow> t = ''number''
      | JBool _ \<Rightarrow> t = ''boolean''
      | JNull \<Rightarrow> t = ''null''
      | _ \<Rightarrow> False)"

definition selected_scalar_bytes :: "output_env \<Rightarrow> json \<Rightarrow> string result" where
  "selected_scalar_bytes env value = canonical_json_serialize (oe_float env) value"

definition type_fits :: "json \<Rightarrow> string option \<Rightarrow> bool" where
  "type_fits value t = (case t of None \<Rightarrow> True | Some t' \<Rightarrow> selected_output_scalar_matches_type value t')"

fun normalize_enum_values ::
  "output_env \<Rightarrow> string option \<Rightarrow> string list \<Rightarrow> json list \<Rightarrow> (string \<times> json) list result" where
  "normalize_enum_values env t seen [] = Ok []"
| "normalize_enum_values env t seen (v # vs) =
     bind_result (normalize_selected_output_scalar v ''selected output enum'') (\<lambda>w.
     if \<not> type_fits w t then refused ''selected output enum value does not satisfy schema type''
     else bind_result (selected_scalar_bytes env w) (\<lambda>canonical.
       if canonical \<in> set seen then refused ''selected output enum values must be unique''
       else bind_result (normalize_enum_values env t (canonical # seen) vs) (\<lambda>rest.
            Ok ((canonical, w) # rest))))"

text \<open>The value constraint at the end of a node.\<close>

definition normalize_value_constraint ::
  "output_env \<Rightarrow> (string \<times> json) list \<Rightarrow> string option \<Rightarrow> (string \<times> json) list result" where
  "normalize_value_constraint env schema t =
     (case map_of schema ''const'' of
        Some c \<Rightarrow>
          bind_result (normalize_selected_output_scalar c ''selected output const'') (\<lambda>const.
          if \<not> type_fits const t then refused ''selected output const does not satisfy schema type''
          else Ok [(''const'', const)])
      | None \<Rightarrow>
          (case map_of schema ''enum'' of
             None \<Rightarrow> Ok []
           | Some (JArr vs) \<Rightarrow>
               if vs = [] \<or> 64 < length vs
               then refused ''selected output enum must contain between 1 and 64 values''
               else bind_result (normalize_enum_values env t [] vs) (\<lambda>pairs.
                 Ok [(''enum'', JArr (map snd (sort_key fst pairs)))])
           | Some _ \<Rightarrow> refused ''selected output enum must be a JSON array''))"

definition optional_member :: "(string \<times> json) list \<Rightarrow> string \<Rightarrow> (string \<times> json) list" where
  "optional_member schema k = (case map_of schema k of None \<Rightarrow> [] | Some v \<Rightarrow> [(k, v)])"

text \<open>The checks of the keywords of a node, which give its type.\<close>

definition node_type :: "(string \<times> json) list \<Rightarrow> string option result" where
  "node_type schema =
     (let constraints = filter (has_key schema) SELECTED_OUTPUT_VALUE_CONSTRAINTS;
          unsupported = (\<lambda>allowed. let extra = sorted_set (set (keys schema) - set allowed)
            in require (extra = []) (''unsupported selected output schema keyword(s): '' @ join_str '', '' extra))
      in if 1 < length constraints then refused ''selected output schema cannot contain both const and enum''
         else case map_of schema ''type'' of
           Some (JStr t) \<Rightarrow>
             if t \<notin> set SELECTED_OUTPUT_TYPES
             then refused ''selected output schema type is outside the admitted subset''
             else bind_result (unsupported (SELECTED_OUTPUT_SCHEMA_KEYWORDS t @ SELECTED_OUTPUT_VALUE_CONSTRAINTS))
                    (\<lambda>_. Ok (Some t))
         | other \<Rightarrow>
             if other \<noteq> None \<and> other \<noteq> Some JNull
             then refused ''selected output schema type is outside the admitted subset''
             else if length constraints \<noteq> 1
             then refused ''selected output schema type is outside the admitted subset''
             else bind_result (unsupported constraints) (\<lambda>_. Ok None))"

text \<open>The names an object requires.\<close>

definition normalize_required_names :: "(string \<times> json) list \<Rightarrow> string list \<Rightarrow> string list result" where
  "normalize_required_names schema properties =
     (case (case map_of schema ''required'' of None \<Rightarrow> JArr [] | Some v \<Rightarrow> v) of
        JArr items \<Rightarrow>
          let names = map (\<lambda>v. case v of JStr s \<Rightarrow> s | _ \<Rightarrow> []) items
          in if \<not> list_all (\<lambda>v. case v of JStr _ \<Rightarrow> True | _ \<Rightarrow> False) items
             then refused ''object schema required must be an array of strings''
             else if \<not> distinct names then refused ''object schema required values must be unique''
             else bind_result (require (set names \<subseteq> set properties)
               ''object schema required values must name declared properties'') (\<lambda>_. Ok (sort names))
      | _ \<Rightarrow> refused ''object schema required must be an array of strings'')"

function normalize_selected_output_schema :: "output_env \<Rightarrow> json \<Rightarrow> nat \<Rightarrow> (string \<times> json) list result"
  and normalize_selected_properties ::
    "output_env \<Rightarrow> (string \<times> json) list \<Rightarrow> nat \<Rightarrow> (string \<times> json) list result" where
  "normalize_selected_output_schema env value depth =
     (if MAX_SELECTED_OUTPUT_NESTING_DEPTH < depth
      then refused ''selected output schema exceeds the nesting-depth ceiling''
      else case value of
        JObj schema \<Rightarrow>
          bind_result (node_type schema) (\<lambda>t.
          bind_result
            (if t = Some ''object''
             then if map_of schema ''additionalProperties'' \<noteq> Some (JBool False)
                  then refused ''object schemas require additionalProperties=false''
                  else (case (case map_of schema ''properties'' of None \<Rightarrow> JObj [] | Some v \<Rightarrow> v) of
                    JObj properties \<Rightarrow>
                      if MAX_SELECTED_OUTPUT_OBJECT_PROPERTIES < length properties
                      then refused ''selected output schema exceeds the object-property ceiling''
                      else bind_result (normalize_required_names schema (keys properties)) (\<lambda>required.
                        bind_result (require (list_all (\<lambda>k. length k \<le> MAX_SELECTED_OUTPUT_STRING_LENGTH) (keys properties))
                          ''selected output property name exceeds string ceiling'') (\<lambda>_.
                        bind_result (normalize_selected_properties env properties (Suc depth)) (\<lambda>nodes.
                        Ok [(''properties'', JObj nodes), (''required'', jstrs required),
                            (''additionalProperties'', JBool False)])))
                  | _ \<Rightarrow> refused ''object schema properties must be a JSON object'')
             else if t = Some ''array''
             then (case map_of schema ''items'' of
                    None \<Rightarrow> refused ''array schemas require an items schema''
                  | Some items \<Rightarrow>
                      bind_result (validate_selected_output_bound schema ''minItems'' ''maxItems''
                        (int MAX_SELECTED_OUTPUT_ARRAY_ITEMS)) (\<lambda>_.
                      bind_result (normalize_selected_output_schema env items (Suc depth)) (\<lambda>node.
                      Ok ([(''items'', JObj node)] @ optional_member schema ''minItems'' @ optional_member schema ''maxItems''))))
             else if t = Some ''string''
             then bind_result (validate_selected_output_bound schema ''minLength'' ''maxLength''
                    (int MAX_SELECTED_OUTPUT_STRING_LENGTH)) (\<lambda>_.
                  Ok (optional_member schema ''minLength'' @ optional_member schema ''maxLength''))
             else Ok []) (\<lambda>structure.
          bind_result (normalize_value_constraint env schema t) (\<lambda>constraint.
          Ok ((case t of None \<Rightarrow> [] | Some t' \<Rightarrow> [(''type'', JStr t')]) @ structure @ constraint))))
      | _ \<Rightarrow> refused ''every selected output schema node must be a JSON object'')"
| "normalize_selected_properties env [] depth = Ok []"
| "normalize_selected_properties env ((k, v) # ps) depth =
     bind_result (normalize_selected_output_schema env v depth) (\<lambda>node.
     bind_result (normalize_selected_properties env ps depth) (\<lambda>nodes. Ok ((k, JObj node) # nodes)))"
  by pat_completeness auto
termination
proof (relation "measure (case_sum (\<lambda>(e, v, d). 2 * jweight v) (\<lambda>(e, ps, d). 2 * jmembers ps + 1))",
    goal_cases)
qed (auto dest!: jmembers_map_of split: option.splits json.splits)

declare normalize_selected_output_schema.simps [simp del]

text \<open>A schema comes as text (or bytes) or as a Python mapping.\<close>

datatype schema_input = Schema_Text string | Schema_Value json

definition canonical_selected_output_schema_bytes :: "output_env \<Rightarrow> schema_input \<Rightarrow> string result" where
  "canonical_selected_output_schema_bytes env schema =
     bind_result (case schema of
         Schema_Text raw \<Rightarrow>
           if MAX_SELECTED_OUTPUT_SCHEMA_BYTES < utf8_len raw
           then refused ''selected output schema exceeds the schema-byte ceiling''
           else parse_selected_output_json env raw ''selected output schema''
       | Schema_Value v \<Rightarrow> Ok v) (\<lambda>parsed.
     bind_result (normalize_selected_output_schema env parsed 1) (\<lambda>normalized.
     bind_result (canonical_json_serialize (oe_float env) (JObj normalized)) (\<lambda>canonical.
     if MAX_SELECTED_OUTPUT_SCHEMA_BYTES < utf8_len canonical
     then refused ''selected output schema exceeds the schema-byte ceiling''
     else Ok canonical)))"

definition selected_output_schema_sha256 :: "output_env \<Rightarrow> schema_input \<Rightarrow> string result" where
  "selected_output_schema_sha256 env schema =
     bind_result (canonical_selected_output_schema_bytes env schema) (\<lambda>canonical. Ok (oe_sha256 env canonical))"

section \<open>Payloads\<close>

fun normalize_selected_output_payload :: "json \<Rightarrow> nat \<Rightarrow> json result"
  and normalize_payload_items :: "json list \<Rightarrow> nat \<Rightarrow> json list result"
  and normalize_payload_members :: "(string \<times> json) list \<Rightarrow> nat \<Rightarrow> (string \<times> json) list result" where
  "normalize_selected_output_payload value depth =
     (if MAX_SELECTED_OUTPUT_NESTING_DEPTH < depth
      then refused ''selected output payload exceeds the nesting-depth ceiling''
      else case value of
        JNull \<Rightarrow> Ok value
      | JBool _ \<Rightarrow> Ok value
      | JInt _ \<Rightarrow> Ok value
      | JFloat (Finite _) \<Rightarrow> Ok value
      | JFloat _ \<Rightarrow> refused ''selected output payload contains a non-finite number''
      | JStr s \<Rightarrow>
          if MAX_SELECTED_OUTPUT_STRING_LENGTH < length s
          then refused ''selected output payload string exceeds the string ceiling'' else Ok value
      | JArr xs \<Rightarrow>
          if MAX_SELECTED_OUTPUT_ARRAY_ITEMS < length xs
          then refused ''selected output payload exceeds the array-item ceiling''
          else bind_result (normalize_payload_items xs (Suc depth)) (\<lambda>ys. Ok (JArr ys))
      | JObj kvs \<Rightarrow>
          if MAX_SELECTED_OUTPUT_OBJECT_PROPERTIES < length kvs
          then refused ''selected output payload exceeds the object-property ceiling''
          else if \<not> list_all (\<lambda>k. length k \<le> MAX_SELECTED_OUTPUT_STRING_LENGTH) (keys kvs)
          then refused ''selected output payload key exceeds the string ceiling''
          else bind_result (normalize_payload_members kvs (Suc depth)) (\<lambda>ms. Ok (JObj ms)))"
| "normalize_payload_items [] depth = Ok []"
| "normalize_payload_items (x # xs) depth =
     bind_result (normalize_selected_output_payload x depth) (\<lambda>y.
     bind_result (normalize_payload_items xs depth) (\<lambda>ys. Ok (y # ys)))"
| "normalize_payload_members [] depth = Ok []"
| "normalize_payload_members ((k, v) # kvs) depth =
     bind_result (normalize_selected_output_payload v depth) (\<lambda>w.
     bind_result (normalize_payload_members kvs depth) (\<lambda>ms. Ok ((k, w) # ms)))"

declare normalize_selected_output_payload.simps [simp del]

definition canonical_selected_output_payload_bytes :: "output_env \<Rightarrow> json \<Rightarrow> string result" where
  "canonical_selected_output_payload_bytes env value =
     bind_result (normalize_selected_output_payload value 1) (\<lambda>normalized.
     bind_result (canonical_json_serialize (oe_float env) normalized) (\<lambda>canonical.
     if MAX_SELECTED_OUTPUT_PAYLOAD_BYTES < utf8_len canonical
     then refused ''selected output payload exceeds the payload-byte ceiling''
     else Ok canonical))"

definition parse_selected_output_payload_json :: "output_env \<Rightarrow> string \<Rightarrow> json result" where
  "parse_selected_output_payload_json env raw =
     (if MAX_SELECTED_OUTPUT_PAYLOAD_BYTES < utf8_len raw
      then refused ''selected output payload exceeds the payload-byte ceiling''
      else bind_result (parse_selected_output_json env raw ''selected output payload'') (\<lambda>parsed.
           bind_result (canonical_selected_output_payload_bytes env parsed) (\<lambda>_. Ok parsed)))"

section \<open>Requirements\<close>

record selected_output_requirement =
  sor_required :: bool
  sor_json_schema :: json
  sor_schema_sha256 :: string

record terminal_selected_output_requirement =
  tsor_terminal_result :: string
  tsor_selected_output :: selected_output_requirement

datatype selected_output = Output_Absent | Output_Present json

text \<open>
  Constructing a requirement: the schema is admitted and its digest pinned, then the field and the
  object are validated. The canonical text is parsed back by \<^verbatim>\<open>json.loads\<close>.
\<close>

definition construct_requirement ::
  "output_env \<Rightarrow> bool \<Rightarrow> schema_input \<Rightarrow> string option \<Rightarrow> selected_output_requirement result" where
  "construct_requirement env required schema supplied =
     bind_result (canonical_selected_output_schema_bytes env schema) (\<lambda>canonical.
     bind_result (case oe_loads env canonical of Inl e \<Rightarrow> refused e | Inr v \<Rightarrow> Ok v) (\<lambda>admitted.
     let digest = oe_sha256 env canonical in
     bind_result (require (supplied \<in> {None, Some [], Some digest})
       ''schema_sha256 does not match canonical selected schema'') (\<lambda>_.
     bind_result (sha256_field digest ''schema_sha256'') (\<lambda>_.
     bind_result (selected_output_schema_sha256 env (Schema_Value admitted)) (\<lambda>recomputed.
     bind_result (require (digest = recomputed) ''schema_sha256 does not match canonical selected schema'') (\<lambda>_.
     Ok \<lparr>sor_required = required, sor_json_schema = admitted, sor_schema_sha256 = digest\<rparr>))))))"

definition check_terminal_requirement_output ::
  "terminal_selected_output_requirement \<Rightarrow> terminal_selected_output_requirement result" where
  "check_terminal_requirement_output r =
     bind_result (nonblank_field (tsor_terminal_result r) ''terminal_result'') (\<lambda>_. Ok r)"

fun requirement_lookup ::
  "(string \<times> selected_output_requirement) list \<Rightarrow> terminal_selected_output_requirement list \<Rightarrow>
   (string \<times> selected_output_requirement) list result" where
  "requirement_lookup lookup [] = Ok lookup"
| "requirement_lookup lookup (item # items) =
     bind_result (nonblank_field (tsor_terminal_result item) ''terminal_result'') (\<lambda>terminal_result.
     if terminal_result \<in> set (keys lookup)
     then refused ''selected output terminal_result values must be unique''
     else requirement_lookup (lookup @ [(terminal_result, tsor_selected_output item)]) items)"

text \<open>The result is sorted by the UTF-8 bytes of the terminal results, which for this text is the order of strings.\<close>

definition selected_output_requirements_by_terminal_result ::
  "terminal_selected_output_requirement list \<Rightarrow> (string \<times> selected_output_requirement) list result" where
  "selected_output_requirements_by_terminal_result requirements =
     (if 64 < length requirements then refused ''selected output requirements exceed the 64-record ceiling''
      else bind_result (requirement_lookup [] requirements) (\<lambda>lookup. Ok (sort_key fst lookup)))"

section \<open>Admission\<close>

text \<open>The first part of \<^verbatim>\<open>_selected_output_schema_error\<close>: the value constraint.\<close>

fun matches_some_literal :: "output_env \<Rightarrow> string \<Rightarrow> json list \<Rightarrow> bool result" where
  "matches_some_literal env candidate [] = Ok False"
| "matches_some_literal env candidate (item # items) =
     bind_result (selected_scalar_bytes env item) (\<lambda>b.
     if candidate = b then Ok True else matches_some_literal env candidate items)"

definition constraint_error :: "output_env \<Rightarrow> json \<Rightarrow> (string \<times> json) list \<Rightarrow> string \<Rightarrow> string option result" where
  "constraint_error env value schema path =
     (case map_of schema ''const'' of
        Some c \<Rightarrow>
          bind_result (selected_scalar_bytes env value) (\<lambda>candidate.
          bind_result (selected_scalar_bytes env c) (\<lambda>const.
          Ok (if candidate \<noteq> const then Some (path @ '' must equal const value'') else None)))
      | None \<Rightarrow>
          (case map_of schema ''enum'' of
             None \<Rightarrow> Ok None
           | Some (JArr items) \<Rightarrow>
               bind_result (selected_scalar_bytes env value) (\<lambda>candidate.
               bind_result (matches_some_literal env candidate items) (\<lambda>found.
               Ok (if \<not> found then Some (path @ '' must equal an enum value'') else None)))
           | Some _ \<Rightarrow> Raise (TypeErr ''enum is not iterable'')))"

definition length_error :: "string \<Rightarrow> int \<Rightarrow> int option \<Rightarrow> int option \<Rightarrow> string \<Rightarrow> string \<Rightarrow> string \<Rightarrow> string option result" where
  "length_error path n lower upper too_few too_many noun =
     (case (lower, upper) of
        (Some minimum, Some maximum) \<Rightarrow>
          Ok (if n < minimum then Some (path @ too_few @ show_int minimum @ noun)
              else if maximum < n then Some (path @ too_many @ show_int maximum @ noun)
              else None)
      | _ \<Rightarrow> Raise (TypeErr ''bound is not an integer''))"

definition string_length_error :: "string \<Rightarrow> string \<Rightarrow> (string \<times> json) list \<Rightarrow> string option result" where
  "string_length_error path s schema =
     length_error path (int (length s)) (bound_value schema ''minLength'' 0)
       (bound_value schema ''maxLength'' (int MAX_SELECTED_OUTPUT_STRING_LENGTH))
       '' is shorter than '' '' is longer than '' '' characters''"

definition array_length_error :: "string \<Rightarrow> json list \<Rightarrow> (string \<times> json) list \<Rightarrow> string option result" where
  "array_length_error path xs schema =
     length_error path (int (length xs)) (bound_value schema ''minItems'' 0)
       (bound_value schema ''maxItems'' (int MAX_SELECTED_OUTPUT_ARRAY_ITEMS))
       '' has fewer than '' '' has more than '' '' items''"

definition is_json_number :: "json \<Rightarrow> bool" where
  "is_json_number v = (case v of JInt _ \<Rightarrow> True | JFloat (Finite _) \<Rightarrow> True | _ \<Rightarrow> False)"

definition expect :: "bool \<Rightarrow> string \<Rightarrow> string option result" where
  "expect b message = Ok (if b then None else Some message)"

definition scalar_schema_error :: "json \<Rightarrow> (string \<times> json) list \<Rightarrow> string \<Rightarrow> string \<Rightarrow> string option result" where
  "scalar_schema_error value schema t path =
     (if t = ''string''
      then (case value of
          JStr s \<Rightarrow> string_length_error path s schema
        | _ \<Rightarrow> Ok (Some (path @ '' must be string'')))
      else if t = ''integer'' then expect (case value of JInt _ \<Rightarrow> True | _ \<Rightarrow> False) (path @ '' must be integer'')
      else if t = ''number'' then expect (is_json_number value) (path @ '' must be finite number'')
      else if t = ''boolean'' then expect (case value of JBool _ \<Rightarrow> True | _ \<Rightarrow> False) (path @ '' must be boolean'')
      else if t = ''null'' then expect (value = JNull) (path @ '' must be null'')
      else Raise (AssertionErr (''unreachable selected output schema type: '' @ t)))"

text \<open>The names an object schema requires, in order.\<close>

definition required_names :: "(string \<times> json) list \<Rightarrow> json list option" where
  "required_names schema = (case map_of schema ''required'' of Some (JArr ns) \<Rightarrow> Some ns | _ \<Rightarrow> None)"

definition object_shape_error ::
  "(string \<times> json) list \<Rightarrow> (string \<times> json) list \<Rightarrow> json list \<Rightarrow> string \<Rightarrow> string option" where
  "object_shape_error kvs properties required path =
     (case find (\<lambda>n. n \<notin> JStr ` set (keys kvs)) required of
        Some n \<Rightarrow> Some (path @ ''.'' @ (case n of JStr s \<Rightarrow> s | _ \<Rightarrow> []) @ '' is required'')
      | None \<Rightarrow>
          (case sorted_set (set (keys kvs) - set (keys properties)) of
             [] \<Rightarrow> None | extra # _ \<Rightarrow> Some (path @ ''.'' @ extra @ '' is not allowed'')))"

lemma jweight_pos [simp]: "0 < jweight v"
  by (cases v) simp_all

text \<open>
  A schema that is not in normal form may lack what the code looks up: that raises.
\<close>

function selected_output_schema_error ::
    "output_env \<Rightarrow> json \<Rightarrow> (string \<times> json) list \<Rightarrow> string \<Rightarrow> string option result"
  and member_schema_errors ::
    "output_env \<Rightarrow> (string \<times> json) list \<Rightarrow> (string \<times> json) list \<Rightarrow> string \<Rightarrow> string option result"
  and item_schema_errors ::
    "output_env \<Rightarrow> json list \<Rightarrow> (string \<times> json) list \<Rightarrow> nat \<Rightarrow> string \<Rightarrow> string option result" where
  "selected_output_schema_error env value schema path =
     bind_result (constraint_error env value schema path) (\<lambda>e.
     if e \<noteq> None then Ok e
     else case map_of schema ''type'' of
       None \<Rightarrow> Ok None
     | Some JNull \<Rightarrow> Ok None
     | Some (JStr t) \<Rightarrow>
         if t = ''object''
         then (case value of
             JObj kvs \<Rightarrow>
               (case (map_of schema ''properties'', required_names schema) of
                  (Some (JObj properties), Some required) \<Rightarrow>
                    (case object_shape_error kvs properties required path of
                       Some m \<Rightarrow> Ok (Some m)
                     | None \<Rightarrow> member_schema_errors env kvs properties path)
                | _ \<Rightarrow> Raise (KeyError ''properties''))
           | _ \<Rightarrow> Ok (Some (path @ '' must be object'')))
         else if t = ''array''
         then (case value of
             JArr xs \<Rightarrow>
               bind_result (array_length_error path xs schema) (\<lambda>bound_error.
               if bound_error \<noteq> None then Ok bound_error
               else case map_of schema ''items'' of
                   Some (JObj items) \<Rightarrow> item_schema_errors env xs items 0 path
                 | _ \<Rightarrow> if xs = [] then Ok None else Raise (KeyError ''items''))
           | _ \<Rightarrow> Ok (Some (path @ '' must be array'')))
         else scalar_schema_error value schema t path
     | Some _ \<Rightarrow> Raise (AssertionErr ''unreachable selected output schema type''))"
| "member_schema_errors env [] properties path = Ok None"
| "member_schema_errors env ((k, v) # kvs) properties path =
     (case map_of properties k of
        Some (JObj schema) \<Rightarrow>
          bind_result (selected_output_schema_error env v schema (path @ ''.'' @ k)) (\<lambda>e.
          if e \<noteq> None then Ok e else member_schema_errors env kvs properties path)
      | _ \<Rightarrow> Raise (KeyError k))"
| "item_schema_errors env [] items index path = Ok None"
| "item_schema_errors env (x # xs) items index path =
     bind_result (selected_output_schema_error env x items (path @ ''['' @ show_nat index @ '']'')) (\<lambda>e.
     if e \<noteq> None then Ok e else item_schema_errors env xs items (Suc index) path)"
  by pat_completeness auto
termination
  by (relation "measure (case_sum (\<lambda>(e, v, s, p). 2 * jweight v)
        (case_sum (\<lambda>(e, kvs, ps, p). 2 * jmembers kvs + 1) (\<lambda>(e, xs, s, i, p). 2 * jweights xs + 1)))") auto

declare selected_output_schema_error.simps [simp del]

definition admit_selected_output ::
  "output_env \<Rightarrow> selected_output_requirement \<Rightarrow> bool \<Rightarrow> json \<Rightarrow> selected_output result" where
  "admit_selected_output env requirement present value =
     (if \<not> present
      then bind_result (require (\<not> sor_required requirement) ''required selected output candidate is missing'')
             (\<lambda>_. Ok Output_Absent)
      else bind_result (normalize_selected_output_payload value 1) (\<lambda>normalized.
           bind_result (canonical_selected_output_payload_bytes env normalized) (\<lambda>_.
           case sor_json_schema requirement of
             JObj schema \<Rightarrow>
               bind_result (selected_output_schema_error env normalized schema ''$'') (\<lambda>e.
               case e of
                 None \<Rightarrow> Ok (Output_Present normalized)
               | Some m \<Rightarrow> refused (''selected output candidate failed schema validation: '' @ m))
           | _ \<Rightarrow> Raise (TypeErr ''schema is not an object''))))"

section \<open>What a payload must satisfy\<close>

text \<open>The nesting depth of a value, and the values inside it, itself included.\<close>

fun json_depth :: "json \<Rightarrow> nat" and items_depth :: "json list \<Rightarrow> nat" and members_depth :: "(string \<times> json) list \<Rightarrow> nat" where
  "json_depth (JArr xs) = Suc (items_depth xs)"
| "json_depth (JObj kvs) = Suc (members_depth kvs)"
| "json_depth _ = 1"
| "items_depth [] = 0"
| "items_depth (x # xs) = max (json_depth x) (items_depth xs)"
| "members_depth [] = 0"
| "members_depth ((k, v) # kvs) = max (json_depth v) (members_depth kvs)"

fun inner_values :: "json \<Rightarrow> json list" and items_values :: "json list \<Rightarrow> json list"
  and members_values :: "(string \<times> json) list \<Rightarrow> json list" where
  "inner_values (JArr xs) = JArr xs # items_values xs"
| "inner_values (JObj kvs) = JObj kvs # members_values kvs"
| "inner_values v = [v]"
| "items_values [] = []"
| "items_values (x # xs) = inner_values x @ items_values xs"
| "members_values [] = []"
| "members_values ((k, v) # kvs) = inner_values v @ members_values kvs"

definition node_bounded :: "json \<Rightarrow> bool" where
  "node_bounded v \<longleftrightarrow>
     (case v of
        JFloat f \<Rightarrow> (\<exists>q. f = Finite q)
      | JStr s \<Rightarrow> length s \<le> MAX_SELECTED_OUTPUT_STRING_LENGTH
      | JArr xs \<Rightarrow> length xs \<le> MAX_SELECTED_OUTPUT_ARRAY_ITEMS
      | JObj kvs \<Rightarrow> length kvs \<le> MAX_SELECTED_OUTPUT_OBJECT_PROPERTIES
          \<and> (\<forall>k \<in> set (keys kvs). length k \<le> MAX_SELECTED_OUTPUT_STRING_LENGTH)
      | _ \<Rightarrow> True)"

definition payload_bounded :: "output_env \<Rightarrow> json \<Rightarrow> bool" where
  "payload_bounded env v \<longleftrightarrow>
     json_depth v \<le> MAX_SELECTED_OUTPUT_NESTING_DEPTH \<and> (\<forall>u \<in> set (inner_values v). node_bounded u)
     \<and> (\<exists>canonical. canonical_json_serialize (oe_float env) v = Inr canonical
          \<and> utf8_len canonical \<le> MAX_SELECTED_OUTPUT_PAYLOAD_BYTES)"

lemma json_depth_pos [simp]: "0 < json_depth v"
  by (cases v) simp_all

lemma normalize_payload_Inr:
  "normalize_selected_output_payload v d = Inr w \<longleftrightarrow>
     w = v \<and> json_depth v + d \<le> Suc MAX_SELECTED_OUTPUT_NESTING_DEPTH \<and> (\<forall>u \<in> set (inner_values v). node_bounded u)"
  "normalize_payload_items xs d = Inr ys \<longleftrightarrow>
     ys = xs \<and> (xs = [] \<or> items_depth xs + d \<le> Suc MAX_SELECTED_OUTPUT_NESTING_DEPTH)
     \<and> (\<forall>u \<in> set (items_values xs). node_bounded u)"
  "normalize_payload_members kvs d = Inr ms \<longleftrightarrow>
     ms = kvs \<and> (kvs = [] \<or> members_depth kvs + d \<le> Suc MAX_SELECTED_OUTPUT_NESTING_DEPTH)
     \<and> (\<forall>u \<in> set (members_values kvs). node_bounded u)"
proof (induction v d and xs d and kvs d arbitrary: w and ys and ms rule:
    normalize_selected_output_payload_normalize_payload_items_normalize_payload_members.induct)
  case (1 v d)
  show ?case
  proof (cases "MAX_SELECTED_OUTPUT_NESTING_DEPTH < d")
    case True
    then have "\<not> json_depth v + d \<le> Suc MAX_SELECTED_OUTPUT_NESTING_DEPTH"
      using json_depth_pos [of v] by linarith
    then show ?thesis using True unfolding normalize_selected_output_payload.simps [of v d] by simp
  next
    case False
    show ?thesis
    proof (cases v)
      case (JArr xs)
      then show ?thesis
        using False 1(1) [OF False JArr] unfolding normalize_selected_output_payload.simps [of v d]
        by (cases xs) (auto simp: node_bounded_def result_simps)
    next
      case (JObj kvs)
      then show ?thesis
        using False 1(2) [OF False JObj] unfolding normalize_selected_output_payload.simps [of v d]
        by (cases kvs) (auto simp: node_bounded_def result_simps list_all_iff)
    next
      case (JFloat f)
      then show ?thesis
        using False unfolding normalize_selected_output_payload.simps [of v d]
        by (cases f) (auto simp: node_bounded_def)
    qed (use False normalize_selected_output_payload.simps [of v d] in \<open>auto simp: node_bounded_def\<close>)
  qed
qed (auto simp: result_simps)

section \<open>What a schema accepts\<close>

definition constraint_holds :: "output_env \<Rightarrow> (string \<times> json) list \<Rightarrow> json \<Rightarrow> bool" where
  "constraint_holds env s v \<longleftrightarrow>
     (case map_of s ''const'' of
        Some c \<Rightarrow> \<exists>b. selected_scalar_bytes env v = Inr b \<and> selected_scalar_bytes env c = Inr b
      | None \<Rightarrow>
          (case map_of s ''enum'' of
             None \<Rightarrow> True
           | Some e \<Rightarrow> \<exists>items i b. e = JArr items \<and> i \<in> set items
               \<and> selected_scalar_bytes env v = Inr b \<and> selected_scalar_bytes env i = Inr b))"

text \<open>The length lies between the bounds of the schema, which default to 0 and the global limit.\<close>

definition in_bounds :: "(string \<times> json) list \<Rightarrow> string \<Rightarrow> string \<Rightarrow> nat \<Rightarrow> nat \<Rightarrow> bool" where
  "in_bounds s low high limit n \<longleftrightarrow>
     (\<exists>a b. bound_value s low 0 = Some a \<and> bound_value s high (int limit) = Some b \<and> a \<le> int n \<and> int n \<le> b)"

definition scalar_of_type :: "(string \<times> json) list \<Rightarrow> string \<Rightarrow> json \<Rightarrow> bool" where
  "scalar_of_type s t v \<longleftrightarrow>
     (t = ''string'' \<and> (\<exists>str. v = JStr str \<and> in_bounds s ''minLength'' ''maxLength'' MAX_SELECTED_OUTPUT_STRING_LENGTH (length str)))
     \<or> (t = ''integer'' \<and> (\<exists>i. v = JInt i))
     \<or> (t = ''number'' \<and> ((\<exists>i. v = JInt i) \<or> (\<exists>q. v = JFloat (Finite q))))
     \<or> (t = ''boolean'' \<and> (\<exists>b. v = JBool b))
     \<or> (t = ''null'' \<and> v = JNull)"

inductive conforms :: "output_env \<Rightarrow> (string \<times> json) list \<Rightarrow> json \<Rightarrow> bool" for env where
  untyped: "constraint_holds env s v \<Longrightarrow> map_of s ''type'' \<in> {None, Some JNull} \<Longrightarrow> conforms env s v"
| scalar: "constraint_holds env s v \<Longrightarrow> map_of s ''type'' = Some (JStr t) \<Longrightarrow> scalar_of_type s t v \<Longrightarrow> conforms env s v"
| object: "constraint_holds env s (JObj kvs) \<Longrightarrow> map_of s ''type'' = Some (JStr ''object'') \<Longrightarrow>
     map_of s ''properties'' = Some (JObj ps) \<Longrightarrow> map_of s ''required'' = Some (JArr req) \<Longrightarrow>
     set req \<subseteq> JStr ` set (keys kvs) \<Longrightarrow>
     (\<And>k v. (k, v) \<in> set kvs \<Longrightarrow> \<exists>n. map_of ps k = Some (JObj n) \<and> conforms env n v) \<Longrightarrow> conforms env s (JObj kvs)"
| array: "constraint_holds env s (JArr xs) \<Longrightarrow> map_of s ''type'' = Some (JStr ''array'') \<Longrightarrow>
     in_bounds s ''minItems'' ''maxItems'' MAX_SELECTED_OUTPUT_ARRAY_ITEMS (length xs) \<Longrightarrow>
     (\<And>x. x \<in> set xs \<Longrightarrow> \<exists>i. map_of s ''items'' = Some (JObj i) \<and> conforms env i x) \<Longrightarrow> conforms env s (JArr xs)"

inductive_cases conformsE: "conforms env s v"

lemma scalar_bytes_ok: "is_ok (selected_scalar_bytes env v) \<longleftrightarrow> json_finite v"
  using json_dumps_ok_iff [of "oe_float env" v]
  by (cases "json_dumps (oe_float env) v") (simp_all add: selected_scalar_bytes_def canonical_json_serialize_def)

lemma finite_member:
  assumes "json_finite (JObj s)" and "map_of s k = Some v"
  shows "json_finite v"
  using assms map_of_SomeD [OF assms(2)] by (auto simp: json_members_finite_iff)

lemma finite_bytes: "json_finite v \<Longrightarrow> \<exists>b. selected_scalar_bytes env v = Inr b"
  using scalar_bytes_ok [of env v] by (simp add: is_ok_iff)

lemma matches_some_literal_Inr:
  assumes "\<forall>i \<in> set items. json_finite i"
  shows "matches_some_literal env candidate items = Inr (\<exists>i \<in> set items. selected_scalar_bytes env i = Inr candidate)"
  using assms
proof (induction items)
  case (Cons i items)
  obtain b where "selected_scalar_bytes env i = Inr b" using Cons.prems finite_bytes by fastforce
  then show ?case using Cons by auto
qed simp

lemma constraint_error_None:
  assumes "json_finite (JObj s)"
  shows "constraint_error env v s path = Inr None \<longleftrightarrow> constraint_holds env s v"
proof (cases "map_of s ''const''")
  case (Some c)
  obtain b where "selected_scalar_bytes env c = Inr b" using finite_member [OF assms Some] finite_bytes by blast
  then show ?thesis
    using Some by (auto simp: constraint_error_def constraint_holds_def result_simps split: if_splits)
next
  case None
  show ?thesis
  proof (cases "map_of s ''enum''")
    case (Some e)
    show ?thesis
    proof (cases e)
      case (JArr items)
      have "\<forall>i \<in> set items. json_finite i"
        using finite_member [OF assms Some] by (simp add: JArr json_items_finite_iff)
      note found = matches_some_literal_Inr [OF this]
      show ?thesis
        using None Some by (auto simp: constraint_error_def constraint_holds_def JArr result_simps found split: if_splits)
    qed (use None Some in \<open>auto simp: constraint_error_def constraint_holds_def\<close>)
  qed (use None in \<open>simp add: constraint_error_def constraint_holds_def\<close>)
qed

lemma string_length_error_None:
  "string_length_error path str s = Inr None \<longleftrightarrow>
     in_bounds s ''minLength'' ''maxLength'' MAX_SELECTED_OUTPUT_STRING_LENGTH (length str)"
  by (auto simp: string_length_error_def length_error_def in_bounds_def split: option.splits if_splits)

lemma array_length_error_None:
  "array_length_error path xs s = Inr None \<longleftrightarrow>
     in_bounds s ''minItems'' ''maxItems'' MAX_SELECTED_OUTPUT_ARRAY_ITEMS (length xs)"
  by (auto simp: array_length_error_def length_error_def in_bounds_def split: option.splits if_splits)

lemma scalar_schema_error_None: "scalar_schema_error v s t path = Inr None \<longleftrightarrow> scalar_of_type s t v"
  by (cases v) (auto simp: scalar_schema_error_def scalar_of_type_def expect_def is_json_number_def
      string_length_error_None split: pyfloat.splits)

lemma object_shape_error_None:
  "object_shape_error kvs ps req path = None \<longleftrightarrow>
     set req \<subseteq> JStr ` set (keys kvs) \<and> set (keys kvs) \<subseteq> set (keys ps)"
proof -
  have extra: "sorted_set (set (keys kvs) - set (keys ps)) = [] \<longleftrightarrow> set (keys kvs) \<subseteq> set (keys ps)"
    by (metis Diff_eq_empty_iff List.finite_set finite_Diff sorted_list_of_set.sorted_key_list_of_set_eq_Nil_iff)
  have found: "find (\<lambda>n. n \<notin> JStr ` set (keys kvs)) req = None \<longleftrightarrow> set req \<subseteq> JStr ` set (keys kvs)"
    by (auto simp: find_None_iff)
  show ?thesis
  proof (cases "set req \<subseteq> JStr ` set (keys kvs) \<and> set (keys kvs) \<subseteq> set (keys ps)")
    case False
    then have "find (\<lambda>n. n \<notin> JStr ` set (keys kvs)) req \<noteq> None \<or> sorted_set (set (keys kvs) - set (keys ps)) \<noteq> []"
      using found extra by blast
    then show ?thesis
      using False unfolding object_shape_error_def by (auto split: option.split list.split)
  next
    case True
    then have none: "find (\<lambda>n. n \<notin> JStr ` set (keys kvs)) req = None" "sorted_set (set (keys kvs) - set (keys ps)) = []"
      using found extra by blast+
    show ?thesis unfolding object_shape_error_def none option.case list.case using True by blast
  qed
qed

lemma conforms_object:
  assumes "map_of s ''type'' = Some (JStr ''object'')"
  shows "conforms env s v \<longleftrightarrow> (\<exists>kvs ps req. v = JObj kvs \<and> constraint_holds env s v \<and> map_of s ''properties'' = Some (JObj ps)
     \<and> map_of s ''required'' = Some (JArr req) \<and> set req \<subseteq> JStr ` set (keys kvs)
     \<and> (\<forall>(k, x) \<in> set kvs. \<exists>n. map_of ps k = Some (JObj n) \<and> conforms env n x))" (is "_ \<longleftrightarrow> ?R")
proof
  show ?R if "conforms env s v"
    using that assms by (cases rule: conforms.cases) (auto simp: scalar_of_type_def)
  show "conforms env s v" if ?R
    using that assms by (auto intro!: conforms.object)
qed

lemma conforms_array:
  assumes "map_of s ''type'' = Some (JStr ''array'')"
  shows "conforms env s v \<longleftrightarrow> (\<exists>xs. v = JArr xs \<and> constraint_holds env s v
     \<and> in_bounds s ''minItems'' ''maxItems'' MAX_SELECTED_OUTPUT_ARRAY_ITEMS (length xs)
     \<and> (\<forall>x \<in> set xs. \<exists>i. map_of s ''items'' = Some (JObj i) \<and> conforms env i x))" (is "_ \<longleftrightarrow> ?R")
proof
  show ?R if "conforms env s v"
    using that assms by (cases rule: conforms.cases) (auto simp: scalar_of_type_def)
  show "conforms env s v" if ?R
    using that assms by (auto intro!: conforms.array)
qed

lemma conforms_scalar:
  assumes "map_of s ''type'' = Some (JStr t)" and "t \<noteq> ''object''" and "t \<noteq> ''array''"
  shows "conforms env s v \<longleftrightarrow> constraint_holds env s v \<and> scalar_of_type s t v"
  using assms by (auto intro: conforms.scalar elim!: conforms.cases)

lemma conforms_untyped:
  assumes "map_of s ''type'' = None \<or> map_of s ''type'' = Some JNull"
  shows "conforms env s v \<longleftrightarrow> constraint_holds env s v"
  using assms by (auto intro: conforms.untyped elim!: conforms.cases)

lemma conforms_typed_badly:
  "map_of s ''type'' = Some t \<Longrightarrow> t \<noteq> JNull \<Longrightarrow> t \<notin> range JStr \<Longrightarrow> \<not> conforms env s v"
  by (auto elim!: conforms.cases)

lemma schema_error_None:
  "json_finite (JObj s) \<Longrightarrow> selected_output_schema_error env v s path = Inr None \<longleftrightarrow> conforms env s v"
  "json_finite (JObj ps) \<Longrightarrow> member_schema_errors env kvs ps path = Inr None \<longleftrightarrow>
     (\<forall>(k, x) \<in> set kvs. \<exists>n. map_of ps k = Some (JObj n) \<and> conforms env n x)"
  "json_finite (JObj s') \<Longrightarrow> item_schema_errors env xs s' index path = Inr None \<longleftrightarrow> (\<forall>x \<in> set xs. conforms env s' x)"
proof (induction env v s path and env kvs ps path and env xs s' index path rule:
    selected_output_schema_error_member_schema_errors_item_schema_errors.induct)
  case (1 env v s path)
  note step = selected_output_schema_error.simps [of env v s path]
  show ?case
  proof (cases "constraint_error env v s path = Inr None")
    case False
    have "\<not> conforms env s v"
      using False constraint_error_None [OF "1.prems", of env v path] by (auto elim: conforms.cases)
    then show ?thesis using False by (auto simp: step result_simps)
  next
    case True
    then have holds: "constraint_holds env s v" using constraint_error_None [OF "1.prems"] by blast
    consider (untyped) "map_of s ''type'' = None \<or> map_of s ''type'' = Some JNull"
      | (object) "map_of s ''type'' = Some (JStr ''object'')" | (array) "map_of s ''type'' = Some (JStr ''array'')"
      | (scalar) t where "map_of s ''type'' = Some (JStr t)" "t \<noteq> ''object''" "t \<noteq> ''array''"
      | (bad) t where "map_of s ''type'' = Some t" "t \<noteq> JNull" "t \<notin> range JStr"
      by (cases "map_of s ''type''"; cases "the (map_of s ''type'')") auto
    then show ?thesis
    proof cases
      case untyped
      then show ?thesis by (auto simp: step True conforms_untyped holds)
    next
      case bad
      then show ?thesis
        using conforms_typed_badly [OF bad] by (cases t) (simp_all add: step True)
    next
      case (scalar t)
      then show ?thesis by (simp add: step True conforms_scalar holds scalar_schema_error_None)
    next
      case object
      show ?thesis
      proof (cases "\<exists>kvs ps req. v = JObj kvs \<and> map_of s ''properties'' = Some (JObj ps)
          \<and> map_of s ''required'' = Some (JArr req)")
        case True
        then obtain kvs ps req where parts: "v = JObj kvs" "map_of s ''properties'' = Some (JObj ps)"
          "map_of s ''required'' = Some (JArr req)" by blast
        define members where "members \<longleftrightarrow> (\<forall>(k, x) \<in> set kvs. \<exists>n. map_of ps k = Some (JObj n) \<and> conforms env n x)"
        have conf: "conforms env s v \<longleftrightarrow> set req \<subseteq> JStr ` set (keys kvs) \<and> members"
          using holds by (simp add: conforms_object [OF object] parts members_def)
        have "members \<Longrightarrow> set (keys kvs) \<subseteq> set (keys ps)"
          unfolding members_def by (force dest: map_of_SomeD simp: image_iff)
        then have shape: "conforms env s v \<Longrightarrow> object_shape_error kvs ps req path = None"
          using conf object_shape_error_None by blast
        show ?thesis
        proof (cases "object_shape_error kvs ps req path")
          case None
          then have "member_schema_errors env kvs ps path = Inr None \<longleftrightarrow> members"
            using "1.IH" finite_member [OF "1.prems" parts(2)] object parts \<open>constraint_error env v s path = Inr None\<close>
            by (simp add: required_names_def members_def)
          moreover have "set req \<subseteq> JStr ` set (keys kvs)" using None object_shape_error_None by blast
          ultimately show ?thesis
            using object parts None \<open>constraint_error env v s path = Inr None\<close> conf
            unfolding step by (simp add: required_names_def)
        next
          case (Some m)
          then have "\<not> conforms env s v" using shape by auto
          then show ?thesis
            using object parts Some \<open>constraint_error env v s path = Inr None\<close>
            unfolding step by (simp add: required_names_def)
        qed
      next
        case False
        then show ?thesis
          using object \<open>constraint_error env v s path = Inr None\<close>
          unfolding step
          by (cases v) (auto simp: conforms_object required_names_def split: option.splits json.splits)
      qed
    next
      case array
      show ?thesis
      proof (cases v)
        case (JArr xs)
        show ?thesis
        proof (cases "array_length_error path xs s = Inr None")
          case True
          then have bounds: "in_bounds s ''minItems'' ''maxItems'' MAX_SELECTED_OUTPUT_ARRAY_ITEMS (length xs)"
            by (simp add: array_length_error_None)
          show ?thesis
          proof (cases "\<exists>i. map_of s ''items'' = Some (JObj i)")
            case items: True
            then obtain i where i: "map_of s ''items'' = Some (JObj i)" by blast
            have "item_schema_errors env xs i 0 path = Inr None \<longleftrightarrow> (\<forall>x \<in> set xs. conforms env i x)"
              using "1.IH" finite_member [OF "1.prems" i] array JArr i True \<open>constraint_error env v s path = Inr None\<close>
              by simp
            then show ?thesis
              using array JArr i True holds bounds \<open>constraint_error env v s path = Inr None\<close>
              unfolding step by (simp add: conforms_array)
          next
            case False
            then have "xs \<noteq> [] \<Longrightarrow> \<not> conforms env s v" using array JArr by (cases xs) (auto simp: conforms_array)
            then show ?thesis
              using array JArr True False holds bounds \<open>constraint_error env v s path = Inr None\<close>
              unfolding step by (auto simp: conforms_array split: option.splits json.splits)
          qed
        next
          case False
          then have "\<not> conforms env s v" using array JArr by (simp add: conforms_array array_length_error_None)
          then show ?thesis
            using array JArr False \<open>constraint_error env v s path = Inr None\<close> unfolding step by (auto simp: result_simps)
        qed
      qed (use array \<open>constraint_error env v s path = Inr None\<close> step [unfolded \<open>constraint_error env v s path = Inr None\<close>]
        in \<open>simp_all add: conforms_array\<close>)
    qed
  qed
next
  case (3 env k v kvs properties path)
  show ?case
  proof (cases "\<exists>s. map_of properties k = Some (JObj s)")
    case True
    then obtain s where s: "map_of properties k = Some (JObj s)" by blast
    from "3.IH"(1) [OF s refl finite_member [OF "3.prems" s]] "3.IH"(2) [OF s refl _ "3.prems"] s
    show ?thesis by (auto simp: result_simps)
  qed (auto split: option.splits json.splits)
next
  case (5 env x xs items index path)
  then show ?case by (auto simp: result_simps)
qed simp_all

lemma payload_bounded_iff:
  "(\<exists>n. normalize_selected_output_payload v 1 = Inr n \<and> (\<exists>b. canonical_selected_output_payload_bytes env n = Inr b))
     \<longleftrightarrow> payload_bounded env v"
proof (cases "normalize_selected_output_payload v 1")
  case (Inl e)
  then have "\<not> (json_depth v \<le> MAX_SELECTED_OUTPUT_NESTING_DEPTH \<and> (\<forall>u \<in> set (inner_values v). node_bounded u))"
    using normalize_payload_Inr(1) [of v 1 v] by simp
  then show ?thesis using Inl by (auto simp: payload_bounded_def)
next
  case (Inr w)
  then have w: "w = v" "json_depth v \<le> MAX_SELECTED_OUTPUT_NESTING_DEPTH \<and> (\<forall>u \<in> set (inner_values v). node_bounded u)"
    using normalize_payload_Inr(1) [of v 1 w] by simp_all
  show ?thesis
    using Inr w(2) unfolding w(1) canonical_selected_output_payload_bytes_def payload_bounded_def
    by (cases "canonical_json_serialize (oe_float env) v") (simp_all add: not_less)
qed

lemma admit_present_Inr:
  assumes "sor_json_schema requirement = JObj schema" and "json_finite (JObj schema)"
  shows "admit_selected_output env requirement True v = Inr out \<longleftrightarrow>
     out = Output_Present v \<and> payload_bounded env v \<and> conforms env schema v"
proof -
  have "admit_selected_output env requirement True v = Inr out \<longleftrightarrow>
     out = Output_Present v \<and> payload_bounded env v \<and> selected_output_schema_error env v schema ''$'' = Inr None"
    unfolding payload_bounded_iff [symmetric]
    by (auto simp: admit_selected_output_def assms(1) normalize_payload_Inr result_simps split: option.splits)
  then show ?thesis by (simp only: schema_error_None(1) [OF assms(2)])
qed

text \<open>
  C33: a candidate is admitted exactly when it lies within the global bounds and conforms to the
  schema of the requirement, and then unchanged; an absent one exactly when it is optional.
\<close>

theorem admit_selected_output_exact:
  assumes "sor_json_schema requirement = JObj schema" and "json_finite (JObj schema)"
  shows "admit_selected_output env requirement present v = Inr out \<longleftrightarrow>
     (if present then out = Output_Present v \<and> payload_bounded env v \<and> conforms env schema v
      else out = Output_Absent \<and> \<not> sor_required requirement)"
  using admit_present_Inr [OF assms, of env v out]
  by (cases present) (auto simp: admit_selected_output_def require_def result_simps)

definition sample_output_schema :: "(string \<times> json) list" where
  "sample_output_schema =
     [(''additionalProperties'', JBool False),
      (''properties'', JObj [(''score'', JObj [(''type'', JStr ''integer'')]),
        (''tags'', JObj [(''items'', JObj [(''maxLength'', JInt 8), (''type'', JStr ''string'')]), (''maxItems'', JInt 2),
           (''type'', JStr ''array'')])]),
      (''required'', JArr [JStr ''score'']), (''type'', JStr ''object'')]"

definition sample_requirement :: selected_output_requirement where
  "sample_requirement = \<lparr>sor_required = True, sor_json_schema = JObj sample_output_schema, sor_schema_sha256 = []\<rparr>"

definition sample_output_env :: output_env where
  "sample_output_env = \<lparr>oe_loads = (\<lambda>_. Inl ''''), oe_float = (\<lambda>_. ''0.5''), oe_sha256 = (\<lambda>_. '''')\<rparr>"

definition sample_output :: json where
  "sample_output = JObj [(''score'', JInt 7), (''tags'', JArr [JStr ''fast''])]"

lemma sample_output_text:
  "canonical_json_serialize (oe_float sample_output_env) sample_output
     = Inr (''{\"score\":7,\"tags\":[\"fast\"]}'' @ [newline_chr])"
  by code_simp

lemma sample_output_normal: "normalize_selected_output_payload sample_output (Suc 0) = Inr sample_output"
  by (simp add: normalize_payload_Inr sample_output_def node_bounded_def MAX_SELECTED_OUTPUT_NESTING_DEPTH_def
      MAX_SELECTED_OUTPUT_STRING_LENGTH_def MAX_SELECTED_OUTPUT_ARRAY_ITEMS_def
      MAX_SELECTED_OUTPUT_OBJECT_PROPERTIES_def)

lemma sample_output_bytes:
  "canonical_selected_output_payload_bytes sample_output_env sample_output
     = Inr (''{\"score\":7,\"tags\":[\"fast\"]}'' @ [newline_chr])"
  by (simp add: canonical_selected_output_payload_bytes_def sample_output_normal sample_output_text
      MAX_SELECTED_OUTPUT_PAYLOAD_BYTES_def)

lemma sample_output_schema_checked:
  "selected_output_schema_error env sample_output sample_output_schema ''$'' = Inr None"
  by (simp add: sample_output_def sample_output_schema_def selected_output_schema_error.simps constraint_error_def
      required_names_def object_shape_error_def array_length_error_def string_length_error_def length_error_def
      bound_value_def scalar_schema_error_def expect_def MAX_SELECTED_OUTPUT_STRING_LENGTH_def
      MAX_SELECTED_OUTPUT_ARRAY_ITEMS_def)

lemma sample_output_admitted:
  "admit_selected_output sample_output_env sample_requirement True sample_output = Inr (Output_Present sample_output)"
  by (simp add: admit_selected_output_def sample_output_normal sample_output_bytes sample_requirement_def
      sample_output_schema_checked)

theorem admit_selected_output_exact_witness:
  "payload_bounded sample_output_env sample_output \<and> conforms sample_output_env sample_output_schema sample_output"
  using admit_selected_output_exact [of sample_requirement sample_output_schema sample_output_env True sample_output
      "Output_Present sample_output"] sample_output_admitted
  by (simp add: sample_requirement_def sample_output_schema_def)

end
