(* ===== verification/Contracts.thy ===== *)
theory Contracts
  imports Selected_Output Requests
begin

text \<open>
  The contracts of an execution, \<^verbatim>\<open>contracts.py\<close>: deadlines, references, requests, what a tool
  executor returns, the terminal intent and the result of a guarded session. A \<open>check_\<close> function
  runs the validators of one class. Paths are POSIX texts; clock readings and durations are finite
  floats, taken as rationals.
\<close>

section \<open>Deadlines\<close>

record deadline =
  dl_started :: rat
  dl_outer :: rat
  dl_compiled :: "rat option"
  dl_effective :: rat
  dl_source :: string

definition check_deadline :: "deadline \<Rightarrow> deadline result" where
  "check_deadline d =
     bind_result (require (0 \<le> dl_started d \<and> 0 \<le> dl_outer d \<and> 0 \<le> dl_effective d
       \<and> (case dl_compiled d of None \<Rightarrow> True | Some c \<Rightarrow> 0 \<le> c)) ''deadlines must not be negative'') (\<lambda>_.
     bind_result (require (dl_started d \<le> dl_outer d) ''outer_deadline_monotonic must not precede start'') (\<lambda>_.
     bind_result (require (dl_started d \<le> dl_effective d) ''effective_deadline_monotonic must not precede start'') (\<lambda>_.
     bind_result (require (dl_effective d \<le> dl_outer d)
       ''effective_deadline_monotonic must not exceed outer deadline'') (\<lambda>_.
     bind_result (case dl_compiled d of
         Some c \<Rightarrow>
           bind_result (require (dl_started d \<le> c) ''compiled_harness_deadline_monotonic must not precede start'') (\<lambda>_.
           bind_result (require (dl_effective d = min (dl_outer d) c)
             ''effective_deadline_monotonic must equal the smaller request or compiled harness deadline'') (\<lambda>_.
           require (dl_source d \<noteq> ''request'')
             ''source=request is invalid when compiled harness deadline is present''))
       | None \<Rightarrow> require (dl_effective d = dl_outer d)
           ''effective_deadline_monotonic must equal outer deadline when no compiled harness deadline is present'') (\<lambda>_.
     Ok d)))))"

definition remaining :: "deadline \<Rightarrow> rat \<Rightarrow> rat" where
  "remaining d now = max 0 (dl_effective d - now)"

definition from_deadlines :: "rat \<Rightarrow> rat \<Rightarrow> rat option \<Rightarrow> deadline result" where
  "from_deadlines started request compiled =
     check_deadline (case compiled of
         None \<Rightarrow> \<lparr>dl_started = started, dl_outer = request, dl_compiled = None, dl_effective = request,
                   dl_source = ''request''\<rparr>
       | Some c \<Rightarrow> \<lparr>dl_started = started, dl_outer = request, dl_compiled = Some c, dl_effective = min request c,
                   dl_source = (if c < request then ''compiled_harness'' else ''request_and_harness'')\<rparr>)"

lemma require_ok [simp]: "is_ok (require b m) \<longleftrightarrow> b"
  by (simp add: require_def)

lemma require_Inr_iff [result_simps]: "require b m = Inr u \<longleftrightarrow> b"
  by (simp add: require_def ensure_Inr)

text \<open>A deadline built from admitted bounds is the earlier of the two, and never before the start.\<close>

lemma from_deadlines_effective:
  "from_deadlines started request compiled = Inr d \<Longrightarrow>
     dl_effective d = (case compiled of None \<Rightarrow> request | Some c \<Rightarrow> min request c)
     \<and> started \<le> dl_effective d \<and> remaining d started = dl_effective d - started"
  by (auto simp: from_deadlines_def check_deadline_def remaining_def result_simps split: option.splits)

lemma from_deadlines_ok:
  "is_ok (from_deadlines started request compiled) \<longleftrightarrow>
     0 \<le> started \<and> started \<le> request \<and> (\<forall>c. compiled = Some c \<longrightarrow> started \<le> c)"
  by (cases compiled) (auto simp: from_deadlines_def check_deadline_def is_ok_bind_const)

section \<open>References\<close>

record artifact_ref =
  ar_artifact_id :: string
  ar_path :: string
  ar_content_type :: "string option"

definition check_artifact_ref :: "artifact_ref \<Rightarrow> artifact_ref result" where
  "check_artifact_ref a =
     bind_result (nonblank_field (ar_artifact_id a) ''artifact_id'') (\<lambda>_.
     bind_result (optional_nonblank (ar_content_type a) ''content_type'') (\<lambda>_. Ok a))"

record run_dir_ref =
  rd_run_id :: string
  rd_path :: string

definition check_run_dir_ref :: "run_dir_ref \<Rightarrow> run_dir_ref result" where
  "check_run_dir_ref r = bind_result (nonblank_field (rd_run_id r) ''run_id'') (\<lambda>_. Ok r)"

record compiled_harness_ref =
  chr_compiled_plan_id :: string
  chr_harness_id :: string
  chr_harness_version :: int
  chr_path :: string
  chr_digest :: string

definition check_compiled_harness_ref :: "compiled_harness_ref \<Rightarrow> compiled_harness_ref result" where
  "check_compiled_harness_ref r =
     bind_result (nonblank_field (chr_compiled_plan_id r) ''compiled_plan_id'') (\<lambda>_.
     bind_result (nonblank_field (chr_harness_id r) ''harness_id'') (\<lambda>_.
     bind_result (require (0 < chr_harness_version r) ''harness_version must be greater than 0'') (\<lambda>_.
     bind_result (sha256_field (chr_digest r) ''digest'') (\<lambda>_. Ok r))))"

record secret_ref =
  sr_secret_id :: string
  sr_env_var :: string

definition check_secret_ref :: "secret_ref \<Rightarrow> secret_ref result" where
  "check_secret_ref s =
     bind_result (nonblank_field (sr_secret_id s) ''secret_id'') (\<lambda>_.
     bind_result (nonblank_field (sr_env_var s) ''env_var'') (\<lambda>_. Ok s))"

record timeout_ref =
  to_timeout_seconds :: rat
  to_deadline :: "string option"

definition check_timeout_ref :: "timeout_ref \<Rightarrow> timeout_ref result" where
  "check_timeout_ref t =
     bind_result (require (0 < to_timeout_seconds t) ''timeout_seconds must be a positive number'') (\<lambda>_. Ok t)"

definition check_cancellation_id :: "string \<Rightarrow> string result" where
  "check_cancellation_id c =
     bind_result (require (nonblank c) ''cancellation_id must be a non-empty string'') (\<lambda>_. Ok c)"

text \<open>\<^verbatim>\<open>HarnessTaskInput\<close>; the text is Latin-1, so it always encodes.\<close>

definition check_task_instruction :: "string \<Rightarrow> string result" where
  "check_task_instruction value =
     bind_result (require (nonblank value) ''instruction must be non-empty after whitespace inspection'') (\<lambda>_.
     bind_result (require (CHR 0x00 \<notin> set value) ''instruction must not contain NUL'') (\<lambda>_.
     bind_result (require (utf8_len value \<le> 65536) ''instruction must not exceed 65,536 UTF-8 bytes'') (\<lambda>_. Ok value)))"

section \<open>The execution request\<close>

text \<open>
  A capability grant is its identifier and its constraints, which nothing here reads.
\<close>

record capability_grant =
  cg_capability_id :: string
  cg_constraints :: "json option"

record harness_execution_request =
  her_request_id :: string
  her_run_id :: string
  her_work_item_id :: string
  her_instruction :: string
  her_stage :: stage_identity
  her_compiled_harness :: compiled_harness_ref
  her_grants :: "capability_grant list"
  her_input_artifacts :: "artifact_ref list"
  her_run_directory :: run_dir_ref
  her_timeout :: timeout_ref
  her_cancellation_id :: string
  her_secret_refs :: "secret_ref list"
  her_model_profile_id :: string
  her_selected_output_requirements :: "terminal_selected_output_requirement list"

text \<open>The first value that was seen before, which the duplicate checks report.\<close>

fun first_duplicate :: "string list \<Rightarrow> string list \<Rightarrow> string option" where
  "first_duplicate seen [] = None"
| "first_duplicate seen (x # xs) = (if x \<in> set seen then Some x else first_duplicate (x # seen) xs)"

definition refuse_duplicate :: "string list \<Rightarrow> string \<Rightarrow> string \<Rightarrow> unit result" where
  "refuse_duplicate values what suffix =
     (case first_duplicate [] values of None \<Rightarrow> Ok ()
      | Some v \<Rightarrow> refused (''Duplicate '' @ what @ '' '' @ py_repr v @ suffix))"

definition check_grants :: "capability_grant list \<Rightarrow> unit result" where
  "check_grants gs =
     bind_result (traverse (\<lambda>g. nonblank_field (cg_capability_id g) ''capability_id'') gs) (\<lambda>_.
     unique_field (map cg_capability_id gs) ''capability_id'')"

text \<open>
  The requirements are checked and put in the order of their terminal results; the six model
  validators follow in the order they are written.
\<close>

definition check_execution_request :: "harness_execution_request \<Rightarrow> harness_execution_request result" where
  "check_execution_request r =
     bind_result (check_task_instruction (her_instruction r)) (\<lambda>_.
     bind_result (check_stage_identity (her_stage r)) (\<lambda>_.
     bind_result (check_compiled_harness_ref (her_compiled_harness r)) (\<lambda>_.
     bind_result (check_grants (her_grants r)) (\<lambda>_.
     bind_result (traverse check_artifact_ref (her_input_artifacts r)) (\<lambda>_.
     bind_result (check_run_dir_ref (her_run_directory r)) (\<lambda>_.
     bind_result (check_timeout_ref (her_timeout r)) (\<lambda>_.
     bind_result (check_cancellation_id (her_cancellation_id r)) (\<lambda>_.
     bind_result (traverse check_secret_ref (her_secret_refs r)) (\<lambda>_.
     bind_result (nonblank_field (her_model_profile_id r) ''profile_id'') (\<lambda>_.
     bind_result (selected_output_requirements_by_terminal_result (her_selected_output_requirements r)) (\<lambda>lookup.
     bind_result (require (her_run_id r = rd_run_id (her_run_directory r))
       (''HarnessExecutionRequest.run_id ('' @ py_repr (her_run_id r) @ '') must match RunDirRef.run_id (''
          @ py_repr (rd_run_id (her_run_directory r)) @ '')'')) (\<lambda>_.
     bind_result (require (SHA256_RE (chr_digest (her_compiled_harness r)))
       ''CompiledHarnessHash digest must be exactly 64 lowercase hex characters'') (\<lambda>_.
     bind_result (refuse_duplicate (map cg_capability_id (her_grants r)) ''capability_id'' '' in CapabilityEnvelope'') (\<lambda>_.
     bind_result (refuse_duplicate (map ar_artifact_id (her_input_artifacts r)) ''artifact_id'' '' in input_artifacts'') (\<lambda>_.
     bind_result (refuse_duplicate (map sr_secret_id (her_secret_refs r)) ''secret_id'' '' in secret_refs'') (\<lambda>_.
     bind_result (refuse_duplicate (map sr_env_var (her_secret_refs r)) ''env_var'' '' in secret_refs'') (\<lambda>_.
     Ok (r\<lparr>her_selected_output_requirements :=
       map (\<lambda>(t, o'). \<lparr>tsor_terminal_result = t, tsor_selected_output = o'\<rparr>) lookup\<rparr>))))))))))))))))))"

section \<open>Tool results\<close>

record side_effect_record =
  ser_certainty :: side_effect_certainty
  ser_detail_code :: string
  ser_summary :: string
  ser_retry_allowed :: bool

record timing_metadata =
  tm_started_at :: string
  tm_completed_at :: string
  tm_duration_ms :: rat

record tool_execution_result =
  ter_call_id :: string
  ter_status :: tool_execution_status
  ter_summary :: string
  ter_structured_data :: json
  ter_artifact_refs :: "artifact_ref list"
  ter_error_code :: "string option"
  ter_retryable :: bool
  ter_side_effect_class :: side_effect_class
  ter_idempotency :: idempotency_class
  ter_side_effect_certainty :: side_effect_certainty
  ter_side_effect_record :: "side_effect_record option"
  ter_input_sha256 :: string
  ter_output_sha256 :: "string option"
  ter_timing :: timing_metadata

definition check_side_effect_record :: "side_effect_record \<Rightarrow> side_effect_record result" where
  "check_side_effect_record s =
     bind_result (nonblank_field (ser_detail_code s) ''detail_code'') (\<lambda>_.
     bind_result (nonblank_field (ser_summary s) ''summary'') (\<lambda>_. Ok s))"

definition result_consistency :: "tool_execution_result \<Rightarrow> unit result" where
  "result_consistency r =
     bind_result (if ter_status r = SUCCESS
       then bind_result (require (ter_error_code r = None) ''successful tool results must not include error_code'') (\<lambda>_.
            require (\<not> ter_retryable r) ''successful tool results must not be retryable'')
       else require (ter_error_code r \<noteq> None) ''failed tool results require error_code'') (\<lambda>_.
     bind_result (require (\<not> unsafe_retry (ter_side_effect_certainty r) (ter_idempotency r) (ter_retryable r))
       unsafe_retry_message) (\<lambda>_.
     case ter_side_effect_record r of
       None \<Rightarrow> Ok ()
     | Some s \<Rightarrow>
         bind_result (require (ser_certainty s = ter_side_effect_certainty r)
           ''side_effect_record certainty must match side_effect_certainty'') (\<lambda>_.
         require (ser_retry_allowed s = ter_retryable r) ''side_effect_record retry_allowed must match retryable'')))"

definition check_tool_execution_result :: "tool_execution_result \<Rightarrow> tool_execution_result result" where
  "check_tool_execution_result r =
     bind_result (nonblank_field (ter_call_id r) ''call_id'') (\<lambda>_.
     bind_result (nonblank_field (ter_summary r) ''summary'') (\<lambda>_.
     bind_result (traverse check_artifact_ref (ter_artifact_refs r)) (\<lambda>_.
     bind_result (optional_nonblank (ter_error_code r) ''error_code'') (\<lambda>_.
     bind_result (optional check_side_effect_record (ter_side_effect_record r)) (\<lambda>_.
     bind_result (sha256_field (ter_input_sha256 r) ''input_sha256'') (\<lambda>_.
     bind_result (optional_sha256 (ter_output_sha256 r) ''output_sha256'') (\<lambda>_.
     bind_result (require (0 \<le> tm_duration_ms (ter_timing r)) ''duration_ms must not be negative'') (\<lambda>_.
     bind_result (result_consistency r) (\<lambda>_. Ok r)))))))))"

section \<open>Sessions\<close>

datatype disposition = Success | Blocked | Rejected | Escalated

record terminal_intent =
  ti_request_id :: string
  ti_run_id :: string
  ti_stage :: stage_identity
  ti_terminal_node_id :: string
  ti_terminal_result :: string
  ti_disposition :: disposition
  ti_summary :: string
  ti_artifact_refs :: "artifact_ref list"
  ti_selected_output :: "selected_output option"
  ti_selected_output_schema_sha256 :: "string option"

definition check_terminal_intent :: "terminal_intent \<Rightarrow> terminal_intent result" where
  "check_terminal_intent t =
     bind_result (require (nonblank (ti_request_id t)) ''request_id must be a non-empty string'') (\<lambda>_.
     bind_result (check_stage_identity (ti_stage t)) (\<lambda>_.
     bind_result (require (nonblank (ti_terminal_node_id t)) ''terminal_node_id must be a non-empty string'') (\<lambda>_.
     bind_result (require (nonblank (ti_terminal_result t)) ''terminal_result must be a non-empty string'') (\<lambda>_.
     bind_result (require (nonblank (ti_summary t)) ''summary must be a non-empty string'') (\<lambda>_.
     bind_result (traverse check_artifact_ref (ti_artifact_refs t)) (\<lambda>_.
     bind_result (optional_sha256 (ti_selected_output_schema_sha256 t) ''selected_output_schema_sha256'') (\<lambda>_.
     bind_result (require ((ti_selected_output t = None) = (ti_selected_output_schema_sha256 t = None))
       ''selected_output and selected_output_schema_sha256 must be paired'') (\<lambda>_. Ok t))))))))"

datatype guarded_session_status =
    TERMINAL_STATUS | REJECTED_STATUS | SESSION_BACKEND_FAILED | MODEL_FAILED | SESSION_TOOL_FAILED
  | SESSION_BUDGET_EXHAUSTED | PREREQUISITE_BUDGET_EXHAUSTED | SESSION_TIMED_OUT | SESSION_CANCELLED | INVALID_TERMINAL

record token_usage =
  tu_input_tokens :: int
  tu_output_tokens :: int
  tu_total_tokens :: int
  tu_provider_reported :: bool

definition check_token_usage :: "token_usage \<Rightarrow> token_usage result" where
  "check_token_usage u =
     bind_result (require (0 \<le> tu_input_tokens u \<and> 0 \<le> tu_output_tokens u \<and> 0 \<le> tu_total_tokens u)
       ''token counts must not be negative'') (\<lambda>_.
     bind_result (require (tu_total_tokens u = tu_input_tokens u + tu_output_tokens u)
       ''total_tokens must equal input_tokens + output_tokens'') (\<lambda>_. Ok u))"

record usage_metadata =
  um_model_calls :: nat
  um_tool_calls :: nat
  um_token_usage :: "token_usage option"

record diagnostic_metadata =
  dm_error_code :: string
  dm_category :: string
  dm_message :: string
  dm_retryable :: bool
  dm_origin :: string

record guarded_session_request =
  gsr_session_id :: string
  gsr_execution_request :: harness_execution_request
  gsr_deadline :: deadline
  gsr_trusted_context :: bool

record guarded_session_result =
  res_session_id :: string
  res_status :: guarded_session_status
  res_terminal_intent :: "terminal_intent option"
  res_artifact_refs :: "artifact_ref list"
  res_usage :: "usage_metadata option"
  res_timing :: timing_metadata
  res_diagnostic :: "diagnostic_metadata option"
  res_events :: "session_event list"
  res_tool_trace :: "tool_trace_record list"

end
