(* ===== verification/Messages.thy ===== *)
theory Messages
  imports Json
begin

text \<open>
  The conversation of the guarded loop: \<^verbatim>\<open>_forge/core/messages.py\<close>, the data classes of
  \<^verbatim>\<open>_forge/core/workflow.py\<close>, the nudge texts of \<^verbatim>\<open>_forge/prompts/nudges.py\<close>
  and \<^verbatim>\<open>_forge/guardrails/nudge.py\<close>, and the serialisation of a conversation
  (\<^verbatim>\<open>fold_and_serialize\<close>, \<^verbatim>\<open>_build_tool_call_infos\<close> of \<^verbatim>\<open>_forge/core/inference.py\<close>).
  Argument values are JSON values. A tool specification is its name, description and parameter
  schema; how a finite float is printed is the parameter \<open>fr\<close>. Characters have eight bits here, so
  the em dash of a nudge is written as the character 0x97.
\<close>

section \<open>Values\<close>

text \<open>\<^verbatim>\<open>bool(v)\<close>.\<close>

fun truthy :: "json \<Rightarrow> bool" where
  "truthy JNull = False"
| "truthy (JBool b) = b"
| "truthy (JInt i) = (i \<noteq> 0)"
| "truthy (JFloat f) = (f \<noteq> Finite 0)"
| "truthy (JStr s) = (s \<noteq> [])"
| "truthy (JArr xs) = (xs \<noteq> [])"
| "truthy (JObj kvs) = (kvs \<noteq> [])"

fun is_object :: "json \<Rightarrow> bool" where
  "is_object (JObj _) = True"
| "is_object _ = False"

fun type_name :: "json \<Rightarrow> string" where
  "type_name JNull = ''NoneType''"
| "type_name (JBool _) = ''bool''"
| "type_name (JInt _) = ''int''"
| "type_name (JFloat _) = ''float''"
| "type_name (JStr _) = ''str''"
| "type_name (JArr _) = ''list''"
| "type_name (JObj _) = ''dict''"

text \<open>
  \<^verbatim>\<open>==\<close> on values: numbers and booleans compare by value, lists element by element,
  dictionaries by key whatever their order; a NaN differs from everything.
\<close>

fun py_number :: "json \<Rightarrow> pyfloat option" where
  "py_number (JBool b) = Some (Finite (if b then 1 else 0))"
| "py_number (JInt i) = Some (Finite (of_int i))"
| "py_number (JFloat f) = Some f"
| "py_number _ = None"

fun py_eq :: "json \<Rightarrow> json \<Rightarrow> bool"
  and py_eq_items :: "json list \<Rightarrow> json list \<Rightarrow> bool"
  and py_eq_members :: "(string \<times> json) list \<Rightarrow> (string \<times> json) list \<Rightarrow> bool" where
  "py_eq JNull w = (w = JNull)"
| "py_eq (JBool b) w = (py_number w = Some (Finite (if b then 1 else 0)))"
| "py_eq (JInt i) w = (py_number w = Some (Finite (of_int i)))"
| "py_eq (JFloat f) w = (f \<noteq> NaN \<and> py_number w = Some f)"
| "py_eq (JStr s) w = (w = JStr s)"
| "py_eq (JArr xs) w = (case w of JArr ys \<Rightarrow> length xs = length ys \<and> py_eq_items xs ys | _ \<Rightarrow> False)"
| "py_eq (JObj kvs) w = (case w of JObj kvs' \<Rightarrow> length kvs = length kvs' \<and> py_eq_members kvs kvs' | _ \<Rightarrow> False)"
| "py_eq_items [] ys = True"
| "py_eq_items (x # xs) ys = (case ys of [] \<Rightarrow> True | y # ys' \<Rightarrow> py_eq x y \<and> py_eq_items xs ys')"
| "py_eq_members [] kvs' = True"
| "py_eq_members ((k, v) # kvs) kvs' =
     ((case map_of kvs' k of None \<Rightarrow> False | Some w \<Rightarrow> py_eq v w) \<and> py_eq_members kvs kvs')"

definition quoted :: "string \<Rightarrow> string" where
  "quoted s = [quote_chr] @ s @ [quote_chr]"

text \<open>\<^verbatim>\<open>json.dumps(v)\<close> and \<^verbatim>\<open>repr(v)\<close>.\<close>

fun float_dump :: "(rat \<Rightarrow> string) \<Rightarrow> pyfloat \<Rightarrow> string" where
  "float_dump fr (Finite q) = fr q"
| "float_dump fr NaN = ''NaN''"
| "float_dump fr PosInf = ''Infinity''"
| "float_dump fr NegInf = ''-Infinity''"

fun json_plain :: "(rat \<Rightarrow> string) \<Rightarrow> json \<Rightarrow> string"
  and json_plain_items :: "(rat \<Rightarrow> string) \<Rightarrow> json list \<Rightarrow> string list"
  and json_plain_members :: "(rat \<Rightarrow> string) \<Rightarrow> (string \<times> json) list \<Rightarrow> string list" where
  "json_plain fr JNull = ''null''"
| "json_plain fr (JBool b) = (if b then ''true'' else ''false'')"
| "json_plain fr (JInt i) = show_int i"
| "json_plain fr (JFloat f) = float_dump fr f"
| "json_plain fr (JStr s) = json_string s"
| "json_plain fr (JArr xs) = ''['' @ join_str '', '' (json_plain_items fr xs) @ '']''"
| "json_plain fr (JObj kvs) = ''{'' @ join_str '', '' (json_plain_members fr kvs) @ ''}''"
| "json_plain_items fr [] = []"
| "json_plain_items fr (x # xs) = json_plain fr x # json_plain_items fr xs"
| "json_plain_members fr [] = []"
| "json_plain_members fr ((k, v) # kvs) =
     (json_string k @ '': '' @ json_plain fr v) # json_plain_members fr kvs"

fun float_repr :: "(rat \<Rightarrow> string) \<Rightarrow> pyfloat \<Rightarrow> string" where
  "float_repr fr (Finite q) = fr q"
| "float_repr fr NaN = ''nan''"
| "float_repr fr PosInf = ''inf''"
| "float_repr fr NegInf = ''-inf''"

fun value_repr :: "(rat \<Rightarrow> string) \<Rightarrow> json \<Rightarrow> string"
  and items_repr :: "(rat \<Rightarrow> string) \<Rightarrow> json list \<Rightarrow> string list"
  and members_repr :: "(rat \<Rightarrow> string) \<Rightarrow> (string \<times> json) list \<Rightarrow> string list" where
  "value_repr fr JNull = ''None''"
| "value_repr fr (JBool b) = (if b then ''True'' else ''False'')"
| "value_repr fr (JInt i) = show_int i"
| "value_repr fr (JFloat f) = float_repr fr f"
| "value_repr fr (JStr s) = py_repr s"
| "value_repr fr (JArr xs) = ''['' @ join_str '', '' (items_repr fr xs) @ '']''"
| "value_repr fr (JObj kvs) = ''{'' @ join_str '', '' (members_repr fr kvs) @ ''}''"
| "items_repr fr [] = []"
| "items_repr fr (x # xs) = value_repr fr x # items_repr fr xs"
| "members_repr fr [] = []"
| "members_repr fr ((k, v) # kvs) = (py_repr k @ '': '' @ value_repr fr v) # members_repr fr kvs"

section \<open>Messages\<close>

datatype message_role = ROLE_SYSTEM | ROLE_USER | ROLE_ASSISTANT | ROLE_TOOL

fun role_value :: "message_role \<Rightarrow> string" where
  "role_value ROLE_SYSTEM = ''system''"
| "role_value ROLE_USER = ''user''"
| "role_value ROLE_ASSISTANT = ''assistant''"
| "role_value ROLE_TOOL = ''tool''"

datatype message_type =
    SYSTEM_PROMPT | USER_INPUT | TOOL_CALL | TOOL_RESULT | REASONING | TEXT_RESPONSE
  | STEP_NUDGE | PREREQUISITE_NUDGE | RETRY_NUDGE | CONTEXT_WARNING | SUMMARY

record message_meta =
  mm_type :: message_type
  mm_step_index :: "int option"
  mm_original_type :: "message_type option"
  mm_token_estimate :: "int option"

record tool_call_info =
  tci_name :: string
  tci_args :: json
  tci_call_id :: string

record message =
  msg_role :: message_role
  msg_content :: string
  msg_metadata :: message_meta
  msg_tool_name :: "string option"
  msg_tool_call_id :: "string option"
  msg_tool_calls :: "tool_call_info list option"
  msg_reasoning_content :: "string option"

abbreviation msg_step :: "message \<Rightarrow> int option" where
  "msg_step m \<equiv> mm_step_index (msg_metadata m)"

abbreviation msg_type :: "message \<Rightarrow> message_type" where
  "msg_type m \<equiv> mm_type (msg_metadata m)"

text \<open>
  The messages the loop builds: plain ones, the assistant message that carries tool calls, and the
  answers to a call.
\<close>

definition plain_message :: "message_role \<Rightarrow> string \<Rightarrow> message_type \<Rightarrow> int option \<Rightarrow> message" where
  "plain_message role content mtype step =
     \<lparr>msg_role = role, msg_content = content,
      msg_metadata = \<lparr>mm_type = mtype, mm_step_index = step, mm_original_type = None, mm_token_estimate = None\<rparr>,
      msg_tool_name = None, msg_tool_call_id = None, msg_tool_calls = None, msg_reasoning_content = None\<rparr>"

definition calls_message :: "tool_call_info list \<Rightarrow> string option \<Rightarrow> int \<Rightarrow> message" where
  "calls_message infos reasoning_content step =
     (plain_message ROLE_ASSISTANT '''' TOOL_CALL (Some step))
       \<lparr>msg_tool_calls := Some infos, msg_reasoning_content := reasoning_content\<rparr>"

definition answer_message :: "string \<Rightarrow> message_type \<Rightarrow> string \<Rightarrow> string \<Rightarrow> int \<Rightarrow> message" where
  "answer_message content mtype tool_name call_id step =
     (plain_message ROLE_TOOL content mtype (Some step))
       \<lparr>msg_tool_name := Some tool_name, msg_tool_call_id := Some call_id\<rparr>"

definition tool_call_entry :: "(rat \<Rightarrow> string) \<Rightarrow> string \<Rightarrow> tool_call_info \<Rightarrow> json" where
  "tool_call_entry fr fmt tc =
     (let args = (if tci_args tc = JNull then JObj [] else tci_args tc);
          arguments = (if fmt = ''openai''
            then (case args of JStr s \<Rightarrow> JStr s | _ \<Rightarrow> JStr (json_plain fr args)) else args);
          entry = [(''function'', JObj [(''name'', JStr (tci_name tc)), (''arguments'', arguments)])]
      in JObj (if fmt = ''openai''
               then entry @ [(''type'', JStr ''function''), (''id'', JStr (tci_call_id tc))] else entry))"

definition to_api_dict :: "(rat \<Rightarrow> string) \<Rightarrow> string \<Rightarrow> message \<Rightarrow> (string \<times> json) list" where
  "to_api_dict fr fmt m =
     (case msg_tool_calls m of
        Some calls \<Rightarrow>
          [(''role'', JStr (role_value (msg_role m))), (''content'', JStr (msg_content m)),
           (''tool_calls'', JArr (map (tool_call_entry fr fmt) calls))]
          @ (case msg_reasoning_content m of None \<Rightarrow> [] | Some r \<Rightarrow> [(''reasoning_content'', JStr r)])
      | None \<Rightarrow>
          [(''role'', JStr (role_value (msg_role m))), (''content'', JStr (msg_content m))]
          @ (case msg_tool_name m of
               None \<Rightarrow> []
             | Some name \<Rightarrow>
                 if fmt = ''openai''
                 then (''name'', JStr name) # (case msg_tool_call_id m of None \<Rightarrow> []
                        | Some i \<Rightarrow> [(''tool_call_id'', JStr i)])
                 else [(''tool_name'', JStr name)]))"

text \<open>
  \<^verbatim>\<open>fold_and_serialize\<close>: a reasoning message is held back and becomes the content of the
  tool-call message that follows it, or a message of its own.
\<close>

definition reasoning_entry :: "string \<Rightarrow> (string \<times> json) list" where
  "reasoning_entry r = [(''role'', JStr ''assistant''), (''content'', JStr r)]"

fun fold_messages ::
  "(rat \<Rightarrow> string) \<Rightarrow> string \<Rightarrow> string option \<Rightarrow> message list \<Rightarrow> (string \<times> json) list list" where
  "fold_messages fr fmt pending [] = (case pending of None \<Rightarrow> [] | Some r \<Rightarrow> [reasoning_entry r])"
| "fold_messages fr fmt pending (m # ms) =
     (if msg_type m = REASONING \<and> msg_role m = ROLE_ASSISTANT
      then fold_messages fr fmt (Some (msg_content m)) ms
      else case pending of
          None \<Rightarrow> to_api_dict fr fmt m # fold_messages fr fmt None ms
        | Some r \<Rightarrow>
            if msg_tool_calls m \<noteq> None
            then dict_set (to_api_dict fr fmt m) ''content'' (JStr r) # fold_messages fr fmt None ms
            else reasoning_entry r # to_api_dict fr fmt m # fold_messages fr fmt None ms)"

definition fold_and_serialize ::
  "(rat \<Rightarrow> string) \<Rightarrow> message list \<Rightarrow> string \<Rightarrow> (string \<times> json) list list" where
  "fold_and_serialize fr messages api_format = fold_messages fr api_format None messages"

section \<open>Responses and workflows\<close>

record tool_call =
  tc_tool :: string
  tc_args :: json
  tc_reasoning :: "string option"
  tc_call_id :: "string option"
  tc_reasoning_content :: "string option"

datatype llm_response = TextResponse string | ToolCalls "tool_call list"

text \<open>
  A prerequisite is a tool name, or a dictionary with the name and the optional argument names;
  one without the name cannot be part of a workflow (\<^verbatim>\<open>prereq["tool"]\<close> raises).
\<close>

record argument_prerequisite =
  ap_tool :: string
  ap_prerequisite_arg :: "string option"
  ap_current_arg :: "string option"
  ap_match_arg :: "string option"

datatype prerequisite = By_Name string | By_Argument argument_prerequisite

fun prereq_name :: "prerequisite \<Rightarrow> string" where
  "prereq_name (By_Name t) = t"
| "prereq_name (By_Argument p) = ap_tool p"

record tool_spec =
  ts_name :: string
  ts_description :: string
  ts_parameters :: json

record tool_def =
  tdef_spec :: tool_spec
  tdef_prerequisites :: "prerequisite list"

record workflow =
  wf_name :: string
  wf_description :: string
  wf_tools :: "(string \<times> tool_def) list"
  wf_required_steps :: "string list"
  wf_terminal_tool :: "string list"
  wf_system_prompt_template :: string

text \<open>
  \<^verbatim>\<open>__post_init__\<close>; a single terminal tool is the list of it. The order in which the code
  visits the set of terminal tools is not fixed, only which of several errors is raised depends on
  it; the rendering of the set of tool names at the end of the messages is left out.
\<close>

definition check_workflow :: "workflow \<Rightarrow> workflow result" where
  "check_workflow w =
     (let tool_names = keys (wf_tools w) in
      bind_result (traverse (\<lambda>(key, d). ensure (key = ts_name (tdef_spec d))
        (ValueError (''Tool key '' @ quoted key @ '' does not match ToolDef name '' @ quoted (ts_name (tdef_spec d)))))
        (wf_tools w)) (\<lambda>_.
      bind_result (traverse (\<lambda>step. ensure (step \<in> set tool_names)
        (ValueError (''Required step '' @ quoted step @ '' not in tools''))) (wf_required_steps w)) (\<lambda>_.
      bind_result (traverse (\<lambda>tt.
          bind_result (ensure (tt \<in> set tool_names)
            (ValueError (''Terminal tool '' @ quoted tt @ '' not in tools''))) (\<lambda>_.
          ensure (tt \<notin> set (wf_required_steps w))
            (ValueError (''Terminal tool '' @ quoted tt @ '' cannot also be a required step''))))
        (wf_terminal_tool w)) (\<lambda>_.
      bind_result (traverse (\<lambda>(key, d). traverse (\<lambda>p. ensure (prereq_name p \<in> set tool_names)
          (ValueError (''Prerequisite '' @ quoted (prereq_name p) @ '' for tool '' @ quoted key
             @ '' not in tools''))) (tdef_prerequisites d)) (wf_tools w)) (\<lambda>_. Ok w)))))"

definition get_tool_specs :: "workflow \<Rightarrow> tool_spec list" where
  "get_tool_specs w = map (tdef_spec \<circ> snd) (wf_tools w)"

definition workflow_sound :: "workflow \<Rightarrow> bool" where
  "workflow_sound w \<longleftrightarrow>
     (\<forall>(key, d) \<in> set (wf_tools w). key = ts_name (tdef_spec d)
        \<and> (\<forall>p \<in> set (tdef_prerequisites d). prereq_name p \<in> set (keys (wf_tools w))))
     \<and> set (wf_required_steps w) \<subseteq> set (keys (wf_tools w))
     \<and> set (wf_terminal_tool w) \<subseteq> set (keys (wf_tools w)) - set (wf_required_steps w)"

lemma check_workflow_Inr: "check_workflow w = Inr w' \<longleftrightarrow> w' = w \<and> workflow_sound w"
proof -
  have "is_ok (check_workflow w) \<longleftrightarrow> workflow_sound w"
    unfolding check_workflow_def workflow_sound_def Let_def is_ok_bind_const traverse_is_ok
    by (auto simp: is_ok_bind_const traverse_is_ok split: prod.splits)
  moreover have "check_workflow w = Inr v \<Longrightarrow> v = w" for v
    unfolding check_workflow_def Let_def bind_result_Inr by auto
  ultimately show ?thesis by (auto simp: is_ok_iff)
qed

section \<open>Call identifiers\<close>

text \<open>\<^verbatim>\<open>f"call_{n:09d}"\<close>.\<close>

definition call_id_text :: "nat \<Rightarrow> string" where
  "call_id_text n = ''call_'' @ replicate (9 - length (show_nat n)) (CHR ''0'') @ show_nat n"

fun build_tool_call_infos :: "tool_call list \<Rightarrow> nat \<Rightarrow> tool_call_info list \<times> nat" where
  "build_tool_call_infos [] counter = ([], counter)"
| "build_tool_call_infos (tc # tcs) counter =
     (let (tc_id, counter') = (case tc_call_id tc of
            Some i \<Rightarrow> (i, counter) | None \<Rightarrow> (call_id_text counter, Suc counter));
          (infos, counter'') = build_tool_call_infos tcs counter'
      in (\<lparr>tci_name = tc_tool tc, tci_args = tc_args tc, tci_call_id = tc_id\<rparr> # infos, counter''))"

section \<open>Nudges\<close>

record nudge =
  nudge_role :: string
  nudge_content :: string
  nudge_kind :: string
  nudge_tier :: nat

definition TOOL_ERROR_KINDS :: "string list" where
  "TOOL_ERROR_KINDS = [''tool_arg_validation'']"

definition TOOL_CHANNEL_KINDS :: "string list" where
  "TOOL_CHANNEL_KINDS = [''unknown_tool'', ''tool_arg_validation'']"

definition NUDGE_KIND_TO_TYPE :: "(string \<times> message_type) list" where
  "NUDGE_KIND_TO_TYPE =
     [(''retry'', RETRY_NUDGE), (''unknown_tool'', RETRY_NUDGE), (''tool_arg_validation'', RETRY_NUDGE),
      (''step'', STEP_NUDGE), (''prerequisite'', PREREQUISITE_NUDGE)]"

definition retry_nudge :: "string \<Rightarrow> string" where
  "retry_nudge raw_response =
     ''Your previous response was not a valid tool call. You must respond with a tool call, not free text. Please try again with a valid tool call.''"

definition unknown_tool_nudge :: "string \<Rightarrow> string list \<Rightarrow> string" where
  "unknown_tool_nudge tool_name available_tools =
     ''Tool '' @ quoted tool_name @ '' does not exist. Available tools: ''
       @ join_str '', '' available_tools @ ''. Call one of them.''"

definition step_nudge :: "string \<Rightarrow> string list \<Rightarrow> nat \<Rightarrow> string" where
  "step_nudge terminal_tool pending_steps tier0 =
     (let tier = max 1 (min 3 tier0); steps = join_str '', '' pending_steps in
      if tier = 1
      then ''You cannot call '' @ terminal_tool @ '' yet. You must first complete these required steps: ''
             @ steps @ ''. Call one of them now.''
      else if tier = 2
      then ''You must call one of these tools now: '' @ steps @ ''. Pick one.''
      else ''STOP. You MUST call one of: '' @ steps @ ''. Do NOT call '' @ terminal_tool
             @ ''. Your next response MUST be a tool call to one of: '' @ steps @ ''.'')"

definition tool_arg_validation_nudge :: "(rat \<Rightarrow> string) \<Rightarrow> string \<Rightarrow> json \<Rightarrow> string" where
  "tool_arg_validation_nudge fr tool_name args =
     ''Tool call to '' @ quoted tool_name @ '' had malformed arguments. Got args=''
       @ value_repr fr args @ '' (type: '' @ type_name args
       @ ''). Required: args must be a JSON object (dict). Re-emit the tool call with args as an object ''
       @ [CHR 0x97] @ '' {} for no-arg tools or {\"key\": value} otherwise.''"

definition prerequisite_nudge :: "string \<Rightarrow> string list \<Rightarrow> string" where
  "prerequisite_nudge tool_name missing_prereqs =
     ''You cannot call '' @ tool_name @ '' yet. You must first call: '' @ join_str '', '' missing_prereqs
       @ ''. Call the prerequisite tool now.''"

end
