(* ===== verification/Rescue.thy ===== *)
theory Rescue
  imports Messages
begin

text \<open>
  Tool calls written as text: \<^verbatim>\<open>rescue_tool_call\<close> and its four parsers, from
  \<^verbatim>\<open>_forge/prompts/templates.py\<close>. A regular expression is the scanner it denotes: a search
  goes left to right, a lazy repetition ends at the first place where the rest matches. The JSON
  parser of the standard library is the parameter \<open>loads\<close> (\<open>None\<close> for a decode error; any
  other exception of it, as a \<^verbatim>\<open>RecursionError\<close> on very deep text, is outside the model).
\<close>

section \<open>Scanning\<close>

fun starts_with :: "string \<Rightarrow> string \<Rightarrow> bool" where
  "starts_with [] s = True"
| "starts_with (p # ps) [] = False"
| "starts_with (p # ps) (c # cs) = (p = c \<and> starts_with ps cs)"

text \<open>The text before the first occurrence of a pattern, and the text after it.\<close>

fun split_at :: "string \<Rightarrow> string \<Rightarrow> (string \<times> string) option" where
  "split_at pat [] = (if pat = [] then Some ([], []) else None)"
| "split_at pat (c # cs) =
     (if starts_with pat (c # cs) then Some ([], drop (length pat) (c # cs))
      else map_option (\<lambda>(before, after). (c # before, after)) (split_at pat cs))"

definition is_word :: "char \<Rightarrow> bool" where
  "is_word c = (let n = of_char c :: nat in
     (48 \<le> n \<and> n \<le> 57) \<or> (65 \<le> n \<and> n \<le> 90) \<or> (97 \<le> n \<and> n \<le> 122) \<or> n = 95
     \<or> n \<in> {170, 178, 179, 181, 185, 186, 188, 189, 190}
     \<or> (192 \<le> n \<and> n \<noteq> 215 \<and> n \<noteq> 247))"

definition strip_text :: "string \<Rightarrow> string" where
  "strip_text s = rev (dropWhile is_space (rev (dropWhile is_space s)))"

lemma split_at_length: "split_at pat s = Some (b, a) \<Longrightarrow> length b + length a + length pat = length s"
proof (induction pat s arbitrary: b a rule: split_at.induct)
  case (2 pat c cs)
  have "length pat \<le> length s" if "starts_with pat s" for s
    using that by (induction pat s rule: starts_with.induct) auto
  then show ?case using 2 by (fastforce split: if_splits)
qed (auto split: if_splits)

text \<open>\<^verbatim>\<open>_THINK_TAG_RE.sub("", text)\<close>; an opening tag that is not closed stays.\<close>

function strip_think :: "string \<Rightarrow> string" where
  "strip_think [] = []"
| "strip_think (c # cs) =
     (case (if starts_with ''[THINK]'' (c # cs) then split_at ''[/THINK]'' (drop 7 (c # cs)) else None) of
        Some (_, rest) \<Rightarrow> strip_think rest
      | None \<Rightarrow>
         (case (if starts_with ''<think>'' (c # cs) then split_at ''</think>'' (drop 7 (c # cs)) else None) of
            Some (_, rest) \<Rightarrow> strip_think rest
          | None \<Rightarrow> c # strip_think cs))"
  by pat_completeness auto
termination
  by (relation "measure length") (auto dest!: split_at_length split: if_splits)

text \<open>The two substitutions that remove code fences.\<close>

function strip_fence_open :: "string \<Rightarrow> string" where
  "strip_fence_open [] = []"
| "strip_fence_open (c # cs) =
     (if starts_with ''```'' (c # cs)
      then (let rest = drop 3 (c # cs)
            in strip_fence_open (dropWhile is_space (if starts_with ''json'' rest then drop 4 rest else rest)))
      else c # strip_fence_open cs)"
  by pat_completeness auto
termination
  by (relation "measure length")
    (auto intro!: le_imp_less_Suc order.trans [OF length_dropWhile_le])

function strip_fence :: "string \<Rightarrow> string" where
  "strip_fence [] = []"
| "strip_fence (c # cs) =
     (if starts_with ''```'' (c # cs) then strip_fence (drop 3 (c # cs)) else c # strip_fence cs)"
  by pat_completeness auto
termination by (relation "measure length") auto

section \<open>Embedded JSON\<close>

definition mk_tool_call :: "string \<Rightarrow> json \<Rightarrow> tool_call" where
  "mk_tool_call name args =
     \<lparr>tc_tool = name, tc_args = args, tc_reasoning = None, tc_call_id = None, tc_reasoning_content = None\<rparr>"

definition jget_or_null :: "(string \<times> json) list \<Rightarrow> string \<Rightarrow> json" where
  "jget_or_null kvs k = (case map_of kvs k of None \<Rightarrow> JNull | Some v \<Rightarrow> v)"

definition try_parse_tool_call ::
  "(string \<Rightarrow> json option) \<Rightarrow> string \<Rightarrow> string list \<Rightarrow> tool_call option" where
  "try_parse_tool_call loads json_str available_tools =
     (case loads json_str of
        Some (JObj data) \<Rightarrow>
          (let tool = jget_or_null data ''tool'';
               tool_name = (if truthy tool then tool else jget_or_null data ''name'');
               args = jget_or_null data ''args''
           in case tool_name of
                JStr name \<Rightarrow>
                  if name \<notin> set available_tools then None
                  else Some (mk_tool_call name
                    (if args = JNull
                     then (case map_of data ''arguments'' of None \<Rightarrow> JObj [] | Some v \<Rightarrow> v) else args))
              | _ \<Rightarrow> None)
      | _ \<Rightarrow> None)"

text \<open>The text up to the brace that closes the first one, and the rest.\<close>

fun brace_span :: "nat \<Rightarrow> string \<Rightarrow> (string \<times> string) option" where
  "brace_span depth [] = None"
| "brace_span depth (c # cs) =
     (if c = CHR ''{'' then map_option (\<lambda>(s, r). (c # s, r)) (brace_span (Suc depth) cs)
      else if c = CHR ''}''
      then (if depth = 1 then Some ([c], cs) else map_option (\<lambda>(s, r). (c # s, r)) (brace_span (depth - 1) cs))
      else map_option (\<lambda>(s, r). (c # s, r)) (brace_span depth cs))"

lemma brace_span_append: "brace_span d s = Some (b, r) \<Longrightarrow> s = b @ r \<and> b \<noteq> []"
proof (induction d s arbitrary: b r rule: brace_span.induct)
  case (2 d c cs)
  then show ?case by (auto split: if_splits)
qed simp

lemma brace_span_length: "brace_span d s = Some (b, r) \<Longrightarrow> length r < length s"
  by (auto dest!: brace_span_append)

function extract_loop :: "(string \<Rightarrow> json option) \<Rightarrow> string list \<Rightarrow> string \<Rightarrow> tool_call list" where
  "extract_loop loads tools [] = []"
| "extract_loop loads tools (c # cs) =
     (if c = CHR ''{''
      then (case brace_span 0 (c # cs) of
          None \<Rightarrow> extract_loop loads tools cs
        | Some (candidate, rest) \<Rightarrow>
            (case try_parse_tool_call loads candidate tools of
               None \<Rightarrow> extract_loop loads tools rest
             | Some tc \<Rightarrow> tc # extract_loop loads tools rest))
      else extract_loop loads tools cs)"
  by pat_completeness auto
termination
  by (relation "measure (\<lambda>(_, _, s). length s)") (auto dest!: brace_span_length simp del: brace_span.simps)

definition extract_tool_call :: "(string \<Rightarrow> json option) \<Rightarrow> string \<Rightarrow> string list \<Rightarrow> tool_call list" where
  "extract_tool_call loads dump tools = extract_loop loads tools (strip_fence (strip_fence_open dump))"

section \<open>Rehearsed, XML and bracketed calls\<close>

text \<open>
  \<^verbatim>\<open>(\w+)\[ARGS\](\{.*\})\<close>: the longest word before the tag, and the text from the brace to
  the last closing one, so there is at most one match. \<open>word\<close> is the word read so far.
\<close>

definition up_to_last_brace :: "string \<Rightarrow> string option" where
  "up_to_last_brace s =
     (let r = dropWhile (\<lambda>c. c \<noteq> CHR ''}'') (rev s) in if r = [] then None else Some (rev r))"

fun find_rehearsal :: "string \<Rightarrow> string \<Rightarrow> (string \<times> string) option" where
  "find_rehearsal word [] = None"
| "find_rehearsal word (c # cs) =
     (if word \<noteq> [] \<and> starts_with ''[ARGS]{'' (c # cs) \<and> up_to_last_brace (drop 7 (c # cs)) \<noteq> None
      then Some (word, CHR ''{'' # the (up_to_last_brace (drop 7 (c # cs))))
      else find_rehearsal (if is_word c then word @ [c] else []) cs)"

definition object_call :: "string \<Rightarrow> json option \<Rightarrow> tool_call list" where
  "object_call name parsed =
     (case parsed of Some (JObj kvs) \<Rightarrow> [mk_tool_call name (JObj kvs)] | _ \<Rightarrow> [])"

lemma object_call_tool: "tc \<in> set (object_call name parsed) \<Longrightarrow> tc_tool tc = name"
  by (cases parsed rule: option.exhaust, simp add: object_call_def)
    (rename_tac v, case_tac v, simp_all add: object_call_def mk_tool_call_def)

definition parse_rehearsal :: "(string \<Rightarrow> json option) \<Rightarrow> string \<Rightarrow> string list \<Rightarrow> tool_call list" where
  "parse_rehearsal loads s tools =
     (case find_rehearsal [] s of
        None \<Rightarrow> []
      | Some (name, args) \<Rightarrow>
          if name \<in> set tools then object_call name (loads args) else [])"

text \<open>
  \<^verbatim>\<open><tag=name>\<close> at the head of the text: the name has no space and no closing angle.
\<close>

definition open_tag :: "string \<Rightarrow> string \<Rightarrow> (string \<times> string) option" where
  "open_tag tag s =
     (if starts_with tag s
      then (let body = drop (length tag) s;
                name = takeWhile (\<lambda>c. c \<noteq> CHR ''>'' \<and> \<not> is_space c) body;
                rest = drop (length name) body
            in case rest of
                 c # after \<Rightarrow> if c = CHR ''>'' \<and> name \<noteq> [] then Some (name, after) else None
               | [] \<Rightarrow> None)
      else None)"

text \<open>
  The value of a parameter ends before the closing tag, which is consumed, or before the next
  parameter, the end of the function, a final newline or the end of the text.
\<close>

fun parameter_value :: "string \<Rightarrow> string \<times> string" where
  "parameter_value [] = ([], [])"
| "parameter_value (c # cs) =
     (if starts_with ''</parameter>'' (c # cs) then ([], drop 12 (c # cs))
      else if starts_with ''<parameter='' (c # cs) \<or> starts_with ''</function>'' (c # cs) \<or> c # cs = [newline_chr]
      then ([], c # cs)
      else (case parameter_value cs of (v, r) \<Rightarrow> (c # v, r)))"

definition trim_newlines :: "string \<Rightarrow> string" where
  "trim_newlines v =
     (let v1 = (if starts_with [newline_chr] v then tl v else v)
      in if v1 \<noteq> [] \<and> last v1 = newline_chr then butlast v1 else v1)"

lemma parameter_value_length: "length (snd (parameter_value s)) \<le> length s"
  by (induction s rule: parameter_value.induct) (auto split: prod.splits)

lemma open_tag_length: "open_tag tag s = Some (n, r) \<Longrightarrow> length r < length s"
  by (auto simp: open_tag_def Let_def split: if_splits list.splits)
    (metis Suc_le_eq diff_le_self length_Cons length_drop le_trans)

function qwen_parameters :: "(string \<times> json) list \<Rightarrow> string \<Rightarrow> (string \<times> json) list" where
  "qwen_parameters args [] = args"
| "qwen_parameters args (c # cs) =
     (case open_tag ''<parameter='' (c # cs) of
        None \<Rightarrow> qwen_parameters args cs
      | Some (key, body) \<Rightarrow>
          qwen_parameters (dict_set args (strip_text key) (JStr (trim_newlines (fst (parameter_value body)))))
            (snd (parameter_value body)))"
  by pat_completeness auto
termination
  by (relation "measure (\<lambda>(_, s). length s)")
    (auto dest!: open_tag_length intro: le_less_trans [OF parameter_value_length])

definition function_match :: "string \<Rightarrow> (string \<times> string \<times> string) option" where
  "function_match s =
     (case open_tag ''<function='' s of
        None \<Rightarrow> None
      | Some (name, body) \<Rightarrow> map_option (\<lambda>(b, rest). (strip_text name, b, rest)) (split_at ''</function>'' body))"

lemma function_match_length: "function_match s = Some (n, b, r) \<Longrightarrow> length r < length s"
  by (auto simp: function_match_def dest!: open_tag_length split_at_length split: option.splits)

function qwen_functions :: "string list \<Rightarrow> string \<Rightarrow> tool_call list" where
  "qwen_functions tools [] = []"
| "qwen_functions tools (c # cs) =
     (case function_match (c # cs) of
        None \<Rightarrow> qwen_functions tools cs
      | Some (name, body, rest) \<Rightarrow>
          (if name \<in> set tools then [mk_tool_call name (JObj (qwen_parameters [] body))] else [])
          @ qwen_functions tools rest)"
  by pat_completeness auto
termination by (relation "measure (\<lambda>(_, s). length s)") (auto dest!: function_match_length)

definition parse_qwen_xml_tool_calls :: "string \<Rightarrow> string list \<Rightarrow> tool_call list" where
  "parse_qwen_xml_tool_calls s tools = qwen_functions tools s"

text \<open>The balanced JSON object at the head of the text; braces in strings do not count.\<close>

fun json_span :: "nat \<Rightarrow> bool \<Rightarrow> bool \<Rightarrow> string \<Rightarrow> string option" where
  "json_span depth in_string escape [] = None"
| "json_span depth in_string escape (c # cs) =
     map_option ((#) c)
       (if escape then json_span depth in_string False cs
        else if c = CHR 0x5C then json_span depth in_string True cs
        else if c = CHR 0x22 then json_span depth (\<not> in_string) False cs
        else if in_string then json_span depth in_string False cs
        else if c = CHR ''{'' then json_span (Suc depth) in_string False cs
        else if c = CHR ''}''
        then (if depth = 1 then Some [] else json_span (depth - 1) in_string False cs)
        else json_span depth in_string False cs)"

text \<open>The search goes on after the spaces, where the lookahead found a brace.\<close>

definition bracket_tag :: "string \<Rightarrow> (string \<times> string) option" where
  "bracket_tag s =
     (if starts_with ''[TOOL_CALLS]'' s
      then (let body = drop 12 s; name = takeWhile is_word body;
                rest = dropWhile is_space (drop (length name) body)
            in if name \<noteq> [] \<and> starts_with ''{'' rest then Some (name, rest) else None)
      else None)"

lemma bracket_tag_length: "bracket_tag s = Some (n, r) \<Longrightarrow> length r < length s"
  using length_dropWhile_le [of is_space "drop (length n) (drop 12 s)"]
  by (cases s) (auto simp: bracket_tag_def Let_def split: if_splits)

definition bracket_call :: "(string \<Rightarrow> json option) \<Rightarrow> string list \<Rightarrow> string \<Rightarrow> string \<Rightarrow> tool_call list" where
  "bracket_call loads tools name rest =
     (if name \<in> set tools
      then (case json_span 0 False False rest of
              None \<Rightarrow> []
            | Some candidate \<Rightarrow> object_call name (loads candidate))
      else [])"

function bracket_calls :: "(string \<Rightarrow> json option) \<Rightarrow> string list \<Rightarrow> string \<Rightarrow> tool_call list" where
  "bracket_calls loads tools [] = []"
| "bracket_calls loads tools (c # cs) =
     (case bracket_tag (c # cs) of
        None \<Rightarrow> bracket_calls loads tools cs
      | Some (name, rest) \<Rightarrow> bracket_call loads tools name rest @ bracket_calls loads tools rest)"
  by pat_completeness auto
termination
  by (relation "measure (\<lambda>(_, _, s). length s)") (auto dest!: bracket_tag_length)

definition parse_mistral_bracket_tool_calls ::
  "(string \<Rightarrow> json option) \<Rightarrow> string \<Rightarrow> string list \<Rightarrow> tool_call list" where
  "parse_mistral_bracket_tool_calls loads s tools = bracket_calls loads tools s"

section \<open>The rescue\<close>

definition rescue_tool_call :: "(string \<Rightarrow> json option) \<Rightarrow> string \<Rightarrow> string list \<Rightarrow> tool_call list" where
  "rescue_tool_call loads dump tools =
     (let cleaned = strip_text (strip_think dump) in
      if cleaned = [] then []
      else let f1 = extract_tool_call loads cleaned tools;
               f2 = (if f1 = [] then parse_rehearsal loads cleaned tools else f1);
               f3 = (if f2 = [] then parse_qwen_xml_tool_calls cleaned tools else f2)
           in if f3 = [] then parse_mistral_bracket_tool_calls loads cleaned tools else f3)"

section \<open>What is rescued\<close>

lemma try_parse_known: "try_parse_tool_call loads s tools = Some tc \<Longrightarrow> tc_tool tc \<in> set tools"
  by (auto simp: try_parse_tool_call_def Let_def mk_tool_call_def split: option.splits json.splits if_splits)

lemma extract_loop_known: "tc \<in> set (extract_loop loads tools s) \<Longrightarrow> tc_tool tc \<in> set tools"
proof (induction s rule: length_induct)
  case (1 s)
  note IH = "1.IH" [rule_format]
  show ?case
  proof (cases s)
    case (Cons c cs)
    show ?thesis
    proof (cases "c = CHR ''{'' \<and> brace_span 0 (c # cs) \<noteq> None")
      case True
      then obtain b r where br: "brace_span 0 (c # cs) = Some (b, r)" by auto
      have "tc \<in> set (extract_loop loads tools r) \<Longrightarrow> tc_tool tc \<in> set tools"
        by (rule IH) (use brace_span_length [OF br] Cons in simp_all)
      then show ?thesis
        using "1.prems" Cons br True
        by (auto dest: try_parse_known split: option.splits simp del: brace_span.simps)
    next
      case False
      then show ?thesis
        using "1.prems" Cons IH [of cs] by (auto split: if_splits option.splits simp del: brace_span.simps)
    qed
  qed (use "1.prems" in simp)
qed

lemma qwen_functions_known: "tc \<in> set (qwen_functions tools s) \<Longrightarrow> tc_tool tc \<in> set tools"
proof (induction s rule: length_induct)
  case (1 s)
  note IH = "1.IH" [rule_format]
  show ?case
  proof (cases s)
    case (Cons c cs)
    show ?thesis
    proof (cases "function_match (c # cs)")
      case None
      then show ?thesis using "1.prems" Cons IH [of cs] by simp
    next
      case (Some t)
      obtain n b r where t: "t = (n, b, r)" by (cases t)
      have "tc \<in> set (qwen_functions tools r) \<Longrightarrow> tc_tool tc \<in> set tools"
        by (rule IH) (use Some t Cons in \<open>auto dest: function_match_length\<close>)
      then show ?thesis
        using "1.prems" Cons Some t by (auto simp: mk_tool_call_def split: if_splits)
    qed
  qed (use "1.prems" in simp)
qed

lemma bracket_call_known:
  assumes "tc \<in> set (bracket_call loads tools name rest)"
  shows "tc_tool tc \<in> set tools"
proof -
  have "name \<in> set tools \<and> (\<exists>parsed. tc \<in> set (object_call name parsed))"
    using assms unfolding bracket_call_def by (cases "name \<in> set tools"; cases "json_span 0 False False rest") (simp_all, blast)
  then show ?thesis using object_call_tool by metis
qed

lemma bracket_calls_known: "tc \<in> set (bracket_calls loads tools s) \<Longrightarrow> tc_tool tc \<in> set tools"
proof (induction s rule: length_induct)
  case (1 s)
  note IH = "1.IH" [rule_format]
  show ?case
  proof (cases s)
    case (Cons c cs)
    show ?thesis
    proof (cases "bracket_tag (c # cs)")
      case None
      then show ?thesis using "1.prems" Cons IH [of cs] by simp
    next
      case (Some t)
      obtain n r where t: "t = (n, r)" by (cases t)
      have "tc \<in> set (bracket_calls loads tools r) \<Longrightarrow> tc_tool tc \<in> set tools"
        by (rule IH) (use Some t Cons in \<open>auto dest: bracket_tag_length\<close>)
      then show ?thesis
        using "1.prems" Cons Some t
        by (auto dest: bracket_call_known)
    qed
  qed (use "1.prems" in simp)
qed

lemma parse_rehearsal_known: "tc \<in> set (parse_rehearsal loads s tools) \<Longrightarrow> tc_tool tc \<in> set tools"
  unfolding parse_rehearsal_def using object_call_tool [of tc]
  by (simp split: if_split_asm option.split_asm prod.split_asm) metis

lemmas parsed_known = extract_loop_known qwen_functions_known bracket_calls_known parse_rehearsal_known

lemma rescued_known: "tc \<in> set (rescue_tool_call loads dump tools) \<Longrightarrow> tc_tool tc \<in> set tools"
  by (auto simp: rescue_tool_call_def extract_tool_call_def parse_qwen_xml_tool_calls_def
      parse_mistral_bracket_tool_calls_def Let_def dest: parsed_known split: if_splits)

text \<open>
  C16: whatever text a model writes, a rescued call names one of the tools that are available.
\<close>

theorem rescue_known_tools: "tc_tool ` set (rescue_tool_call loads dump tools) \<subseteq> set tools"
  by (auto dest: rescued_known)

definition occurs :: "string \<Rightarrow> string \<Rightarrow> bool" where
  "occurs pat s \<longleftrightarrow> split_at pat s \<noteq> None"

lemma occurs_Cons: "occurs pat (c # cs) \<longleftrightarrow> starts_with pat (c # cs) \<or> occurs pat cs"
  by (auto simp: occurs_def)

lemma strip_think_id: "\<not> occurs ''[THINK]'' s \<Longrightarrow> \<not> occurs ''<think>'' s \<Longrightarrow> strip_think s = s"
  by (induction s rule: strip_think.induct) (simp_all add: occurs_Cons del: starts_with.simps)

lemma strip_fence_id: "\<not> occurs ''```'' s \<Longrightarrow> strip_fence s = s"
  by (induction s rule: strip_fence.induct) (simp_all add: occurs_Cons del: starts_with.simps)

lemma strip_fence_open_id: "\<not> occurs ''```'' s \<Longrightarrow> strip_fence_open s = s"
  by (induction s rule: strip_fence_open.induct) (simp_all add: occurs_Cons del: starts_with.simps)

lemma brace_span_last: "brace_span d s = Some (b, r) \<Longrightarrow> b \<noteq> [] \<and> last b = CHR ''}''"
proof (induction d s arbitrary: b r rule: brace_span.induct)
  case (2 d c cs)
  then show ?case by (force split: if_splits)
qed simp

lemma dropWhile_hd: "s \<noteq> [] \<Longrightarrow> \<not> P (hd s) \<Longrightarrow> dropWhile P s = s"
  by (cases s) auto

lemma strip_text_id:
  assumes "s \<noteq> []" and "\<not> is_space (hd s)" and "\<not> is_space (last s)"
  shows "strip_text s = s"
  using assms by (simp add: strip_text_def dropWhile_hd hd_rev)

lemma brace_not_space: "\<not> is_space (CHR ''{'')" "\<not> is_space (CHR ''}'')"
  by (simp_all add: is_space_def)

lemma occurs_append: "occurs pat s \<Longrightarrow> occurs pat (a @ s)" "occurs pat s \<Longrightarrow> occurs pat (s @ b)"
proof -
  have starts: "starts_with pat s \<Longrightarrow> starts_with pat (s @ b)" for pat s b
    by (induction pat s rule: starts_with.induct) auto
  have Nil: "occurs pat [] \<Longrightarrow> pat = []" by (simp add: occurs_def split: if_splits)
  have empty: "occurs [] s" for s by (cases s) (simp_all add: occurs_def)
  show "occurs pat s \<Longrightarrow> occurs pat (a @ s)" by (induction a) (simp_all add: occurs_Cons)
  show "occurs pat s \<Longrightarrow> occurs pat (s @ b)"
  proof (induction s)
    case Nil
    then show ?case using empty by (simp add: occurs_def split: if_splits)
  next
    case (Cons c s)
    then show ?case using starts [of pat "c # s" b] by (auto simp: occurs_Cons)
  qed
qed

section \<open>Embedded objects\<close>

text \<open>
  The objects a text embeds, each with the text before it. What an object asks for is said apart from
  the parser: the name is the member \<open>tool\<close>, or \<open>name\<close> where that is missing or empty, the
  arguments are the member \<open>args\<close>, or \<open>arguments\<close> where that is missing or null.
\<close>

definition embedded_text :: "(string \<times> string) list \<Rightarrow> string \<Rightarrow> string" where
  "embedded_text parts rest = concat (map (\<lambda>(before, object). before @ object) parts) @ rest"

definition balanced_object :: "string \<Rightarrow> bool" where
  "balanced_object s \<longleftrightarrow> starts_with ''{'' s \<and> brace_span 0 s = Some (s, [])"

definition asks_for :: "(string \<times> json) list \<Rightarrow> string list \<Rightarrow> string \<Rightarrow> json \<Rightarrow> bool" where
  "asks_for data tools t v \<longleftrightarrow> t \<in> set tools
     \<and> (map_of data ''tool'' = Some (JStr t) \<and> t \<noteq> []
        \<or> (case map_of data ''tool'' of None \<Rightarrow> True | Some w \<Rightarrow> \<not> truthy w) \<and> map_of data ''name'' = Some (JStr t))
     \<and> (if map_of data ''args'' \<in> {None, Some JNull}
        then v = (case map_of data ''arguments'' of None \<Rightarrow> JObj [] | Some w \<Rightarrow> w)
        else map_of data ''args'' = Some v)"

definition reads_as :: "(string \<Rightarrow> json option) \<Rightarrow> string list \<Rightarrow> string \<Rightarrow> (string \<times> json) option \<Rightarrow> bool" where
  "reads_as loads tools object call \<longleftrightarrow> (case call of
     Some (t, v) \<Rightarrow> \<exists>data. loads object = Some (JObj data) \<and> asks_for data tools t v
   | None \<Rightarrow> \<nexists>data t v. loads object = Some (JObj data) \<and> asks_for data tools t v)"

lemma try_parse_asks:
  "try_parse_tool_call loads s tools = Some tc \<longleftrightarrow>
     (\<exists>data t v. loads s = Some (JObj data) \<and> asks_for data tools t v \<and> tc = mk_tool_call t v)"
proof (cases "loads s")
  case (Some w)
  then show ?thesis
  proof (cases w)
    case (JObj data)
    have parse: "try_parse_tool_call loads s tools =
        (case (if truthy (jget_or_null data ''tool'') then jget_or_null data ''tool'' else jget_or_null data ''name'') of
           JStr name \<Rightarrow> if name \<notin> set tools then None else Some (mk_tool_call name
              (if jget_or_null data ''args'' = JNull
               then (case map_of data ''arguments'' of None \<Rightarrow> JObj [] | Some v \<Rightarrow> v) else jget_or_null data ''args''))
         | _ \<Rightarrow> None)"
      by (simp add: try_parse_tool_call_def Some JObj Let_def)
    have args: "(jget_or_null data ''args'' = JNull) = (map_of data ''args'' \<in> {None, Some JNull})"
      by (simp add: jget_or_null_def split: option.split)
    show ?thesis
    proof (cases "map_of data ''tool''")
      case None
      then show ?thesis
        by (cases "map_of data ''name''")
          (auto simp: parse args Some JObj asks_for_def jget_or_null_def mk_tool_call_def split: json.splits option.splits)
    next
      case (Some tool)
      then show ?thesis
        by (cases "truthy tool"; cases "map_of data ''name''")
          (auto simp: parse args \<open>loads s = Some w\<close> JObj asks_for_def jget_or_null_def mk_tool_call_def
            split: json.splits option.splits)
    qed
  qed (simp_all add: try_parse_tool_call_def)
qed (simp add: try_parse_tool_call_def)

lemma asks_for_unique: "asks_for data tools t v \<Longrightarrow> asks_for data tools t' v' \<Longrightarrow> t' = t \<and> v' = v"
  by (auto simp: asks_for_def split: if_splits option.splits)

lemma try_parse_reads_as:
  assumes "reads_as loads tools object call"
  shows "try_parse_tool_call loads object tools = map_option (\<lambda>(t, v). mk_tool_call t v) call"
proof (cases "try_parse_tool_call loads object tools")
  case None
  then show ?thesis
    using assms try_parse_asks [of loads object tools] by (cases call) (auto simp: reads_as_def)
next
  case (Some tc)
  then obtain data t v where tc: "loads object = Some (JObj data)" "asks_for data tools t v" "tc = mk_tool_call t v"
    using try_parse_asks [of loads object tools tc] by blast
  show ?thesis
  proof (cases call)
    case None
    then show ?thesis using assms tc(1,2) by (auto simp: reads_as_def)
  next
    case (Some p)
    obtain t' v' where p: "p = (t', v')" by (cases p)
    then have "asks_for data tools t' v'" using assms Some tc(1) by (simp add: reads_as_def)
    then show ?thesis using asks_for_unique [OF tc(2)] \<open>try_parse_tool_call loads object tools = Some tc\<close> tc(3) Some p by simp
  qed
qed

lemma brace_span_more: "brace_span d s = Some (b, r) \<Longrightarrow> brace_span d (s @ rest) = Some (b, r @ rest)"
proof (induction d s arbitrary: b r rule: brace_span.induct)
  case (2 d c cs)
  then show ?case by (auto split: if_splits)
qed simp

lemma extract_loop_skip: "CHR ''{'' \<notin> set before \<Longrightarrow> extract_loop loads tools (before @ s) = extract_loop loads tools s"
  by (induction before) auto

lemma extract_embedded:
  assumes "\<forall>(before, object) \<in> set parts. CHR ''{'' \<notin> set before \<and> balanced_object object" and "CHR ''{'' \<notin> set rest"
  shows "extract_loop loads tools (embedded_text parts rest)
    = List.map_filter (\<lambda>(before, object). try_parse_tool_call loads object tools) parts"
  using assms(1)
proof (induction parts)
  case Nil
  then show ?case
    using extract_loop_skip [OF assms(2), of loads tools "[]"] by (simp add: embedded_text_def map_filter_simps)
next
  case (Cons part parts)
  obtain before object where part: "part = (before, object)" by (cases part)
  obtain cs where object: "object = CHR ''{'' # cs" "brace_span 0 (CHR ''{'' # cs) = Some (object, [])"
    using Cons.prems part by (cases object) (auto simp: balanced_object_def simp del: brace_span.simps)
  have "extract_loop loads tools (embedded_text (part # parts) rest)
      = extract_loop loads tools (object @ embedded_text parts rest)"
    using Cons.prems part extract_loop_skip by (simp add: embedded_text_def)
  moreover have "brace_span 0 (CHR ''{'' # (cs @ embedded_text parts rest)) = Some (object, embedded_text parts rest)"
    using brace_span_more [OF object(2), of "embedded_text parts rest"] by (simp del: brace_span.simps)
  moreover have "extract_loop loads tools (CHR ''{'' # (cs @ embedded_text parts rest))
      = (case try_parse_tool_call loads object tools of
           None \<Rightarrow> extract_loop loads tools (embedded_text parts rest)
         | Some tc \<Rightarrow> tc # extract_loop loads tools (embedded_text parts rest))"
    by (subst extract_loop.simps) (simp only: calculation(2) option.case prod.case if_True simp_thms)
  ultimately show ?case
    using Cons by (simp add: object(1) [symmetric] part map_filter_simps split: option.split)
      (simp add: object(1))
qed

text \<open>Stripping the ends leaves the objects as they are.\<close>

lemma strip_embedded:
  assumes "\<forall>(before, object) \<in> set parts. CHR ''{'' \<notin> set before \<and> balanced_object object" and "parts \<noteq> []"
    and "CHR ''{'' \<notin> set rest"
  obtains parts' rest' where "strip_text (embedded_text parts rest) = embedded_text parts' rest'"
    and "\<forall>(before, object) \<in> set parts'. CHR ''{'' \<notin> set before \<and> balanced_object object"
    and "map snd parts' = map snd parts" and "CHR ''{'' \<notin> set rest'"
    and "\<exists>a b. embedded_text parts rest = a @ embedded_text parts' rest' @ b" and "embedded_text parts' rest' \<noteq> []"
proof -
  obtain before object more where parts: "parts = (before, object) # more" using assms(2) by (cases parts) auto
  let ?before = "dropWhile is_space before" and ?rest = "rev (dropWhile is_space (rev rest))"
  let ?parts = "(?before, object) # more"
  have object: "object \<noteq> []" "\<not> is_space (hd object)"
    using assms(1) parts brace_not_space by (auto simp: balanced_object_def neq_Nil_conv elim: starts_with.elims)
  have left: "dropWhile is_space (before @ object @ s) = ?before @ object @ s" for s
    using object by (induction before) (auto simp: dropWhile_hd)
  have init: "\<exists>u c. concat (map (\<lambda>(before, object). before @ object) ps) = u @ [c] \<and> \<not> is_space c"
    if "ps \<noteq> []" "\<forall>(before, object) \<in> set ps. balanced_object object" for ps
    using that
  proof (induction ps rule: rev_induct)
    case (snoc p ps)
    obtain b ob where p: "p = (b, ob)" by (cases p)
    then have "ob \<noteq> [] \<and> last ob = CHR ''}''"
      using snoc.prems brace_span_last by (auto simp: balanced_object_def simp del: brace_span.simps)
    then have "ob = butlast ob @ [CHR ''}'']" by (metis append_butlast_last_id)
    then show ?case using brace_not_space(2) p
      by (intro exI [of _ "concat (map (\<lambda>(before, object). before @ object) ps) @ b @ butlast ob"]
          exI [of _ "CHR ''}''"]) simp
  qed simp
  have "\<forall>(before, object) \<in> set ?parts. balanced_object object" using assms(1) parts by auto
  from init [OF _ this] obtain u c where
    u: "concat (map (\<lambda>(before, object). before @ object) ?parts) = u @ [c]" "\<not> is_space c" by blast
  have right: "dropWhile is_space (rev s @ c # v) = dropWhile is_space (rev s) @ c # v" for s v
    using u(2) by (induction s rule: rev_induct) auto
  have "strip_text (embedded_text parts rest) = rev (dropWhile is_space (rev (embedded_text ?parts rest)))"
    using left by (simp add: strip_text_def embedded_text_def parts)
  also have "\<dots> = embedded_text ?parts ?rest"
    using right [of rest "rev u"] by (simp add: embedded_text_def u(1) del: concat.simps list.map)
  finally have strip: "strip_text (embedded_text parts rest) = embedded_text ?parts ?rest" .
  have ends: "takeWhile is_space before @ ?before = before" "?rest @ rev (takeWhile is_space (rev rest)) = rest"
    by (simp, metis rev_append rev_rev_ident takeWhile_dropWhile_id)
  then have "embedded_text parts rest
      = takeWhile is_space before @ embedded_text ?parts ?rest @ rev (takeWhile is_space (rev rest))"
    by (simp add: embedded_text_def parts)
  moreover have "set ?before \<subseteq> set before" "set ?rest \<subseteq> set rest" by (auto dest: set_dropWhileD)
  ultimately show thesis
    using assms(1,3) parts strip object(1)
    by (intro that [of ?parts ?rest]) (auto simp: embedded_text_def)
qed

lemma rescue_embedded:
  assumes objects: "\<forall>(before, object) \<in> set parts. CHR ''{'' \<notin> set before \<and> balanced_object object"
    and rest: "CHR ''{'' \<notin> set rest"
    and plain: "\<not> occurs ''[THINK]'' (embedded_text parts rest)" "\<not> occurs ''<think>'' (embedded_text parts rest)"
      "\<not> occurs ''```'' (embedded_text parts rest)"
    and some: "List.map_filter (\<lambda>(before, object). try_parse_tool_call loads object tools) parts \<noteq> []"
  shows "rescue_tool_call loads (embedded_text parts rest) tools
    = List.map_filter (\<lambda>(before, object). try_parse_tool_call loads object tools) parts"
proof -
  let ?calls = "\<lambda>parts. List.map_filter (\<lambda>(before, object). try_parse_tool_call loads object tools) parts"
  have "parts \<noteq> []" using some by (auto simp: map_filter_simps)
  from strip_embedded [OF objects this rest] obtain parts' rest' where
    strip: "strip_text (embedded_text parts rest) = embedded_text parts' rest'"
    and parts': "\<forall>(before, object) \<in> set parts'. CHR ''{'' \<notin> set before \<and> balanced_object object"
    and same: "map snd parts' = map snd parts" and rest': "CHR ''{'' \<notin> set rest'"
    and inside: "\<exists>a b. embedded_text parts rest = a @ embedded_text parts' rest' @ b"
    and nonempty: "embedded_text parts' rest' \<noteq> []" by metis
  have "?calls ps = List.map_filter (\<lambda>object. try_parse_tool_call loads object tools) (map snd ps)" for ps :: "(string \<times> string) list"
    by (induction ps) (auto simp: map_filter_simps split: option.split)
  then have calls: "?calls parts' = ?calls parts" using same by simp
  have "\<not> occurs ''```'' (embedded_text parts' rest')"
    using inside plain(3) occurs_append by metis
  then show ?thesis
    using extract_embedded [OF parts' rest', of loads tools] some nonempty calls
    by (simp add: rescue_tool_call_def extract_tool_call_def strip_think_id [OF plain(1,2)] strip strip_fence_id
        strip_fence_open_id Let_def del: extract_loop.simps strip_think.simps strip_fence.simps strip_fence_open.simps)
qed

text \<open>
  C17: the JSON objects a text embeds are rescued. In a text without reasoning tags and code fences
  whose braces are those of balanced objects, when at least one of the objects asks for an available
  tool, the rescued calls are exactly those the objects ask for, in their order: the tool is the
  member \<open>tool\<close> or else \<open>name\<close>, the arguments are \<open>args\<close> or else \<open>arguments\<close>, whatever other
  members there are. Nothing asks that the arguments are an object.
\<close>

theorem rescue_json_call:
  assumes "\<forall>(before, object) \<in> set parts. CHR ''{'' \<notin> set before \<and> balanced_object object"
    and "CHR ''{'' \<notin> set rest"
    and "\<not> occurs ''[THINK]'' (embedded_text parts rest)" and "\<not> occurs ''<think>'' (embedded_text parts rest)"
    and "\<not> occurs ''```'' (embedded_text parts rest)"
    and "list_all2 (\<lambda>(before, object) call. reads_as loads tools object call) parts calls"
    and "\<exists>c \<in> set calls. c \<noteq> None"
  shows "rescue_tool_call loads (embedded_text parts rest) tools
    = map (\<lambda>(t, v). mk_tool_call t v) (List.map_filter (\<lambda>c. c) calls)"
proof -
  have "List.map_filter (\<lambda>(before, object). try_parse_tool_call loads object tools) parts
      = map (\<lambda>(t, v). mk_tool_call t v) (List.map_filter (\<lambda>c. c) calls)"
    using assms(6)
    by (induction rule: list_all2_induct) (auto simp: map_filter_simps try_parse_reads_as split: option.split)
  moreover have "List.map_filter (\<lambda>c. c) calls \<noteq> []"
    using assms(7) by (induction calls) (auto simp: map_filter_simps split: option.split)
  ultimately show ?thesis using rescue_embedded [OF assms(1-5), of loads tools] by simp
qed

text \<open>Two objects in a sentence, one in each style, and a third that names no tool.\<close>

definition sample_text :: string where
  "sample_text = ''{\"tool\": \"read\", \"args\": \"a\"}''"

definition sample_parts :: "(string \<times> string) list" where
  "sample_parts = [(''Call '', sample_text), ('' and '', ''{\"x\": 1}''), ('' then '', ''{\"name\": \"done\"}'')]"

definition sample_loads :: "string \<Rightarrow> json option" where
  "sample_loads s = (if s = sample_text then Some (JObj [(''tool'', JStr ''read''), (''args'', JStr ''a'')])
     else if s = ''{\"name\": \"done\"}'' then Some (JObj [(''name'', JStr ''done'')])
     else if s = ''{\"x\": 1}'' then Some (JObj [(''x'', JInt 1)]) else None)"

lemma rescue_json_call_witness:
  "rescue_tool_call sample_loads (embedded_text sample_parts ''.'') [''read'', ''done'']
     = [mk_tool_call ''read'' (JStr ''a''), mk_tool_call ''done'' (JObj [])]"
proof -
  let ?calls = "[Some (''read'', JStr ''a''), None, Some (''done'', JObj [])]"
  have "rescue_tool_call sample_loads (embedded_text sample_parts ''.'') [''read'', ''done'']
     = map (\<lambda>(t, v). mk_tool_call t v) (List.map_filter (\<lambda>c. c) ?calls)"
  proof (rule rescue_json_call)
    show "\<forall>(before, object) \<in> set sample_parts. CHR ''{'' \<notin> set before \<and> balanced_object object"
      by (simp add: sample_parts_def sample_text_def balanced_object_def)
    show "\<not> occurs ''[THINK]'' (embedded_text sample_parts ''.'')" "\<not> occurs ''<think>'' (embedded_text sample_parts ''.'')"
      "\<not> occurs ''```'' (embedded_text sample_parts ''.'')"
      by (simp_all add: sample_parts_def sample_text_def embedded_text_def occurs_def)
    show "list_all2 (\<lambda>(before, object) call. reads_as sample_loads [''read'', ''done''] object call) sample_parts ?calls"
      by (simp add: reads_as_def sample_parts_def sample_loads_def sample_text_def asks_for_def)
  qed simp_all
  then show ?thesis by (simp add: map_filter_simps)
qed

end
