(* ===== verification/Tool_Results.thy ===== *)
theory Tool_Results
  imports Contracts Rescue
begin

text \<open>
  \<^verbatim>\<open>tools/results.py\<close>: the results tools return, bounded and redacted for the model, the trace
  records made of them, and the validation of arguments against the schema subset of descriptors.
  The redactor of \<^verbatim>\<open>contracts.py\<close> and the host-path pattern are a parameter, a function of the
  policy and the text or value.
\<close>

section \<open>Environment\<close>

text \<open>
  A redaction policy is the pair of its maximal string length and maximal number of bytes, or the
  default one; \<open>ren_text\<close> is \<^verbatim>\<open>_redact_host_paths(redact_diagnostic_text(value, policy))\<close> and
  \<open>ren_value\<close> is \<^verbatim>\<open>redact_tool_value\<close>.
\<close>

record redactor =
  ren_text :: "(nat \<times> nat) option \<Rightarrow> string \<Rightarrow> string"
  ren_value :: "(nat \<times> nat) option \<Rightarrow> json \<Rightarrow> json"
  ren_float :: "rat \<Rightarrow> string"
  ren_sha256 :: "string \<Rightarrow> string"

definition MAX_MODEL_SUMMARY_UTF8 :: nat where "MAX_MODEL_SUMMARY_UTF8 = 8192"

datatype tool_execution_error_code =
    INVALID_ARGUMENTS | CAPABILITY_DENIED | POLICY_DENIED | PREREQUISITE_DENIED | NOT_FOUND | CONFLICT
  | PERMISSION_DENIED | IO_ERROR | PROCESS_EXIT_NONZERO | PROCESS_LAUNCH_ERROR | CODE_TIMEOUT | CODE_CANCELLED
  | IMPLEMENTATION_ERROR | AMBIGUOUS_SIDE_EFFECT | OUTPUT_VALIDATION_FAILED | TERMINAL_INTENT_INVALID
  | BINDING_MISMATCH

fun error_code_value :: "tool_execution_error_code \<Rightarrow> string" where
  "error_code_value INVALID_ARGUMENTS = ''invalid_arguments''"
| "error_code_value CAPABILITY_DENIED = ''capability_denied''"
| "error_code_value POLICY_DENIED = ''policy_denied''"
| "error_code_value PREREQUISITE_DENIED = ''prerequisite_denied''"
| "error_code_value NOT_FOUND = ''not_found''"
| "error_code_value CONFLICT = ''conflict''"
| "error_code_value PERMISSION_DENIED = ''permission_denied''"
| "error_code_value IO_ERROR = ''io_error''"
| "error_code_value PROCESS_EXIT_NONZERO = ''process_exit_nonzero''"
| "error_code_value PROCESS_LAUNCH_ERROR = ''process_launch_error''"
| "error_code_value CODE_TIMEOUT = ''timeout''"
| "error_code_value CODE_CANCELLED = ''cancelled''"
| "error_code_value IMPLEMENTATION_ERROR = ''implementation_error''"
| "error_code_value AMBIGUOUS_SIDE_EFFECT = ''ambiguous_side_effect''"
| "error_code_value OUTPUT_VALIDATION_FAILED = ''output_validation_failed''"
| "error_code_value TERMINAL_INTENT_INVALID = ''terminal_intent_invalid''"
| "error_code_value BINDING_MISMATCH = ''binding_mismatch''"

definition MODEL_CORRECTABLE_CODES :: "tool_execution_error_code list" where
  "MODEL_CORRECTABLE_CODES = [INVALID_ARGUMENTS, CAPABILITY_DENIED, POLICY_DENIED, PREREQUISITE_DENIED, NOT_FOUND,
     CONFLICT, CODE_TIMEOUT, CODE_CANCELLED, TERMINAL_INTENT_INVALID]"

definition canonical_sha256 :: "redactor \<Rightarrow> json \<Rightarrow> string result" where
  "canonical_sha256 env value =
     bind_result (canonical_json_serialize (ren_float env) value) (\<lambda>text. Ok (ren_sha256 env text))"

section \<open>Bounds\<close>

definition truncated_marker :: string where
  "truncated_marker = ''[truncated]''"

definition nonempty_or :: "string \<Rightarrow> string \<Rightarrow> string" where
  "nonempty_or other s = (if s = [] then other else s)"

text \<open>\<^verbatim>\<open>bounded_summary\<close> of a text, and of any other value.\<close>

definition bounded_text :: "string \<Rightarrow> nat \<Rightarrow> string" where
  "bounded_text s max_utf8 =
     nonempty_or ''[empty]''
       (if max_utf8 < utf8_len s then take_utf8 max_utf8 s @ truncated_marker else s)"

definition bounded_summary :: "redactor \<Rightarrow> json \<Rightarrow> nat \<Rightarrow> (nat \<times> nat) option \<Rightarrow> string result" where
  "bounded_summary env value max_utf8 policy =
     (case value of
        JStr s \<Rightarrow> Ok (bounded_text (ren_text env policy s) max_utf8)
      | _ \<Rightarrow> bind_result (canonical_json_serialize (ren_float env) (ren_value env policy value)) (\<lambda>text.
             Ok (bounded_text (strip_text text) max_utf8)))"

definition output_hash :: "redactor \<Rightarrow> json \<Rightarrow> (nat \<times> nat) option \<Rightarrow> string result" where
  "output_hash env value policy = canonical_sha256 env (ren_value env policy value)"

definition bound_unredacted_text :: "string \<Rightarrow> nat \<Rightarrow> string" where
  "bound_unredacted_text value max_utf8 =
     (if utf8_len value \<le> max_utf8 then value
      else if max_utf8 \<le> length truncated_marker then take max_utf8 truncated_marker
      else take_utf8 (max_utf8 - length truncated_marker) value @ truncated_marker)"

text \<open>
  A path into a value is a list of positions, of a list or of the members of an object (whose keys
  are distinct); \<open>longest_string\<close> is \<^verbatim>\<open>_longest_string_value\<close>, the first longest string.
\<close>

definition longer :: "(nat list \<times> string) option \<Rightarrow> (nat list \<times> string) option \<Rightarrow> (nat list \<times> string) option" where
  "longer a b =
     (case (a, b) of
        (None, _) \<Rightarrow> b
      | (_, None) \<Rightarrow> a
      | (Some (p, s), Some (q, t)) \<Rightarrow> if utf8_len s < utf8_len t then b else a)"

fun longest_string :: "json \<Rightarrow> (nat list \<times> string) option"
  and longest_item :: "nat \<Rightarrow> json list \<Rightarrow> (nat list \<times> string) option"
  and longest_member :: "nat \<Rightarrow> (string \<times> json) list \<Rightarrow> (nat list \<times> string) option" where
  "longest_string (JStr s) = Some ([], s)"
| "longest_string (JArr xs) = longest_item 0 xs"
| "longest_string (JObj kvs) = longest_member 0 kvs"
| "longest_string _ = None"
| "longest_item i [] = None"
| "longest_item i (x # xs) =
     longer (map_option (\<lambda>(p, s). (i # p, s)) (longest_string x)) (longest_item (Suc i) xs)"
| "longest_member i [] = None"
| "longest_member i ((k, v) # kvs) =
     longer (map_option (\<lambda>(p, s). (i # p, s)) (longest_string v)) (longest_member (Suc i) kvs)"

fun replace_string :: "json \<Rightarrow> nat list \<Rightarrow> string \<Rightarrow> json" where
  "replace_string v [] t = JStr t"
| "replace_string (JArr xs) (i # p) t =
     (if i < length xs then JArr (xs[i := replace_string (xs ! i) p t]) else JArr xs)"
| "replace_string (JObj kvs) (i # p) t =
     (if i < length kvs then JObj (kvs[i := (fst (kvs ! i), replace_string (snd (kvs ! i)) p t)]) else JObj kvs)"
| "replace_string v (i # p) t = v"

text \<open>The number of UTF-8 bytes of all strings of a value, which every round of the loop lowers.\<close>

fun string_bytes :: "json \<Rightarrow> nat"
  and item_bytes :: "json list \<Rightarrow> nat"
  and member_bytes :: "(string \<times> json) list \<Rightarrow> nat" where
  "string_bytes (JStr s) = utf8_len s"
| "string_bytes (JArr xs) = item_bytes xs"
| "string_bytes (JObj kvs) = member_bytes kvs"
| "string_bytes _ = 0"
| "item_bytes [] = 0"
| "item_bytes (x # xs) = string_bytes x + item_bytes xs"
| "member_bytes [] = 0"
| "member_bytes ((k, v) # kvs) = string_bytes v + member_bytes kvs"

lemma longest_string_bytes:
  "longest_string v = Some (p, s) \<Longrightarrow> string_bytes (replace_string v p t) + utf8_len s = string_bytes v + utf8_len t"
  "longest_item i xs = Some (q, s) \<Longrightarrow> \<exists>j p. q = (i + j) # p \<and> j < length xs
     \<and> item_bytes (xs[j := replace_string (xs ! j) p t]) + utf8_len s = item_bytes xs + utf8_len t"
  "longest_member i kvs = Some (q, s) \<Longrightarrow> \<exists>j p. q = (i + j) # p \<and> j < length kvs
     \<and> member_bytes (kvs[j := (fst (kvs ! j), replace_string (snd (kvs ! j)) p t)]) + utf8_len s
       = member_bytes kvs + utf8_len t"
proof (induction v and i xs and i kvs arbitrary: p and q and q
    rule: longest_string_longest_item_longest_member.induct)
  case (2 xs)
  then show ?case by fastforce
next
  case (3 kvs)
  then show ?case by fastforce
next
  case (6 i x xs)
  from "6.prems" consider p where "longest_string x = Some (p, s)" "q = i # p" | "longest_item (Suc i) xs = Some (q, s)"
    by (auto simp: longer_def split: option.splits prod.splits if_splits)
  then show ?case
  proof cases
    case (1 p)
    then show ?thesis using "6.IH"(1) [of p] by (intro exI [of _ 0] exI [of _ p]) simp
  next
    case 2
    from "6.IH"(2) [OF 2] obtain j p where "q = (Suc i + j) # p" "j < length xs"
      "item_bytes (xs[j := replace_string (xs ! j) p t]) + utf8_len s = item_bytes xs + utf8_len t" by blast
    then show ?thesis by (intro exI [of _ "Suc j"] exI [of _ p]) simp
  qed
next
  case (8 i k v kvs)
  from "8.prems" consider p where "longest_string v = Some (p, s)" "q = i # p" | "longest_member (Suc i) kvs = Some (q, s)"
    by (auto simp: longer_def split: option.splits prod.splits if_splits)
  then show ?case
  proof cases
    case (1 p)
    then show ?thesis using "8.IH"(1) [of p] by (intro exI [of _ 0] exI [of _ p]) simp
  next
    case 2
    from "8.IH"(2) [OF 2] obtain j p where "q = (Suc i + j) # p" "j < length kvs"
      "member_bytes (kvs[j := (fst (kvs ! j), replace_string (snd (kvs ! j)) p t)]) + utf8_len s
       = member_bytes kvs + utf8_len t" by blast
    then show ?thesis by (intro exI [of _ "Suc j"] exI [of _ p]) simp
  qed
qed simp_all

lemma take_utf8_bound: "utf8_len (take_utf8 n s) \<le> n"
  by (induction n s rule: take_utf8.induct) (auto simp: Let_def)

lemma truncated_marker_bytes:
  "utf8_len (take n truncated_marker) = min n 11" "length truncated_marker = 11" "utf8_len truncated_marker = 11"
proof -
  show len: "length truncated_marker = 11" and "utf8_len truncated_marker = 11"
    by (simp_all add: truncated_marker_def)
  have "list_all (\<lambda>c. (of_char c :: nat) < 128) truncated_marker" by (simp add: truncated_marker_def)
  then have "utf8_len xs = length xs" if "set xs \<subseteq> set truncated_marker" for xs
    using that by (induction xs) (auto simp: list_all_iff)
  from this [of "take n truncated_marker"] show "utf8_len (take n truncated_marker) = min n 11"
    using len by (simp add: set_take_subset)
qed

lemma bound_unredacted_text_bound: "utf8_len (bound_unredacted_text s n) \<le> n"
  using truncated_marker_bytes(1) [of n] take_utf8_bound [of "n - 11" s]
  by (auto simp: bound_unredacted_text_def truncated_marker_bytes(2,3))


text \<open>\<^verbatim>\<open>_bound_unredacted_value\<close>; the value is a copy, so replacing a string in it changes nothing else.\<close>

definition json_size :: "redactor \<Rightarrow> json \<Rightarrow> nat result" where
  "json_size env v = bind_result (canonical_json_serialize (ren_float env) v) (\<lambda>text. Ok (utf8_len text))"

function bound_unredacted_loop :: "redactor \<Rightarrow> nat \<Rightarrow> json \<Rightarrow> json result" where
  "bound_unredacted_loop env max_total_bytes v =
     (case json_size env v of
        Inl e \<Rightarrow> Inl e
      | Inr bytes \<Rightarrow>
          if bytes \<le> max_total_bytes then Ok v
          else (case longest_string v of
              None \<Rightarrow> Ok v
            | Some (path, s) \<Rightarrow>
                let replacement = bound_unredacted_text s (utf8_len s - (bytes - max_total_bytes))
                in if replacement = s then Ok v
                   else bound_unredacted_loop env max_total_bytes (replace_string v path replacement)))"
  by pat_completeness auto
termination
proof (relation "measure (\<lambda>(env, n, v). string_bytes v)")
  fix env n v bytes longest path s replacement
  assume run: "json_size env v = Inr bytes" "\<not> bytes \<le> n" "longest_string v = Some longest" "(path, s) = longest"
    "replacement = bound_unredacted_text s (utf8_len s - (bytes - n))" "replacement \<noteq> s"
  have "utf8_len s \<noteq> 0" using run(5,6) by (cases s) (auto simp: bound_unredacted_text_def split: if_splits)
  then have "utf8_len replacement < utf8_len s"
    using bound_unredacted_text_bound [of s "utf8_len s - (bytes - n)"] run(2,5) by simp
  moreover have "longest_string v = Some (path, s)" using run(3,4) by simp
  ultimately have "string_bytes (replace_string v path replacement) < string_bytes v"
    using longest_string_bytes(1) [of v path s replacement] by simp
  then show "((env, n, replace_string v path replacement), env, n, v) \<in> measure (\<lambda>(env, n, v). string_bytes v)"
    by simp
qed simp

declare bound_unredacted_loop.simps [simp del]

definition bound_unredacted_value :: "redactor \<Rightarrow> json \<Rightarrow> nat \<Rightarrow> json result" where
  "bound_unredacted_value env value max_total_bytes =
     (case value of JStr s \<Rightarrow> Ok (JStr (bound_unredacted_text s max_total_bytes))
      | _ \<Rightarrow> bound_unredacted_loop env max_total_bytes value)"

section \<open>Results\<close>

text \<open>\<^verbatim>\<open>ToolOutputPolicy\<close>, whose bounds are positive.\<close>

record tool_output_policy =
  top_max_output_bytes :: nat
  top_max_summary_utf8 :: nat
  top_redact_secrets :: bool

definition output_redaction_policy :: "tool_output_policy option \<Rightarrow> (nat \<times> nat) option" where
  "output_redaction_policy policy =
     map_option (\<lambda>p. (max (top_max_output_bytes p) (top_max_summary_utf8 p), top_max_output_bytes p)) policy"

definition unredacted :: "tool_output_policy option \<Rightarrow> bool" where
  "unredacted policy \<longleftrightarrow> (case policy of None \<Rightarrow> False | Some p \<Rightarrow> \<not> top_redact_secrets p)"

definition model_visible_value :: "redactor \<Rightarrow> json \<Rightarrow> tool_output_policy option \<Rightarrow> json result" where
  "model_visible_value env value policy =
     (if unredacted policy then bound_unredacted_value env value (top_max_output_bytes (the policy))
      else Ok (ren_value env (output_redaction_policy policy) value))"

text \<open>The summaries of a result are texts.\<close>

definition model_visible_summary :: "redactor \<Rightarrow> string \<Rightarrow> nat \<Rightarrow> tool_output_policy option \<Rightarrow> string" where
  "model_visible_summary env value max_utf8 policy =
     (if unredacted policy then nonempty_or ''[empty]'' (bound_unredacted_text value max_utf8)
      else bounded_text (ren_text env (Some (max_utf8, max_utf8)) value) max_utf8)"

definition summary_limit :: "tool_output_policy option \<Rightarrow> nat" where
  "summary_limit policy = (case policy of None \<Rightarrow> MAX_MODEL_SUMMARY_UTF8 | Some p \<Rightarrow> top_max_summary_utf8 p)"

definition safe_side_effect ::
  "redactor \<Rightarrow> tool_output_policy option \<Rightarrow> side_effect_record \<Rightarrow> side_effect_record" where
  "safe_side_effect env policy s =
     s\<lparr>ser_summary := model_visible_summary env (ser_summary s) (summary_limit policy) policy\<rparr>"

definition zero_timing :: timing_metadata where
  "zero_timing = \<lparr>tm_started_at = ''1970-01-01T00:00:00+00:00'', tm_completed_at = ''1970-01-01T00:00:00+00:00'',
     tm_duration_ms = 0\<rparr>"

text \<open>
  \<^verbatim>\<open>make_tool_result\<close>: the fields the caller gives, in a result whose data and summaries are still
  raw, with the error code as an enumeration and the timing and the output hash optional.
\<close>

record result_request =
  rr_call_id :: string
  rr_status :: tool_execution_status
  rr_code :: "tool_execution_error_code option"
  rr_summary :: string
  rr_structured_data :: json
  rr_side_effect_class :: side_effect_class
  rr_idempotency :: idempotency_class
  rr_certainty :: side_effect_certainty
  rr_input_sha256 :: string
  rr_retryable :: bool
  rr_artifact_refs :: "artifact_ref list"
  rr_output_sha256 :: "string option"
  rr_timing :: "timing_metadata option"
  rr_side_effect_record :: "side_effect_record option"

definition make_tool_result :: "redactor \<Rightarrow> tool_output_policy option \<Rightarrow> result_request \<Rightarrow> tool_execution_result result" where
  "make_tool_result env policy r =
     bind_result (model_visible_value env (rr_structured_data r) policy) (\<lambda>safe_data.
     bind_result (if rr_code r = None \<and> rr_output_sha256 r = None
       then bind_result (canonical_sha256 env safe_data) (\<lambda>h. Ok (Some h)) else Ok (rr_output_sha256 r)) (\<lambda>output_sha256.
     check_tool_execution_result
       \<lparr>ter_call_id = rr_call_id r, ter_status = rr_status r,
        ter_summary = model_visible_summary env (rr_summary r) (summary_limit policy) policy,
        ter_structured_data = safe_data, ter_artifact_refs = rr_artifact_refs r,
        ter_error_code = map_option error_code_value (rr_code r), ter_retryable = rr_retryable r,
        ter_side_effect_class = rr_side_effect_class r, ter_idempotency = rr_idempotency r,
        ter_side_effect_certainty = rr_certainty r,
        ter_side_effect_record = map_option (safe_side_effect env policy) (rr_side_effect_record r),
        ter_input_sha256 = rr_input_sha256 r, ter_output_sha256 = output_sha256,
        ter_timing = (case rr_timing r of None \<Rightarrow> zero_timing | Some t \<Rightarrow> t)\<rparr>))"

text \<open>
  \<^verbatim>\<open>sanitize_tool_execution_result\<close> copies the result with new fields, which validates nothing.
\<close>

definition sanitize_tool_execution_result ::
  "redactor \<Rightarrow> tool_output_policy option \<Rightarrow> string option \<Rightarrow> tool_execution_result \<Rightarrow> tool_execution_result result" where
  "sanitize_tool_execution_result env policy input_sha256 r =
     bind_result (model_visible_value env (ter_structured_data r) policy) (\<lambda>safe_data.
     bind_result (if ter_status r = SUCCESS \<or> ter_output_sha256 r \<noteq> None
       then bind_result (canonical_sha256 env safe_data) (\<lambda>h. Ok (Some h)) else Ok (ter_output_sha256 r)) (\<lambda>output_sha256.
     Ok (r\<lparr>ter_summary := model_visible_summary env (ter_summary r) (summary_limit policy) policy,
       ter_structured_data := safe_data,
       ter_side_effect_record := map_option (safe_side_effect env policy) (ter_side_effect_record r),
       ter_output_sha256 := output_sha256,
       ter_input_sha256 := (case input_sha256 of None \<Rightarrow> ter_input_sha256 r | Some h \<Rightarrow> h)\<rparr>)))"

definition denial_status :: "tool_execution_error_code \<Rightarrow> tool_execution_status option \<Rightarrow> tool_execution_status" where
  "denial_status code status =
     (case status of Some s \<Rightarrow> s
      | None \<Rightarrow> if code \<notin> set MODEL_CORRECTABLE_CODES then HARD_FAILURE else NOT_EXECUTED)"

definition make_denial_result ::
  "redactor \<Rightarrow> string \<Rightarrow> tool_execution_error_code \<Rightarrow> string \<Rightarrow> (string \<times> json) list \<Rightarrow> side_effect_class \<Rightarrow>
   idempotency_class \<Rightarrow> string \<Rightarrow> tool_execution_status option \<Rightarrow> tool_execution_result result" where
  "make_denial_result env call_id code summary evidence side_effect idempotency input_sha256 status =
     make_tool_result env None
       \<lparr>rr_call_id = call_id, rr_status = denial_status code status, rr_code = Some code, rr_summary = summary,
        rr_structured_data = JObj [(''category'', JStr (error_code_value code)), (''evidence'', JObj evidence)],
        rr_side_effect_class = side_effect, rr_idempotency = idempotency, rr_certainty = NOT_ATTEMPTED,
        rr_input_sha256 = input_sha256, rr_retryable = False, rr_artifact_refs = [], rr_output_sha256 = None,
        rr_timing = None, rr_side_effect_record = None\<rparr>"

text \<open>
  \<^verbatim>\<open>make_trace_record\<close>: the identities of the call come with a record whose other fields are those
  of the result; the decisions are dictionaries, sorted by key.
\<close>

definition sorted_decisions :: "(string \<times> trace_decision) list \<Rightarrow> decision_record list" where
  "sorted_decisions ds = map (\<lambda>(k, d). \<lparr>dr_key = k, dr_decision = d\<rparr>) (sort_key fst ds)"

definition make_trace_record ::
  "redactor \<Rightarrow> nat \<Rightarrow> tool_trace_record \<Rightarrow> (string \<times> trace_decision) list \<Rightarrow> (string \<times> trace_decision) list \<Rightarrow>
   connector_trace option \<Rightarrow> tool_execution_result \<Rightarrow> tool_trace_record result" where
  "make_trace_record env summary_max identities prereqs capabilities audit r =
     (let policy = Some (max summary_max 1, max summary_max 1); record = ter_side_effect_record r;
          bound = (\<lambda>s. bounded_text (ren_text env policy s) summary_max)
      in check_tool_trace_record (identities
        \<lparr>tr_prerequisite_decisions := sorted_decisions prereqs,
         tr_capability_decisions := sorted_decisions capabilities,
         tr_execution_status := ter_status r, tr_retryable := ter_retryable r,
         tr_side_effect_class := ter_side_effect_class r, tr_idempotency := ter_idempotency r,
         tr_side_effect_certainty := ter_side_effect_certainty r,
         tr_connector := (case audit of None \<Rightarrow> no_connector | Some c \<Rightarrow> c),
         tr_side_effect_detail_code := map_option ser_detail_code record,
         tr_side_effect_detail_summary := map_option (bound \<circ> ser_summary) record,
         tr_side_effect_retry_allowed := map_option ser_retry_allowed record,
         tr_output_sha256 := ter_output_sha256 r, tr_duration_ms := tm_duration_ms (ter_timing r),
         tr_summary := bound (ter_summary r)\<rparr>))"

section \<open>What the bounds mean\<close>

definition no_text :: "(nat list \<times> string) option \<Rightarrow> bool" where
  "no_text r \<longleftrightarrow> (case r of None \<Rightarrow> True | Some (p, s) \<Rightarrow> utf8_len s = 0)"

lemma no_text_simps [simp]: "no_text None" "no_text (Some (p, s)) \<longleftrightarrow> utf8_len s = 0"
  by (simp_all add: no_text_def)

lemma no_text_longer: "no_text (longer a b) \<longleftrightarrow> no_text a \<and> no_text b"
  by (auto simp: no_text_def longer_def split: option.splits prod.splits)

lemma no_text_map: "no_text (map_option (\<lambda>(p, s). (f p, s)) r) \<longleftrightarrow> no_text r"
  by (auto simp: no_text_def split: option.splits prod.splits)

lemma no_text_left:
  "no_text (longest_string v) \<longleftrightarrow> string_bytes v = 0"
  "no_text (longest_item i xs) \<longleftrightarrow> item_bytes xs = 0"
  "no_text (longest_member i kvs) \<longleftrightarrow> member_bytes kvs = 0"
  by (induction v and i xs and i kvs rule: longest_string_longest_item_longest_member.induct)
    (auto simp: no_text_longer no_text_map)

text \<open>
  An unredacted value is cut until it fits, or until no text is left to cut; the numbers, keys and
  the shape of a value are never touched, so the bound alone is not a promise.
\<close>

lemma bound_unredacted_loop_bound:
  "bound_unredacted_loop env n v = Inr w \<Longrightarrow> (\<exists>k. json_size env w = Inr k \<and> k \<le> n) \<or> string_bytes w = 0"
proof (induction env n v rule: bound_unredacted_loop.induct)
  case (1 env n v)
  from "1.prems" obtain k where k: "json_size env v = Inr k"
    by (subst (asm) bound_unredacted_loop.simps) (auto split: sum.splits)
  show ?case
  proof (cases "k \<le> n")
    case True
    then have "w = v" using "1.prems" k by (subst (asm) bound_unredacted_loop.simps) simp
    then show ?thesis using k True by blast
  next
    case False
    show ?thesis
    proof (cases "longest_string v")
      case None
      then have "w = v" using "1.prems" k False by (subst (asm) bound_unredacted_loop.simps) simp
      then show ?thesis using no_text_left(1) [of v] None by (simp add: no_text_def)
    next
      case (Some ps)
      obtain path s where ps: "ps = (path, s)" by force
      define t where "t = bound_unredacted_text s (utf8_len s - (k - n))"
      show ?thesis
      proof (cases "t = s")
        case True
        then have "utf8_len s \<le> utf8_len s - (k - n)"
          using bound_unredacted_text_bound [of s "utf8_len s - (k - n)"] by (simp add: t_def)
        then have "utf8_len s = 0" using False by simp
        moreover have "w = v"
          using "1.prems" k False Some ps True by (subst (asm) bound_unredacted_loop.simps) (simp add: t_def)
        ultimately show ?thesis using no_text_left(1) [of v] Some ps by (simp add: no_text_def)
      next
        case new: False
        then have "bound_unredacted_loop env n (replace_string v path t) = Inr w"
          using "1.prems" k False Some ps new unfolding t_def
          by (subst (asm) bound_unredacted_loop.simps) (simp add: Let_def)
        then show ?thesis by (rule "1.IH" [OF k False Some ps [symmetric] t_def new])
      qed
    qed
  qed
qed

text \<open>
  A redacted summary is cut to its bound and then marked, so the marker comes on top of the bound.
\<close>

lemma bounded_text_bound: "utf8_len (bounded_text s n) \<le> max (n + 11) 7"
  using take_utf8_bound [of n s]
  by (auto simp: bounded_text_def nonempty_or_def truncated_marker_bytes(3))

lemma take_utf8_ascii: "list_all (\<lambda>c. (of_char c :: nat) < 128) s \<Longrightarrow> take_utf8 n s = take n s"
proof (induction s arbitrary: n)
  case (Cons c s)
  then show ?case by (cases n) (auto simp: Let_def)
qed simp

lemma bounded_text_exceeds:
  assumes "list_all (\<lambda>c. (of_char c :: nat) < 128) s" and "n < length s"
  shows "utf8_len (bounded_text s n) = n + 11"
proof -
  have ascii: "utf8_len xs = length xs" if "list_all (\<lambda>c. (of_char c :: nat) < 128) xs" for xs
    using that by (induction xs) auto
  have "list_all (\<lambda>c. (of_char c :: nat) < 128) (take n s)" using assms(1) by (auto simp: list_all_iff dest: in_set_takeD)
  moreover have "truncated_marker \<noteq> []" by (simp add: truncated_marker_def)
  ultimately show ?thesis
    using assms ascii [of s] ascii [of "take n s"]
    by (simp add: bounded_text_def nonempty_or_def take_utf8_ascii truncated_marker_bytes(3))
qed

section \<open>Validating arguments\<close>

text \<open>
  \<^verbatim>\<open>_validate_schema_value\<close> on a schema in the normal form of descriptors, whose names are strings
  and whose children are objects; anything else there is no constraint. \<^verbatim>\<open>math.isfinite\<close> converts an
  integer to a float first, which overflows.
\<close>

definition schema_names :: "(string \<times> json) list \<Rightarrow> string list" where
  "schema_names schema =
     (case map_of schema ''required'' of
        Some (JArr ns) \<Rightarrow> concat (map (\<lambda>n. case n of JStr k \<Rightarrow> [k] | _ \<Rightarrow> []) ns)
      | _ \<Rightarrow> [])"

definition schema_children :: "(string \<times> json) list \<Rightarrow> (string \<times> json) list" where
  "schema_children schema = (case map_of schema ''properties'' of Some (JObj ps) \<Rightarrow> ps | _ \<Rightarrow> [])"

definition object_error ::
  "(string \<times> json) list \<Rightarrow> (string \<times> json) list \<Rightarrow> string \<Rightarrow> string option" where
  "object_error kvs schema path =
     (case find (\<lambda>k. \<not> has_key kvs k) (schema_names schema) of
        Some k \<Rightarrow> Some (path @ ''.'' @ k @ '' is required'')
      | None \<Rightarrow>
          if map_of schema ''additionalProperties'' = Some (JBool False)
          then (case sorted_set (set (keys kvs) - set (keys (schema_children schema))) of
              [] \<Rightarrow> None
            | extra # _ \<Rightarrow> Some (path @ ''.'' @ extra @ '' is not allowed''))
          else None)"

definition number_error :: "json \<Rightarrow> string \<Rightarrow> string option result" where
  "number_error value path =
     (case value of
        JInt i \<Rightarrow> if \<bar>i\<bar> \<ge> float_overflow_bound then Raise OverflowErr else Ok None
      | JFloat (Finite _) \<Rightarrow> Ok None
      | _ \<Rightarrow> Ok (Some (path @ '' must be number'')))"

definition enum_error :: "(rat \<Rightarrow> string) \<Rightarrow> json \<Rightarrow> (string \<times> json) list \<Rightarrow> string \<Rightarrow> string option" where
  "enum_error fr value schema path =
     (case map_of schema ''enum'' of
        Some (JArr vs) \<Rightarrow>
          if list_ex (\<lambda>v. py_eq v value) vs then None
          else Some (path @ '' must be one of '' @ value_repr fr (JArr vs))
      | _ \<Rightarrow> None)"

definition or_else :: "string option result \<Rightarrow> string option result \<Rightarrow> string option result" where
  "or_else r s = bind_result r (\<lambda>e. if e = None then s else Ok e)"

text \<open>The type a schema asks for, and the complaint when a value is not of it.\<close>

definition schema_type :: "(string \<times> json) list \<Rightarrow> string" where
  "schema_type schema = (case map_of schema ''type'' of Some (JStr t) \<Rightarrow> t | _ \<Rightarrow> [])"

definition shape_error :: "json \<Rightarrow> string \<Rightarrow> string \<Rightarrow> string option result" where
  "shape_error value t path =
     (if t = ''object'' then expect (is_object value) (path @ '' must be object'')
      else if t = ''array'' then expect (case value of JArr _ \<Rightarrow> True | _ \<Rightarrow> False) (path @ '' must be array'')
      else if t = ''string'' then expect (case value of JStr _ \<Rightarrow> True | _ \<Rightarrow> False) (path @ '' must be string'')
      else if t = ''integer'' then expect (case value of JInt _ \<Rightarrow> True | _ \<Rightarrow> False) (path @ '' must be integer'')
      else if t = ''number'' then number_error value path
      else if t = ''boolean'' then expect (case value of JBool _ \<Rightarrow> True | _ \<Rightarrow> False) (path @ '' must be boolean'')
      else Ok None)"

definition item_schema_of :: "(string \<times> json) list \<Rightarrow> (string \<times> json) list" where
  "item_schema_of schema = (case map_of schema ''items'' of Some (JObj s) \<Rightarrow> s | _ \<Rightarrow> [])"

definition wants_object :: "(string \<times> json) list \<Rightarrow> bool" where
  "wants_object schema \<longleftrightarrow> schema_type schema = ''object''"

definition wants_array :: "(string \<times> json) list \<Rightarrow> bool" where
  "wants_array schema \<longleftrightarrow> schema_type schema = ''array''"

definition member_path :: "string \<Rightarrow> string \<Rightarrow> string" where
  "member_path path key = path @ ''.'' @ key"

definition item_path :: "string \<Rightarrow> nat \<Rightarrow> string" where
  "item_path path i = path @ ''['' @ show_nat i @ '']''"

function validate_schema_value ::
    "(rat \<Rightarrow> string) \<Rightarrow> json \<Rightarrow> (string \<times> json) list \<Rightarrow> string \<Rightarrow> string option result"
  and validate_members ::
    "(rat \<Rightarrow> string) \<Rightarrow> (string \<times> json) list \<Rightarrow> (string \<times> json) list \<Rightarrow> string \<Rightarrow> string option result"
  and validate_items ::
    "(rat \<Rightarrow> string) \<Rightarrow> json list \<Rightarrow> (string \<times> json) list \<Rightarrow> string \<Rightarrow> nat \<Rightarrow> string option result" where
  "validate_schema_value fr value schema path =
     or_else (shape_error value (schema_type schema) path)
       (or_else
         (case value of
            JObj kvs \<Rightarrow>
              if wants_object schema
              then or_else (Ok (object_error kvs schema path)) (validate_members fr kvs (schema_children schema) path)
              else Ok None
          | JArr xs \<Rightarrow>
              if wants_array schema then validate_items fr xs (item_schema_of schema) path 0 else Ok None
          | _ \<Rightarrow> Ok None)
         (Ok (enum_error fr value schema path)))"
| "validate_members fr [] children path = Ok None"
| "validate_members fr ((key, item) # kvs) children path =
     or_else
       (case map_of children key of
          Some (JObj child) \<Rightarrow> validate_schema_value fr item child (member_path path key)
        | _ \<Rightarrow> Ok None)
       (validate_members fr kvs children path)"
| "validate_items fr [] item_schema path i = Ok None"
| "validate_items fr (item # items) item_schema path i =
     or_else (validate_schema_value fr item item_schema (item_path path i))
       (validate_items fr items item_schema path (Suc i))"
  by pat_completeness auto
termination
  by (relation "measure (case_sum (\<lambda>(fr, v, s, p). size v)
      (case_sum (\<lambda>(fr, kvs, c, p). size_list (size_prod (\<lambda>_. 0) size) kvs) (\<lambda>(fr, xs, c, p, i). size_list size xs)))") auto

declare validate_schema_value.simps [simp del]

definition validate_json_object_schema ::
  "(rat \<Rightarrow> string) \<Rightarrow> (string \<times> json) list \<Rightarrow> (string \<times> json) list \<Rightarrow> string option result" where
  "validate_json_object_schema fr value schema = validate_schema_value fr (JObj value) schema ''$''"

text \<open>
  What is checked, read as JSON Schema: types, required and additional names, children, and
  enumerations. A \<^verbatim>\<open>const\<close> is not.
\<close>

fun type_holds :: "json \<Rightarrow> string \<Rightarrow> bool" where
  "type_holds v t \<longleftrightarrow>
     (t = ''object'' \<longrightarrow> is_object v) \<and> (t = ''array'' \<longrightarrow> (\<exists>xs. v = JArr xs)) \<and> (t = ''string'' \<longrightarrow> (\<exists>s. v = JStr s))
     \<and> (t = ''integer'' \<longrightarrow> (\<exists>i. v = JInt i)) \<and> (t = ''boolean'' \<longrightarrow> (\<exists>b. v = JBool b))
     \<and> (t = ''number'' \<longrightarrow> (\<exists>i. v = JInt i \<and> \<bar>i\<bar> < float_overflow_bound) \<or> (\<exists>q. v = JFloat (Finite q)))"

function schema_holds :: "json \<Rightarrow> (string \<times> json) list \<Rightarrow> bool" where
  "schema_holds v s \<longleftrightarrow>
     type_holds v (schema_type s)
     \<and> (\<forall>vs. map_of s ''enum'' = Some (JArr vs) \<longrightarrow> (\<exists>w \<in> set vs. py_eq w v))
     \<and> (case v of
          JObj kvs \<Rightarrow> schema_type s = ''object'' \<longrightarrow>
            set (schema_names s) \<subseteq> set (keys kvs)
            \<and> (map_of s ''additionalProperties'' = Some (JBool False) \<longrightarrow> set (keys kvs) \<subseteq> set (keys (schema_children s)))
            \<and> (\<forall>kv \<in> set kvs. case map_of (schema_children s) (fst kv) of
                 Some (JObj child) \<Rightarrow> schema_holds (snd kv) child | _ \<Rightarrow> True)
        | JArr xs \<Rightarrow> schema_type s = ''array'' \<longrightarrow> (\<forall>x \<in> set xs. schema_holds x (item_schema_of s))
        | _ \<Rightarrow> True)"
  by pat_completeness auto
termination
proof (relation "measure (\<lambda>(v, s). size v)")
  fix v s kvs kv child
  assume "v = JObj kvs" "kv \<in> set kvs"
  moreover have "size (snd kv) \<le> size_list (size_prod (\<lambda>_. 0) size) kvs"
    using \<open>kv \<in> set kvs\<close> by (induction kvs) (auto simp: size_prod_def split: prod.splits)
  ultimately show "((snd kv, child), v, s) \<in> measure (\<lambda>(v, s). size v)" by simp
next
  fix v s xs x
  assume "v = JArr xs" "x \<in> set xs"
  moreover have "size x \<le> size_list size xs" using \<open>x \<in> set xs\<close> by (induction xs) auto
  ultimately show "((x, item_schema_of s), v, s) \<in> measure (\<lambda>(v, s). size v)" by simp
qed simp

declare schema_holds.simps [simp del]

lemma or_else_None: "or_else r s = Inr None \<longleftrightarrow> r = Inr None \<and> s = Inr None"
  by (cases r) (auto simp: or_else_def)

lemma expect_None: "expect b m = Inr None \<longleftrightarrow> b"
  by (simp add: expect_def)

lemma number_error_None:
  "number_error v path = Inr None \<longleftrightarrow> (\<exists>i. v = JInt i \<and> \<bar>i\<bar> < float_overflow_bound) \<or> (\<exists>q. v = JFloat (Finite q))"
  by (auto simp: number_error_def split: json.splits pyfloat.splits if_splits)

lemma shape_error_None: "shape_error v t path = Inr None \<longleftrightarrow> type_holds v t"
proof -
  have "(case v of JStr _ \<Rightarrow> True | _ \<Rightarrow> False) \<longleftrightarrow> (\<exists>s. v = JStr s)" "(case v of JInt _ \<Rightarrow> True | _ \<Rightarrow> False) \<longleftrightarrow> (\<exists>i. v = JInt i)"
    "(case v of JArr _ \<Rightarrow> True | _ \<Rightarrow> False) \<longleftrightarrow> (\<exists>xs. v = JArr xs)" "(case v of JBool _ \<Rightarrow> True | _ \<Rightarrow> False) \<longleftrightarrow> (\<exists>b. v = JBool b)"
    by (auto split: json.splits)
  then show ?thesis by (simp add: shape_error_def expect_None number_error_None)
qed

lemma find_None_subset: "find (\<lambda>k. \<not> has_key kvs k) ks = None \<longleftrightarrow> set ks \<subseteq> set (keys kvs)"
  by (auto simp: find_None_iff has_key_def)

lemma object_error_None:
  "object_error kvs s path = None \<longleftrightarrow> set (schema_names s) \<subseteq> set (keys kvs)
     \<and> (map_of s ''additionalProperties'' = Some (JBool False) \<longrightarrow> set (keys kvs) \<subseteq> set (keys (schema_children s)))"
proof (cases "find (\<lambda>k. \<not> has_key kvs k) (schema_names s)")
  case None
  have "sorted_set (set (keys kvs) - set (keys (schema_children s))) = []
      \<longleftrightarrow> set (keys kvs) \<subseteq> set (keys (schema_children s))"
    by (simp add: sorted_list_of_set_eq_Nil_iff Diff_eq_empty_iff)
  then have "(case sorted_set (set (keys kvs) - set (keys (schema_children s))) of [] \<Rightarrow> None
      | extra # _ \<Rightarrow> Some (path @ ''.'' @ extra @ '' is not allowed'')) = None
      \<longleftrightarrow> set (keys kvs) \<subseteq> set (keys (schema_children s))"
    by (auto split: list.splits simp: Diff_eq_empty_iff [THEN iffD2] simp del: set_map)
  then show ?thesis
    using None find_None_subset [of kvs "schema_names s"] by (simp add: object_error_def del: set_map)
next
  case (Some k)
  then show ?thesis
    using find_None_subset [of kvs "schema_names s"] by (auto simp: object_error_def)
qed

lemma enum_error_None:
  "enum_error fr v s path = None \<longleftrightarrow> (\<forall>vs. map_of s ''enum'' = Some (JArr vs) \<longrightarrow> (\<exists>w \<in> set vs. py_eq w v))"
  by (auto simp: enum_error_def list_ex_iff split: option.splits json.splits)

lemma validate_exact:
  "validate_schema_value fr v s path = Inr None \<longleftrightarrow> schema_holds v s"
  "validate_members fr kvs children path = Inr None \<longleftrightarrow>
     (\<forall>kv \<in> set kvs. case map_of children (fst kv) of Some (JObj child) \<Rightarrow> schema_holds (snd kv) child | _ \<Rightarrow> True)"
  "validate_items fr xs item path i = Inr None \<longleftrightarrow> (\<forall>x \<in> set xs. schema_holds x item)"
proof (induction fr v s path and fr kvs children path and fr xs item path i
    rule: validate_schema_value_validate_members_validate_items.induct)
  case (1 fr v s path)
  then show ?case
    unfolding validate_schema_value.simps [of fr v] schema_holds.simps [of v] or_else_None shape_error_None
    by (cases v) (auto simp: or_else_None object_error_None enum_error_None wants_object_def wants_array_def)
next
  case (3 fr key item kvs children path)
  then show ?case
    by (auto simp: or_else_None split: option.splits json.splits)
next
  case (5 fr item items item_schema path i)
  then show ?case by (simp add: or_else_None)
qed simp_all

text \<open>
  C40: The argument validator of the executors accepts exactly the objects that hold under its
  schema: of the type it names at every level, with every required name, no name outside the
  properties of a closed object, every known member and every item under its own schema, and in the
  enumeration. It asks nothing of a \<^verbatim>\<open>const\<close>, and a number that is an integer too large for a float
  is not accepted, because its finiteness test raises.
\<close>

theorem validate_json_object_schema_exact:
  "validate_json_object_schema fr kvs s = Inr None \<longleftrightarrow> schema_holds (JObj kvs) s"
  by (simp add: validate_json_object_schema_def validate_exact)

end
