(* ===== verification/Tool_Schema.thy ===== *)
theory Tool_Schema
  imports Diagnostics Schema_Subset Messages
begin

text \<open>
  The translation of a tool's JSON schema to a parameter class, \<^verbatim>\<open>_forge/core/workflow.py\<close>. The
  class is built by Pydantic (\<^verbatim>\<open>create_model\<close>) and shown to the model as the schema Pydantic makes
  of it (\<^verbatim>\<open>model_json_schema\<close>); both are parameters, which see the name and the fields of the
  class. The guarded loop accepts a slightly smaller subset than the compiler: what a schema in
  the compiler's normal form still needs is characterised at the end.
\<close>

section \<open>Parameter classes\<close>

datatype param_type =
    Type_Str
  | Type_Int
  | Type_Float
  | Type_Bool
  | Type_Literal "json list"
  | Type_List param_type
  | Type_Model string "(string \<times> param_field) list"
and param_field =
    Param_Field param_type bool json json

text \<open>
  A field has its type, whether it is required, its default (null for a required field, and for an
  optional one without default) and its description (null when there is none).
\<close>

record pydantic_env =
  pe_create_model :: "string \<Rightarrow> (string \<times> param_field) list \<Rightarrow> py_error option"
  pe_json_schema :: "param_type \<Rightarrow> json"

definition create_model :: "pydantic_env \<Rightarrow> string \<Rightarrow> (string \<times> param_field) list \<Rightarrow> param_type result" where
  "create_model env name flds =
     (case pe_create_model env name flds of None \<Rightarrow> Ok (Type_Model name flds) | Some e \<Rightarrow> Raise e)"

definition SCHEMA_OBJECT_KEYS :: "string list" where
  "SCHEMA_OBJECT_KEYS = [''type'', ''properties'', ''required'', ''description'', ''additionalProperties'']"

definition SCHEMA_PROPERTY_KEYS :: "string list" where
  "SCHEMA_PROPERTY_KEYS = [''type'', ''const'', ''properties'', ''required'', ''description'', ''default'', ''enum'',
     ''items'', ''additionalProperties'']"

definition SUPPORTED_JSON_TYPES :: "string list" where
  "SUPPORTED_JSON_TYPES = [''string'', ''integer'', ''number'', ''boolean'', ''object'', ''array'']"

lemmas schema_key_defs = SCHEMA_OBJECT_KEYS_def SCHEMA_PROPERTY_KEYS_def SUPPORTED_JSON_TYPES_def

section \<open>Names\<close>

text \<open>\<^verbatim>\<open>str.capitalize\<close> on ASCII text.\<close>

definition upper_char :: "char \<Rightarrow> char" where
  "upper_char c = (let n = of_char c :: nat in if 97 \<le> n \<and> n \<le> 122 then char_of (n - 32) else c)"

fun capitalize :: "string \<Rightarrow> string" where
  "capitalize [] = []"
| "capitalize (c # cs) = upper_char c # map lower_char cs"

fun split_underscore :: "string \<Rightarrow> string \<Rightarrow> string list" where
  "split_underscore part [] = [part]"
| "split_underscore part (c # cs) =
     (if c = CHR ''_'' then part # split_underscore [] cs else split_underscore (part @ [c]) cs)"

definition to_pascal :: "string \<Rightarrow> string" where
  "to_pascal name = concat (map capitalize (split_underscore [] name)) @ ''Params''"

section \<open>The checks\<close>

definition reject_unsupported_keys :: "(string \<times> json) list \<Rightarrow> string list \<Rightarrow> string \<Rightarrow> unit result" where
  "reject_unsupported_keys schema allowed location =
     (let unsupported = sorted_set (set (keys schema) - set allowed)
      in ensure (unsupported = []) (ValueError (''Unsupported JSON Schema feature(s) at '' @ location @ '': ''
           @ join_str '', '' unsupported)))"

definition require_object :: "json \<Rightarrow> string \<Rightarrow> (string \<times> json) list result" where
  "require_object value location =
     (case value of JObj kvs \<Rightarrow> Ok kvs | _ \<Rightarrow> Raise (ValueError (''Expected object at '' @ location)))"

definition validate_additional_properties :: "(string \<times> json) list \<Rightarrow> string \<Rightarrow> unit result" where
  "validate_additional_properties schema location =
     (case map_of schema ''additionalProperties'' of
        None \<Rightarrow> Raise (ValueError (''Missing required JSON Schema key at '' @ location @ '': additionalProperties''))
      | Some v \<Rightarrow> ensure (v = JBool False) (ValueError (''Unsupported JSON Schema feature at '' @ location
          @ '': additionalProperties must be false'')))"

definition is_json_str :: "json \<Rightarrow> bool" where
  "is_json_str v = (case v of JStr _ \<Rightarrow> True | _ \<Rightarrow> False)"

definition json_str_value :: "json \<Rightarrow> string" where
  "json_str_value v = (case v of JStr s \<Rightarrow> s | _ \<Rightarrow> [])"

definition validate_required ::
  "json option \<Rightarrow> (string \<times> json) list \<Rightarrow> string \<Rightarrow> string list result" where
  "validate_required required properties location =
     (case required of
        None \<Rightarrow> Raise (ValueError (''Missing required JSON Schema key at '' @ location @ '': required''))
      | Some JNull \<Rightarrow> Raise (ValueError (''Missing required JSON Schema key at '' @ location @ '': required''))
      | Some (JArr items) \<Rightarrow>
          if \<not> list_all is_json_str items
          then Raise (ValueError (''Expected string list for required at '' @ location))
          else let names = map json_str_value items; unknown = sorted_set (set names - set (keys properties))
               in if unknown \<noteq> []
                  then Raise (ValueError (''Required field(s) not present in properties at '' @ location @ '': ''
                         @ join_str '', '' unknown))
                  else Ok names
      | Some _ \<Rightarrow> Raise (ValueError (''Expected string list for required at '' @ location)))"

definition member :: "(string \<times> json) list \<Rightarrow> string \<Rightarrow> json" where
  "member kvs k = (case map_of kvs k of None \<Rightarrow> JNull | Some v \<Rightarrow> v)"

definition is_const_value :: "json \<Rightarrow> bool" where
  "is_const_value v = (case v of JStr _ \<Rightarrow> True | JInt _ \<Rightarrow> True | JFloat _ \<Rightarrow> True | JBool _ \<Rightarrow> True | _ \<Rightarrow> False)"

definition scalar_type :: "string \<Rightarrow> param_type option" where
  "scalar_type t = map_of [(''string'', Type_Str), (''integer'', Type_Int), (''number'', Type_Float),
     (''boolean'', Type_Bool)] t"

definition schema_problem :: "string \<Rightarrow> string \<Rightarrow> string \<Rightarrow> 'a result" where
  "schema_problem what prefix name = Raise (ValueError (what @ '' at '' @ prefix @ ''.'' @ name))"

section \<open>The translation\<close>

text \<open>
  \<^verbatim>\<open>_json_schema_to_type\<close> and \<^verbatim>\<open>_build_model\<close>, whose loop over the properties is
  \<open>build_fields\<close>. The last line of \<^verbatim>\<open>_json_schema_to_type\<close> is not reached: every supported type
  is handled before it.
\<close>

function json_schema_to_type ::
    "pydantic_env \<Rightarrow> (string \<times> json) list \<Rightarrow> string \<Rightarrow> string \<Rightarrow> param_type result"
  and build_model :: "pydantic_env \<Rightarrow> (string \<times> json) list \<Rightarrow> string list \<Rightarrow> string \<Rightarrow> param_type result"
  and build_fields ::
    "pydantic_env \<Rightarrow> (string \<times> json) list \<Rightarrow> string list \<Rightarrow> string \<Rightarrow> (string \<times> param_field) list result" where
  "json_schema_to_type env prop field_name prefix =
     bind_result (reject_unsupported_keys prop SCHEMA_PROPERTY_KEYS (prefix @ ''.'' @ field_name)) (\<lambda>_.
     case map_of prop ''const'' of
       Some value \<Rightarrow>
         if is_const_value value then Ok (Type_Literal [value])
         else schema_problem ''Unsupported JSON Schema const'' prefix field_name
     | None \<Rightarrow>
       (case map_of prop ''type'' of
          None \<Rightarrow> schema_problem ''Missing JSON Schema type'' prefix field_name
        | Some (JStr json_type) \<Rightarrow>
            if json_type \<notin> set SUPPORTED_JSON_TYPES
            then Raise (ValueError (''Unsupported JSON Schema type at '' @ prefix @ ''.'' @ field_name @ '': '' @ json_type))
            else (case map_of prop ''enum'' of
               Some (JArr (v # vs)) \<Rightarrow> Ok (Type_Literal (v # vs))
             | Some _ \<Rightarrow> schema_problem ''Expected non-empty enum list'' prefix field_name
             | None \<Rightarrow>
              (case scalar_type json_type of
                 Some t \<Rightarrow> Ok t
               | None \<Rightarrow>
                 if json_type = ''object''
                 then bind_result (validate_additional_properties prop (prefix @ ''.'' @ field_name)) (\<lambda>_.
                   (case map_of prop ''properties'' of
                      None \<Rightarrow> Raise (ValueError (''Missing required JSON Schema key at '' @ prefix @ ''.'' @ field_name
                        @ '': properties''))
                    | Some (JObj sub_props) \<Rightarrow>
                        bind_result (validate_required (map_of prop ''required'') sub_props
                          (prefix @ ''.'' @ field_name)) (\<lambda>sub_required.
                        build_model env sub_props sub_required (prefix @ ''_'' @ capitalize field_name))
                    | Some _ \<Rightarrow> Raise (ValueError (''Expected object at '' @ prefix @ ''.'' @ field_name
                        @ ''.properties''))))
                 else (case map_of prop ''items'' of
                      None \<Rightarrow> schema_problem ''Array schema missing items'' prefix field_name
                    | Some (JObj items) \<Rightarrow>
                        bind_result (json_schema_to_type env items (field_name @ ''Item'') prefix) (\<lambda>item_type.
                        Ok (Type_List item_type))
                    | Some _ \<Rightarrow> Raise (ValueError (''Expected object at '' @ prefix @ ''.'' @ field_name
                        @ ''.items'')))))
        | Some _ \<Rightarrow> schema_problem ''Unsupported JSON Schema type'' prefix field_name))"
| "build_model env properties required model_name =
     bind_result (build_fields env properties required model_name) (create_model env model_name)"
| "build_fields env [] required model_name = Ok []"
| "build_fields env ((fname, fprop) # rest) required model_name =
     (case fprop of
        JObj prop \<Rightarrow>
          bind_result (json_schema_to_type env prop fname model_name) (\<lambda>python_type.
          bind_result (build_fields env rest required model_name) (\<lambda>flds.
          Ok ((fname, Param_Field python_type (fname \<in> set required)
                 (if fname \<in> set required then JNull else member prop ''default'') (member prop ''description''))
              # flds)))
      | _ \<Rightarrow> Raise (ValueError (''Expected object at '' @ model_name @ ''.'' @ fname)))"
  by pat_completeness auto
termination
  by (relation "measure (case_sum (\<lambda>(e, s, n, p). 2 * jmembers s)
        (case_sum (\<lambda>(e, s, r, n). 2 * jmembers s + 1) (\<lambda>(e, s, r, n). 2 * jmembers s)))")
    (auto dest!: jmembers_map_of)

declare json_schema_to_type.simps [simp del]
declare build_model.simps [simp del]

definition tool_spec_from_json_schema ::
  "pydantic_env \<Rightarrow> string \<Rightarrow> string \<Rightarrow> (string \<times> json) list \<Rightarrow> tool_spec result" where
  "tool_spec_from_json_schema env name description schema =
     (let location = name @ '' parameters'' in
      bind_result (reject_unsupported_keys schema SCHEMA_OBJECT_KEYS location) (\<lambda>_.
      bind_result (validate_additional_properties schema location) (\<lambda>_.
      bind_result (ensure (map_of schema ''type'' = Some (JStr ''object''))
        (ValueError ''Tool parameter schema must be a JSON object'')) (\<lambda>_.
      bind_result (case map_of schema ''properties'' of
          None \<Rightarrow> Raise (ValueError (''Missing required JSON Schema key at '' @ location @ '': properties''))
        | Some v \<Rightarrow> require_object v (location @ ''.properties'')) (\<lambda>properties.
      bind_result (validate_required (map_of schema ''required'') properties location) (\<lambda>required.
      bind_result (build_model env properties required (to_pascal name)) (\<lambda>params_cls.
      Ok \<lparr>ts_name = name, ts_description = description, ts_parameters = pe_json_schema env params_cls\<rparr>)))))))"

section \<open>What is representable\<close>

text \<open>
  A schema in the compiler's normal form has a parameter class exactly when it has no null constant
  and the names of its properties are ones that Pydantic takes.
\<close>

function representable :: "(string \<Rightarrow> bool) \<Rightarrow> (string \<times> json) list \<Rightarrow> bool"
  and representable_properties :: "(string \<Rightarrow> bool) \<Rightarrow> (string \<times> json) list \<Rightarrow> bool" where
  "representable P s =
     (map_of s ''const'' \<noteq> Some JNull
      \<and> (case map_of s ''properties'' of Some (JObj ps) \<Rightarrow> representable_properties P ps | _ \<Rightarrow> True)
      \<and> (case map_of s ''items'' of Some (JObj i) \<Rightarrow> representable P i | _ \<Rightarrow> True))"
| "representable_properties P [] = True"
| "representable_properties P ((k, v) # ps) =
     (P k \<and> (case v of JObj s \<Rightarrow> representable P s | _ \<Rightarrow> False) \<and> representable_properties P ps)"
  by pat_completeness auto
termination
  by (relation "measure (case_sum (\<lambda>(P, s). jmembers s) (\<lambda>(P, s). jmembers s))") (auto dest!: jmembers_map_of)

declare representable.simps [simp del]

lemma is_ok_bind_Ok [simp]: "is_ok (bind_result r (\<lambda>x. Inr (f x))) \<longleftrightarrow> is_ok r"
  by (cases r) auto

text \<open>Pydantic builds a class when the names of its fields are admissible.\<close>

definition builds_classes :: "pydantic_env \<Rightarrow> (string \<Rightarrow> bool) \<Rightarrow> bool" where
  "builds_classes env P \<longleftrightarrow> (\<forall>name flds. pe_create_model env name flds = None \<longleftrightarrow> (\<forall>f \<in> set flds. P (fst f)))"

lemma create_model_ok:
  assumes "builds_classes env P"
  shows "is_ok (create_model env name flds) \<longleftrightarrow> (\<forall>f \<in> set flds. P (fst f))"
proof -
  have "pe_create_model env name flds = None \<longleftrightarrow> (\<forall>f \<in> set flds. P (fst f))"
    using assms by (simp add: builds_classes_def)
  then show ?thesis by (cases "pe_create_model env name flds") (simp_all add: create_model_def)
qed

lemma build_fields_keys: "build_fields env ps req name = Inr flds \<Longrightarrow> keys flds = keys ps"
  by (induction ps arbitrary: flds) (auto simp: result_simps split: json.splits)

lemma build_model_ok:
  assumes "builds_classes env P"
    and "\<And>k v. (k, v) \<in> set ps \<Longrightarrow> \<exists>s. v = JObj s \<and> (is_ok (json_schema_to_type env s k name) \<longleftrightarrow> representable P s)"
  shows "is_ok (build_model env ps req name) \<longleftrightarrow> representable_properties P ps"
proof -
  have "is_ok (build_fields env ps req name) \<and> (\<forall>k \<in> set (keys ps). P k) \<longleftrightarrow> representable_properties P ps"
    using assms(2)
  proof (induction ps)
    case (Cons kv ps)
    obtain k v where kv: "kv = (k, v)" by force
    obtain s where s: "v = JObj s" "is_ok (json_schema_to_type env s k name) \<longleftrightarrow> representable P s"
      using Cons.prems [of k v] by (auto simp: kv)
    have "is_ok (build_fields env (kv # ps) req name) \<longleftrightarrow> representable P s \<and> is_ok (build_fields env ps req name)"
      using s by (cases "json_schema_to_type env s k name"; cases "build_fields env ps req name") (simp_all add: kv)
    moreover have "is_ok (build_fields env ps req name) \<and> (\<forall>k \<in> set (keys ps). P k) \<longleftrightarrow> representable_properties P ps"
      by (rule Cons.IH) (use Cons.prems in auto)
    ultimately show ?case by (auto simp: kv s)
  qed simp
  moreover have "is_ok (build_model env ps req name) \<longleftrightarrow> is_ok (build_fields env ps req name) \<and> (\<forall>k \<in> set (keys ps). P k)"
  proof (cases "build_fields env ps req name")
    case (Inr flds)
    then have "fst ` set flds = fst ` set ps" by (metis build_fields_keys list.set_map)
    then have "(\<forall>f \<in> set flds. P (fst f)) \<longleftrightarrow> (\<forall>k \<in> set (keys ps). P k)" by (metis (no_types) imageE imageI list.set_map)
    with Inr show ?thesis by (simp add: build_model.simps create_model_ok [OF assms(1)])
  qed (simp add: build_model.simps)
  ultimately show ?thesis by simp
qed

lemma validate_required_strings:
  "set req \<subseteq> set (keys props) \<Longrightarrow> validate_required (Some (JArr (map JStr req))) props loc = Inr req"
  by (simp add: validate_required_def is_json_str_def json_str_value_def list_all_iff comp_def Diff_eq_empty_iff [THEN iffD2])

text \<open>The properties of a normalised object are normalised schemas of smaller ones.\<close>

lemma normalized_property:
  "normalize_properties ps p = Inr ns \<Longrightarrow> (k, v) \<in> set ns \<Longrightarrow>
     \<exists>s n. (k, JObj s) \<in> set ps \<and> normalize_schema_node s (p @ ''/properties/'' @ k) = Inr n \<and> v = JObj n"
proof (induction ps arbitrary: ns)
  case (Cons kv ps)
  obtain k' v' where "kv = (k', v')" by force
  with Cons.prems(1) obtain s n rest where parts: "kv = (k', JObj s)" "normalize_schema_node s (p @ ''/properties/'' @ k') = Inr n"
    "normalize_properties ps p = Inr rest" "ns = (k', JObj n) # rest"
    by (auto simp: result_simps split: if_splits json.splits)
  show ?case
  proof (cases "(k, v) \<in> set rest")
    case True
    from Cons.IH [OF parts(3) this] show ?thesis by (metis list.set_intros(2))
  next
    case False
    then have "k = k' \<and> v = JObj n" using Cons.prems(2) parts(4) by auto
    then show ?thesis using parts(1,2) by (metis list.set_intros(1))
  qed
qed simp

lemma normalized_const_type:
  "is_ok (json_schema_to_type env [(''const'', l)] f p) \<longleftrightarrow> is_const_value l"
  by (simp add: json_schema_to_type.simps reject_unsupported_keys_def schema_key_defs schema_problem_def)

lemma structured_keys_allowed:
  assumes "structure_part s p t st" and "t \<in> set SCHEMA_ALLOWED_TYPES"
  shows "set (keys (structured_node t e st)) \<subseteq> set SCHEMA_PROPERTY_KEYS"
proof -
  have "set (keys st) \<subseteq> {''additionalProperties'', ''properties'', ''required'', ''items''}"
  proof (cases "t = ''object''")
    case True
    with assms(1) have "normalize_object_schema s p = Inr st" by (simp add: structure_part_def)
    then obtain props req where "st = [(''additionalProperties'', JBool False), (''properties'', JObj props),
      (''required'', JArr (map JStr (sort req)))]" unfolding object_schema_Inr by blast
    then show ?thesis by simp
  next
    case False
    with assms(1) show ?thesis by (auto simp: structure_part_def array_schema_Inr split: if_splits)
  qed
  then show ?thesis by (cases e) (auto simp: structured_node_def schema_key_defs)
qed

lemma normalized_object_model:
  assumes B: "builds_classes env P" and st: "normalize_object_schema s p = Inr st"
    and IH: "\<And>s' p' n f pre. jmembers s' < jmembers s \<Longrightarrow> normalize_schema_node s' p' = Inr n \<Longrightarrow>
       is_ok (json_schema_to_type env n f pre) \<longleftrightarrow> representable P n"
  shows "\<exists>props req. st = [(''additionalProperties'', JBool False), (''properties'', JObj props),
      (''required'', JArr (map JStr req))] \<and> set req \<subseteq> set (keys props)
    \<and> (\<forall>req' name. is_ok (build_model env props req' name) \<longleftrightarrow> representable_properties P props)"
proof -
  obtain props req where
    props: "case map_of s ''properties'' of None \<Rightarrow> props = []
           | Some v \<Rightarrow> \<exists>ps. v = JObj ps \<and> normalize_properties (sort_key fst ps) p = Inr props"
    and req: "case map_of s ''required'' of None \<Rightarrow> req = []
           | Some v \<Rightarrow> v = JArr (map JStr req) \<and> distinct req \<and> set req \<subseteq> set (keys props) \<and> [] \<notin> set req"
    and st_eq: "st = [(''additionalProperties'', JBool False), (''properties'', JObj props),
                (''required'', JArr (map JStr (sort req)))]"
    using st unfolding object_schema_Inr by blast
  have "\<exists>n. v = JObj n \<and> (\<forall>name. is_ok (json_schema_to_type env n k name) \<longleftrightarrow> representable P n)"
    if kv: "(k, v) \<in> set props" for k v
  proof -
    obtain ps where ps: "map_of s ''properties'' = Some (JObj ps)" "normalize_properties (sort_key fst ps) p = Inr props"
      using props kv by (auto split: option.splits)
    obtain s' n where n: "(k, JObj s') \<in> set ps" "normalize_schema_node s' (p @ ''/properties/'' @ k) = Inr n" "v = JObj n"
      using normalized_property [OF ps(2) kv] by auto
    have "Suc (jmembers s') \<le> jmembers ps" using n(1) by (induction ps) auto
    then have "jmembers s' < jmembers s" using jmembers_map_of [OF ps(1)] by simp
    from IH [OF this n(2)] n(3) show ?thesis by blast
  qed
  then have "is_ok (build_model env props req' name) \<longleftrightarrow> representable_properties P props" for req' name
    by (intro build_model_ok [OF B]) blast
  moreover have "set (sort req) \<subseteq> set (keys props)" using req by (auto split: option.splits)
  ultimately show ?thesis using st_eq by blast
qed

lemma normalized_type_ok:
  assumes "builds_classes env P" and "normalize_schema_node s p = Inr n"
  shows "is_ok (json_schema_to_type env n f pre) \<longleftrightarrow> representable P n"
  using assms(2)
proof (induction "jmembers s" arbitrary: s p n f pre rule: less_induct)
  case less
  show ?case
  proof (cases "has_key s ''const''")
    case True
    with less.prems obtain l where l: "scalar_literal l" "n = [(''const'', l)]"
      unfolding const_node_Inr [OF True] const_only_Inr by blast
    have "representable P n \<longleftrightarrow> l \<noteq> JNull"
      unfolding representable.simps [of P n] by (simp add: l)
    moreover have "is_const_value l \<longleftrightarrow> l \<noteq> JNull" using l(1) by (cases l) (simp_all add: is_const_value_def)
    ultimately show ?thesis by (simp add: l(2) normalized_const_type)
  next
    case False
    with less.prems obtain t e st where
      t: "t \<in> set SCHEMA_ALLOWED_TYPES" and e: "enum_part s e" and st: "structure_part s p t st"
      and lit: "\<forall>vs. e = Some vs \<longrightarrow> (\<forall>v \<in> set vs. literal_matches_type v t)"
      and n: "n = structured_node t e st"
      unfolding structured_node_Inr [OF False] by blast
    have allowed: "reject_unsupported_keys n SCHEMA_PROPERTY_KEYS loc = Inr ()" for loc
      using structured_keys_allowed [OF st t, of e] by (simp add: reject_unsupported_keys_def n Diff_eq_empty_iff [THEN iffD2])
    have supported: "t \<in> set SUPPORTED_JSON_TYPES"
      using t by (auto simp: schema_key_defs keyword_defs)
    have enum: "e = Some vs \<Longrightarrow> vs \<noteq> [] \<and> t \<in> set SCHEMA_SCALAR_TYPES" for vs
      using e lit by (cases vs) (auto simp: enum_part_def literal_matches_type_def keyword_defs split: option.splits if_splits)
    consider (object) "t = ''object''" | (array) "t = ''array''" | (scalar) "t \<in> set SCHEMA_SCALAR_TYPES"
      using t unfolding SCHEMA_ALLOWED_TYPES_def by auto
    then show ?thesis
    proof cases
      case object
      with st have "normalize_object_schema s p = Inr st" by (simp add: structure_part_def)
      then have "\<exists>props req. st = [(''additionalProperties'', JBool False), (''properties'', JObj props),
          (''required'', JArr (map JStr req))] \<and> set req \<subseteq> set (keys props)
        \<and> (\<forall>req' name. is_ok (build_model env props req' name) \<longleftrightarrow> representable_properties P props)"
        by (rule normalized_object_model [OF assms(1)]) (rule less.hyps)
      then obtain props req where
        "st = [(''additionalProperties'', JBool False), (''properties'', JObj props), (''required'', JArr (map JStr req))]"
        "set req \<subseteq> set (keys props)" "\<And>req' name. is_ok (build_model env props req' name) \<longleftrightarrow> representable_properties P props"
        by blast
      moreover have "e = None" using enum object by (cases e) (auto simp: keyword_defs)
      ultimately show ?thesis
        using allowed supported object
        unfolding json_schema_to_type.simps [of env n] representable.simps [of P n]
        by (simp add: n structured_node_def
            scalar_type_def validate_additional_properties_def validate_required_strings del: set_map)
    next
      case array
      with st obtain items node where it: "map_of s ''items'' = Some (JObj items)"
        "normalize_schema_node items (p @ ''/items'') = Inr node" "st = [(''items'', JObj node)]"
        by (auto simp: structure_part_def array_schema_Inr)
      have "jmembers items < jmembers s" using jmembers_map_of [OF it(1)] by simp
      note IH = less.hyps [OF this it(2)]
      have "e = None" using enum array by (cases e) (auto simp: keyword_defs)
      then show ?thesis
        using allowed supported array it(3) IH [of "f @ ''Item''" pre]
        unfolding json_schema_to_type.simps [of env n] representable.simps [of P n]
        by (simp add: n structured_node_def scalar_type_def)
    next
      case scalar
      then have "st = []" using st by (auto simp: structure_part_def keyword_defs)
      moreover have "\<exists>T. scalar_type t = Some T" using scalar by (auto simp: scalar_type_def keyword_defs)
      ultimately show ?thesis
        using allowed supported enum
        unfolding json_schema_to_type.simps [of env n] representable.simps [of P n]
        by (cases e; cases "the e") (auto simp: n structured_node_def)
    qed
  qed
qed

text \<open>A tool schema that the catalog admits is an object; its translation succeeds exactly when it is representable.\<close>

lemma tool_spec_ok:
  assumes B: "builds_classes env P" and n: "normalize_schema_node s p = Inr n"
    and "map_of n ''type'' = Some (JStr ''object'')"
  shows "is_ok (tool_spec_from_json_schema env name description n) \<longleftrightarrow> representable P n"
proof -
  have "\<not> has_key s ''const''"
  proof
    assume "has_key s ''const''"
    from n [unfolded const_node_Inr [OF this] const_only_Inr] assms(3) show False by auto
  qed
  from n [unfolded structured_node_Inr [OF this]] obtain t e st where
    t: "t \<in> set SCHEMA_ALLOWED_TYPES" and e: "enum_part s e" and st: "structure_part s p t st"
    and lit: "\<forall>vs. e = Some vs \<longrightarrow> (\<forall>v \<in> set vs. literal_matches_type v t)"
    and n': "n = structured_node t e st" by blast
  have object: "t = ''object''" using assms(3) by (simp add: n' structured_node_def)
  have "e = None"
    using e lit object by (cases e; cases "the e") (auto simp: enum_part_def literal_matches_type_def split: option.splits)
  from st object have "normalize_object_schema s p = Inr st" by (simp add: structure_part_def)
  then have "\<exists>props req. st = [(''additionalProperties'', JBool False), (''properties'', JObj props),
      (''required'', JArr (map JStr req))] \<and> set req \<subseteq> set (keys props)
    \<and> (\<forall>req' name. is_ok (build_model env props req' name) \<longleftrightarrow> representable_properties P props)"
    by (rule normalized_object_model [OF B]) (rule normalized_type_ok [OF B])
  then obtain props req where
    st': "st = [(''additionalProperties'', JBool False), (''properties'', JObj props), (''required'', JArr (map JStr req))]"
    "set req \<subseteq> set (keys props)" "\<And>req' name. is_ok (build_model env props req' name) \<longleftrightarrow> representable_properties P props"
    by blast
  have "set (keys n) \<subseteq> set SCHEMA_OBJECT_KEYS"
    by (simp add: n' \<open>e = None\<close> st'(1) structured_node_def schema_key_defs)
  then have "reject_unsupported_keys n SCHEMA_OBJECT_KEYS loc = Inr ()" for loc
    by (simp add: reject_unsupported_keys_def Diff_eq_empty_iff [THEN iffD2])
  moreover have "representable P n \<longleftrightarrow> representable_properties P props"
    unfolding representable.simps [of P n] by (simp add: n' \<open>e = None\<close> st'(1) structured_node_def)
  ultimately show ?thesis
    using st'(2) st'(3) [of req "to_pascal name"]
    by (simp add: tool_spec_from_json_schema_def Let_def n' \<open>e = None\<close> st'(1) object structured_node_def require_object_def
        validate_additional_properties_def validate_required_strings del: set_map)
qed

end
