(* ===== verification/Guardrails.thy ===== *)
theory Guardrails
  imports Rescue
begin

text \<open>
  The guardrail components: \<^verbatim>\<open>StepTracker\<close> (\<^verbatim>\<open>_forge/core/steps.py\<close>),
  \<^verbatim>\<open>ErrorTracker\<close>, \<^verbatim>\<open>ResponseValidator\<close>, \<^verbatim>\<open>StepEnforcer\<close> and the
  \<^verbatim>\<open>Guardrails\<close> facade (\<^verbatim>\<open>_forge/guardrails/\<close>). An object that a method mutates is
  returned updated. The counters share one interface, the locale \<open>attempt_budget\<close>.
\<close>

section \<open>Steps\<close>

text \<open>\<^verbatim>\<open>completed_steps\<close> is a dictionary of names; the arguments of a call are any JSON value.\<close>

record step_tracker =
  st_required_steps :: "string list"
  st_completed_steps :: "(string \<times> unit) list"
  st_executed_tools :: "(string \<times> json list) list"

definition new_tracker :: "string list \<Rightarrow> step_tracker" where
  "new_tracker required = \<lparr>st_required_steps = required, st_completed_steps = [], st_executed_tools = []\<rparr>"

definition executed_calls :: "step_tracker \<Rightarrow> string \<Rightarrow> json list" where
  "executed_calls t tool = (case map_of (st_executed_tools t) tool of None \<Rightarrow> [] | Some cs \<Rightarrow> cs)"

definition tracker_record :: "string \<Rightarrow> json \<Rightarrow> step_tracker \<Rightarrow> step_tracker" where
  "tracker_record tool args t =
     t\<lparr>st_completed_steps := dict_set (st_completed_steps t) tool (),
       st_executed_tools := dict_set (st_executed_tools t) tool
         (executed_calls t tool @ [if truthy args then args else JObj []])\<rparr>"

definition steps_satisfied :: "step_tracker \<Rightarrow> bool" where
  "steps_satisfied t \<longleftrightarrow> (\<forall>s \<in> set (st_required_steps t). s \<in> set (keys (st_completed_steps t)))"

definition pending_steps :: "step_tracker \<Rightarrow> string list" where
  "pending_steps t = filter (\<lambda>s. s \<notin> set (keys (st_completed_steps t))) (st_required_steps t)"

fun any_call_matches :: "string \<Rightarrow> json \<Rightarrow> json list \<Rightarrow> bool result" where
  "any_call_matches arg required_value [] = Ok False"
| "any_call_matches arg required_value (call # calls) =
     (case call of
        JObj kvs \<Rightarrow> if py_eq (jget_or_null kvs arg) required_value then Ok True
                    else any_call_matches arg required_value calls
      | _ \<Rightarrow> Raise (AttributeErr (quoted (type_name call) @ '' object has no attribute '' @ quoted ''get'')))"

definition prerequisite_arg :: "argument_prerequisite \<Rightarrow> string" where
  "prerequisite_arg p = (case ap_prerequisite_arg p of Some a \<Rightarrow> a
     | None \<Rightarrow> (case ap_match_arg p of Some a \<Rightarrow> a | None \<Rightarrow> ''''))"

definition current_arg :: "argument_prerequisite \<Rightarrow> string" where
  "current_arg p = (case ap_current_arg p of Some a \<Rightarrow> a
     | None \<Rightarrow> (case ap_match_arg p of Some a \<Rightarrow> a | None \<Rightarrow> ''''))"

text \<open>One round of the loop: the names it appends to \<^verbatim>\<open>missing\<close>.\<close>

fun missing_prerequisite :: "step_tracker \<Rightarrow> json \<Rightarrow> prerequisite \<Rightarrow> string list result" where
  "missing_prerequisite t args (By_Name p) =
     Ok (if p \<notin> set (keys (st_executed_tools t)) then [p] else [])"
| "missing_prerequisite t args (By_Argument p) =
     (case args of
        JObj kvs \<Rightarrow>
          if ap_tool p \<notin> set (keys (st_executed_tools t)) then Ok [ap_tool p]
          else bind_result (any_call_matches (prerequisite_arg p) (jget_or_null kvs (current_arg p))
                 (executed_calls t (ap_tool p))) (\<lambda>found. Ok (if found then [] else [ap_tool p]))
      | _ \<Rightarrow> Ok [ap_tool p])"

definition missing_prerequisites :: "step_tracker \<Rightarrow> json \<Rightarrow> prerequisite list \<Rightarrow> string list result" where
  "missing_prerequisites t args prereqs =
     bind_result (traverse (missing_prerequisite t args) prereqs) (\<lambda>missing. Ok (concat missing))"

definition summary_hint :: "step_tracker \<Rightarrow> string" where
  "summary_hint t =
     (if st_completed_steps t = [] then ''[No steps completed yet]''
      else ''[Steps completed: '' @ join_str '', '' (keys (st_completed_steps t)) @ '']'')"

section \<open>Error budgets\<close>

record error_tracker =
  et_max_retries :: int
  et_max_tool_errors :: int
  et_consecutive_retries :: int
  et_consecutive_tool_errors :: int

definition new_error_tracker :: "int \<Rightarrow> int \<Rightarrow> error_tracker" where
  "new_error_tracker max_retries max_tool_errors =
     \<lparr>et_max_retries = max_retries, et_max_tool_errors = max_tool_errors,
      et_consecutive_retries = 0, et_consecutive_tool_errors = 0\<rparr>"

definition record_retry :: "error_tracker \<Rightarrow> error_tracker" where
  "record_retry e = e\<lparr>et_consecutive_retries := et_consecutive_retries e + 1\<rparr>"

definition reset_retries :: "error_tracker \<Rightarrow> error_tracker" where
  "reset_retries e = e\<lparr>et_consecutive_retries := 0\<rparr>"

definition record_result :: "bool \<Rightarrow> bool \<Rightarrow> error_tracker \<Rightarrow> error_tracker" where
  "record_result success is_soft_error e =
     (if success then e
      else if \<not> is_soft_error then e\<lparr>et_consecutive_tool_errors := et_consecutive_tool_errors e + 1\<rparr>
      else e)"

definition reset_errors :: "error_tracker \<Rightarrow> error_tracker" where
  "reset_errors e = e\<lparr>et_consecutive_tool_errors := 0\<rparr>"

definition retries_exhausted :: "error_tracker \<Rightarrow> bool" where
  "retries_exhausted e \<longleftrightarrow> et_consecutive_retries e > et_max_retries e"

definition tool_errors_exhausted :: "error_tracker \<Rightarrow> bool" where
  "tool_errors_exhausted e \<longleftrightarrow> et_consecutive_tool_errors e > et_max_tool_errors e"

section \<open>Response validation\<close>

text \<open>The JSON parser and the float printer the texts depend on.\<close>

record text_env =
  te_loads :: "string \<Rightarrow> json option"
  te_float :: "rat \<Rightarrow> string"

record validation_result =
  vr_tool_calls :: "tool_call list option"
  vr_nudge :: "nudge option"
  vr_needs_retry :: bool

record response_validator =
  rv_tool_names :: "string list"
  rv_rescue_enabled :: bool
  rv_retry_nudge_fn :: "string \<Rightarrow> string"

definition new_validator :: "string list \<Rightarrow> bool \<Rightarrow> (string \<Rightarrow> string) option \<Rightarrow> response_validator" where
  "new_validator tool_names rescue_enabled nudge_fn =
     \<lparr>rv_tool_names = tool_names, rv_rescue_enabled = rescue_enabled,
      rv_retry_nudge_fn = (case nudge_fn of None \<Rightarrow> retry_nudge | Some f \<Rightarrow> f)\<rparr>"

definition accepted :: "tool_call list \<Rightarrow> validation_result" where
  "accepted calls = \<lparr>vr_tool_calls = Some calls, vr_nudge = None, vr_needs_retry = False\<rparr>"

definition nudged :: "string \<Rightarrow> string \<Rightarrow> string \<Rightarrow> validation_result" where
  "nudged role content kind =
     \<lparr>vr_tool_calls = None,
      vr_nudge = Some \<lparr>nudge_role = role, nudge_content = content, nudge_kind = kind, nudge_tier = 0\<rparr>,
      vr_needs_retry = True\<rparr>"

fun validate_response :: "text_env \<Rightarrow> response_validator \<Rightarrow> llm_response \<Rightarrow> validation_result" where
  "validate_response env v (TextResponse content) =
     (let rescued = (if rv_rescue_enabled v then rescue_tool_call (te_loads env) content (rv_tool_names v) else [])
      in if rescued \<noteq> [] then accepted rescued
         else nudged ''user'' (rv_retry_nudge_fn v content) ''retry'')"
| "validate_response env v (ToolCalls tool_calls) =
     (let unknown = filter (\<lambda>tc. tc_tool tc \<notin> set (rv_tool_names v)) tool_calls;
          bad_args = filter (\<lambda>tc. \<not> is_object (tc_args tc)) tool_calls
      in if unknown \<noteq> []
         then nudged ''tool'' (unknown_tool_nudge (tc_tool (hd unknown)) (rv_tool_names v)) ''unknown_tool''
         else if bad_args \<noteq> []
         then nudged ''tool'' (tool_arg_validation_nudge (te_float env) (tc_tool (hd bad_args)) (tc_args (hd bad_args)))
                ''tool_arg_validation''
         else accepted tool_calls)"

section \<open>Step enforcement\<close>

record step_check =
  sc_nudge :: "nudge option"
  sc_needs_nudge :: bool

definition clear_to_proceed :: step_check where
  "clear_to_proceed = \<lparr>sc_nudge = None, sc_needs_nudge = False\<rparr>"

definition blocked_by :: "nudge \<Rightarrow> step_check" where
  "blocked_by n = \<lparr>sc_nudge = Some n, sc_needs_nudge = True\<rparr>"

record step_enforcer =
  se_tracker :: step_tracker
  se_terminal_tools :: "string list"
  se_tool_prerequisites :: "(string \<times> prerequisite list) list"
  se_max_premature_attempts :: int
  se_max_prereq_violations :: int
  se_premature_attempts :: int
  se_consecutive_prereq_violations :: int

definition new_enforcer ::
  "string list \<Rightarrow> string list \<Rightarrow> (string \<times> prerequisite list) list \<Rightarrow> int \<Rightarrow> int \<Rightarrow> step_enforcer" where
  "new_enforcer required terminal prereqs max_premature max_prereq =
     \<lparr>se_tracker = new_tracker required, se_terminal_tools = terminal, se_tool_prerequisites = prereqs,
      se_max_premature_attempts = max_premature, se_max_prereq_violations = max_prereq,
      se_premature_attempts = 0, se_consecutive_prereq_violations = 0\<rparr>"

definition enforcer_check :: "step_enforcer \<Rightarrow> tool_call list \<Rightarrow> step_check \<times> step_enforcer" where
  "enforcer_check e tool_calls =
     (let terminal = filter (\<lambda>tc. tc_tool tc \<in> set (se_terminal_tools e)) tool_calls in
      if terminal \<noteq> [] \<and> \<not> steps_satisfied (se_tracker e)
      then (let e' = e\<lparr>se_premature_attempts := se_premature_attempts e + 1\<rparr>;
                tier = nat (min (se_premature_attempts e') 3);
                attempted = tc_tool (hd terminal)
            in (blocked_by \<lparr>nudge_role = ''user'',
                  nudge_content = step_nudge attempted (pending_steps (se_tracker e)) tier,
                  nudge_kind = ''step'', nudge_tier = tier\<rparr>, e'))
      else (clear_to_proceed, e))"

fun enforcer_check_prerequisites :: "step_enforcer \<Rightarrow> tool_call list \<Rightarrow> (step_check \<times> step_enforcer) result" where
  "enforcer_check_prerequisites e [] = Ok (clear_to_proceed, e)"
| "enforcer_check_prerequisites e (tc # tcs) =
     (case map_of (se_tool_prerequisites e) (tc_tool tc) of
        None \<Rightarrow> enforcer_check_prerequisites e tcs
      | Some prereqs \<Rightarrow>
          bind_result (missing_prerequisites (se_tracker e) (tc_args tc) prereqs) (\<lambda>missing.
          if missing \<noteq> []
          then Ok (blocked_by \<lparr>nudge_role = ''user'', nudge_content = prerequisite_nudge (tc_tool tc) missing,
                     nudge_kind = ''prerequisite'', nudge_tier = 0\<rparr>,
                   e\<lparr>se_consecutive_prereq_violations := se_consecutive_prereq_violations e + 1\<rparr>)
          else enforcer_check_prerequisites e tcs))"

definition enforcer_record :: "string \<Rightarrow> json \<Rightarrow> step_enforcer \<Rightarrow> step_enforcer" where
  "enforcer_record tool args e = e\<lparr>se_tracker := tracker_record tool args (se_tracker e)\<rparr>"

definition terminal_reached :: "step_enforcer \<Rightarrow> tool_call list \<Rightarrow> bool" where
  "terminal_reached e tool_calls \<longleftrightarrow>
     list_ex (\<lambda>tc. tc_tool tc \<in> set (se_terminal_tools e)) tool_calls \<and> steps_satisfied (se_tracker e)"

definition premature_exhausted :: "step_enforcer \<Rightarrow> bool" where
  "premature_exhausted e \<longleftrightarrow> se_premature_attempts e > se_max_premature_attempts e"

definition prereq_exhausted :: "step_enforcer \<Rightarrow> bool" where
  "prereq_exhausted e \<longleftrightarrow> se_consecutive_prereq_violations e > se_max_prereq_violations e"

definition reset_premature :: "step_enforcer \<Rightarrow> step_enforcer" where
  "reset_premature e = e\<lparr>se_premature_attempts := 0\<rparr>"

definition reset_prereq_violations :: "step_enforcer \<Rightarrow> step_enforcer" where
  "reset_prereq_violations e = e\<lparr>se_consecutive_prereq_violations := 0\<rparr>"

section \<open>The facade\<close>

datatype guard_action = EXECUTE | RETRY | TOOL_ERROR | STEP_BLOCKED | FATAL

record check_result =
  cr_action :: guard_action
  cr_tool_calls :: "tool_call list option"
  cr_nudge :: "nudge option"
  cr_reason :: "string option"

definition check_outcome :: "guard_action \<Rightarrow> check_result" where
  "check_outcome a = \<lparr>cr_action = a, cr_tool_calls = None, cr_nudge = None, cr_reason = None\<rparr>"

record guardrails =
  gr_validator :: response_validator
  gr_enforcer :: step_enforcer
  gr_errors :: error_tracker

text \<open>A single terminal tool is the list of it; the default limits are arguments.\<close>

definition new_guardrails ::
  "string list \<Rightarrow> string list \<Rightarrow> string list option \<Rightarrow> int \<Rightarrow> int \<Rightarrow> bool \<Rightarrow> int \<Rightarrow>
   (string \<Rightarrow> string) option \<Rightarrow> guardrails" where
  "new_guardrails tool_names terminal required max_retries max_tool_errors rescue max_premature nudge_fn =
     \<lparr>gr_validator = new_validator tool_names rescue nudge_fn,
      gr_enforcer = new_enforcer (case required of None \<Rightarrow> [] | Some r \<Rightarrow> r) terminal [] max_premature 2,
      gr_errors = new_error_tracker max_retries max_tool_errors\<rparr>"

definition guardrails_check :: "text_env \<Rightarrow> guardrails \<Rightarrow> llm_response \<Rightarrow> check_result \<times> guardrails" where
  "guardrails_check env g response =
     (let validation = validate_response env (gr_validator g) response in
      if vr_needs_retry validation
      then (let kind = (case vr_nudge validation of None \<Rightarrow> '''' | Some n \<Rightarrow> nudge_kind n);
                arg_error = kind \<in> set TOOL_ERROR_KINDS;
                errors = (if arg_error then record_result False False (gr_errors g) else record_retry (gr_errors g));
                g' = g\<lparr>gr_errors := errors\<rparr>
            in if (if arg_error then tool_errors_exhausted errors else retries_exhausted errors)
               then ((check_outcome FATAL)\<lparr>cr_reason := Some (if arg_error
                       then ''too many consecutive tool-argument errors'' else ''too many consecutive bad responses'')\<rparr>, g')
               else ((check_outcome (if kind \<in> set TOOL_CHANNEL_KINDS then TOOL_ERROR else RETRY))
                       \<lparr>cr_nudge := vr_nudge validation\<rparr>, g'))
      else (let g1 = g\<lparr>gr_errors := reset_retries (gr_errors g)\<rparr>;
                calls = (case vr_tool_calls validation of None \<Rightarrow> [] | Some cs \<Rightarrow> cs);
                (step, enforcer) = enforcer_check (gr_enforcer g1) calls;
                g2 = g1\<lparr>gr_enforcer := enforcer\<rparr>
            in if sc_needs_nudge step
               then (if premature_exhausted enforcer
                     then ((check_outcome FATAL)\<lparr>cr_reason := Some ''model repeatedly skipped required steps''\<rparr>, g2)
                     else ((check_outcome STEP_BLOCKED)\<lparr>cr_nudge := sc_nudge step\<rparr>, g2))
               else ((check_outcome EXECUTE)\<lparr>cr_tool_calls := Some calls\<rparr>, g2)))"

definition guardrails_record :: "guardrails \<Rightarrow> (string \<times> json) list \<Rightarrow> bool \<times> guardrails" where
  "guardrails_record g executed =
     (let e1 = foldl (\<lambda>e (name, args). enforcer_record name args e) (gr_enforcer g) executed;
          e2 = reset_premature e1
      in (steps_satisfied (se_tracker e2) \<and> list_ex (\<lambda>(name, _). name \<in> set (se_terminal_tools e2)) executed,
          g\<lparr>gr_errors := reset_errors (gr_errors g), gr_enforcer := e2\<rparr>))"

section \<open>Attempt budgets\<close>

text \<open>
  A consecutive-failure counter with a limit: \<open>bump\<close> counts a failure, \<open>clear\<close> forgets them.
\<close>

locale attempt_budget =
  fixes count :: "'s \<Rightarrow> int" and limit :: "'s \<Rightarrow> int" and bump :: "'s \<Rightarrow> 's" and clear :: "'s \<Rightarrow> 's"
    and exhausted :: "'s \<Rightarrow> bool"
  assumes count_bump: "count (bump s) = count s + 1"
    and limit_bump: "limit (bump s) = limit s"
    and count_clear: "count (clear s) = 0"
    and limit_clear: "limit (clear s) = limit s"
    and exhausted_iff: "exhausted s \<longleftrightarrow> limit s < count s"
begin

lemma limit_bumps: "limit ((bump ^^ n) s) = limit s"
  by (induction n) (simp_all add: limit_bump)

lemma count_bumps: "count ((bump ^^ n) s) = count s + int n"
  by (induction n) (simp_all add: count_bump)

lemma exhausted_bumps: "exhausted ((bump ^^ n) s) \<longleftrightarrow> limit s < count s + int n"
  by (simp add: exhausted_iff count_bumps limit_bumps)

lemma exhausted_after_clear: "exhausted ((bump ^^ n) (clear s)) \<longleftrightarrow> limit s < int n"
  by (simp add: exhausted_bumps count_clear limit_clear)

lemma first_exhausted: "\<not> exhausted s \<Longrightarrow> exhausted (bump s) \<Longrightarrow> count (bump s) = limit s + 1"
  by (simp add: exhausted_iff count_bump limit_bump)

end

interpretation retry_budget: attempt_budget et_consecutive_retries et_max_retries record_retry reset_retries
    retries_exhausted
  by unfold_locales (simp_all add: record_retry_def reset_retries_def retries_exhausted_def)

interpretation tool_error_budget: attempt_budget et_consecutive_tool_errors et_max_tool_errors
    "record_result False False" reset_errors tool_errors_exhausted
  by unfold_locales (simp_all add: record_result_def reset_errors_def tool_errors_exhausted_def)

interpretation premature_budget: attempt_budget se_premature_attempts se_max_premature_attempts
    "\<lambda>e. e\<lparr>se_premature_attempts := se_premature_attempts e + 1\<rparr>" reset_premature premature_exhausted
  by unfold_locales (simp_all add: reset_premature_def premature_exhausted_def)

interpretation prereq_budget: attempt_budget se_consecutive_prereq_violations se_max_prereq_violations
    "\<lambda>e. e\<lparr>se_consecutive_prereq_violations := se_consecutive_prereq_violations e + 1\<rparr>"
    reset_prereq_violations prereq_exhausted
  by unfold_locales (simp_all add: reset_prereq_violations_def prereq_exhausted_def)

section \<open>The tracker refines the history of successful calls\<close>

definition tracker_of :: "string list \<Rightarrow> (string \<times> json) list \<Rightarrow> step_tracker" where
  "tracker_of required history = foldl (\<lambda>t (name, args). tracker_record name args t) (new_tracker required) history"

definition stored_args :: "json \<Rightarrow> json" where
  "stored_args args = (if truthy args then args else JObj [])"

lemma tracker_of_Nil [simp]: "tracker_of required [] = new_tracker required"
  by (simp add: tracker_of_def)

lemma tracker_of_snoc [simp]:
  "tracker_of required (h @ [(name, args)]) = tracker_record name args (tracker_of required h)"
  by (simp add: tracker_of_def)

lemma tracker_of_abs:
  "st_required_steps (tracker_of required h) = required"
  "fst ` set (st_completed_steps (tracker_of required h)) = fst ` set h"
  "fst ` set (st_executed_tools (tracker_of required h)) = fst ` set h"
  "executed_calls (tracker_of required h) tool = map (stored_args \<circ> snd) (filter (\<lambda>(n, _). n = tool) h)"
proof (induction h rule: rev_induct)
  case Nil
  show "st_required_steps (tracker_of required []) = required"
    "fst ` set (st_completed_steps (tracker_of required [])) = fst ` set []"
    "fst ` set (st_executed_tools (tracker_of required [])) = fst ` set []"
    "executed_calls (tracker_of required []) tool = map (stored_args \<circ> snd) (filter (\<lambda>(n, _). n = tool) [])"
    by (simp_all add: new_tracker_def executed_calls_def)
next
  case (snoc x h)
  obtain n a where x: "x = (n, a)" by (cases x)
  show "st_required_steps (tracker_of required (h @ [x])) = required"
    "fst ` set (st_completed_steps (tracker_of required (h @ [x]))) = fst ` set (h @ [x])"
    "fst ` set (st_executed_tools (tracker_of required (h @ [x]))) = fst ` set (h @ [x])"
    using snoc by (simp_all add: x tracker_record_def)
  show "executed_calls (tracker_of required (h @ [x])) tool =
      map (stored_args \<circ> snd) (filter (\<lambda>(n, _). n = tool) (h @ [x]))"
    using snoc(4) by (auto simp: x tracker_record_def executed_calls_def stored_args_def)
qed

lemma steps_satisfied_tracker_of:
  "steps_satisfied (tracker_of required h) \<longleftrightarrow> set required \<subseteq> fst ` set h"
  by (auto simp: steps_satisfied_def tracker_of_abs)

lemma pending_steps_Nil: "pending_steps t = [] \<longleftrightarrow> steps_satisfied t"
  by (auto simp: pending_steps_def steps_satisfied_def filter_empty_conv)

text \<open>What a prerequisite asks of the history.\<close>

fun prerequisite_met :: "(string \<times> json) list \<Rightarrow> json \<Rightarrow> prerequisite \<Rightarrow> bool" where
  "prerequisite_met h args (By_Name p) \<longleftrightarrow> p \<in> fst ` set h"
| "prerequisite_met h args (By_Argument p) \<longleftrightarrow>
     (\<exists>kvs. args = JObj kvs
        \<and> (\<exists>a prior. (ap_tool p, a) \<in> set h \<and> stored_args a = JObj prior
             \<and> py_eq (jget_or_null prior (prerequisite_arg p)) (jget_or_null kvs (current_arg p))))"

lemma any_call_matches_Inr:
  "any_call_matches arg v calls = Inr b \<Longrightarrow>
     b \<longleftrightarrow> (\<exists>kvs. JObj kvs \<in> set calls \<and> py_eq (jget_or_null kvs arg) v)"
  by (induction arg v calls rule: any_call_matches.induct) (auto split: json.splits if_splits)

lemma any_call_matches_ok: "list_all is_object calls \<Longrightarrow> is_ok (any_call_matches arg v calls)"
  by (induction arg v calls rule: any_call_matches.induct) (auto split: json.splits)

lemma missing_prerequisite_Inr:
  assumes "missing_prerequisite (tracker_of required h) args p = Inr ms"
  shows "ms = [] \<longleftrightarrow> prerequisite_met h args p"
proof (cases p)
  case (By_Name n)
  then show ?thesis using assms by (simp add: tracker_of_abs split: if_splits) auto
next
  case (By_Argument ap)
  show ?thesis
  proof (cases args)
    case (JObj kvs)
    let ?calls = "executed_calls (tracker_of required h) (ap_tool ap)"
    have calls: "JObj prior \<in> set ?calls \<longleftrightarrow> (\<exists>a. (ap_tool ap, a) \<in> set h \<and> stored_args a = JObj prior)" for prior
      by (force simp: tracker_of_abs)
    show ?thesis
    proof (cases "ap_tool ap \<in> fst ` set h")
      case True
      then obtain b where b: "any_call_matches (prerequisite_arg ap) (jget_or_null kvs (current_arg ap)) ?calls = Inr b"
        and ms: "ms = (if b then [] else [ap_tool ap])"
        using assms By_Argument JObj by (auto simp: tracker_of_abs bind_result_Inr)
      show ?thesis
        using any_call_matches_Inr [OF b] ms By_Argument JObj by (auto simp: calls)
    next
      case False
      then have "ms = [ap_tool ap]" using assms By_Argument JObj by (simp add: tracker_of_abs)
      then show ?thesis using False By_Argument JObj by force
    qed
  qed (use assms By_Argument in auto)
qed

lemma missing_prerequisites_Nil:
  assumes "missing_prerequisites (tracker_of required h) args prereqs = Inr ms"
  shows "ms = [] \<longleftrightarrow> (\<forall>p \<in> set prereqs. prerequisite_met h args p)"
proof -
  obtain mss where mss: "traverse (missing_prerequisite (tracker_of required h) args) prereqs = Inr mss"
    and ms: "ms = concat mss"
    using assms by (auto simp: missing_prerequisites_def bind_result_Inr)
  have "(\<forall>m \<in> set mss. m = []) \<longleftrightarrow> (\<forall>p \<in> set prereqs. prerequisite_met h args p)"
    using mss
  proof (induction prereqs arbitrary: mss)
    case (Cons p ps)
    then show ?case by (auto simp: bind_result_Inr dest: missing_prerequisite_Inr)
  qed simp
  then show ?thesis by (auto simp: ms)
qed

text \<open>
  C18: the step tracker refines the history of successful calls. Its steps are satisfied exactly
  when every required step was called, the check of a call reports no missing prerequisite exactly
  when every one is met by an earlier call, and it reports names of prerequisites only.
\<close>

theorem tracker_refines_history:
  assumes "missing_prerequisites (tracker_of required h) args prereqs = Inr missing"
  shows "(steps_satisfied (tracker_of required h) \<longleftrightarrow> set required \<subseteq> fst ` set h)
     \<and> (missing = [] \<longleftrightarrow> list_all (prerequisite_met h args) prereqs)
     \<and> set missing \<subseteq> prereq_name ` set prereqs"
proof -
  have one: "set ms \<subseteq> {prereq_name p}" if "missing_prerequisite t args p = Inr ms" for t p ms
  proof (cases p)
    case (By_Argument ap)
    then show ?thesis using that by (cases args) (auto simp: bind_result_Inr split: if_splits)
  qed (use that in \<open>auto split: if_splits\<close>)
  obtain mss where mss: "traverse (missing_prerequisite (tracker_of required h) args) prereqs = Inr mss"
    and ms: "missing = concat mss"
    using assms by (auto simp: missing_prerequisites_def bind_result_Inr)
  have "set (concat mss) \<subseteq> prereq_name ` set prereqs"
    using mss
  proof (induction prereqs arbitrary: mss)
    case (Cons p ps)
    then obtain m rest where m: "missing_prerequisite (tracker_of required h) args p = Inr m"
      and rest: "traverse (missing_prerequisite (tracker_of required h) args) ps = Inr rest"
      and mss: "mss = m # rest"
      by (auto simp: bind_result_Inr)
    show ?case using one [OF m] Cons.IH [OF rest] mss by auto
  qed simp
  then show ?thesis
    using missing_prerequisites_Nil [OF assms] by (simp add: steps_satisfied_tracker_of list_all_iff ms)
qed

definition sample_history :: "(string \<times> json) list" where
  "sample_history = [(''read'', JObj [(''path'', JStr ''a'')])]"

definition sample_match :: argument_prerequisite where
  "sample_match = \<lparr>ap_tool = ''read'', ap_prerequisite_arg = None, ap_current_arg = None,
     ap_match_arg = Some ''path''\<rparr>"

lemma tracker_refines_history_witness:
  "\<not> steps_satisfied (tracker_of [''write''] sample_history)
   \<and> list_all (prerequisite_met sample_history (JObj [(''path'', JStr ''a'')])) [By_Argument sample_match]"
proof -
  have "missing_prerequisites (tracker_of [''write''] sample_history) (JObj [(''path'', JStr ''a'')])
      [By_Argument sample_match] = Inr []"
    by (simp add: missing_prerequisites_def tracker_of_def sample_history_def sample_match_def
        tracker_record_def new_tracker_def executed_calls_def prerequisite_arg_def current_arg_def
        jget_or_null_def)
  from tracker_refines_history [OF this] show ?thesis by (simp add: sample_history_def)
qed

section \<open>What the facade lets through\<close>

lemma validate_response_accepts:
  assumes "\<not> vr_needs_retry (validate_response env v response)"
  obtains calls where "validate_response env v response = accepted calls"
    and "tc_tool ` set calls \<subseteq> set (rv_tool_names v)"
    and "\<And>cs. response = ToolCalls cs \<Longrightarrow> calls = cs \<and> list_all (is_object \<circ> tc_args) cs"
proof (cases response)
  case (TextResponse content)
  let ?r = "rescue_tool_call (te_loads env) content (rv_tool_names v)"
  have "validate_response env v response = accepted ?r"
    using assms TextResponse by (auto simp: nudged_def Let_def split: if_splits)
  then show ?thesis using TextResponse by (intro that) (auto dest: rescued_known)
next
  case (ToolCalls cs)
  then show ?thesis
    using assms by (intro that [of cs]) (auto simp: nudged_def filter_empty_conv list_all_iff Let_def split: if_splits)
qed

lemma accepted_sel [simp]:
  "vr_tool_calls (accepted calls) = Some calls" "\<not> vr_needs_retry (accepted calls)"
  "vr_nudge (accepted calls) = None"
  by (simp_all add: accepted_def)

lemma enforcer_check_clear:
  "\<not> sc_needs_nudge (fst (enforcer_check e calls)) \<longleftrightarrow>
     (\<forall>tc \<in> set calls. tc_tool tc \<notin> set (se_terminal_tools e)) \<or> steps_satisfied (se_tracker e)"
  by (auto simp: enforcer_check_def clear_to_proceed_def blocked_by_def filter_empty_conv Let_def)

text \<open>
  C19: what the facade hands out for execution are calls of known tools; the calls of a native
  response are exactly its calls, with objects as arguments; and a terminal tool is among them only
  when every required step was recorded.
\<close>

theorem guardrails_execute_sound:
  assumes "guardrails_check env g response = (r, g')" and "cr_action r = EXECUTE"
    and "se_tracker (gr_enforcer g) = tracker_of required h"
  shows "\<exists>calls. cr_tool_calls r = Some calls
     \<and> tc_tool ` set calls \<subseteq> set (rv_tool_names (gr_validator g))
     \<and> (tc_tool ` set calls \<inter> set (se_terminal_tools (gr_enforcer g)) \<noteq> {} \<longrightarrow> set required \<subseteq> fst ` set h)
     \<and> (\<forall>cs. response = ToolCalls cs \<longrightarrow> calls = cs \<and> list_all (is_object \<circ> tc_args) cs)"
proof -
  have retry: "\<not> vr_needs_retry (validate_response env (gr_validator g) response)"
    using assms(1,2) by (auto simp: guardrails_check_def check_outcome_def Let_def split: if_splits)
  then obtain calls where calls: "validate_response env (gr_validator g) response = accepted calls"
      "tc_tool ` set calls \<subseteq> set (rv_tool_names (gr_validator g))"
      "\<And>cs. response = ToolCalls cs \<Longrightarrow> calls = cs \<and> list_all (is_object \<circ> tc_args) cs"
    by (rule validate_response_accepts) blast
  obtain step e where step: "enforcer_check (gr_enforcer g) calls = (step, e)" by fastforce
  have r: "cr_tool_calls r = Some calls" and clear: "\<not> sc_needs_nudge step"
    using assms(1,2) step by (auto simp: guardrails_check_def calls(1) check_outcome_def Let_def split: if_splits)
  have "(\<forall>tc \<in> set calls. tc_tool tc \<notin> set (se_terminal_tools (gr_enforcer g)))
      \<or> set required \<subseteq> fst ` set h"
    using enforcer_check_clear [of "gr_enforcer g" calls] step clear
    by (simp add: assms(3) steps_satisfied_tracker_of)
  then show ?thesis using r calls(2,3) by (intro exI [of _ calls]) auto
qed

section \<open>Consecutive bad responses\<close>

text \<open>What a client does with the facade, in any order: checking a response, recording executed calls.\<close>

datatype guard_event = Checked llm_response | Recorded "(string \<times> json) list"

fun guard_step :: "text_env \<Rightarrow> guard_event \<Rightarrow> guardrails \<Rightarrow> guardrails" where
  "guard_step env (Checked r) g = snd (guardrails_check env g r)"
| "guard_step env (Recorded executed) g = snd (guardrails_record g executed)"

definition guard_run :: "text_env \<Rightarrow> guard_event list \<Rightarrow> guardrails \<Rightarrow> guardrails" where
  "guard_run env es g = fold (guard_step env) es g"

text \<open>
  A response is usable, or it drains one of two budgets: malformed arguments the budget of tool
  errors, everything else that of retries.
\<close>

definition usable :: "text_env \<Rightarrow> response_validator \<Rightarrow> llm_response \<Rightarrow> bool" where
  "usable env v r \<longleftrightarrow> \<not> vr_needs_retry (validate_response env v r)"

definition argument_error :: "text_env \<Rightarrow> response_validator \<Rightarrow> llm_response \<Rightarrow> bool" where
  "argument_error env v r \<longleftrightarrow> vr_needs_retry (validate_response env v r)
     \<and> (case vr_nudge (validate_response env v r) of None \<Rightarrow> False | Some n \<Rightarrow> nudge_kind n \<in> set TOOL_ERROR_KINDS)"

definition bad_response :: "text_env \<Rightarrow> response_validator \<Rightarrow> llm_response \<Rightarrow> bool" where
  "bad_response env v r \<longleftrightarrow> vr_needs_retry (validate_response env v r)
     \<and> (case vr_nudge (validate_response env v r) of None \<Rightarrow> True | Some n \<Rightarrow> nudge_kind n \<notin> set TOOL_ERROR_KINDS)"

fun checked :: "(llm_response \<Rightarrow> bool) \<Rightarrow> guard_event \<Rightarrow> bool" where
  "checked P (Checked r) = P r"
| "checked P (Recorded executed) = False"

fun is_record :: "guard_event \<Rightarrow> bool" where
  "is_record (Checked r) = False"
| "is_record (Recorded executed) = True"

text \<open>The bad responses since the last usable one, and the argument errors since the last recording.\<close>

definition bad_streak :: "text_env \<Rightarrow> response_validator \<Rightarrow> guard_event list \<Rightarrow> nat" where
  "bad_streak env v es = length (filter (checked (bad_response env v)) (takeWhile (\<lambda>e. \<not> checked (usable env v) e) (rev es)))"

definition error_streak :: "text_env \<Rightarrow> response_validator \<Rightarrow> guard_event list \<Rightarrow> nat" where
  "error_streak env v es = length (filter (checked (argument_error env v)) (takeWhile (\<lambda>e. \<not> is_record e) (rev es)))"

lemma nudge_kind_empty: "'''' \<notin> set TOOL_ERROR_KINDS"
  by (simp add: TOOL_ERROR_KINDS_def)

lemma response_cases:
  obtains (usable) "usable env v r" "\<not> bad_response env v r" "\<not> argument_error env v r"
  | (error) "\<not> usable env v r" "\<not> bad_response env v r" "argument_error env v r"
  | (bad) "\<not> usable env v r" "bad_response env v r" "\<not> argument_error env v r"
  by (cases "vr_nudge (validate_response env v r)") (auto simp: usable_def bad_response_def argument_error_def)

lemma guardrails_check_bad:
  assumes "bad_response env (gr_validator g) r"
  shows "snd (guardrails_check env g r) = g\<lparr>gr_errors := record_retry (gr_errors g)\<rparr>"
    and "cr_action (fst (guardrails_check env g r)) = FATAL \<longleftrightarrow> retries_exhausted (record_retry (gr_errors g))"
  using assms nudge_kind_empty
  by (auto simp: guardrails_check_def bad_response_def check_outcome_def Let_def split: option.splits)

lemma guardrails_check_error:
  assumes "argument_error env (gr_validator g) r"
  shows "snd (guardrails_check env g r) = g\<lparr>gr_errors := record_result False False (gr_errors g)\<rparr>"
    and "cr_action (fst (guardrails_check env g r)) = FATAL \<longleftrightarrow> tool_errors_exhausted (record_result False False (gr_errors g))"
  using assms
  by (auto simp: guardrails_check_def argument_error_def check_outcome_def Let_def split: option.splits)

lemma guardrails_check_usable:
  assumes "usable env (gr_validator g) r"
  shows "gr_validator (snd (guardrails_check env g r)) = gr_validator g"
    and "gr_errors (snd (guardrails_check env g r)) = reset_retries (gr_errors g)"
    and "cr_action (fst (guardrails_check env g r)) = FATAL \<Longrightarrow>
      cr_reason (fst (guardrails_check env g r)) = Some ''model repeatedly skipped required steps''"
  using assms by (auto simp: guardrails_check_def usable_def check_outcome_def Let_def split: prod.splits if_splits)

lemma guard_run_snoc: "guard_run env (es @ [e]) g = guard_step env e (guard_run env es g)"
  by (simp add: guard_run_def)

lemma streak_snoc:
  "bad_streak env v (es @ [e]) = (if checked (usable env v) e then 0
     else if checked (bad_response env v) e then Suc (bad_streak env v es) else bad_streak env v es)"
  "error_streak env v (es @ [e]) = (if is_record e then 0
     else if checked (argument_error env v) e then Suc (error_streak env v es) else error_streak env v es)"
  by (simp_all add: bad_streak_def error_streak_def)

text \<open>The counters of a run that started fresh are the two streaks.\<close>

definition counts_streaks :: "text_env \<Rightarrow> guard_event list \<Rightarrow> guardrails \<Rightarrow> guardrails \<Rightarrow> bool" where
  "counts_streaks env es g g' \<longleftrightarrow> gr_validator g' = gr_validator g
     \<and> et_max_retries (gr_errors g') = et_max_retries (gr_errors g)
     \<and> et_max_tool_errors (gr_errors g') = et_max_tool_errors (gr_errors g)
     \<and> et_consecutive_retries (gr_errors g') = int (bad_streak env (gr_validator g) es)
     \<and> et_consecutive_tool_errors (gr_errors g') = int (error_streak env (gr_validator g) es)"

lemma guard_run_counts:
  assumes "et_consecutive_retries (gr_errors g) = 0" and "et_consecutive_tool_errors (gr_errors g) = 0"
  shows "counts_streaks env es g (guard_run env es g)"
proof (induction es rule: rev_induct)
  case Nil
  then show ?case using assms by (simp add: counts_streaks_def guard_run_def bad_streak_def error_streak_def)
next
  case (snoc e es)
  let ?g = "guard_run env es g"
  have v: "gr_validator ?g = gr_validator g" using snoc by (simp add: counts_streaks_def)
  show ?case
  proof (cases e)
    case (Checked r)
    show ?thesis
    proof (cases env "gr_validator g" r rule: response_cases)
      case usable
      then show ?thesis
        using snoc guardrails_check_usable(1,2) [of env ?g r]
        by (simp add: counts_streaks_def guard_run_snoc streak_snoc Checked v reset_retries_def)
    next
      case error
      then show ?thesis
        using snoc guardrails_check_error(1) [of env ?g r]
        by (simp add: counts_streaks_def guard_run_snoc streak_snoc Checked v record_result_def)
    next
      case bad
      then show ?thesis
        using snoc guardrails_check_bad(1) [of env ?g r]
        by (simp add: counts_streaks_def guard_run_snoc streak_snoc Checked v record_retry_def)
    qed
  next
    case (Recorded executed)
    then show ?thesis
      using snoc
      by (simp add: counts_streaks_def guard_run_snoc streak_snoc guardrails_record_def reset_errors_def Let_def)
  qed
qed

text \<open>
  C20: the two budgets of the facade are exact, whatever its client checked and recorded before. A
  bad response stops the run exactly when at least \<open>max_retries\<close> bad ones came since the last usable
  response (argument errors and recordings in between count for nothing and forget nothing), a
  response with malformed arguments exactly when at least \<open>max_errors\<close> such came since the last
  recording; and a usable response stops it only for skipped steps.
\<close>

theorem guardrails_stop_after_retries:
  assumes "g = guard_run env es (new_guardrails names terminal required max_retries max_errors rescue max_premature fn)"
    and "v = new_validator names rescue fn"
  shows "(bad_response env v r \<longrightarrow>
       (cr_action (fst (guardrails_check env g r)) = FATAL \<longleftrightarrow> max_retries \<le> int (bad_streak env v es)))
    \<and> (argument_error env v r \<longrightarrow>
       (cr_action (fst (guardrails_check env g r)) = FATAL \<longleftrightarrow> max_errors \<le> int (error_streak env v es)))
    \<and> (usable env v r \<and> cr_action (fst (guardrails_check env g r)) = FATAL \<longrightarrow>
       cr_reason (fst (guardrails_check env g r)) = Some ''model repeatedly skipped required steps'')"
proof -
  let ?g0 = "new_guardrails names terminal required max_retries max_errors rescue max_premature fn"
  have fresh: "gr_validator ?g0 = v" "et_max_retries (gr_errors ?g0) = max_retries"
    "et_max_tool_errors (gr_errors ?g0) = max_errors" "et_consecutive_retries (gr_errors ?g0) = 0"
    "et_consecutive_tool_errors (gr_errors ?g0) = 0"
    by (simp_all add: new_guardrails_def new_error_tracker_def assms(2))
  note counts = guard_run_counts [OF fresh(4,5), of env es, folded assms(1), unfolded counts_streaks_def fresh]
  show ?thesis
    using guardrails_check_bad(2) [of env g r] guardrails_check_error(2) [of env g r]
      guardrails_check_usable(3) [of env g r] counts
    by (auto simp: retry_budget.exhausted_iff retry_budget.count_bump retry_budget.limit_bump
        tool_error_budget.exhausted_iff tool_error_budget.count_bump tool_error_budget.limit_bump)
qed

definition plain_text_env :: text_env where
  "plain_text_env = \<lparr>te_loads = (\<lambda>_. None), te_float = (\<lambda>_. [])\<rparr>"

text \<open>Two bad responses, a usable one, two bad ones: the next is the third in a row.\<close>

definition sample_events :: "guard_event list" where
  "sample_events = [Checked (TextResponse ''a''), Checked (TextResponse ''b''),
     Checked (ToolCalls [mk_tool_call ''done'' (JObj [])]), Recorded [(''done'', JObj [])],
     Checked (TextResponse ''c''), Recorded [], Checked (TextResponse ''d'')]"

lemma guardrails_stop_after_retries_witness:
  "cr_action (fst (guardrails_check plain_text_env (guard_run plain_text_env sample_events
     (new_guardrails [''done''] [''done''] None 2 2 False 3 None)) (TextResponse ''e''))) = FATAL
   \<and> cr_action (fst (guardrails_check plain_text_env (guard_run plain_text_env (butlast sample_events)
     (new_guardrails [''done''] [''done''] None 2 2 False 3 None)) (TextResponse ''e''))) \<noteq> FATAL"
proof -
  let ?v = "new_validator [''done''] False None"
  have bad: "bad_response plain_text_env ?v (TextResponse s)" for s
    by (simp add: bad_response_def new_validator_def nudged_def TOOL_ERROR_KINDS_def)
  moreover have "usable plain_text_env ?v (ToolCalls [mk_tool_call ''done'' (JObj [])])"
    by (simp add: usable_def new_validator_def accepted_def mk_tool_call_def)
  moreover have "\<not> usable plain_text_env ?v (TextResponse s)" for s
    by (simp add: usable_def new_validator_def nudged_def)
  ultimately have "bad_streak plain_text_env ?v sample_events = 2" "bad_streak plain_text_env ?v (butlast sample_events) = 1"
    by (simp_all add: bad_streak_def sample_events_def)
  then show ?thesis
    using guardrails_stop_after_retries [OF refl refl, where env = plain_text_env and names = "[''done'']"
        and rescue = False and fn = None and r = "TextResponse ''e''"] bad by simp
qed

lemma guardrails_execute_sound_witness:
  "\<exists>calls. tc_tool ` set calls \<subseteq> {''done''} \<and> calls = [mk_tool_call ''done'' (JObj [])]"
proof -
  let ?g = "new_guardrails [''done''] [''done''] None 2 2 False 3 None"
  let ?r = "guardrails_check plain_text_env ?g (ToolCalls [mk_tool_call ''done'' (JObj [])])"
  have action: "cr_action (fst ?r) = EXECUTE"
    by (simp add: guardrails_check_def new_guardrails_def new_validator_def mk_tool_call_def accepted_def
        enforcer_check_def new_enforcer_def new_tracker_def steps_satisfied_def clear_to_proceed_def
        check_outcome_def)
  have tracker: "se_tracker (gr_enforcer ?g) = tracker_of [] []"
    by (simp add: new_guardrails_def new_enforcer_def)
  have "?r = (fst ?r, snd ?r)" by simp
  from guardrails_execute_sound [OF this action tracker]
  show ?thesis by (auto simp: new_guardrails_def new_validator_def)
qed

section \<open>Rescued arguments\<close>




end
