(* ===== verification/Compaction.thy ===== *)
theory Compaction
  imports Messages "HOL-Library.Sublist"
begin

text \<open>
  Compaction of the conversation: the strategies of \<^verbatim>\<open>_forge/context/strategies.py\<close> and the
  context manager of \<^verbatim>\<open>_forge/context/manager.py\<close>. The two float computations are
  parameters: \<open>fl_scale\<close> is \<^verbatim>\<open>int(budget * fraction)\<close>, \<open>fl_ratio\<close> is \<^verbatim>\<open>tokens / budget\<close>.
  The number of recent iterations to keep is a natural number, as the policy contract says. The em
  dash of the truncation notice, which is not a Latin-1 character, stands as \<^verbatim>\<open>0x97\<close>.
\<close>

record float_ops =
  fl_scale :: "int \<Rightarrow> rat \<Rightarrow> int"
  fl_ratio :: "int \<Rightarrow> int \<Rightarrow> rat"

definition estimate_message_tokens :: "message list \<Rightarrow> int" where
  "estimate_message_tokens messages =
     int (sum_list (map (\<lambda>m. length (msg_content m)
       + length (case msg_reasoning_content m of None \<Rightarrow> [] | Some r \<Rightarrow> r)) messages)) div 4"

definition has_calls :: "message \<Rightarrow> bool" where
  "has_calls m \<longleftrightarrow> (case msg_tool_calls m of None \<Rightarrow> False | Some cs \<Rightarrow> cs \<noteq> [])"

definition message_calls :: "message \<Rightarrow> tool_call_info list" where
  "message_calls m = (case msg_tool_calls m of None \<Rightarrow> [] | Some cs \<Rightarrow> cs)"

text \<open>
  A step is complete when it has one message with tool calls, and the tool messages after it (in
  the step) answer the calls one by one, in their order.
\<close>

definition step_complete :: "message list \<Rightarrow> int \<Rightarrow> bool" where
  "step_complete eligible step =
     (let step_messages = filter (\<lambda>m. msg_step m = Some step) eligible
      in case filter has_calls step_messages of
           [call] \<Rightarrow>
             (let rest = drop (Suc (length (takeWhile (\<lambda>m. m \<noteq> call) step_messages))) step_messages;
                  results = filter (\<lambda>m. msg_role m = ROLE_TOOL) rest
              in list_all2 (\<lambda>r c. msg_tool_call_id r = Some (tci_call_id c)
                   \<and> msg_tool_name r = Some (tci_name c)) results (message_calls call))
         | _ \<Rightarrow> False)"

text \<open>\<^verbatim>\<open>_replay_steps\<close>; the two sets of step indices as lists.\<close>

definition replay_steps :: "message list \<Rightarrow> nat \<Rightarrow> int list \<times> int list" where
  "replay_steps messages eligible_end =
     (let eligible = drop 2 (take eligible_end messages);
          replay = concat (map (\<lambda>m. case msg_step m of
             Some step \<Rightarrow> if has_calls m \<and> msg_reasoning_content m \<noteq> None then [step] else []
           | None \<Rightarrow> []) eligible)
      in (replay, filter (step_complete eligible) replay))"

definition in_steps :: "int list \<Rightarrow> message \<Rightarrow> bool" where
  "in_steps steps m \<longleftrightarrow> (case msg_step m of None \<Rightarrow> False | Some s \<Rightarrow> s \<in> set steps)"

section \<open>The boundary\<close>

text \<open>The distinct step indices in the order of the conversation, newest last.\<close>

definition push_step :: "int list \<Rightarrow> message \<Rightarrow> int list" where
  "push_step seen m = (case msg_step m of
       None \<Rightarrow> seen | Some si \<Rightarrow> if seen = [] \<or> last seen \<noteq> si then seen @ [si] else seen)"

definition seen_steps :: "message list \<Rightarrow> int list" where
  "seen_steps messages = foldl push_step [] (drop 2 messages)"

definition step_at_least :: "int \<Rightarrow> message \<Rightarrow> bool" where
  "step_at_least cutoff m \<longleftrightarrow> (case msg_step m of None \<Rightarrow> False | Some si \<Rightarrow> si \<ge> cutoff)"

text \<open>\<^verbatim>\<open>seen_steps[-keep_recent]\<close> is the first element when \<^verbatim>\<open>keep_recent\<close> is 0.\<close>

definition cutoff_step :: "int list \<Rightarrow> nat \<Rightarrow> int" where
  "cutoff_step seen keep_recent = (if keep_recent = 0 then seen ! 0 else seen ! (length seen - keep_recent))"

definition find_eligible_end :: "message list \<Rightarrow> nat \<Rightarrow> nat" where
  "find_eligible_end messages keep_recent =
     (let seen = seen_steps messages in
      if length seen \<le> keep_recent then 2
      else 2 + length (takeWhile (\<lambda>m. \<not> step_at_least (cutoff_step seen keep_recent) m) (drop 2 messages)))"

section \<open>Strategies\<close>

definition TRUNCATE_CHARS :: nat where
  "TRUNCATE_CHARS = 200"

definition nudge_types :: "message_type list" where
  "nudge_types = [STEP_NUDGE, PREREQUISITE_NUDGE, RETRY_NUDGE]"

definition truncate_result :: "message \<Rightarrow> message" where
  "truncate_result m =
     (if length (msg_content m) > TRUNCATE_CHARS
      then m\<lparr>msg_content := take TRUNCATE_CHARS (msg_content m) @ [newline_chr] @ ''[Truncated '' @ [CHR 0x97] @ '' ''
             @ show_nat (length (msg_content m) - TRUNCATE_CHARS) @ '' chars removed]''\<rparr>
      else m)"

text \<open>What becomes of one message before the boundary, in each phase.\<close>

definition phase1_message :: "int list \<Rightarrow> message \<Rightarrow> message list" where
  "phase1_message replay m =
     (let replay_result = (in_steps replay m \<and> msg_role m = ROLE_TOOL) in
      if msg_type m \<in> set nudge_types \<and> \<not> replay_result then []
      else if msg_type m = TOOL_RESULT \<or> replay_result then [truncate_result m]
      else [m])"

definition drop_types_message :: "message_type list \<Rightarrow> int list \<Rightarrow> int list \<Rightarrow> message \<Rightarrow> message list" where
  "drop_types_message types replay answered m =
     (if in_steps answered m then []
      else if in_steps replay m then [m]
      else if msg_type m \<in> set types then []
      else [m])"

definition phase_messages :: "(message \<Rightarrow> message list) \<Rightarrow> message list \<Rightarrow> nat \<Rightarrow> message list" where
  "phase_messages f messages eligible_end =
     concat (map (\<lambda>(i, m). if 2 \<le> i \<and> i < eligible_end then f m else [m]) (enumerate 0 messages))"

definition phase1 :: "message list \<Rightarrow> nat \<Rightarrow> message list" where
  "phase1 messages eligible_end =
     phase_messages (phase1_message (fst (replay_steps messages eligible_end))) messages eligible_end"

definition phase2 :: "message list \<Rightarrow> nat \<Rightarrow> message list" where
  "phase2 messages eligible_end =
     (case replay_steps messages eligible_end of (replay, answered) \<Rightarrow>
      phase_messages (drop_types_message (nudge_types @ [TOOL_RESULT]) replay answered) messages eligible_end)"

definition phase3 :: "message list \<Rightarrow> nat \<Rightarrow> message list" where
  "phase3 messages eligible_end =
     (case replay_steps messages eligible_end of (replay, answered) \<Rightarrow>
      phase_messages (drop_types_message (nudge_types @ [TOOL_RESULT, REASONING, TEXT_RESPONSE]) replay answered)
        messages eligible_end)"

definition no_compact :: "message list \<Rightarrow> int \<Rightarrow> message list \<times> nat" where
  "no_compact messages budget_tokens = (messages, 0)"

definition sliding_window_compact ::
  "float_ops \<Rightarrow> nat \<Rightarrow> rat \<Rightarrow> message list \<Rightarrow> int \<Rightarrow> message list \<times> nat" where
  "sliding_window_compact fl keep_recent threshold messages budget_tokens =
     (if estimate_message_tokens messages < fl_scale fl budget_tokens threshold then (messages, 0)
      else let eligible_end = find_eligible_end messages keep_recent in
        if eligible_end \<le> 2 then (messages, 1)
        else (take 2 messages @ drop eligible_end messages, 1))"

definition tiered_triggers :: "rat \<Rightarrow> (rat \<times> rat \<times> rat) option \<Rightarrow> rat \<times> rat \<times> rat" where
  "tiered_triggers compact_threshold phase_thresholds =
     (case phase_thresholds of Some t \<Rightarrow> t | None \<Rightarrow> (compact_threshold, compact_threshold, compact_threshold))"

definition tiered_compact ::
  "float_ops \<Rightarrow> nat \<Rightarrow> rat \<times> rat \<times> rat \<Rightarrow> message list \<Rightarrow> int \<Rightarrow> message list \<times> nat" where
  "tiered_compact fl keep_recent triggers messages budget_tokens =
     (case triggers of (p1, p2, p3) \<Rightarrow>
      if estimate_message_tokens messages < fl_scale fl budget_tokens p1 then (messages, 0)
      else let e = find_eligible_end messages keep_recent;
               r1 = phase1 messages e; r2 = phase2 messages e
           in if estimate_message_tokens r1 < fl_scale fl budget_tokens p2 then (r1, 1)
              else if estimate_message_tokens r2 < fl_scale fl budget_tokens p3 then (r2, 2)
              else (phase3 messages e, 3))"

datatype compact_strategy =
    NoCompact
  | SlidingWindowCompact nat rat
  | TieredCompact nat "rat \<times> rat \<times> rat"

fun strategy_compact :: "float_ops \<Rightarrow> compact_strategy \<Rightarrow> message list \<Rightarrow> int \<Rightarrow> message list \<times> nat" where
  "strategy_compact fl NoCompact = no_compact"
| "strategy_compact fl (SlidingWindowCompact k t) = sliding_window_compact fl k t"
| "strategy_compact fl (TieredCompact k ts) = tiered_compact fl k ts"

section \<open>The context manager\<close>

record compact_event =
  ce_step_index :: int
  ce_tokens_before :: int
  ce_tokens_after :: int
  ce_budget_tokens :: int
  ce_messages_before :: nat
  ce_messages_after :: nat
  ce_phase_reached :: nat

text \<open>\<^verbatim>\<open>_fired_thresholds\<close> is a set kept as a list; the thresholds are sorted.\<close>

record context_manager =
  cm_strategy :: compact_strategy
  cm_budget_tokens :: int
  cm_thresholds :: "rat list"
  cm_on_threshold :: "(int \<Rightarrow> int \<Rightarrow> rat \<Rightarrow> string option) option"
  cm_fired_thresholds :: "rat list"
  cm_last_known_tokens :: "int option"

definition new_context_manager ::
  "compact_strategy \<Rightarrow> int \<Rightarrow> rat list \<Rightarrow> (int \<Rightarrow> int \<Rightarrow> rat \<Rightarrow> string option) option \<Rightarrow> context_manager" where
  "new_context_manager strategy budget thresholds callback =
     \<lparr>cm_strategy = strategy, cm_budget_tokens = budget, cm_thresholds = sort thresholds,
      cm_on_threshold = callback, cm_fired_thresholds = [], cm_last_known_tokens = None\<rparr>"

definition update_token_count :: "int \<Rightarrow> context_manager \<Rightarrow> context_manager" where
  "update_token_count tokens cm = cm\<lparr>cm_last_known_tokens := Some tokens\<rparr>"

definition estimate_tokens :: "context_manager \<Rightarrow> message list \<Rightarrow> int" where
  "estimate_tokens cm messages =
     (case cm_last_known_tokens cm of Some t \<Rightarrow> t | None \<Rightarrow> estimate_message_tokens messages)"

definition check_thresholds ::
  "float_ops \<Rightarrow> context_manager \<Rightarrow> message list \<Rightarrow> string option \<times> context_manager" where
  "check_thresholds fl cm messages =
     (case cm_on_threshold cm of
        None \<Rightarrow> (None, cm)
      | Some callback \<Rightarrow>
          if cm_thresholds cm = [] then (None, cm)
          else let tokens = estimate_tokens cm messages in
            if cm_budget_tokens cm \<le> 0 then (None, cm)
            else let pct = fl_ratio fl tokens (cm_budget_tokens cm);
                     fired = filter (\<lambda>t. pct \<ge> t) (cm_fired_thresholds cm);
                     crossed = filter (\<lambda>t. pct \<ge> t \<and> t \<notin> set fired) (cm_thresholds cm)
                 in if crossed = [] then (None, cm\<lparr>cm_fired_thresholds := fired\<rparr>)
                    else (callback tokens (cm_budget_tokens cm) pct,
                          cm\<lparr>cm_fired_thresholds := last crossed # fired\<rparr>))"

text \<open>
  \<^verbatim>\<open>maybe_compact\<close>: no list when the strategy left the conversation alone (the code returns the
  list it was given), and otherwise the new one with the event for the callback.
\<close>

definition maybe_compact ::
  "float_ops \<Rightarrow> context_manager \<Rightarrow> message list \<Rightarrow> int \<Rightarrow> (message list \<times> compact_event) option" where
  "maybe_compact fl cm messages step_index =
     (case strategy_compact fl (cm_strategy cm) messages (cm_budget_tokens cm) of (result, phase) \<Rightarrow>
      if phase = 0 then None
      else Some (result,
        \<lparr>ce_step_index = step_index, ce_tokens_before = estimate_tokens cm messages,
         ce_tokens_after = estimate_tokens cm result, ce_budget_tokens = cm_budget_tokens cm,
         ce_messages_before = length messages, ce_messages_after = length result, ce_phase_reached = phase\<rparr>))"

section \<open>The interface of a strategy\<close>

text \<open>
  What the context manager relies on: phase 0 leaves the conversation alone, the first two messages
  stay in place, and a message of the result is one of the conversation up to its text.
\<close>

definition retold :: "message \<Rightarrow> message \<Rightarrow> bool" where
  "retold m m' \<longleftrightarrow> m'\<lparr>msg_content := msg_content m\<rparr> = m"

locale compaction =
  fixes compact :: "message list \<Rightarrow> int \<Rightarrow> message list \<times> nat"
  assumes untouched: "compact ms b = (ms', 0) \<Longrightarrow> ms' = ms"
    and header: "take 2 (fst (compact ms b)) = take 2 ms"
    and retells: "m' \<in> set (fst (compact ms b)) \<Longrightarrow> \<exists>m \<in> set ms. retold m m'"
begin

lemma header_iterated: "take 2 (((\<lambda>ms. fst (compact ms b)) ^^ n) ms) = take 2 ms"
  by (induction n) (simp_all add: header)

lemma retold_trans: "retold a b' \<Longrightarrow> retold b' c \<Longrightarrow> retold a c"
  unfolding retold_def by (metis message.surjective message.update_convs(2))

lemma calls_kept: "m' \<in> set (fst (compact ms b)) \<Longrightarrow> \<exists>m \<in> set ms. msg_tool_calls m = msg_tool_calls m'"
proof -
  assume "m' \<in> set (fst (compact ms b))"
  then obtain m where "m \<in> set ms" and m: "m = m'\<lparr>msg_content := msg_content m\<rparr>"
    using retells unfolding retold_def by metis
  moreover have "msg_tool_calls m = msg_tool_calls m'" by (subst m) simp
  ultimately show ?thesis by auto
qed

end

lemma phase_messages_from:
  "2 \<le> n \<Longrightarrow> concat (map (\<lambda>(i, m). if 2 \<le> i \<and> i < e then f m else [m]) (enumerate n xs)) =
     concat (map f (take (e - n) xs)) @ drop (e - n) xs"
proof (induction xs arbitrary: n)
  case (Cons x xs)
  have "concat (map (\<lambda>(i, m). if 2 \<le> i \<and> i < e then f m else [m]) (enumerate (Suc n) xs)) =
     concat (map f (take (e - Suc n) xs)) @ drop (e - Suc n) xs"
    by (rule Cons.IH) (use Cons.prems in simp)
  then show ?case
    using Cons.prems by (cases "n < e") (auto simp: Suc_diff_Suc [symmetric] simp del: Suc_diff_Suc)
qed simp

lemma phase_messages_split:
  assumes "2 \<le> e"
  shows "phase_messages f ms e = take 2 ms @ concat (map f (drop 2 (take e ms))) @ drop e ms"
proof (cases ms)
  case (Cons a as)
  show ?thesis
  proof (cases as)
    case (Cons b rest)
    obtain d where e: "e = Suc (Suc d)" using assms by (metis Suc_le_D numeral_2_eq_2 Suc_le_mono)
    show ?thesis
      using phase_messages_from [of 2 e f rest] \<open>ms = a # as\<close> Cons
      by (simp add: phase_messages_def e numeral_2_eq_2)
  qed (use Cons assms in \<open>simp add: phase_messages_def\<close>)
qed (simp add: phase_messages_def)

lemma retold_refl [simp]: "retold m m"
  by (simp add: retold_def)

lemma retold_self: "m \<in> S \<Longrightarrow> \<exists>x \<in> S. retold x m"
  by (intro bexI) simp_all

lemma retold_truncate [simp]: "retold m (truncate_result m)"
  by (simp add: retold_def truncate_result_def)

lemma phase1_message_retold: "m' \<in> set (phase1_message replay m) \<Longrightarrow> retold m m'"
  by (auto simp: phase1_message_def Let_def split: if_splits)

lemma drop_types_message_subset: "set (drop_types_message types replay answered m) \<subseteq> {m}"
  by (auto simp: drop_types_message_def)

lemma find_eligible_end_ge: "2 \<le> find_eligible_end ms k"
  by (simp add: find_eligible_end_def Let_def)

lemma phase_messages_header: "2 \<le> e \<Longrightarrow> take 2 (phase_messages f ms e) = take 2 ms"
  by (cases "length ms \<le> 2") (simp_all add: phase_messages_split)

lemma phase_messages_retells:
  assumes "2 \<le> e" and "\<And>m m'. m' \<in> set (f m) \<Longrightarrow> retold m m'" and "m' \<in> set (phase_messages f ms e)"
  shows "\<exists>m \<in> set ms. retold m m'"
proof -
  have "m' \<in> set (take 2 ms) \<or> (\<exists>m \<in> set (drop 2 (take e ms)). m' \<in> set (f m)) \<or> m' \<in> set (drop e ms)"
    using assms(3) by (auto simp: phase_messages_split [OF assms(1)])
  moreover have "set (drop 2 (take e ms)) \<subseteq> set ms"
    by (auto dest: in_set_takeD in_set_dropD)
  ultimately show ?thesis
    using assms(2) by (meson in_set_dropD in_set_takeD retold_self subsetD)
qed

lemma phases_retell:
  assumes "2 \<le> e"
  shows "m' \<in> set (phase1 ms e) \<Longrightarrow> \<exists>m \<in> set ms. retold m m'"
    and "m' \<in> set (phase2 ms e) \<Longrightarrow> \<exists>m \<in> set ms. retold m m'"
    and "m' \<in> set (phase3 ms e) \<Longrightarrow> \<exists>m \<in> set ms. retold m m'"
  unfolding phase1_def phase2_def phase3_def case_prod_beta
  by (erule phase_messages_retells [OF assms, rotated]; use phase1_message_retold drop_types_message_subset in fastforce)+

lemma phases_header:
  assumes "2 \<le> e"
  shows "take 2 (phase1 ms e) = take 2 ms" "take 2 (phase2 ms e) = take 2 ms" "take 2 (phase3 ms e) = take 2 ms"
  by (simp_all add: phase1_def phase2_def phase3_def case_prod_beta phase_messages_header [OF assms])

interpretation no_compact: compaction no_compact
  by unfold_locales (auto simp: no_compact_def intro: retold_self)

interpretation sliding: compaction "sliding_window_compact fl k t" for fl k t
proof
  fix ms :: "message list" and b ms' m'
  show "sliding_window_compact fl k t ms b = (ms', 0) \<Longrightarrow> ms' = ms"
    by (auto simp: sliding_window_compact_def Let_def split: if_splits)
  have "take 2 (take 2 ms @ drop e ms) = take 2 ms" if "2 < e" for e
    using that by (cases "length ms \<le> 2") auto
  then show "take 2 (fst (sliding_window_compact fl k t ms b)) = take 2 ms"
    by (simp add: sliding_window_compact_def Let_def)
  show "m' \<in> set (fst (sliding_window_compact fl k t ms b)) \<Longrightarrow> \<exists>m \<in> set ms. retold m m'"
    by (auto simp: sliding_window_compact_def Let_def dest: in_set_takeD in_set_dropD intro: retold_self
        split: if_splits)
qed

interpretation tiered: compaction "tiered_compact fl k ts" for fl k ts
proof
  fix ms :: "message list" and b ms' m'
  note ge = find_eligible_end_ge [of ms k]
  show "tiered_compact fl k ts ms b = (ms', 0) \<Longrightarrow> ms' = ms"
    by (auto simp: tiered_compact_def Let_def split: prod.splits if_splits)
  show "take 2 (fst (tiered_compact fl k ts ms b)) = take 2 ms"
    by (simp add: tiered_compact_def Let_def phases_header [OF ge] split: prod.splits)
  show "m' \<in> set (fst (tiered_compact fl k ts ms b)) \<Longrightarrow> \<exists>m \<in> set ms. retold m m'"
    using phases_retell [OF ge]
    by (auto simp: tiered_compact_def Let_def intro: retold_self split: prod.splits if_splits)
qed

interpretation strategies: compaction "strategy_compact fl s" for fl s
  by (cases s) (simp_all add: no_compact.compaction_axioms sliding.compaction_axioms tiered.compaction_axioms)

section \<open>What the tiered strategy does\<close>

lemma phase2_subseq: "2 \<le> e \<Longrightarrow> subseq (phase2 ms e) ms"
  and phase3_subseq: "2 \<le> e \<Longrightarrow> subseq (phase3 ms e) (phase2 ms e)"
proof -
  have pointwise: "subseq (concat (map f xs)) (concat (map g xs))"
    if "\<And>x. subseq (f x) (g x)" for f g :: "message \<Rightarrow> message list" and xs
    using that by (induction xs) (auto intro: list_emb_append_mono)
  have kept: "subseq (drop_types_message types r a m) [m]" for types r a m
    by (simp add: drop_types_message_def)
  have more: "subseq (drop_types_message (nudge_types @ [TOOL_RESULT, REASONING, TEXT_RESPONSE]) r a m)
      (drop_types_message (nudge_types @ [TOOL_RESULT]) r a m)" for r a m
    by (simp add: drop_types_message_def)
  assume e: "2 \<le> e"
  have "(take 2 (take e ms) @ drop 2 (take e ms)) @ drop e ms = ms"
    by (simp only: append_take_drop_id)
  then have whole: "ms = take 2 ms @ concat (map (\<lambda>m. [m]) (drop 2 (take e ms))) @ drop e ms"
    using e by (simp add: min_absorb1)
  show "subseq (phase2 ms e) ms"
    apply (subst (2) whole)
    unfolding phase2_def case_prod_beta phase_messages_split [OF e]
    by (intro list_emb_append_mono subseq_order.order_refl pointwise kept)
  show "subseq (phase3 ms e) (phase2 ms e)"
    unfolding phase2_def phase3_def case_prod_beta phase_messages_split [OF e]
    by (intro list_emb_append_mono subseq_order.order_refl pointwise more)
qed

lemma subseq_tokens: "subseq xs ys \<Longrightarrow> estimate_message_tokens xs \<le> estimate_message_tokens ys"
proof -
  have "sum_list (map f xs) \<le> sum_list (map f ys)" if "subseq xs ys" for f :: "message \<Rightarrow> nat" and xs ys
    using that by (induction rule: list_emb.induct) auto
  then show "subseq xs ys \<Longrightarrow> estimate_message_tokens xs \<le> estimate_message_tokens ys"
    by (auto simp: estimate_message_tokens_def intro!: zdiv_mono1)
qed

lemma phase_messages_suffix: "2 \<le> e \<Longrightarrow> suffix (drop e ms) (phase_messages f ms e)"
  by (auto simp: phase_messages_split suffix_def)

lemma phases_suffix:
  assumes "2 \<le> e"
  shows "suffix (drop e ms) (phase1 ms e)" "suffix (drop e ms) (phase2 ms e)" "suffix (drop e ms) (phase3 ms e)"
  by (simp_all add: phase1_def phase2_def phase3_def case_prod_beta phase_messages_suffix [OF assms])

text \<open>
  C22: the tiered strategy. The header and everything after the boundary stay as they are, every
  message of the result is one of the conversation up to a truncated text, phases 2 and 3 only drop
  messages (so the estimate does not grow), phase 0 is reached exactly below the first trigger, and
  phase 1 or 2 only when its result is below the next one.
\<close>

theorem tiered_compact_contract:
  assumes "tiered_compact fl k (p1, p2, p3) ms b = (result, phase)"
  shows "take 2 result = take 2 ms
     \<and> (phase \<noteq> 0 \<longrightarrow> suffix (drop (find_eligible_end ms k) ms) result)
     \<and> (\<forall>m' \<in> set result. \<exists>m \<in> set ms. retold m m')
     \<and> (phase \<noteq> 1 \<longrightarrow> subseq result ms \<and> estimate_message_tokens result \<le> estimate_message_tokens ms)
     \<and> (phase = 0 \<longleftrightarrow> estimate_message_tokens ms < fl_scale fl b p1)
     \<and> (phase = 0 \<longrightarrow> result = ms)
     \<and> (phase = 1 \<longrightarrow> estimate_message_tokens result < fl_scale fl b p2)
     \<and> (phase = 2 \<longrightarrow> estimate_message_tokens result < fl_scale fl b p3)
     \<and> phase \<le> 3"
proof -
  let ?e = "find_eligible_end ms k"
  note ge = find_eligible_end_ge [of ms k]
  note p2 = phase2_subseq [OF ge, of ms]
  have p3: "subseq (phase3 ms ?e) ms"
    using phase3_subseq [OF ge, of ms] p2 by (rule subseq_order.order_trans)
  have "take 2 result = take 2 ms" and "\<forall>m' \<in> set result. \<exists>m \<in> set ms. retold m m'"
    using tiered.header [of fl k "(p1, p2, p3)" ms b] tiered.retells [of _ fl k "(p1, p2, p3)" ms b] assms
    by simp_all
  moreover have "phase \<noteq> 0 \<longrightarrow> suffix (drop ?e ms) result"
    using assms phases_suffix [OF ge, of ms] by (auto simp: tiered_compact_def Let_def split: if_splits)
  moreover have "phase \<noteq> 1 \<longrightarrow> subseq result ms"
    using assms p2 p3 by (auto simp: tiered_compact_def Let_def split: if_splits)
  ultimately show ?thesis
    using assms by (auto simp: tiered_compact_def Let_def subseq_tokens split: if_splits)
qed

section \<open>Keeping no recent iteration\<close>

lemma push_steps_Cons: "s \<noteq> [] \<Longrightarrow> foldl push_step s ms \<noteq> [] \<and> hd (foldl push_step s ms) = hd s"
  by (induction ms arbitrary: s) (auto simp: push_step_def split: option.splits)

text \<open>
  C23: a policy that keeps 0 recent iterations protects all of them. The boundary is then at the
  first message with a step index, so when every message after the header has one, compaction
  returns the conversation unchanged however far it is over the budget.
\<close>

theorem keep_recent_zero_keeps_all:
  assumes "list_all (\<lambda>m. msg_step m \<noteq> None) (drop 2 ms)"
  shows "find_eligible_end ms 0 = 2 \<and> fst (tiered_compact fl 0 ts ms b) = ms
     \<and> fst (sliding_window_compact fl 0 t ms b) = ms"
proof -
  have e: "find_eligible_end ms 0 = 2"
  proof (cases "drop 2 ms")
    case (Cons x xs)
    then obtain si where si: "msg_step x = Some si" using assms by auto
    have "hd (foldl push_step [] (drop 2 ms)) = si" and "foldl push_step [] (drop 2 ms) \<noteq> []"
      using push_steps_Cons [of "[si]" xs] by (simp_all add: Cons push_step_def si)
    then have "cutoff_step (seen_steps ms) 0 = si" by (simp add: cutoff_step_def seen_steps_def hd_conv_nth)
    then show ?thesis
      by (simp add: find_eligible_end_def Let_def Cons step_at_least_def si)
  qed (simp add: find_eligible_end_def seen_steps_def)
  have "phase_messages f ms 2 = ms" for f
    by (simp add: phase_messages_split)
  then show ?thesis
    by (auto simp: e tiered_compact_def sliding_window_compact_def Let_def phase1_def phase2_def phase3_def
        case_prod_beta split: prod.splits)
qed

section \<open>The boundary keeps the recent iterations\<close>

abbreviation step_of :: "message \<Rightarrow> int" where
  "step_of m \<equiv> the (msg_step m)"

lemma remdups_adj_snoc:
  "remdups_adj (xs @ [x]) = (if xs \<noteq> [] \<and> last xs = x then remdups_adj xs else remdups_adj xs @ [x])"
  by (induction xs rule: remdups_adj.induct) auto

lemma push_steps_remdups:
  "list_all (\<lambda>m. msg_step m \<noteq> None) ms \<Longrightarrow> foldl push_step [] ms = remdups_adj (map step_of ms)"
proof (induction ms rule: rev_induct)
  case (snoc m ms)
  then show ?case
    by (auto simp: push_step_def remdups_adj_snoc last_map split: option.splits)
qed simp

lemma strict_sorted_remdups_adj: "sorted (xs :: int list) \<Longrightarrow> sorted_wrt (<) (remdups_adj xs)"
  by (induction xs rule: remdups_adj.induct) (auto simp: order.order_iff_strict)

lemma sorted_dropWhile_less: "sorted xs \<Longrightarrow> set (dropWhile (\<lambda>x. x < c) xs) = {x \<in> set xs. c \<le> x}"
  for c :: int
  by (induction xs) auto

lemma sorted_wrt_suffix_ge:
  assumes "sorted_wrt (<) (xs :: int list)" and "i < length xs"
  shows "{x \<in> set xs. xs ! i \<le> x} = set (drop i xs)"
proof -
  have head: "xs ! i = hd (drop i xs)" "drop i xs \<noteq> []" using assms(2) by (simp_all add: hd_drop_conv_nth)
  have "sorted_wrt (<) (take i xs @ drop i xs)" using assms(1) by simp
  then have cross: "\<forall>x \<in> set (take i xs). \<forall>y \<in> set (drop i xs). x < y" and tail: "sorted_wrt (<) (drop i xs)"
    unfolding sorted_wrt_append by blast+
  have "x < xs ! i" if "x \<in> set (take i xs)" for x
    using that cross head by (metis hd_in_set)
  moreover have "xs ! i \<le> y" if "y \<in> set (drop i xs)" for y
    using that tail head by (cases "drop i xs") (auto intro: less_imp_le)
  moreover have "set xs = set (take i xs) \<union> set (drop i xs)"
    by (metis append_take_drop_id set_append)
  ultimately show ?thesis by fastforce
qed

text \<open>
  When the steps after the header are in order, the boundary separates the iterations. The
  messages from it on are those of the last \<open>k\<close> iterations (of all, when there are not more), and
  everything eligible before it belongs to earlier ones.
\<close>

theorem eligible_end_keeps_recent:
  assumes "list_all (\<lambda>m. msg_step m \<noteq> None) (drop 2 ms)" and "sorted (map step_of (drop 2 ms))" and "0 < k"
    and "e = find_eligible_end ms k"
  shows "card (step_of ` set (drop e ms)) = min k (card (step_of ` set (drop 2 ms)))
     \<and> (\<forall>old \<in> step_of ` set (drop 2 (take e ms)). \<forall>recent \<in> step_of ` set (drop e ms). old < recent)"
proof -
  let ?ms = "drop 2 ms" and ?xs = "map step_of (drop 2 ms)"
  define seen where "seen = seen_steps ms"
  have seen: "seen = remdups_adj ?xs"
    using push_steps_remdups [OF assms(1)] by (simp add: seen_def seen_steps_def)
  have strict: "sorted_wrt (<) seen" unfolding seen by (rule strict_sorted_remdups_adj [OF assms(2)])
  then have distinct: "distinct seen" by (simp add: strict_sorted_iff)
  have steps: "set seen = step_of ` set ?ms" by (simp add: seen)
  then have count: "length seen = card (step_of ` set ?ms)"
    using distinct by (metis distinct_card)
  show ?thesis
  proof (cases "length seen \<le> k")
    case True
    then have "e = 2" by (simp add: assms(4) find_eligible_end_def seen_def [symmetric])
    then show ?thesis using True count by simp
  next
    case False
    define c where "c = seen ! (length seen - k)"
    have ge: "step_at_least c m \<longleftrightarrow> \<not> step_of m < c" if "m \<in> set ?ms" for m
      using that assms(1) by (auto simp: list_all_iff step_at_least_def split: option.splits)
    have "takeWhile (\<lambda>m. \<not> step_at_least c m) ?ms = takeWhile (\<lambda>m. step_of m < c) ?ms"
      by (rule takeWhile_cong) (simp_all add: ge)
    then have e: "e = 2 + length (takeWhile (\<lambda>m. step_of m < c) ?ms)"
      using False assms(3,4) by (simp add: find_eligible_end_def seen_def [symmetric] cutoff_step_def c_def)
    have late: "drop e ms = dropWhile (\<lambda>m. step_of m < c) ?ms"
      by (simp add: e dropWhile_eq_drop add.commute)
    have early: "drop 2 (take e ms) = takeWhile (\<lambda>m. step_of m < c) ?ms"
      by (simp add: e drop_take takeWhile_eq_take [symmetric])
    have "step_of ` set (drop e ms) = set (dropWhile (\<lambda>x. x < c) ?xs)"
      unfolding late dropWhile_map set_map comp_def ..
    then have recent: "step_of ` set (drop e ms) = {x \<in> set seen. c \<le> x}"
      unfolding sorted_dropWhile_less [OF assms(2)] steps set_map .
    have "{x \<in> set seen. c \<le> x} = set (drop (length seen - k) seen)"
      unfolding c_def by (rule sorted_wrt_suffix_ge [OF strict]) (use False assms(3) in simp)
    moreover have "card (set (drop (length seen - k) seen)) = k"
      using False distinct by (simp add: distinct_card)
    ultimately have "card (step_of ` set (drop e ms)) = k"
      using recent by simp
    then have "card (step_of ` set (drop e ms)) = min k (card (step_of ` set ?ms))"
      using False count by linarith
    moreover have "old < c" if "old \<in> step_of ` set (drop 2 (take e ms))" for old
      using that unfolding early by (auto dest: set_takeWhileD)
    moreover have "c \<le> x" if "x \<in> step_of ` set (drop e ms)" for x
      using that unfolding recent by simp
    ultimately show ?thesis by (meson less_le_trans)
  qed
qed

section \<open>Replayed steps\<close>

lemma filter_phase:
  assumes "\<And>m. P m \<Longrightarrow> f m = (if c then [] else [m])" and "\<And>m. \<not> P m \<Longrightarrow> set (f m) \<subseteq> {m}"
  shows "filter P (concat (map f xs)) = (if c then [] else filter P xs)"
proof (induction xs)
  case (Cons x xs)
  have "filter P (f x) = []" if "\<not> P x"
    using assms(2) [OF that] that by (auto simp: filter_empty_conv)
  then show ?case using Cons assms(1) [of x] by (cases "P x") auto
qed simp

text \<open>
  Phases 2 and 3 treat a replayed step (a call message that carries reasoning content) as a
  unit: its messages before the boundary all go when the step is complete, and all stay otherwise.
\<close>

theorem replay_steps_atomic:
  assumes "2 \<le> e" and "s \<in> set (fst (replay_steps ms e))"
    and "of_step = filter (\<lambda>m. msg_step m = Some s)"
  shows "of_step (phase2 ms e) = of_step (take 2 ms)
       @ (if step_complete (drop 2 (take e ms)) s then [] else of_step (drop 2 (take e ms))) @ of_step (drop e ms)
     \<and> of_step (phase3 ms e) = of_step (phase2 ms e)"
proof -
  obtain replay answered where rs: "replay_steps ms e = (replay, answered)" by fastforce
  have "answered = filter (step_complete (drop 2 (take e ms))) replay"
    using rs by (auto simp: replay_steps_def Let_def)
  moreover have s: "s \<in> set replay" using assms(2) rs by simp
  ultimately have answered: "s \<in> set answered \<longleftrightarrow> step_complete (drop 2 (take e ms)) s" by simp
  have "filter (\<lambda>m. msg_step m = Some s) (concat (map (drop_types_message types replay answered) xs)) =
      (if s \<in> set answered then [] else filter (\<lambda>m. msg_step m = Some s) xs)" for types xs
    by (rule filter_phase) (use s in \<open>auto simp: drop_types_message_def in_steps_def\<close>)
  then show ?thesis
    by (simp add: phase2_def phase3_def rs phase_messages_split [OF assms(1)] assms(3) answered)
qed

section \<open>Examples\<close>

definition exact_floats :: float_ops where
  "exact_floats = \<lparr>fl_scale = (\<lambda>b q. \<lfloor>of_int b * q\<rfloor>), fl_ratio = (\<lambda>t b. of_int t / of_int b)\<rparr>"

text \<open>A header and two iterations, each a call with its answer.\<close>

definition sample_iteration :: "int \<Rightarrow> string \<Rightarrow> message list" where
  "sample_iteration step cid =
     [calls_message [\<lparr>tci_name = ''read'', tci_args = JObj [], tci_call_id = cid\<rparr>] (Some ''why'') step,
      answer_message ''contents'' TOOL_RESULT ''read'' cid step]"

definition sample_conversation :: "message list" where
  "sample_conversation =
     [plain_message ROLE_SYSTEM ''You are an agent.'' SYSTEM_PROMPT None,
      plain_message ROLE_USER ''Go.'' USER_INPUT None] @ sample_iteration 1 ''a'' @ sample_iteration 2 ''b''"

lemmas sample_conversation_simps =
  sample_conversation_def sample_iteration_def plain_message_def calls_message_def answer_message_def

lemma tiered_compact_contract_witness:
  "take 2 (fst (tiered_compact exact_floats 1 (1, 1, 1) sample_conversation 1)) = take 2 sample_conversation"
proof -
  obtain result phase where "tiered_compact exact_floats 1 (1, 1, 1) sample_conversation 1 = (result, phase)"
    by fastforce
  from tiered_compact_contract [OF this] this show ?thesis by simp
qed

lemma keep_recent_zero_keeps_all_witness:
  "fst (tiered_compact exact_floats 0 (1, 1, 1) sample_conversation 1) = sample_conversation
   \<and> find_eligible_end sample_conversation 1 = 4"
proof -
  have "list_all (\<lambda>m. msg_step m \<noteq> None) (drop 2 sample_conversation)"
    by (simp add: sample_conversation_simps)
  from keep_recent_zero_keeps_all [OF this] show ?thesis
    by (simp add: sample_conversation_simps find_eligible_end_def seen_steps_def push_step_def cutoff_step_def
        step_at_least_def)
qed

lemma eligible_end_keeps_recent_witness:
  "card (step_of ` set (drop 4 sample_conversation)) = 1"
proof -
  have "list_all (\<lambda>m. msg_step m \<noteq> None) (drop 2 sample_conversation)"
    and "sorted (map step_of (drop 2 sample_conversation))" and "(0 :: nat) < 1"
    and "4 = find_eligible_end sample_conversation 1"
    by (simp_all add: sample_conversation_simps find_eligible_end_def seen_steps_def push_step_def cutoff_step_def
        step_at_least_def)
  from eligible_end_keeps_recent [OF this] show ?thesis
    by (simp add: sample_conversation_simps)
qed

lemma replay_steps_atomic_witness:
  "filter (\<lambda>m. msg_step m = Some 1) (phase2 sample_conversation 4) = []
   \<and> filter (\<lambda>m. msg_step m = Some 1) sample_conversation \<noteq> []"
proof -
  have "1 \<in> set (fst (replay_steps sample_conversation 4))"
    by (simp add: replay_steps_def sample_conversation_simps has_calls_def Let_def)
  from replay_steps_atomic [OF _ this refl] show ?thesis
    by (simp add: sample_conversation_simps step_complete_def has_calls_def message_calls_def)
qed

end
