(* ===== verification/Inference.thy ===== *)
theory Inference
  imports Guardrails Compaction
begin

text \<open>
  The front half of the guarded loop, \<^verbatim>\<open>_forge/core/inference.py\<close>: compact, warn, serialise,
  send, validate and retry. The model client and the tools are services outside the program: they
  are functions of the whole history of observable effects, so that they may answer in any way.
  The effects are the requests sent with their outcome, the stream chunks, tool invocations with
  their outcome, the messages handed to the observer and the compaction events (a callback that is
  not given is one that ignores what it gets).
\<close>

section \<open>The outside world\<close>

record send_request =
  sr_messages :: "(string \<times> json) list list"
  sr_tools :: "tool_spec list"
  sr_sampling :: "json option"
  sr_passthrough :: "json option"
  sr_inbound_body :: "json option"
  sr_raw_tools :: "json option"

datatype chunk_type = TEXT_DELTA | TOOL_CALL_DELTA | FINAL_CHUNK | RETRY_CHUNK

record stream_chunk =
  chunk_kind :: chunk_type
  chunk_content :: string
  chunk_response :: "llm_response option"

text \<open>
  An exception from outside, an instance of \<^verbatim>\<open>Exception\<close>: the names of the classes it is an
  instance of (its own first), its text, and the category that a provider error carries.
\<close>

record exception_info =
  exc_classes :: "string list"
  exc_message :: string
  exc_category :: "string option"

datatype send_outcome = Responded llm_response | Client_Error exception_info

text \<open>
  What a tool call comes to: a value, the two exceptions the loop treats apart (one that is not an
  \<^verbatim>\<open>Exception\<close> leaves the loop like a non-retryable one), any other with its class name.
\<close>

datatype tool_outcome =
    Tool_Returned json
  | Tool_Resolution_Error string
  | Tool_Non_Retryable exception_info
  | Tool_Failed string string

datatype effect =
    Sent send_request send_outcome
  | Chunk stream_chunk
  | Invoked tool_call tool_outcome
  | Emitted message
  | Compacted compact_event

type_synonym history = "effect list"

record loop_env =
  le_text :: text_env
  le_floats :: float_ops
  le_api_format :: string
  le_send :: "history \<Rightarrow> send_request \<Rightarrow> send_outcome"
  le_stream :: "history \<Rightarrow> send_request \<Rightarrow> stream_chunk list \<times> exception_info option"
  le_usage :: "history \<Rightarrow> int option"
  le_invoke :: "history \<Rightarrow> tool_call \<Rightarrow> tool_outcome"
  le_cancelled :: "history \<Rightarrow> bool"
  le_format :: "string \<Rightarrow> (string \<times> string) list \<Rightarrow> string result"

datatype loop_error =
    ToolCallError string string
  | StreamError
  | ClientError exception_info
  | StepEnforcementError string int "string list"
  | PrerequisiteError string int "string list"
  | ToolExecutionError string string
  | NonRetryableToolError exception_info
  | MaxIterationsError int "string list" "string list"
  | WorkflowCancelledError "string list" int
  | PythonError py_error

section \<open>Sending\<close>

definition no_final_chunk :: exception_info where
  "no_final_chunk = \<lparr>exc_classes = [''StreamError'', ''ForgeError''],
     exc_message = ''Stream ended without FINAL chunk'', exc_category = None\<rparr>"

text \<open>The response is that of the last final chunk.\<close>

fun final_response :: "stream_chunk list \<Rightarrow> llm_response option \<Rightarrow> llm_response option" where
  "final_response [] response = response"
| "final_response (c # cs) response =
     final_response cs (if chunk_kind c = FINAL_CHUNK then chunk_response c else response)"

definition send_streaming :: "loop_env \<Rightarrow> history \<Rightarrow> send_request \<Rightarrow> (loop_error + llm_response) \<times> history" where
  "send_streaming env h request =
     (case le_stream env h request of (chunks, failure) \<Rightarrow>
      let h' = h @ map Chunk chunks
      in case failure of
           Some e \<Rightarrow> (Inl (ClientError e), h' @ [Sent request (Client_Error e)])
         | None \<Rightarrow>
            (case final_response chunks None of
               None \<Rightarrow> (Inl StreamError, h' @ [Sent request (Client_Error no_final_chunk)])
             | Some r \<Rightarrow> (Inr r, h' @ [Sent request (Responded r)])))"

definition send_batch :: "loop_env \<Rightarrow> history \<Rightarrow> send_request \<Rightarrow> (loop_error + llm_response) \<times> history" where
  "send_batch env h request =
     (let outcome = le_send env h request; h' = h @ [Sent request outcome]
      in case outcome of Client_Error e \<Rightarrow> (Inl (ClientError e), h') | Responded r \<Rightarrow> (Inr r, h'))"

text \<open>The arguments of \<^verbatim>\<open>run_inference\<close> that stay fixed during the call.\<close>

record inference_args =
  ia_validator :: response_validator
  ia_tool_specs :: "tool_spec list"
  ia_step_index :: int
  ia_stream :: bool
  ia_sampling :: "json option"
  ia_passthrough :: "json option"
  ia_inbound_body :: "json option"
  ia_raw_messages :: "(string \<times> json) list list option"
  ia_raw_tools :: "json option"

record inference_state =
  is_messages :: "message list"
  is_cm :: context_manager
  is_errors :: error_tracker
  is_new_messages :: "message list"
  is_counter :: nat
  is_body :: "json option"
  is_history :: history

datatype inference_outcome =
    Inferred llm_response nat
  | Out_Of_Attempts
  | Inference_Raised loop_error

definition sync_token_count :: "loop_env \<Rightarrow> history \<Rightarrow> context_manager \<Rightarrow> context_manager" where
  "sync_token_count env h cm = (case le_usage env h of None \<Rightarrow> cm | Some t \<Rightarrow> update_token_count t cm)"

text \<open>Everything before the request is sent; \<open>attempt\<close> counts from 0.\<close>

definition prepare_request ::
  "loop_env \<Rightarrow> inference_args \<Rightarrow> nat \<Rightarrow> inference_state \<Rightarrow> send_request \<times> inference_state" where
  "prepare_request env args attempt s =
     (let (messages, compacted, h) =
            (case maybe_compact (le_floats env) (is_cm s) (is_messages s) (ia_step_index args) of
               None \<Rightarrow> (is_messages s, False, is_history s)
             | Some (ms, event) \<Rightarrow> (ms, True, is_history s @ [Compacted event]));
          (context_warning, cm) = check_thresholds (le_floats env) (is_cm s) messages;
          warning = (case context_warning of None \<Rightarrow> [] | Some w \<Rightarrow> if w = [] then [] else [w]);
          body = (if compacted \<or> warning \<noteq> [] then None else is_body s);
          use_raw = (ia_raw_messages args \<noteq> None \<and> attempt = 0 \<and> \<not> compacted \<and> warning = []);
          api = (if use_raw then the (ia_raw_messages args)
                 else fold_and_serialize (te_float (le_text env)) messages (le_api_format env))
      in (\<lparr>sr_messages = api @ map (\<lambda>w. [(''role'', JStr ''user''), (''content'', JStr w)]) warning,
           sr_tools = ia_tool_specs args, sr_sampling = ia_sampling args, sr_passthrough = ia_passthrough args,
           sr_inbound_body = body, sr_raw_tools = (if attempt = 0 then ia_raw_tools args else None)\<rparr>,
          s\<lparr>is_messages := messages, is_cm := cm, is_history := h, is_body := body,
            is_new_messages := is_new_messages s @ map (\<lambda>w. plain_message ROLE_USER w CONTEXT_WARNING
              (Some (ia_step_index args))) warning\<rparr>))"

definition reasoning_messages :: "tool_call list \<Rightarrow> int \<Rightarrow> message list" where
  "reasoning_messages tool_calls step =
     (case tc_reasoning (hd tool_calls) of
        None \<Rightarrow> []
      | Some r \<Rightarrow> if r = [] then [] else [plain_message ROLE_ASSISTANT r REASONING (Some step)])"

text \<open>
  The reasoning, the assistant message with the calls, and one error answer per call; the loop
  builds the same shape for a blocked batch.
\<close>

definition corrected_batch ::
  "tool_call list \<Rightarrow> string \<Rightarrow> message_type \<Rightarrow> int \<Rightarrow> nat \<Rightarrow> message list \<times> nat" where
  "corrected_batch tool_calls content mtype step counter =
     (case build_tool_call_infos tool_calls counter of (infos, counter') \<Rightarrow>
      (reasoning_messages tool_calls step
         @ [calls_message infos (tc_reasoning_content (hd tool_calls)) step]
         @ map (\<lambda>i. answer_message content mtype (tci_name i) (tci_call_id i) step) infos, counter'))"

definition nudge_message_type :: "nudge \<Rightarrow> message_type" where
  "nudge_message_type n = the (map_of NUDGE_KIND_TO_TYPE (nudge_kind n))"

definition retry_messages :: "llm_response \<Rightarrow> nudge \<Rightarrow> int \<Rightarrow> nat \<Rightarrow> message list \<times> nat" where
  "retry_messages response n step counter =
     (case response of
        TextResponse content \<Rightarrow>
          ([plain_message ROLE_ASSISTANT content TEXT_RESPONSE (Some step),
            plain_message ROLE_USER (nudge_content n) (nudge_message_type n) (Some step)], counter)
      | ToolCalls tool_calls \<Rightarrow>
          corrected_batch tool_calls
            ((if nudge_kind n = ''tool_arg_validation'' then ''[ToolArgValidationError]'' else ''[UnknownTool]'')
               @ '' '' @ nudge_content n)
            (nudge_message_type n) step counter)"

definition raw_response :: "(rat \<Rightarrow> string) \<Rightarrow> llm_response \<Rightarrow> string" where
  "raw_response fr response =
     (case response of
        TextResponse content \<Rightarrow> content
      | ToolCalls tcs \<Rightarrow> ''['' @ join_str '', '' (map (\<lambda>tc. ''('' @ py_repr (tc_tool tc) @ '', ''
            @ value_repr fr (tc_args tc) @ '')'') tcs) @ '']'')"

text \<open>The budget of a nudge: the updated tracker, whether it is exhausted, and its label.\<close>

definition charge_budget :: "nudge \<Rightarrow> error_tracker \<Rightarrow> error_tracker \<times> bool \<times> string" where
  "charge_budget n e =
     (if nudge_kind n \<in> set TOOL_ERROR_KINDS
      then (let e' = record_result False False e
            in (e', tool_errors_exhausted e', ''max_tool_errors='' @ show_int (et_max_tool_errors e')))
      else (let e' = record_retry e
            in (e', retries_exhausted e', ''max_retries='' @ show_int (et_max_retries e))))"

text \<open>The retry path after an invalid response: an error, or the state for the next attempt.\<close>

definition retry_step ::
  "loop_env \<Rightarrow> inference_args \<Rightarrow> llm_response \<Rightarrow> nudge \<Rightarrow> inference_state \<Rightarrow>
   loop_error option \<times> inference_state" where
  "retry_step env args response n s =
     (case charge_budget n (is_errors s) of (errors, exhausted, label) \<Rightarrow>
      if exhausted
      then (Some (ToolCallError (''Exhausted after '' @ label @ '' consecutive failed attempts ('' @ nudge_kind n @ '')'')
             (raw_response (te_float (le_text env)) response)), s\<lparr>is_errors := errors\<rparr>)
      else (case retry_messages response n (ia_step_index args) (is_counter s) of (msgs, counter) \<Rightarrow>
        (None, s\<lparr>is_errors := errors, is_counter := counter, is_messages := is_messages s @ msgs,
                 is_new_messages := is_new_messages s @ msgs\<rparr>)))"

text \<open>
  The attempts that are left; \<open>attempts\<close> counts the ones made. The nudge of an invalid response is
  never absent.
\<close>

fun inference_attempts ::
  "loop_env \<Rightarrow> inference_args \<Rightarrow> nat \<Rightarrow> nat \<Rightarrow> inference_state \<Rightarrow> inference_outcome \<times> inference_state" where
  "inference_attempts env args 0 attempts s = (Out_Of_Attempts, s)"
| "inference_attempts env args (Suc left) attempts s =
     (let (request, s1) = prepare_request env args attempts s;
          (sent, h) = (if ia_stream args then send_streaming else send_batch) env (is_history s1) request;
          s2 = s1\<lparr>is_history := h\<rparr>
      in case sent of
           Inl e \<Rightarrow> (Inference_Raised e, s2)
         | Inr response \<Rightarrow>
            let s3 = s2\<lparr>is_body := None, is_cm := sync_token_count env h (is_cm s2)\<rparr>;
                validation = validate_response (le_text env) (ia_validator args) response
            in if \<not> vr_needs_retry validation
               then (Inferred (ToolCalls (the (vr_tool_calls validation))) (Suc attempts),
                     s3\<lparr>is_errors := reset_retries (is_errors s3)\<rparr>)
               else (case retry_step env args response (the (vr_nudge validation)) s3 of
                   (Some e, s4) \<Rightarrow> (Inference_Raised e, s4)
                 | (None, s4) \<Rightarrow> inference_attempts env args left (Suc attempts) s4))"

definition attempt_limit :: "error_tracker \<Rightarrow> int option \<Rightarrow> nat" where
  "attempt_limit e max_attempts =
     (let limit = max (et_max_retries e) (et_max_tool_errors e) + 1
      in nat (case max_attempts of None \<Rightarrow> limit | Some m \<Rightarrow> min limit m))"

definition run_inference ::
  "loop_env \<Rightarrow> inference_args \<Rightarrow> int option \<Rightarrow> message list \<Rightarrow> context_manager \<Rightarrow> error_tracker \<Rightarrow> nat \<Rightarrow>
   history \<Rightarrow> inference_outcome \<times> inference_state" where
  "run_inference env args max_attempts messages cm errors counter h =
     inference_attempts env args (attempt_limit errors max_attempts) 0
       \<lparr>is_messages = messages, is_cm = cm, is_errors = errors, is_new_messages = [], is_counter = counter,
        is_body = ia_inbound_body args, is_history = h\<rparr>"

end
