(* ===== verification/Loop.thy ===== *)
theory Loop
  imports Inference
begin

text \<open>
  The guarded loop, \<^verbatim>\<open>WorkflowRunner.run\<close> of \<^verbatim>\<open>_forge/core/runner.py\<close>: one round of the
  \<^verbatim>\<open>while\<close> is \<open>turn\<close>, which ends the run or hands the state to the next round.
\<close>

section \<open>State\<close>

record runner_config =
  rc_max_iterations :: int
  rc_max_retries_per_step :: int
  rc_max_tool_errors :: int
  rc_stream :: bool
  rc_rescue_enabled :: bool
  rc_retry_nudge :: "(string \<Rightarrow> string) option"
  rc_max_premature_attempts :: int
  rc_max_prereq_violations :: int

record loop_state =
  ls_messages :: "message list"
  ls_cm :: context_manager
  ls_enforcer :: step_enforcer
  ls_errors :: error_tracker
  ls_counter :: nat
  ls_iteration :: int
  ls_history :: history

datatype run_outcome = Completed json | Failed loop_error

definition emit :: "message \<Rightarrow> loop_state \<Rightarrow> loop_state" where
  "emit m s = s\<lparr>ls_messages := ls_messages s @ [m], ls_history := ls_history s @ [Emitted m]\<rparr>"

definition emit_all :: "message list \<Rightarrow> loop_state \<Rightarrow> loop_state" where
  "emit_all ms s = foldl (\<lambda>s' m. emit m s') s ms"

section \<open>Executing a batch\<close>

text \<open>
  \<^verbatim>\<open>terminal_result\<close> is nothing, an exception, or the value a terminal tool returned.
\<close>

datatype terminal_result = No_Result | Result_Error | Result_Value json

record batch_state =
  bs_had_error :: bool
  bs_last_error :: "(string \<times> string) option"
  bs_terminal :: terminal_result

definition new_batch :: batch_state where
  "new_batch = \<lparr>bs_had_error = False, bs_last_error = None, bs_terminal = No_Result\<rparr>"

definition result_text :: "(rat \<Rightarrow> string) \<Rightarrow> json \<Rightarrow> string" where
  "result_text fr v = (case v of JStr s \<Rightarrow> s | _ \<Rightarrow> json_plain fr v)"

definition is_terminal :: "workflow \<Rightarrow> tool_call \<Rightarrow> bool" where
  "is_terminal flow tc \<longleftrightarrow> tc_tool tc \<in> set (wf_terminal_tool flow)"

definition answer_call :: "loop_state \<Rightarrow> tool_call \<Rightarrow> string \<Rightarrow> string \<Rightarrow> loop_state" where
  "answer_call s tc call_id content =
     emit (answer_message content TOOL_RESULT (tc_tool tc) call_id (ls_iteration s)) s"

text \<open>One round of the loop over the batch; an error leaves the run.\<close>

definition execute_call ::
  "loop_env \<Rightarrow> workflow \<Rightarrow> tool_call \<Rightarrow> string \<Rightarrow> loop_state \<Rightarrow> batch_state \<Rightarrow>
   loop_error option \<times> loop_state \<times> batch_state" where
  "execute_call env flow tc call_id s b =
     (if tc_tool tc \<notin> set (keys (wf_tools flow)) then (Some (PythonError (KeyError (tc_tool tc))), s, b)
      else let outcome = le_invoke env (ls_history s) tc;
               s1 = s\<lparr>ls_history := ls_history s @ [Invoked tc outcome]\<rparr>
      in case outcome of
           Tool_Resolution_Error m \<Rightarrow>
             (None, answer_call s1 tc call_id (''[ToolResolutionError] '' @ m),
              if is_terminal flow tc then b\<lparr>bs_terminal := Result_Error\<rparr> else b)
         | Tool_Non_Retryable m \<Rightarrow> (Some (NonRetryableToolError m), s1, b)
         | Tool_Failed cls m \<Rightarrow>
             (None, answer_call s1 tc call_id (''[ToolError] '' @ cls @ '': '' @ m),
              b\<lparr>bs_had_error := True, bs_last_error := Some (tc_tool tc, m),
                bs_terminal := (if is_terminal flow tc then Result_Error else bs_terminal b)\<rparr>)
         | Tool_Returned v \<Rightarrow>
             (None, answer_call (s1\<lparr>ls_enforcer := enforcer_record (tc_tool tc) (tc_args tc) (ls_enforcer s1)\<rparr>)
                tc call_id (result_text (te_float (le_text env)) v),
              if is_terminal flow tc then b\<lparr>bs_terminal := Result_Value v\<rparr> else b))"

fun execute_batch ::
  "loop_env \<Rightarrow> workflow \<Rightarrow> (tool_call \<times> string) list \<Rightarrow> loop_state \<Rightarrow> batch_state \<Rightarrow>
   loop_error option \<times> loop_state \<times> batch_state" where
  "execute_batch env flow [] s b = (None, s, b)"
| "execute_batch env flow ((tc, call_id) # calls) s b =
     (case execute_call env flow tc call_id s b of
        (Some e, s', b') \<Rightarrow> (Some e, s', b')
      | (None, s', b') \<Rightarrow> execute_batch env flow calls s' b')"

section \<open>One round\<close>

definition workflow_prerequisites :: "workflow \<Rightarrow> (string \<times> prerequisite list) list" where
  "workflow_prerequisites flow =
     map (\<lambda>(name, d). (name, tdef_prerequisites d)) (filter (\<lambda>(_, d). tdef_prerequisites d \<noteq> []) (wf_tools flow))"

text \<open>The answer to a batch that is not executed, as for an invalid response.\<close>

definition refuse_batch :: "tool_call list \<Rightarrow> string \<Rightarrow> nudge \<Rightarrow> loop_state \<Rightarrow> loop_state" where
  "refuse_batch tool_calls label n s =
     (case corrected_batch tool_calls (label @ '' '' @ nudge_content n) (nudge_message_type n) (ls_iteration s)
             (ls_counter s) of (msgs, counter) \<Rightarrow> emit_all msgs (s\<lparr>ls_counter := counter\<rparr>))"

text \<open>The search for the call that violates a prerequisite.\<close>

fun first_violation ::
  "step_enforcer \<Rightarrow> (string \<times> prerequisite list) list \<Rightarrow> tool_call list \<Rightarrow> (string \<times> string list) option result" where
  "first_violation e prereqs [] = Ok None"
| "first_violation e prereqs (tc # tcs) =
     (case map_of prereqs (tc_tool tc) of
        None \<Rightarrow> first_violation e prereqs tcs
      | Some ps \<Rightarrow>
          bind_result (missing_prerequisites (se_tracker e) (tc_args tc) ps) (\<lambda>missing.
          if missing \<noteq> [] then Ok (Some (tc_tool tc, missing)) else first_violation e prereqs tcs))"

text \<open>After the batch: the error budget, the resets, and the end of the run.\<close>

definition finish_batch :: "loop_state \<Rightarrow> batch_state \<Rightarrow> run_outcome option \<times> loop_state" where
  "finish_batch s b =
     (let s1 = (if bs_had_error b then s\<lparr>ls_errors := record_result False False (ls_errors s)\<rparr>
                else s\<lparr>ls_errors := reset_errors (ls_errors s),
                       ls_enforcer := reset_prereq_violations (reset_premature (ls_enforcer s))\<rparr>)
      in if bs_had_error b \<and> tool_errors_exhausted (ls_errors s1)
         then (case bs_last_error b of
             None \<Rightarrow> (Some (Failed (PythonError (AssertionErr ''''))), s1)
           | Some (tool, cause) \<Rightarrow> (Some (Failed (ToolExecutionError tool cause)), s1))
         else (case bs_terminal b of
             Result_Value v \<Rightarrow> if v \<noteq> JNull then (Some (Completed v), s1) else (None, s1)
           | _ \<Rightarrow> (None, s1)))"

text \<open>
  Executing the batch: identifiers, the reasoning and the assistant message, then the calls. An
  empty batch has no first call, which the code looks at before anything else.
\<close>

definition run_batch ::
  "loop_env \<Rightarrow> workflow \<Rightarrow> tool_call list \<Rightarrow> loop_state \<Rightarrow> run_outcome option \<times> loop_state" where
  "run_batch env flow tool_calls s =
     (case build_tool_call_infos tool_calls (ls_counter s) of (infos, counter) \<Rightarrow>
      if tool_calls = []
      then (Some (Failed (PythonError (IndexError ''list index out of range''))), s\<lparr>ls_counter := counter\<rparr>)
      else let s1 = emit_all (reasoning_messages tool_calls (ls_iteration s)
                 @ [calls_message infos (tc_reasoning_content (hd tool_calls)) (ls_iteration s)])
               (s\<lparr>ls_counter := counter\<rparr>)
           in case execute_batch env flow (zip tool_calls (map tci_call_id infos)) s1 new_batch of
                (Some e, s2, b) \<Rightarrow> (Some (Failed e), s2)
              | (None, s2, b) \<Rightarrow> finish_batch s2 b)"

text \<open>What follows a validated response with tool calls.\<close>

definition guard_batch ::
  "loop_env \<Rightarrow> workflow \<Rightarrow> tool_call list \<Rightarrow> loop_state \<Rightarrow> run_outcome option \<times> loop_state" where
  "guard_batch env flow tool_calls s =
     (case enforcer_check (ls_enforcer s) tool_calls of (step_check, enforcer) \<Rightarrow>
      let s1 = s\<lparr>ls_enforcer := enforcer\<rparr>
      in if sc_needs_nudge step_check
         then (if premature_exhausted enforcer
               then (Some (Failed (StepEnforcementError (tc_tool (hd (filter (is_terminal flow) tool_calls)))
                      (se_premature_attempts enforcer) (pending_steps (se_tracker enforcer)))), s1)
               else (None, refuse_batch tool_calls ''[StepEnforcementError]'' (the (sc_nudge step_check)) s1))
         else (case enforcer_check_prerequisites enforcer tool_calls of
             Inl e \<Rightarrow> (Some (Failed (PythonError e)), s1)
           | Inr (prereq_check, enforcer') \<Rightarrow>
               let s2 = s1\<lparr>ls_enforcer := enforcer'\<rparr>;
                   refused = (None, refuse_batch tool_calls ''[PrerequisiteError]'' (the (sc_nudge prereq_check)) s2)
               in if sc_needs_nudge prereq_check
                  then (if prereq_exhausted enforcer'
                        then (case first_violation enforcer' (workflow_prerequisites flow) tool_calls of
                            Inl e \<Rightarrow> (Some (Failed (PythonError e)), s2)
                          | Inr (Some (tool, missing)) \<Rightarrow>
                              (Some (Failed (PrerequisiteError tool (se_consecutive_prereq_violations enforcer')
                                 missing)), s2)
                          | Inr None \<Rightarrow> refused)
                        else refused)
                  else run_batch env flow tool_calls s2))"

definition loop_inference_args :: "runner_config \<Rightarrow> workflow \<Rightarrow> loop_state \<Rightarrow> inference_args" where
  "loop_inference_args rc flow s =
     \<lparr>ia_validator = new_validator (keys (wf_tools flow)) (rc_rescue_enabled rc) (rc_retry_nudge rc),
      ia_tool_specs = get_tool_specs flow, ia_step_index = ls_iteration s, ia_stream = rc_stream rc,
      ia_sampling = None, ia_passthrough = None, ia_inbound_body = None, ia_raw_messages = None,
      ia_raw_tools = None\<rparr>"

definition max_iterations_failure :: "runner_config \<Rightarrow> loop_state \<Rightarrow> run_outcome" where
  "max_iterations_failure rc s =
     Failed (MaxIterationsError (rc_max_iterations rc) (keys (st_completed_steps (se_tracker (ls_enforcer s))))
       (pending_steps (se_tracker (ls_enforcer s))))"

text \<open>The state after inference; its new messages go to the observer when there is a result.\<close>

definition after_inference :: "inference_state \<Rightarrow> loop_state \<Rightarrow> loop_state" where
  "after_inference i s =
     s\<lparr>ls_messages := is_messages i, ls_cm := is_cm i, ls_errors := is_errors i, ls_history := is_history i\<rparr>"

definition accept_inference :: "inference_state \<Rightarrow> nat \<Rightarrow> loop_state \<Rightarrow> loop_state" where
  "accept_inference i attempts s =
     (let s' = after_inference i s
      in s'\<lparr>ls_iteration := ls_iteration s + int attempts, ls_counter := is_counter i,
            ls_history := ls_history s' @ map Emitted (is_new_messages i)\<rparr>)"

definition turn ::
  "loop_env \<Rightarrow> runner_config \<Rightarrow> workflow \<Rightarrow> loop_state \<Rightarrow> run_outcome option \<times> loop_state" where
  "turn env rc flow s =
     (if le_cancelled env (ls_history s)
      then (Some (Failed (WorkflowCancelledError (keys (st_completed_steps (se_tracker (ls_enforcer s))))
             (ls_iteration s))), s)
      else case run_inference env (loop_inference_args rc flow s) (Some (rc_max_iterations rc - ls_iteration s))
             (ls_messages s) (ls_cm s) (ls_errors s) (ls_counter s) (ls_history s) of
        (Inference_Raised e, i) \<Rightarrow> (Some (Failed e), after_inference i s)
      | (Out_Of_Attempts, i) \<Rightarrow> (Some (max_iterations_failure rc s), after_inference i s)
      | (Inferred response attempts, i) \<Rightarrow>
          let s1 = accept_inference i attempts s
          in case response of
               TextResponse content \<Rightarrow>
                 (None, emit (plain_message ROLE_ASSISTANT content TEXT_RESPONSE (Some (ls_iteration s1))) s1)
             | ToolCalls tool_calls \<Rightarrow> guard_batch env flow tool_calls s1)"

section \<open>Invariants of a round\<close>

text \<open>
  What a property of loop states has to be kept by to be kept by a batch: the elementary changes of
  the state. \<open>allowed\<close> is what the two checks establish for every call of a batch; it has to last
  until the call is executed.
\<close>

locale batch_invariant =
  fixes env :: loop_env and flow :: workflow and holds :: "loop_state \<Rightarrow> bool"
    and allowed :: "tool_call \<Rightarrow> loop_state \<Rightarrow> bool"
  assumes emit: "holds s \<Longrightarrow> holds (emit m s)"
    and counter: "holds s \<Longrightarrow> holds (s\<lparr>ls_counter := c\<rparr>)"
    and steps: "holds s \<Longrightarrow> enforcer_check (ls_enforcer s) tcs = (chk, e) \<Longrightarrow> holds (s\<lparr>ls_enforcer := e\<rparr>)"
    and prereqs: "holds s \<Longrightarrow> enforcer_check_prerequisites (ls_enforcer s) tcs = Inr (chk, e) \<Longrightarrow>
      holds (s\<lparr>ls_enforcer := e\<rparr>)"
    and call: "holds s \<Longrightarrow> allowed tc s \<Longrightarrow> execute_call env flow tc cid s b = (err, s', b') \<Longrightarrow> holds s'"
    and finish: "holds s \<Longrightarrow> finish_batch s b = (out, s') \<Longrightarrow> holds s'"
    and allowed_emit: "allowed tc s \<Longrightarrow> allowed tc (emit m s)"
    and allowed_counter: "allowed tc s \<Longrightarrow> allowed tc (s\<lparr>ls_counter := c\<rparr>)"
    and allowed_call: "holds s \<Longrightarrow> allowed tc s \<Longrightarrow> execute_call env flow tc' cid s b = (err, s', b') \<Longrightarrow> allowed tc s'"
    and checked: "holds s \<Longrightarrow> enforcer_check (ls_enforcer s) tcs = (chk, e) \<Longrightarrow> \<not> sc_needs_nudge chk \<Longrightarrow>
      enforcer_check_prerequisites e tcs = Inr (chk', e') \<Longrightarrow> \<not> sc_needs_nudge chk' \<Longrightarrow> tc \<in> set tcs \<Longrightarrow>
      allowed tc (s\<lparr>ls_enforcer := e'\<rparr>)"
begin

lemma emit_all: "holds s \<Longrightarrow> holds (emit_all ms s)"
  unfolding emit_all_def by (induction ms arbitrary: s) (auto intro: emit)

lemma allowed_emit_all: "allowed tc s \<Longrightarrow> allowed tc (emit_all ms s)"
  unfolding emit_all_def by (induction ms arbitrary: s) (auto intro: allowed_emit)

lemma batch:
  "execute_batch env flow calls s b = (err, s', b') \<Longrightarrow> holds s \<Longrightarrow> (\<And>c. c \<in> set calls \<Longrightarrow> allowed (fst c) s) \<Longrightarrow>
     holds s'"
proof (induction calls arbitrary: s b)
  case (Cons c calls)
  obtain tc cid where c: "c = (tc, cid)" by (cases c)
  obtain err1 s1 b1 where step: "execute_call env flow tc cid s b = (err1, s1, b1)" by (cases "execute_call env flow tc cid s b")
  have "holds s1" using call [OF Cons.prems(2) _ step] Cons.prems(3) c by fastforce
  moreover have "allowed (fst c') s1" if "c' \<in> set calls" for c'
    using allowed_call [OF Cons.prems(2) _ step] Cons.prems(3) that by simp
  ultimately show ?case
    using Cons.IH [of s1 b1] Cons.prems(1) step c by (cases err1) simp_all
qed simp

lemma refuse: "holds s \<Longrightarrow> holds (refuse_batch tcs label n s)"
  by (auto simp: refuse_batch_def split: prod.splits intro: emit_all counter)

lemma execute:
  assumes "holds s" and "\<And>tc. tc \<in> set tcs \<Longrightarrow> allowed tc s" and "run_batch env flow tcs s = (out, s')"
  shows "holds s'"
proof -
  obtain infos c where infos: "build_tool_call_infos tcs (ls_counter s) = (infos, c)" by fastforce
  show ?thesis
  proof (cases "tcs = []")
    case True
    then show ?thesis using assms(1,3) infos counter by (auto simp: run_batch_def)
  next
    case False
    define s1 where "s1 = emit_all (reasoning_messages tcs (ls_iteration s)
      @ [calls_message infos (tc_reasoning_content (hd tcs)) (ls_iteration s)]) (s\<lparr>ls_counter := c\<rparr>)"
    obtain err s2 b where batch2: "execute_batch env flow (zip tcs (map tci_call_id infos)) s1 new_batch = (err, s2, b)"
      by (cases "execute_batch env flow (zip tcs (map tci_call_id infos)) s1 new_batch")
    have "holds s1" unfolding s1_def by (intro emit_all counter assms(1))
    moreover have "allowed (fst c) s1" if "c \<in> set (zip tcs (map tci_call_id infos))" for c
      unfolding s1_def using that
      by (intro allowed_emit_all allowed_counter assms(2)) (cases c, auto dest: set_zip_leftD)
    ultimately have "holds s2" using batch [OF batch2] by blast
    then show ?thesis
      using assms(3) infos False batch2 finish
      by (cases err) (simp_all add: run_batch_def s1_def [symmetric])
  qed
qed

lemma guarded:
  assumes "holds s" and "guard_batch env flow tcs s = (out, s')"
  shows "holds s'"
proof -
  obtain chk e where check: "enforcer_check (ls_enforcer s) tcs = (chk, e)" by fastforce
  note s1 = steps [OF assms(1) check]
  show ?thesis
  proof (cases "sc_needs_nudge chk")
    case True
    then show ?thesis using assms(2) check s1 refuse by (auto simp: guard_batch_def Let_def split: if_splits)
  next
    case clear: False
    show ?thesis
    proof (cases "enforcer_check_prerequisites e tcs")
      case (Inl x)
      then show ?thesis using assms(2) check s1 clear by (simp add: guard_batch_def Let_def)
    next
      case (Inr r)
      obtain chk' e' where r: "r = (chk', e')" by (cases r)
      have s2: "holds (s\<lparr>ls_enforcer := e'\<rparr>)"
        using prereqs [OF s1, of tcs chk' e'] Inr r by simp
      show ?thesis
      proof (cases "sc_needs_nudge chk'")
        case True
        then show ?thesis
          using assms(2) check clear Inr r s2 refuse
          by (auto simp: guard_batch_def Let_def split: if_splits sum.splits option.splits)
      next
        case False
        have "allowed tc (s\<lparr>ls_enforcer := e'\<rparr>)" if "tc \<in> set tcs" for tc
          using checked [OF assms(1) check clear _ False that] Inr r by simp
        then show ?thesis
          using assms(2) check clear Inr r False execute [OF s2, of tcs out s']
          by (simp add: guard_batch_def Let_def)
      qed
    qed
  qed
qed

end

text \<open>
  A round keeps an invariant that an accepted inference keeps too; \<open>ends\<close> is what is left of it when
  the run ends, possibly inside an inference.
\<close>

locale loop_invariant = batch_invariant +
  fixes rc :: runner_config and ends :: "loop_state \<Rightarrow> bool"
  assumes ended: "holds s \<Longrightarrow> ends s"
    and inference: "holds s \<Longrightarrow> ls_iteration s < rc_max_iterations rc \<Longrightarrow>
      run_inference env (loop_inference_args rc flow s) (Some (rc_max_iterations rc - ls_iteration s))
        (ls_messages s) (ls_cm s) (ls_errors s) (ls_counter s) (ls_history s) = (r, i) \<Longrightarrow> ends (after_inference i s)"
    and accepted: "holds s \<Longrightarrow> ls_iteration s < rc_max_iterations rc \<Longrightarrow>
      run_inference env (loop_inference_args rc flow s) (Some (rc_max_iterations rc - ls_iteration s))
        (ls_messages s) (ls_cm s) (ls_errors s) (ls_counter s) (ls_history s) = (Inferred response n, i) \<Longrightarrow>
      holds (accept_inference i n s)"
begin

lemma turn:
  assumes "holds s" and "ls_iteration s < rc_max_iterations rc" and "turn env rc flow s = (out, s')"
  shows "if out = None then holds s' else ends s'"
proof (cases "le_cancelled env (ls_history s)")
  case True
  then show ?thesis using assms ended by (auto simp: turn_def)
next
  case False
  obtain r i where inf: "run_inference env (loop_inference_args rc flow s)
      (Some (rc_max_iterations rc - ls_iteration s)) (ls_messages s) (ls_cm s) (ls_errors s) (ls_counter s)
      (ls_history s) = (r, i)" by fastforce
  show ?thesis
  proof (cases r)
    case (Inferred response n)
    have "holds (accept_inference i n s)"
      by (rule accepted [OF assms(1,2)]) (use inf Inferred in simp)
    then show ?thesis
      using assms(3) False inf Inferred guarded emit ended
      by (cases response) (auto simp: turn_def Let_def)
  qed (use assms False inf inference [OF assms(1,2) inf] in \<open>auto simp: turn_def\<close>)
qed

end

section \<open>The loop\<close>

text \<open>An inference that yields a response made at least one attempt, so every round counts.\<close>

lemma inference_attempts_count:
  "inference_attempts env args left attempts s = (Inferred r n, s') \<Longrightarrow> attempts < n \<and> n \<le> attempts + left"
  by (induction env args left attempts s arbitrary: r n s' rule: inference_attempts.induct)
    (fastforce simp: Let_def split: prod.splits sum.splits if_splits option.splits)+

lemma run_inference_count:
  "run_inference env args m ms cm e c h = (Inferred r n, i) \<Longrightarrow> 0 < n \<and> n \<le> attempt_limit e m"
  by (auto simp: run_inference_def dest!: inference_attempts_count)

lemma emit_simps [simp]:
  "ls_iteration (emit m s) = ls_iteration s" "ls_enforcer (emit m s) = ls_enforcer s"
  "ls_errors (emit m s) = ls_errors s" "ls_history (emit m s) = ls_history s @ [Emitted m]"
  by (simp_all add: emit_def)

lemma answer_call_simps [simp]:
  "ls_iteration (answer_call s tc cid m) = ls_iteration s" "ls_enforcer (answer_call s tc cid m) = ls_enforcer s"
  "ls_errors (answer_call s tc cid m) = ls_errors s"
  "\<exists>msg. ls_history (answer_call s tc cid m) = ls_history s @ [Emitted msg]"
  by (simp_all add: answer_call_def)

interpretation same_iteration: batch_invariant env flow "\<lambda>s. ls_iteration s = k" "\<lambda>_ _. True" for env flow k
  by unfold_locales
    (auto simp: execute_call_def finish_batch_def Let_def split: if_splits tool_outcome.splits option.splits
      terminal_result.splits)

lemma turn_iteration:
  assumes "turn env rc flow s = (None, s')"
  shows "ls_iteration s < ls_iteration s'"
proof -
  obtain r i where inf: "run_inference env (loop_inference_args rc flow s)
      (Some (rc_max_iterations rc - ls_iteration s)) (ls_messages s) (ls_cm s) (ls_errors s) (ls_counter s)
      (ls_history s) = (r, i)" by fastforce
  obtain response n where r: "r = Inferred response n"
    using assms inf by (cases r) (auto simp: turn_def split: if_splits)
  have "ls_iteration s < ls_iteration (accept_inference i n s)"
    using run_inference_count inf r by (auto simp: accept_inference_def Let_def)
  moreover have "ls_iteration s' = ls_iteration (accept_inference i n s)"
    using assms inf r same_iteration.guarded [OF refl]
    by (cases response) (auto simp: turn_def Let_def split: if_splits)
  ultimately show ?thesis by simp
qed

function run_loop :: "loop_env \<Rightarrow> runner_config \<Rightarrow> workflow \<Rightarrow> loop_state \<Rightarrow> run_outcome \<times> loop_state" where
  "run_loop env rc flow s =
     (if ls_iteration s < rc_max_iterations rc
      then (case turn env rc flow s of
          (Some out, s') \<Rightarrow> (out, s')
        | (None, s') \<Rightarrow> run_loop env rc flow s')
      else (max_iterations_failure rc s, s))"
  by pat_completeness auto
termination
  by (relation "measure (\<lambda>(env, rc, flow, s). nat (rc_max_iterations rc - ls_iteration s))")
    (auto dest!: turn_iteration [OF sym])

declare run_loop.simps [simp del]

text \<open>The rounds as a step relation; a run ends in a last round from a reachable state.\<close>

inductive loop_step :: "loop_env \<Rightarrow> runner_config \<Rightarrow> workflow \<Rightarrow> loop_state \<Rightarrow> loop_state \<Rightarrow> bool"
  for env rc flow where
  round: "ls_iteration s < rc_max_iterations rc \<Longrightarrow> turn env rc flow s = (None, s') \<Longrightarrow> loop_step env rc flow s s'"

inductive_cases loop_stepE: "loop_step env rc flow s s'"

inductive loop_reachable :: "loop_env \<Rightarrow> runner_config \<Rightarrow> workflow \<Rightarrow> loop_state \<Rightarrow> loop_state \<Rightarrow> bool"
  for env rc flow s where
  start: "loop_reachable env rc flow s s"
| step: "loop_reachable env rc flow s t \<Longrightarrow> loop_step env rc flow t u \<Longrightarrow> loop_reachable env rc flow s u"

lemma run_loop_last_round:
  assumes "run_loop env rc flow s = (out, s')"
  obtains t where "loop_reachable env rc flow s t"
    and "(\<not> ls_iteration t < rc_max_iterations rc \<and> s' = t \<and> out = max_iterations_failure rc t)
       \<or> (ls_iteration t < rc_max_iterations rc \<and> turn env rc flow t = (Some out, s'))"
proof -
  have "\<exists>t. loop_reachable env rc flow s0 t \<and> ((\<not> ls_iteration t < rc_max_iterations rc \<and> s' = t
        \<and> out = max_iterations_failure rc t) \<or> (ls_iteration t < rc_max_iterations rc \<and> turn env rc flow t = (Some out, s')))"
    if "loop_reachable env rc flow s0 s" for s0
    using that assms
  proof (induction env rc flow s rule: run_loop.induct)
    case (1 env rc flow s)
    show ?case
    proof (cases "ls_iteration s < rc_max_iterations rc")
      case True
      obtain o1 s1 where turn: "turn env rc flow s = (o1, s1)" by fastforce
      show ?thesis
      proof (cases o1)
        case None
        have "loop_reachable env rc flow s0 s1"
          using "1.prems"(1) True turn None by (auto intro: loop_reachable.step loop_step.round)
        moreover have "run_loop env rc flow s1 = (out, s')"
          using "1.prems"(2) True turn None by (subst (asm) run_loop.simps) simp
        ultimately show ?thesis using "1.IH" [OF True turn [symmetric] None] by simp
      next
        case (Some a)
        then have "turn env rc flow s = (Some out, s')"
          using "1.prems"(2) True turn by (subst (asm) run_loop.simps) simp
        then show ?thesis using "1.prems"(1) True by blast
      qed
    next
      case False
      then have "s' = s \<and> out = max_iterations_failure rc s"
        using "1.prems"(2) by (subst (asm) run_loop.simps) auto
      then show ?thesis using "1.prems"(1) False by blast
    qed
  qed
  then show thesis using that loop_reachable.start by metis
qed

context loop_invariant
begin

lemma reachable: "loop_reachable env rc flow s t \<Longrightarrow> holds s \<Longrightarrow> holds t"
proof (induction rule: loop_reachable.induct)
  case (step t u)
  then show ?case using turn [of t None u] by (auto elim!: loop_stepE)
qed

lemma run: "run_loop env rc flow s = (out, s') \<Longrightarrow> holds s \<Longrightarrow> ends s'"
  using turn ended by (elim run_loop_last_round) (fastforce dest: reachable)

end

definition initial_state :: "runner_config \<Rightarrow> workflow \<Rightarrow> context_manager \<Rightarrow> message list \<Rightarrow> loop_state" where
  "initial_state rc flow cm messages =
     \<lparr>ls_messages = messages, ls_cm = cm,
      ls_enforcer = new_enforcer (wf_required_steps flow) (wf_terminal_tool flow) (workflow_prerequisites flow)
        (rc_max_premature_attempts rc) (rc_max_prereq_violations rc),
      ls_errors = new_error_tracker (rc_max_retries_per_step rc) (rc_max_tool_errors rc),
      ls_counter = 0, ls_iteration = 0, ls_history = []\<rparr>"

text \<open>
  \<^verbatim>\<open>run\<close>: the conversation is seeded, or starts with the rendered prompt and the user message.
\<close>

definition run_workflow ::
  "loop_env \<Rightarrow> runner_config \<Rightarrow> workflow \<Rightarrow> context_manager \<Rightarrow> string \<Rightarrow> (string \<times> string) list \<Rightarrow>
   message list option \<Rightarrow> run_outcome \<times> loop_state" where
  "run_workflow env rc flow cm user_message prompt_vars initial_messages =
     (case initial_messages of
        Some ms \<Rightarrow> run_loop env rc flow (initial_state rc flow cm ms)
      | None \<Rightarrow>
          (case le_format env (wf_system_prompt_template flow) prompt_vars of
             Inl e \<Rightarrow> (Failed (PythonError e), initial_state rc flow cm [])
           | Inr prompt \<Rightarrow>
               run_loop env rc flow (emit_all [plain_message ROLE_SYSTEM prompt SYSTEM_PROMPT None,
                 plain_message ROLE_USER user_message USER_INPUT None] (initial_state rc flow cm []))))"

end
