(* ===== verification/Workflow_Factory.thy ===== *)
theory Workflow_Factory
  imports Tool_Schema Contracts Lowering Loop
begin

text \<open>
  How a compiled plan becomes the workflow of the guarded loop: \<^verbatim>\<open>ForgeWorkflowFactory\<close>,
  \<^verbatim>\<open>ForgeSessionInputBuilder\<close>, \<^verbatim>\<open>ForgeContextFactory\<close> and their helpers in
  \<^verbatim>\<open>_forge/adapter.py\<close>. The implementations bound to the tools are known by their identifiers;
  a tool definition of the loop is its specification and its prerequisites.
\<close>

section \<open>Checks of the plan\<close>

text \<open>\<^verbatim>\<open>ForgeBindingRejectedError\<close>, or an exception of something the factory calls.\<close>

datatype forge_error = Binding_Rejected string | Uncaught py_error

definition reject_unless :: "bool \<Rightarrow> string \<Rightarrow> forge_error + unit" where
  "reject_unless b message = (if b then Inr () else Inl (Binding_Rejected message))"

lemma reject_unless_Inr [result_simps]: "reject_unless b m = Inr u \<longleftrightarrow> b"
  by (simp add: reject_unless_def)

definition unique_or_reject :: "string list \<Rightarrow> string \<Rightarrow> forge_error + unit" where
  "unique_or_reject items label =
     reject_unless (card (set items) = length items) (''Duplicate '' @ label @ '' values are unsupported'')"

text \<open>\<^verbatim>\<open>f"{tool_id}:{tool_version}"\<close>.\<close>

definition binding_identity :: "tool_binding_ref \<Rightarrow> string" where
  "binding_identity b = tb_tool_id b @ '':'' @ show_int (tb_tool_version b)"

definition unknown_prerequisite :: "string \<Rightarrow> string" where
  "unknown_prerequisite node_id = ''Prerequisite references unknown node '' @ py_repr node_id"

definition validate_plan_identities :: "compiled_harness_plan \<Rightarrow> forge_error + unit" where
  "validate_plan_identities plan =
     (let nodes = plan_nodes plan;
          node_ids = set (map cn_node_id nodes);
          terminal_node_ids = set (map cn_node_id (filter (\<lambda>n. cn_terminal_result n \<noteq> None) nodes))
      in bind_result (unique_or_reject (map cn_node_id nodes) ''node_id'') (\<lambda>_.
         bind_result (unique_or_reject (map cn_model_tool_name nodes) ''model_tool_name'') (\<lambda>_.
         bind_result (unique_or_reject (map (binding_identity \<circ> cn_binding) nodes) ''binding identity'') (\<lambda>_.
         bind_result (reject_unless (set (keys (plan_terminal_result_map plan)) = terminal_node_ids)
           ''terminal_result_map must exactly name terminal nodes'') (\<lambda>_.
         bind_result (traverse (\<lambda>n.
             bind_result (reject_unless (cn_node_id n \<noteq> [] \<and> cn_model_tool_name n \<noteq> [])
               ''Compiled node identities must be non-empty'') (\<lambda>_.
             traverse (\<lambda>p. reject_unless (cpre_node_id p \<in> node_ids) (unknown_prerequisite (cpre_node_id p)))
               (cn_prerequisites n))) nodes) (\<lambda>_. Inr ()))))))"

section \<open>Translating a node\<close>

definition tool_spec_from_node :: "pydantic_env \<Rightarrow> compiled_harness_node \<Rightarrow> forge_error + tool_spec" where
  "tool_spec_from_node env n =
     (case cn_input_schema n of
        JObj schema \<Rightarrow>
          (case tool_spec_from_json_schema env (cn_model_tool_name n) (cn_description n) schema of
             Inr spec \<Rightarrow> Inr spec
           | Inl (ValueError m) \<Rightarrow> Inl (Binding_Rejected
               (''Unsupported input schema for node '' @ py_repr (cn_node_id n) @ '': '' @ m))
           | Inl e \<Rightarrow> Inl (Uncaught e))
      | _ \<Rightarrow> Inl (Uncaught (TypeErr ''input_schema'')))"

definition single_supported_argument_match :: "plan_argument_match list \<Rightarrow> forge_error + plan_argument_match" where
  "single_supported_argument_match ms =
     (case ms of [m] \<Rightarrow> Inr m
      | _ \<Rightarrow> Inl (Binding_Rejected ''Forge prerequisites support at most one argument match''))"

definition argument_mapping :: "string \<Rightarrow> plan_argument_match \<Rightarrow> prerequisite" where
  "argument_mapping tool m =
     (if am_prerequisite_argument m = am_current_argument m
      then By_Argument \<lparr>ap_tool = tool, ap_prerequisite_arg = None, ap_current_arg = None,
             ap_match_arg = Some (am_current_argument m)\<rparr>
      else By_Argument \<lparr>ap_tool = tool, ap_prerequisite_arg = Some (am_prerequisite_argument m),
             ap_current_arg = Some (am_current_argument m), ap_match_arg = None\<rparr>)"

definition translate_prerequisite ::
  "(string \<times> string) list \<Rightarrow> compiled_prerequisite \<Rightarrow> forge_error + prerequisite" where
  "translate_prerequisite tool_name_by_node_id p =
     (case map_of tool_name_by_node_id (cpre_node_id p) of
        None \<Rightarrow> Inl (Binding_Rejected (unknown_prerequisite (cpre_node_id p)))
      | Some tool \<Rightarrow>
          if cpre_argument_matches p = [] then Inr (By_Name tool)
          else bind_result (single_supported_argument_match (cpre_argument_matches p)) (\<lambda>m.
               Inr (argument_mapping tool m)))"

section \<open>The workflow\<close>

record forge_runner_options =
  fo_max_iterations :: int
  fo_max_retries_per_step :: int
  fo_max_tool_errors :: int
  fo_max_premature_attempts :: int
  fo_max_prereq_violations :: int

record forge_workflow_input =
  fwi_workflow :: workflow
  fwi_runner_options :: forge_runner_options
  fwi_binding_by_tool :: "(string \<times> string) list"
  fwi_node_id_by_tool :: "(string \<times> string) list"
  fwi_terminal_result_by_tool :: "(string \<times> string) list"
  fwi_cancellation_id :: "string option"

text \<open>The four dictionaries the loop over the nodes fills.\<close>

record translated_nodes =
  tn_tools :: "(string \<times> tool_def) list"
  tn_binding_by_tool :: "(string \<times> string) list"
  tn_node_id_by_tool :: "(string \<times> string) list"
  tn_terminal_result_by_tool :: "(string \<times> string) list"

definition no_nodes :: translated_nodes where
  "no_nodes = \<lparr>tn_tools = [], tn_binding_by_tool = [], tn_node_id_by_tool = [], tn_terminal_result_by_tool = []\<rparr>"

definition add_node :: "compiled_harness_node \<Rightarrow> tool_def \<Rightarrow> translated_nodes \<Rightarrow> translated_nodes" where
  "add_node n d t =
     (let tool = cn_model_tool_name n in
      \<lparr>tn_tools = dict_set (tn_tools t) tool d,
       tn_binding_by_tool = dict_set (tn_binding_by_tool t) tool (tb_implementation_id (cn_binding n)),
       tn_node_id_by_tool = dict_set (tn_node_id_by_tool t) tool (cn_node_id n),
       tn_terminal_result_by_tool = (case cn_terminal_result n of
           None \<Rightarrow> tn_terminal_result_by_tool t
         | Some r \<Rightarrow> dict_set (tn_terminal_result_by_tool t) tool r)\<rparr>)"

definition translate_node ::
  "pydantic_env \<Rightarrow> string list \<Rightarrow> (string \<times> string) list \<Rightarrow> compiled_harness_node \<Rightarrow> forge_error + tool_def" where
  "translate_node env bindings tool_name_by_node_id n =
     bind_result (reject_unless (tb_implementation_id (cn_binding n) \<in> set bindings)
       (''Missing tool binding implementation '' @ py_repr (tb_implementation_id (cn_binding n))
          @ '' for node '' @ py_repr (cn_node_id n))) (\<lambda>_.
     bind_result (tool_spec_from_node env n) (\<lambda>spec.
     bind_result (traverse (translate_prerequisite tool_name_by_node_id) (cn_prerequisites n)) (\<lambda>prereqs.
     Inr \<lparr>tdef_spec = spec, tdef_prerequisites = prereqs\<rparr>)))"

fun translate_nodes ::
  "pydantic_env \<Rightarrow> string list \<Rightarrow> (string \<times> string) list \<Rightarrow> compiled_harness_node list \<Rightarrow> translated_nodes \<Rightarrow>
   forge_error + translated_nodes" where
  "translate_nodes env bindings names [] t = Inr t"
| "translate_nodes env bindings names (n # ns) t =
     bind_result (translate_node env bindings names n) (\<lambda>d.
     translate_nodes env bindings names ns (add_node n d t))"

definition terminal_tools :: "compiled_harness_node list \<Rightarrow> string list" where
  "terminal_tools nodes = map cn_model_tool_name (filter (\<lambda>n. cn_terminal_result n \<noteq> None) nodes)"

definition required_steps :: "compiled_harness_node list \<Rightarrow> string list" where
  "required_steps nodes =
     map cn_model_tool_name (filter (\<lambda>n. cn_required n \<and> cn_terminal_result n = None) nodes)"

definition runner_options :: "compiled_budget_policy \<Rightarrow> forge_runner_options" where
  "runner_options b =
     \<lparr>fo_max_iterations = bp_max_iterations b, fo_max_retries_per_step = bp_max_validation_retries b,
      fo_max_tool_errors = bp_max_tool_errors b,
      fo_max_premature_attempts = bp_max_premature_terminal_attempts b,
      fo_max_prereq_violations = bp_max_prerequisite_violations b\<rparr>"

definition tool_name_by_node_id :: "compiled_harness_plan \<Rightarrow> (string \<times> string) list" where
  "tool_name_by_node_id plan = foldl (\<lambda>d n. dict_set d (cn_node_id n) (cn_model_tool_name n)) [] (plan_nodes plan)"

definition forge_workflow :: "compiled_harness_plan \<Rightarrow> (string \<times> tool_def) list \<Rightarrow> workflow" where
  "forge_workflow plan tools =
     \<lparr>wf_name = plan_harness_id plan, wf_description = ''Compiled Millforge harness '' @ plan_harness_id plan,
      wf_tools = tools, wf_required_steps = required_steps (plan_nodes plan),
      wf_terminal_tool = terminal_tools (plan_nodes plan),
      wf_system_prompt_template = pp_system_instructions (plan_prompt_policy plan)\<rparr>"

definition forge_build ::
  "pydantic_env \<Rightarrow> string list \<Rightarrow> string option \<Rightarrow> compiled_harness_plan \<Rightarrow> forge_error + forge_workflow_input" where
  "forge_build env bindings cancellation_id plan =
     bind_result (validate_plan_identities plan) (\<lambda>_.
     bind_result (translate_nodes env bindings (tool_name_by_node_id plan) (plan_nodes plan) no_nodes) (\<lambda>t.
     bind_result (reject_unless (terminal_tools (plan_nodes plan) \<noteq> []) ''Compiled plan has no terminal nodes'') (\<lambda>_.
     case check_workflow (forge_workflow plan (tn_tools t)) of
       Inl e \<Rightarrow> Inl (Uncaught e)
     | Inr flow \<Rightarrow>
         Inr \<lparr>fwi_workflow = flow, fwi_runner_options = runner_options (plan_budgets plan),
              fwi_binding_by_tool = tn_binding_by_tool t, fwi_node_id_by_tool = tn_node_id_by_tool t,
              fwi_terminal_result_by_tool = tn_terminal_result_by_tool t,
              fwi_cancellation_id = cancellation_id\<rparr>)))"

text \<open>The configuration a session runs the loop with; the loop never streams.\<close>

definition session_runner_config :: "forge_runner_options \<Rightarrow> runner_config" where
  "session_runner_config o' =
     \<lparr>rc_max_iterations = fo_max_iterations o', rc_max_retries_per_step = fo_max_retries_per_step o',
      rc_max_tool_errors = fo_max_tool_errors o', rc_stream = False, rc_rescue_enabled = True,
      rc_retry_nudge = None, rc_max_premature_attempts = fo_max_premature_attempts o',
      rc_max_prereq_violations = fo_max_prereq_violations o'\<rparr>"

section \<open>Context and first messages\<close>

text \<open>The contract of a policy keeps the number of recent iterations nonnegative.\<close>

definition forge_context :: "compiled_context_policy \<Rightarrow> forge_error + context_manager" where
  "forge_context policy =
     (if cp_strategy_id policy \<noteq> ''forge.tiered.v1''
      then Inl (Binding_Rejected (''Unsupported context strategy '' @ py_repr (cp_strategy_id policy)))
      else Inr (new_context_manager
        (TieredCompact (nat (cp_keep_recent_iterations policy)) (cp_phase_thresholds policy))
        (cp_budget_tokens policy) [] None))"

definition REQUEST_CONTEXT_SEPARATOR :: string where
  "REQUEST_CONTEXT_SEPARATOR =
     [newline_chr, newline_chr] @ ''--- millforge request context ---'' @ [newline_chr]"

fun plane_value :: "plane \<Rightarrow> string" where
  "plane_value EXECUTION = ''execution''"
| "plane_value PLANNING = ''planning''"
| "plane_value LEARNING = ''learning''"

definition artifact_payload :: "artifact_ref \<Rightarrow> json" where
  "artifact_payload a = JObj [(''artifact_id'', JStr (ar_artifact_id a)),
     (''content_type'', json_opt JStr (ar_content_type a)), (''path'', JStr (ar_path a))]"

definition requirement_payload :: "terminal_selected_output_requirement \<Rightarrow> json" where
  "requirement_payload item = JObj [(''candidate_transport'', JStr ''terminal_tool_argument''),
     (''required'', JBool (sor_required (tsor_selected_output item))),
     (''schema_sha256'', JStr (sor_schema_sha256 (tsor_selected_output item))),
     (''terminal_result'', JStr (tsor_terminal_result item))]"

definition request_context_payload :: "harness_execution_request \<Rightarrow> json" where
  "request_context_payload r =
     (let stage = her_stage r; requirements = her_selected_output_requirements r in
      JObj ([(''input_artifacts'', JArr (map artifact_payload (her_input_artifacts r))),
        (''request_id'', JStr (her_request_id r)), (''run_id'', JStr (her_run_id r)),
        (''stage'', JObj [(''node_id'', JStr (stage_node_id stage)), (''plane'', JStr (plane_value (stage_plane stage))),
           (''stage_kind_id'', JStr (stage_kind_id stage))]),
        (''work_item_id'', JStr (her_work_item_id r))]
       @ (if requirements = [] then []
          else [(''selected_output_requirements'', JArr (map requirement_payload requirements))])))"

definition session_messages ::
  "(rat \<Rightarrow> string) \<Rightarrow> compiled_harness_plan \<Rightarrow> guarded_session_request \<Rightarrow> message list result" where
  "session_messages fr plan r =
     (let request = gsr_execution_request r; policy = plan_prompt_policy plan in
      bind_result (if pp_include_request_context policy
        then bind_result (json_dumps fr (request_context_payload request)) (\<lambda>text.
             Ok (her_instruction request @ REQUEST_CONTEXT_SEPARATOR @ text))
        else Ok (her_instruction request)) (\<lambda>content.
      Ok [plain_message ROLE_SYSTEM (pp_system_instructions policy) SYSTEM_PROMPT None,
          plain_message ROLE_USER content USER_INPUT None]))"

text \<open>The first messages can always be built: no float is in the context of a request.\<close>

lemma payload_json_finite: "json_finite (request_context_payload r)"
  by (auto simp: request_context_payload_def Let_def json_items_finite_iff artifact_payload_def
      requirement_payload_def json_opt_def split: option.splits)

lemma session_messages_ok: "is_ok (session_messages fr plan r)"
proof -
  have "is_ok (json_dumps fr (request_context_payload (gsr_execution_request r)))"
    by (simp add: json_dumps_ok_iff payload_json_finite)
  then show ?thesis by (auto simp: session_messages_def Let_def is_ok_iff)
qed

section \<open>What the factory accepts\<close>

text \<open>The names a plan gives to its nodes are told apart by their text.\<close>

lemma show_nat_no_colon: "CHR '':'' \<notin> set (show_nat n)"
  using show_nat_digits [of n] by (auto simp: list_all_iff is_digit_def)

lemma show_int_no_colon: "CHR '':'' \<notin> set (show_int i)"
  using show_nat_no_colon by (auto simp: show_int_def)

lemma show_nat_inj: "show_nat m = show_nat n \<longleftrightarrow> m = n"
  by (metis digits_value_show_nat)

lemma show_nat_no_sign: "show_nat n \<noteq> CHR ''-'' # s"
  using show_nat_digits [of n] by (auto simp: is_digit_def)

lemma show_int_inj: "show_int i = show_int j \<longleftrightarrow> i = j"
  by (auto simp: show_int_def show_nat_inj show_nat_no_sign show_nat_no_sign [THEN not_sym])

lemma binding_identity_inj:
  "binding_identity b = binding_identity c \<longleftrightarrow> tb_tool_id b = tb_tool_id c \<and> tb_tool_version b = tb_tool_version c"
proof
  assume eq: "binding_identity b = binding_identity c"
  have tail: "rev (takeWhile (\<lambda>x. x \<noteq> CHR '':'') (rev (binding_identity d))) = show_int (tb_tool_version d)" for d
    using show_int_no_colon [of "tb_tool_version d"]
    by (simp add: binding_identity_def takeWhile_append)
  have "show_int (tb_tool_version b) = show_int (tb_tool_version c)" by (metis eq tail)
  then show "tb_tool_id b = tb_tool_id c \<and> tb_tool_version b = tb_tool_version c"
    using eq by (simp add: binding_identity_def show_int_inj)
qed (simp add: binding_identity_def)

text \<open>What the private subset can express of a node: an object schema, and one argument match at most.\<close>

definition schema_expressible :: "(string \<Rightarrow> bool) \<Rightarrow> json \<Rightarrow> bool" where
  "schema_expressible P schema \<longleftrightarrow>
     (case schema of JObj s \<Rightarrow> map_of s ''type'' = Some (JStr ''object'') \<and> representable P s | _ \<Rightarrow> False)"

definition expressible :: "(string \<Rightarrow> bool) \<Rightarrow> compiled_harness_node \<Rightarrow> bool" where
  "expressible P n \<longleftrightarrow> schema_expressible P (cn_input_schema n)
     \<and> list_all (\<lambda>p. length (cpre_argument_matches p) \<le> 1) (cn_prerequisites n)"

text \<open>What a prerequisite of the plan asks of the calls made so far, for a call with members \<open>kvs\<close>.\<close>

definition prerequisite_satisfied ::
  "compiled_harness_plan \<Rightarrow> (string \<times> json) list \<Rightarrow> (string \<times> json) list \<Rightarrow> compiled_prerequisite \<Rightarrow> bool" where
  "prerequisite_satisfied plan h kvs p \<longleftrightarrow>
     (\<exists>m \<in> set (plan_nodes plan). cn_node_id m = cpre_node_id p
        \<and> (\<exists>a. (cn_model_tool_name m, a) \<in> set h
             \<and> (\<forall>am \<in> set (cpre_argument_matches p). \<exists>prior. stored_args a = JObj prior
                  \<and> py_eq (jget_or_null prior (am_prerequisite_argument am))
                      (jget_or_null kvs (am_current_argument am)))))"

definition workflow_faithful :: "compiled_harness_plan \<Rightarrow> workflow \<Rightarrow> bool" where
  "workflow_faithful plan flow \<longleftrightarrow>
     workflow_sound flow \<and> keys (wf_tools flow) = map cn_model_tool_name (plan_nodes plan)
     \<and> (\<forall>n \<in> set (plan_nodes plan).
          (cn_model_tool_name n \<in> set (wf_required_steps flow) \<longleftrightarrow> cn_required n)
          \<and> (cn_model_tool_name n \<in> set (wf_terminal_tool flow) \<longleftrightarrow> cn_terminal_result n \<noteq> None)
          \<and> (\<exists>d. map_of (wf_tools flow) (cn_model_tool_name n) = Some d
               \<and> (\<forall>h kvs. list_all (prerequisite_met h (JObj kvs)) (tdef_prerequisites d)
                    \<longleftrightarrow> list_all (prerequisite_satisfied plan h kvs) (cn_prerequisites n))))"

lemma plan_names_nonempty:
  assumes "is_ok (check_plan_fields plan)" and "n \<in> set (plan_nodes plan)"
  shows "cn_node_id n \<noteq> []" "cn_model_tool_name n \<noteq> []" "cn_terminal_result n \<noteq> Some []"
proof -
  have "\<not> nonblank []" by (simp add: nonblank_def)
  moreover have "is_ok (traverse check_compiled_node (plan_nodes plan))"
    using assms(1) by (simp add: check_plan_fields_def is_ok_bind_const)
  then have "is_ok (check_compiled_node n)" using assms(2) by (simp add: traverse_is_ok)
  ultimately show "cn_node_id n \<noteq> []" "cn_model_tool_name n \<noteq> []" "cn_terminal_result n \<noteq> Some []"
    by (auto simp: check_compiled_node_def nonblank_field_def optional_def is_ok_bind_const)
qed

lemma plan_terminals:
  assumes "is_ok (check_plan_fields plan)" and "n \<in> set (plan_nodes plan)"
  shows "(\<exists>t. cn_terminal_result n = Some t \<and> t \<noteq> []) \<longleftrightarrow> cn_terminal_result n \<noteq> None"
  using plan_names_nonempty(3) [OF assms] by auto

lemma plan_identities_ok:
  assumes sound: "plan_sound plan" and fields: "is_ok (check_plan_fields plan)"
  shows "validate_plan_identities plan = Inr ()"
proof -
  let ?nodes = "plan_nodes plan"
  have d: "distinct (map cn_node_id ?nodes)" "distinct (map cn_model_tool_name ?nodes)"
    "distinct (map (\<lambda>n. (tb_tool_id (cn_binding n), tb_tool_version (cn_binding n))) ?nodes)"
    and terminal: "fst ` set (plan_terminal_result_map plan)
      = cn_node_id ` {n \<in> set ?nodes. \<exists>t. cn_terminal_result n = Some t \<and> t \<noteq> []}"
    and pre: "\<forall>n \<in> set ?nodes. \<forall>p \<in> set (cn_prerequisites n). \<exists>m \<in> set ?nodes. cn_node_id m = cpre_node_id p"
    using sound by (auto simp: plan_sound_def Let_def)
  have "distinct (map (binding_identity \<circ> cn_binding) ?nodes)"
    using d(3) by (simp add: distinct_map inj_on_def binding_identity_inj)
  moreover have "{n \<in> set ?nodes. \<exists>t. cn_terminal_result n = Some t \<and> t \<noteq> []} = {n \<in> set ?nodes. cn_terminal_result n \<noteq> None}"
    using plan_terminals [OF fields] by auto
  then have "set (keys (plan_terminal_result_map plan))
      = set (map cn_node_id (filter (\<lambda>n. cn_terminal_result n \<noteq> None) ?nodes))"
    using terminal by simp
  moreover have "is_ok (traverse (\<lambda>n. bind_result (reject_unless (cn_node_id n \<noteq> [] \<and> cn_model_tool_name n \<noteq> [])
      ''Compiled node identities must be non-empty'') (\<lambda>_. traverse (\<lambda>p. reject_unless
        (cpre_node_id p \<in> set (map cn_node_id ?nodes)) (unknown_prerequisite (cpre_node_id p))) (cn_prerequisites n))) ?nodes)"
    using plan_names_nonempty [OF fields] pre
    by (simp add: traverse_is_ok is_ok_bind_const reject_unless_def image_iff) metis
  ultimately show ?thesis
    using d(1,2) unfolding validate_plan_identities_def Let_def unique_or_reject_def
    by (simp add: reject_unless_def distinct_card is_ok_iff del: set_map map_map) auto
qed

lemma tool_names:
  assumes "distinct (map cn_node_id (plan_nodes plan))"
  shows "map_of (tool_name_by_node_id plan) i = Some t \<longleftrightarrow>
    (\<exists>n \<in> set (plan_nodes plan). cn_node_id n = i \<and> cn_model_tool_name n = t)"
proof -
  have "tool_name_by_node_id plan = map (\<lambda>n. (cn_node_id n, cn_model_tool_name n)) (plan_nodes plan)"
    using foldl_dict_set [of "[]" cn_node_id "plan_nodes plan" cn_model_tool_name] assms
    by (simp add: tool_name_by_node_id_def)
  then show ?thesis using assms by (auto simp: map_of_eq_Some_iff comp_def)
qed

lemma translate_prerequisite_exact:
  assumes "distinct (map cn_node_id (plan_nodes plan))" and "\<exists>m \<in> set (plan_nodes plan). cn_node_id m = cpre_node_id p"
  shows "is_ok (translate_prerequisite (tool_name_by_node_id plan) p) \<longleftrightarrow> length (cpre_argument_matches p) \<le> 1"
    and "translate_prerequisite (tool_name_by_node_id plan) p = Inr q \<Longrightarrow>
      (prerequisite_met h (JObj kvs) q \<longleftrightarrow> prerequisite_satisfied plan h kvs p)
      \<and> prereq_name q \<in> cn_model_tool_name ` set (plan_nodes plan)"
proof -
  obtain m where m: "m \<in> set (plan_nodes plan)" "cn_node_id m = cpre_node_id p" using assms(2) by blast
  have tool: "map_of (tool_name_by_node_id plan) (cpre_node_id p) = Some (cn_model_tool_name m)"
    using m tool_names [OF assms(1)] by blast
  have same: "m' = m" if "m' \<in> set (plan_nodes plan)" "cn_node_id m' = cpre_node_id p" for m'
    using that m assms(1) by (metis distinct_map inj_onD)
  consider (none) "cpre_argument_matches p = []" | (one) am where "cpre_argument_matches p = [am]"
    | (many) a b ms where "cpre_argument_matches p = a # b # ms"
    by (cases "cpre_argument_matches p"; cases "tl (cpre_argument_matches p)") auto
  note cases = this
  show "is_ok (translate_prerequisite (tool_name_by_node_id plan) p) \<longleftrightarrow> length (cpre_argument_matches p) \<le> 1"
    by (cases rule: cases)
      (auto simp: translate_prerequisite_def tool single_supported_argument_match_def split: list.splits)
  have satisfied: "prerequisite_satisfied plan h kvs p \<longleftrightarrow>
      (\<exists>a. (cn_model_tool_name m, a) \<in> set h
         \<and> (\<forall>am \<in> set (cpre_argument_matches p). \<exists>prior. stored_args a = JObj prior
              \<and> py_eq (jget_or_null prior (am_prerequisite_argument am)) (jget_or_null kvs (am_current_argument am))))"
    unfolding prerequisite_satisfied_def using m same by metis
  show "(prerequisite_met h (JObj kvs) q \<longleftrightarrow> prerequisite_satisfied plan h kvs p)
      \<and> prereq_name q \<in> cn_model_tool_name ` set (plan_nodes plan)"
    if q: "translate_prerequisite (tool_name_by_node_id plan) p = Inr q"
  proof (cases rule: cases)
    case none
    then have "q = By_Name (cn_model_tool_name m)" using q by (simp add: translate_prerequisite_def tool)
    then show ?thesis using none m(1) by (force simp: satisfied)
  next
    case (one am)
    then have "q = argument_mapping (cn_model_tool_name m) am"
      using q by (simp add: translate_prerequisite_def tool single_supported_argument_match_def)
    then show ?thesis
      using m(1) by (auto simp: satisfied one argument_mapping_def prerequisite_arg_def current_arg_def)
  next
    case many
    then show ?thesis
      using q by (simp add: translate_prerequisite_def tool single_supported_argument_match_def)
  qed
qed

text \<open>An admitted schema that is not of type object never becomes a parameter class.\<close>

lemma tool_spec_exact:
  assumes "builds_classes env P" and "normalize_json_schema schema f = Inr schema"
  shows "is_ok (tool_spec_from_node env (n\<lparr>cn_input_schema := schema\<rparr>)) \<longleftrightarrow> schema_expressible P schema"
proof -
  obtain s where s: "schema = JObj s" "normalize_schema_node s (''/'' @ f) = Inr s"
    using assms(2) by (auto simp: normalize_json_schema_def bind_result_Inr split: json.splits)
  have "is_ok (tool_spec_from_node env (n\<lparr>cn_input_schema := schema\<rparr>)) \<longleftrightarrow>
      is_ok (tool_spec_from_json_schema env (cn_model_tool_name n) (cn_description n) s)"
    by (auto simp: tool_spec_from_node_def s(1) is_ok_def split: sum.splits py_error.splits)
  also have "\<dots> \<longleftrightarrow> map_of s ''type'' = Some (JStr ''object'') \<and> representable P s"
  proof (cases "map_of s ''type'' = Some (JStr ''object'')")
    case True
    then show ?thesis using tool_spec_ok [OF assms(1) s(2)] by simp
  next
    case False
    then show ?thesis by (auto simp: tool_spec_from_json_schema_def Let_def is_ok_bind)
  qed
  finally show ?thesis by (simp add: s(1) schema_expressible_def)
qed

lemma translate_nodes_exact:
  assumes "distinct (keys (tn_tools t) @ map cn_model_tool_name ns)"
  shows "(case traverse (translate_node env bindings names) ns of
      Inl e \<Rightarrow> translate_nodes env bindings names ns t = Inl e
    | Inr ds \<Rightarrow> \<exists>t'. translate_nodes env bindings names ns t = Inr t'
        \<and> tn_tools t' = tn_tools t @ zip (map cn_model_tool_name ns) ds)"
  using assms
proof (induction ns arbitrary: t)
  case (Cons n ns)
  show ?case
  proof (cases "translate_node env bindings names n")
    case (Inr d)
    have tools: "tn_tools (add_node n d t) = tn_tools t @ [(cn_model_tool_name n, d)]"
      using foldl_dict_set [of "tn_tools t" cn_model_tool_name "[n]" "\<lambda>_. d"] Cons.prems
      by (simp add: add_node_def Let_def)
    have "distinct (keys (tn_tools (add_node n d t)) @ map cn_model_tool_name ns)"
      using Cons.prems by (auto simp: tools)
    from Cons.IH [OF this] show ?thesis
      by (cases "traverse (translate_node env bindings names) ns") (auto simp: Inr tools)
  qed simp
qed simp

lemma no_nodes_tools: "tn_tools no_nodes = []"
  by (simp add: no_nodes_def)

text \<open>Every implementation a plan names is bound, as a session does.\<close>

definition implementations_bound :: "string list \<Rightarrow> compiled_harness_plan \<Rightarrow> bool" where
  "implementations_bound bindings plan \<longleftrightarrow>
     list_all (\<lambda>n. tb_implementation_id (cn_binding n) \<in> set bindings) (plan_nodes plan)"

definition schemas_admitted :: "compiled_harness_plan \<Rightarrow> bool" where
  "schemas_admitted plan \<longleftrightarrow>
     list_all (\<lambda>n. normalize_json_schema (cn_input_schema n) ''input_schema'' = Inr (cn_input_schema n)) (plan_nodes plan)"

lemma plan_sound_parts:
  assumes "plan_sound plan"
  shows "distinct (map cn_node_id (plan_nodes plan))" "distinct (map cn_model_tool_name (plan_nodes plan))"
    "n \<in> set (plan_nodes plan) \<Longrightarrow> p \<in> set (cn_prerequisites n) \<Longrightarrow> \<exists>m \<in> set (plan_nodes plan). cn_node_id m = cpre_node_id p"
    "n \<in> set (plan_nodes plan) \<Longrightarrow> cn_terminal_result n \<noteq> None \<Longrightarrow> \<not> cn_required n"
    "\<exists>n \<in> set (plan_nodes plan). cn_terminal_result n \<noteq> None"
  using assms by (auto simp: plan_sound_def Let_def)

lemma translate_node_exact:
  assumes "plan_sound plan" and "builds_classes env P" and "implementations_bound bindings plan" and "schemas_admitted plan"
    and n: "n \<in> set (plan_nodes plan)"
  shows "is_ok (translate_node env bindings (tool_name_by_node_id plan) n) \<longleftrightarrow> expressible P n"
    and "translate_node env bindings (tool_name_by_node_id plan) n = Inr d \<Longrightarrow>
      ts_name (tdef_spec d) = cn_model_tool_name n
      \<and> (\<forall>q \<in> set (tdef_prerequisites d). prereq_name q \<in> cn_model_tool_name ` set (plan_nodes plan))
      \<and> (list_all (prerequisite_met h (JObj kvs)) (tdef_prerequisites d)
           \<longleftrightarrow> list_all (prerequisite_satisfied plan h kvs) (cn_prerequisites n))"
proof -
  note parts = plan_sound_parts [OF assms(1)]
  note pre = translate_prerequisite_exact [OF parts(1) parts(3) [OF n]]
  have bound: "tb_implementation_id (cn_binding n) \<in> set bindings"
    and schema: "normalize_json_schema (cn_input_schema n) ''input_schema'' = Inr (cn_input_schema n)"
    using assms(3,4) n by (auto simp: implementations_bound_def schemas_admitted_def list_all_iff)
  have spec: "is_ok (tool_spec_from_node env n) \<longleftrightarrow> schema_expressible P (cn_input_schema n)"
    using tool_spec_exact [OF assms(2) schema, of n] by simp
  show "is_ok (translate_node env bindings (tool_name_by_node_id plan) n) \<longleftrightarrow> expressible P n"
    using spec pre(1)
    by (auto simp: translate_node_def bound is_ok_bind reject_unless_def expressible_def list_all_iff traverse_is_ok
        simp flip: is_ok_iff)
  assume d: "translate_node env bindings (tool_name_by_node_id plan) n = Inr d"
  then obtain spec qs where parts: "tool_spec_from_node env n = Inr spec"
    "traverse (translate_prerequisite (tool_name_by_node_id plan)) (cn_prerequisites n) = Inr qs"
    "d = \<lparr>tdef_spec = spec, tdef_prerequisites = qs\<rparr>"
    by (auto simp: translate_node_def bind_result_Inr)
  have "ts_name spec = cn_model_tool_name n"
    using parts(1)
    by (auto simp: tool_spec_from_node_def tool_spec_from_json_schema_def Let_def bind_result_Inr
        split: json.splits sum.splits py_error.splits)
  moreover have "\<forall>q \<in> set qs. prereq_name q \<in> cn_model_tool_name ` set (plan_nodes plan)"
    by (rule traverse_ball [OF parts(2)]) (use pre(2) in blast)
  moreover have "list_all2 (\<lambda>p q. prerequisite_met h (JObj kvs) q \<longleftrightarrow> prerequisite_satisfied plan h kvs p)
      (cn_prerequisites n) qs"
    using parts(2) pre(2) unfolding traverse_Inr by (auto elim!: list.rel_mono_strong)
  then have "list_all (prerequisite_met h (JObj kvs)) qs \<longleftrightarrow> list_all (prerequisite_satisfied plan h kvs) (cn_prerequisites n)"
    by (induction rule: list_all2_induct) auto
  ultimately show "ts_name (tdef_spec d) = cn_model_tool_name n
      \<and> (\<forall>q \<in> set (tdef_prerequisites d). prereq_name q \<in> cn_model_tool_name ` set (plan_nodes plan))
      \<and> (list_all (prerequisite_met h (JObj kvs)) (tdef_prerequisites d)
           \<longleftrightarrow> list_all (prerequisite_satisfied plan h kvs) (cn_prerequisites n))"
    by (simp add: parts(3))
qed

text \<open>The steps of the workflow, read off the nodes.\<close>

lemma plan_steps:
  assumes "plan_sound plan" and "n \<in> set (plan_nodes plan)"
  shows "cn_model_tool_name n \<in> set (required_steps (plan_nodes plan)) \<longleftrightarrow> cn_required n"
    and "cn_model_tool_name n \<in> set (terminal_tools (plan_nodes plan)) \<longleftrightarrow> cn_terminal_result n \<noteq> None"
proof -
  note parts = plan_sound_parts [OF assms(1)]
  have same: "m = n" if "m \<in> set (plan_nodes plan)" "cn_model_tool_name m = cn_model_tool_name n" for m
    using that assms(2) parts(2) by (metis distinct_map inj_onD)
  show "cn_model_tool_name n \<in> set (required_steps (plan_nodes plan)) \<longleftrightarrow> cn_required n"
  proof -
    have "cn_model_tool_name n \<in> set (required_steps (plan_nodes plan)) \<longleftrightarrow>
        (\<exists>m \<in> set (plan_nodes plan). cn_required m \<and> cn_terminal_result m = None \<and> cn_model_tool_name m = cn_model_tool_name n)"
      unfolding required_steps_def by (simp add: image_iff) metis
    moreover have "\<dots> \<longleftrightarrow> cn_required n" using parts(4) [OF assms(2)] assms(2) same by metis
    ultimately show ?thesis by simp
  qed
  show "cn_model_tool_name n \<in> set (terminal_tools (plan_nodes plan)) \<longleftrightarrow> cn_terminal_result n \<noteq> None"
  proof -
    have "cn_model_tool_name n \<in> set (terminal_tools (plan_nodes plan)) \<longleftrightarrow>
        (\<exists>m \<in> set (plan_nodes plan). cn_terminal_result m \<noteq> None \<and> cn_model_tool_name m = cn_model_tool_name n)"
      unfolding terminal_tools_def by (simp add: image_iff) metis
    moreover have "\<dots> \<longleftrightarrow> cn_terminal_result n \<noteq> None" using assms(2) same by metis
    ultimately show ?thesis by simp
  qed
qed

lemma forge_build_failed:
  assumes sound: "plan_sound plan" and fields: "is_ok (check_plan_fields plan)"
    and "traverse (translate_node env bindings (tool_name_by_node_id plan)) (plan_nodes plan) = Inl e"
  shows "forge_build env bindings cid plan = Inl e"
proof -
  have "distinct (keys (tn_tools no_nodes) @ map cn_model_tool_name (plan_nodes plan))"
    using plan_sound_parts(2) [OF sound] by (simp add: no_nodes_def)
  from translate_nodes_exact [OF this, of env bindings "tool_name_by_node_id plan"] assms(3) show ?thesis
    by (simp add: forge_build_def plan_identities_ok [OF sound fields])
qed

lemma forge_build_bound:
  assumes "plan_sound plan" and "is_ok (check_plan_fields plan)" and "is_ok (forge_build env bindings cid plan)"
  shows "implementations_bound bindings plan"
proof (rule ccontr)
  let ?tr = "translate_node env bindings (tool_name_by_node_id plan)"
  assume "\<not> implementations_bound bindings plan"
  then obtain n where "n \<in> set (plan_nodes plan)" "\<not> is_ok (?tr n)"
    by (auto simp: implementations_bound_def list_all_iff translate_node_def reject_unless_def)
  then have "\<not> is_ok (traverse ?tr (plan_nodes plan))" by (auto simp: traverse_is_ok list_all_iff)
  then obtain e where "traverse ?tr (plan_nodes plan) = Inl e" by (auto simp: is_ok_def split: sum.splits)
  from forge_build_failed [OF assms(1,2) this] assms(3) show False by simp
qed

lemma forge_build_outcome:
  assumes sound: "plan_sound plan" and fields: "is_ok (check_plan_fields plan)" and env: "builds_classes env P"
    and bound: "implementations_bound bindings plan" and admitted: "schemas_admitted plan"
  shows "is_ok (forge_build env bindings cid plan) \<longleftrightarrow> list_all (expressible P) (plan_nodes plan)"
    and "forge_build env bindings cid plan = Inr w \<Longrightarrow> workflow_faithful plan (fwi_workflow w)"
    and "\<not> is_ok (forge_build env bindings cid plan) \<Longrightarrow> forge_build env bindings cid plan
      = Inl (projl (traverse (translate_node env bindings (tool_name_by_node_id plan)) (plan_nodes plan)))"
proof -
  let ?nodes = "plan_nodes plan" and ?tr = "translate_node env bindings (tool_name_by_node_id plan)"
  note parts = plan_sound_parts [OF sound]
  note node = translate_node_exact [OF sound env bound admitted]
  have ok: "is_ok (traverse ?tr ?nodes) \<longleftrightarrow> list_all (expressible P) ?nodes"
    using node(1) by (auto simp: traverse_is_ok list_all_iff)
  have distinct: "distinct (keys (tn_tools no_nodes) @ map cn_model_tool_name ?nodes)"
    using parts(2) by (simp add: no_nodes_def)
  have terminal: "terminal_tools ?nodes \<noteq> []"
    using parts(5) by (auto simp: terminal_tools_def filter_empty_conv)
  have built: "\<exists>w. forge_build env bindings cid plan = Inr w \<and> workflow_faithful plan (fwi_workflow w)"
    if tr: "traverse ?tr ?nodes = Inr ds" for ds
  proof -
    obtain t where t: "translate_nodes env bindings (tool_name_by_node_id plan) ?nodes no_nodes = Inr t"
      and tools: "tn_tools t = zip (map cn_model_tool_name ?nodes) ds"
      using translate_nodes_exact [OF distinct, of env bindings "tool_name_by_node_id plan"] tr
      by (auto simp: no_nodes_tools)
    have len: "length ds = length ?nodes" by (rule traverse_length [OF tr])
    then have names: "keys (tn_tools t) = map cn_model_tool_name ?nodes" by (simp add: tools)
    have each: "\<exists>n \<in> set ?nodes. k = cn_model_tool_name n \<and> ?tr n = Inr d" if "(k, d) \<in> set (tn_tools t)" for k d
      using that tr len
      by (auto simp: tools in_set_zip traverse_Inr list_all2_conv_all_nth intro!: bexI [OF _ nth_mem])
    let ?flow = "forge_workflow plan (tn_tools t)"
    have flow: "wf_tools ?flow = tn_tools t" "wf_required_steps ?flow = required_steps ?nodes"
      "wf_terminal_tool ?flow = terminal_tools ?nodes" by (simp_all add: forge_workflow_def)
    have keys: "set (keys (tn_tools t)) = cn_model_tool_name ` set ?nodes" by (simp add: names)
    have "workflow_sound ?flow"
    proof -
      have "k = ts_name (tdef_spec d) \<and> (\<forall>p \<in> set (tdef_prerequisites d). prereq_name p \<in> cn_model_tool_name ` set ?nodes)"
        if "(k, d) \<in> set (tn_tools t)" for k d
        using each [OF that] node(2) by fastforce
      moreover have "set (required_steps ?nodes) \<subseteq> cn_model_tool_name ` set ?nodes"
        by (auto simp: required_steps_def)
      moreover have "set (terminal_tools ?nodes) \<subseteq> cn_model_tool_name ` set ?nodes - set (required_steps ?nodes)"
        using plan_steps [OF sound] parts(4) by (fastforce simp: terminal_tools_def)
      ultimately show ?thesis unfolding workflow_sound_def flow by (auto simp: keys simp del: set_map)
    qed
    then have checked: "check_workflow ?flow = Inr ?flow" by (simp add: check_workflow_Inr)
    have "\<exists>d. map_of (tn_tools t) (cn_model_tool_name n) = Some d
        \<and> (\<forall>h kvs. list_all (prerequisite_met h (JObj kvs)) (tdef_prerequisites d)
             \<longleftrightarrow> list_all (prerequisite_satisfied plan h kvs) (cn_prerequisites n))" if n: "n \<in> set ?nodes" for n
    proof -
      have "map_of (tn_tools t) (cn_model_tool_name n) \<noteq> None"
        using n keys unfolding map_of_eq_None_iff by auto
      then obtain d where d: "map_of (tn_tools t) (cn_model_tool_name n) = Some d" by blast
      then obtain m where "m \<in> set ?nodes" "cn_model_tool_name n = cn_model_tool_name m" "?tr m = Inr d"
        using each [OF map_of_SomeD] by blast
      moreover from this have "m = n" using n parts(2) by (metis distinct_map inj_onD)
      ultimately show ?thesis using d node(2) [OF n] by blast
    qed
    note prerequisites = this
    have "workflow_faithful plan ?flow"
      unfolding workflow_faithful_def flow
      by (intro conjI ballI \<open>workflow_sound ?flow\<close> names plan_steps [OF sound] prerequisites)
    then show ?thesis
      unfolding forge_build_def plan_identities_ok [OF sound fields] by (simp add: t terminal reject_unless_def checked)
  qed
  have failed: "forge_build env bindings cid plan = Inl e" if "traverse ?tr ?nodes = Inl e" for e
    by (rule forge_build_failed [OF sound fields that])
  show "is_ok (forge_build env bindings cid plan) \<longleftrightarrow> list_all (expressible P) ?nodes"
    using ok built failed by (cases "traverse ?tr ?nodes") auto
  show "forge_build env bindings cid plan = Inr w \<Longrightarrow> workflow_faithful plan (fwi_workflow w)"
    using built failed by (cases "traverse ?tr ?nodes") auto
  show "\<not> is_ok (forge_build env bindings cid plan) \<Longrightarrow> forge_build env bindings cid plan = Inl (projl (traverse ?tr ?nodes))"
    using built failed by (cases "traverse ?tr ?nodes") auto
qed

text \<open>
  C34: the factory is exact. For a plan that satisfies its contract and has schemas in the compiler's
  normal form, in an environment whose parameter classes are those of the predicate \<open>P\<close>, it builds a
  workflow exactly when every node's implementation is bound, every schema is an object schema that
  has parameter classes and no prerequisite maps more than one argument. The workflow it builds
  passes the checks of the loop, has the tools of the plan in their order, its required nodes as
  required steps and its terminal nodes as terminal tools, and a call meets the prerequisites of a
  tool exactly when for each prerequisite of the node some earlier call of the node it names agrees
  on the mapped argument.
\<close>

theorem forge_build_exact:
  assumes "plan_sound plan" and "is_ok (check_plan_fields plan)" and "builds_classes env P" and "schemas_admitted plan"
  shows "(is_ok (forge_build env bindings cid plan)
      \<longleftrightarrow> implementations_bound bindings plan \<and> list_all (expressible P) (plan_nodes plan))
    \<and> (\<forall>w. forge_build env bindings cid plan = Inr w \<longrightarrow> workflow_faithful plan (fwi_workflow w))"
proof (cases "implementations_bound bindings plan")
  case True
  show ?thesis using forge_build_outcome [OF assms(1-3) True assms(4)] True by blast
next
  case False
  then have "\<not> is_ok (forge_build env bindings cid plan)" using forge_build_bound [OF assms(1,2)] by blast
  then show ?thesis using False by (auto simp: is_ok_iff)
qed

section \<open>What the compiler accepts and the factory refuses\<close>

lemma traverse_Inl: "traverse f xs = Inl e \<Longrightarrow> \<exists>x \<in> set xs. f x = Inl e"
  by (induction xs) (auto simp: bind_result_Inl)

text \<open>When the schemas are not the reason, the argument matches are, and the message says so.\<close>

lemma refused_for_matches:
  assumes "plan_sound plan" and "is_ok (check_plan_fields plan)" and "builds_classes env P"
    and "implementations_bound bindings plan" and "schemas_admitted plan"
    and schemas: "list_all (\<lambda>n. schema_expressible P (cn_input_schema n)) (plan_nodes plan)"
    and n: "n \<in> set (plan_nodes plan)" "p \<in> set (cn_prerequisites n)" "1 < length (cpre_argument_matches p)"
  shows "forge_build env bindings cid plan
    = Inl (Binding_Rejected ''Forge prerequisites support at most one argument match'')"
proof -
  let ?tr = "translate_node env bindings (tool_name_by_node_id plan)"
  note parts = plan_sound_parts [OF assms(1)] and out = forge_build_outcome [OF assms(1-5)]
  have "\<not> expressible P n" using n(2,3) by (auto simp: expressible_def list_all_iff not_le)
  then have "\<not> is_ok (forge_build env bindings cid plan)" using n(1) by (auto simp: out(1) list_all_iff)
  note failed = out(3) [OF this]
  have "\<not> is_ok (traverse ?tr (plan_nodes plan))"
    using \<open>\<not> expressible P n\<close> n(1) translate_node_exact(1) [OF assms(1,3,4,5)] by (auto simp: traverse_is_ok)
  then obtain e where e: "traverse ?tr (plan_nodes plan) = Inl e" by (auto simp: is_ok_def split: sum.splits)
  obtain m where m: "m \<in> set (plan_nodes plan)" "?tr m = Inl e" using traverse_Inl [OF e] by blast
  have bound: "tb_implementation_id (cn_binding m) \<in> set bindings"
    and schema: "normalize_json_schema (cn_input_schema m) ''input_schema'' = Inr (cn_input_schema m)"
    using assms(4,5) m(1) by (auto simp: implementations_bound_def schemas_admitted_def list_all_iff)
  have "is_ok (tool_spec_from_node env m)"
    using tool_spec_exact [OF assms(3) schema, of m] schemas m(1) by (auto simp: list_all_iff)
  then obtain q where q: "q \<in> set (cn_prerequisites m)" "translate_prerequisite (tool_name_by_node_id plan) q = Inl e"
    using m(2) bound traverse_Inl by (fastforce simp: translate_node_def reject_unless_def bind_result_Inl is_ok_iff)
  obtain t where "map_of (tool_name_by_node_id plan) (cpre_node_id q) = Some t"
    using tool_names [OF parts(1)] parts(3) [OF m(1) q(1)] by blast
  then have "e = Binding_Rejected ''Forge prerequisites support at most one argument match''"
    using q(2) by (auto simp: translate_prerequisite_def single_supported_argument_match_def bind_result_Inl
        split: if_splits list.splits)
  then show ?thesis by (simp add: failed e)
qed

text \<open>
  C35: the compiler accepts what the factory refuses. The source contract admits up to 32 argument
  matches per prerequisite and the semantic phase checks them all; when some prerequisite of a
  harness that compiles has two or more, lowering succeeds and no session can be built from the
  plan it returns, whatever the implementations: the factory rejects it at run time.
\<close>

theorem several_matches_refused:
  assumes "harness_sound env request source ts ps" and "valid_source source" and "entries_admitted ts source"
    and "nonblank version" and "tool_artifacts_declared ts source"
    and "source_sha256 penv (resolution request source ts ps evidence) = Inr h" and "SHA256_RE h"
    and "codec_faithful penv (lowered_plan version h (resolution request source ts ps evidence)) plan"
    and "builds_classes denv P" and "implementations_bound bindings plan"
    and "list_all (\<lambda>n. schema_expressible P (td_input_schema (the (node_entry ts n)))) (graph_nodes (hs_graph source))"
    and "n \<in> set (graph_nodes (hs_graph source))" and "p \<in> set (hnode_prerequisites n)"
    and "1 < length (argument_matches p)"
  shows "lower_resolved_harness penv version (resolution request source ts ps evidence) = Inr plan
    \<and> forge_build denv bindings cid plan
        = Inl (Binding_Rejected ''Forge prerequisites support at most one argument match'')"
proof -
  note plan = lowered_plan_finalized [OF assms(1-8)]
  let ?low = "\<lambda>n. lowered_node (binding_of n (the (node_entry ts n)))"
  have nodes: "set (plan_nodes plan) = ?low ` set (graph_nodes (hs_graph source))"
    using plan(4) by (auto simp: lowered_plan_nodes ordered_nodes_def)
  have schema: "cn_input_schema (?low n) = td_input_schema (the (node_entry ts n))" for n
    by (simp add: lowered_node_def binding_of_def Let_def)
  have "schemas_admitted plan" "list_all (\<lambda>n. schema_expressible P (cn_input_schema n)) (plan_nodes plan)"
    using assms(3,11) by (auto simp: schemas_admitted_def list_all_iff nodes schema entries_admitted_def admitted_entry_def)
  moreover have "\<exists>q \<in> set (cn_prerequisites (?low n)). 1 < length (cpre_argument_matches q)"
    using assms(13,14) by (auto simp: lowered_node_def binding_of_def Let_def sorted_matches_def)
  ultimately show ?thesis
    using refused_for_matches [OF plan(2,3) assms(9,10)] plan(1) assms(12) nodes by blast
qed

section \<open>Samples\<close>

text \<open>A Pydantic that takes every name.\<close>

definition sample_pydantic :: pydantic_env where
  "sample_pydantic = \<lparr>pe_create_model = (\<lambda>_ _. None), pe_json_schema = (\<lambda>_. JObj [])\<rparr>"

lemma sample_builds: "builds_classes sample_pydantic (\<lambda>_. True)"
  by (simp add: builds_classes_def sample_pydantic_def)

lemma path_schema_expressible: "schema_expressible (\<lambda>_. True) path_schema"
  by (simp add: schema_expressible_def path_schema_def representable.simps)

text \<open>The plan of the sample harness.\<close>

lemma sample_finalized_plan: "plan_sound sample_finalized" "is_ok (check_plan_fields sample_finalized)"
  and sample_finalized_nodes:
    "plan_nodes sample_finalized = map (\<lambda>n. lowered_node (binding_of n (the (node_entry sample_tools n)))) (ordered_nodes sample_source)"
proof -
  have "nonblank ''1.0.0''" by code_simp
  note plan = lowered_plan_finalized [OF sample_sound sample_source_valid sample_entries_admitted this
      sample_artifacts_declared sample_payload_hash [unfolded sample_resolution_def] sample_digest_hex
      sample_codec [unfolded sample_lowered_def sample_resolution_def]]
  show "plan_sound sample_finalized" "is_ok (check_plan_fields sample_finalized)" by (rule plan(2), rule plan(3))
  show "plan_nodes sample_finalized = map (\<lambda>n. lowered_node (binding_of n (the (node_entry sample_tools n)))) (ordered_nodes sample_source)"
    by (simp add: sample_finalized_def sample_lowered_def sample_resolution_def lowered_plan_nodes)
qed

lemma sample_finalized_node:
  assumes "n \<in> set (plan_nodes sample_finalized)"
  shows "cn_input_schema n = path_schema" "tb_implementation_id (cn_binding n) = ''impl''"
    "list_all (\<lambda>p. length (cpre_argument_matches p) \<le> 1) (cn_prerequisites n)"
proof -
  obtain m where m: "m \<in> set sample_nodes" "n = lowered_node (binding_of m (sample_tool (hnode_id m)))"
    using assms sample_node_entries by (auto simp: sample_finalized_nodes ordered_nodes_def simp del: sample_list_eval)
  then show "cn_input_schema n = path_schema" "tb_implementation_id (cn_binding n) = ''impl''"
    by (simp_all add: lowered_node_def binding_of_def Let_def sample_tool_def sample_descriptor_def)
  have "list_all (\<lambda>m. list_all (\<lambda>p. length (argument_matches p) \<le> 1) (hnode_prerequisites m)) sample_nodes"
    by code_simp
  then have "list_all (\<lambda>p. length (argument_matches p) \<le> 1) (hnode_prerequisites m)"
    using m(1) by (simp add: list_all_iff)
  then show "list_all (\<lambda>p. length (cpre_argument_matches p) \<le> 1) (cn_prerequisites n)"
    by (simp add: m(2) lowered_node_def binding_of_def Let_def sorted_matches_def list_all_iff)
qed

theorem forge_build_exact_witness:
  "\<exists>w. forge_build sample_pydantic [''impl''] None sample_finalized = Inr w
     \<and> workflow_faithful sample_finalized (fwi_workflow w)"
proof -
  have "implementations_bound [''impl''] sample_finalized"
    by (simp add: implementations_bound_def list_all_iff sample_finalized_node(2))
  moreover have "normalize_json_schema path_schema ''input_schema'' = Inr path_schema" by code_simp
  then have "schemas_admitted sample_finalized"
    by (simp add: schemas_admitted_def list_all_iff sample_finalized_node(1))
  moreover have "list_all (expressible (\<lambda>_. True)) (plan_nodes sample_finalized)"
    using sample_finalized_node path_schema_expressible by (simp add: expressible_def list_all_iff)
  ultimately show ?thesis
    using forge_build_exact [OF sample_finalized_plan sample_builds, of "[''impl'']" None]
    by (simp add: is_ok_iff) metis
qed

text \<open>A harness whose terminal node takes two arguments over from the node it requires.\<close>

definition pair_schema :: json where
  "pair_schema = JObj [(''type'', JStr ''object''), (''additionalProperties'', JBool False),
     (''properties'', JObj [(''mode'', JObj [(''type'', JStr ''string'')]), (''path'', JObj [(''type'', JStr ''string'')])]),
     (''required'', JArr [JStr ''mode'', JStr ''path''])]"

definition pair_tool :: "string \<Rightarrow> tool_catalog_entry" where
  "pair_tool name = (sample_tool name)\<lparr>td_input_schema := pair_schema\<rparr>"

definition pair_tools :: tool_catalog_snapshot where
  "pair_tools = sample_tools\<lparr>resolve_tool := (\<lambda>tool_id version.
     case map_of [(''tools.read'', ''read''), (''tools.done'', ''done'')] tool_id of
       Some name \<Rightarrow> found_lookup (pair_tool name) | None \<Rightarrow> missing_lookup plain_env None [])\<rparr>"

definition pair_matches :: "argument_match_source list" where
  "pair_matches = [\<lparr>prior_argument = ''mode'', current_argument = ''mode''\<rparr>,
     \<lparr>prior_argument = ''path'', current_argument = ''path''\<rparr>]"

definition pair_read :: harness_node_source where
  "pair_read = sample_node ''read'' True [] None"

definition pair_done :: harness_node_source where
  "pair_done = sample_node ''done'' False [\<lparr>prereq_node_id = ''read'', argument_matches = pair_matches\<rparr>] (Some ''DONE'')"

definition pair_source :: harness_source where
  "pair_source = sample_source\<lparr>hs_graph := \<lparr>graph_nodes = [pair_done, pair_read]\<rparr>,
     hs_artifacts := \<lparr>declared_artifact_ids = [], required_by_terminal = []\<rparr>\<rparr>"

definition pair_resolution :: resolved_harness where
  "pair_resolution = resolution sample_request pair_source pair_tools sample_profiles []"

lemma pair_node_fields:
  "hnode_prerequisites pair_read = []" "hnode_required pair_read" "hnode_terminal_result pair_read = None"
  "hnode_produces pair_read = []" "hnode_id pair_read = ''read''"
  "hnode_prerequisites pair_done = [\<lparr>prereq_node_id = ''read'', argument_matches = pair_matches\<rparr>]"
  "hnode_required pair_done = False" "hnode_terminal_result pair_done = Some ''DONE''"
  "hnode_produces pair_done = []" "hnode_id pair_done = ''done''"
  by (simp_all add: pair_read_def pair_done_def sample_node_def sample_artifacts_def)

lemma pair_entries:
  "node_reference pair_read \<noteq> None" "node_entry pair_tools pair_read = Some (pair_tool ''read'')"
  "node_reference pair_done \<noteq> None" "node_entry pair_tools pair_done = Some (pair_tool ''done'')"
  "binding_key (the (node_reference pair_read)) = (''tools.read'', 1)"
  "binding_key (the (node_reference pair_done)) = (''tools.done'', 1)"
  by code_simp+

lemma pair_nodes: "graph_nodes (hs_graph pair_source) = [pair_done, pair_read]" "ordered_nodes pair_source = [pair_done, pair_read]"
proof -
  show nodes: "graph_nodes (hs_graph pair_source) = [pair_done, pair_read]" by (simp add: pair_source_def)
  have "sort_key hnode_id [pair_done, pair_read] = [pair_done, pair_read]" by code_simp
  then show "ordered_nodes pair_source = [pair_done, pair_read]" by (simp add: ordered_nodes_def nodes)
qed

lemma pair_valid: "valid_source pair_source"
proof -
  have "check_harness_graph (hs_graph pair_source) = Inr (hs_graph pair_source)"
    "check_artifact_policy (hs_artifacts pair_source) = Inr (hs_artifacts pair_source)"
    by code_simp+
  moreover have "hs_harness_id pair_source = ''demo.edit''" "hs_harness_version pair_source = 1"
    "hs_model_profile_id pair_source = ''profile.main''" "hs_schema_version pair_source = ''1.0''"
    "hs_kind pair_source = ''millforge_harness''" "hs_stage_scope pair_source = hs_stage_scope sample_source"
    "hs_prompt pair_source = hs_prompt sample_source" "hs_budgets pair_source = hs_budgets sample_source"
    "hs_context pair_source = hs_context sample_source"
    by (simp_all add: pair_source_def) (simp_all add: sample_source_def)
  ultimately show ?thesis
    using sample_context by (auto simp: valid_source_def check_harness_source_def sample_source_parts sample_prompt)
qed

lemma pair_admitted: "entries_admitted pair_tools pair_source"
proof -
  have "normalize_json_schema pair_schema ''input_schema'' = Inr pair_schema" "json_finite pair_schema"
    by code_simp+
  then show ?thesis
    using sample_tool_admitted [of "''read''"] sample_tool_admitted [of "''done''"]
    by (simp add: entries_admitted_def pair_nodes pair_entries pair_tool_def admitted_entry_def)
qed

lemma pair_arguments:
  "arguments_compatible plain_env [pair_done, pair_read] (node_entries pair_tools pair_source)"
proof -
  obtain bytes where "property_schema_compatibility_bytes (redaction_env.float_repr plain_env) (JObj [(''type'', JStr ''string'')]) = Inr bytes"
    using sample_string_bytes by (auto simp: is_ok_iff)
  then show ?thesis
    by (simp add: arguments_compatible_def node_entries_def pair_nodes pair_node_fields pair_entries pair_matches_def
        match_compatible_def schema_properties_def required_properties_def pair_tool_def pair_schema_def)
qed

lemma pair_sound: "harness_sound plain_env sample_request pair_source pair_tools sample_profiles"
proof -
  have edge: "depends [pair_done, pair_read] i j \<longleftrightarrow> i = ''done'' \<and> j = ''read''" for i j
    by (auto simp: depends_def prerequisite_pairs_def pair_node_fields)
  have "\<not> is_connector_discovery_snapshot_like pair_tools"
    by (simp add: is_connector_discovery_snapshot_like_def pair_tools_def sample_tools_def) blast
  moreover have "snapshot_sound pair_tools" "snapshot_sound sample_profiles"
    by code_simp+
  moreover have "resolved_model_profile sample_profiles (hs_model_profile_id pair_source) \<noteq> None"
    by (simp add: resolved_model_profile_def sample_profiles_def found_lookup_def mk_catalog_lookup_def optional_def)
  moreover have "\<not> (depends [pair_done, pair_read])\<^sup>+\<^sup>+ i i" for i
  proof
    assume cycle: "(depends [pair_done, pair_read])\<^sup>+\<^sup>+ i i"
    have "i = ''done''" using tranclpD [OF cycle] by (auto simp: edge)
    moreover have "i = ''read''" using cycle by cases (auto simp: edge)
    ultimately show False by auto
  qed
  moreover have "terminals_sound [pair_done, pair_read] (Some [''DONE''])"
    "prerequisites_sound [pair_done, pair_read]"
    by (simp_all add: terminals_sound_def prerequisites_sound_def is_terminal_node_def pair_node_fields)
  moreover have "terminals_gated [pair_done, pair_read]"
    using edge by (auto simp: terminals_gated_def is_terminal_node_def pair_node_fields)
  moreover have "set (td_required_capabilities (pair_tool i)) \<subseteq> {''fs.read'', ''fs.write''}"
    "td_model_tool_name (pair_tool i) = i" for i
    by (simp_all add: pair_tool_def sample_tool_def sample_descriptor_def)
  ultimately show ?thesis
    using pair_arguments pair_entries(1,3)
    by (simp add: harness_sound_def pair_nodes bindings_sound_def node_entries_def
        artifacts_sound_def pair_node_fields pair_entries(2,4-) sample_request_def)
      (simp add: pair_source_def)
qed

lemma pair_payload_hash: "source_sha256 (one_plan_env q) pair_resolution = Inr sample_digest"
proof -
  have "json_finite pair_schema" by code_simp
  then have "json_finite (canonical_semantic_payload pair_resolution)"
    unfolding payload_finite
    by (simp add: pair_resolution_def resolution_def pair_nodes pair_entries binding_of_def pair_tool_def)
  then have "is_ok (canonical_json_serialize (float_text (one_plan_env q)) (canonical_semantic_payload pair_resolution))"
    by (simp add: canonical_ok_iff)
  then show ?thesis
    by (auto simp: is_ok_iff source_sha256_def canonical_semantic_bytes_def one_plan_env_def)
qed

definition pair_lowered :: compiled_harness_plan where
  "pair_lowered = lowered_plan ''1.0.0'' sample_digest pair_resolution"

definition pair_plan :: compiled_harness_plan where
  "pair_plan = pair_lowered\<lparr>plan_compiled_sha256 := sample_digest\<rparr>"

lemma pair_plan_nodes:
  "plan_nodes pair_lowered = [lowered_node (binding_of pair_done (pair_tool ''done'')),
     lowered_node (binding_of pair_read (pair_tool ''read''))]"
  by (simp add: pair_lowered_def pair_resolution_def lowered_plan_nodes pair_nodes pair_entries)

theorem several_matches_refused_witness:
  "lower_resolved_harness (one_plan_env pair_plan) ''1.0.0'' pair_resolution = Inr pair_plan
     \<and> forge_build sample_pydantic [''impl''] None pair_plan
         = Inl (Binding_Rejected ''Forge prerequisites support at most one argument match'')"
proof -
  have "nonblank ''1.0.0''" by code_simp
  moreover have "tool_artifacts_declared pair_tools pair_source"
    by (simp add: tool_artifacts_declared_def pair_nodes pair_entries pair_tool_def sample_tool_def sample_artifacts_def)
  moreover have "json_finite pair_schema" by code_simp
  then have "codec_faithful (one_plan_env pair_plan) pair_lowered pair_plan"
    by (intro one_plan_faithful)
      (simp_all add: pair_plan_nodes lowered_node_def binding_of_def pair_tool_def Let_def pair_plan_def)
  moreover have "implementations_bound [''impl''] pair_plan"
    by (simp add: implementations_bound_def pair_plan_def pair_plan_nodes lowered_node_def binding_of_def
        pair_tool_def sample_tool_def sample_descriptor_def Let_def)
  moreover have "schema_expressible (\<lambda>_. True) pair_schema"
    by (simp add: schema_expressible_def pair_schema_def representable.simps)
  then have "list_all (\<lambda>n. schema_expressible (\<lambda>_. True) (td_input_schema (the (node_entry pair_tools n))))
      (graph_nodes (hs_graph pair_source))"
    by (simp add: pair_nodes pair_entries pair_tool_def)
  moreover have "source_sha256 (one_plan_env pair_plan)
      (resolution sample_request pair_source pair_tools sample_profiles []) = Inr sample_digest"
    using pair_payload_hash [of pair_plan] by (simp add: pair_resolution_def)
  ultimately have "lower_resolved_harness (one_plan_env pair_plan) ''1.0.0''
      (resolution sample_request pair_source pair_tools sample_profiles []) = Inr pair_plan
    \<and> forge_build sample_pydantic [''impl''] None pair_plan
         = Inl (Binding_Rejected ''Forge prerequisites support at most one argument match'')"
    using several_matches_refused [OF pair_sound pair_valid pair_admitted _ _ _ sample_digest_hex _ sample_builds,
        of "''1.0.0''" "one_plan_env pair_plan" "[]" pair_plan "[''impl'']" pair_done
          "\<lparr>prereq_node_id = ''read'', argument_matches = pair_matches\<rparr>" None]
    by (simp add: pair_nodes pair_node_fields pair_matches_def pair_lowered_def pair_resolution_def)
  then show ?thesis by (simp add: pair_resolution_def)
qed

end
