(* ===== verification/Tool_Bridge.thy ===== *)
theory Tool_Bridge
  imports Tool_Results Workflow_Factory
begin

text \<open>
  \<^verbatim>\<open>ForgeToolBridge\<close> of \<^verbatim>\<open>_forge/adapter.py\<close>: what stands between a tool call of the loop and the
  executor. It decides whether the call may run, runs it, checks and records what comes back, owns
  the successes and artifacts of the session, and turns an accepted terminal call into an intent.
  The bridge is a state; an operation returns an exception or a value with the new state.
\<close>

section \<open>State\<close>

record terminal_candidate =
  cand_call_id :: string
  cand_node_id :: string
  cand_tool_name :: string
  cand_terminal_result :: string
  cand_summary :: string
  cand_artifact_refs :: "artifact_ref list"
  cand_selected_output :: "selected_output option"
  cand_schema_sha256 :: "string option"

record tool_bridge =
  br_successes :: "(string \<times> (tool_execution_result \<times> (string \<times> json) list)) list"
  br_artifacts :: "(string \<times> artifact_ref) list"
  br_events :: "session_event list"
  br_trace :: "tool_trace_record list"
  br_candidate :: "terminal_candidate option"
  br_intent :: "terminal_intent option"
  br_sequence :: int
  br_call_counter :: nat

definition new_bridge :: tool_bridge where
  "new_bridge = \<lparr>br_successes = [], br_artifacts = [], br_events = [], br_trace = [], br_candidate = None,
     br_intent = None, br_sequence = 0, br_call_counter = 0\<rparr>"

text \<open>What the bridge is built with: the plan, the request and the lookup of its output requirements.\<close>

record bridge_env =
  be_plan :: compiled_harness_plan
  be_request :: guarded_session_request
  be_requirements :: "(string \<times> selected_output_requirement) list"
  be_redactor :: redactor
  be_output :: output_env

text \<open>
  The outside of one call: the executor, the cancellation token and the clock. A stamp is the time
  of day and the monotonic time of the n-th record the bridge writes.
\<close>

record execution_call =
  ec_call_id :: string
  ec_node_id :: string
  ec_tool_name :: string
  ec_binding :: tool_binding_ref
  ec_arguments :: "(string \<times> json) list"
  ec_prerequisite_results :: "(string \<times> tool_execution_result) list"

record call_world =
  cw_supports :: "string \<Rightarrow> bool"
  cw_cancelled :: bool
  cw_reason :: "string option"
  cw_now :: rat
  cw_stamp :: "nat \<Rightarrow> string \<times> rat"
  cw_execute :: "execution_call \<Rightarrow> exception_info + tool_execution_result"

section \<open>Exceptions\<close>

definition exception_of :: "string list \<Rightarrow> string \<Rightarrow> exception_info" where
  "exception_of classes message = \<lparr>exc_classes = classes, exc_message = message, exc_category = None\<rparr>"

definition non_retryable :: "string \<Rightarrow> exception_info" where
  "non_retryable message = exception_of [''NonRetryableToolError''] message"

definition tool_resolution :: "string \<Rightarrow> exception_info" where
  "tool_resolution message = exception_of [''ToolResolutionError''] message"

definition operation_cancelled :: "string \<Rightarrow> exception_info" where
  "operation_cancelled message = exception_of [''_WorkflowOperationCancelledError'', ''OperationCancelledError'',
     ''MillforgeError'', ''NonRetryableToolError''] message"

definition deadline_exceeded :: "string \<Rightarrow> exception_info" where
  "deadline_exceeded message = exception_of [''_WorkflowDeadlineExceededError'', ''DeadlineExceededError'',
     ''MillforgeError'', ''NonRetryableToolError''] message"

text \<open>A record that fails its contract raises Pydantic's \<^verbatim>\<open>ValidationError\<close>.\<close>

definition validation_error :: "py_error \<Rightarrow> exception_info" where
  "validation_error e = exception_of [''ValidationError'', ''ValueError''] (error_message e)"

definition python_error :: "py_error \<Rightarrow> exception_info" where
  "python_error e = exception_of [error_type_name e] (error_message e)"

text \<open>How the loop takes an exception of a tool call.\<close>

definition tool_exception :: "exception_info \<Rightarrow> tool_outcome" where
  "tool_exception e =
     (if ''ToolResolutionError'' \<in> set (exc_classes e) then Tool_Resolution_Error (exc_message e)
      else if ''NonRetryableToolError'' \<in> set (exc_classes e) then Tool_Non_Retryable e
      else Tool_Failed (case exc_classes e of [] \<Rightarrow> ''Exception'' | c # _ \<Rightarrow> c) (exc_message e))"

type_synonym 'a bridge_step = "tool_bridge \<Rightarrow> (exception_info + 'a) \<times> tool_bridge"

definition then_do :: "'a bridge_step \<Rightarrow> ('a \<Rightarrow> 'b bridge_step) \<Rightarrow> 'b bridge_step" where
  "then_do f g b = (case f b of (Inl e, b') \<Rightarrow> (Inl e, b') | (Inr x, b') \<Rightarrow> g x b')"

definition bridge_return :: "'a \<Rightarrow> 'a bridge_step" where
  "bridge_return x b = (Inr x, b)"

definition bridge_raise :: "exception_info \<Rightarrow> 'a bridge_step" where
  "bridge_raise e b = (Inl e, b)"

definition attempt :: "'a result \<Rightarrow> 'a bridge_step" where
  "attempt r b = (case r of Inl e \<Rightarrow> (Inl (python_error e), b) | Inr x \<Rightarrow> (Inr x, b))"

section \<open>Events and traces\<close>

definition stamp :: "call_world \<Rightarrow> tool_bridge \<Rightarrow> string \<times> rat" where
  "stamp w b = cw_stamp w (length (br_events b) + length (br_trace b))"

definition call_event ::
  "bridge_env \<Rightarrow> call_world \<Rightarrow> session_event_type \<Rightarrow> string \<Rightarrow> string \<Rightarrow> string option \<Rightarrow> tool_bridge \<Rightarrow> session_event" where
  "call_event env w kind node_id call_id code b =
     (let request = gsr_execution_request (be_request env) in
      \<lparr>evt_sequence = br_sequence b + 1, evt_occurred_at = fst (stamp w b),
       evt_monotonic_offset_ms = snd (stamp w b) * 1000, evt_type = kind,
       evt_request_id = her_request_id request, evt_run_id = her_run_id request,
       evt_session_id = gsr_session_id (be_request env), evt_stage = her_stage request,
       evt_node_id = Some node_id, evt_model_turn = None, evt_tool_call_id = Some call_id, evt_code = code,
       evt_fields = []\<rparr>)"

text \<open>The counter is raised before the record is built, so a record that fails leaves a gap.\<close>

definition append_event ::
  "bridge_env \<Rightarrow> call_world \<Rightarrow> session_event_type \<Rightarrow> string \<Rightarrow> string \<Rightarrow> string option \<Rightarrow> unit bridge_step" where
  "append_event env w kind node_id call_id code b =
     (let b1 = b\<lparr>br_sequence := br_sequence b + 1\<rparr>
      in case check_session_event (call_event env w kind node_id call_id code b) of
           Inl e \<Rightarrow> (Inl (validation_error e), b1)
         | Inr ev \<Rightarrow> (Inr (), b1\<lparr>br_events := br_events b1 @ [ev]\<rparr>))"

text \<open>A call that was let in: its node and what was computed of it before anything is decided.\<close>

record bridge_call =
  bc_node :: compiled_harness_node
  bc_call_id :: string
  bc_args :: "(string \<times> json) list"
  bc_input_sha256 :: string
  bc_prerequisites :: "decision_record list"
  bc_capabilities :: "decision_record list"

record trace_details =
  td_status :: tool_execution_status
  td_retryable :: bool
  td_certainty :: side_effect_certainty
  td_summary :: string
  td_side_effect :: "side_effect_class option"
  td_idempotency_of :: "idempotency_class option"
  td_detail_code :: "string option"
  td_detail_summary :: "string option"
  td_retry_allowed :: "bool option"
  td_output_sha256 :: "string option"
  td_duration_ms :: rat

definition plain_details ::
  "tool_execution_status \<Rightarrow> bool \<Rightarrow> side_effect_certainty \<Rightarrow> string \<Rightarrow> trace_details" where
  "plain_details status retryable certainty summary =
     \<lparr>td_status = status, td_retryable = retryable, td_certainty = certainty, td_summary = summary,
      td_side_effect = None, td_idempotency_of = None, td_detail_code = None, td_detail_summary = None,
      td_retry_allowed = None, td_output_sha256 = None, td_duration_ms = 0\<rparr>"

definition trace_summary :: "bridge_env \<Rightarrow> string \<Rightarrow> string" where
  "trace_summary env s = bounded_text (ren_text (be_redactor env) None s) 2048"

definition call_trace :: "bridge_env \<Rightarrow> call_world \<Rightarrow> bridge_call \<Rightarrow> trace_details \<Rightarrow> tool_bridge \<Rightarrow> tool_trace_record" where
  "call_trace env w c d b =
     (let request = gsr_execution_request (be_request env); node = bc_node c in
      \<lparr>tr_sequence = int (length (br_trace b)) + 1, tr_occurred_at = fst (stamp w b),
       tr_monotonic_offset_ms = snd (stamp w b) * 1000, tr_request_id = her_request_id request,
       tr_run_id = her_run_id request, tr_session_id = gsr_session_id (be_request env),
       tr_stage = her_stage request, tr_node_id = cn_node_id node, tr_model_turn = 0,
       tr_tool_call_id = bc_call_id c, tr_model_tool_name = cn_model_tool_name node,
       tr_binding = cn_binding node, tr_binding_resolution_status = ''resolved'', tr_connector = no_connector,
       tr_input_sha256 = bc_input_sha256 c, tr_prerequisite_decisions = bc_prerequisites c,
       tr_capability_decisions = bc_capabilities c, tr_execution_status = td_status d,
       tr_retryable = td_retryable d,
       tr_side_effect_class = (case td_side_effect d of None \<Rightarrow> cn_side_effect_class node | Some s \<Rightarrow> s),
       tr_idempotency = (case td_idempotency_of d of None \<Rightarrow> cn_idempotency node | Some i \<Rightarrow> i),
       tr_side_effect_certainty = td_certainty d, tr_side_effect_detail_code = td_detail_code d,
       tr_side_effect_detail_summary = map_option (trace_summary env) (td_detail_summary d),
       tr_side_effect_retry_allowed = td_retry_allowed d, tr_output_sha256 = td_output_sha256 d,
       tr_duration_ms = td_duration_ms d, tr_summary = trace_summary env (td_summary d)\<rparr>)"

definition append_trace :: "bridge_env \<Rightarrow> call_world \<Rightarrow> bridge_call \<Rightarrow> trace_details \<Rightarrow> unit bridge_step" where
  "append_trace env w c d b =
     (case check_tool_trace_record (call_trace env w c d b) of
        Inl e \<Rightarrow> (Inl (validation_error e), b)
      | Inr t \<Rightarrow> (Inr (), b\<lparr>br_trace := br_trace b @ [t]\<rparr>))"

fun append_events ::
  "bridge_env \<Rightarrow> call_world \<Rightarrow> bridge_call \<Rightarrow> (session_event_type \<times> string option) list \<Rightarrow> unit bridge_step" where
  "append_events env w c [] = bridge_return ()"
| "append_events env w c ((kind, code) # evs) =
     then_do (append_event env w kind (cn_node_id (bc_node c)) (bc_call_id c) code) (\<lambda>_. append_events env w c evs)"

text \<open>The way every refusal and failure ends: a trace, events, an exception.\<close>

definition close_call ::
  "bridge_env \<Rightarrow> call_world \<Rightarrow> bridge_call \<Rightarrow> trace_details \<Rightarrow> (session_event_type \<times> string option) list \<Rightarrow>
   exception_info \<Rightarrow> 'a bridge_step" where
  "close_call env w c d evs e =
     then_do (append_trace env w c d) (\<lambda>_. then_do (append_events env w c evs) (\<lambda>_. bridge_raise e))"

section \<open>Decisions\<close>

definition resolve_call_id :: "string option \<Rightarrow> tool_bridge \<Rightarrow> string \<times> tool_bridge" where
  "resolve_call_id call_id b =
     (case call_id of
        Some i \<Rightarrow> (i, b)
      | None \<Rightarrow>
          (''bridge_'' @ call_id_text (br_call_counter b),
           b\<lparr>br_call_counter := Suc (br_call_counter b)\<rparr>))"

definition decide :: "string \<Rightarrow> bool \<Rightarrow> decision_record" where
  "decide key b = \<lparr>dr_key = key, dr_decision = (if b then ALLOWED else DENIED)\<rparr>"

text \<open>Only the last success of the required node is looked at.\<close>

definition prerequisite_satisfied_by ::
  "(tool_execution_result \<times> (string \<times> json) list) option \<Rightarrow> (string \<times> json) list \<Rightarrow> compiled_prerequisite \<Rightarrow> bool" where
  "prerequisite_satisfied_by prior args p \<longleftrightarrow>
     (case prior of
        None \<Rightarrow> False
      | Some (result, prior_args) \<Rightarrow>
          list_all (\<lambda>m. py_eq (jget_or_null prior_args (am_prerequisite_argument m))
            (jget_or_null args (am_current_argument m))) (cpre_argument_matches p))"

definition prerequisite_decisions ::
  "tool_bridge \<Rightarrow> compiled_harness_node \<Rightarrow> (string \<times> json) list \<Rightarrow> decision_record list" where
  "prerequisite_decisions b node args =
     map (\<lambda>p. decide (cpre_node_id p)
       (prerequisite_satisfied_by (map_of (br_successes b) (cpre_node_id p)) args p)) (cn_prerequisites node)"

definition granted_capabilities :: "bridge_env \<Rightarrow> string set" where
  "granted_capabilities env = set (map cg_capability_id (her_grants (gsr_execution_request (be_request env))))"

definition capability_decisions :: "bridge_env \<Rightarrow> call_world \<Rightarrow> compiled_harness_node \<Rightarrow> decision_record list" where
  "capability_decisions env w node =
     map (\<lambda>c. decide c (c \<in> granted_capabilities env)) (cn_required_capabilities node)
     @ (if cw_supports w (cn_model_tool_name node) then [] else [decide (''tool:'' @ cn_model_tool_name node) False])"

definition has_denial :: "decision_record list \<Rightarrow> bool" where
  "has_denial ds = list_ex is_denial ds"

section \<open>Terminal calls\<close>

fun ends_with :: "string \<Rightarrow> string \<Rightarrow> bool" where
  "ends_with ending [] = (ending = [])"
| "ends_with ending (c # s) = (ending = c # s \<or> ends_with ending s)"

definition terminal_disposition :: "string \<Rightarrow> bool \<Rightarrow> disposition" where
  "terminal_disposition terminal_result legacy_blocked_suffix =
     (if terminal_result = ''COMPLETE'' then Success
      else if terminal_result = ''BLOCKED'' then Blocked
      else if terminal_result = ''REJECTED'' then Rejected
      else if legacy_blocked_suffix \<and> ends_with ''_BLOCKED'' terminal_result then Blocked else Success)"

definition pi_compat_prefix :: string where
  "pi_compat_prefix = ''builtin.pi_compat.terminal.''"

definition legacy_node :: "compiled_harness_node \<Rightarrow> bool" where
  "legacy_node node \<longleftrightarrow> take (length pi_compat_prefix) (tb_tool_id (cn_binding node)) \<noteq> pi_compat_prefix"

definition terminal_candidate_of ::
  "bridge_env \<Rightarrow> compiled_harness_node \<Rightarrow> string \<Rightarrow> string \<Rightarrow> tool_execution_result \<Rightarrow> selected_output option \<Rightarrow>
   tool_bridge \<Rightarrow> terminal_candidate" where
  "terminal_candidate_of env node terminal_result call_id r selected b =
     \<lparr>cand_call_id = call_id, cand_node_id = cn_node_id node, cand_tool_name = cn_model_tool_name node,
      cand_terminal_result = terminal_result, cand_summary = ter_summary r,
      cand_artifact_refs = map snd (br_artifacts b), cand_selected_output = selected,
      cand_schema_sha256 = (if selected \<noteq> None
        then map_option sor_schema_sha256 (map_of (be_requirements env) terminal_result) else None)\<rparr>"

definition missing_required :: "bridge_env \<Rightarrow> tool_bridge \<Rightarrow> string list" where
  "missing_required env b =
     map cn_node_id (filter (\<lambda>n. cn_required n \<and> cn_node_id n \<notin> set (keys (br_successes b))) (plan_nodes (be_plan env)))"

definition required_artifacts :: "bridge_env \<Rightarrow> string \<Rightarrow> string set" where
  "required_artifacts env terminal_result =
     set (concat (map tar_artifact_ids (filter (\<lambda>r. tar_terminal_result r = terminal_result)
       (cap_required_by_terminal (plan_artifact_policy (be_plan env))))))"

definition missing_artifacts :: "bridge_env \<Rightarrow> string \<Rightarrow> tool_bridge \<Rightarrow> string list" where
  "missing_artifacts env terminal_result b =
     sorted_set (required_artifacts env terminal_result - set (keys (br_artifacts b)))"

definition terminal_intent_of ::
  "bridge_env \<Rightarrow> compiled_harness_node \<Rightarrow> terminal_candidate \<Rightarrow> terminal_intent" where
  "terminal_intent_of env node cand =
     (let request = gsr_execution_request (be_request env) in
      \<lparr>ti_request_id = her_request_id request, ti_run_id = her_run_id request, ti_stage = her_stage request,
       ti_terminal_node_id = cn_node_id node, ti_terminal_result = cand_terminal_result cand,
       ti_disposition = terminal_disposition (cand_terminal_result cand) (legacy_node node),
       ti_summary = cand_summary cand, ti_artifact_refs = cand_artifact_refs cand,
       ti_selected_output = cand_selected_output cand,
       ti_selected_output_schema_sha256 = cand_schema_sha256 cand\<rparr>)"

definition accept_terminal_candidate ::
  "bridge_env \<Rightarrow> call_world \<Rightarrow> bridge_call \<Rightarrow> string \<Rightarrow> tool_execution_result \<Rightarrow> selected_output option \<Rightarrow> unit bridge_step" where
  "accept_terminal_candidate env w c terminal_result r selected b =
     (let node = bc_node c;
          cand = terminal_candidate_of env node terminal_result (bc_call_id c) r selected b;
          b1 = b\<lparr>br_candidate := Some cand\<rparr>;
          mapping_valid = (map_of (plan_terminal_result_map (be_plan env)) (cn_node_id node) = Some terminal_result)
      in if missing_required env b1 \<noteq> [] \<or> missing_artifacts env terminal_result b1 \<noteq> [] \<or> \<not> mapping_valid
         then then_do (append_events env w c [(TERMINAL_INTENT_REJECTED, None)])
                (\<lambda>_. bridge_raise (non_retryable ''Terminal candidate failed owned-history validation'')) b1
         else (case check_terminal_intent (terminal_intent_of env node cand) of
             Inl e \<Rightarrow> (Inl (validation_error e), b1)
           | Inr intent \<Rightarrow>
               append_events env w c [(TERMINAL_INTENT_ACCEPTED, None)] (b1\<lparr>br_intent := Some intent\<rparr>)))"

section \<open>Results\<close>

definition tool_result_boundary_defect ::
  "tool_execution_result \<Rightarrow> string \<Rightarrow> string \<Rightarrow> string option" where
  "tool_result_boundary_defect r call_id input_sha256 =
     (if ter_call_id r \<noteq> call_id then Some ''result call_id mismatch''
      else if ter_input_sha256 r \<noteq> input_sha256 then Some ''result input_sha256 mismatch''
      else None)"

text \<open>
  \<^verbatim>\<open>_validate_output_hash\<close>: a mismatch, or the hash of the result or else of its data, which is
  never empty.
\<close>

definition validate_output_hash :: "bridge_env \<Rightarrow> tool_execution_result \<Rightarrow> (bool \<times> string option) result" where
  "validate_output_hash env r =
     bind_result (canonical_sha256 (be_redactor env) (ter_structured_data r)) (\<lambda>computed.
     Ok (case ter_output_sha256 r of
           Some h \<Rightarrow> if h \<noteq> computed then (False, None) else (True, Some (nonempty_or computed h))
         | None \<Rightarrow> (True, Some computed)))"

definition failure_message :: "tool_execution_result \<Rightarrow> string" where
  "failure_message r =
     ''['' @ (case ter_error_code r of None \<Rightarrow> ''tool_failed'' | Some c \<Rightarrow> nonempty_or ''tool_failed'' c) @ ''] ''
       @ ter_summary r"

definition model_visible_tool_content :: "tool_execution_result \<Rightarrow> string" where
  "model_visible_tool_content r = (if ter_status r = SUCCESS then ter_summary r else failure_message r)"

definition result_details :: "tool_execution_result \<Rightarrow> string option \<Rightarrow> trace_details" where
  "result_details r output_sha256 =
     \<lparr>td_status = ter_status r, td_retryable = ter_retryable r, td_certainty = ter_side_effect_certainty r,
      td_summary = ter_summary r, td_side_effect = Some (ter_side_effect_class r),
      td_idempotency_of = Some (ter_idempotency r),
      td_detail_code = map_option ser_detail_code (ter_side_effect_record r),
      td_detail_summary = map_option ser_summary (ter_side_effect_record r),
      td_retry_allowed = map_option ser_retry_allowed (ter_side_effect_record r),
      td_output_sha256 = output_sha256, td_duration_ms = tm_duration_ms (ter_timing r)\<rparr>"

definition unknown_completion ::
  "bridge_call \<Rightarrow> string \<Rightarrow> string \<Rightarrow> string \<Rightarrow> trace_details" where
  "unknown_completion c detail_code reason summary =
     (plain_details HARD_FAILURE False COMPLETION_UNKNOWN summary)
       \<lparr>td_detail_code := Some detail_code,
        td_detail_summary := Some (cn_model_tool_name (bc_node c) @ '' side-effect completion is unknown after '' @ reason),
        td_retry_allowed := Some False\<rparr>"

text \<open>What follows a trace of a result the executor returned.\<close>

definition settle_result ::
  "bridge_env \<Rightarrow> call_world \<Rightarrow> bridge_call \<Rightarrow> tool_execution_result \<Rightarrow> selected_output option \<Rightarrow> string bridge_step" where
  "settle_result env w c r selected =
     (if ter_status r = STATUS_CANCELLED
      then then_do (append_events env w c [(EVENT_CANCELLED, ter_error_code r)])
             (\<lambda>_. bridge_raise (operation_cancelled (failure_message r)))
      else if ter_status r = STATUS_TIMED_OUT
      then then_do (append_events env w c [(EVENT_TIMED_OUT, ter_error_code r)])
             (\<lambda>_. bridge_raise (deadline_exceeded (failure_message r)))
      else if ter_status r \<noteq> SUCCESS
      then then_do (append_events env w c [(TOOL_FAILED, ter_error_code r)])
             (\<lambda>_. bridge_raise (if ter_status r = SOFT_FAILURE \<or> ter_retryable r
                then tool_resolution (failure_message r) else non_retryable (failure_message r)))
      else (\<lambda>b.
        let b1 = b\<lparr>br_successes := dict_set (br_successes b) (cn_node_id (bc_node c)) (r, bc_args c),
                   br_artifacts := foldl (\<lambda>d a. dict_set d (ar_artifact_id a) a) (br_artifacts b) (ter_artifact_refs r)\<rparr>
        in then_do (append_events env w c [(TOOL_COMPLETED, None)]) (\<lambda>_.
           then_do (case cn_terminal_result (bc_node c) of
               None \<Rightarrow> bridge_return ()
             | Some t \<Rightarrow> accept_terminal_candidate env w c t r selected) (\<lambda>_.
           bridge_return (model_visible_tool_content r))) b1))"

definition record_tool_result ::
  "bridge_env \<Rightarrow> call_world \<Rightarrow> bridge_call \<Rightarrow> string \<Rightarrow> tool_execution_result \<Rightarrow> selected_output option \<Rightarrow>
   string bridge_step" where
  "record_tool_result env w c input_sha256 r selected =
     (case tool_result_boundary_defect r (bc_call_id c) input_sha256 of
        Some defect \<Rightarrow>
          close_call env w c ((unknown_completion c ''binding_completion_unknown'' ''result boundary defect''
              (''tool binding defect: '' @ defect))\<lparr>td_duration_ms := tm_duration_ms (ter_timing r)\<rparr>)
            [(TOOL_FAILED, Some ''binding_defect'')] (non_retryable (''Tool '' @ defect))
      | None \<Rightarrow>
          then_do (attempt (validate_output_hash env r)) (\<lambda>(matches, output_sha256).
          if \<not> matches
          then close_call env w c ((unknown_completion c ''output_hash_completion_unknown'' ''output hash mismatch''
              ''tool binding defect: output_sha256 mismatch'')
                \<lparr>td_output_sha256 := ter_output_sha256 r, td_duration_ms := tm_duration_ms (ter_timing r)\<rparr>)
            [(TOOL_FAILED, Some ''output_hash_mismatch'')]
            (non_retryable ''Tool result output_sha256 did not match safe output'')
          else then_do (append_trace env w c (result_details r output_sha256)) (\<lambda>_.
               settle_result env w c r selected)))"

section \<open>A call\<close>

text \<open>
  The candidate of a terminal call: it is admitted against the requirement of the terminal result,
  or must be absent; what the tool is run with is the arguments without it.
\<close>

definition requirement_of :: "bridge_env \<Rightarrow> compiled_harness_node \<Rightarrow> selected_output_requirement option" where
  "requirement_of env node =
     (case cn_terminal_result node of None \<Rightarrow> None | Some t \<Rightarrow> map_of (be_requirements env) t)"

definition admit_candidate ::
  "bridge_env \<Rightarrow> compiled_harness_node \<Rightarrow> (string \<times> json) list \<Rightarrow> selected_output option result" where
  "admit_candidate env node args =
     (if cn_terminal_result node = None then Ok None
      else (case requirement_of env node of
          None \<Rightarrow>
            if has_key args ''candidate''
            then Raise (ValueError ''selected output candidate is not allowed for this terminal result'')
            else Ok None
        | Some requirement \<Rightarrow>
            bind_result (admit_selected_output (be_output env) requirement (has_key args ''candidate'')
              (jget_or_null args ''candidate'')) (\<lambda>s. Ok (Some s))))"

definition execution_arguments ::
  "bridge_env \<Rightarrow> compiled_harness_node \<Rightarrow> (string \<times> json) list \<Rightarrow> (string \<times> json) list" where
  "execution_arguments env node args =
     (if requirement_of env node = None then args else filter (\<lambda>(k, v). k \<noteq> ''candidate'') args)"

text \<open>
  The executor is called inside \<^verbatim>\<open>except Exception\<close>: an \<open>exception_info\<close> is an instance of that
  class. One that is not (\<^verbatim>\<open>asyncio.CancelledError\<close>, \<^verbatim>\<open>KeyboardInterrupt\<close>) ends the task that runs
  the session, and nothing here speaks of it.
\<close>

definition run_tool ::
  "bridge_env \<Rightarrow> call_world \<Rightarrow> bridge_call \<Rightarrow> selected_output option \<Rightarrow> string bridge_step" where
  "run_tool env w c selected b =
     (let node = bc_node c; args = execution_arguments env node (bc_args c) in
      then_do (attempt (canonical_sha256 (be_redactor env) (JObj args))) (\<lambda>input_sha256 b1.
      case cw_execute w \<lparr>ec_call_id = bc_call_id c, ec_node_id = cn_node_id node,
          ec_tool_name = cn_model_tool_name node, ec_binding = cn_binding node, ec_arguments = args,
          ec_prerequisite_results = map (\<lambda>(i, r, a). (i, r)) (br_successes b1)\<rparr> of
        Inl e \<Rightarrow>
          close_call env w c (unknown_completion c ''implementation_completion_unknown'' ''implementation exception''
              (''tool implementation defect: '' @ (case exc_classes e of [] \<Rightarrow> ''Exception'' | k # _ \<Rightarrow> k)))
            [(TOOL_FAILED, Some ''implementation_defect'')] e b1
      | Inr r \<Rightarrow> record_tool_result env w c input_sha256 r selected b1) b)"

definition reason_or :: "string \<Rightarrow> string option \<Rightarrow> string" where
  "reason_or other reason = (case reason of None \<Rightarrow> other | Some r \<Rightarrow> nonempty_or other r)"

definition admitted_call :: "bridge_env \<Rightarrow> call_world \<Rightarrow> bridge_call \<Rightarrow> string bridge_step" where
  "admitted_call env w c =
     (if cw_cancelled w
      then close_call env w c (plain_details STATUS_CANCELLED False NOT_ATTEMPTED
             (reason_or ''tool call cancelled'' (cw_reason w)))
           [(EVENT_CANCELLED, None)] (operation_cancelled (reason_or ''tool call cancelled'' (cw_reason w)))
      else if remaining (gsr_deadline (be_request env)) (cw_now w) \<le> 0
      then close_call env w c (plain_details STATUS_TIMED_OUT False NOT_ATTEMPTED ''tool call deadline expired'')
           [(EVENT_TIMED_OUT, None)] (deadline_exceeded ''tool call deadline expired'')
      else (case admit_candidate env (bc_node c) (bc_args c) of
          Inl (ValueError m) \<Rightarrow>
            close_call env w c (plain_details NOT_EXECUTED True NOT_ATTEMPTED ''selected output candidate rejected'')
              [(TERMINAL_INTENT_REJECTED, Some ''selected_output_invalid''), (CORRECTION_ISSUED, Some ''selected_output_invalid'')]
              (tool_resolution m)
        | Inl e \<Rightarrow> bridge_raise (python_error e)
        | Inr selected \<Rightarrow> run_tool env w c selected))"

definition node_of_tool :: "bridge_env \<Rightarrow> string \<Rightarrow> compiled_harness_node option" where
  "node_of_tool env tool =
     map_of (foldl (\<lambda>d n. dict_set d (cn_model_tool_name n) n) [] (plan_nodes (be_plan env))) tool"

definition decided_call ::
  "bridge_env \<Rightarrow> call_world \<Rightarrow> compiled_harness_node \<Rightarrow> string \<Rightarrow> (string \<times> json) list \<Rightarrow> string \<Rightarrow> tool_bridge \<Rightarrow> bridge_call" where
  "decided_call env w node call_id args input_sha256 b =
     \<lparr>bc_node = node, bc_call_id = call_id, bc_args = args, bc_input_sha256 = input_sha256,
      bc_prerequisites = prerequisite_decisions b node args,
      bc_capabilities = capability_decisions env w node\<rparr>"

definition started_call ::
  "bridge_env \<Rightarrow> call_world \<Rightarrow> compiled_harness_node \<Rightarrow> string \<Rightarrow> (string \<times> json) list \<Rightarrow> string \<Rightarrow> string bridge_step" where
  "started_call env w node call_id args input_sha256 b =
     (let c = decided_call env w node call_id args input_sha256 b
      in if has_denial (bc_prerequisites c @ bc_capabilities c)
         then close_call env w c (plain_details NOT_EXECUTED False NOT_ATTEMPTED ''tool rejected before execution'')
                [(PREREQUISITE_REJECTED, None)]
                (tool_resolution ''Tool prerequisites or capabilities are not satisfied'') b
         else admitted_call env w c b)"

definition bridge_invoke ::
  "bridge_env \<Rightarrow> call_world \<Rightarrow> string \<Rightarrow> (string \<times> json) list \<Rightarrow> string option \<Rightarrow> string bridge_step" where
  "bridge_invoke env w tool args call_id b =
     (case node_of_tool env tool of
        None \<Rightarrow> (Inl (non_retryable (''Tool '' @ py_repr tool @ '' is outside compiled plan'')), b)
      | Some node \<Rightarrow>
          (case resolve_call_id call_id b of (cid, b1) \<Rightarrow>
           then_do (attempt (canonical_sha256 (be_redactor env) (JObj args))) (\<lambda>input_sha256.
           then_do (append_event env w TOOL_STARTED (cn_node_id node) cid None) (\<lambda>_.
           started_call env w node cid args input_sha256)) b1))"

text \<open>
  The call of the loop: \<^verbatim>\<open>dict(arguments)\<close> of what need not be a dictionary, then the bridge. A pair
  whose key is not a string is refused here, where \<^verbatim>\<open>dict\<close> would take a hashable one.
\<close>

definition dict_pair :: "json \<Rightarrow> (string \<times> json) result" where
  "dict_pair x =
     (case x of
        JArr [JStr k, v] \<Rightarrow> Ok (k, v)
      | JStr [a, b] \<Rightarrow> Ok ([a], JStr [b])
      | JObj [(k, _), (k', _)] \<Rightarrow> Ok (k, JStr k')
      | _ \<Rightarrow> Raise (ValueError ''dictionary update sequence element has the wrong length''))"

definition dict_of :: "json \<Rightarrow> (string \<times> json) list result" where
  "dict_of v =
     (case v of
        JObj kvs \<Rightarrow> Ok kvs
      | JArr xs \<Rightarrow> bind_result (traverse dict_pair xs) (\<lambda>ps. Ok (foldl (\<lambda>d (k, w). dict_set d k w) [] ps))
      | JStr s \<Rightarrow>
          if s = [] then Ok []
          else Raise (ValueError ''dictionary update sequence element #0 has length 1; 2 is required'')
      | _ \<Rightarrow> Raise (TypeErr (quoted (type_name v) @ '' object is not iterable'')))"

definition bridge_call_tool :: "bridge_env \<Rightarrow> call_world \<Rightarrow> tool_call \<Rightarrow> string bridge_step" where
  "bridge_call_tool env w tc b =
     (if node_of_tool env (tc_tool tc) = None
      then bridge_invoke env w (tc_tool tc) [] (tc_call_id tc) b
      else then_do (attempt (dict_of (tc_args tc))) (\<lambda>args. bridge_invoke env w (tc_tool tc) args (tc_call_id tc)) b)"

definition outcome_of_call :: "exception_info + string \<Rightarrow> tool_outcome" where
  "outcome_of_call r = (case r of Inl e \<Rightarrow> tool_exception e | Inr s \<Rightarrow> Tool_Returned (JStr s))"

text \<open>Code equations over the cases of a step, which evaluate its first part before the second is looked at.\<close>

lemmas bridge_code [code] =
  close_call_def [THEN fun_cong, unfolded then_do_def]
  append_events.simps [THEN fun_cong, unfolded then_do_def]
  accept_terminal_candidate_def [unfolded then_do_def]
  settle_result_def [THEN fun_cong, unfolded then_do_def if_distribR]
  record_tool_result_def [THEN fun_cong, unfolded then_do_def]
  run_tool_def [unfolded then_do_def]
  bridge_invoke_def [unfolded then_do_def]
  bridge_call_tool_def [unfolded then_do_def]

section \<open>Invariants of the bridge\<close>

text \<open>
  A step keeps a property of the state when the state it leaves has it, whether it returned or
  raised. The rules follow the way steps are put together.
\<close>

named_theorems kept_intros

definition keeps :: "(tool_bridge \<Rightarrow> bool) \<Rightarrow> 'a bridge_step \<Rightarrow> bool" where
  "keeps holds f \<longleftrightarrow> (\<forall>b. holds b \<longrightarrow> holds (snd (f b)))"

lemma keepsI: "(\<And>b. holds b \<Longrightarrow> holds (snd (f b))) \<Longrightarrow> keeps holds f"
  by (simp add: keeps_def)

lemma keepsD: "keeps holds f \<Longrightarrow> holds b \<Longrightarrow> holds (snd (f b))"
  by (simp add: keeps_def)

lemma then_do_kept:
  "holds (snd (f b)) \<Longrightarrow> (\<And>x b'. f b = (Inr x, b') \<Longrightarrow> holds b' \<Longrightarrow> holds (snd (g x b'))) \<Longrightarrow>
   holds (snd (then_do f g b))"
  by (auto simp: then_do_def split: prod.splits sum.splits)

lemma keeps_then_do [kept_intros]: "keeps holds f \<Longrightarrow> (\<And>x. keeps holds (g x)) \<Longrightarrow> keeps holds (then_do f g)"
  by (rule keepsI, rule then_do_kept [where holds = holds]) (simp_all add: keeps_def)

lemma keeps_return [kept_intros]: "keeps holds (bridge_return x)"
  by (simp add: keeps_def bridge_return_def)

lemma keeps_raise [kept_intros]: "keeps holds (bridge_raise e)"
  by (simp add: keeps_def bridge_raise_def)

lemma attempt_state: "snd (attempt q b) = b" "attempt q b = (Inr x, b') \<Longrightarrow> b' = b \<and> q = Inr x"
  by (auto simp: attempt_def split: sum.splits)

lemma then_do_attempt [simp]: "then_do (attempt (Inr x)) f b = f x b"
  by (simp add: then_do_def attempt_def)

lemma keeps_attempt [kept_intros]: "keeps holds (attempt q)"
  by (simp add: keeps_def attempt_state)

lemma check_passed: "bind_result q (\<lambda>_. q') = Inr u \<Longrightarrow> q' = Inr u"
  by (cases q) auto

lemma check_terminal_intent_same: "check_terminal_intent t = Inr u \<Longrightarrow> u = t"
  unfolding check_terminal_intent_def by (drule check_passed)+ simp

lemma check_trace_same: "check_tool_trace_record t = Inr u \<Longrightarrow> u = t"
  unfolding check_tool_trace_record_def by (drule check_passed)+ simp

lemma check_event_same: "check_session_event e = Inr u \<Longrightarrow> u = e"
  unfolding check_session_event_def by (drule check_passed)+ simp

lemma check_result_same: "check_tool_execution_result r = Inr u \<Longrightarrow> u = r"
  unfolding check_tool_execution_result_def by (drule check_passed)+ simp

lemma append_trace_Inr:
  "append_trace env w c d b = (Inr u, b') \<Longrightarrow> b' = b\<lparr>br_trace := br_trace b @ [call_trace env w c d b]\<rparr>"
  by (auto simp: append_trace_def split: sum.splits dest: check_trace_same)

lemma node_of_tool_in_plan:
  assumes "node_of_tool env tool = Some node"
  shows "node \<in> set (plan_nodes (be_plan env))"
proof -
  have "n \<in> snd ` set d \<or> n \<in> set ns"
    if "map_of (foldl (\<lambda>d n. dict_set d (cn_model_tool_name n) n) d ns) t = Some n"
    for t n d and ns :: "compiled_harness_node list"
    using that
  proof (induction ns arbitrary: d)
    case Nil
    then show ?case by (force dest: map_of_SomeD)
  next
    case (Cons m ns)
    from Cons.IH Cons.prems have "n \<in> snd ` set (dict_set d (cn_model_tool_name m) m) \<or> n \<in> set ns" by simp
    moreover have "snd ` set (dict_set d k v) \<subseteq> insert v (snd ` set d)" for k and v :: compiled_harness_node
      by (induction d k v rule: dict_set.induct) auto
    ultimately show ?case by auto
  qed
  from this [of "[]"] assms show ?thesis by (auto simp: node_of_tool_def)
qed

text \<open>A trace record of a success of the call's node that no decision denied.\<close>

definition traces_success :: "compiled_harness_node \<Rightarrow> tool_trace_record \<Rightarrow> bool" where
  "traces_success node t \<longleftrightarrow> tr_execution_status t = SUCCESS \<and> tr_node_id t = cn_node_id node
     \<and> \<not> has_denial (tr_prerequisite_decisions t @ tr_capability_decisions t)"

text \<open>
  What a property of the bridge has to be kept by to be kept by what the bridge records, and by a
  whole call: the elementary changes of the state, with what the bridge has established when it
  makes them.
\<close>

locale bridge_recording =
  fixes env :: bridge_env and holds :: "tool_bridge \<Rightarrow> bool"
  assumes event: "keeps holds (append_event env w kind n cid code)"
    and trace: "keeps holds (append_trace env w c d)"
begin

lemma events: "keeps holds (append_events env w c evs)"
  by (induction evs) (auto intro!: kept_intros event)

lemma closing: "keeps holds (close_call env w c d evs e)"
  unfolding close_call_def by (intro kept_intros trace events)

end

locale bridge_invariant = bridge_recording +
  assumes counter: "holds b \<Longrightarrow> holds (b\<lparr>br_call_counter := k\<rparr>)"
    and success: "holds b \<Longrightarrow> list_ex (traces_success node) (br_trace b) \<Longrightarrow>
      holds (b\<lparr>br_successes := dict_set (br_successes b) (cn_node_id node) (r, args),
        br_artifacts := foldl (\<lambda>d a. dict_set d (ar_artifact_id a) a) (br_artifacts b) (ter_artifact_refs r)\<rparr>)"
    and candidate: "holds b \<Longrightarrow> holds (b\<lparr>br_candidate := cand\<rparr>)"
    and intent: "holds b \<Longrightarrow> node \<in> set (plan_nodes (be_plan env)) \<Longrightarrow> cn_terminal_result node = Some t \<Longrightarrow>
      admit_candidate env node args = Inr selected \<Longrightarrow> missing_required env b = [] \<Longrightarrow>
      missing_artifacts env t b = [] \<Longrightarrow> map_of (plan_terminal_result_map (be_plan env)) (cn_node_id node) = Some t \<Longrightarrow>
      check_terminal_intent (terminal_intent_of env node (terminal_candidate_of env node t cid r selected b)) = Inr i \<Longrightarrow>
      holds (b\<lparr>br_intent := Some i\<rparr>)"
begin

lemma accepting:
  assumes node: "bc_node c \<in> set (plan_nodes (be_plan env))" "cn_terminal_result (bc_node c) = Some t"
    and admitted: "admit_candidate env (bc_node c) args = Inr selected"
  shows "keeps holds (accept_terminal_candidate env w c t r selected)"
proof (rule keepsI)
  fix b assume b: "holds b"
  let ?cand = "terminal_candidate_of env (bc_node c) t (bc_call_id c) r selected b"
  let ?b1 = "b\<lparr>br_candidate := Some ?cand\<rparr>"
  have b1: "holds ?b1" by (rule candidate [OF b])
  have same: "terminal_candidate_of env (bc_node c) t (bc_call_id c) r selected ?b1 = ?cand"
    by (simp add: terminal_candidate_of_def)
  have refused: "holds (snd (then_do (append_events env w c evs) (\<lambda>_. bridge_raise e :: unit bridge_step) ?b1))" for evs e
    by (intro keepsD [of holds] kept_intros events b1)
  have accepted: "holds (snd (append_events env w c evs (?b1\<lparr>br_intent := Some i\<rparr>)))"
    if "check_terminal_intent (terminal_intent_of env (bc_node c) ?cand) = Inr i"
      "missing_required env ?b1 = []" "missing_artifacts env t ?b1 = []"
      "map_of (plan_terminal_result_map (be_plan env)) (cn_node_id (bc_node c)) = Some t" for i evs
    by (rule keepsD [of holds, OF events intent [OF b1 node admitted that(2-4), where r = r and cid = "bc_call_id c"]]) (simp only: same that(1))
  show "holds (snd (accept_terminal_candidate env w c t r selected b))"
    using b1 refused accepted
    by (simp add: accept_terminal_candidate_def Let_def split: sum.split del: append_events.simps)
qed

lemma settling:
  assumes node: "bc_node c \<in> set (plan_nodes (be_plan env))"
    and admitted: "admit_candidate env (bc_node c) (bc_args c) = Inr selected"
    and traced: "ter_status r = SUCCESS \<Longrightarrow> list_ex (traces_success (bc_node c)) (br_trace b)"
    and b: "holds b"
  shows "holds (snd (settle_result env w c r selected b))"
proof -
  have owned: "keeps holds (then_do (append_events env w c evs) (\<lambda>_.
      then_do (case cn_terminal_result (bc_node c) of None \<Rightarrow> bridge_return ()
        | Some t \<Rightarrow> accept_terminal_candidate env w c t r selected) (\<lambda>_. bridge_return s :: string bridge_step)))" for evs s
    by (intro kept_intros events) (auto split: option.split intro: kept_intros accepting [OF node _ admitted])
  have failed: "keeps holds (then_do (append_events env w c evs) (\<lambda>_. bridge_raise e :: string bridge_step))" for evs e
    by (intro kept_intros events)
  show ?thesis
    using keepsD [of holds, OF failed b] keepsD [of holds, OF owned success [OF b traced]]
    by (simp add: settle_result_def Let_def del: append_events.simps)
qed

lemma recording:
  assumes node: "bc_node c \<in> set (plan_nodes (be_plan env))"
    and admitted: "admit_candidate env (bc_node c) (bc_args c) = Inr selected"
    and allowed: "\<not> has_denial (bc_prerequisites c @ bc_capabilities c)"
  shows "keeps holds (record_tool_result env w c h r selected)"
proof -
  have "keeps holds (then_do (append_trace env w c (result_details r out)) (\<lambda>_. settle_result env w c r selected))"
    for out
  proof (rule keepsI, rule then_do_kept [where holds = holds])
    fix b assume "holds b"
    then show "holds (snd (append_trace env w c (result_details r out) b))" by (rule keepsD [of holds, OF trace])
  next
    fix b u b1
    assume run: "append_trace env w c (result_details r out) b = (Inr u, b1)" and "holds b1"
    have "list_ex (traces_success (bc_node c)) (br_trace b1)" if "ter_status r = SUCCESS"
      using append_trace_Inr [OF run] that allowed
      by (simp add: traces_success_def call_trace_def result_details_def Let_def)
    then show "holds (snd (settle_result env w c r selected b1))"
      using settling [OF node admitted _ \<open>holds b1\<close>] by blast
  qed
  then show ?thesis
    unfolding record_tool_result_def
    by (auto split: option.split intro!: kept_intros closing)
qed

lemma running:
  assumes "bc_node c \<in> set (plan_nodes (be_plan env))"
    and "admit_candidate env (bc_node c) (bc_args c) = Inr selected"
    and "\<not> has_denial (bc_prerequisites c @ bc_capabilities c)"
  shows "keeps holds (run_tool env w c selected)"
proof (rule keepsI)
  fix b assume b: "holds b"
  show "holds (snd (run_tool env w c selected b))"
    unfolding run_tool_def Let_def
    by (rule then_do_kept [where holds = holds]) (auto simp: b attempt_state keepsD [of holds, OF closing] keepsD [of holds, OF recording [OF assms]] split: sum.split)
qed

lemma admitting:
  assumes "bc_node c \<in> set (plan_nodes (be_plan env))"
    and "\<not> has_denial (bc_prerequisites c @ bc_capabilities c)"
  shows "keeps holds (admitted_call env w c)"
  unfolding admitted_call_def
  by (rule keepsI) (auto simp: bridge_raise_def keepsD [of holds, OF closing]
    keepsD [of holds, OF running [OF assms(1) _ assms(2)]] split: sum.split py_error.split)

text \<open>A whole call keeps the property.\<close>

lemma starting:
  assumes "node \<in> set (plan_nodes (be_plan env))"
  shows "keeps holds (started_call env w node call_id args h)"
proof (rule keepsI)
  fix b assume b: "holds b"
  have "bc_node (decided_call env w node call_id args h b) = node" by (simp add: decided_call_def)
  then show "holds (snd (started_call env w node call_id args h b))"
    using assms by (simp add: started_call_def Let_def keepsD [of holds, OF closing b] keepsD [of holds, OF admitting b])
qed

lemma invoking: "keeps holds (bridge_invoke env w tool args call_id)"
proof (rule keepsI)
  fix b assume b: "holds b"
  show "holds (snd (bridge_invoke env w tool args call_id b))"
  proof (cases "node_of_tool env tool")
    case None
    then show ?thesis using b by (simp add: bridge_invoke_def)
  next
    case (Some node)
    obtain cid b1 where call: "resolve_call_id call_id b = (cid, b1)" by force
    then have "holds b1" using b counter by (auto simp: resolve_call_id_def split: option.splits)
    then show ?thesis
      unfolding bridge_invoke_def Some option.case call prod.case
      by (rule keepsD [of holds, rotated]) (intro kept_intros event starting node_of_tool_in_plan [OF Some])
  qed
qed

lemma calling: "keeps holds (bridge_call_tool env w tc)"
proof (rule keepsI)
  fix b assume "holds b"
  then show "holds (snd (bridge_call_tool env w tc b))"
    unfolding bridge_call_tool_def
    by (auto intro!: keepsD [of holds] kept_intros invoking)
qed

end

end
