(* ===== verification/Model_Bridge.thy ===== *)
theory Model_Bridge
  imports Tool_Bridge
begin

text \<open>
  The model side of a session: the messages, requests and responses of \<^verbatim>\<open>contracts.py\<close>, and
  \<^verbatim>\<open>ForgeModelBridge\<close> and \<^verbatim>\<open>ForgeEventTranslator\<close> of \<^verbatim>\<open>_forge/adapter.py\<close>, which turn what
  the loop sends into a validated request and what the client answers into tool calls or a text.
  The client is a parameter. An exception is an \<open>exception_info\<close>; a \<^verbatim>\<open>BaseException\<close> that is not an
  \<^verbatim>\<open>Exception\<close>, which would end the task, is not modelled.
\<close>

section \<open>Messages and calls\<close>

datatype tool_arguments = Parsed_Arguments "(string \<times> json) list" | Invalid_Arguments json string

record model_tool_call =
  mtc_call_id :: string
  mtc_name :: string
  mtc_arguments :: tool_arguments

definition check_tool_arguments :: "tool_arguments \<Rightarrow> tool_arguments result" where
  "check_tool_arguments a =
     (case a of
        Parsed_Arguments kvs \<Rightarrow> Ok a
      | Invalid_Arguments raw code \<Rightarrow> bind_result (nonblank_field code ''error_code'') (\<lambda>_. Ok a))"

definition check_model_tool_call :: "model_tool_call \<Rightarrow> model_tool_call result" where
  "check_model_tool_call c =
     bind_result (check_tool_arguments (mtc_arguments c)) (\<lambda>_.
     bind_result (nonblank_field (mtc_call_id c) ''call_id'') (\<lambda>_.
     bind_result (nonblank_field (mtc_name c) ''name'') (\<lambda>_. Ok c)))"

datatype model_message =
    System_Message string
  | User_Message string
  | Assistant_Message "string option" "model_tool_call list" "string option"
  | Tool_Result_Message string string string

fun role_of_message :: "model_message \<Rightarrow> string" where
  "role_of_message (System_Message _) = ''system''"
| "role_of_message (User_Message _) = ''user''"
| "role_of_message (Assistant_Message _ _ _) = ''assistant''"
| "role_of_message (Tool_Result_Message _ _ _) = ''tool''"

fun message_content :: "model_message \<Rightarrow> string option" where
  "message_content (System_Message c) = Some c"
| "message_content (User_Message c) = Some c"
| "message_content (Assistant_Message c _ _) = c"
| "message_content (Tool_Result_Message _ _ c) = Some c"

fun assistant_calls :: "model_message \<Rightarrow> model_tool_call list" where
  "assistant_calls (Assistant_Message _ calls _) = calls"
| "assistant_calls _ = []"

text \<open>The calls of an assistant message are objects that were checked when they were built.\<close>

fun check_model_message :: "model_message \<Rightarrow> model_message result" where
  "check_model_message (System_Message c) = bind_result (nonblank_field c ''content'') (\<lambda>_. Ok (System_Message c))"
| "check_model_message (User_Message c) = bind_result (nonblank_field c ''content'') (\<lambda>_. Ok (User_Message c))"
| "check_model_message (Assistant_Message c calls r) =
     bind_result (optional_nonblank c ''content'') (\<lambda>_.
     bind_result (optional_nonblank r ''reasoning_content'') (\<lambda>_.
     bind_result (unique_field (map mtc_call_id calls) ''assistant call_id'') (\<lambda>_.
     bind_result (require (c \<noteq> None \<or> calls \<noteq> []) ''assistant message requires content or tool_calls'') (\<lambda>_.
     Ok (Assistant_Message c calls r)))))"
| "check_model_message (Tool_Result_Message i n c) =
     bind_result (nonblank_field i ''tool_call_id'') (\<lambda>_.
     bind_result (nonblank_field n ''tool_name'') (\<lambda>_.
     bind_result (nonblank_field c ''content'') (\<lambda>_. Ok (Tool_Result_Message i n c))))"

record model_tool_definition =
  mtd_name :: string
  mtd_description :: string
  mtd_input_schema :: "(string \<times> json) list"

definition check_model_tool_definition :: "model_tool_definition \<Rightarrow> model_tool_definition result" where
  "check_model_tool_definition d =
     bind_result (nonblank_field (mtd_name d) ''name'') (\<lambda>_.
     bind_result (nonblank_field (mtd_description d) ''description'') (\<lambda>_. Ok d))"

section \<open>Requests and responses\<close>

text \<open>The required capabilities and the sampling overrides of a request stay at their defaults.\<close>

record model_completion_request =
  mcr_request_id :: string
  mcr_run_id :: string
  mcr_model_profile_id :: string
  mcr_messages :: "model_message list"
  mcr_tools :: "model_tool_definition list"
  mcr_maximum_output_tokens :: "int option"
  mcr_request_options :: "(string \<times> json) list"
  mcr_deadline :: deadline
  mcr_cancellation_id :: string
  mcr_secret_refs :: "secret_ref list"

definition protected_options :: "string list" where
  "protected_options = [''model'', ''messages'', ''tools'', ''stream'', ''endpoint'', ''authentication'', ''timeout'',
     ''headers'', ''host'', ''content_type'', ''user_agent'', ''max_tokens'', ''maximum_output_tokens'',
     ''temperature'', ''top_p'', ''presence_penalty'', ''frequency_penalty'', ''seed'', ''stop'']"

text \<open>
  The pairing of calls and answers: \<open>pending\<close> are the calls seen so far with their tools, \<open>answered\<close>
  the identifiers that have an answer.
\<close>

fun register_calls ::
  "(string \<times> string) list \<Rightarrow> string list \<Rightarrow> model_tool_call list \<Rightarrow> (string \<times> string) list result" where
  "register_calls pending answered [] = Ok pending"
| "register_calls pending answered (c # calls) =
     (if mtc_call_id c \<in> set (keys pending) \<or> mtc_call_id c \<in> set answered
      then Raise (ValueError ''assistant tool-call IDs must be unique'')
      else register_calls (dict_set pending (mtc_call_id c) (mtc_name c)) answered calls)"

fun check_pairing :: "(string \<times> string) list \<Rightarrow> string list \<Rightarrow> model_message list \<Rightarrow> unit result" where
  "check_pairing pending answered [] = Ok ()"
| "check_pairing pending answered (m # ms) =
     (case m of
        Assistant_Message c calls r \<Rightarrow>
          bind_result (register_calls pending answered calls) (\<lambda>pending'. check_pairing pending' answered ms)
      | Tool_Result_Message i n c \<Rightarrow>
          (case map_of pending i of
             None \<Rightarrow> Raise (ValueError ''tool-result message has no matching tool call'')
           | Some tool \<Rightarrow>
               if n \<noteq> tool then Raise (ValueError ''tool-result message tool_name does not match'')
               else if i \<in> set answered then Raise (ValueError ''tool-result message duplicates a tool call'')
               else check_pairing pending (i # answered) ms)
      | _ \<Rightarrow> check_pairing pending answered ms)"

definition request_invariants :: "model_completion_request \<Rightarrow> unit result" where
  "request_invariants r =
     bind_result (case filter (\<lambda>o'. o' \<in> set protected_options) (keys (mcr_request_options r)) of
         [] \<Rightarrow> Ok ()
       | o' # _ \<Rightarrow> Raise (ValueError (''request option '' @ py_repr o' @ '' is protected''))) (\<lambda>_.
     bind_result (unique_field (map mtd_name (mcr_tools r)) ''tool name'') (\<lambda>_.
     bind_result (unique_field (map sr_secret_id (mcr_secret_refs r)) ''secret_id'') (\<lambda>_.
     check_pairing [] [] (mcr_messages r))))"

definition check_model_completion_request :: "model_completion_request \<Rightarrow> model_completion_request result" where
  "check_model_completion_request r =
     bind_result (nonblank_field (mcr_request_id r) ''request_id'') (\<lambda>_.
     bind_result (nonblank_field (mcr_run_id r) ''run_id'') (\<lambda>_.
     bind_result (nonblank_field (mcr_model_profile_id r) ''model_profile_id'') (\<lambda>_.
     bind_result (require (case mcr_maximum_output_tokens r of None \<Rightarrow> True | Some n \<Rightarrow> 0 < n)
       ''maximum_output_tokens_override must be greater than 0'') (\<lambda>_.
     bind_result (request_invariants r) (\<lambda>_. Ok r)))))"

text \<open>The metadata of the provider, which the bridge does not read, are left out.\<close>

record model_completion_response =
  rsp_provider_request_id :: "string option"
  rsp_model_id :: string
  rsp_content :: "string option"
  rsp_tool_calls :: "model_tool_call list"
  rsp_reasoning_content :: "string option"
  rsp_finish_reason :: string
  rsp_usage :: "token_usage option"

definition check_model_completion_response :: "model_completion_response \<Rightarrow> model_completion_response result" where
  "check_model_completion_response r =
     bind_result (traverse check_model_tool_call (rsp_tool_calls r)) (\<lambda>_.
     bind_result (check_model_message (Assistant_Message (rsp_content r) (rsp_tool_calls r) (rsp_reasoning_content r))) (\<lambda>_.
     bind_result (case rsp_usage r of None \<Rightarrow> Ok () | Some u \<Rightarrow> bind_result (check_token_usage u) (\<lambda>_. Ok ())) (\<lambda>_.
     bind_result (optional_nonblank (rsp_provider_request_id r) ''provider_request_id'') (\<lambda>_.
     bind_result (nonblank_field (rsp_model_id r) ''model_id'') (\<lambda>_.
     bind_result (require (rsp_tool_calls r = [] \<or> rsp_finish_reason r = ''tool_calls'')
       ''tool call responses require finish_reason=tool_calls'') (\<lambda>_. Ok r))))))"

section \<open>Private messages\<close>

text \<open>
  The loop hands the bridge dictionaries. \<open>type_error\<close> is a failed validation of a class,
  \<open>py_text\<close> is \<^verbatim>\<open>str(v)\<close>, \<open>py_text_or\<close> is \<^verbatim>\<open>str(v or other)\<close> for a value that may be missing.
\<close>

definition as_validation :: "'a result \<Rightarrow> exception_info + 'a" where
  "as_validation r = (case r of Inl e \<Rightarrow> Inl (validation_error e) | Inr x \<Rightarrow> Inr x)"

definition as_python :: "'a result \<Rightarrow> exception_info + 'a" where
  "as_python r = (case r of Inl e \<Rightarrow> Inl (python_error e) | Inr x \<Rightarrow> Inr x)"

definition forge_bridge_error :: "string \<Rightarrow> exception_info" where
  "forge_bridge_error message = exception_of [''ForgeBridgeError'', ''ValueError''] message"

definition forge_binding_rejected :: "string \<Rightarrow> exception_info" where
  "forge_binding_rejected message = exception_of [''ForgeBindingRejectedError'', ''ValueError''] message"

definition py_text :: "(rat \<Rightarrow> string) \<Rightarrow> json \<Rightarrow> string" where
  "py_text fr v = (case v of JStr s \<Rightarrow> s | _ \<Rightarrow> value_repr fr v)"

definition or_value :: "json option \<Rightarrow> json \<Rightarrow> json" where
  "or_value v other = (case v of Some w \<Rightarrow> if truthy w then w else other | None \<Rightarrow> other)"

definition py_text_or :: "(rat \<Rightarrow> string) \<Rightarrow> json option \<Rightarrow> string \<Rightarrow> string" where
  "py_text_or fr v other = py_text fr (or_value v (JStr other))"

text \<open>Iterating over a value: the items of a list, the keys of a dictionary, the characters of a text.\<close>

definition py_items :: "json \<Rightarrow> json list result" where
  "py_items v =
     (case v of
        JArr xs \<Rightarrow> Ok xs
      | JObj kvs \<Rightarrow> Ok (map JStr (keys kvs))
      | JStr s \<Rightarrow> Ok (map (\<lambda>c. JStr [c]) s)
      | _ \<Rightarrow> Raise (TypeErr (quoted (type_name v) @ '' object is not iterable'')))"

definition members_of :: "json \<Rightarrow> (string \<times> json) list result" where
  "members_of v =
     (case v of JObj kvs \<Rightarrow> Ok kvs
      | _ \<Rightarrow> Raise (AttributeErr (quoted (type_name v) @ '' object has no attribute get'')))"

definition tool_arguments_from_private :: "(string \<Rightarrow> string + json) \<Rightarrow> json \<Rightarrow> tool_arguments" where
  "tool_arguments_from_private loads v =
     (case v of
        JObj kvs \<Rightarrow> Parsed_Arguments kvs
      | JStr s \<Rightarrow>
          (case loads s of
             Inl _ \<Rightarrow> Invalid_Arguments v ''invalid_json''
           | Inr (JObj kvs) \<Rightarrow> Parsed_Arguments kvs
           | Inr _ \<Rightarrow> Invalid_Arguments v ''invalid_arguments'')
      | _ \<Rightarrow> Invalid_Arguments v ''invalid_arguments'')"

definition call_from_private ::
  "(rat \<Rightarrow> string) \<Rightarrow> (string \<Rightarrow> string + json) \<Rightarrow> nat \<Rightarrow> json \<Rightarrow> exception_info + model_tool_call" where
  "call_from_private fr loads index raw =
     (let function = (case raw of
            JObj kvs \<Rightarrow> (case jget kvs ''function'' of None \<Rightarrow> JObj [] | Some f \<Rightarrow> f) | _ \<Rightarrow> JObj [])
      in bind_result (as_python (members_of function)) (\<lambda>f.
         bind_result (as_python (members_of raw)) (\<lambda>call.
         as_validation (check_model_tool_call
           \<lparr>mtc_call_id = py_text_or fr (jget call ''id'') (''private_'' @ call_id_text index),
            mtc_name = (case jget f ''name'' of None \<Rightarrow> [] | Some n \<Rightarrow> py_text fr n),
            mtc_arguments = tool_arguments_from_private loads
              (case jget f ''arguments'' of None \<Rightarrow> JObj [] | Some a \<Rightarrow> a)\<rparr>))))"

fun calls_from_private ::
  "(rat \<Rightarrow> string) \<Rightarrow> (string \<Rightarrow> string + json) \<Rightarrow> nat \<Rightarrow> json list \<Rightarrow> exception_info + model_tool_call list" where
  "calls_from_private fr loads index [] = Inr []"
| "calls_from_private fr loads index (raw # raws) =
     bind_result (call_from_private fr loads index raw) (\<lambda>c.
     bind_result (calls_from_private fr loads (Suc index) raws) (\<lambda>cs. Inr (c # cs)))"

text \<open>The content of an assistant message; an empty one counts as absent next to calls.\<close>

definition assistant_content :: "(rat \<Rightarrow> string) \<Rightarrow> json option \<Rightarrow> model_tool_call list \<Rightarrow> string option" where
  "assistant_content fr v calls =
     (case v of
        None \<Rightarrow> None
      | Some w \<Rightarrow> if w = JNull \<or> (w = JStr [] \<and> calls \<noteq> []) then None else Some (py_text fr w))"

definition private_message ::
  "(rat \<Rightarrow> string) \<Rightarrow> string \<Rightarrow> (string \<times> json) list \<Rightarrow> model_tool_call list \<Rightarrow> exception_info + model_message" where
  "private_message fr role m calls =
     (if role = ''system'' then Inr (System_Message (py_text_or fr (jget m ''content'') []))
      else if role = ''user'' then Inr (User_Message (py_text_or fr (jget m ''content'') []))
      else if role = ''assistant'' then
        Inr (Assistant_Message (assistant_content fr (jget m ''content'') calls) calls
          (case jget m ''reasoning_content'' of None \<Rightarrow> None | Some r \<Rightarrow> if r = JNull then None else Some (py_text fr r)))
      else if role = ''tool'' then
        Inr (Tool_Result_Message (py_text_or fr (jget m ''tool_call_id'') [])
          (py_text_or fr (Some (or_value (jget m ''tool_name'') (or_value (jget m ''name'') (JStr [])))) [])
          (py_text_or fr (jget m ''content'') []))
      else Inl (forge_bridge_error (''Unsupported private message role '' @ py_repr role)))"

definition model_message_from_private ::
  "(rat \<Rightarrow> string) \<Rightarrow> (string \<Rightarrow> string + json) \<Rightarrow> (string \<times> json) list \<Rightarrow> exception_info + model_message" where
  "model_message_from_private fr loads m =
     (case jget m ''role'' of
        Some (JStr role) \<Rightarrow>
          bind_result (as_python (py_items (or_value (jget m ''tool_calls'') (JArr [])))) (\<lambda>raws.
          bind_result (calls_from_private fr loads 0 raws) (\<lambda>calls.
          bind_result (private_message fr role m calls) (\<lambda>message.
          as_validation (check_model_message message))))
      | _ \<Rightarrow> Inl (forge_bridge_error ''private message role is missing''))"

section \<open>Tool definitions\<close>

text \<open>
  The schema of a terminal tool with the selected output as one more member. A JSON text that is
  read back is the value with its keys sorted. \<^verbatim>\<open>sorted\<close> compares what the schema requires,
  which is a list of names.
\<close>

definition name_items :: "json list \<Rightarrow> string list result" where
  "name_items items =
     traverse (\<lambda>v. case v of JStr s \<Rightarrow> Ok s | _ \<Rightarrow> Raise (TypeErr ''required names are not comparable'')) items"

definition selected_output_terminal_tool_schema ::
  "output_env \<Rightarrow> (string \<times> json) list \<Rightarrow> selected_output_requirement \<Rightarrow> exception_info + (string \<times> json) list" where
  "selected_output_terminal_tool_schema env input_schema requirement =
     (let derived = (case json_sort_keys (JObj input_schema) of JObj kvs \<Rightarrow> kvs | _ \<Rightarrow> []) in
      case (jget derived ''properties'', jget derived ''required'') of
        (Some (JObj properties), Some (JArr required)) \<Rightarrow>
          if has_key properties ''candidate''
          then Inl (forge_binding_rejected ''Terminal tool schema already reserves the selected output candidate field'')
          else
            bind_result (as_python (canonical_selected_output_schema_bytes env
              (Schema_Value (sor_json_schema requirement)))) (\<lambda>canonical.
            bind_result (as_python (case oe_loads env canonical of Inl e \<Rightarrow> refused e | Inr v \<Rightarrow> Ok v)) (\<lambda>schema.
            bind_result (as_python (name_items
              (required @ (if sor_required requirement then [JStr ''candidate''] else [])))) (\<lambda>names.
            Inr (dict_set (dict_set derived ''properties'' (JObj (dict_set properties ''candidate'' schema)))
              ''required'' (JArr (map JStr (sort names)))))))
      | _ \<Rightarrow> Inl (forge_binding_rejected ''Terminal tool schema is not a closed object schema''))"

definition tool_definition_from_spec ::
  "output_env \<Rightarrow> tool_spec \<Rightarrow> selected_output_requirement option \<Rightarrow> exception_info + model_tool_definition" where
  "tool_definition_from_spec env spec selected_output =
     (case ts_parameters spec of
        JObj input_schema \<Rightarrow>
          bind_result (case selected_output of
              None \<Rightarrow> Inr input_schema
            | Some requirement \<Rightarrow> selected_output_terminal_tool_schema env input_schema requirement) (\<lambda>schema.
          as_validation (check_model_tool_definition
            \<lparr>mtd_name = ts_name spec, mtd_description = ts_description spec, mtd_input_schema = schema\<rparr>))
      | _ \<Rightarrow> Inl (validation_error (ValueError ''input_schema must be an object'')))"

section \<open>The events of a session\<close>

text \<open>
  The translator's events with the number of times an event was built; the n-th one is stamped with
  \<open>st n\<close>, the time of day and the monotonic time. A field whose text is long is cut.
\<close>

record event_log =
  el_events :: "session_event list"
  el_ticks :: nat

definition new_log :: event_log where
  "new_log = \<lparr>el_events = [], el_ticks = 0\<rparr>"

record event_details =
  ed_node_id :: "string option"
  ed_model_turn :: "int option"
  ed_code :: "string option"
  ed_fields :: "(string \<times> json) list"

definition no_details :: event_details where
  "no_details = \<lparr>ed_node_id = None, ed_model_turn = None, ed_code = None, ed_fields = []\<rparr>"

definition diagnostic_fields :: "(string \<times> json) list \<Rightarrow> event_field list" where
  "diagnostic_fields =
     map (\<lambda>(k, v). \<lparr>evf_key = k, evf_value = (case v of JStr s \<Rightarrow> JStr (take 256 s) | _ \<Rightarrow> v)\<rparr>)"

definition translator_event ::
  "guarded_session_request \<Rightarrow> (nat \<Rightarrow> string \<times> rat) \<Rightarrow> session_event_type \<Rightarrow> event_details \<Rightarrow> event_log \<Rightarrow> session_event" where
  "translator_event request st kind d lg =
     (let r = gsr_execution_request request in
      \<lparr>evt_sequence = int (length (el_events lg)) + 1, evt_occurred_at = fst (st (el_ticks lg)),
       evt_monotonic_offset_ms = snd (st (el_ticks lg)) * 1000, evt_type = kind,
       evt_request_id = her_request_id r, evt_run_id = her_run_id r, evt_session_id = gsr_session_id request,
       evt_stage = her_stage r, evt_node_id = ed_node_id d, evt_model_turn = ed_model_turn d,
       evt_tool_call_id = None, evt_code = ed_code d, evt_fields = diagnostic_fields (ed_fields d)\<rparr>)"

definition emit_event ::
  "guarded_session_request \<Rightarrow> (nat \<Rightarrow> string \<times> rat) \<Rightarrow> session_event_type \<Rightarrow> event_details \<Rightarrow> event_log \<Rightarrow>
   (exception_info + session_event) \<times> event_log" where
  "emit_event request st kind d lg =
     (let lg' = lg\<lparr>el_ticks := Suc (el_ticks lg)\<rparr>
      in case check_session_event (translator_event request st kind d lg) of
           Inl e \<Rightarrow> (Inl (validation_error e), lg')
         | Inr ev \<Rightarrow> (Inr ev, lg'\<lparr>el_events := el_events lg @ [ev]\<rparr>))"

text \<open>Several events in a row; the first that fails ends them.\<close>

fun emit_events ::
  "guarded_session_request \<Rightarrow> (nat \<Rightarrow> string \<times> rat) \<Rightarrow> (session_event_type \<times> event_details) list \<Rightarrow> event_log \<Rightarrow>
   exception_info option \<times> event_log" where
  "emit_events request st [] lg = (None, lg)"
| "emit_events request st ((kind, d) # es) lg =
     (case emit_event request st kind d lg of
        (Inl e, lg') \<Rightarrow> (Some e, lg')
      | (Inr _, lg') \<Rightarrow> emit_events request st es lg')"

definition correction :: "string \<Rightarrow> session_event_type \<times> event_details" where
  "correction code = (CORRECTION_ISSUED, no_details\<lparr>ed_code := Some code\<rparr>)"

definition premature_terminal :: "string option \<Rightarrow> session_event_type \<times> event_details" where
  "premature_terminal node_id = (PREMATURE_TERMINAL_REJECTED, no_details\<lparr>ed_node_id := node_id\<rparr>)"

definition budget_event :: "string \<Rightarrow> session_event_type \<times> event_details" where
  "budget_event code = (BUDGET_EXHAUSTED, no_details\<lparr>ed_code := Some code\<rparr>)"

text \<open>What the observer of the loop's messages reports.\<close>

definition observed_events :: "message \<Rightarrow> (session_event_type \<times> event_details) list" where
  "observed_events m =
     (case msg_type m of
        STEP_NUDGE \<Rightarrow> [correction ''step'', premature_terminal None]
      | PREREQUISITE_NUDGE \<Rightarrow> [correction ''prerequisite'']
      | RETRY_NUDGE \<Rightarrow> [correction (if msg_role m = ROLE_TOOL then ''tool_arg_validation'' else ''retry'')]
      | _ \<Rightarrow> [])"

definition prompt_fields :: "(string \<Rightarrow> string) \<Rightarrow> nat \<Rightarrow> model_message \<Rightarrow> (string \<times> json) list" where
  "prompt_fields sha index m =
     (let body = (case message_content m of None \<Rightarrow> [] | Some c \<Rightarrow> c); prefix = ''prompt_'' @ show_nat index in
      [(prefix @ ''_role'', JStr (role_of_message m)), (prefix @ ''_byte_size'', JInt (int (utf8_len body))),
       (prefix @ ''_sha256'', JStr (sha body))])"

definition prompt_event_fields :: "(string \<Rightarrow> string) \<Rightarrow> model_message list \<Rightarrow> (string \<times> json) list" where
  "prompt_event_fields sha messages =
     concat (map (\<lambda>(i, m). prompt_fields sha i m) (zip [0..<length messages] messages))"

section \<open>The model bridge\<close>

text \<open>
  \<^verbatim>\<open>_in_model_call\<close> is true only while the client runs, so no code that reads it sees it true. The
  last usage is the entry of slot 0, if the client reported one.
\<close>

record model_bridge =
  mb_last_usage :: "token_usage option"
  mb_model_calls :: nat
  mb_input_tokens :: int
  mb_output_tokens :: int
  mb_provider_reported :: bool
  mb_exception_seen :: bool
  mb_model_turn :: nat

definition new_model_bridge :: model_bridge where
  "new_model_bridge = \<lparr>mb_last_usage = None, mb_model_calls = 0, mb_input_tokens = 0, mb_output_tokens = 0,
     mb_provider_reported = False, mb_exception_seen = False, mb_model_turn = 0\<rparr>"

record model_env =
  me_request :: guarded_session_request
  me_requirements :: "(string \<times> selected_output_requirement) list"
  me_terminal_result_by_tool :: "(string \<times> string) list"
  me_output :: output_env
  me_stamp :: "nat \<Rightarrow> string \<times> rat"

definition model_token_usage :: "model_bridge \<Rightarrow> token_usage option result" where
  "model_token_usage mb =
     (if mb_input_tokens mb = 0 \<and> mb_output_tokens mb = 0 then Ok None
      else bind_result (check_token_usage \<lparr>tu_input_tokens = mb_input_tokens mb, tu_output_tokens = mb_output_tokens mb,
             tu_total_tokens = mb_input_tokens mb + mb_output_tokens mb, tu_provider_reported = mb_provider_reported mb\<rparr>)
           (\<lambda>u. Ok (Some u)))"

definition store_usage :: "token_usage option \<Rightarrow> model_bridge \<Rightarrow> model_bridge" where
  "store_usage usage mb =
     (let mb1 = mb\<lparr>mb_model_calls := Suc (mb_model_calls mb), mb_last_usage := usage\<rparr>
      in case usage of
           None \<Rightarrow> mb1
         | Some u \<Rightarrow> mb1\<lparr>mb_input_tokens := mb_input_tokens mb + tu_input_tokens u,
             mb_output_tokens := mb_output_tokens mb + tu_output_tokens u,
             mb_provider_reported := (mb_provider_reported mb \<or> tu_provider_reported u)\<rparr>)"

definition selected_output_of_tool :: "model_env \<Rightarrow> string \<Rightarrow> selected_output_requirement option" where
  "selected_output_of_tool env tool =
     map_of (me_requirements env)
       (case map_of (me_terminal_result_by_tool env) tool of None \<Rightarrow> [] | Some t \<Rightarrow> t)"

definition model_request :: "model_env \<Rightarrow> send_request \<Rightarrow> exception_info + model_completion_request" where
  "model_request env request =
     (let r = gsr_execution_request (me_request env); out = me_output env in
      bind_result (traverse (model_message_from_private (oe_float out) (oe_loads out)) (sr_messages request)) (\<lambda>messages.
      bind_result (traverse (\<lambda>spec. tool_definition_from_spec out spec (selected_output_of_tool env (ts_name spec)))
        (sr_tools request)) (\<lambda>tools.
      as_validation (check_model_completion_request
        \<lparr>mcr_request_id = her_request_id r, mcr_run_id = her_run_id r, mcr_model_profile_id = her_model_profile_id r,
         mcr_messages = messages, mcr_tools = tools, mcr_maximum_output_tokens = None,
         mcr_request_options = [(''parallel_tool_calls'', JBool False)], mcr_deadline = gsr_deadline (me_request env),
         mcr_cancellation_id = her_cancellation_id r, mcr_secret_refs = her_secret_refs r\<rparr>))))"

definition parsed_model_tool_args :: "model_tool_call \<Rightarrow> json" where
  "parsed_model_tool_args c = (case mtc_arguments c of Parsed_Arguments kvs \<Rightarrow> JObj kvs | Invalid_Arguments raw _ \<Rightarrow> raw)"

definition response_of :: "model_completion_response \<Rightarrow> llm_response" where
  "response_of r =
     (if rsp_tool_calls r = [] then TextResponse (case rsp_content r of None \<Rightarrow> [] | Some c \<Rightarrow> c)
      else ToolCalls (map (\<lambda>c. \<lparr>tc_tool = mtc_name c, tc_args = parsed_model_tool_args c, tc_reasoning = rsp_content r,
             tc_call_id = Some (mtc_call_id c), tc_reasoning_content = rsp_reasoning_content r\<rparr>) (rsp_tool_calls r)))"

text \<open>The name of an exception's class.\<close>

definition class_name :: "exception_info \<Rightarrow> string" where
  "class_name e = (case exc_classes e of [] \<Rightarrow> ''Exception'' | k # _ \<Rightarrow> k)"

definition model_event :: "nat \<Rightarrow> string option \<Rightarrow> (string \<times> json) list \<Rightarrow> event_details" where
  "model_event turn0 code kvs =
     no_details\<lparr>ed_model_turn := Some (int turn0), ed_code := code, ed_fields := kvs\<rparr>"

text \<open>From the client's answer on.\<close>

definition model_answer ::
  "model_env \<Rightarrow> nat \<Rightarrow> exception_info + model_completion_response \<Rightarrow> event_log \<times> model_bridge \<Rightarrow>
   (exception_info + llm_response) \<times> event_log \<times> model_bridge" where
  "model_answer env turn0 answer state =
     (case state of (lg, mb) \<Rightarrow>
      (case answer of
        Inl e \<Rightarrow>
          (case emit_event (me_request env) (me_stamp env) MODEL_REQUEST_FAILED
              (model_event turn0 (Some (class_name e)) []) lg of
             (Inl e', lg') \<Rightarrow> (Inl e', lg', mb\<lparr>mb_exception_seen := True\<rparr>)
           | (Inr _, lg') \<Rightarrow> (Inl e, lg', mb\<lparr>mb_exception_seen := True\<rparr>))
      | Inr r \<Rightarrow>
          (case emit_event (me_request env) (me_stamp env) MODEL_REQUEST_COMPLETED
              (model_event turn0 None [(''tool_call_count'', JInt (int (length (rsp_tool_calls r))))]) lg of
             (Inl e, lg') \<Rightarrow> (Inl e, lg', mb)
           | (Inr _, lg') \<Rightarrow> (Inr (response_of r), lg', store_usage (rsp_usage r) mb))))"

definition given :: "json option \<Rightarrow> bool" where
  "given v \<longleftrightarrow> (case v of None \<Rightarrow> False | Some w \<Rightarrow> truthy w)"

definition model_send ::
  "model_env \<Rightarrow> (model_completion_request \<Rightarrow> exception_info + model_completion_response) \<Rightarrow> send_request \<Rightarrow>
   event_log \<times> model_bridge \<Rightarrow> (exception_info + llm_response) \<times> event_log \<times> model_bridge" where
  "model_send env client request state =
     (case state of (lg, mb) \<Rightarrow>
      if given (sr_sampling request)
      then (Inl (forge_bridge_error ''ForgeModelBridge does not accept sampling overrides''), lg, mb)
      else if given (sr_passthrough request) \<or> given (sr_inbound_body request) \<or> given (sr_raw_tools request)
      then (Inl (forge_bridge_error ''ForgeModelBridge does not accept provider passthrough''), lg, mb)
      else let turn0 = mb_model_turn mb; mb1 = mb\<lparr>mb_model_turn := Suc turn0\<rparr>
      in case model_request env request of
           Inl e \<Rightarrow> (Inl e, lg, mb1)
         | Inr r \<Rightarrow>
             (case emit_event (me_request env) (me_stamp env) MODEL_REQUEST_STARTED
                 (model_event turn0 None ([(''message_count'', JInt (int (length (mcr_messages r)))),
                    (''tool_count'', JInt (int (length (mcr_tools r))))]
                    @ prompt_event_fields (oe_sha256 (me_output env)) (mcr_messages r))) lg of
                (Inl e, lg') \<Rightarrow> (Inl e, lg', mb1)
              | (Inr _, lg') \<Rightarrow> model_answer env turn0 (client r) (lg', mb1)))"

end
