(* ===== verification/Bridge_Safety.thy ===== *)
theory Bridge_Safety
  imports Tool_Bridge
begin

text \<open>
  What holds of every state the bridge reaches from the empty one by tool calls, whatever the
  executor, the cancellation token and the clock do: what an intent rests on, and what the recorded
  traces and events look like. And what single calls cannot do.
\<close>

section \<open>Reachable states\<close>

inductive bridge_reachable :: "bridge_env \<Rightarrow> tool_bridge \<Rightarrow> bool" for env where
  initial: "bridge_reachable env new_bridge"
| call: "bridge_reachable env b \<Longrightarrow> bridge_reachable env (snd (bridge_call_tool env w tc b))"

context bridge_invariant
begin

lemma reachable:
  assumes "holds new_bridge" and "bridge_reachable env b"
  shows "holds b"
  using assms(2)
proof (induction rule: bridge_reachable.induct)
  case initial
  show ?case by (rule assms(1))
next
  case (call b w tc)
  show ?case by (rule keepsD [of holds, OF calling call.IH])
qed

end

section \<open>What an intent rests on\<close>

text \<open>
  Every success the bridge owns has a trace that no decision denied, and every artifact is kept
  under its own identifier.
\<close>

definition success_traced :: "tool_bridge \<Rightarrow> string \<Rightarrow> bool" where
  "success_traced b node_id \<longleftrightarrow> list_ex (\<lambda>t. tr_execution_status t = SUCCESS \<and> tr_node_id t = node_id
     \<and> \<not> has_denial (tr_prerequisite_decisions t @ tr_capability_decisions t)) (br_trace b)"

definition successes_traced :: "tool_bridge \<Rightarrow> bool" where
  "successes_traced b \<longleftrightarrow> (\<forall>node_id \<in> set (keys (br_successes b)). success_traced b node_id)"

definition artifacts_keyed :: "tool_bridge \<Rightarrow> bool" where
  "artifacts_keyed b \<longleftrightarrow> (\<forall>(k, a) \<in> set (br_artifacts b). k = ar_artifact_id a)"

text \<open>The selected output of an intent is what the requirement of its terminal result admits.\<close>

definition output_sound :: "bridge_env \<Rightarrow> compiled_harness_node \<Rightarrow> terminal_intent \<Rightarrow> bool" where
  "output_sound env node ti \<longleftrightarrow>
     (case requirement_of env node of
        None \<Rightarrow> ti_selected_output ti = None
      | Some req \<Rightarrow> (\<exists>present v s. admit_selected_output (be_output env) req present v = Inr s
          \<and> ti_selected_output ti = Some s \<and> ti_selected_output_schema_sha256 ti = Some (sor_schema_sha256 req)))"

definition intent_sound :: "bridge_env \<Rightarrow> tool_bridge \<Rightarrow> terminal_intent \<Rightarrow> bool" where
  "intent_sound env b ti \<longleftrightarrow>
     check_terminal_intent ti = Inr ti
     \<and> ti_request_id ti = her_request_id (gsr_execution_request (be_request env))
     \<and> ti_run_id ti = her_run_id (gsr_execution_request (be_request env))
     \<and> ti_stage ti = her_stage (gsr_execution_request (be_request env))
     \<and> (\<exists>node \<in> set (plan_nodes (be_plan env)).
          cn_node_id node = ti_terminal_node_id ti \<and> cn_terminal_result node = Some (ti_terminal_result ti)
          \<and> output_sound env node ti)
     \<and> map_of (plan_terminal_result_map (be_plan env)) (ti_terminal_node_id ti) = Some (ti_terminal_result ti)
     \<and> (\<forall>node \<in> set (plan_nodes (be_plan env)). cn_required node \<longrightarrow>
          cn_node_id node \<in> set (keys (br_successes b)) \<and> success_traced b (cn_node_id node))
     \<and> required_artifacts env (ti_terminal_result ti) \<subseteq> set (map ar_artifact_id (ti_artifact_refs ti))"

definition owned_history :: "bridge_env \<Rightarrow> tool_bridge \<Rightarrow> bool" where
  "owned_history env b \<longleftrightarrow> successes_traced b \<and> artifacts_keyed b
     \<and> (\<forall>ti. br_intent b = Some ti \<longrightarrow> intent_sound env b ti)"

lemma set_dict_set: "set (dict_set d k v) \<subseteq> insert (k, v) (set d)"
  by (induction d k v rule: dict_set.induct) auto

lemma artifacts_kept_keyed:
  "\<forall>(k, a) \<in> set d. k = f a \<Longrightarrow> \<forall>(k, a) \<in> set (foldl (\<lambda>d a. dict_set d (f a) a) d as). k = f a"
proof (induction as arbitrary: d)
  case (Cons a as)
  have "\<forall>(k, a) \<in> set (dict_set d (f a) a). k = f a"
    using Cons.prems set_dict_set [of d "f a" a] by blast
  then show ?case using Cons.IH by simp
qed simp

lemma success_traced_mono:
  "success_traced b n \<Longrightarrow> set (br_trace b) \<subseteq> set (br_trace b') \<Longrightarrow> success_traced b' n"
  by (auto simp: success_traced_def list_ex_iff)

lemma intent_sound_mono:
  assumes "intent_sound env b ti" "set (keys (br_successes b)) \<subseteq> set (keys (br_successes b'))"
    "set (br_trace b) \<subseteq> set (br_trace b')"
  shows "intent_sound env b' ti"
  using assms(1) assms(2) success_traced_mono [OF _ assms(3)] unfolding intent_sound_def by blast

lemma owned_history_mono:
  assumes "owned_history env b" "br_successes b' = br_successes b" "br_artifacts b' = br_artifacts b"
    "set (br_trace b) \<subseteq> set (br_trace b')" "br_intent b' = br_intent b"
  shows "owned_history env b'"
  using assms intent_sound_mono [of env b _ b'] success_traced_mono [of b _ b']
  by (simp add: owned_history_def successes_traced_def artifacts_keyed_def)

lemma append_event_state:
  "br_successes (snd (append_event env w kind n cid code b)) = br_successes b"
  "br_artifacts (snd (append_event env w kind n cid code b)) = br_artifacts b"
  "br_trace (snd (append_event env w kind n cid code b)) = br_trace b"
  "br_intent (snd (append_event env w kind n cid code b)) = br_intent b"
  by (auto simp: append_event_def Let_def split: sum.split)

lemma append_trace_state:
  "snd (append_trace env w c d b) = b \<or> snd (append_trace env w c d b) = b\<lparr>br_trace := br_trace b @ [call_trace env w c d b]\<rparr>"
  by (auto simp: append_trace_def split: sum.split dest: check_trace_same)

lemma owned_intent:
  assumes "owned_history env b" "node \<in> set (plan_nodes (be_plan env))" "cn_terminal_result node = Some t"
    "admit_candidate env node args = Inr selected" "missing_required env b = []" "missing_artifacts env t b = []"
    "map_of (plan_terminal_result_map (be_plan env)) (cn_node_id node) = Some t"
    "check_terminal_intent (terminal_intent_of env node (terminal_candidate_of env node t cid r selected b)) = Inr i"
  shows "intent_sound env (b\<lparr>br_intent := Some i\<rparr>) i"
proof -
  have i: "i = terminal_intent_of env node (terminal_candidate_of env node t cid r selected b)"
    by (rule check_terminal_intent_same [OF assms(8)])
  have "output_sound env node i"
    using assms(3,4)
    by (auto simp: i output_sound_def admit_candidate_def requirement_of_def terminal_intent_of_def
        terminal_candidate_of_def Let_def result_simps split: option.splits if_splits)
  moreover have "cn_node_id n \<in> set (keys (br_successes b))" if "n \<in> set (plan_nodes (be_plan env))" "cn_required n" for n
    using assms(5) that by (auto simp: missing_required_def filter_empty_conv)
  moreover have "required_artifacts env t \<subseteq> set (map ar_artifact_id (ti_artifact_refs i))"
  proof -
    have "finite (required_artifacts env t - set (keys (br_artifacts b)))" by (simp add: required_artifacts_def)
    then have "required_artifacts env t \<subseteq> set (keys (br_artifacts b))"
      using assms(6) by (auto simp: missing_artifacts_def)
    moreover have "keys (br_artifacts b) = map ar_artifact_id (ti_artifact_refs i)"
      using assms(1) by (auto simp: i owned_history_def artifacts_keyed_def terminal_intent_of_def
          terminal_candidate_of_def Let_def)
    ultimately show ?thesis by simp
  qed
  moreover have "success_traced b n" if "n \<in> set (keys (br_successes b))" for n
    using assms(1) that by (auto simp: owned_history_def successes_traced_def)
  moreover have "check_terminal_intent i = Inr i" using assms(8) i by simp
  moreover have "ti_request_id i = her_request_id (gsr_execution_request (be_request env))"
    "ti_run_id i = her_run_id (gsr_execution_request (be_request env))"
    "ti_stage i = her_stage (gsr_execution_request (be_request env))"
    "ti_terminal_node_id i = cn_node_id node" "ti_terminal_result i = t"
    by (simp_all add: i terminal_intent_of_def terminal_candidate_of_def Let_def)
  ultimately have "intent_sound env b i"
    unfolding intent_sound_def using assms(2,3,7) by auto
  then show ?thesis by (rule intent_sound_mono) simp_all
qed

interpretation owned: bridge_invariant env "owned_history env" for env
proof (unfold_locales, goal_cases)
  case (1 w kind n cid code)
  show ?case
    by (intro keepsI) (erule owned_history_mono; simp add: append_event_state)
next
  case (2 w c d)
  show ?case
  proof (rule keepsI)
    fix b assume "owned_history env b"
    then show "owned_history env (snd (append_trace env w c d b))"
      using append_trace_state [of env w c d b] by (auto elim!: owned_history_mono)
  qed
next
  case (3 b k)
  then show ?case by (rule owned_history_mono) simp_all
next
  case (4 b node r args)
  let ?b' = "b\<lparr>br_successes := dict_set (br_successes b) (cn_node_id node) (r, args),
    br_artifacts := foldl (\<lambda>d a. dict_set d (ar_artifact_id a) a) (br_artifacts b) (ter_artifact_refs r)\<rparr>"
  have "success_traced ?b' n" if "n \<in> insert (cn_node_id node) (set (keys (br_successes b)))" for n
    using 4 that by (auto simp: owned_history_def successes_traced_def success_traced_def traces_success_def list_ex_iff)
  then have "successes_traced ?b'"
    unfolding successes_traced_def by (simp add: set_keys_dict_set del: set_map)
  moreover have "artifacts_keyed ?b'"
    using 4 artifacts_kept_keyed [of "br_artifacts b" ar_artifact_id]
    by (simp add: owned_history_def artifacts_keyed_def)
  moreover have "intent_sound env ?b' ti" if "br_intent b = Some ti" for ti
    by (rule intent_sound_mono [of env b]) (use 4 that in \<open>auto simp: owned_history_def set_keys_dict_set simp del: set_map\<close>)
  ultimately show ?case by (simp add: owned_history_def)
next
  case (5 b cand)
  then show ?case by (rule owned_history_mono) simp_all
next
  case (6 b node t args selected cid r i)
  then show ?case
    using owned_intent [OF 6] by (simp add: owned_history_def successes_traced_def artifacts_keyed_def success_traced_def)
qed

text \<open>The records of the history: numbered, valid, and of this session.\<close>

definition traces_valid :: "bridge_env \<Rightarrow> tool_trace_record list \<Rightarrow> bool" where
  "traces_valid env ts \<longleftrightarrow>
     map tr_sequence ts = map int [1..<Suc (length ts)]
     \<and> (\<forall>t \<in> set ts. check_tool_trace_record t = Inr t \<and> tr_session_id t = gsr_session_id (be_request env)
          \<and> tr_run_id t = her_run_id (gsr_execution_request (be_request env)))"

definition events_valid :: "bridge_env \<Rightarrow> int \<Rightarrow> session_event list \<Rightarrow> bool" where
  "events_valid env sequence es \<longleftrightarrow>
     sorted_wrt (<) (map evt_sequence es)
     \<and> (\<forall>e \<in> set es. check_session_event e = Inr e \<and> 1 \<le> evt_sequence e \<and> evt_sequence e \<le> sequence
          \<and> evt_session_id e = gsr_session_id (be_request env)
          \<and> evt_run_id e = her_run_id (gsr_execution_request (be_request env)))"

definition history_valid :: "bridge_env \<Rightarrow> tool_bridge \<Rightarrow> bool" where
  "history_valid env b \<longleftrightarrow> 0 \<le> br_sequence b \<and> traces_valid env (br_trace b) \<and> events_valid env (br_sequence b) (br_events b)"

lemma traces_valid_snoc:
  "traces_valid env ts \<Longrightarrow> tr_sequence t = int (length ts) + 1 \<Longrightarrow> check_tool_trace_record t = Inr t \<Longrightarrow>
   tr_session_id t = gsr_session_id (be_request env) \<Longrightarrow>
   tr_run_id t = her_run_id (gsr_execution_request (be_request env)) \<Longrightarrow> traces_valid env (ts @ [t])"
  by (simp add: traces_valid_def)

lemma events_valid_later: "events_valid env m es \<Longrightarrow> m \<le> n \<Longrightarrow> events_valid env n es"
  by (fastforce simp: events_valid_def)

lemma events_valid_snoc:
  "events_valid env m es \<Longrightarrow> m < evt_sequence e \<Longrightarrow> 0 \<le> m \<Longrightarrow> check_session_event e = Inr e \<Longrightarrow>
   evt_session_id e = gsr_session_id (be_request env) \<Longrightarrow>
   evt_run_id e = her_run_id (gsr_execution_request (be_request env)) \<Longrightarrow>
   events_valid env (evt_sequence e) (es @ [e])"
  by (fastforce simp: events_valid_def sorted_wrt_append)

lemma append_event_valid:
  assumes "history_valid env b"
  shows "history_valid env (snd (append_event env w kind n cid code b))"
proof -
  define e where "e = call_event env w kind n cid code b"
  have e: "evt_sequence e = br_sequence b + 1" "evt_session_id e = gsr_session_id (be_request env)"
    "evt_run_id e = her_run_id (gsr_execution_request (be_request env))"
    by (simp_all add: e_def call_event_def Let_def)
  show ?thesis
  proof (cases "check_session_event e")
    case (Inl x)
    then show ?thesis using assms events_valid_later [of env "br_sequence b" "br_events b"]
      by (simp add: append_event_def Let_def history_valid_def flip: e_def)
  next
    case (Inr ev)
    then have "ev = e" by (rule check_event_same)
    then show ?thesis using assms Inr e events_valid_snoc [of env "br_sequence b" "br_events b" e]
      by (simp add: append_event_def Let_def history_valid_def flip: e_def)
  qed
qed

lemma append_trace_valid:
  assumes "history_valid env b"
  shows "history_valid env (snd (append_trace env w c d b))"
proof (cases "check_tool_trace_record (call_trace env w c d b)")
  case (Inr t)
  moreover have "t = call_trace env w c d b" by (rule check_trace_same [OF Inr])
  ultimately show ?thesis
    using assms traces_valid_snoc [of env "br_trace b" t]
    by (simp add: history_valid_def append_trace_def call_trace_def Let_def)
qed (use assms in \<open>simp add: append_trace_def\<close>)

interpretation recorded: bridge_invariant env "history_valid env" for env
  by unfold_locales (simp_all add: history_valid_def keeps_def append_event_valid [unfolded history_valid_def]
      append_trace_valid [unfolded history_valid_def])

section \<open>What a refused call cannot do\<close>

text \<open>
  What the bridge owns: its successes and artifacts, its candidate and its intent. Recording leaves
  it as it is, and does not look at the executor.
\<close>

definition owns_as :: "tool_bridge \<Rightarrow> tool_bridge \<Rightarrow> bool" where
  "owns_as b b' \<longleftrightarrow> br_successes b' = br_successes b \<and> br_artifacts b' = br_artifacts b
     \<and> br_candidate b' = br_candidate b \<and> br_intent b' = br_intent b"

interpretation record_only: bridge_recording env "owns_as b" for env b
proof (unfold_locales, goal_cases)
  case (1 w kind n cid code)
  show ?case by (auto simp: keeps_def owns_as_def append_event_def Let_def split: sum.split)
next
  case (2 w c d)
  show ?case by (auto simp: keeps_def owns_as_def append_trace_def split: sum.split)
qed

lemma append_event_executor: "append_event env (w\<lparr>cw_execute := f\<rparr>) = append_event env w"
  by (intro ext) (simp add: append_event_def call_event_def stamp_def)

lemma append_trace_executor: "append_trace env (w\<lparr>cw_execute := f\<rparr>) = append_trace env w"
  by (intro ext) (simp add: append_trace_def call_trace_def stamp_def)

lemma append_events_executor: "append_events env (w\<lparr>cw_execute := f\<rparr>) c evs = append_events env w c evs"
  by (induction evs) (auto simp: append_event_executor)

lemma close_call_executor: "close_call env (w\<lparr>cw_execute := f\<rparr>) c d evs e = close_call env w c d evs e"
  by (simp add: close_call_def append_trace_executor append_events_executor)

lemma decided_call_executor: "decided_call env (w\<lparr>cw_execute := f\<rparr>) = decided_call env w"
  by (intro ext) (simp add: decided_call_def capability_decisions_def)

lemma close_call_raises: "\<exists>e'. fst (close_call env w c d evs e b) = Inl e'"
  by (auto simp: close_call_def then_do_def bridge_raise_def split: prod.split sum.split)

text \<open>
  A raise of a step that owns nothing new, the same whatever the executor would have done.
\<close>

definition raises_alone :: "tool_bridge \<Rightarrow> ('w \<Rightarrow> 'a bridge_step) \<Rightarrow> 'w \<Rightarrow> 'w \<Rightarrow> tool_bridge \<Rightarrow> bool" where
  "raises_alone b0 step w w' b \<longleftrightarrow> step w' b = step w b \<and> (\<exists>e. fst (step w b) = Inl e) \<and> owns_as b0 (snd (step w b))"

lemma closing_alone:
  "owns_as b0 b \<Longrightarrow> raises_alone b0 (\<lambda>w. close_call env w c d evs e) w (w\<lparr>cw_execute := f\<rparr>) b"
  using close_call_raises [of env w c d evs e b] keepsD [of "owns_as b0", OF record_only.closing, of b env w c d evs e]
  by (simp add: raises_alone_def close_call_executor)

lemma then_do_alone:
  assumes "\<And>w. keeps (owns_as b0) (g w)" "g w' = g w" "owns_as b0 b"
    and "\<And>x b'. g w b = (Inr x, b') \<Longrightarrow> owns_as b0 b' \<Longrightarrow> raises_alone b0 (h x) w w' b'"
  shows "raises_alone b0 (\<lambda>w. then_do (g w) (\<lambda>x. h x w)) w w' b"
  using keepsD [OF assms(1,3), of w] assms(2,4)
  by (auto simp: raises_alone_def then_do_def split: prod.split sum.split)

lemma admitted_alone:
  assumes "owns_as b0 b"
    and "cw_cancelled w \<or> remaining (gsr_deadline (be_request env)) (cw_now w) \<le> 0
      \<or> \<not> is_ok (admit_candidate env (bc_node c) (bc_args c))"
  shows "raises_alone b0 (\<lambda>w. admitted_call env w c) w (w\<lparr>cw_execute := f\<rparr>) b"
proof -
  note closing_alone [OF assms(1), unfolded raises_alone_def, simp]
  show ?thesis
  proof (cases "admit_candidate env (bc_node c) (bc_args c)")
    case (Inl e)
    then show ?thesis
      using assms(1) by (cases e) (simp_all add: admitted_call_def raises_alone_def bridge_raise_def)
  next
    case (Inr selected)
    then show ?thesis using assms(2) by (auto simp: admitted_call_def raises_alone_def)
  qed
qed

lemma resolve_call_owns: "owns_as b (snd (resolve_call_id call_id b))"
  by (simp add: resolve_call_id_def owns_as_def split: option.split)

lemma started_alone:
  assumes "owns_as b b2"
    and "has_denial (prerequisite_decisions b node args @ capability_decisions env w node)
      \<or> cw_cancelled w \<or> remaining (gsr_deadline (be_request env)) (cw_now w) \<le> 0
      \<or> \<not> is_ok (admit_candidate env node args)"
  shows "raises_alone b (\<lambda>w. started_call env w node cid args h) w (w\<lparr>cw_execute := f\<rparr>) b2"
proof -
  have same: "prerequisite_decisions b2 node args = prerequisite_decisions b node args"
    using assms(1) by (simp add: prerequisite_decisions_def owns_as_def)
  show ?thesis
    using closing_alone [OF assms(1), of env "decided_call env w node cid args h b2" _ _ _ w f]
      admitted_alone [OF assms(1), of w env "decided_call env w node cid args h b2" f] assms(2) same
    by (auto simp: raises_alone_def started_call_def decided_call_executor Let_def) (auto simp: decided_call_def)
qed

section \<open>A session\<close>

text \<open>
  A request for the sample plan, and a world whose executor succeeds; \<open>sample_closed\<close> is the bridge
  after the two calls of the plan.
\<close>

definition sample_session_request :: guarded_session_request where
  "sample_session_request = \<lparr>gsr_session_id = ''session'', gsr_execution_request =
     \<lparr>her_request_id = ''request'', her_run_id = ''run'', her_work_item_id = ''item'', her_instruction = ''Do it.'',
      her_stage = \<lparr>stage_plane = EXECUTION, stage_node_id = ''stage'', stage_kind_id = ''builder''\<rparr>,
      her_compiled_harness = \<lparr>chr_compiled_plan_id = ''plan'', chr_harness_id = ''demo'', chr_harness_version = 1,
        chr_path = ''plan.json'', chr_digest = sample_digest\<rparr>,
      her_grants = [], her_input_artifacts = [], her_run_directory = \<lparr>rd_run_id = ''run'', rd_path = ''run''\<rparr>,
      her_timeout = \<lparr>to_timeout_seconds = 60, to_deadline = None\<rparr>, her_cancellation_id = ''cancel'',
      her_secret_refs = [], her_model_profile_id = ''main'', her_selected_output_requirements = []\<rparr>,
    gsr_deadline = \<lparr>dl_started = 0, dl_outer = 60, dl_compiled = None, dl_effective = 60, dl_source = ''request''\<rparr>,
    gsr_trusted_context = True\<rparr>"

definition sample_bridge_env :: bridge_env where
  "sample_bridge_env = \<lparr>be_plan = sample_plan sample_digest, be_request = sample_session_request,
     be_requirements = [], be_redactor = \<lparr>ren_text = (\<lambda>_ s. s), ren_value = (\<lambda>_ v. v), ren_float = (\<lambda>_. ''0.5''),
       ren_sha256 = (\<lambda>_. sample_digest)\<rparr>, be_output = sample_output_env\<rparr>"

definition sample_result :: "tool_execution_status \<Rightarrow> string \<Rightarrow> tool_execution_result" where
  "sample_result status call_id = \<lparr>ter_call_id = call_id, ter_status = status, ter_summary = ''Finished.'',
     ter_structured_data = JNull, ter_artifact_refs = [],
     ter_error_code = (if status = SUCCESS then None else Some ''policy_denied''), ter_retryable = False,
     ter_side_effect_class = READ_ONLY, ter_idempotency = IDEMPOTENT, ter_side_effect_certainty = NOT_ATTEMPTED,
     ter_side_effect_record = None, ter_input_sha256 = sample_digest, ter_output_sha256 = None,
     ter_timing = \<lparr>tm_started_at = ''then'', tm_completed_at = ''now'', tm_duration_ms = 5\<rparr>\<rparr>"

definition sample_world :: "tool_execution_status \<Rightarrow> call_world" where
  "sample_world status = \<lparr>cw_supports = (\<lambda>_. True), cw_cancelled = False, cw_reason = None, cw_now = 10,
     cw_stamp = (\<lambda>n. (''now'', of_nat n)), cw_execute = (\<lambda>e. Inr (sample_result status (ec_call_id e)))\<rparr>"

definition sample_call :: "string \<Rightarrow> tool_call" where
  "sample_call tool = \<lparr>tc_tool = tool, tc_args = JObj [], tc_reasoning = None, tc_call_id = Some tool,
     tc_reasoning_content = None\<rparr>"

definition sample_closed :: tool_bridge where
  "sample_closed =
     snd (bridge_call_tool sample_bridge_env (sample_world SUCCESS) (sample_call ''done'')
       (snd (bridge_call_tool sample_bridge_env (sample_world SUCCESS) (sample_call ''read'') new_bridge)))"

lemma sample_closed_reachable: "bridge_reachable sample_bridge_env sample_closed"
  unfolding sample_closed_def by (intro bridge_reachable.intros)

definition bridge_digest :: "tool_bridge \<Rightarrow> disposition option \<times> nat \<times> nat" where
  "bridge_digest b = (map_option ti_disposition (br_intent b), length (br_trace b), length (br_events b))"

lemma sample_closed_digest: "bridge_digest sample_closed = (Some Success, 2, 5)"
  by code_simp

text \<open>
  C36: A session can only be closed by evidence. In every state the bridge reaches, an intent it
  holds is a valid record of this request, names a node of the plan whose terminal result it has,
  under the plan's own map; every required node has a success the bridge owns, each backed by a
  trace that records a success and no denied decision; the artifacts the terminal result requires
  are among its references; and its selected output is one the requirement admits.
\<close>

theorem bridge_intent_sound:
  assumes "bridge_reachable env b" and "br_intent b = Some ti"
  shows "intent_sound env b ti"
proof -
  have "owned_history env new_bridge"
    by (simp add: owned_history_def successes_traced_def artifacts_keyed_def new_bridge_def)
  from owned.reachable [OF this assms(1)] assms(2) show ?thesis by (simp add: owned_history_def)
qed

theorem bridge_intent_sound_witness:
  "\<exists>ti. br_intent sample_closed = Some ti \<and> ti_disposition ti = Success \<and> intent_sound sample_bridge_env sample_closed ti"
  using bridge_intent_sound [OF sample_closed_reachable] sample_closed_digest by (auto simp: bridge_digest_def)

section \<open>Results that were not executed\<close>

lemma not_executed_unhashed:
  assumes "check_tool_trace_record t = Inr u" and "tr_execution_status t = NOT_EXECUTED"
  shows "tr_output_sha256 t = None"
proof -
  have "is_ok (check_tool_trace_record t)" using assms(1) by simp
  then have "is_ok (trace_consistency t)"
    unfolding check_tool_trace_record_def is_ok_bind_const by blast
  then show ?thesis
    unfolding trace_consistency_def Let_def is_ok_bind_const using assms(2) by (simp add: is_ok_bind_const)
qed

lemma denial_result:
  assumes "make_denial_result red cid code summary evidence se idem h st = Inr r"
  shows "ter_call_id r = cid" "ter_input_sha256 r = h" "ter_output_sha256 r = None"
    "ter_status r = denial_status code st"
  using assms
  by (auto simp: make_denial_result_def make_tool_result_def bind_result_Inr dest!: check_result_same)

text \<open>
  C37: the bridge cannot record a denial that says the tool was not executed.
  \<^verbatim>\<open>make_denial_result\<close> gives a result that status when it is asked to, or when no status is asked
  for and the code is one the model can correct, and in no other case; the result has no output hash.
  The bridge computes the hash of the data for the trace of any result, and a trace that was not
  executed must not have one. So recording such a denial, whose data has a canonical text, raises a
  \<^verbatim>\<open>ValidationError\<close>, an ordinary tool failure for the loop, and adds neither a trace nor an event to
  the bridge, in place of the failure the result was made to report. A denial with another status,
  as a hard failure, is outside this statement: its trace may carry the hash.
\<close>

theorem denial_result_unrecorded:
  assumes "make_denial_result red (bc_call_id c) code summary evidence se idem h st = Inr r"
    and "is_ok (canonical_sha256 (be_redactor env) (ter_structured_data r))"
  shows "(ter_status r = NOT_EXECUTED \<longleftrightarrow> st = Some NOT_EXECUTED \<or> st = None \<and> code \<in> set MODEL_CORRECTABLE_CODES)
    \<and> (ter_status r = NOT_EXECUTED \<longrightarrow>
        (\<exists>e. record_tool_result env w c h r selected b = (Inl (validation_error e), b)
          \<and> outcome_of_call (Inl (validation_error e)) = Tool_Failed ''ValidationError'' (error_message e)))"
proof -
  note r = denial_result [OF assms(1)]
  have "ter_status r = NOT_EXECUTED \<longleftrightarrow> st = Some NOT_EXECUTED \<or> st = None \<and> code \<in> set MODEL_CORRECTABLE_CODES"
    by (auto simp: r(4) denial_status_def split: option.splits if_splits)
  moreover have "\<exists>e. record_tool_result env w c h r selected b = (Inl (validation_error e), b)
      \<and> outcome_of_call (Inl (validation_error e)) = Tool_Failed ''ValidationError'' (error_message e)"
    if status: "ter_status r = NOT_EXECUTED"
  proof -
    obtain computed where hash: "canonical_sha256 (be_redactor env) (ter_structured_data r) = Inr computed"
      using assms(2) by (auto simp: is_ok_iff)
    let ?t = "call_trace env w c (result_details r (Some computed)) b"
    have "tr_execution_status ?t = NOT_EXECUTED" "tr_output_sha256 ?t = Some computed"
      using status by (simp_all add: call_trace_def result_details_def Let_def)
    then have "check_tool_trace_record ?t \<noteq> Inr u" for u
      using not_executed_unhashed by force
    then obtain e where "check_tool_trace_record ?t = Inl e" by (cases "check_tool_trace_record ?t") auto
    then have "record_tool_result env w c h r selected b = (Inl (validation_error e), b)"
      using r(1-3) hash
      by (simp add: record_tool_result_def tool_result_boundary_defect_def validate_output_hash_def then_do_def
          attempt_def append_trace_def)
    moreover have "outcome_of_call (Inl (validation_error e)) = Tool_Failed ''ValidationError'' (error_message e)"
      by (simp add: outcome_of_call_def tool_exception_def validation_error_def exception_of_def)
    ultimately show ?thesis by blast
  qed
  ultimately show ?thesis by blast
qed

definition sample_bridge_call :: bridge_call where
  "sample_bridge_call = decided_call sample_bridge_env (sample_world SUCCESS) (sample_plan_node ''read'' True [] None)
     ''call_1'' [] sample_digest new_bridge"

definition sample_denial_result :: tool_execution_result where
  "sample_denial_result =
     \<lparr>ter_call_id = ''call_1'', ter_status = NOT_EXECUTED, ter_summary = ''Denied.'',
      ter_structured_data = JObj [(''category'', JStr ''policy_denied''), (''evidence'', JObj [])], ter_artifact_refs = [],
      ter_error_code = Some ''policy_denied'', ter_retryable = False, ter_side_effect_class = READ_ONLY,
      ter_idempotency = IDEMPOTENT, ter_side_effect_certainty = NOT_ATTEMPTED, ter_side_effect_record = None,
      ter_input_sha256 = sample_digest, ter_output_sha256 = None, ter_timing = zero_timing\<rparr>"

lemma sample_denial:
  "\<exists>r. make_denial_result (be_redactor sample_bridge_env) ''call_1'' POLICY_DENIED ''Denied.'' [] READ_ONLY IDEMPOTENT
       sample_digest None = Inr r
     \<and> ter_structured_data r = JObj [(''category'', JStr ''policy_denied''), (''evidence'', JObj [])]"
proof -
  have summary: "model_visible_summary (be_redactor sample_bridge_env) ''Denied.'' (summary_limit None) None = ''Denied.''"
    by (simp add: model_visible_summary_def unredacted_def summary_limit_def MAX_MODEL_SUMMARY_UTF8_def
        bounded_text_def nonempty_or_def sample_bridge_env_def utf8_len_def)
  have "is_ok (check_tool_execution_result sample_denial_result)"
    by code_simp
  then obtain r where r: "check_tool_execution_result sample_denial_result = Inr r"
    by (auto simp only: is_ok_iff)
  have "ter_structured_data r = JObj [(''category'', JStr ''policy_denied''), (''evidence'', JObj [])]"
    unfolding check_result_same [OF r] by (simp add: sample_denial_result_def)
  with r show ?thesis
    using summary
    by (simp add: make_denial_result_def make_tool_result_def model_visible_value_def unredacted_def
        denial_status_def MODEL_CORRECTABLE_CODES_def sample_bridge_env_def sample_denial_result_def)
qed

theorem denial_result_unrecorded_witness:
  "\<exists>r e. make_denial_result (be_redactor sample_bridge_env) ''call_1'' POLICY_DENIED ''Denied.'' [] READ_ONLY IDEMPOTENT
       sample_digest None = Inr r
     \<and> record_tool_result sample_bridge_env (sample_world SUCCESS) sample_bridge_call sample_digest r None new_bridge
         = (Inl (validation_error e), new_bridge)"
proof -
  obtain r where r: "make_denial_result (be_redactor sample_bridge_env) (bc_call_id sample_bridge_call) POLICY_DENIED
      ''Denied.'' [] READ_ONLY IDEMPOTENT sample_digest None = Inr r"
    and data: "ter_structured_data r = JObj [(''category'', JStr ''policy_denied''), (''evidence'', JObj [])]"
    using sample_denial by (auto simp: sample_bridge_call_def decided_call_def)
  have "is_ok (canonical_sha256 (be_redactor sample_bridge_env) (ter_structured_data r))"
    unfolding data by code_simp
  moreover have "POLICY_DENIED \<in> set MODEL_CORRECTABLE_CODES" by (simp add: MODEL_CORRECTABLE_CODES_def)
  ultimately show ?thesis
    using denial_result_unrecorded [OF r, of sample_bridge_env "sample_world SUCCESS" None new_bridge] r
    by (auto simp: sample_bridge_call_def decided_call_def)
qed

section \<open>What was recorded\<close>

text \<open>
  C38: In every state the bridge reaches, the traces are numbered from one without a gap, the
  sequence numbers of the events increase and do not pass the counter, every trace and event
  satisfies the validators of its class, and each belongs to the session and run of the request.
\<close>

theorem bridge_history_valid:
  assumes "bridge_reachable env b"
  shows "traces_valid env (br_trace b) \<and> events_valid env (br_sequence b) (br_events b)"
proof -
  have "history_valid env new_bridge"
    by (simp add: history_valid_def traces_valid_def events_valid_def new_bridge_def)
  from recorded.reachable [OF this assms] show ?thesis by (simp add: history_valid_def)
qed

theorem bridge_history_valid_witness:
  "length (br_trace sample_closed) = 2 \<and> traces_valid sample_bridge_env (br_trace sample_closed)"
  using bridge_history_valid [OF sample_closed_reachable] sample_closed_digest by (simp add: bridge_digest_def)

section \<open>Refused calls\<close>

text \<open>
  C39: A refused call is never executed. When a prerequisite or capability of the node is denied,
  the session is cancelled, its deadline has passed, or the candidate of a terminal call is not one
  the requirement admits, the call raises; what it raises and the state it leaves do not depend on
  the executor; and the bridge owns what it owned before.
\<close>

theorem refused_call_not_executed:
  assumes "node_of_tool env (tc_tool tc) = Some node" and "dict_of (tc_args tc) = Inr args"
    and "has_denial (prerequisite_decisions b node args @ capability_decisions env w node)
      \<or> cw_cancelled w \<or> remaining (gsr_deadline (be_request env)) (cw_now w) \<le> 0
      \<or> \<not> is_ok (admit_candidate env node args)"
  shows "bridge_call_tool env (w\<lparr>cw_execute := f\<rparr>) tc b = bridge_call_tool env w tc b
    \<and> (\<exists>e. fst (bridge_call_tool env w tc b) = Inl e) \<and> owns_as b (snd (bridge_call_tool env w tc b))"
proof -
  obtain cid b1 where call: "resolve_call_id (tc_call_id tc) b = (cid, b1)" by force
  have b1: "owns_as b b1" using resolve_call_owns [of b "tc_call_id tc"] by (simp add: call)
  have "raises_alone b (\<lambda>w. then_do (attempt (canonical_sha256 (be_redactor env) (JObj args)))
      (\<lambda>h. then_do (append_event env w TOOL_STARTED (cn_node_id node) cid None)
        (\<lambda>_. started_call env w node cid args h))) w (w\<lparr>cw_execute := f\<rparr>) b1"
    by (rule then_do_alone [OF keeps_attempt refl b1], rule then_do_alone [OF record_only.event])
      (simp_all add: append_event_executor started_alone [OF _ assms(3)])
  then show ?thesis
    by (simp add: raises_alone_def bridge_call_tool_def bridge_invoke_def assms(1,2) call)
qed

text \<open>The terminal call before the required one.\<close>

theorem refused_call_not_executed_witness:
  "owns_as new_bridge (snd (bridge_call_tool sample_bridge_env (sample_world SUCCESS) (sample_call ''done'') new_bridge))"
proof -
  let ?node = "sample_plan_node ''done'' False [\<lparr>cpre_node_id = ''read'', cpre_argument_matches = []\<rparr>] (Some ''DONE'')"
  have "node_of_tool sample_bridge_env (tc_tool (sample_call ''done'')) = Some ?node"
    "dict_of (tc_args (sample_call ''done'')) = Inr []"
    "has_denial (prerequisite_decisions new_bridge ?node [] @ capability_decisions sample_bridge_env (sample_world SUCCESS) ?node)"
    by code_simp+
  then show ?thesis using refused_call_not_executed by blast
qed

end
