(* ===== verification/Loop_Safety.thy ===== *)
theory Loop_Safety
  imports Loop
begin

text \<open>
  What the guarded loop guarantees, for every model, every tool and every way the tools behave: the
  order in which tools are invoked, where a result comes from, and how often the model is asked.
  Each is an invariant of the rounds, interpreted in the locale \<open>loop_invariant\<close>.
\<close>

section \<open>Histories\<close>

definition call_success :: "effect \<Rightarrow> (string \<times> json) list" where
  "call_success e = (case e of Invoked tc (Tool_Returned v) \<Rightarrow> [(tc_tool tc, tc_args tc)] | _ \<Rightarrow> [])"

definition successes :: "history \<Rightarrow> (string \<times> json) list" where
  "successes h = concat (map call_success h)"

definition is_invocation :: "effect \<Rightarrow> bool" where
  "is_invocation e \<longleftrightarrow> (case e of Invoked _ _ \<Rightarrow> True | _ \<Rightarrow> False)"

definition is_request :: "effect \<Rightarrow> bool" where
  "is_request e \<longleftrightarrow> (case e of Sent _ _ \<Rightarrow> True | _ \<Rightarrow> False)"

definition requests_sent :: "history \<Rightarrow> nat" where
  "requests_sent h = length (filter is_request h)"

lemma successes_simps [simp]:
  "successes [] = []" "successes (h @ h') = successes h @ successes h'" "successes (e # h) = call_success e @ successes h"
  by (simp_all add: successes_def)

lemma requests_sent_simps [simp]:
  "requests_sent [] = 0" "requests_sent (h @ h') = requests_sent h + requests_sent h'"
  "requests_sent [e] = (if is_request e then 1 else 0)"
  by (simp_all add: requests_sent_def)

lemma effect_kinds [simp]:
  "\<not> is_invocation (Sent r o1)" "\<not> is_invocation (Chunk c)" "\<not> is_invocation (Emitted m)"
  "\<not> is_invocation (Compacted ev)" "is_invocation (Invoked tc out)"
  "is_request (Sent r o1)" "\<not> is_request (Chunk c)" "\<not> is_request (Emitted m)"
  "\<not> is_request (Compacted ev)" "\<not> is_request (Invoked tc out)"
  "call_success (Sent r o1) = []" "call_success (Chunk c) = []" "call_success (Emitted m) = []"
  "call_success (Compacted ev) = []" "call_success (Invoked tc (Tool_Returned v)) = [(tc_tool tc, tc_args tc)]"
  by (simp_all add: is_invocation_def is_request_def call_success_def)

lemma successes_no_invocation: "\<forall>e \<in> set h. \<not> is_invocation e \<Longrightarrow> successes h = []"
  by (induction h) (auto simp: successes_def is_invocation_def call_success_def split: effect.splits)

text \<open>A call may be made: a terminal one only after the required steps, any one only after its prerequisites.\<close>

definition call_allowed :: "workflow \<Rightarrow> history \<Rightarrow> tool_call \<Rightarrow> bool" where
  "call_allowed flow h tc \<longleftrightarrow>
     (is_terminal flow tc \<longrightarrow> set (wf_required_steps flow) \<subseteq> fst ` set (successes h))
     \<and> (\<forall>d. map_of (wf_tools flow) (tc_tool tc) = Some d \<longrightarrow>
          list_all (prerequisite_met (successes h) (tc_args tc)) (tdef_prerequisites d))"

definition history_safe :: "workflow \<Rightarrow> history \<Rightarrow> bool" where
  "history_safe flow h \<longleftrightarrow> (\<forall>h1 tc out h2. h = h1 @ Invoked tc out # h2 \<longrightarrow> call_allowed flow h1 tc)"

lemma prerequisite_met_mono: "prerequisite_met h args p \<Longrightarrow> set h \<subseteq> set h' \<Longrightarrow> prerequisite_met h' args p"
  by (cases p) auto

lemma call_allowed_append: "call_allowed flow h tc \<Longrightarrow> call_allowed flow (h @ h') tc"
  by (force simp: call_allowed_def list_all_iff elim: prerequisite_met_mono)

lemma history_safe_snoc:
  "history_safe flow (h @ [e]) \<longleftrightarrow>
     history_safe flow h \<and> (\<forall>tc out. e = Invoked tc out \<longrightarrow> call_allowed flow h tc)"
proof -
  have "h @ [e] = h1 @ x # h2 \<longleftrightarrow> (h2 = [] \<and> h = h1 \<and> e = x) \<or> (\<exists>h3. h2 = h3 @ [e] \<and> h = h1 @ x # h3)"
    for h1 x h2
    by (cases h2 rule: rev_cases) auto
  then show ?thesis unfolding history_safe_def by auto
qed

lemma history_safe_no_invocation:
  "\<forall>e \<in> set h'. \<not> is_invocation e \<Longrightarrow> history_safe flow (h @ h') \<longleftrightarrow> history_safe flow h"
proof (induction h' rule: rev_induct)
  case (snoc e h')
  then show ?case
    using history_safe_snoc [of flow "h @ h'" e] by auto
qed simp

section \<open>What inference adds to the history\<close>

lemma prepare_request_history:
  assumes "prepare_request env args attempt s = (request, s')"
  obtains h' where "is_history s' = is_history s @ h'"
    and "\<forall>e \<in> set h'. \<not> is_invocation e \<and> \<not> is_request e"
proof (cases "maybe_compact (le_floats env) (is_cm s) (is_messages s) (ia_step_index args)")
  case None
  then show ?thesis
    using assms that [of "[]"] by (auto simp: prepare_request_def Let_def split: prod.splits)
next
  case (Some r)
  then show ?thesis
    using assms that [of "[Compacted (snd r)]"] by (auto simp: prepare_request_def Let_def split: prod.splits)
qed

lemma send_history:
  assumes "(if b then send_streaming else send_batch) env h request = (sent, h')"
  obtains h'' where "h' = h @ h''" and "\<forall>e \<in> set h''. \<not> is_invocation e" and "requests_sent h'' = 1"
proof -
  have "requests_sent (map Chunk cs) = 0" for cs
    by (induction cs) (simp_all add: requests_sent_def)
  then show ?thesis
    using assms that
    by (cases b) (auto simp: send_streaming_def send_batch_def Let_def
        split: prod.splits option.splits send_outcome.splits)
qed

lemma retry_step_history: "retry_step env args r n s = (x, s') \<Longrightarrow> is_history s' = is_history s"
  by (auto simp: retry_step_def split: prod.splits if_splits)

lemma inference_attempts_history:
  "inference_attempts env args left attempts s = (r, s') \<Longrightarrow>
     \<exists>h'. is_history s' = is_history s @ h' \<and> (\<forall>e \<in> set h'. \<not> is_invocation e)
       \<and> requests_sent h' \<le> left \<and> (\<forall>response n. r = Inferred response n \<longrightarrow> n = attempts + requests_sent h')"
proof (induction env args left attempts s arbitrary: r s' rule: inference_attempts.induct)
  case (2 env args left attempts s)
  obtain request s1 where prep: "prepare_request env args attempts s = (request, s1)" by fastforce
  obtain h1 where h1: "is_history s1 = is_history s @ h1" "\<forall>e \<in> set h1. \<not> is_invocation e \<and> \<not> is_request e"
    using prepare_request_history [OF prep] .
  then have none: "requests_sent h1 = 0" by (simp add: requests_sent_def filter_empty_conv)
  obtain sent h where send: "(if ia_stream args then send_streaming else send_batch) env (is_history s1) request = (sent, h)"
    by fastforce
  obtain h2 where h2: "h = is_history s1 @ h2" "\<forall>e \<in> set h2. \<not> is_invocation e" "requests_sent h2 = 1"
    using send_history [OF send] .
  have sofar: "h = is_history s @ (h1 @ h2)" "\<forall>e \<in> set (h1 @ h2). \<not> is_invocation e" "requests_sent (h1 @ h2) = 1"
    using h1 h2 none by auto
  show ?case
  proof (cases sent)
    case (Inl e)
    then have "r = Inference_Raised e" "is_history s' = h"
      using "2.prems" prep send by (auto simp: Let_def)
    then show ?thesis using sofar by (intro exI [of _ "h1 @ h2"]) simp
  next
    case (Inr response)
    define s3 where "s3 = (s1\<lparr>is_history := h\<rparr>)
      \<lparr>is_body := None, is_cm := sync_token_count env h (is_cm (s1\<lparr>is_history := h\<rparr>))\<rparr>"
    let ?v = "validate_response (le_text env) (ia_validator args) response"
    obtain e s4 where retry: "retry_step env args response (the (vr_nudge ?v)) s3 = (e, s4)" by fastforce
    have body: "inference_attempts env args (Suc left) attempts s =
        (if \<not> vr_needs_retry ?v then (Inferred (ToolCalls (the (vr_tool_calls ?v))) (Suc attempts),
             s3\<lparr>is_errors := reset_retries (is_errors s3)\<rparr>)
         else (case e of Some x \<Rightarrow> (Inference_Raised x, s4) | None \<Rightarrow> inference_attempts env args left (Suc attempts) s4))"
      using prep send Inr retry by (simp add: Let_def s3_def)
    show ?thesis
    proof (cases "vr_needs_retry ?v \<and> e = None")
      case False
      then have "is_history s' = h" "\<forall>response n. r = Inferred response n \<longrightarrow> n = Suc attempts"
        using "2.prems" body retry_step_history [OF retry] by (auto simp: s3_def split: if_splits option.splits)
      then show ?thesis using sofar by (intro exI [of _ "h1 @ h2"]) simp
    next
      case True
      then have tl: "inference_attempts env args left (Suc attempts) s4 = (r, s')"
        using "2.prems" body by simp
      have "\<exists>h'. is_history s' = is_history s4 @ h' \<and> (\<forall>e \<in> set h'. \<not> is_invocation e)
          \<and> requests_sent h' \<le> left \<and> (\<forall>response n. r = Inferred response n \<longrightarrow> n = Suc attempts + requests_sent h')"
        by (rule "2.IH" [OF refl prep [symmetric] refl send [symmetric] refl Inr refl refl _
              retry [unfolded s3_def, symmetric] _ tl]) (use True in simp_all)
      then obtain h3 where "is_history s' = is_history s4 @ h3" "\<forall>e \<in> set h3. \<not> is_invocation e"
        "requests_sent h3 \<le> left" "\<forall>response n. r = Inferred response n \<longrightarrow> n = Suc attempts + requests_sent h3"
        by blast
      moreover have "is_history s4 = h" using retry_step_history [OF retry] by (simp add: s3_def)
      ultimately show ?thesis using sofar by (intro exI [of _ "(h1 @ h2) @ h3"]) auto
    qed
  qed
qed simp

lemma run_inference_history:
  assumes "run_inference env args m ms cm errs c h = (r, i)"
  obtains h' where "is_history i = h @ h'" and "\<forall>e \<in> set h'. \<not> is_invocation e"
    and "requests_sent h' \<le> attempt_limit errs m"
    and "\<And>response n. r = Inferred response n \<Longrightarrow> n = requests_sent h'"
  using assms inference_attempts_history [of env args "attempt_limit errs m" 0 _ r i]
  unfolding run_inference_def by fastforce

section \<open>What the elementary changes do\<close>

lemma execute_call_effects:
  assumes "execute_call env flow tc cid s b = (err, s', b')"
  obtains "s' = s"
  | out h where "ls_history s' = ls_history s @ [Invoked tc out] @ h" and "\<forall>e \<in> set h. \<not> is_invocation e \<and> \<not> is_request e"
      and "ls_enforcer s' = (case out of Tool_Returned v \<Rightarrow> enforcer_record (tc_tool tc) (tc_args tc) (ls_enforcer s)
             | _ \<Rightarrow> ls_enforcer s)"
      and "ls_errors s' = ls_errors s" and "ls_iteration s' = ls_iteration s"
proof (cases "tc_tool tc \<in> set (keys (wf_tools flow))")
  case True
  define out where "out = le_invoke env (ls_history s) tc"
  define h where "h = drop (Suc (length (ls_history s))) (ls_history s')"
  have "ls_history s' = ls_history s @ [Invoked tc out] @ h \<and> (\<forall>e \<in> set h. \<not> is_invocation e \<and> \<not> is_request e)
     \<and> ls_enforcer s' = (case out of Tool_Returned v \<Rightarrow> enforcer_record (tc_tool tc) (tc_args tc) (ls_enforcer s)
             | _ \<Rightarrow> ls_enforcer s) \<and> ls_errors s' = ls_errors s \<and> ls_iteration s' = ls_iteration s"
    using assms True unfolding h_def
    by (cases out) (auto simp: execute_call_def answer_call_def Let_def out_def [symmetric])
  then show thesis using that(2) by blast
qed (use assms that(1) in \<open>simp add: execute_call_def\<close>)

lemma enforcer_check_effects:
  assumes "enforcer_check e tcs = (chk, e')"
  shows "se_tracker e' = se_tracker e" "se_terminal_tools e' = se_terminal_tools e"
    "se_tool_prerequisites e' = se_tool_prerequisites e"
    "se_max_premature_attempts e' = se_max_premature_attempts e"
    "se_max_prereq_violations e' = se_max_prereq_violations e"
  using assms by (auto simp: enforcer_check_def Let_def split: if_splits)

lemma enforcer_check_prerequisites_effects:
  assumes "enforcer_check_prerequisites e tcs = Inr (chk, e')"
  shows "se_tracker e' = se_tracker e" "se_terminal_tools e' = se_terminal_tools e"
    "se_tool_prerequisites e' = se_tool_prerequisites e"
    "se_max_premature_attempts e' = se_max_premature_attempts e"
    "se_max_prereq_violations e' = se_max_prereq_violations e"
  using assms
  by (induction e tcs rule: enforcer_check_prerequisites.induct)
    (auto simp: bind_result_Inr split: option.splits if_splits)

lemma enforcer_check_prerequisites_clear:
  assumes "enforcer_check_prerequisites e tcs = Inr (chk, e')" and "\<not> sc_needs_nudge chk"
    and "tc \<in> set tcs" and "map_of (se_tool_prerequisites e) (tc_tool tc) = Some ps"
  shows "missing_prerequisites (se_tracker e) (tc_args tc) ps = Inr []"
  using assms
  by (induction e tcs rule: enforcer_check_prerequisites.induct)
    (auto simp: bind_result_Inr blocked_by_def split: option.splits if_splits)

lemma workflow_prerequisites_lookup:
  assumes "map_of (wf_tools flow) t = Some d" and "tdef_prerequisites d \<noteq> []"
  shows "map_of (workflow_prerequisites flow) t = Some (tdef_prerequisites d)"
proof -
  have "map_of (map (\<lambda>(name, d). (name, tdef_prerequisites d)) (filter (\<lambda>(_, d). tdef_prerequisites d \<noteq> []) ts)) t
      = Some (tdef_prerequisites d)" if "map_of ts t = Some d" for ts
    using that assms(2) by (induction ts) (auto split: if_splits)
  then show ?thesis using assms(1) by (simp add: workflow_prerequisites_def)
qed

section \<open>Tools are invoked in a safe order\<close>

text \<open>
  The invariant: the tracker of the enforcer is the one of the successful calls of the history, and
  every invocation so far was allowed by what had happened before it.
\<close>

definition guarded_state :: "workflow \<Rightarrow> loop_state \<Rightarrow> bool" where
  "guarded_state flow s \<longleftrightarrow>
     se_tracker (ls_enforcer s) = tracker_of (wf_required_steps flow) (successes (ls_history s))
     \<and> se_terminal_tools (ls_enforcer s) = wf_terminal_tool flow
     \<and> se_tool_prerequisites (ls_enforcer s) = workflow_prerequisites flow
     \<and> history_safe flow (ls_history s)"

lemma guarded_state_quiet:
  assumes "guarded_state flow s" and "ls_history s' = ls_history s @ h" and "\<forall>e \<in> set h. \<not> is_invocation e"
    and "se_tracker (ls_enforcer s') = se_tracker (ls_enforcer s)"
    and "se_terminal_tools (ls_enforcer s') = se_terminal_tools (ls_enforcer s)"
    and "se_tool_prerequisites (ls_enforcer s') = se_tool_prerequisites (ls_enforcer s)"
  shows "guarded_state flow s'"
  using assms successes_no_invocation [OF assms(3)] history_safe_no_invocation [OF assms(3), of flow "ls_history s"]
  by (simp add: guarded_state_def)

lemma checked_calls_allowed:
  assumes "guarded_state flow s" and "enforcer_check (ls_enforcer s) tcs = (chk, e)" and "\<not> sc_needs_nudge chk"
    and "enforcer_check_prerequisites e tcs = Inr (chk', e')" and "\<not> sc_needs_nudge chk'" and "tc \<in> set tcs"
  shows "call_allowed flow (ls_history s) tc"
proof -
  let ?h = "successes (ls_history s)"
  note inv = assms(1) [unfolded guarded_state_def]
  have "is_terminal flow tc \<longrightarrow> set (wf_required_steps flow) \<subseteq> fst ` set ?h"
    using enforcer_check_clear [of "ls_enforcer s" tcs] assms(2,3,6) inv
    by (auto simp: is_terminal_def steps_satisfied_tracker_of)
  moreover have "list_all (prerequisite_met ?h (tc_args tc)) (tdef_prerequisites d)"
    if d: "map_of (wf_tools flow) (tc_tool tc) = Some d" for d
  proof (cases "tdef_prerequisites d = []")
    case False
    then have "map_of (se_tool_prerequisites e) (tc_tool tc) = Some (tdef_prerequisites d)"
      using workflow_prerequisites_lookup [OF d] inv enforcer_check_effects [OF assms(2)] by simp
    from enforcer_check_prerequisites_clear [OF assms(4,5,6) this]
    show ?thesis
      using missing_prerequisites_Nil inv enforcer_check_effects(1) [OF assms(2)] by (fastforce simp: list_all_iff)
  qed simp
  ultimately show ?thesis by (simp add: call_allowed_def)
qed

lemma executed_call_guarded:
  assumes "guarded_state flow s" and "call_allowed flow (ls_history s) tc"
    and "execute_call env flow tc cid s b = (err, s', b')"
  shows "guarded_state flow s'"
  using assms(3)
proof (cases rule: execute_call_effects)
  case (2 out h)
  have "history_safe flow (ls_history s @ [Invoked tc out])"
    using assms(1,2) history_safe_snoc [of flow "ls_history s" "Invoked tc out"] by (simp add: guarded_state_def)
  then have "history_safe flow (ls_history s')"
    using 2(1,2) history_safe_no_invocation [of h flow "ls_history s @ [Invoked tc out]"] by simp
  moreover have "successes (ls_history s') = successes (ls_history s) @ call_success (Invoked tc out)"
    using 2(1,2) successes_no_invocation [of h] by simp
  moreover have "se_tracker (ls_enforcer s') = tracker_of (wf_required_steps flow) (successes (ls_history s'))"
    "se_terminal_tools (ls_enforcer s') = wf_terminal_tool flow"
    "se_tool_prerequisites (ls_enforcer s') = workflow_prerequisites flow"
    using assms(1) 2(3) calculation(2)
    by (auto simp: guarded_state_def enforcer_record_def call_success_def split: tool_outcome.splits)
  ultimately show ?thesis by (simp add: guarded_state_def)
qed (use assms(1) in simp)

interpretation guarded: loop_invariant env flow "guarded_state flow" "\<lambda>tc s. call_allowed flow (ls_history s) tc"
    rc "guarded_state flow" for env flow rc
proof unfold_locales
  fix s m c tcs chk e tc cid b err s' b' out tc'
  show "guarded_state flow s \<Longrightarrow> guarded_state flow (emit m s)"
    by (rule guarded_state_quiet [where h = "[Emitted m]"]) simp_all
  show "guarded_state flow s \<Longrightarrow> guarded_state flow (s\<lparr>ls_counter := c\<rparr>)"
    by (simp add: guarded_state_def)
  show "guarded_state flow s \<Longrightarrow> enforcer_check (ls_enforcer s) tcs = (chk, e) \<Longrightarrow> guarded_state flow (s\<lparr>ls_enforcer := e\<rparr>)"
    by (simp add: guarded_state_def enforcer_check_effects)
  show "guarded_state flow s \<Longrightarrow> enforcer_check_prerequisites (ls_enforcer s) tcs = Inr (chk, e) \<Longrightarrow>
      guarded_state flow (s\<lparr>ls_enforcer := e\<rparr>)"
    by (simp add: guarded_state_def enforcer_check_prerequisites_effects)
  show "guarded_state flow s \<Longrightarrow> call_allowed flow (ls_history s) tc \<Longrightarrow>
      execute_call env flow tc cid s b = (err, s', b') \<Longrightarrow> guarded_state flow s'"
    by (rule executed_call_guarded)
  show "guarded_state flow s \<Longrightarrow> finish_batch s b = (out, s') \<Longrightarrow> guarded_state flow s'"
    by (auto simp: guarded_state_def finish_batch_def Let_def reset_prereq_violations_def reset_premature_def
        split: if_splits option.splits terminal_result.splits)
  show "call_allowed flow (ls_history s) tc \<Longrightarrow> call_allowed flow (ls_history (emit m s)) tc"
    by (simp add: call_allowed_append)
  show "call_allowed flow (ls_history s) tc \<Longrightarrow> call_allowed flow (ls_history (s\<lparr>ls_counter := c\<rparr>)) tc"
    by simp
  show "guarded_state flow s \<Longrightarrow> call_allowed flow (ls_history s) tc \<Longrightarrow>
      execute_call env flow tc' cid s b = (err, s', b') \<Longrightarrow> call_allowed flow (ls_history s') tc"
    by (erule execute_call_effects) (simp_all add: call_allowed_append)
next
  fix s tcs chk e chk' e' tc
  show "guarded_state flow s \<Longrightarrow> enforcer_check (ls_enforcer s) tcs = (chk, e) \<Longrightarrow> \<not> sc_needs_nudge chk \<Longrightarrow>
      enforcer_check_prerequisites e tcs = Inr (chk', e') \<Longrightarrow> \<not> sc_needs_nudge chk' \<Longrightarrow> tc \<in> set tcs \<Longrightarrow>
      call_allowed flow (ls_history (s\<lparr>ls_enforcer := e'\<rparr>)) tc"
    by (simp add: checked_calls_allowed)
next
  fix s r i response n
  show "guarded_state flow (after_inference i s)"
    if "guarded_state flow s" and "run_inference env (loop_inference_args rc flow s)
      (Some (rc_max_iterations rc - ls_iteration s)) (ls_messages s) (ls_cm s) (ls_errors s) (ls_counter s)
      (ls_history s) = (r, i)"
    using that(2) by (rule run_inference_history)
      (rule guarded_state_quiet [OF that(1)], simp_all add: after_inference_def)
  show "guarded_state flow (accept_inference i n s)"
    if "guarded_state flow s" and "run_inference env (loop_inference_args rc flow s)
      (Some (rc_max_iterations rc - ls_iteration s)) (ls_messages s) (ls_cm s) (ls_errors s) (ls_counter s)
      (ls_history s) = (Inferred response n, i)"
    using that(2)
  proof (rule run_inference_history)
    fix h assume "is_history i = ls_history s @ h" "\<forall>e \<in> set h. \<not> is_invocation e"
    then show ?thesis
      by (intro guarded_state_quiet [OF that(1), of _ "h @ map Emitted (is_new_messages i)"])
        (auto simp: accept_inference_def after_inference_def Let_def)
  qed
qed

lemma guarded_initial: "guarded_state flow (initial_state rc flow cm ms)"
  by (simp add: guarded_state_def initial_state_def new_enforcer_def history_safe_def)

lemma run_workflow_ends:
  assumes "run_workflow env rc flow cm user_message prompt_vars initial_messages = (out, s')"
  obtains (template) e where "out = Failed (PythonError e)" and "s' = initial_state rc flow cm []"
  | (loop) s where "run_loop env rc flow s = (out, s')" and "ls_iteration s = 0" and "successes (ls_history s) = []"
      and "requests_sent (ls_history s) = 0" and "guarded_state flow s"
proof (cases initial_messages)
  case (Some ms)
  then show ?thesis
    using assms that(2) [of "initial_state rc flow cm ms"] guarded_initial
    by (simp add: run_workflow_def initial_state_def)
next
  case None
  show ?thesis
  proof (cases "le_format env (wf_system_prompt_template flow) prompt_vars")
    case (Inl e)
    then show ?thesis using assms None that(1) by (auto simp: run_workflow_def)
  next
    case (Inr prompt)
    let ?s = "emit_all [plain_message ROLE_SYSTEM prompt SYSTEM_PROMPT None,
      plain_message ROLE_USER user_message USER_INPUT None] (initial_state rc flow cm [])"
    have "guarded_state flow ?s" by (rule guarded.emit_all [OF guarded_initial])
    then show ?thesis
      using assms None Inr that(2) [of ?s]
      by (simp add: run_workflow_def emit_all_def initial_state_def requests_sent_def)
  qed
qed

text \<open>
  C26: in every run of a workflow, whatever the model asks for and the tools answer, a terminal tool
  is invoked only after each required step was invoked and succeeded, and any tool only after every
  one of its prerequisites was met by an earlier successful call.
\<close>

theorem run_invokes_in_order:
  assumes "run_workflow env rc flow cm user_message prompt_vars initial_messages = (out, s')"
    and "ls_history s' = earlier @ Invoked tc outcome # later"
  shows "(tc_tool tc \<in> set (wf_terminal_tool flow) \<longrightarrow> set (wf_required_steps flow) \<subseteq> fst ` set (successes earlier))
     \<and> (\<forall>d. map_of (wf_tools flow) (tc_tool tc) = Some d \<longrightarrow>
          list_all (prerequisite_met (successes earlier) (tc_args tc)) (tdef_prerequisites d))"
  using assms(1)
proof (cases rule: run_workflow_ends)
  case (template e)
  then show ?thesis using assms(2) by (simp add: initial_state_def)
next
  case (loop s)
  have "guarded_state flow s'" by (rule guarded.run [OF loop(1,5)])
  then show ?thesis
    using assms(2) by (simp add: guarded_state_def history_safe_def call_allowed_def is_terminal_def)
qed

section \<open>The iteration budget\<close>

definition within_budget :: "runner_config \<Rightarrow> loop_state \<Rightarrow> bool" where
  "within_budget rc s \<longleftrightarrow> int (requests_sent (ls_history s)) \<le> ls_iteration s
     \<and> ls_iteration s \<le> max 0 (rc_max_iterations rc)"

definition requests_bounded :: "runner_config \<Rightarrow> loop_state \<Rightarrow> bool" where
  "requests_bounded rc s \<longleftrightarrow> int (requests_sent (ls_history s)) \<le> max 0 (rc_max_iterations rc)"

lemma attempt_limit_le: "0 \<le> m \<Longrightarrow> int (attempt_limit e (Some m)) \<le> m"
  by (simp add: attempt_limit_def Let_def)

interpretation budget: loop_invariant env flow "within_budget rc" "\<lambda>_ _. True" rc "requests_bounded rc"
  for env flow rc
proof unfold_locales
  fix s m c tcs chk e tc cid b err s' b' out tc'
  show "within_budget rc s \<Longrightarrow> within_budget rc (emit m s)"
    by (simp add: within_budget_def)
  show "within_budget rc s \<Longrightarrow> execute_call env flow tc cid s b = (err, s', b') \<Longrightarrow> within_budget rc s'"
    by (erule execute_call_effects) (auto simp: within_budget_def requests_sent_def filter_empty_conv)
  show "within_budget rc s \<Longrightarrow> finish_batch s b = (out, s') \<Longrightarrow> within_budget rc s'"
    by (auto simp: within_budget_def finish_batch_def Let_def split: if_splits option.splits terminal_result.splits)
next
  fix s r i response n
  show "requests_bounded rc (after_inference i s)"
    if "within_budget rc s" and "ls_iteration s < rc_max_iterations rc" and "run_inference env (loop_inference_args rc flow s)
      (Some (rc_max_iterations rc - ls_iteration s)) (ls_messages s) (ls_cm s) (ls_errors s) (ls_counter s)
      (ls_history s) = (r, i)"
    using that(3)
  proof (rule run_inference_history)
    fix h assume "is_history i = ls_history s @ h"
      and "requests_sent h \<le> attempt_limit (ls_errors s) (Some (rc_max_iterations rc - ls_iteration s))"
    then show ?thesis
      using that(1,2) attempt_limit_le [of "rc_max_iterations rc - ls_iteration s" "ls_errors s"]
      by (simp add: requests_bounded_def within_budget_def after_inference_def)
  qed
  show "within_budget rc (accept_inference i n s)"
    if "within_budget rc s" and "ls_iteration s < rc_max_iterations rc" and "run_inference env (loop_inference_args rc flow s)
      (Some (rc_max_iterations rc - ls_iteration s)) (ls_messages s) (ls_cm s) (ls_errors s) (ls_counter s)
      (ls_history s) = (Inferred response n, i)"
    using that(3)
  proof (rule run_inference_history)
    fix h assume "is_history i = ls_history s @ h" and n: "\<And>response' n'. Inferred response n = Inferred response' n' \<Longrightarrow> n' = requests_sent h"
      and "requests_sent h \<le> attempt_limit (ls_errors s) (Some (rc_max_iterations rc - ls_iteration s))"
    moreover have "requests_sent (map Emitted ms) = 0" for ms
      by (simp add: requests_sent_def filter_empty_conv)
    ultimately show ?thesis
      using that(1,2) attempt_limit_le [of "rc_max_iterations rc - ls_iteration s" "ls_errors s"]
      by (simp add: within_budget_def accept_inference_def after_inference_def Let_def n [OF refl])
  qed
qed (auto simp: within_budget_def requests_bounded_def)

lemma requests_within:
  assumes "run_workflow env rc flow cm user_message prompt_vars initial_messages = (out, s')"
  shows "int (requests_sent (ls_history s')) \<le> max 0 (rc_max_iterations rc)"
  using assms
proof (cases rule: run_workflow_ends)
  case (loop s)
  have "within_budget rc s" using loop by (simp add: within_budget_def)
  from budget.run [OF loop(1) this] show ?thesis by (simp add: requests_bounded_def)
qed (simp add: initial_state_def)

text \<open>
  C27: a run always ends, and it asks the model at most \<open>max_iterations\<close> times, retries included.
\<close>

theorem run_requests_bounded:
  "int (requests_sent (ls_history (snd (run_workflow env rc flow cm user_message prompt_vars initial_messages))))
     \<le> max 0 (rc_max_iterations rc)"
proof -
  obtain out s' where r: "run_workflow env rc flow cm user_message prompt_vars initial_messages = (out, s')"
    by fastforce
  then show ?thesis
  proof (cases rule: run_workflow_ends)
    case (loop s)
    have "within_budget rc s" using loop by (simp add: within_budget_def)
    from budget.run [OF loop(1) this] show ?thesis by (simp add: requests_bounded_def r)
  qed (simp add: r initial_state_def)
qed

section \<open>The outcomes of calls\<close>

text \<open>Every invocation in the history has the outcome that the environment gave at that point.\<close>

definition answered :: "loop_env \<Rightarrow> history \<Rightarrow> bool" where
  "answered env h \<longleftrightarrow> (\<forall>h1 tc out h2. h = h1 @ Invoked tc out # h2 \<longrightarrow> out = le_invoke env h1 tc)"

lemma answered_quiet:
  assumes "answered env h" and "\<forall>e \<in> set h'. \<not> is_invocation e"
  shows "answered env (h @ h')"
  unfolding answered_def
proof (intro allI impI)
  fix h1 tc out h2
  assume eq: "h @ h' = h1 @ Invoked tc out # h2"
  then obtain us where "h = h1 @ us \<and> us @ h' = Invoked tc out # h2 \<or> h @ us = h1 \<and> h' = us @ Invoked tc out # h2"
    by (auto simp: append_eq_append_conv2)
  then show "out = le_invoke env h1 tc"
    using assms by (cases us) (auto simp: answered_def)
qed

lemma answered_call:
  assumes "answered env h" and "out = le_invoke env h tc"
  shows "answered env (h @ [Invoked tc out])"
  using assms unfolding answered_def by (fastforce simp: append_eq_append_conv2 Cons_eq_append_conv append_eq_Cons_conv)

lemma execute_call_answers:
  assumes "execute_call env flow tc cid s b = (err, s', b')"
  obtains "s' = s" | h where "ls_history s' = (ls_history s @ [Invoked tc (le_invoke env (ls_history s) tc)]) @ h"
    and "\<forall>e \<in> set h. \<not> is_invocation e"
  using assms
  by (auto simp: execute_call_def answer_call_def Let_def split: if_splits tool_outcome.splits)

interpretation answers: loop_invariant env flow "\<lambda>s. answered env (ls_history s)" "\<lambda>_ _. True"
    rc "\<lambda>s. answered env (ls_history s)" for env flow rc
proof unfold_locales
  fix s m c tcs chk e tc cid b err s' b' out tc'
  show "answered env (ls_history s) \<Longrightarrow> answered env (ls_history (emit m s))"
    by (simp add: answered_quiet)
  show "answered env (ls_history s) \<Longrightarrow> execute_call env flow tc cid s b = (err, s', b') \<Longrightarrow> answered env (ls_history s')"
    by (erule execute_call_answers) (simp_all only: answered_quiet answered_call refl)
  show "answered env (ls_history s) \<Longrightarrow> finish_batch s b = (out, s') \<Longrightarrow> answered env (ls_history s')"
    by (auto simp: finish_batch_def Let_def split: if_splits option.splits terminal_result.splits)
next
  fix s r i response n
  show "answered env (ls_history (after_inference i s))"
    if "answered env (ls_history s)" and "run_inference env (loop_inference_args rc flow s)
      (Some (rc_max_iterations rc - ls_iteration s)) (ls_messages s) (ls_cm s) (ls_errors s) (ls_counter s)
      (ls_history s) = (r, i)"
    using that(2) by (rule run_inference_history) (simp add: after_inference_def answered_quiet [OF that(1)])
  show "answered env (ls_history (accept_inference i n s))"
    if "answered env (ls_history s)" and "run_inference env (loop_inference_args rc flow s)
      (Some (rc_max_iterations rc - ls_iteration s)) (ls_messages s) (ls_cm s) (ls_errors s) (ls_counter s)
      (ls_history s) = (Inferred response n, i)"
    using that(2)
    by (rule run_inference_history)
      (auto simp: accept_inference_def after_inference_def Let_def intro!: answered_quiet that(1))
qed auto

section \<open>Where a result comes from\<close>

definition terminal_returned :: "workflow \<Rightarrow> json \<Rightarrow> history \<Rightarrow> bool" where
  "terminal_returned flow v h \<longleftrightarrow>
     (\<exists>h1 tc h2. h = h1 @ Invoked tc (Tool_Returned v) # h2 \<and> is_terminal flow tc)"

lemma terminal_returned_append: "terminal_returned flow v h \<Longrightarrow> terminal_returned flow v (h @ h')"
  by (force simp: terminal_returned_def)

lemma terminal_returned_here [simp]:
  "is_terminal flow tc \<Longrightarrow> terminal_returned flow v (h @ Invoked tc (Tool_Returned v) # h')"
  unfolding terminal_returned_def by blast

lemma execute_call_terminal:
  assumes "execute_call env flow tc cid s b = (None, s', b')" and "bs_terminal b' = Result_Value v"
  shows "bs_terminal b = Result_Value v \<and> (\<exists>h. ls_history s' = ls_history s @ h)
     \<or> terminal_returned flow v (ls_history s')"
  using assms
  by (auto simp: execute_call_def answer_call_def Let_def split: if_splits tool_outcome.splits)

lemma execute_batch_terminal:
  "execute_batch env flow calls s b = (None, s', b') \<Longrightarrow> bs_terminal b' = Result_Value v \<Longrightarrow>
     bs_terminal b \<noteq> Result_Value v \<Longrightarrow> terminal_returned flow v (ls_history s')"
proof (induction calls arbitrary: s b)
  case (Cons c calls)
  obtain tc cid where c: "c = (tc, cid)" by (cases c)
  obtain err s1 b1 where step: "execute_call env flow tc cid s b = (err, s1, b1)"
    by (cases "execute_call env flow tc cid s b")
  have err: "err = None" and rest: "execute_batch env flow calls s1 b1 = (None, s', b')"
    using Cons.prems(1) c step by (cases err; simp)+
  have grows: "\<exists>h. ls_history t = ls_history s @ h"
    if "execute_batch env flow cs s b = (x, t, y)" for cs s b x t y
    using that
  proof (induction cs arbitrary: s b)
    case (Cons c cs)
    obtain tc cid where c: "c = (tc, cid)" by (cases c)
    obtain err s1 b1 where step: "execute_call env flow tc cid s b = (err, s1, b1)"
      by (cases "execute_call env flow tc cid s b")
    have "\<exists>h. ls_history s1 = ls_history s @ h"
      using step by (rule execute_call_effects) auto
    moreover have "\<exists>h. ls_history t = ls_history s1 @ h"
      using Cons.prems c step Cons.IH [of s1 b1] by (cases err) auto
    ultimately show ?case by auto
  qed auto
  show ?case
  proof (cases "bs_terminal b1 = Result_Value v")
    case True
    then have "terminal_returned flow v (ls_history s1)"
      using execute_call_terminal [of env flow tc cid s b s1 b1 v] step err Cons.prems(3) by auto
    then show ?thesis using grows [OF rest] terminal_returned_append by auto
  next
    case False
    then show ?thesis using Cons.IH [OF rest Cons.prems(2)] by simp
  qed
qed simp

lemma finish_batch_completed:
  "finish_batch s b = (Some (Completed v), s') \<Longrightarrow> bs_terminal b = Result_Value v \<and> v \<noteq> JNull \<and> ls_history s' = ls_history s"
  by (auto simp: finish_batch_def Let_def split: if_splits option.splits terminal_result.splits)

lemma run_batch_completed:
  assumes "run_batch env flow tcs s = (Some (Completed v), s')"
  shows "v \<noteq> JNull \<and> terminal_returned flow v (ls_history s')"
proof -
  obtain infos c where "build_tool_call_infos tcs (ls_counter s) = (infos, c)" by fastforce
  then obtain s1 s2 b where batch: "execute_batch env flow (zip tcs (map tci_call_id infos)) s1 new_batch = (None, s2, b)"
    and finish: "finish_batch s2 b = (Some (Completed v), s')"
    using assms by (auto simp: run_batch_def Let_def split: if_splits prod.splits option.splits)
  show ?thesis
    using finish_batch_completed [OF finish] execute_batch_terminal [OF batch, of v]
    by (simp add: new_batch_def)
qed

lemma turn_completed:
  assumes "turn env rc flow s = (Some (Completed v), s')"
  shows "v \<noteq> JNull \<and> terminal_returned flow v (ls_history s')"
proof -
  obtain tcs s1 where "guard_batch env flow tcs s1 = (Some (Completed v), s')"
    using assms
    by (auto simp: turn_def max_iterations_failure_def Let_def
        split: if_splits prod.splits inference_outcome.splits llm_response.splits)
  then obtain s2 where "run_batch env flow tcs s2 = (Some (Completed v), s')"
    by (auto simp: guard_batch_def Let_def split: if_splits prod.splits sum.splits option.splits)
  then show ?thesis by (rule run_batch_completed)
qed

lemma run_workflow_completed:
  assumes "run_workflow env rc flow cm user_message prompt_vars initial_messages = (Completed v, s')"
  shows "v \<noteq> JNull \<and> terminal_returned flow v (ls_history s')"
  using assms
proof (cases rule: run_workflow_ends)
  case (loop s)
  show ?thesis
    using loop(1) by (rule run_loop_last_round) (auto simp: max_iterations_failure_def dest: turn_completed)
qed simp

text \<open>
  C28: a completed run returns a value that a terminal tool returned in it, never null, and at that
  point every required step had succeeded.
\<close>

theorem run_completed_by_terminal:
  assumes "run_workflow env rc flow cm user_message prompt_vars initial_messages = (Completed v, s')"
  shows "v \<noteq> JNull \<and> (\<exists>earlier tc later. ls_history s' = earlier @ Invoked tc (Tool_Returned v) # later
     \<and> tc_tool tc \<in> set (wf_terminal_tool flow)
     \<and> set (wf_required_steps flow) \<subseteq> fst ` set (successes earlier))"
  using assms
proof (cases rule: run_workflow_ends)
  case (loop s)
  have "guarded_state flow s'" by (rule guarded.run [OF loop(1,5)])
  with run_workflow_completed [OF assms] show ?thesis
    by (fastforce simp: terminal_returned_def guarded_state_def history_safe_def call_allowed_def is_terminal_def)
qed simp

section \<open>A run\<close>

text \<open>
  A model that asks for a terminal tool at once, is refused, reads, and asks again; the tools answer
  with a text.
\<close>

definition sample_flow :: workflow where
  "sample_flow = \<lparr>wf_name = ''w'', wf_description = ''d'',
     wf_tools = [(''read'', \<lparr>tdef_spec = \<lparr>ts_name = ''read'', ts_description = ''r'', ts_parameters = JObj []\<rparr>,
                   tdef_prerequisites = []\<rparr>),
                 (''done'', \<lparr>tdef_spec = \<lparr>ts_name = ''done'', ts_description = ''e'', ts_parameters = JObj []\<rparr>,
                   tdef_prerequisites = [By_Name ''read'']\<rparr>)],
     wf_required_steps = [''read''], wf_terminal_tool = [''done''], wf_system_prompt_template = ''p''\<rparr>"

definition sample_config :: runner_config where
  "sample_config = \<lparr>rc_max_iterations = 4, rc_max_retries_per_step = 3, rc_max_tool_errors = 2, rc_stream = False,
     rc_rescue_enabled = False, rc_retry_nudge = None, rc_max_premature_attempts = 3, rc_max_prereq_violations = 2\<rparr>"

definition sample_client :: "history \<Rightarrow> send_request \<Rightarrow> send_outcome" where
  "sample_client h r =
     Responded (ToolCalls [mk_tool_call (if requests_sent h = 1 then ''read'' else ''done'') (JObj [])])"

definition sample_env :: loop_env where
  "sample_env = \<lparr>le_text = plain_text_env, le_floats = exact_floats, le_api_format = ''openai'', le_send = sample_client,
     le_stream = (\<lambda>_ _. ([], None)), le_usage = (\<lambda>_. None), le_invoke = (\<lambda>_ _. Tool_Returned (JStr ''ok'')),
     le_cancelled = (\<lambda>_. False), le_format = (\<lambda>t _. Ok t)\<rparr>"

definition sample_run :: "run_outcome \<times> loop_state" where
  "sample_run = run_workflow sample_env sample_config sample_flow (new_context_manager NoCompact 100 [] None)
     ''go'' [] None"

definition invocations :: "history \<Rightarrow> (string \<times> json) list" where
  "invocations h = concat (map (\<lambda>e. case e of Invoked tc (Tool_Returned v) \<Rightarrow> [(tc_tool tc, v)] | _ \<Rightarrow> []) h)"

lemma sample_run_eval:
  "fst sample_run = Completed (JStr ''ok'')"
  "invocations (ls_history (snd sample_run)) = [(''read'', JStr ''ok''), (''done'', JStr ''ok'')]"
  by code_simp+

lemma invocation_split:
  "(t, v) \<in> set (invocations h) \<Longrightarrow> \<exists>e tc l. h = e @ Invoked tc (Tool_Returned v) # l \<and> tc_tool tc = t"
  by (auto simp: invocations_def split: effect.splits tool_outcome.splits) (metis in_set_conv_decomp)

lemma sample_run_pair:
  "run_workflow sample_env sample_config sample_flow (new_context_manager NoCompact 100 [] None) ''go'' [] None =
     (Completed (JStr ''ok''), snd sample_run)"
  using sample_run_eval(1) by (simp add: sample_run_def [symmetric] prod_eq_iff)

lemma run_invokes_in_order_witness:
  "\<exists>earlier tc later. ls_history (snd sample_run) = earlier @ Invoked tc (Tool_Returned (JStr ''ok'')) # later
     \<and> tc_tool tc = ''done'' \<and> ''read'' \<in> fst ` set (successes earlier)"
proof -
  have "(''done'', JStr ''ok'') \<in> set (invocations (ls_history (snd sample_run)))"
    by (simp add: sample_run_eval)
  then obtain earlier tc later where
    h: "ls_history (snd sample_run) = earlier @ Invoked tc (Tool_Returned (JStr ''ok'')) # later" "tc_tool tc = ''done''"
    using invocation_split by blast
  from run_invokes_in_order [OF sample_run_pair h(1)] h show ?thesis
    by (auto simp: sample_flow_def)
qed

lemma run_completed_by_terminal_witness:
  "\<exists>earlier tc later. ls_history (snd sample_run) = earlier @ Invoked tc (Tool_Returned (JStr ''ok'')) # later
     \<and> tc_tool tc \<in> {''done''}"
  using run_completed_by_terminal [OF sample_run_pair] by (auto simp: sample_flow_def)

end
