(* ===== verification/Session.thy ===== *)
theory Session
  imports Model_Bridge Bridge_Safety Loop_Safety
begin

text \<open>
  A guarded session: \<^verbatim>\<open>ForgeGuardrailBackend.run_session\<close> of \<^verbatim>\<open>_forge/adapter.py\<close>, which checks
  the request, loads and verifies the plan, builds the workflow with its two bridges, runs the
  guarded loop and turns what comes of it into a result. The tasks of \<^verbatim>\<open>asyncio\<close> are their outcomes:
  the watcher of the cancellation token is the moment at which the loop finds its event set.
\<close>

section \<open>The outside of a session\<close>

record session_env =
  se_plan :: plan_env
  se_pydantic :: pydantic_env
  se_redactor :: redactor
  se_output :: output_env
  se_text :: text_env
  se_floats :: float_ops

text \<open>
  A time of day is its text and its seconds. The n-th look at the token and at the monotonic clock
  before and after the loop may differ; \<open>sw_load\<close> is the plan loader. The client and the tool calls
  answer as functions of the history of the loop.
\<close>

record session_world =
  sw_started :: "string \<times> rat"
  sw_completed :: "string \<times> rat"
  sw_token :: "exception_info + string"
  sw_is_cancelled :: "nat \<Rightarrow> bool"
  sw_reason :: "string option"
  sw_now :: "nat \<Rightarrow> rat"
  sw_load :: "exception_info + compiled_harness_plan"
  sw_stamp :: "nat \<Rightarrow> string \<times> rat"
  sw_complete :: "history \<Rightarrow> model_completion_request \<Rightarrow> exception_info + model_completion_response"
  sw_call :: "history \<Rightarrow> call_world"
  sw_cancel_event :: "history \<Rightarrow> bool"

record session_state =
  ss_log :: event_log
  ss_model :: "model_bridge option"
  ss_tools :: "tool_bridge option"
  ss_node_ids :: "(string \<times> string) list"

definition new_session :: session_state where
  "new_session = \<lparr>ss_log = new_log, ss_model = None, ss_tools = None, ss_node_ids = []\<rparr>"

text \<open>What ends a session: an exception of the loop, or one of the code around it.\<close>

datatype session_error = Loop_Error loop_error | Session_Error exception_info

section \<open>Admission\<close>

definition backend_translation :: "string \<Rightarrow> exception_info" where
  "backend_translation message = exception_of [''BackendTranslationError'', ''MillforgeError''] message"

definition deadline_expired :: "string \<Rightarrow> exception_info" where
  "deadline_expired message = exception_of [''DeadlineExceededError'', ''MillforgeError''] message"

definition session_cancelled :: "string \<Rightarrow> exception_info" where
  "session_cancelled message = exception_of [''OperationCancelledError'', ''MillforgeError''] message"

definition demand :: "bool \<Rightarrow> exception_info \<Rightarrow> exception_info + unit" where
  "demand b e = (if b then Inr () else Inl e)"

definition validate_session_request :: "guarded_session_request \<Rightarrow> exception_info + unit" where
  "validate_session_request request =
     (let r = gsr_execution_request request in
      bind_result (demand (nonblank (gsr_session_id request))
        (backend_translation ''guarded session_id must be non-empty'')) (\<lambda>_.
      demand (nonblank (her_request_id r) \<and> nonblank (her_run_id r))
        (backend_translation ''execution identity must be non-empty'')))"

definition check_session_deadline :: "session_world \<Rightarrow> guarded_session_request \<Rightarrow> exception_info + unit" where
  "check_session_deadline w request =
     demand (\<not> dl_effective (gsr_deadline request) \<le> sw_now w 0) (deadline_expired ''guarded session deadline expired'')"

definition check_remaining_deadline :: "session_world \<Rightarrow> guarded_session_request \<Rightarrow> exception_info + unit" where
  "check_remaining_deadline w request =
     demand (\<not> remaining (gsr_deadline request) (sw_now w 1) \<le> 0)
       (deadline_expired ''guarded session has no remaining deadline'')"

definition check_cancelled :: "session_world \<Rightarrow> nat \<Rightarrow> exception_info + unit" where
  "check_cancelled w n =
     demand (\<not> sw_is_cancelled w n) (session_cancelled (reason_or ''workflow cancelled'' (sw_reason w)))"

definition rejected_plan ::
  "compiled_harness_plan \<Rightarrow> compiled_harness_ref \<Rightarrow> string \<Rightarrow> string list \<Rightarrow> exception_info" where
  "rejected_plan plan ref computed_hash warnings =
     forge_binding_rejected
       (if computed_hash \<noteq> plan_compiled_sha256 plan then ''Compiled plan canonical hash mismatch''
        else if computed_hash \<noteq> chr_digest ref then ''Compiled plan expected hash mismatch''
        else join_str ''; '' warnings)"

definition load_verified_plan ::
  "session_env \<Rightarrow> session_world \<Rightarrow> guarded_session_request \<Rightarrow> exception_info + compiled_harness_plan" where
  "load_verified_plan env w request =
     (let ref = her_compiled_harness (gsr_execution_request request) in
      bind_result (sw_load w) (\<lambda>plan.
      bind_result (as_python (canonical_json_serialize (float_text (se_plan env)) (plan_json plan))) (\<lambda>raw.
      case verify_compiled_plan_sha256 (se_plan env) raw (Some (chr_digest ref)) (Some (chr_harness_id ref))
             (Some (chr_harness_version ref)) of
        (verified, computed_hash, warnings, restored) \<Rightarrow>
          (case restored of
             None \<Rightarrow> Inl (rejected_plan plan ref computed_hash warnings)
           | Some p \<Rightarrow> if verified then Inr p else Inl (rejected_plan plan ref computed_hash warnings)))))"

definition recheck_plan_against_request ::
  "compiled_harness_plan \<Rightarrow> guarded_session_request \<Rightarrow> exception_info + unit" where
  "recheck_plan_against_request plan request =
     (let r = gsr_execution_request request; ref = her_compiled_harness r; stage = her_stage r in
      bind_result (demand (plan_harness_id plan = chr_harness_id ref)
        (forge_binding_rejected ''Compiled plan harness_id mismatch'')) (\<lambda>_.
      bind_result (demand (plan_harness_version plan = chr_harness_version ref)
        (forge_binding_rejected ''Compiled plan harness_version mismatch'')) (\<lambda>_.
      bind_result (demand (stage_plane stage = EXECUTION)
        (forge_binding_rejected ''Guarded session stage is not execution'')) (\<lambda>_.
      bind_result (demand (stage_kind_id stage \<in> set (plan_stage_kind_ids plan))
        (forge_binding_rejected ''Compiled plan does not support stage kind'')) (\<lambda>_.
      bind_result (demand (her_model_profile_id r = profile_id (plan_model_profile plan))
        (forge_binding_rejected ''Compiled plan model profile mismatch'')) (\<lambda>_.
      demand (set (plan_required_capabilities plan) \<subseteq> set (map cg_capability_id (her_grants r)))
        (forge_binding_rejected ''Compiled plan capability grants missing'')))))))"

text \<open>Everything before the first event: the plan, and the identifier of the cancellation token.\<close>

definition admit_session ::
  "session_env \<Rightarrow> session_world \<Rightarrow> guarded_session_request \<Rightarrow> exception_info + (compiled_harness_plan \<times> string)" where
  "admit_session env w request =
     bind_result (validate_session_request request) (\<lambda>_.
     bind_result (sw_token w) (\<lambda>token.
     bind_result (check_session_deadline w request) (\<lambda>_.
     bind_result (check_cancelled w 0) (\<lambda>_.
     bind_result (check_remaining_deadline w request) (\<lambda>_.
     bind_result (load_verified_plan env w request) (\<lambda>plan.
     bind_result (recheck_plan_against_request plan request) (\<lambda>_.
     bind_result (check_cancelled w 1) (\<lambda>_. Inr (plan, token)))))))))"

section \<open>Construction\<close>

text \<open>What the loop runs with.\<close>

record session_run =
  sr_plan :: compiled_harness_plan
  sr_input :: forge_workflow_input
  sr_context :: context_manager
  sr_initial :: "message list"

definition forge_exception :: "forge_error \<Rightarrow> exception_info" where
  "forge_exception e = (case e of Binding_Rejected m \<Rightarrow> forge_binding_rejected m | Uncaught e' \<Rightarrow> python_error e')"

definition as_forge :: "forge_error + 'a \<Rightarrow> exception_info + 'a" where
  "as_forge r = (case r of Inl e \<Rightarrow> Inl (forge_exception e) | Inr x \<Rightarrow> Inr x)"

definition requirement_table :: "guarded_session_request \<Rightarrow> (string \<times> selected_output_requirement) list result" where
  "requirement_table request =
     selected_output_requirements_by_terminal_result
       (her_selected_output_requirements (gsr_execution_request request))"

text \<open>The requirements of the session; those of a request that satisfies its contract can be looked up.\<close>

definition session_requirements :: "guarded_session_request \<Rightarrow> (string \<times> selected_output_requirement) list" where
  "session_requirements request = (case requirement_table request of Inl _ \<Rightarrow> [] | Inr t \<Rightarrow> t)"

definition session_bridge_env :: "session_env \<Rightarrow> guarded_session_request \<Rightarrow> compiled_harness_plan \<Rightarrow> bridge_env" where
  "session_bridge_env env request plan =
     \<lparr>be_plan = plan, be_request = request, be_requirements = session_requirements request,
      be_redactor = se_redactor env, be_output = se_output env\<rparr>"

definition terminal_result_by_tool :: "compiled_harness_plan \<Rightarrow> (string \<times> string) list" where
  "terminal_result_by_tool plan =
     foldl (\<lambda>d n. case cn_terminal_result n of None \<Rightarrow> d | Some t \<Rightarrow> dict_set d (cn_model_tool_name n) t) []
       (plan_nodes plan)"

definition session_model_env ::
  "session_env \<Rightarrow> session_world \<Rightarrow> guarded_session_request \<Rightarrow> compiled_harness_plan \<Rightarrow> model_env" where
  "session_model_env env w request plan =
     \<lparr>me_request = request, me_requirements = session_requirements request,
      me_terminal_result_by_tool = terminal_result_by_tool plan, me_output = se_output env,
      me_stamp = sw_stamp w\<rparr>"

text \<open>The workflow, its event, the context manager and the first messages, once both bridges exist.\<close>

definition build_session ::
  "session_env \<Rightarrow> session_world \<Rightarrow> guarded_session_request \<Rightarrow> compiled_harness_plan \<Rightarrow> string \<Rightarrow> session_state \<Rightarrow>
   (exception_info + session_run) \<times> session_state" where
  "build_session env w request plan token s =
     (case as_forge (forge_build (se_pydantic env)
         (map (tb_implementation_id \<circ> cn_binding) (plan_nodes plan)) (Some token) plan) of
        Inl e \<Rightarrow> (Inl e, s)
      | Inr workflow_input \<Rightarrow>
         (case emit_event request (sw_stamp w) WORKFLOW_CONSTRUCTED
             (no_details\<lparr>ed_fields := [(''tool_count'', JInt (int (length (wf_tools (fwi_workflow workflow_input)))))]\<rparr>)
             (ss_log s) of (emitted, lg) \<Rightarrow>
          let s1 = s\<lparr>ss_log := lg, ss_node_ids := fwi_node_id_by_tool workflow_input\<rparr>
          in (bind_result emitted (\<lambda>_.
              bind_result (as_forge (forge_context (plan_context_policy plan))) (\<lambda>cm.
              bind_result (as_python (session_messages (oe_float (se_output env)) plan request)) (\<lambda>initial.
              Inr \<lparr>sr_plan = plan, sr_input = workflow_input, sr_context = cm, sr_initial = initial\<rparr>))), s1)))"

definition start_session ::
  "session_env \<Rightarrow> session_world \<Rightarrow> guarded_session_request \<Rightarrow> (exception_info + session_run) \<times> session_state" where
  "start_session env w request =
     (case admit_session env w request of
        Inl e \<Rightarrow> (Inl e, new_session)
      | Inr (plan, token) \<Rightarrow>
         (case emit_event request (sw_stamp w) SESSION_STARTED no_details (ss_log new_session) of
            (Inl e, lg) \<Rightarrow> (Inl e, new_session\<lparr>ss_log := lg\<rparr>)
          | (Inr _, lg) \<Rightarrow>
             (case requirement_table request of
                Inl e \<Rightarrow> (Inl (python_error e), new_session\<lparr>ss_log := lg\<rparr>)
              | Inr _ \<Rightarrow>
                  build_session env w request plan token
                    (new_session\<lparr>ss_log := lg, ss_model := Some new_model_bridge, ss_tools := Some new_bridge\<rparr>))))"

section \<open>The loop of a session\<close>

text \<open>
  The two bridges and the event log are objects that the client, the tools and the observer of the
  loop change. Their state is replayed from the history of the loop: every effect is one call of
  them. When the observer raises, the loop ends there; what follows in the history did not happen,
  so the state is left as it was.
\<close>

record live_state =
  lv_log :: event_log
  lv_model :: model_bridge
  lv_tools :: tool_bridge
  lv_raised :: "exception_info option"

definition observe_message :: "guarded_session_request \<Rightarrow> session_world \<Rightarrow> message \<Rightarrow> live_state \<Rightarrow> live_state" where
  "observe_message request w m s =
     (case emit_events request (sw_stamp w) (observed_events m) (lv_log s) of
        (raised, lg) \<Rightarrow> s\<lparr>lv_log := lg, lv_raised := raised\<rparr>)"

definition session_send ::
  "session_env \<Rightarrow> session_world \<Rightarrow> guarded_session_request \<Rightarrow> compiled_harness_plan \<Rightarrow> history \<Rightarrow> send_request \<Rightarrow>
   live_state \<Rightarrow> (exception_info + llm_response) \<times> live_state" where
  "session_send env w request plan h sent s =
     (case model_send (session_model_env env w request plan) (sw_complete w h) sent (lv_log s, lv_model s) of
        (answer, lg, mb) \<Rightarrow> (answer, s\<lparr>lv_log := lg, lv_model := mb\<rparr>))"

definition session_call ::
  "session_env \<Rightarrow> session_world \<Rightarrow> guarded_session_request \<Rightarrow> compiled_harness_plan \<Rightarrow> history \<Rightarrow> tool_call \<Rightarrow>
   live_state \<Rightarrow> (exception_info + string) \<times> live_state" where
  "session_call env w request plan h tc s =
     (case bridge_call_tool (session_bridge_env env request plan) (sw_call w h) tc (lv_tools s) of
        (answer, b) \<Rightarrow> (answer, s\<lparr>lv_tools := b\<rparr>))"

definition live_effect ::
  "session_env \<Rightarrow> session_world \<Rightarrow> guarded_session_request \<Rightarrow> compiled_harness_plan \<Rightarrow> history \<Rightarrow> effect \<Rightarrow>
   live_state \<Rightarrow> live_state" where
  "live_effect env w request plan h e s =
     (if lv_raised s \<noteq> None then s
      else case e of
          Sent sent outcome \<Rightarrow> snd (session_send env w request plan h sent s)
        | Invoked tc outcome \<Rightarrow> snd (session_call env w request plan h tc s)
        | Emitted m \<Rightarrow> observe_message request w m s
        | _ \<Rightarrow> s)"

fun replay ::
  "session_env \<Rightarrow> session_world \<Rightarrow> guarded_session_request \<Rightarrow> compiled_harness_plan \<Rightarrow> history \<Rightarrow> history \<Rightarrow>
   live_state \<Rightarrow> live_state" where
  "replay env w request plan earlier [] s = s"
| "replay env w request plan earlier (e # es) s =
     replay env w request plan (earlier @ [e]) es (live_effect env w request plan earlier e s)"

definition session_at ::
  "session_env \<Rightarrow> session_world \<Rightarrow> guarded_session_request \<Rightarrow> compiled_harness_plan \<Rightarrow> live_state \<Rightarrow> history \<Rightarrow>
   live_state" where
  "session_at env w request plan s h = replay env w request plan [] h s"

text \<open>The client, the tools and the cancellation event as the loop sees them; a session never streams.\<close>

definition live_send ::
  "session_env \<Rightarrow> session_world \<Rightarrow> guarded_session_request \<Rightarrow> compiled_harness_plan \<Rightarrow> live_state \<Rightarrow> history \<Rightarrow>
   send_request \<Rightarrow> send_outcome" where
  "live_send env w request plan s h sent =
     (case fst (session_send env w request plan h sent (session_at env w request plan s h)) of
        Inl e \<Rightarrow> Client_Error e | Inr r \<Rightarrow> Responded r)"

definition live_usage ::
  "session_env \<Rightarrow> session_world \<Rightarrow> guarded_session_request \<Rightarrow> compiled_harness_plan \<Rightarrow> live_state \<Rightarrow> history \<Rightarrow> int option" where
  "live_usage env w request plan s h =
     map_option tu_total_tokens (mb_last_usage (lv_model (session_at env w request plan s h)))"

definition live_invoke ::
  "session_env \<Rightarrow> session_world \<Rightarrow> guarded_session_request \<Rightarrow> compiled_harness_plan \<Rightarrow> live_state \<Rightarrow> history \<Rightarrow>
   tool_call \<Rightarrow> tool_outcome" where
  "live_invoke env w request plan s h tc =
     outcome_of_call (fst (session_call env w request plan h tc (session_at env w request plan s h)))"

definition session_loop_env ::
  "session_env \<Rightarrow> session_world \<Rightarrow> guarded_session_request \<Rightarrow> compiled_harness_plan \<Rightarrow> live_state \<Rightarrow> loop_env" where
  "session_loop_env env w request plan s =
     \<lparr>le_text = se_text env, le_floats = se_floats env, le_api_format = ''openai'',
      le_send = live_send env w request plan s,
      le_stream = (\<lambda>h sent. ([], Some (exception_of [''NotImplementedError'', ''RuntimeError'']
          ''ForgeModelBridge explicitly rejects streaming''))),
      le_usage = live_usage env w request plan s, le_invoke = live_invoke env w request plan s,
      le_cancelled = sw_cancel_event w, le_format = (\<lambda>_ _. Ok [])\<rparr>"

definition live_start :: "event_log \<Rightarrow> live_state" where
  "live_start lg = \<lparr>lv_log = lg, lv_model = new_model_bridge, lv_tools = new_bridge, lv_raised = None\<rparr>"

definition left_session :: "session_state \<Rightarrow> live_state \<Rightarrow> session_state" where
  "left_session s l = s\<lparr>ss_log := lv_log l, ss_model := Some (lv_model l), ss_tools := Some (lv_tools l)\<rparr>"

text \<open>The run, and the checks after it; the intent of the bridge is what the session returns.\<close>

definition loop_of_session ::
  "session_env \<Rightarrow> session_world \<Rightarrow> guarded_session_request \<Rightarrow> session_run \<Rightarrow> event_log \<Rightarrow> run_outcome \<times> live_state" where
  "loop_of_session env w request run lg =
     (let live = live_start lg;
          outcome = run_workflow (session_loop_env env w request (sr_plan run) live)
            (session_runner_config (fwi_runner_options (sr_input run))) (fwi_workflow (sr_input run))
            (sr_context run) [] [] (Some (sr_initial run))
      in (fst outcome, session_at env w request (sr_plan run) live (ls_history (snd outcome))))"

definition run_session_loop ::
  "session_env \<Rightarrow> session_world \<Rightarrow> guarded_session_request \<Rightarrow> session_run \<Rightarrow> session_state \<Rightarrow>
   (session_error + terminal_intent) \<times> session_state" where
  "run_session_loop env w request run s =
     (case loop_of_session env w request run (ss_log s) of (outcome, live) \<Rightarrow>
      (case lv_raised live of
         Some e \<Rightarrow> Inl (Session_Error e)
       | None \<Rightarrow>
          (case outcome of
             Failed e \<Rightarrow> Inl (Loop_Error e)
           | Completed v \<Rightarrow>
              (case check_cancelled w 2 of
                 Inl e \<Rightarrow> Inl (Session_Error e)
               | Inr _ \<Rightarrow>
                  (case br_intent (lv_tools live) of
                     None \<Rightarrow> Inl (Session_Error (forge_bridge_error ''Workflow completed without terminal intent''))
                   | Some ti \<Rightarrow> Inr ti))),
       left_session s live))"

section \<open>Results\<close>

definition timing_of :: "session_world \<Rightarrow> timing_metadata" where
  "timing_of w = \<lparr>tm_started_at = fst (sw_started w), tm_completed_at = fst (sw_completed w),
     tm_duration_ms = max 0 ((snd (sw_completed w) - snd (sw_started w)) * 1000)\<rparr>"

definition ordered_events :: "session_event list \<Rightarrow> session_event list" where
  "ordered_events events =
     map (\<lambda>(n, e). e\<lparr>evt_sequence := int n\<rparr>) (zip [1..<Suc (length events)] events)"

definition executed_tool_calls :: "tool_bridge \<Rightarrow> nat" where
  "executed_tool_calls b = length (filter (\<lambda>t. tr_execution_status t \<noteq> NOT_EXECUTED) (br_trace b))"

definition usage_from_bridges :: "model_bridge \<Rightarrow> tool_bridge \<Rightarrow> usage_metadata result" where
  "usage_from_bridges mb b =
     bind_result (model_token_usage mb) (\<lambda>u.
     Ok \<lparr>um_model_calls = mb_model_calls mb, um_tool_calls = executed_tool_calls b, um_token_usage = u\<rparr>)"

definition usage_of_session :: "session_state \<Rightarrow> usage_metadata option result" where
  "usage_of_session s =
     (case (ss_model s, ss_tools s) of
        (Some mb, Some b) \<Rightarrow> bind_result (usage_from_bridges mb b) (\<lambda>u. Ok (Some u))
      | _ \<Rightarrow> Ok None)"

definition session_tools :: "session_state \<Rightarrow> tool_bridge" where
  "session_tools s = (case ss_tools s of None \<Rightarrow> new_bridge | Some b \<Rightarrow> b)"

definition intent_status :: "terminal_intent \<Rightarrow> guarded_session_status" where
  "intent_status ti = (if ti_disposition ti \<in> {Blocked, Rejected} then REJECTED_STATUS else TERMINAL_STATUS)"

definition terminal_result_of_session ::
  "session_world \<Rightarrow> guarded_session_request \<Rightarrow> terminal_intent \<Rightarrow> session_state \<Rightarrow> guarded_session_result result" where
  "terminal_result_of_session w request ti s =
     bind_result (usage_of_session s) (\<lambda>usage.
     Ok \<lparr>res_session_id = gsr_session_id request, res_status = intent_status ti, res_terminal_intent = Some ti,
         res_artifact_refs = ti_artifact_refs ti, res_usage = usage, res_timing = timing_of w, res_diagnostic = None,
         res_events = ordered_events (el_events (ss_log s) @ br_events (session_tools s)),
         res_tool_trace = br_trace (session_tools s)\<rparr>)"

section \<open>Failures\<close>

text \<open>
  One \<^verbatim>\<open>except\<close> clause: what the result says, whether it shows the tool events and the tool trace,
  and the events the clause adds before and at the end.
\<close>

record failure_clause =
  fc_status :: guarded_session_status
  fc_code :: string
  fc_category :: string
  fc_message :: string
  fc_shows_tools :: bool
  fc_first :: "(session_event_type \<times> event_details) list"
  fc_last :: "session_event_type option"

definition failure_clause_of ::
  "guarded_session_status \<Rightarrow> string \<Rightarrow> string \<Rightarrow> string \<Rightarrow> bool \<Rightarrow> failure_clause" where
  "failure_clause_of status code category message shows_tools =
     \<lparr>fc_status = status, fc_code = code, fc_category = category, fc_message = message,
      fc_shows_tools = shows_tools, fc_first = [], fc_last = None\<rparr>"

definition cancelled_clause :: failure_clause where
  "cancelled_clause = (failure_clause_of SESSION_CANCELLED ''workflow_cancelled'' ''cancellation''
     ''Workflow cancelled'' True)\<lparr>fc_last := Some EVENT_CANCELLED\<rparr>"

definition timed_out_clause :: failure_clause where
  "timed_out_clause = (failure_clause_of SESSION_TIMED_OUT ''deadline_expired'' ''timeout''
     ''Workflow deadline expired'' True)\<lparr>fc_last := Some EVENT_TIMED_OUT\<rparr>"

definition model_transport_clause :: "bool \<Rightarrow> failure_clause" where
  "model_transport_clause shows_tools = failure_clause_of MODEL_FAILED ''model_transport_failed'' ''model''
     ''Model transport failed'' shows_tools"

text \<open>The exception behind an error of the loop; a session reads its classes only, so texts are left out.\<close>

fun loop_exception :: "loop_error \<Rightarrow> exception_info" where
  "loop_exception (ToolCallError m _) = exception_of [''ToolCallError'', ''ForgeError''] m"
| "loop_exception StreamError = no_final_chunk"
| "loop_exception (ClientError e) = e"
| "loop_exception (StepEnforcementError t _ _) = exception_of [''StepEnforcementError'', ''ForgeError''] t"
| "loop_exception (PrerequisiteError t _ _) = exception_of [''PrerequisiteError'', ''ForgeError''] t"
| "loop_exception (ToolExecutionError t _) = exception_of [''ToolExecutionError'', ''ForgeError''] t"
| "loop_exception (NonRetryableToolError e) = e"
| "loop_exception (MaxIterationsError _ _ _) = exception_of [''MaxIterationsError'', ''ForgeError''] []"
| "loop_exception (WorkflowCancelledError _ _) = exception_of [''WorkflowCancelledError'', ''ForgeError''] []"
| "loop_exception (PythonError e) = python_error e"

fun session_exception :: "session_error \<Rightarrow> exception_info" where
  "session_exception (Loop_Error e) = loop_exception e"
| "session_exception (Session_Error e) = e"

text \<open>The node of the terminal tool that a \<^verbatim>\<open>StepEnforcementError\<close> names; only the loop raises one.\<close>

definition refused_terminal :: "session_state \<Rightarrow> session_error \<Rightarrow> string option" where
  "refused_terminal s e = (case e of Loop_Error (StepEnforcementError t _ _) \<Rightarrow> map_of (ss_node_ids s) t | _ \<Rightarrow> None)"

definition instance_of :: "exception_info \<Rightarrow> string list \<Rightarrow> bool" where
  "instance_of e classes \<longleftrightarrow> list_ex (\<lambda>c. c \<in> set (exc_classes e)) classes"

text \<open>The clauses in their order.\<close>

definition clause_for :: "session_state \<Rightarrow> session_error \<Rightarrow> failure_clause" where
  "clause_for s err =
     (let e = session_exception err in
      if instance_of e [''OperationCancelledError''] then cancelled_clause
      else if instance_of e [''DeadlineExceededError''] then timed_out_clause
      else if instance_of e [''ForgeBindingRejectedError'', ''ForgeBridgeError''] then
        failure_clause_of SESSION_BACKEND_FAILED
          (if instance_of e [''ForgeBindingRejectedError''] then ''binding_rejected'' else ''bridge_rejected'')
          ''backend'' ''Forge backend rejected the compiled workflow'' False
      else if instance_of e [''ToolCallError''] then
        (failure_clause_of MODEL_FAILED ''malformed_tool_call'' ''model'' ''Model did not produce a valid tool call'' False)
          \<lparr>fc_first := [correction ''tool_arg_validation'']\<rparr>
      else if instance_of e [''StepEnforcementError''] then
        (failure_clause_of INVALID_TERMINAL ''workflow_order_rejected'' ''backend''
          ''Model exhausted ordered workflow corrections'' True)
          \<lparr>fc_first := [correction ''step'', premature_terminal (refused_terminal s err)]\<rparr>
      else if instance_of e [''PrerequisiteError''] then
        (failure_clause_of PREREQUISITE_BUDGET_EXHAUSTED ''prerequisite_budget_exhausted'' ''backend''
          ''Model exhausted prerequisite correction budget'' True)
          \<lparr>fc_first := [budget_event ''prerequisite_budget_exhausted'']\<rparr>
      else if instance_of e [''MaxIterationsError'', ''ContextBudgetExceeded''] then
        (failure_clause_of SESSION_BUDGET_EXHAUSTED ''workflow_budget_exhausted'' ''backend''
          ''Workflow budget exhausted'' True)\<lparr>fc_first := [budget_event ''workflow_budget_exhausted'']\<rparr>
      else if instance_of e [''WorkflowCancelledError''] then cancelled_clause
      else if instance_of e [''ToolExecutionError'', ''ToolResolutionError'', ''NonRetryableToolError''] then
        failure_clause_of SESSION_TOOL_FAILED ''tool_execution_failed'' ''tool'' ''Tool execution failed'' True
      else if instance_of e [''BackendTranslationError'', ''ToolInvokeError''] then
        failure_clause_of SESSION_BACKEND_FAILED ''backend_translation_failed'' ''backend''
          ''Forge backend translation failed'' False
      else if instance_of e [''ModelTransportError''] then
        (if instance_of e [''ModelProviderError''] \<and> exc_category e = Some ''cancelled'' then cancelled_clause
         else if instance_of e [''ModelRequestDeadlineExceededError''] then timed_out_clause
         else model_transport_clause False)
      else if instance_of e [''ForgeError''] then
        failure_clause_of SESSION_BACKEND_FAILED ''forge_backend_failed'' ''backend'' ''Forge backend failed'' False
      else if (case ss_model s of None \<Rightarrow> False | Some mb \<Rightarrow> mb_exception_seen mb) then model_transport_clause True
      else failure_clause_of SESSION_BACKEND_FAILED ''unknown_forge_exception'' ''backend'' ''Forge backend failed'' True)"

definition failure_diagnostic :: "failure_clause \<Rightarrow> diagnostic_metadata" where
  "failure_diagnostic c = \<lparr>dm_error_code = fc_code c, dm_category = fc_category c, dm_message = fc_message c,
     dm_retryable = (fc_status c \<in> {SESSION_BACKEND_FAILED, MODEL_FAILED, SESSION_TOOL_FAILED}), dm_origin = fc_code c\<rparr>"

text \<open>An exception in a clause leaves the session.\<close>

definition failure_result ::
  "session_world \<Rightarrow> guarded_session_request \<Rightarrow> session_error \<Rightarrow> session_state \<Rightarrow> exception_info + guarded_session_result" where
  "failure_result w request err s =
     (let c = clause_for s err;
          tools = (if fc_shows_tools c then session_tools s else new_bridge)
      in case emit_events request (sw_stamp w) (fc_first c) (ss_log s) of
           (Some e, _) \<Rightarrow> Inl e
         | (None, lg) \<Rightarrow>
             bind_result (case fc_last c of
                 None \<Rightarrow> Inr []
               | Some kind \<Rightarrow> bind_result (fst (emit_event request (sw_stamp w) kind no_details lg)) (\<lambda>ev. Inr [ev])) (\<lambda>final.
             bind_result (as_validation (usage_of_session s)) (\<lambda>usage.
             Inr \<lparr>res_session_id = gsr_session_id request, res_status = fc_status c, res_terminal_intent = None,
                  res_artifact_refs = [], res_usage = usage, res_timing = timing_of w,
                  res_diagnostic = Some (failure_diagnostic c),
                  res_events = ordered_events (el_events lg @ br_events tools @ final),
                  res_tool_trace = br_trace tools\<rparr>)))"

definition run_session ::
  "session_env \<Rightarrow> session_world \<Rightarrow> guarded_session_request \<Rightarrow> exception_info + guarded_session_result" where
  "run_session env w request =
     (case start_session env w request of
        (Inl e, s) \<Rightarrow> failure_result w request (Session_Error e) s
      | (Inr run, s) \<Rightarrow>
         (case run_session_loop env w request run s of
            (Inl err, s') \<Rightarrow> failure_result w request err s'
          | (Inr ti, s') \<Rightarrow>
             (case terminal_result_of_session w request ti s' of
                Inl e \<Rightarrow> failure_result w request (Session_Error (validation_error e)) s'
              | Inr res \<Rightarrow> Inr res)))"

end
