(* ===== verification/Session_Safety.thy ===== *)
theory Session_Safety
  imports Session
begin

text \<open>
  What holds of every session, whatever the loader, the model client, the executor, the token and
  the clock do: what its result may say and what it rests on, that a completed run has an intent,
  and that a session always ends in a result.
\<close>

section \<open>The replayed state\<close>

lemma replay_append:
  "replay env w request plan earlier (h @ h') s
     = replay env w request plan (earlier @ h) h' (replay env w request plan earlier h s)"
  by (induction h arbitrary: earlier s) simp_all

lemma session_at_split:
  "session_at env w request plan s (h @ e # h')
     = replay env w request plan (h @ [e]) h' (live_effect env w request plan h e (session_at env w request plan s h))"
  by (simp add: session_at_def replay_append)

text \<open>What every effect keeps is kept by a replay.\<close>

lemma replay_kept:
  assumes "\<And>h e s. holds s \<Longrightarrow> holds (live_effect env w request plan h e s)" and "holds s"
  shows "holds (replay env w request plan earlier es s)"
  using assms(2) by (induction es arbitrary: earlier s) (simp_all add: assms(1))

lemma live_steps [simp]:
  "lv_tools (snd (session_send env w request plan h sent s)) = lv_tools s"
  "lv_tools (snd (session_call env w request plan h tc s))
     = snd (bridge_call_tool (session_bridge_env env request plan) (sw_call w h) tc (lv_tools s))"
  "lv_tools (observe_message request w m s) = lv_tools s"
  by (simp_all add: session_send_def session_call_def observe_message_def split: prod.split)

lemma live_effect_tools:
  "lv_tools (live_effect env w request plan h e s) = lv_tools s
   \<or> (\<exists>tc. lv_raised s = None
       \<and> lv_tools (live_effect env w request plan h e s)
          = snd (bridge_call_tool (session_bridge_env env request plan) (sw_call w h) tc (lv_tools s)))"
  by (cases e) (auto simp: live_effect_def)

lemma replay_reachable:
  assumes "bridge_reachable (session_bridge_env env request plan) (lv_tools s)"
  shows "bridge_reachable (session_bridge_env env request plan) (lv_tools (replay env w request plan earlier es s))"
proof (rule replay_kept [where holds = "\<lambda>s. bridge_reachable (session_bridge_env env request plan) (lv_tools s)"])
  fix h e and s :: live_state
  assume "bridge_reachable (session_bridge_env env request plan) (lv_tools s)"
  then show "bridge_reachable (session_bridge_env env request plan) (lv_tools (live_effect env w request plan h e s))"
    using live_effect_tools [of env w request plan h e s] bridge_reachable.call by metis
qed (rule assms)

lemma replay_raised: "lv_raised s = Some e \<Longrightarrow> replay env w request plan earlier es s = s"
  by (induction es arbitrary: earlier) (simp_all add: live_effect_def)

lemma loop_of_session_reachable:
  assumes "loop_of_session env w request run lg = (out, live)"
  shows "bridge_reachable (session_bridge_env env request (sr_plan run)) (lv_tools live)"
  using assms replay_reachable [of env request "sr_plan run" "live_start lg"]
  by (auto simp: loop_of_session_def Let_def session_at_def live_start_def bridge_reachable.initial)

section \<open>Results\<close>

lemma ordered_events_numbered: "map evt_sequence (ordered_events es) = map int [1..<Suc (length (ordered_events es))]"
proof -
  have "map evt_sequence (ordered_events es) = map int (map fst (zip [1..<Suc (length es)] es))"
    by (simp add: ordered_events_def comp_def case_prod_beta)
  also have "map fst (zip [1..<Suc (length es)] es) = [1..<Suc (length es)]"
    by (simp add: map_fst_zip del: upt_Suc)
  finally show ?thesis by (simp add: ordered_events_def)
qed

lemma clause_is_failure: "fc_status (clause_for s err) \<notin> {TERMINAL_STATUS, REJECTED_STATUS}"
  by (simp add: clause_for_def Let_def cancelled_clause_def timed_out_clause_def model_transport_clause_def
      failure_clause_of_def)

lemma failure_result_shape:
  assumes "failure_result w request err s = Inr res"
  shows "res_session_id res = gsr_session_id request \<and> res_terminal_intent res = None \<and> res_artifact_refs res = []
    \<and> res_status res = fc_status (clause_for s err)
    \<and> res_diagnostic res = Some (failure_diagnostic (clause_for s err))
    \<and> res_tool_trace res = (if fc_shows_tools (clause_for s err) then br_trace (session_tools s) else [])
    \<and> (\<exists>es. res_events res = ordered_events es)"
  using assms
  by (cases "emit_events request (sw_stamp w) (fc_first (clause_for s err)) (ss_log s)")
    (auto simp: failure_result_def Let_def result_simps new_bridge_def split: option.splits)

lemma load_verified_sound:
  assumes "load_verified_plan env w request = Inr plan"
  shows "is_ok (check_plan_fields plan) \<and> plan_sound plan"
proof -
  let ?ref = "her_compiled_harness (gsr_execution_request request)"
  let ?verify = "\<lambda>raw. verify_compiled_plan_sha256 (se_plan env) raw (Some (chr_digest ?ref)) (Some (chr_harness_id ?ref))
      (Some (chr_harness_version ?ref))"
  obtain loaded raw where found: "(case ?verify raw of (verified, computed, ws, restored) \<Rightarrow>
      (case restored of None \<Rightarrow> Inl (rejected_plan loaded ?ref computed ws)
       | Some p \<Rightarrow> if verified then Inr p else Inl (rejected_plan loaded ?ref computed ws))) = Inr plan"
    using assms unfolding load_verified_plan_def Let_def bind_result_Inr by blast
  obtain verified computed ws restored where v: "?verify raw = (verified, computed, ws, restored)"
    by (metis prod_cases4)
  then have "?verify raw = (True, computed, ws, Some plan)"
    using found by (simp split: option.splits if_splits)
  then show ?thesis unfolding verify_accepts by blast
qed

lemma admit_session_sound:
  assumes "admit_session env w request = Inr (plan, token)"
  shows "is_ok (check_plan_fields plan) \<and> plan_sound plan"
  using assms load_verified_sound by (auto simp: admit_session_def result_simps)

lemma start_session_Inr:
  assumes "start_session env w request = (Inr run, s)"
  obtains token where "admit_session env w request = Inr (sr_plan run, token)"
    and "ss_model s = Some new_model_bridge" and "ss_tools s = Some new_bridge"
    and "forge_build (se_pydantic env) (map (tb_implementation_id \<circ> cn_binding) (plan_nodes (sr_plan run)))
      (Some token) (sr_plan run) = Inr (sr_input run)"
    and "ss_node_ids s = fwi_node_id_by_tool (sr_input run)"
proof -
  obtain plan token lg where admit: "admit_session env w request = Inr (plan, token)"
    and build: "build_session env w request plan token
      (new_session\<lparr>ss_log := lg, ss_model := Some new_model_bridge, ss_tools := Some new_bridge\<rparr>) = (Inr run, s)"
    using assms by (auto simp: start_session_def split: sum.splits prod.splits)
  show thesis
    using build admit that
    by (auto simp: build_session_def as_forge_def Let_def result_simps split: sum.splits prod.splits)
qed

section \<open>A session\<close>

text \<open>
  A session of the sample plan: the model calls the required tool, then the terminal one, and the
  executor succeeds.
\<close>

definition session_schema :: json where
  "session_schema = JObj [(''additionalProperties'', JBool False), (''properties'', JObj []),
     (''required'', JArr []), (''type'', JStr ''object'')]"

definition session_plan :: compiled_harness_plan where
  "session_plan = (sample_plan sample_digest)
     \<lparr>plan_nodes := [(sample_plan_node ''done'' False [] (Some ''DONE''))\<lparr>cn_input_schema := session_schema\<rparr>],
      plan_prompt_policy := \<lparr>pp_policy_id = ''policy'', pp_system_instructions = ''Work.'',
        pp_include_request_context = False\<rparr>\<rparr>"

text \<open>A codec that knows the one plan.\<close>

definition session_loads :: "((string \<times> json) list \<Rightarrow> (string \<times> json) list result) \<Rightarrow> string \<Rightarrow> string + json" where
  "session_loads hook raw = Inr (plan_json session_plan)"

definition session_fields :: "json \<Rightarrow> compiled_harness_plan result" where
  "session_fields v = Ok session_plan"

definition session_hash :: "string \<Rightarrow> string" where
  "session_hash s = sample_digest"

definition session_float :: "rat \<Rightarrow> string" where
  "session_float q = ''0.5''"

definition sample_session_env :: session_env where
  "sample_session_env = \<lparr>se_plan = \<lparr>sha256_hex = session_hash, float_text = session_float, json_loads = session_loads,
       plan_fields = session_fields\<rparr>, se_pydantic = sample_pydantic,
     se_redactor = be_redactor sample_bridge_env, se_output = sample_output_env,
     se_text = plain_text_env, se_floats = exact_floats\<rparr>"

definition sample_response :: "string \<Rightarrow> model_completion_response" where
  "sample_response tool = \<lparr>rsp_provider_request_id = None, rsp_model_id = ''main'', rsp_content = None,
     rsp_tool_calls = [\<lparr>mtc_call_id = tool, mtc_name = tool, mtc_arguments = Parsed_Arguments []\<rparr>],
     rsp_reasoning_content = None, rsp_finish_reason = ''tool_calls'',
     rsp_usage = Some \<lparr>tu_input_tokens = 5, tu_output_tokens = 2, tu_total_tokens = 7, tu_provider_reported = True\<rparr>\<rparr>"

definition session_client :: "history \<Rightarrow> model_completion_request \<Rightarrow> exception_info + model_completion_response" where
  "session_client h r = Inr (sample_response ''done'')"

definition session_tool_world :: "history \<Rightarrow> call_world" where
  "session_tool_world h = sample_world SUCCESS"

definition session_stamp :: "nat \<Rightarrow> string \<times> rat" where
  "session_stamp n = (''now'', of_nat n)"

definition sample_session_world :: session_world where
  "sample_session_world = \<lparr>sw_started = (''then'', 1), sw_completed = (''now'', 3), sw_token = Inr ''cancel'',
     sw_is_cancelled = (\<lambda>_. False), sw_reason = None, sw_now = (\<lambda>_. 10),
     sw_load = Inr session_plan, sw_stamp = session_stamp, sw_complete = session_client,
     sw_call = session_tool_world, sw_cancel_event = (\<lambda>h. False)\<rparr>"

section \<open>Every session ends in a result\<close>

text \<open>
  An event can fail to be built only for the clock or for a blank name: \<open>named\<close> is what a request
  that passed the first check has.
\<close>

definition clock_sound :: "session_world \<Rightarrow> bool" where
  "clock_sound w \<longleftrightarrow> (\<forall>n. nonblank (fst (sw_stamp w n)) \<and> 0 \<le> snd (sw_stamp w n))"

definition named :: "guarded_session_request \<Rightarrow> bool" where
  "named request \<longleftrightarrow> nonblank (gsr_session_id request) \<and> nonblank (her_request_id (gsr_execution_request request))
     \<and> nonblank (her_run_id (gsr_execution_request request))"

definition stage_named :: "guarded_session_request \<Rightarrow> bool" where
  "stage_named request \<longleftrightarrow> is_ok (check_stage_identity (her_stage (gsr_execution_request request)))"

definition details_named :: "event_details \<Rightarrow> bool" where
  "details_named d \<longleftrightarrow> is_ok (optional_nonblank (ed_node_id d) ''node_id'') \<and> is_ok (optional_nonblank (ed_code d) ''code'')
     \<and> ed_model_turn d = None \<and> ed_fields d = []"

lemma nonblank_field_ok [simp]: "is_ok (nonblank_field v f) \<longleftrightarrow> nonblank v"
  by (simp add: nonblank_field_def)

lemma emit_event_ok:
  assumes "clock_sound w" "named request" "stage_named request" "details_named d"
  shows "\<exists>ev lg'. emit_event request (sw_stamp w) kind d lg = (Inr ev, lg')"
proof -
  have "is_ok (check_session_event (translator_event request (sw_stamp w) kind d lg))"
    unfolding check_session_event_def is_ok_bind_const
    using assms
    by (simp add: translator_event_def Let_def clock_sound_def named_def stage_named_def details_named_def
        diagnostic_fields_def) (simp add: optional_nonblank_def)
  then show ?thesis by (auto simp: is_ok_iff emit_event_def Let_def)
qed

lemma emit_events_ok:
  assumes "clock_sound w" "named request" "stage_named request" "\<forall>(kind, d) \<in> set es. details_named d"
  shows "\<exists>lg'. emit_events request (sw_stamp w) es lg = (None, lg')"
  using assms(4)
proof (induction es arbitrary: lg)
  case (Cons e es)
  obtain kind d where e: "e = (kind, d)" by (cases e)
  then obtain ev lg' where "emit_event request (sw_stamp w) kind d lg = (Inr ev, lg')"
    using Cons.prems emit_event_ok [OF assms(1-3), of d kind lg] by auto
  then show ?case using Cons e by simp
qed simp

text \<open>What a failed session needs of its state: token counts, and the names of its nodes.\<close>

definition tokens_counted :: "model_bridge \<Rightarrow> bool" where
  "tokens_counted mb \<longleftrightarrow> 0 \<le> mb_input_tokens mb \<and> 0 \<le> mb_output_tokens mb"

definition session_kept :: "session_state \<Rightarrow> bool" where
  "session_kept s \<longleftrightarrow> (\<forall>mb. ss_model s = Some mb \<longrightarrow> tokens_counted mb) \<and> (\<forall>(t, n) \<in> set (ss_node_ids s). nonblank n)"

lemma usage_ok: "session_kept s \<Longrightarrow> is_ok (usage_of_session s)"
  by (auto simp: usage_of_session_def usage_from_bridges_def model_token_usage_def session_kept_def tokens_counted_def
      check_token_usage_def is_ok_bind_const is_ok_bind require_def split: option.splits)

lemma nonblank_codes [simp]:
  "nonblank ''tool_arg_validation''" "nonblank ''step''" "nonblank ''prerequisite_budget_exhausted''"
  "nonblank ''workflow_budget_exhausted''"
  by code_simp+

lemma clause_events_named:
  assumes "session_kept s"
  shows "\<forall>(kind, d) \<in> set (fc_first (clause_for s err)). details_named d"
proof -
  have "is_ok (optional_nonblank (refused_terminal s err) ''node_id'')"
    using assms by (auto simp: session_kept_def refused_terminal_def optional_nonblank_def
        split: session_error.splits loop_error.splits option.splits dest!: map_of_SomeD)
  then show ?thesis
    by (simp add: clause_for_def Let_def cancelled_clause_def timed_out_clause_def model_transport_clause_def
        failure_clause_of_def correction_def premature_terminal_def budget_event_def details_named_def no_details_def
        optional_nonblank_def)
qed

lemma failure_result_ok:
  assumes "session_kept s" and "clock_sound w" "named request" "stage_named request"
  shows "\<exists>res. failure_result w request err s = Inr res"
proof -
  obtain lg where first: "emit_events request (sw_stamp w) (fc_first (clause_for s err)) (ss_log s) = (None, lg)"
    using emit_events_ok [OF assms(2-4) clause_events_named [OF assms(1)]] by blast
  obtain usage where usage: "usage_of_session s = Inr usage"
    using usage_ok [OF assms(1)] by (auto simp: is_ok_iff)
  have "details_named no_details" by (simp add: details_named_def no_details_def optional_nonblank_def)
  then have last: "\<exists>ev lg'. emit_event request (sw_stamp w) kind no_details lg = (Inr ev, lg')" for kind
    by (rule emit_event_ok [OF assms(2-4)])
  show ?thesis
  proof (cases "fc_last (clause_for s err)")
    case None
    then show ?thesis by (simp add: failure_result_def Let_def first usage as_validation_def)
  next
    case (Some kind)
    obtain ev lg' where "emit_event request (sw_stamp w) kind no_details lg = (Inr ev, lg')" using last by blast
    then show ?thesis using Some by (simp add: failure_result_def Let_def first usage as_validation_def)
  qed
qed

text \<open>A request that is not named fails before anything is recorded.\<close>

lemma unnamed_result_ok:
  assumes "\<not> named request"
  shows "\<exists>res. run_session env w request = Inr res"
proof -
  obtain m where "validate_session_request request = Inl (backend_translation m)"
    using assms
    by (cases "nonblank (gsr_session_id request)") (auto simp: validate_session_request_def named_def demand_def Let_def)
  then have "start_session env w request = (Inl (backend_translation m), new_session)"
    by (simp add: start_session_def admit_session_def)
  moreover have "clause_for new_session (Session_Error (backend_translation m))
      = failure_clause_of SESSION_BACKEND_FAILED ''backend_translation_failed'' ''backend''
          ''Forge backend translation failed'' False"
    by (simp add: clause_for_def Let_def instance_of_def backend_translation_def exception_of_def)
  ultimately show ?thesis
    by (simp add: run_session_def failure_result_def failure_clause_of_def Let_def usage_of_session_def
        new_session_def as_validation_def)
qed

text \<open>Token counts grow by valid usages only.\<close>

definition usages_valid :: "session_world \<Rightarrow> bool" where
  "usages_valid w \<longleftrightarrow> (\<forall>h q rsp. sw_complete w h q = Inr rsp \<longrightarrow> is_ok (check_model_completion_response rsp))"

lemma valid_usage:
  assumes "usages_valid w" "sw_complete w h q = Inr rsp" "rsp_usage rsp = Some u"
  shows "0 \<le> tu_input_tokens u \<and> 0 \<le> tu_output_tokens u"
proof -
  have "is_ok (check_model_completion_response rsp)" using assms(1,2) by (simp add: usages_valid_def)
  then have "is_ok (check_token_usage u)"
    using assms(3) by (simp add: check_model_completion_response_def is_ok_bind_const)
  then show ?thesis by (simp add: check_token_usage_def is_ok_bind_const)
qed

lemma model_answer_counted:
  assumes "tokens_counted mb" and "\<And>rsp u. answer = Inr rsp \<Longrightarrow> rsp_usage rsp = Some u \<Longrightarrow> 0 \<le> tu_input_tokens u \<and> 0 \<le> tu_output_tokens u"
    and "model_answer env turn0 answer (lg, mb) = (out, lg', mb')"
  shows "tokens_counted mb'"
proof (cases answer)
  case (Inl e)
  then show ?thesis using assms(1,3) by (auto simp: model_answer_def tokens_counted_def split: prod.splits sum.splits)
next
  case (Inr rsp)
  then show ?thesis
    using assms(1,3) assms(2) [OF Inr]
    by (auto simp: model_answer_def tokens_counted_def store_usage_def Let_def split: prod.splits sum.splits option.splits)
qed

lemma model_send_counted:
  assumes "tokens_counted mb" and "\<And>q rsp u. client q = Inr rsp \<Longrightarrow> rsp_usage rsp = Some u \<Longrightarrow> 0 \<le> tu_input_tokens u \<and> 0 \<le> tu_output_tokens u"
    and "model_send env client request (lg, mb) = (out, lg', mb')"
  shows "tokens_counted mb'"
proof -
  have more: "tokens_counted (mb\<lparr>mb_model_turn := k\<rparr>)" for k using assms(1) by (simp add: tokens_counted_def)
  have answered: "tokens_counted mb'" if "model_answer env k (client q) (lg2, mb\<lparr>mb_model_turn := j\<rparr>) = (out, lg', mb')" for k q lg2 j
    by (rule model_answer_counted [OF more assms(2) that])
  show ?thesis
    using assms(1,3) more answered
    by (auto simp: model_send_def Let_def split: if_splits sum.splits prod.splits)
qed

lemma live_effect_counted:
  assumes "usages_valid w" "tokens_counted (lv_model s)"
  shows "tokens_counted (lv_model (live_effect env w request plan h e s))"
proof (cases e)
  case (Sent sent outcome)
  obtain out lg mb where "model_send (session_model_env env w request plan) (sw_complete w h) sent (lv_log s, lv_model s)
      = (out, lg, mb)" by (metis prod_cases3)
  moreover from model_send_counted [OF assms(2) valid_usage [OF assms(1)] this] have "tokens_counted mb" .
  ultimately show ?thesis using assms(2) by (simp add: live_effect_def Sent session_send_def)
qed (use assms(2) in \<open>auto simp: live_effect_def session_call_def observe_message_def split: prod.split\<close>)

lemma loop_of_session_counted:
  assumes "usages_valid w" and "loop_of_session env w request run lg = (out, live)"
  shows "tokens_counted (lv_model live)"
proof -
  have "tokens_counted (lv_model (replay env w request plan earlier es (live_start lg)))" for plan earlier es
    by (rule replay_kept [where holds = "\<lambda>s. tokens_counted (lv_model s)"])
      (rule live_effect_counted [OF assms(1)], assumption,
       simp add: live_start_def new_model_bridge_def tokens_counted_def)
  then show ?thesis using assms(2) by (auto simp: loop_of_session_def Let_def session_at_def)
qed

text \<open>The nodes a workflow names are nodes of its plan.\<close>

lemma translated_node_ids:
  "translate_nodes env bindings names ns t = Inr t' \<Longrightarrow>
     snd ` set (tn_node_id_by_tool t') \<subseteq> snd ` set (tn_node_id_by_tool t) \<union> cn_node_id ` set ns"
proof (induction ns arbitrary: t)
  case (Cons n ns)
  obtain d where d: "translate_nodes env bindings names ns (add_node n d t) = Inr t'"
    using Cons.prems by (auto simp: result_simps)
  have "snd ` set (tn_node_id_by_tool (add_node n d t)) \<subseteq> snd ` set (tn_node_id_by_tool t) \<union> {cn_node_id n}"
    using set_dict_set [of "tn_node_id_by_tool t" "cn_model_tool_name n" "cn_node_id n"]
    by (auto simp: add_node_def Let_def)
  with Cons.IH [OF d] show ?case by (simp only: list.set image_insert) blast
qed simp

lemma plan_node_ids_nonblank:
  assumes "is_ok (check_plan_fields plan)" and "n \<in> set (plan_nodes plan)"
  shows "nonblank (cn_node_id n)"
proof -
  have "is_ok (traverse check_compiled_node (plan_nodes plan))"
    using assms(1) by (simp add: check_plan_fields_def is_ok_bind_const)
  then show ?thesis using assms(2) by (auto simp: traverse_is_ok check_compiled_node_def is_ok_bind_const)
qed

lemma built_node_ids:
  assumes "forge_build env bindings cid plan = Inr w" and "is_ok (check_plan_fields plan)"
  shows "\<forall>(t, n) \<in> set (fwi_node_id_by_tool w). nonblank n"
proof -
  obtain t where t: "translate_nodes env bindings (tool_name_by_node_id plan) (plan_nodes plan) no_nodes = Inr t"
    using assms(1) unfolding forge_build_def bind_result_Inr by blast
  then have "fwi_node_id_by_tool w = tn_node_id_by_tool t"
    using assms(1) by (auto simp: forge_build_def bind_result_Inr split: sum.splits)
  moreover have "snd ` set (tn_node_id_by_tool t) \<subseteq> cn_node_id ` set (plan_nodes plan)"
    using translated_node_ids [OF t] by (simp add: no_nodes_def)
  ultimately have "snd ` set (fwi_node_id_by_tool w) \<subseteq> cn_node_id ` set (plan_nodes plan)" by simp
  moreover have "nonblank n" if "n \<in> cn_node_id ` set (plan_nodes plan)" for n
    using that plan_node_ids_nonblank [OF assms(2)] by auto
  ultimately show ?thesis by auto
qed

lemma admitted_named: "admit_session env w request = Inr p \<Longrightarrow> named request"
  by (auto simp: admit_session_def validate_session_request_def named_def demand_def Let_def result_simps split: if_splits)

lemma start_session_kept:
  assumes "start_session env w request = (r, s)"
  shows "session_kept s"
proof (cases "admit_session env w request")
  case (Inl e)
  then show ?thesis using assms by (auto simp: start_session_def session_kept_def new_session_def)
next
  case (Inr p)
  obtain plan token where p: "p = (plan, token)" by (cases p)
  have fields: "is_ok (check_plan_fields plan)" using admit_session_sound Inr p by blast
  have fresh: "session_kept (new_session\<lparr>ss_log := lg\<rparr>)"
    "session_kept (new_session\<lparr>ss_log := lg, ss_model := Some new_model_bridge, ss_tools := Some new_bridge\<rparr>)" for lg
    by (simp_all add: session_kept_def new_session_def tokens_counted_def new_model_bridge_def)
  have built: "session_kept s'" if "build_session env w request plan token s0 = (r', s')" "session_kept s0" for s0 r' s'
    using that built_node_ids [OF _ fields]
    by (fastforce simp: build_session_def as_forge_def session_kept_def Let_def split: sum.splits prod.splits)
  show ?thesis
    using assms fresh built [OF _ fresh(2)] Inr p
    by (auto simp: start_session_def split: sum.splits prod.splits)
qed

lemma run_session_loop_kept:
  assumes "usages_valid w" and "session_kept s" and "run_session_loop env w request run s = (r, s')"
  shows "session_kept s'"
proof -
  obtain out live where loop: "loop_of_session env w request run (ss_log s) = (out, live)" by fastforce
  have "tokens_counted (lv_model live)" by (rule loop_of_session_counted [OF assms(1) loop])
  then show ?thesis using assms(2,3) loop by (auto simp: run_session_loop_def left_session_def session_kept_def)
qed

lemma run_session_answers:
  assumes "clock_sound w" "stage_named request" "usages_valid w"
  shows "\<exists>res. run_session env w request = Inr res"
proof (cases "named request")
  case True
  note fail = failure_result_ok [OF _ assms(1) True assms(2)]
  obtain r s where start: "start_session env w request = (r, s)" by fastforce
  have s: "session_kept s" by (rule start_session_kept [OF start])
  show ?thesis
  proof (cases r)
    case (Inl e)
    then show ?thesis using fail [OF s] start by (simp add: run_session_def)
  next
    case (Inr run)
    obtain x s' where loop: "run_session_loop env w request run s = (x, s')" by fastforce
    have s': "session_kept s'" by (rule run_session_loop_kept [OF assms(3) s loop])
    then show ?thesis
      using fail [OF s'] start Inr loop by (auto simp: run_session_def split: sum.split)
  qed
qed (rule unnamed_result_ok)

section \<open>A completed run has an intent\<close>

lemma append_event_intent [simp]: "br_intent (snd (append_event env w kind n cid code b)) = br_intent b"
  by (simp add: append_event_state)

interpretation intended: bridge_invariant env "\<lambda>b. br_intent b \<noteq> None" for env
proof (unfold_locales, goal_cases)
  case (2 w c d)
  show ?case by (auto simp: keeps_def append_trace_def split: sum.split)
qed (simp_all add: keeps_def)

text \<open>A step that closes the session has set the intent when it returns.\<close>

definition closes :: "'a bridge_step \<Rightarrow> bool" where
  "closes f \<longleftrightarrow> (\<forall>b x b'. f b = (Inr x, b') \<longrightarrow> br_intent b' \<noteq> None)"

lemma closesI: "(\<And>b x b'. f b = (Inr x, b') \<Longrightarrow> br_intent b' \<noteq> None) \<Longrightarrow> closes f"
  by (simp add: closes_def)

lemma closes_kept:
  assumes "closes f" and "\<And>x. keeps (\<lambda>b. br_intent b \<noteq> None) (g x)"
  shows "closes (then_do f g)"
proof (rule closesI)
  fix b x b'
  assume "then_do f g b = (Inr x, b')"
  then obtain y b1 where f: "f b = (Inr y, b1)" and g: "g y b1 = (Inr x, b')"
    by (auto simp: then_do_def split: prod.splits sum.splits)
  have "br_intent b1 \<noteq> None" using assms(1) f by (simp add: closes_def)
  then have "br_intent (snd (g y b1)) \<noteq> None" by (rule keepsD [OF assms(2)])
  then show "br_intent b' \<noteq> None" by (simp add: g)
qed

lemma closes_last: "(\<And>x. closes (g x)) \<Longrightarrow> closes (then_do f g)"
  by (fastforce simp: closes_def then_do_def split: prod.splits sum.splits)

lemma closes_raise: "closes (bridge_raise e)"
  by (simp add: closes_def bridge_raise_def)

lemma close_call_no_value [simp]: "close_call env w c d evs e b \<noteq> (Inr x, b')"
  by (auto simp: close_call_def then_do_def bridge_raise_def split: prod.split sum.split)

lemma closes_close_call: "closes (close_call env w c d evs e)"
  by (simp add: closes_def)

lemma accept_closes: "closes (accept_terminal_candidate env w c t r selected)"
proof (rule closesI)
  fix b x b'
  assume run: "accept_terminal_candidate env w c t r selected b = (Inr x, b')"
  let ?cand = "terminal_candidate_of env (bc_node c) t (bc_call_id c) r selected b"
  let ?b1 = "b\<lparr>br_candidate := Some ?cand\<rparr>"
  have refused: "fst (then_do f (\<lambda>_. bridge_raise e :: unit bridge_step) b2) \<noteq> Inr y"
    for f :: "unit bridge_step" and e b2 y
    by (auto simp: then_do_def bridge_raise_def split: prod.split sum.split)
  obtain i evs where "append_events env w c evs (?b1\<lparr>br_intent := Some i\<rparr>) = (Inr x, b')"
    using run refused by (simp add: accept_terminal_candidate_def Let_def split: if_splits sum.splits del: append_events.simps)
      (metis fst_conv)
  then show "br_intent b' \<noteq> None"
    using keepsD [OF intended.events, of "?b1\<lparr>br_intent := Some i\<rparr>" env w c evs] by simp
qed

lemma settle_closes:
  assumes "cn_terminal_result (bc_node c) = Some t"
  shows "closes (settle_result env w c r selected)"
proof -
  have own: "closes (then_do (append_events env w c evs) (\<lambda>_. then_do (accept_terminal_candidate env w c t r selected)
      (\<lambda>_. bridge_return s :: string bridge_step)))" for evs s
    by (intro closes_last closes_kept accept_closes keeps_return)
  have failed: "closes (then_do (append_events env w c evs) (\<lambda>_. bridge_raise e :: string bridge_step))" for evs e
    by (intro closes_last closes_raise)
  show ?thesis
    using own failed
    by (simp add: settle_result_def assms closes_def Let_def del: append_events.simps)
qed

lemma record_closes:
  assumes "cn_terminal_result (bc_node c) = Some t"
  shows "closes (record_tool_result env w c h r selected)"
  unfolding record_tool_result_def
  by (auto split: option.split intro!: closes_last closes_close_call settle_closes [OF assms])

lemma run_tool_closes:
  assumes "cn_terminal_result (bc_node c) = Some t"
  shows "closes (run_tool env w c selected)"
proof -
  have "closes (\<lambda>b1. case f b1 of Inl e \<Rightarrow> close_call env w c (d e) (evs e) e b1
      | Inr r \<Rightarrow> record_tool_result env w c h r selected b1)" for f d evs h
    using record_closes [OF assms, of env w] by (auto simp: closes_def split: sum.splits)
  note inner = this
  show ?thesis
    unfolding run_tool_def Let_def by (intro closes_last inner)
qed

lemma admitted_closes:
  assumes "cn_terminal_result (bc_node c) = Some t"
  shows "closes (admitted_call env w c)"
  unfolding admitted_call_def
  by (auto split: sum.split py_error.split intro!: closes_close_call closes_raise run_tool_closes [OF assms])

lemma started_closes:
  assumes "cn_terminal_result node = Some t"
  shows "closes (started_call env w node cid args h)"
proof (rule closesI)
  fix b x b'
  have "cn_terminal_result (bc_node (decided_call env w node cid args h b)) = Some t"
    using assms by (simp add: decided_call_def)
  from admitted_closes [OF this, of env w]
  show "started_call env w node cid args h b = (Inr x, b') \<Longrightarrow> br_intent b' \<noteq> None"
    by (auto simp: started_call_def Let_def closes_def split: if_splits)
qed

lemma call_closes:
  assumes "node_of_tool env (tc_tool tc) = Some node" and "cn_terminal_result node = Some t"
  shows "closes (bridge_call_tool env w tc)"
proof -
  have inner: "closes (then_do (attempt q) (\<lambda>h. then_do (append_event env w k n cid code)
      (\<lambda>_. started_call env w node cid args h)))" for q k n cid code args
    by (intro closes_last started_closes [OF assms(2)])
  have "closes (bridge_invoke env w (tc_tool tc) args call_id)" for args call_id
    using inner by (auto simp: closes_def bridge_invoke_def assms(1) split: prod.splits)
  then have "closes (then_do (attempt (dict_of (tc_args tc))) (\<lambda>args. bridge_invoke env w (tc_tool tc) args (tc_call_id tc)))"
    by (intro closes_last)
  then show ?thesis by (simp add: closes_def bridge_call_tool_def assms(1))
qed

lemma outcome_returned: "outcome_of_call r = Tool_Returned v \<Longrightarrow> \<exists>x. r = Inr x"
  by (auto simp: outcome_of_call_def tool_exception_def split: sum.splits if_splits option.splits)

lemma terminal_tool_node:
  assumes "forge_build penv bindings cid plan = Inr wi" and "plan_sound plan" and "be_plan env = plan"
    and "tool \<in> set (wf_terminal_tool (fwi_workflow wi))"
  obtains node t where "node_of_tool env tool = Some node" and "cn_terminal_result node = Some t"
proof -
  obtain t where t: "translate_nodes penv bindings (tool_name_by_node_id plan) (plan_nodes plan) no_nodes = Inr t"
    using assms(1) unfolding forge_build_def bind_result_Inr by blast
  have "\<exists>tools. fwi_workflow wi = forge_workflow plan tools"
    using assms(1) t check_workflow_Inr
    by (cases "check_workflow (forge_workflow plan (tn_tools t))") (auto simp: forge_build_def bind_result_Inr)
  then obtain node where node: "node \<in> set (plan_nodes plan)" "cn_terminal_result node \<noteq> None" "cn_model_tool_name node = tool"
    using assms(4) by (auto simp: forge_workflow_def terminal_tools_def)
  have dist: "distinct (map cn_model_tool_name (plan_nodes plan))"
    using assms(2) by (simp add: plan_sound_def Let_def)
  then have "foldl (\<lambda>d n. dict_set d (cn_model_tool_name n) n) [] (plan_nodes plan)
      = map (\<lambda>n. (cn_model_tool_name n, n)) (plan_nodes plan)"
    using foldl_dict_set [of "[]" cn_model_tool_name "plan_nodes plan" "\<lambda>n. n"] by simp
  then have "node_of_tool env tool = Some node"
    using dist node by (simp add: node_of_tool_def assms(3) map_of_eq_Some_iff comp_def image_iff)
  then show thesis using node(2) that by blast
qed

text \<open>The intent, once there, stays.\<close>

lemma replay_intent:
  assumes "br_intent (lv_tools s) \<noteq> None"
  shows "br_intent (lv_tools (replay env w request plan earlier es s)) \<noteq> None"
proof (rule replay_kept [where holds = "\<lambda>s. br_intent (lv_tools s) \<noteq> None"])
  fix h e and s :: live_state
  assume held: "br_intent (lv_tools s) \<noteq> None"
  then have "br_intent (snd (bridge_call_tool (session_bridge_env env request plan) (sw_call w h) tc (lv_tools s))) \<noteq> None" for tc
    by (rule keepsD [OF intended.calling])
  then show "br_intent (lv_tools (live_effect env w request plan h e s)) \<noteq> None"
    using live_effect_tools [of env w request plan h e s] held by metis
qed (rule assms)

lemma returned_call_closes:
  assumes "live_invoke env w request plan live h1 tc = Tool_Returned v"
    and "lv_raised (session_at env w request plan live (h1 @ Invoked tc out # h2)) = None"
    and "node_of_tool (session_bridge_env env request plan) (tc_tool tc) = Some node" and "cn_terminal_result node = Some t"
  shows "br_intent (lv_tools (session_at env w request plan live (h1 @ Invoked tc out # h2))) \<noteq> None"
proof -
  let ?s = "session_at env w request plan live h1"
  obtain x where x: "fst (session_call env w request plan h1 tc ?s) = Inr x"
    using outcome_returned assms(1) unfolding live_invoke_def by blast
  have "lv_raised ?s = None"
  proof (cases "lv_raised ?s")
    case (Some e)
    then have "live_effect env w request plan h1 (Invoked tc out) ?s = ?s" by (simp add: live_effect_def)
    then show ?thesis using assms(2) replay_raised [OF Some] by (simp add: session_at_split)
  qed simp
  then have "live_effect env w request plan h1 (Invoked tc out) ?s = snd (session_call env w request plan h1 tc ?s)"
    by (simp add: live_effect_def)
  moreover have "br_intent (lv_tools (snd (session_call env w request plan h1 tc ?s))) \<noteq> None"
    using x call_closes [OF assms(3,4), of "sw_call w h1"]
    by (auto simp: session_call_def closes_def split: prod.splits)
  ultimately show ?thesis by (simp add: session_at_split replay_intent)
qed

lemma completed_loop_intent:
  assumes "start_session env w request = (Inr run, s)"
    and "loop_of_session env w request run lg = (Completed v, live)" and "lv_raised live = None"
  shows "br_intent (lv_tools live) \<noteq> None"
proof -
  let ?plan = "sr_plan run" and ?flow = "fwi_workflow (sr_input run)"
  let ?env = "session_loop_env env w request ?plan (live_start lg)"
  obtain token where admit: "admit_session env w request = Inr (?plan, token)"
    and build: "forge_build (se_pydantic env) (map (tb_implementation_id \<circ> cn_binding) (plan_nodes ?plan)) (Some token) ?plan
      = Inr (sr_input run)"
    using start_session_Inr [OF assms(1)] by blast
  obtain ls where loop: "run_workflow ?env (session_runner_config (fwi_runner_options (sr_input run))) ?flow
      (sr_context run) [] [] (Some (sr_initial run)) = (Completed v, ls)"
    and live: "live = session_at env w request ?plan (live_start lg) (ls_history ls)"
    using assms(2) by (auto simp: loop_of_session_def Let_def prod_eq_iff)
  obtain h1 tc h2 where h: "ls_history ls = h1 @ Invoked tc (Tool_Returned v) # h2" and tm: "is_terminal ?flow tc"
    using run_workflow_completed [OF loop] by (auto simp: terminal_returned_def)
  have "run_loop ?env (session_runner_config (fwi_runner_options (sr_input run))) ?flow
      (initial_state (session_runner_config (fwi_runner_options (sr_input run))) ?flow (sr_context run) (sr_initial run))
      = (Completed v, ls)"
    using loop by (simp add: run_workflow_def)
  then have "answered ?env (ls_history ls)"
    by (rule answers.run) (simp add: answered_def initial_state_def)
  then have "live_invoke env w request ?plan (live_start lg) h1 tc = Tool_Returned v"
    using h by (fastforce simp: answered_def session_loop_env_def)
  moreover have "plan_sound ?plan" using admit_session_sound [OF admit] by blast
  then obtain node t where "node_of_tool (session_bridge_env env request ?plan) (tc_tool tc) = Some node"
    "cn_terminal_result node = Some t"
    using terminal_tool_node [OF build, of "session_bridge_env env request ?plan" "tc_tool tc"] tm
    by (auto simp: session_bridge_env_def is_terminal_def)
  ultimately show ?thesis
    using returned_call_closes assms(3) unfolding live h by blast
qed

text \<open>The observer can only fail to build an event.\<close>

lemma emit_events_raised: "emit_events request st es lg = (Some e, lg') \<Longrightarrow> \<exists>e'. e = validation_error e'"
  by (induction request st es lg rule: emit_events.induct) (auto simp: emit_event_def Let_def split: sum.splits prod.splits)

lemma loop_of_session_raised:
  assumes "loop_of_session env w request run lg = (out, live)" and "lv_raised live = Some e"
  shows "\<exists>e'. e = validation_error e'"
proof -
  have "\<forall>e. lv_raised (replay env w request plan earlier es (live_start lg)) = Some e \<longrightarrow> (\<exists>e'. e = validation_error e')"
    for plan earlier es
  proof (rule replay_kept [where holds = "\<lambda>s. \<forall>e. lv_raised s = Some e \<longrightarrow> (\<exists>e'. e = validation_error e')"])
    fix h e and s :: live_state
    assume "\<forall>e. lv_raised s = Some e \<longrightarrow> (\<exists>e'. e = validation_error e')"
    then show "\<forall>e'. lv_raised (live_effect env w request plan h e s) = Some e' \<longrightarrow> (\<exists>e''. e' = validation_error e'')"
      by (cases e) (auto simp: live_effect_def session_send_def session_call_def observe_message_def
          split: prod.splits dest: emit_events_raised)
  qed (simp add: live_start_def)
  then show ?thesis using assms by (auto simp: loop_of_session_def Let_def session_at_def)
qed

lemma ended_session:
  assumes "run_session_loop env w request run s = (Inr ti, s')"
  obtains b where "bridge_reachable (session_bridge_env env request (sr_plan run)) b" and "br_intent b = Some ti"
    and "ss_tools s' = Some b"
proof -
  obtain out live where loop: "loop_of_session env w request run (ss_log s) = (out, live)" by fastforce
  have "br_intent (lv_tools live) = Some ti" "ss_tools s' = Some (lv_tools live)"
    using assms loop
    by (auto simp: run_session_loop_def left_session_def split: option.splits run_outcome.splits sum.splits)
  then show thesis using loop_of_session_reachable [OF loop] that by blast
qed

lemma reachable_intent_sound:
  assumes "bridge_reachable env b" and "br_intent b = Some ti"
  shows "intent_sound env b ti"
proof -
  have "owned_history env new_bridge"
    by (simp add: owned_history_def successes_traced_def artifacts_keyed_def new_bridge_def)
  from owned.reachable [OF this assms(1)] assms(2) show ?thesis by (simp add: owned_history_def)
qed

lemma session_plan_valid:
  "is_ok (check_plan_fields session_plan)" "validate_plan_invariants session_plan = []"
  by code_simp+

lemma session_plan_finite: "schemas_finite session_plan"
  by (simp add: schemas_finite_def session_plan_def) (simp add: session_schema_def json_members_finite_iff)

lemma sample_session_admitted:
  "admit_session sample_session_env sample_session_world sample_session_request = Inr (session_plan, ''cancel'')"
proof -
  obtain content doc where
    content: "canonical_json_serialize session_float (JObj (without_digest (plan_members session_plan))) = Inr content"
    and doc: "canonical_json_serialize session_float (plan_json session_plan) = Inr doc"
    by (rule canonical_plan_text [OF session_plan_finite])
  have "plan_sound session_plan" using session_plan_valid(2) by (simp add: plan_invariants_exact [symmetric])
  moreover have "has_key (plan_members session_plan) ''compiled_sha256''" by (simp add: plan_members_def has_key_def)
  moreover have "mismatch_warnings sample_digest session_plan (Some sample_digest) (Some ''demo'') (Some 1) = []"
    by (simp add: mismatch_warnings_def session_plan_def sample_plan_def)
  ultimately have "verify_compiled_plan_sha256 (se_plan sample_session_env) doc (Some sample_digest) (Some ''demo'') (Some 1)
      = (True, sample_digest, [], Some session_plan)"
    using session_plan_valid(1) content
    by (simp add: verify_accepts sample_session_env_def session_loads_def session_fields_def session_hash_def plan_json_def)
  then have "load_verified_plan sample_session_env sample_session_world sample_session_request = Inr session_plan"
    using doc by (simp add: load_verified_plan_def sample_session_world_def sample_session_request_def as_python_def
        sample_session_env_def)
  moreover have "nonblank ''session''" "nonblank ''request''" "nonblank ''run''" by code_simp+
  ultimately show ?thesis
    by (simp add: admit_session_def validate_session_request_def check_session_deadline_def check_cancelled_def
        check_remaining_deadline_def recheck_plan_against_request_def demand_def sample_session_world_def
        remaining_def) (simp add: sample_session_request_def session_plan_def sample_plan_def)
qed

lemma sample_session_clock: "clock_sound sample_session_world"
proof -
  have "nonblank ''now''" by code_simp
  then show ?thesis by (simp add: clock_sound_def sample_session_world_def session_stamp_def)
qed

lemma sample_session_stage: "stage_named sample_session_request"
  by code_simp

lemma sample_session_usages: "usages_valid sample_session_world"
proof -
  have "is_ok (check_model_completion_response (sample_response ''done''))" by code_simp
  then show ?thesis by (auto simp: usages_valid_def sample_session_world_def session_client_def)
qed


definition session_log :: event_log where
  "session_log = snd (emit_event sample_session_request session_stamp SESSION_STARTED no_details (ss_log new_session))"

lemma sample_session_builds:
  "is_ok (fst (emit_event sample_session_request session_stamp SESSION_STARTED no_details (ss_log new_session)))"
  "is_ok (fst (build_session sample_session_env sample_session_world sample_session_request session_plan ''cancel''
      (new_session\<lparr>ss_log := session_log, ss_model := Some new_model_bridge, ss_tools := Some new_bridge\<rparr>)))"
  "is_ok (requirement_table sample_session_request)"
  by code_simp+

lemma sample_session_started:
  obtains run s where "start_session sample_session_env sample_session_world sample_session_request = (Inr run, s)"
proof -
  obtain ev where "emit_event sample_session_request session_stamp SESSION_STARTED no_details (ss_log new_session)
      = (Inr ev, session_log)"
    using sample_session_builds(1) unfolding session_log_def by (metis is_ok_iff prod.collapse)
  moreover obtain run s where "build_session sample_session_env sample_session_world sample_session_request session_plan
      ''cancel'' (new_session\<lparr>ss_log := session_log, ss_model := Some new_model_bridge, ss_tools := Some new_bridge\<rparr>)
      = (Inr run, s)"
    using sample_session_builds(2) by (metis is_ok_iff prod.collapse)
  moreover obtain t where "requirement_table sample_session_request = Inr t"
    using sample_session_builds(3) by (metis is_ok_iff)
  moreover have "sw_stamp sample_session_world = session_stamp" by (simp add: sample_session_world_def)
  ultimately have "start_session sample_session_env sample_session_world sample_session_request = (Inr run, s)"
    by (simp add: start_session_def sample_session_admitted)
  then show thesis by (rule that)
qed


section \<open>The iteration budget of a session\<close>

lemma model_answer_calls:
  "model_answer env k answer (lg, mb) = (out, lg', mb') \<Longrightarrow> mb_model_calls mb' \<le> Suc (mb_model_calls mb)"
  by (cases answer) (auto simp: model_answer_def store_usage_def Let_def split: prod.splits sum.splits option.splits)

lemma model_send_calls:
  assumes "model_send env client request (lg, mb) = (out, lg', mb')"
  shows "mb_model_calls mb' \<le> Suc (mb_model_calls mb)"
  using assms
  by (fastforce simp: model_send_def Let_def dest: model_answer_calls split: if_splits sum.splits prod.splits)

lemma live_effect_calls:
  "mb_model_calls (lv_model (live_effect env w request plan h e s)) \<le> mb_model_calls (lv_model s) + requests_sent [e]"
proof (cases e)
  case (Sent sent outcome)
  obtain out lg mb where "model_send (session_model_env env w request plan) (sw_complete w h) sent (lv_log s, lv_model s)
      = (out, lg, mb)" by (metis prod_cases3)
  from this model_send_calls [OF this] show ?thesis by (simp add: live_effect_def Sent session_send_def)
qed (auto simp: live_effect_def session_call_def observe_message_def split: prod.split)

lemma replay_calls:
  "mb_model_calls (lv_model (replay env w request plan earlier es s)) \<le> mb_model_calls (lv_model s) + requests_sent es"
proof (induction es arbitrary: earlier s)
  case (Cons e es)
  have "requests_sent (e # es) = requests_sent [e] + requests_sent es"
    using requests_sent_simps(2) [of "[e]" es] by simp
  then show ?case
    using Cons.IH [of "earlier @ [e]" "live_effect env w request plan earlier e s"]
      live_effect_calls [of env w request plan earlier e s] by simp
qed simp

text \<open>The model calls of a session that has a model bridge are within the budget of its plan.\<close>

definition calls_within :: "session_env \<Rightarrow> session_world \<Rightarrow> guarded_session_request \<Rightarrow> session_state \<Rightarrow> bool" where
  "calls_within env w request s \<longleftrightarrow> (\<forall>mb. ss_model s = Some mb \<longrightarrow>
     (\<exists>plan token. admit_session env w request = Inr (plan, token)
        \<and> int (mb_model_calls mb) \<le> bp_max_iterations (plan_budgets plan)))"

lemma positive_budget: "is_ok (check_plan_fields plan) \<Longrightarrow> 0 < bp_max_iterations (plan_budgets plan)"
  by (simp add: check_plan_fields_def check_budget_policy_def require_positive_def is_ok_bind_const)

lemma build_session_bridges: "build_session env w request plan token s = (r, s') \<Longrightarrow> ss_model s' = ss_model s"
  by (auto simp: build_session_def Let_def split: sum.splits prod.splits)

lemma start_session_within:
  assumes "start_session env w request = (r, s)"
  shows "calls_within env w request s"
proof (cases "admit_session env w request")
  case (Inr p)
  obtain plan token where p: "p = (plan, token)" by (cases p)
  have "ss_model s = None \<or> ss_model s = Some new_model_bridge"
    using assms Inr p
    by (auto simp: start_session_def new_session_def split: sum.splits prod.splits dest!: build_session_bridges)
  then show ?thesis
    using Inr p positive_budget [of plan] admit_session_sound [of env w request plan token]
    by (auto simp: calls_within_def new_model_bridge_def)
qed (use assms in \<open>auto simp: start_session_def calls_within_def new_session_def\<close>)

lemma forge_build_options:
  assumes "forge_build penv bindings cid plan = Inr wi"
  shows "fwi_runner_options wi = runner_options (plan_budgets plan)"
proof -
  obtain t where "translate_nodes penv bindings (tool_name_by_node_id plan) (plan_nodes plan) no_nodes = Inr t"
    using assms unfolding forge_build_def bind_result_Inr by blast
  then show ?thesis
    using assms by (cases "check_workflow (forge_workflow plan (tn_tools t))") (auto simp: forge_build_def bind_result_Inr)
qed

lemma run_session_loop_within:
  assumes start: "start_session env w request = (Inr run, s)" and loop: "run_session_loop env w request run s = (r, s')"
  shows "calls_within env w request s'"
proof -
  let ?plan = "sr_plan run" and ?live = "live_start (ss_log s)"
  obtain token where admit: "admit_session env w request = Inr (?plan, token)"
    and build: "forge_build (se_pydantic env) (map (tb_implementation_id \<circ> cn_binding) (plan_nodes ?plan)) (Some token) ?plan
      = Inr (sr_input run)"
    using start_session_Inr [OF start] by blast
  let ?rc = "session_runner_config (fwi_runner_options (sr_input run))"
  obtain out ls where run: "run_workflow (session_loop_env env w request ?plan ?live) ?rc (fwi_workflow (sr_input run))
      (sr_context run) [] [] (Some (sr_initial run)) = (out, ls)" by fastforce
  have "rc_max_iterations ?rc = bp_max_iterations (plan_budgets ?plan)"
    by (simp add: forge_build_options [OF build] session_runner_config_def runner_options_def)
  moreover have "0 < bp_max_iterations (plan_budgets ?plan)"
    using admit_session_sound [OF admit] positive_budget by blast
  ultimately have "int (requests_sent (ls_history ls)) \<le> bp_max_iterations (plan_budgets ?plan)"
    using requests_within [OF run] by simp
  moreover have "mb_model_calls (lv_model (session_at env w request ?plan ?live (ls_history ls))) \<le> requests_sent (ls_history ls)"
    using replay_calls [of env w request ?plan "[]" "ls_history ls" ?live]
    by (simp add: session_at_def live_start_def new_model_bridge_def)
  moreover have "ss_model s' = Some (lv_model (session_at env w request ?plan ?live (ls_history ls)))"
    using loop run by (auto simp: run_session_loop_def loop_of_session_def left_session_def Let_def)
  ultimately show ?thesis using admit by (auto simp: calls_within_def)
qed

lemma usage_within:
  assumes "usage_of_session s = Inr (Some u)" and "calls_within env w request s"
  shows "\<exists>plan token. admit_session env w request = Inr (plan, token)
    \<and> int (um_model_calls u) \<le> bp_max_iterations (plan_budgets plan)"
  using assms by (auto simp: usage_of_session_def usage_from_bridges_def bind_result_Inr calls_within_def split: option.splits)

lemma failure_result_usage: "failure_result w request err s = Inr res \<Longrightarrow> usage_of_session s = Inr (res_usage res)"
  by (auto simp: failure_result_def Let_def bind_result_Inr as_validation_def split: prod.splits option.splits sum.splits)

lemma session_outcome:
  assumes "run_session env w request = Inr res"
  shows "res_session_id res = gsr_session_id request
    \<and> map evt_sequence (res_events res) = map int [1..<Suc (length (res_events res))]
    \<and> (case res_terminal_intent res of
         None \<Rightarrow> res_status res \<notin> {TERMINAL_STATUS, REJECTED_STATUS} \<and> res_diagnostic res \<noteq> None
           \<and> res_artifact_refs res = []
       | Some ti \<Rightarrow> res_status res = intent_status ti \<and> res_diagnostic res = None
           \<and> res_artifact_refs res = ti_artifact_refs ti
           \<and> (\<exists>plan token b. admit_session env w request = Inr (plan, token) \<and> plan_sound plan
                \<and> bridge_reachable (session_bridge_env env request plan) b \<and> br_intent b = Some ti
                \<and> intent_sound (session_bridge_env env request plan) b ti \<and> res_tool_trace res = br_trace b))"
    (is "?ends res")
proof -
  have failed: "?ends res" if "failure_result w request err s = Inr res" for err s
    using failure_result_shape [OF that] clause_is_failure [of s err] ordered_events_numbered by (auto simp del: upt_Suc)
  obtain r s where start: "start_session env w request = (r, s)" by fastforce
  show ?thesis
  proof (cases "case r of Inl e \<Rightarrow> (Inl (Session_Error e), s) | Inr run \<Rightarrow> run_session_loop env w request run s")
    case (Pair x s')
    show ?thesis
    proof (cases "\<exists>ti. x = Inr ti \<and> terminal_result_of_session w request ti s' = Inr res")
      case False
      then show ?thesis
        using assms start Pair failed
        by (auto simp: run_session_def split: sum.splits prod.splits)
    next
      case True
      then obtain run ti where run: "r = Inr run" and loop: "run_session_loop env w request run s = (Inr ti, s')"
        and res: "terminal_result_of_session w request ti s' = Inr res"
        using Pair by (auto split: sum.splits)
      obtain token where admit: "admit_session env w request = Inr (sr_plan run, token)"
        using start_session_Inr start run by metis
      from ended_session [OF loop] obtain b where "bridge_reachable (session_bridge_env env request (sr_plan run)) b"
        "br_intent b = Some ti" "ss_tools s' = Some b" by blast
      then have rests: "\<exists>plan token b'. admit_session env w request = Inr (plan, token) \<and> plan_sound plan
          \<and> bridge_reachable (session_bridge_env env request plan) b' \<and> br_intent b' = Some ti
          \<and> intent_sound (session_bridge_env env request plan) b' ti \<and> br_trace b = br_trace b'"
        and b: "session_tools s' = b"
        using admit admit_session_sound [OF admit] reachable_intent_sound by (blast, simp add: session_tools_def)
      have shape: "res_session_id res = gsr_session_id request \<and> res_terminal_intent res = Some ti
          \<and> res_status res = intent_status ti \<and> res_diagnostic res = None
          \<and> res_artifact_refs res = ti_artifact_refs ti \<and> res_tool_trace res = br_trace b
          \<and> (\<exists>es. res_events res = ordered_events es)"
        using res by (auto simp: terminal_result_of_session_def b result_simps)
      then have "map evt_sequence (res_events res) = map int [1..<Suc (length (res_events res))]"
        using ordered_events_numbered by metis
      with shape rests show ?thesis by (simp del: upt_Suc)
    qed
  qed
qed

section \<open>What a session promises\<close>

text \<open>
  C1: what a session answers. Every result of \<open>run_session\<close> belongs to the session that asked, and its
  events are numbered from one without a gap. Either it has no terminal intent, and then it has a
  diagnostic, a status that is neither of the two terminal ones, and no artifacts; or it carries the
  intent of the bridge, and then it has no diagnostic, it is rejected exactly when the disposition of
  the intent is blocked or rejected and terminal otherwise, and the intent rests on a plan that was
  admitted for the request and on a state of the bridge that its calls reached, in which the intent is
  sound, and whose trace is the one the result shows.
\<close>

theorem run_session_outcome:
  assumes "run_session env w request = Inr res"
  shows "res_session_id res = gsr_session_id request
    \<and> map evt_sequence (res_events res) = map int [1..<Suc (length (res_events res))]
    \<and> (case res_terminal_intent res of
         None \<Rightarrow> res_status res \<notin> {TERMINAL_STATUS, REJECTED_STATUS} \<and> res_diagnostic res \<noteq> None
           \<and> res_artifact_refs res = []
       | Some ti \<Rightarrow> res_status res = (if ti_disposition ti \<in> {Blocked, Rejected} then REJECTED_STATUS else TERMINAL_STATUS)
           \<and> res_diagnostic res = None
           \<and> res_artifact_refs res = ti_artifact_refs ti
           \<and> (\<exists>plan token b. admit_session env w request = Inr (plan, token) \<and> plan_sound plan
                \<and> bridge_reachable (session_bridge_env env request plan) b \<and> br_intent b = Some ti
                \<and> intent_sound (session_bridge_env env request plan) b ti \<and> res_tool_trace res = br_trace b))"
  using session_outcome [OF assms] unfolding intent_status_def .

theorem run_session_outcome_witness:
  "\<exists>res. run_session sample_session_env sample_session_world sample_session_request = Inr res
     \<and> res_session_id res = ''session''
     \<and> (res_terminal_intent res = None \<longleftrightarrow> res_diagnostic res \<noteq> None)"
proof -
  obtain res where res: "run_session sample_session_env sample_session_world sample_session_request = Inr res"
    using run_session_answers [OF sample_session_clock sample_session_stage sample_session_usages] by blast
  have "gsr_session_id sample_session_request = ''session''" by (simp add: sample_session_request_def)
  with res run_session_outcome [OF res] show ?thesis by (auto split: option.splits)
qed



text \<open>
  C24: a completed run has an intent. The loop and the bridge agree about terminal tools: when the
  workflow of a session completes, the terminal call that completed it has set the intent of the
  bridge. So the check for a completed workflow without an intent, after the loop, never fires.
\<close>

theorem completed_run_has_intent:
  assumes "start_session env w request = (Inr run, s)"
  shows "fst (run_session_loop env w request run s)
    \<noteq> Inl (Session_Error (forge_bridge_error ''Workflow completed without terminal intent''))"
proof -
  obtain out live where loop: "loop_of_session env w request run (ss_log s) = (out, live)" by fastforce
  have raised: "lv_raised live \<noteq> Some (forge_bridge_error m)" for m
  proof
    assume "lv_raised live = Some (forge_bridge_error m)"
    then obtain e where "forge_bridge_error m = validation_error e" using loop_of_session_raised [OF loop] by blast
    then show False by (simp add: forge_bridge_error_def validation_error_def exception_of_def)
  qed
  have cancelled: "check_cancelled w 2 \<noteq> Inl (forge_bridge_error m)" for m
    by (simp add: check_cancelled_def demand_def session_cancelled_def forge_bridge_error_def exception_of_def)
  show ?thesis
    using raised cancelled completed_loop_intent [OF assms, of "ss_log s" _ live] loop
    by (cases "lv_raised live") (auto simp: run_session_loop_def split: option.splits run_outcome.splits sum.splits)
qed

theorem completed_run_has_intent_witness:
  "\<exists>run s. start_session sample_session_env sample_session_world sample_session_request = (Inr run, s)
     \<and> fst (run_session_loop sample_session_env sample_session_world sample_session_request run s)
         \<noteq> Inl (Session_Error (forge_bridge_error ''Workflow completed without terminal intent''))"
proof -
  obtain run s where "start_session sample_session_env sample_session_world sample_session_request = (Inr run, s)"
    by (rule sample_session_started)
  with completed_run_has_intent [OF this] show ?thesis by blast
qed

text \<open>
  C25: the iteration budget of the plan bounds the model calls a session reports. Whether it ends in
  an intent or in a failure, a result with a usage comes from an admitted plan, and the calls of the
  model it counts are at most \<^verbatim>\<open>max_iterations\<close> of the budgets of that plan, retries included.
\<close>

theorem session_model_calls_bounded:
  assumes "run_session env w request = Inr res" and "res_usage res = Some u"
  shows "\<exists>plan token. admit_session env w request = Inr (plan, token)
    \<and> int (um_model_calls u) \<le> bp_max_iterations (plan_budgets plan)"
proof -
  have within: ?thesis if "usage_of_session s = Inr (res_usage res)" "calls_within env w request s" for s
    using usage_within that assms(2) by simp
  have failed: ?thesis if "failure_result w request err s = Inr res" "calls_within env w request s" for err s
    using within failure_result_usage that by blast
  obtain r s where start: "start_session env w request = (r, s)" by fastforce
  note s = start_session_within [OF start]
  show ?thesis
  proof (cases r)
    case (Inl e)
    then show ?thesis using assms(1) start failed [OF _ s] by (simp add: run_session_def)
  next
    case (Inr run)
    obtain x s' where loop: "run_session_loop env w request run s = (x, s')" by fastforce
    note s' = run_session_loop_within [OF start [unfolded Inr] loop]
    show ?thesis
      using assms(1) start Inr loop failed [OF _ s'] within [OF _ s']
      by (auto simp: run_session_def terminal_result_of_session_def bind_result_Inr split: sum.splits)
  qed
qed

theorem session_model_calls_bounded_witness:
  "\<exists>res u. run_session sample_session_env sample_session_world sample_session_request = Inr res
     \<and> res_usage res = Some u \<and> um_model_calls u \<le> 4"
proof -
  obtain res where res: "run_session sample_session_env sample_session_world sample_session_request = Inr res"
    using run_session_answers [OF sample_session_clock sample_session_stage sample_session_usages] by blast
  obtain run s where start: "start_session sample_session_env sample_session_world sample_session_request = (Inr run, s)"
    by (rule sample_session_started)
  obtain x s' where loop: "run_session_loop sample_session_env sample_session_world sample_session_request run s = (x, s')"
    by fastforce
  then obtain mb b where "ss_model s' = Some mb" "ss_tools s' = Some b"
    by (auto simp: run_session_loop_def left_session_def split: prod.splits)
  then have "usage_of_session s' \<noteq> Inr None"
    by (simp add: usage_of_session_def bind_result_Inr)
  moreover have "usage_of_session s' = Inr (res_usage res)"
    using res start loop failure_result_usage
    by (auto simp: run_session_def terminal_result_of_session_def bind_result_Inr split: sum.splits)
  ultimately obtain u where u: "res_usage res = Some u" by (cases "res_usage res") auto
  have "bp_max_iterations (plan_budgets session_plan) = 4" by (simp add: session_plan_def sample_plan_def)
  then show ?thesis
    using session_model_calls_bounded [OF res u] res u by (auto simp: sample_session_admitted)
qed

text \<open>
  A session that ends because the model gave no valid tool call counts the tools it executed in the
  usage, and shows none of them: its trace is empty.
\<close>

theorem malformed_call_trace_dropped:
  assumes "failure_result w request (Loop_Error (ToolCallError m raw)) s = Inr res"
    and "ss_model s = Some mb" and "ss_tools s = Some b"
  shows "res_status res = MODEL_FAILED \<and> res_tool_trace res = []
    \<and> (\<exists>u. res_usage res = Some u
         \<and> um_tool_calls u = length (filter (\<lambda>t. tr_execution_status t \<noteq> NOT_EXECUTED) (br_trace b)))"
  using assms
  by (cases "emit_events request (sw_stamp w) (fc_first (clause_for s (Loop_Error (ToolCallError m raw)))) (ss_log s)")
    (auto simp: failure_result_def clause_for_def instance_of_def exception_of_def failure_clause_of_def Let_def
      usage_of_session_def usage_from_bridges_def executed_tool_calls_def as_validation_def new_bridge_def result_simps
      split: option.splits sum.splits)

end
