(* ===== verification/Spec2Isabelle.thy ===== *)
theory Spec2Isabelle
  imports Service Session_Safety
begin

text \<open>
  A verification library for \<^verbatim>\<open>millforge\<close> (the package \<^verbatim>\<open>src/millforge\<close>): a compiler from
  declarative tool-calling harnesses to compiled plans, and a guarded runtime that executes such
  a plan with a language model.

  \<^bold>\<open>The program.\<close> A harness source names nodes (tools with prerequisites between them), declared
  artifacts, terminal results and policies. The compiler validates it, resolves it against a tool
  catalog and a model-profile catalog, and lowers it to a compiled plan with a canonical JSON
  text and a SHA-256 digest. A session of the runtime verifies the plan, turns it into a workflow,
  and lets a model call its tools in a loop. The loop's guardrails judge what the model answers; a
  second guard, the tool bridge, judges each call again against the plan, runs the tool, records a
  trace and events, and turns the accepted terminal call into the intent that the session returns.

  \<^bold>\<open>Conventions.\<close> An exception is the left value of a sum (\<open>Raise\<close>, of \<open>py_error\<close>, which
  carries the class and the message), an object that a method mutates is returned updated. A class
  with validators is a \<open>record\<close>, and the function \<open>check_\<close> of it runs its validators in their
  order, giving the object back or the first error (Pydantic reports all failed checks of an
  object at once, as one error). A field with a strict type is a HOL field of that type, so type
  errors and unknown keys do not arise at a constructor; where the program reads raw JSON
  (schemas, arguments, payloads, rescued text) the model reads the datatype \<open>json\<close>. Python's
  integers are \<open>int\<close> or \<open>nat\<close>, finite floats are rationals, a dictionary is an insertion-ordered
  association list, a text is a list of characters.

  \<^bold>\<open>The theories\<close>, with the code they model (below \<^verbatim>\<open>src/millforge\<close>).

  \<^item> \<^verbatim>\<open>Prelude\<close>: results and their monad, the collections \<open>result_simps\<close> and others,
    dictionaries, duplicate-free lists, sorting.
  \<^item> \<^verbatim>\<open>Validators\<close> (\<^verbatim>\<open>compiler/validators.py\<close>): identifier grammars as recognisers. The locale
    \<open>identity_validator\<close> is the contract of every validator: it returns its argument or raises.
  \<^item> \<^verbatim>\<open>Json\<close>, \<^verbatim>\<open>Diagnostics\<close> (\<^verbatim>\<open>compiler/diagnostics.py\<close>): JSON values and their canonical
    printing; the registry of codes, diagnostics, the bounded sorted report (C2).
  \<^item> \<^verbatim>\<open>Schema_Subset\<close> (\<^verbatim>\<open>compiler/schema_validation.py\<close>), \<^verbatim>\<open>Source\<close> (\<^verbatim>\<open>compiler/source.py\<close>),
    \<^verbatim>\<open>Catalog\<close> (\<^verbatim>\<open>compiler/catalogs.py\<close>), \<^verbatim>\<open>Requests\<close> (\<^verbatim>\<open>compiler/requests.py\<close>): the
    inputs of the compiler and the contracts of its results. Shown are exactness of the contracts
    and idempotence of the schema normal form.
  \<^item> \<^verbatim>\<open>Digraph\<close>, \<^verbatim>\<open>Graph\<close>, \<^verbatim>\<open>Graph_Correct\<close> (\<^verbatim>\<open>compiler/graph.py\<close>): Tarjan's search and the
    worklist loops, the validation of the prerequisite graph, and what a validation without
    diagnostics means.
  \<^item> \<^verbatim>\<open>Requirements\<close> (\<^verbatim>\<open>compiler/capabilities.py\<close>, \<^verbatim>\<open>compiler/artifact_validation.py\<close>): grants
    and the producibility of artifacts.
  \<^item> \<^verbatim>\<open>Compiled_Plan\<close>, \<^verbatim>\<open>Trace\<close> (\<^verbatim>\<open>compiled_plan.py\<close>): the plan with its cross-field
    invariants, its digest and its loading; session events and tool traces.
  \<^item> \<^verbatim>\<open>Semantic\<close> (\<^verbatim>\<open>compiler/semantic.py\<close>), \<^verbatim>\<open>Lowering\<close> (\<^verbatim>\<open>compiler/lowering.py\<close>,
    \<^verbatim>\<open>compiler/canonicalization.py\<close>), \<^verbatim>\<open>Service\<close> (\<^verbatim>\<open>compiler/service.py\<close>): the phases
    composed. \<open>lowered_plan\<close> is the abstract lowering that \<open>lower_resolved_harness\<close> refines, and
    \<open>compile_in_memory_exact\<close> says when a source compiles. That digests and canonical texts exist
    is shown from the finiteness of admitted schemas; what is asked of the environment is
    \<open>hash_law\<close> (a digest is the text of a SHA-256) and \<open>codec_law\<close> (decoding undoes encoding for the
    plan with its own digest).
  \<^item> \<^verbatim>\<open>Messages\<close> (\<^verbatim>\<open>_forge/core/messages.py\<close>, \<^verbatim>\<open>_forge/prompts/nudges.py\<close>), \<^verbatim>\<open>Rescue\<close>
    (\<^verbatim>\<open>_forge/prompts/templates.py\<close>), \<^verbatim>\<open>Guardrails\<close> (\<^verbatim>\<open>_forge/core/steps.py\<close>,
    \<^verbatim>\<open>_forge/guardrails/\<close>), \<^verbatim>\<open>Compaction\<close> (\<^verbatim>\<open>_forge/context/\<close>): the parts of the loop. The
    locale \<open>attempt_budget\<close> is the interface of its counters; \<open>guard_run\<close> is any sequence of checks
    and recordings through the facade, over which its two budgets are exact.
  \<^item> \<^verbatim>\<open>Inference\<close>, \<^verbatim>\<open>Loop\<close>, \<^verbatim>\<open>Loop_Safety\<close> (\<^verbatim>\<open>_forge/core/inference.py\<close>,
    \<^verbatim>\<open>_forge/core/runner.py\<close>): a round of inference with its retries, the guarded loop, its
    termination and the order in which tools run.
  \<^item> \<^verbatim>\<open>Selected_Output\<close>, \<^verbatim>\<open>Contracts\<close> (\<^verbatim>\<open>contracts.py\<close>), \<^verbatim>\<open>Tool_Results\<close>
    (\<^verbatim>\<open>tools/results.py\<close>, the output policy of \<^verbatim>\<open>tools/registry.py\<close>): the values a session
    exchanges, with their validators.
  \<^item> \<^verbatim>\<open>Tool_Schema\<close> (\<^verbatim>\<open>_forge/core/workflow.py\<close>), \<^verbatim>\<open>Workflow_Factory\<close>,
    \<^verbatim>\<open>Tool_Bridge\<close>, \<^verbatim>\<open>Bridge_Safety\<close> (\<^verbatim>\<open>_forge/adapter.py\<close>): from a plan to a workflow, the
    tool bridge, and the invariants of every state it reaches. The locales \<open>bridge_recording\<close> and
    \<open>bridge_invariant\<close> are the contract of a property of the bridge's state: which elementary
    updates have to keep it; they are interpreted for the ownership of results, for the validity
    of the records and for the fact that a recording changes nothing but the records.
  \<^item> \<^verbatim>\<open>Model_Bridge\<close> (\<^verbatim>\<open>contracts.py\<close>, \<^verbatim>\<open>_forge/adapter.py\<close>): the messages, requests and
    responses of a model, the translation of what the loop sends, the event translator and the
    model bridge.
  \<^item> \<^verbatim>\<open>Session\<close>, \<^verbatim>\<open>Session_Safety\<close> (\<^verbatim>\<open>ForgeGuardrailBackend.run_session\<close> of
    \<^verbatim>\<open>_forge/adapter.py\<close>): the whole session. \<open>admit_session\<close> is what precedes the first event,
    \<open>build_session\<close> the construction, \<open>run_session_loop\<close> the loop with the checks after it,
    \<open>clause_for\<close> and \<open>failure_result\<close> the \<^verbatim>\<open>except\<close> clauses. The loop knows its client and its
    tools as functions of the history of effects; the two bridges are objects with a state, so
    their state is replayed from that history, every effect being one call of a bridge. Shown are
    that a session ends in a result, what that result rests on, that a completed run has an intent,
    and that the model calls a result counts are within the budget of the plan (the locale
    \<open>bridge_invariant\<close> for the intent, \<open>loop_invariant\<close> for the outcomes and the budget).

  \<^bold>\<open>Parameters.\<close> What is not the program's own code is an argument: SHA-256, \<^verbatim>\<open>json.loads\<close>, the
  conversion of a JSON value to the typed fields of a class (Pydantic), the class Pydantic builds of
  a parameter model and the schema it shows, the printing of a float, the redaction (regular
  expressions over many languages of secrets), the float products of the compaction, the catalogs,
  the version of the installed distribution. Model client, tools, executor, clock and
  cancellation token are functions of the whole history of effects, or of an environment given per
  call, so that they may answer in any way. No property assumes a law of any of them but those
  its statement lists; each such property has a witness with concrete functions.

  \<^bold>\<open>Termination and fuel.\<close> The recursion of Tarjan's search and the satisfiability recursion take
  fuel, which stands for the interpreter's stack; \<open>tarjan_components_correct\<close> shows that the number
  of nodes is enough. The worklist loops are \<open>function\<close>s over the unvisited nodes. The guarded loop is
  \<open>function\<close> over the iterations left, and \<open>run_requests_bounded\<close> bounds the requests it makes,
  retries included. Nesting-bounded recursions over JSON values are structural.

  \<^bold>\<open>What the properties found.\<close> The manifest lists the deviations: among them a long prerequisite
  cycle that is reported as an internal error, keeping no recent iterations that keeps all, a
  prerequisite of two argument matches that compiles but cannot run, a denial result that cannot be
  recorded when it says that the tool was not executed, and a malformed tool call that makes the
  result hide the trace of the tools that ran.

  \<^bold>\<open>Not modelled.\<close> Reading the file system, YAML and Markdown (\<^verbatim>\<open>compiler/parsing.py\<close>, the file
  entry points of \<^verbatim>\<open>compiler/service.py\<close>), publishing artifacts and the command line
  (\<^verbatim>\<open>runtime.py\<close>, \<^verbatim>\<open>artifacts.py\<close>); HTTP clients (\<^verbatim>\<open>model_backend.py\<close>,
  \<^verbatim>\<open>_forge/clients/\<close>); the tools themselves (\<^verbatim>\<open>tools/\<close>), connectors and plug-in processes, the
  packaged harnesses, and the evaluation driver (\<^verbatim>\<open>eval_*.py\<close>): input and output around the modelled
  contracts. The asynchronous waits of a session (\<^verbatim>\<open>asyncio\<close>) are their outcomes, and the task
  that watches the cancellation token is the moment at which the loop finds its event set.
\<close>

end
